(* ===== verification/Prelude.thy ===== *)
theory Prelude
  imports Complex_Main "HOL-Library.Code_Target_Nat"
begin

text \<open>
  Shared vocabulary of the development: the result type, the fragment of Go's standard library
  the sources use on byte strings (decimal digits, \<^verbatim>\<open>strings.TrimSpace\<close>, \<^verbatim>\<open>strings.ToUpper\<close>,
  \<^verbatim>\<open>strings.TrimRight\<close>, \<^verbatim>\<open>strings.IndexByte\<close>), and the generic lemmas on digit strings, lists and
  tables of rows the components rest on.

  A Go string is a byte string: HOL's \<^typ>\<open>string\<close> is a list of 8-bit characters, so \<open>length\<close> is Go's
  \<^verbatim>\<open>len\<close>. A Go function that returns \<^verbatim>\<open>(T, error)\<close> returns a value of \<open>('e, 'a) result\<close>, \<open>Inl\<close> for the error.
\<close>

named_theorems status_simps \<open>unfolding rules of the status predicates and tables\<close>
named_theorems amount_simps \<open>rules of the decimal amounts\<close>
named_theorems row_simps \<open>rules of table rows and their projections\<close>
named_theorems frame \<open>what an operation leaves unchanged\<close>

type_synonym ('e, 'a) result = "'e + 'a"

definition rbind :: "('e, 'a) result \<Rightarrow> ('a \<Rightarrow> ('e, 'b) result) \<Rightarrow> ('e, 'b) result" where
  "rbind r f = (case r of Inl e \<Rightarrow> Inl e | Inr a \<Rightarrow> f a)"

lemma rbind_simps [simp]:
  "rbind (Inl e) f = Inl e"
  "rbind (Inr a) f = f a"
  by (simp_all add: rbind_def)

lemma rbind_Inr_iff: "rbind r f = Inr b \<longleftrightarrow> (\<exists>a. r = Inr a \<and> f a = Inr b)"
  by (cases r) simp_all

lemma rbindE:
  assumes "rbind r f = Inr b"
  obtains a where "r = Inr a" "f a = Inr b"
  using assms by (auto simp: rbind_Inr_iff)

section \<open>Decimal digits\<close>

definition is_digit :: "char \<Rightarrow> bool" where
  "is_digit c \<longleftrightarrow> (48::nat) \<le> of_char c \<and> of_char c \<le> (57::nat)"

definition digit_val :: "char \<Rightarrow> nat" where
  "digit_val c = of_char c - 48"

definition digit_char :: "nat \<Rightarrow> char" where
  "digit_char n = char_of (n + 48)"

text \<open>The number a run of digits denotes, most significant digit first.\<close>

fun digits_val_acc :: "nat \<Rightarrow> string \<Rightarrow> nat" where
  "digits_val_acc n [] = n"
| "digits_val_acc n (c # cs) = digits_val_acc (10 * n + digit_val c) cs"

definition digits_val :: "string \<Rightarrow> nat" where
  "digits_val s = digits_val_acc 0 s"

text \<open>The digits of a number, no leading zero (\<^verbatim>\<open>big.Int.String\<close> of a non-negative number).\<close>

fun digits_of :: "nat \<Rightarrow> string" where
  "digits_of n = (if n < 10 then [digit_char n] else digits_of (n div 10) @ [digit_char (n mod 10)])"

declare digits_of.simps [simp del]

text \<open>\<open>n\<close> written with at least \<open>k\<close> digits.\<close>

definition pad_digits :: "nat \<Rightarrow> nat \<Rightarrow> string" where
  "pad_digits k n = replicate (k - length (digits_of n)) (CHR ''0'') @ digits_of n"

lemma is_digit_zero [simp]: "is_digit (CHR ''0'')" "digit_val (CHR ''0'') = 0"
  by (simp_all add: is_digit_def digit_val_def)

lemma not_digit_dot [simp]: "\<not> is_digit (CHR ''.'')" "\<not> is_digit (CHR ''-'')" "\<not> is_digit (CHR ''+'')"
  by (simp_all add: is_digit_def)

lemma digit_char_val [simp]: "n < 10 \<Longrightarrow> digit_val (digit_char n) = n"
  by (simp add: digit_val_def digit_char_def)

lemma digit_char_digit [simp]: "n < 10 \<Longrightarrow> is_digit (digit_char n)"
  by (simp add: is_digit_def digit_char_def)

lemma digit_val_less: "is_digit c \<Longrightarrow> digit_val c < 10"
  by (auto simp: is_digit_def digit_val_def)

lemma digit_char_of_val: "is_digit c \<Longrightarrow> digit_char (digit_val c) = c"
  by (simp add: is_digit_def digit_val_def digit_char_def)

lemma digit_char_zero_iff: "n < 10 \<Longrightarrow> digit_char n = CHR ''0'' \<longleftrightarrow> n = 0"
  by (metis digit_char_val is_digit_zero digit_char_of_val)

lemma digits_val_acc_append: "digits_val_acc n (xs @ ys) = digits_val_acc (digits_val_acc n xs) ys"
  by (induction xs arbitrary: n) auto

lemma digits_val_acc_scale: "digits_val_acc n xs = n * 10 ^ length xs + digits_val_acc 0 xs"
proof (induction xs arbitrary: n)
  case Nil
  then show ?case by simp
next
  case (Cons c cs)
  have "digits_val_acc n (c # cs) = (10 * n + digit_val c) * 10 ^ length cs + digits_val_acc 0 cs"
    using Cons[of "10 * n + digit_val c"] by simp
  moreover have "digits_val_acc 0 (c # cs) = digit_val c * 10 ^ length cs + digits_val_acc 0 cs"
    using Cons[of "digit_val c"] by simp
  ultimately show ?case by (simp add: algebra_simps)
qed

lemma digits_val_Nil [simp]: "digits_val [] = 0"
  by (simp add: digits_val_def)

lemma digits_val_append: "digits_val (xs @ ys) = digits_val xs * 10 ^ length ys + digits_val ys"
  using digits_val_acc_scale[of "digits_val_acc 0 xs" ys]
  by (simp add: digits_val_def digits_val_acc_append)

lemma digits_val_single [simp]: "digits_val [c] = digit_val c"
  by (simp add: digits_val_def)

lemma digits_val_zeros [simp]: "digits_val (replicate k (CHR ''0'')) = 0"
proof (induction k)
  case (Suc k)
  have "replicate (Suc k) (CHR ''0'') = [CHR ''0''] @ replicate k (CHR ''0'')" by simp
  then show ?case using Suc digits_val_append[of "[CHR ''0'']" "replicate k (CHR ''0'')"] by simp
qed simp

lemma digits_val_less: "\<forall>c\<in>set s. is_digit c \<Longrightarrow> digits_val s < 10 ^ length s"
proof (induction s rule: rev_induct)
  case (snoc c s)
  then have "digits_val s + 1 \<le> 10 ^ length s" by simp
  then have "digits_val s * 10 + 10 \<le> 10 ^ length s * 10" by linarith
  with snoc.prems digit_val_less[of c] show ?case by (simp add: digits_val_append)
qed simp

lemma digits_of_nonempty [simp]: "digits_of n \<noteq> []"
  by (subst digits_of.simps) simp

lemma digits_of_digits: "c \<in> set (digits_of n) \<Longrightarrow> is_digit c"
proof (induction n rule: digits_of.induct)
  case (1 n)
  then show ?case by (subst (asm) (2) digits_of.simps) (auto split: if_splits)
qed

lemma digits_val_digits_of [simp]: "digits_val (digits_of n) = n"
proof (induction n rule: digits_of.induct)
  case (1 n)
  show ?case
  proof (cases "n < 10")
    case True
    then show ?thesis by (subst digits_of.simps) simp
  next
    case False
    with 1 show ?thesis by (subst digits_of.simps) (simp add: digits_val_append)
  qed
qed

lemma hd_digits_of: "hd (digits_of n) = CHR ''0'' \<longleftrightarrow> n = 0"
proof (induction n rule: digits_of.induct)
  case (1 n)
  show ?case
  proof (cases "n < 10")
    case True
    then show ?thesis by (subst digits_of.simps) (simp add: digit_char_zero_iff)
  next
    case False
    with 1 have "hd (digits_of (n div 10)) \<noteq> CHR ''0''" by auto
    with False show ?thesis by (subst digits_of.simps) (simp add: hd_append)
  qed
qed

lemma length_digits_of_le: "n < 10 ^ k \<Longrightarrow> 0 < k \<Longrightarrow> length (digits_of n) \<le> k"
proof (induction n arbitrary: k rule: digits_of.induct)
  case (1 n)
  show ?case
  proof (cases "n < 10")
    case True
    with 1(3) show ?thesis by (subst digits_of.simps) simp
  next
    case False
    with 1(2) have "1 < k" by (cases "k = 0 \<or> k = 1") auto
    then obtain j where k: "k = Suc j" "0 < j" by (cases k) auto
    with 1(2) have "n div 10 < 10 ^ j" by (simp add: less_mult_imp_div_less mult.commute)
    with 1(1) False k have "length (digits_of (n div 10)) \<le> j" by simp
    with False k show ?thesis by (subst digits_of.simps) simp
  qed
qed

lemma digits_of_unique:
  assumes "\<forall>c\<in>set s. is_digit c" and "s \<noteq> []" and "hd s = CHR ''0'' \<longrightarrow> s = [CHR ''0'']"
  shows "digits_of (digits_val s) = s"
  using assms
proof (induction s rule: rev_induct)
  case (snoc c s)
  have c: "is_digit c" using snoc.prems by simp
  have val: "digits_val (s @ [c]) = digits_val s * 10 + digit_val c" by (simp add: digits_val_append)
  show ?case
  proof (cases "s = []")
    case True
    then show ?thesis using c digit_val_less[OF c]
      by (subst digits_of.simps) (simp add: digit_char_of_val)
  next
    case False
    with snoc.prems have nz: "hd s \<noteq> CHR ''0''" by (auto simp: hd_append)
    with snoc False have IH: "digits_of (digits_val s) = s" by auto
    with nz have "digits_val s \<noteq> 0" by (metis hd_digits_of)
    then have "\<not> digits_val (s @ [c]) < 10" using val by simp
    moreover have "digits_val (s @ [c]) div 10 = digits_val s" "digits_val (s @ [c]) mod 10 = digit_val c"
      using val digit_val_less[OF c] by simp_all
    ultimately show ?thesis using IH c by (subst digits_of.simps) (simp add: digit_char_of_val)
  qed
qed simp

lemma pad_digits_val [simp]: "digits_val (pad_digits k n) = n"
  by (simp add: pad_digits_def digits_val_append)

lemma pad_digits_digits: "c \<in> set (pad_digits k n) \<Longrightarrow> is_digit c"
  by (auto simp: pad_digits_def digits_of_digits)

lemma length_pad_digits [simp]: "n < 10 ^ k \<Longrightarrow> 0 < k \<Longrightarrow> length (pad_digits k n) = k"
  using length_digits_of_le[of n k] by (simp add: pad_digits_def)

section \<open>Byte strings\<close>

text \<open>
  \<^verbatim>\<open>strings.TrimSpace\<close> removes leading and trailing Unicode white space. The runes with the
  property are the six ASCII ones and, in UTF-8, U+0085, U+00A0, U+1680, U+2000 to U+200A, U+2028,
  U+2029, U+202F, U+205F and U+3000.
\<close>

definition space_runes :: "string list" where
  "space_runes =
     map (map char_of)
       ([[9], [10], [11], [12], [13], [32], [194, 133], [194, 160], [225, 154, 128],
         [226, 128, 128], [226, 128, 129], [226, 128, 130], [226, 128, 131], [226, 128, 132],
         [226, 128, 133], [226, 128, 134], [226, 128, 135], [226, 128, 136], [226, 128, 137],
         [226, 128, 138], [226, 128, 168], [226, 128, 169], [226, 128, 175], [226, 129, 159],
         [227, 128, 128]] :: nat list list)"

definition lead_rune :: "string list \<Rightarrow> string \<Rightarrow> nat" where
  "lead_rune runes s =
     (case find (\<lambda>r. take (length r) s = r) runes of None \<Rightarrow> 0 | Some r \<Rightarrow> length r)"

lemma lead_rune_pos: "lead_rune runes s \<noteq> 0 \<Longrightarrow> s \<noteq> []"
  by (auto simp: lead_rune_def find_Some_iff split: option.splits)

function trim_runes :: "string list \<Rightarrow> string \<Rightarrow> string" where
  "trim_runes runes s =
     (if lead_rune runes s = 0 then s else trim_runes runes (drop (lead_rune runes s) s))"
  by pat_completeness auto
termination
  by (relation "measure (\<lambda>(runes, s). length s)") (use lead_rune_pos in auto)

declare trim_runes.simps [simp del]

definition TrimSpace :: "string \<Rightarrow> string" where
  "TrimSpace s = rev (trim_runes (map rev space_runes) (rev (trim_runes space_runes s)))"

text \<open>\<^verbatim>\<open>strings.TrimSpace(s) == ""\<close>, the packages' local helper \<^verbatim>\<open>blank\<close>.\<close>

definition blank :: "string \<Rightarrow> bool" where
  "blank s \<longleftrightarrow> TrimSpace s = []"

text \<open>\<^verbatim>\<open>strings.ToUpper\<close> as far as its result can be ASCII: the ASCII letters and the two runes whose upper
  case is an ASCII letter, U+0131 (dotless i) and U+017F (long s). Every other byte is left as it is;
  the callers look currency codes up.\<close>

definition upper_char :: "char \<Rightarrow> char" where
  "upper_char c =
     (if (97::nat) \<le> of_char c \<and> of_char c \<le> (122::nat) then char_of ((of_char c :: nat) - 32) else c)"

fun ToUpper :: "string \<Rightarrow> string" where
  "ToUpper [] = []"
| "ToUpper [a] = [upper_char a]"
| "ToUpper (a # b # s) =
     (if [a, b] = map char_of [196 :: nat, 177] then CHR ''I'' # ToUpper s
      else if [a, b] = map char_of [197 :: nat, 191] then CHR ''S'' # ToUpper s
      else upper_char a # ToUpper (b # s))"

text \<open>\<^verbatim>\<open>strings.ToLower\<close>: written out for ASCII texts; on others it is the function \<open>L\<close>.\<close>

definition is_ascii :: "string \<Rightarrow> bool" where
  "is_ascii s \<longleftrightarrow> list_all (\<lambda>c. of_char c < (128 :: nat)) s"

definition lower_char :: "char \<Rightarrow> char" where
  "lower_char c = (if (65 :: nat) \<le> of_char c \<and> of_char c \<le> (90 :: nat) then char_of ((of_char c :: nat) + 32) else c)"

definition ToLower :: "(string \<Rightarrow> string) \<Rightarrow> string \<Rightarrow> string" where
  "ToLower L s = (if is_ascii s then map lower_char s else L s)"

text \<open>\<^verbatim>\<open>strings.IndexByte\<close> with \<^verbatim>\<open>None\<close> for -1, \<^verbatim>\<open>strings.TrimRight(s, "0")\<close>, \<^verbatim>\<open>strings.Join\<close>.\<close>

fun IndexByte :: "string \<Rightarrow> char \<Rightarrow> nat option" where
  "IndexByte [] c = None"
| "IndexByte (x # xs) c = (if x = c then Some 0 else map_option Suc (IndexByte xs c))"

definition TrimRightZeros :: "string \<Rightarrow> string" where
  "TrimRightZeros s = rev (dropWhile (\<lambda>c. c = CHR ''0'') (rev s))"

fun join_with :: "string \<Rightarrow> string list \<Rightarrow> string" where
  "join_with sep [] = []"
| "join_with sep [x] = x"
| "join_with sep (x # y # xs) = x @ sep @ join_with sep (y # xs)"

lemma trim_runes_empty [simp]: "trim_runes runes [] = []"
  using lead_rune_pos[of runes "[]"] by (subst trim_runes.simps) auto

lemma blank_empty [simp]: "blank []" "TrimSpace [] = []"
  by (simp_all add: blank_def TrimSpace_def)

lemma IndexByte_append: "c \<notin> set xs \<Longrightarrow> IndexByte (xs @ c # ys) c = Some (length xs)"
  by (induction xs) auto

lemma IndexByte_None: "IndexByte xs c = None \<longleftrightarrow> c \<notin> set xs"
  by (induction xs) auto

section \<open>Lists and tables of rows\<close>

lemma find_Some_in: "find P xs = Some x \<Longrightarrow> x \<in> set xs \<and> P x"
  by (auto simp: find_Some_iff)

lemma filter_length_one:
  assumes "length (filter P xs) \<le> 1" and "x \<in> set xs" and "y \<in> set xs" and "P x" and "P y"
  shows "x = y"
proof -
  have xy: "x \<in> set (filter P xs)" "y \<in> set (filter P xs)" using assms by simp_all
  then obtain z where "filter P xs = [z]" using assms(1) by (cases "filter P xs") auto
  with xy show ?thesis by simp
qed

lemma in_take_sort_key:
  fixes k :: "'a \<Rightarrow> 'b :: linorder"
  assumes "x \<in> set xs" and "length (filter (\<lambda>y. k y \<le> k x) xs) \<le> n"
  shows "x \<in> set (take n (sort_key k xs))"
proof -
  let ?ys = "sort_key k xs"
  obtain i where i: "i < length ?ys" "?ys ! i = x" using assms(1) by (metis in_set_conv_nth set_sort)
  have "k y \<le> k x" if "y \<in> set (take (Suc i) ?ys)" for y
  proof -
    from that obtain j where "j < Suc i" "j < length ?ys" "y = ?ys ! j" by (auto simp: in_set_conv_nth)
    then show ?thesis using sorted_nth_mono[OF sorted_sort_key[of k xs], of j i] i by simp
  qed
  then have "filter (\<lambda>y. k y \<le> k x) (take (Suc i) ?ys) = take (Suc i) ?ys" by (simp add: filter_id_conv)
  moreover have "length (filter (\<lambda>y. k y \<le> k x) (take (Suc i) ?ys)) \<le> length (filter (\<lambda>y. k y \<le> k x) ?ys)"
    by (metis append_take_drop_id filter_append le_add1 length_append)
  moreover have "length (filter (\<lambda>y. k y \<le> k x) ?ys) = length (filter (\<lambda>y. k y \<le> k x) xs)"
    by (metis filter_sort length_sort)
  ultimately have "Suc i \<le> n" using assms(2) i by simp
  with i show ?thesis by (metis Suc_le_lessD in_set_conv_nth length_take min_less_iff_conj nth_take)
qed

text \<open>\<^verbatim>\<open>UPDATE t SET f WHERE p\<close> on a table kept as the list of its rows.\<close>

definition update_where :: "('r \<Rightarrow> bool) \<Rightarrow> ('r \<Rightarrow> 'r) \<Rightarrow> 'r list \<Rightarrow> 'r list" where
  "update_where p f = map (\<lambda>r. if p r then f r else r)"

lemma length_update_where [simp]: "length (update_where p f rs) = length rs"
  by (simp add: update_where_def)

lemma update_where_Nil [simp]: "update_where p f [] = []"
  by (simp add: update_where_def)

lemma update_where_Cons [simp]:
  "update_where p f (r # rs) = (if p r then f r else r) # update_where p f rs"
  by (simp add: update_where_def)

lemma set_update_where: "set (update_where p f rs) = (\<lambda>r. if p r then f r else r) ` set rs"
  by (simp add: update_where_def)

lemma map_update_where: "(\<And>r. g (f r) = g r) \<Longrightarrow> map g (update_where p f rs) = map g rs"
  by (induction rs) auto

lemma filter_update_where:
  "(\<And>r. q (f r) = q r) \<Longrightarrow> filter q (update_where p f rs) = update_where p f (filter q rs)"
  by (induction rs) auto

end
