(* ===== verification/Pay_Amount.thy ===== *)
theory Pay_Amount
  imports Prelude
begin

text \<open>
  The exact decimals of the payments package (\<^verbatim>\<open>src/payments/money.go\<close>) and the two format checks
  of the capability contracts they rest on (\<^verbatim>\<open>src/capability/schema.go\<close>).

  An \<^verbatim>\<open>Amount\<close> wraps a \<^verbatim>\<open>big.Rat\<close>: an exact rational, here \<^typ>\<open>rat\<close>. Amounts travel as decimal strings
  (the wire form); \<open>ParseAmount\<close> and \<open>Amount_String\<close> are the two directions. The lemmas show that
  what is parsed has at most six decimals, that sums and differences keep that bound, and that the
  wire form loses nothing.
\<close>

section \<open>Errors of the payments package\<close>

text \<open>The sentinel errors of the package; \<open>Panic\<close> is a run-time panic (\<^verbatim>\<open>MustAmount\<close> on a bad string).
  The formatted messages are not modelled.\<close>

datatype pay_error =
    ErrInvalidAmount
  | ErrNotQuantized
  | ErrInvalidTransition
  | ErrTenderMismatch
  | ErrLinesMismatch
  | ErrExceedsTotal
  | ErrNothingDue
  | ErrInvalidTolerance
  | ErrNegativeAmount
  | ErrKeyRequired
  | ErrNotRefundable
  | ErrRefundExceeds
  | ErrRefundCurrency
  | ErrIdempotencyConflict
  | ErrSeller
  | ErrHoldInput
  | ErrHoldTokenShort
  | ErrHeld string int
  | ErrHoldNotOwner
  | ErrHoldExpired
  | ErrUntrustedConfirmation
  | Panic

section \<open>Format checks\<close>

text \<open>\<^verbatim>\<open>^-?(0|[1-9][0-9]*)(\.[0-9]+)?$\<close> and \<^verbatim>\<open>^[A-Z]{3}$\<close>.\<close>

definition int_part_ok :: "string \<Rightarrow> bool" where
  "int_part_ok ds \<longleftrightarrow> ds \<noteq> [] \<and> list_all is_digit ds \<and> (hd ds = CHR ''0'' \<longrightarrow> length ds = 1)"

definition unsigned_part :: "string \<Rightarrow> string" where
  "unsigned_part s = (case s of c # cs \<Rightarrow> (if c = CHR ''-'' then cs else s) | [] \<Rightarrow> [])"

definition ValidDecimal :: "string \<Rightarrow> bool" where
  "ValidDecimal s =
     (let b = unsigned_part s; rest = dropWhile is_digit b
      in int_part_ok (takeWhile is_digit b) \<and>
         (case rest of [] \<Rightarrow> True | c # f \<Rightarrow> c = CHR ''.'' \<and> f \<noteq> [] \<and> list_all is_digit f))"

definition is_upper :: "char \<Rightarrow> bool" where
  "is_upper c \<longleftrightarrow> (65::nat) \<le> of_char c \<and> of_char c \<le> (90::nat)"

definition ValidCurrency :: "string \<Rightarrow> bool" where
  "ValidCurrency s \<longleftrightarrow> length s = 3 \<and> list_all is_upper s"

section \<open>Amounts\<close>

type_synonym amount = rat

definition MaxScale :: nat where
  "MaxScale = 6"

text \<open>\<^verbatim>\<open>big.Rat.SetString\<close> on a string of the decimal grammar.\<close>

definition dec_val :: "string \<Rightarrow> string \<Rightarrow> rat" where
  "dec_val i f = of_nat (digits_val i * 10 ^ length f + digits_val f) / 10 ^ length f"

definition rat_of_decimal :: "string \<Rightarrow> rat" where
  "rat_of_decimal s =
     (let b = unsigned_part s;
          v = dec_val (takeWhile is_digit b) (drop 1 (dropWhile is_digit b))
      in if s \<noteq> [] \<and> hd s = CHR ''-'' then - v else v)"

definition ParseAmount :: "string \<Rightarrow> (pay_error, amount) result" where
  "ParseAmount s =
     (if \<not> ValidDecimal s then Inl ErrInvalidAmount
      else case IndexByte s (CHR ''.'') of
        Some i \<Rightarrow> if length s - i - 1 > MaxScale then Inl ErrInvalidAmount
                  else Inr (rat_of_decimal s)
      | None \<Rightarrow> Inr (rat_of_decimal s))"

definition MustAmount :: "string \<Rightarrow> (pay_error, amount) result" where
  "MustAmount s = (case ParseAmount s of Inr a \<Rightarrow> Inr a | Inl _ \<Rightarrow> Inl Panic)"

definition Amount_Cmp :: "amount \<Rightarrow> amount \<Rightarrow> int" where
  "Amount_Cmp a b = (if a < b then -1 else if a = b then 0 else 1)"

definition Amount_Sign :: "amount \<Rightarrow> int" where
  "Amount_Sign a = (if a < 0 then -1 else if a = 0 then 0 else 1)"

definition Amount_Max :: "amount \<Rightarrow> amount \<Rightarrow> amount" where
  "Amount_Max a b = (if Amount_Cmp a b \<ge> 0 then a else b)"

text \<open>\<^verbatim>\<open>big.Rat.FloatString(MaxScale)\<close>: rounded to six decimals, halves away from zero, the sign of the
  exact value.\<close>

definition FloatString :: "rat \<Rightarrow> string" where
  "FloatString r =
     (let n = nat \<lfloor>\<bar>r\<bar> * 10 ^ MaxScale + 1 / 2\<rfloor>
      in (if r < 0 then ''-'' else []) @ digits_of (n div 10 ^ MaxScale) @ ''.'' @
         pad_digits MaxScale (n mod 10 ^ MaxScale))"

definition Amount_String :: "amount \<Rightarrow> string" where
  "Amount_String a =
     (let s = FloatString a;
          s = (case IndexByte s (CHR ''.'') of
                 None \<Rightarrow> s
               | Some i \<Rightarrow>
                   (let t = TrimRightZeros s
                    in t @ (if length t - i - 1 < 2
                            then replicate (2 - (length t - i - 1)) (CHR ''0'') else [])))
      in if s = ''-0.00'' then ''0.00'' else s)"

definition Amount_scale :: "amount \<Rightarrow> nat" where
  "Amount_scale a =
     (let s = FloatString a
      in case IndexByte s (CHR ''.'') of
           None \<Rightarrow> 0
         | Some i \<Rightarrow> length (TrimRightZeros (drop (i + 1) s)))"

fun Sum_from :: "amount \<Rightarrow> string list \<Rightarrow> (pay_error, amount) result" where
  "Sum_from acc [] = Inr acc"
| "Sum_from acc (v # vs) =
     (case ParseAmount v of Inl e \<Rightarrow> Inl e | Inr a \<Rightarrow> Sum_from (acc + a) vs)"

definition Amount_Sum :: "string list \<Rightarrow> (pay_error, amount) result" where
  "Amount_Sum values = Sum_from 0 values"

section \<open>Currencies\<close>

definition minorUnits :: "string \<rightharpoonup> nat" where
  "minorUnits = map_of
    [(''BIF'', 0), (''CLP'', 0), (''DJF'', 0), (''GNF'', 0), (''ISK'', 0), (''JPY'', 0), (''KMF'', 0),
     (''KRW'', 0), (''PYG'', 0), (''RWF'', 0), (''UGX'', 0), (''UYI'', 0), (''VND'', 0), (''VUV'', 0),
     (''XAF'', 0), (''XOF'', 0), (''XPF'', 0),
     (''BHD'', 3), (''IQD'', 3), (''JOD'', 3), (''KWD'', 3), (''LYD'', 3), (''OMR'', 3), (''TND'', 3),
     (''CLF'', 4), (''UYW'', 4)]"

definition MinorUnits :: "string \<Rightarrow> nat" where
  "MinorUnits currency = (case minorUnits (ToUpper (TrimSpace currency)) of Some n \<Rightarrow> n | None \<Rightarrow> 2)"

definition CheckQuantized :: "amount \<Rightarrow> string \<Rightarrow> (pay_error, unit) result" where
  "CheckQuantized a currency =
     (if Amount_scale a > MinorUnits currency then Inl ErrNotQuantized else Inr ())"

definition ParseMoney :: "string \<Rightarrow> string \<Rightarrow> (pay_error, amount) result" where
  "ParseMoney s currency =
     (case ParseAmount s of
        Inl e \<Rightarrow> Inl e
      | Inr a \<Rightarrow>
          if \<not> ValidCurrency currency then Inl ErrInvalidAmount
          else case CheckQuantized a currency of Inl e \<Rightarrow> Inl e | Inr _ \<Rightarrow> Inr a)"

definition MinorUnit :: "string \<Rightarrow> (pay_error, amount) result" where
  "MinorUnit currency =
     (let n = MinorUnits currency
      in if n = 0 then MustAmount ''1''
         else MustAmount (''0.'' @ replicate (n - 1) (CHR ''0'') @ ''1''))"

section \<open>Comparison and sign\<close>

lemma Amount_Cmp_simps [simp]:
  "Amount_Cmp a b \<ge> 0 \<longleftrightarrow> b \<le> a" "Amount_Cmp a b > 0 \<longleftrightarrow> b < a" "Amount_Cmp a b \<le> 0 \<longleftrightarrow> a \<le> b"
  "Amount_Cmp a b < 0 \<longleftrightarrow> a < b" "Amount_Cmp a b = 0 \<longleftrightarrow> a = b"
  by (auto simp: Amount_Cmp_def)

lemma Amount_Sign_simps [simp]:
  "Amount_Sign a \<ge> 0 \<longleftrightarrow> 0 \<le> a" "Amount_Sign a > 0 \<longleftrightarrow> 0 < a" "Amount_Sign a \<le> 0 \<longleftrightarrow> a \<le> 0"
  "Amount_Sign a < 0 \<longleftrightarrow> a < 0" "Amount_Sign a = 0 \<longleftrightarrow> a = 0"
  by (auto simp: Amount_Sign_def)

lemma Amount_Max_eq [simp]: "Amount_Max a b = max a b"
  by (auto simp: Amount_Max_def max_def)

section \<open>Six decimals\<close>

text \<open>\<open>scaled m a\<close>: \<open>a\<close> is a whole number of units of \<open>10 ^ -m\<close>.\<close>

definition scaled :: "nat \<Rightarrow> rat \<Rightarrow> bool" where
  "scaled m a \<longleftrightarrow> (\<exists>k::int. a = of_int k / 10 ^ m)"

lemma scaled_mono: "scaled m a \<Longrightarrow> m \<le> n \<Longrightarrow> scaled n a"
proof -
  assume "scaled m a" "m \<le> n"
  then obtain k :: int and d where k: "a = of_int k / 10 ^ m" and n: "n = m + d"
    by (auto simp: scaled_def le_iff_add)
  have "a = of_int (k * 10 ^ d) / 10 ^ n" by (simp add: k n power_add)
  then show "scaled n a" unfolding scaled_def by blast
qed

lemma scaled_zero [simp]: "scaled m 0"
  unfolding scaled_def by (rule exI[of _ 0]) simp

lemma scaled_add: "scaled m a \<Longrightarrow> scaled m b \<Longrightarrow> scaled m (a + b)"
  by (auto simp: scaled_def) (metis add_divide_distrib of_int_add)

lemma scaled_uminus: "scaled m a \<Longrightarrow> scaled m (- a)"
  by (auto simp: scaled_def) (metis minus_divide_left of_int_minus)

lemma scaled_diff: "scaled m a \<Longrightarrow> scaled m b \<Longrightarrow> scaled m (a - b)"
  using scaled_add[of m a "- b"] scaled_uminus[of m b] by simp

lemma scaled_nat: "scaled m (of_nat n / 10 ^ m)"
  unfolding scaled_def by (rule exI[of _ "int n"]) simp

lemma scaled_max: "scaled m a \<Longrightarrow> scaled m b \<Longrightarrow> scaled m (max a b)"
  by (simp add: max_def)

lemmas scaled_intros = scaled_zero scaled_add scaled_diff scaled_uminus scaled_max

section \<open>Parsing the parts of a decimal\<close>

lemma unsigned_part_simps [simp]:
  "unsigned_part (CHR ''-'' # s) = s"
  "s \<noteq> [] \<Longrightarrow> hd s \<noteq> CHR ''-'' \<Longrightarrow> unsigned_part s = s"
  by (auto simp: unsigned_part_def split: list.splits)

lemma digits_span:
  assumes "\<forall>c\<in>set ds. is_digit c" and "rest = [] \<or> \<not> is_digit (hd rest)"
  shows "takeWhile is_digit (ds @ rest) = ds" "dropWhile is_digit (ds @ rest) = rest"
proof -
  show "takeWhile is_digit (ds @ rest) = ds"
    using assms by (cases rest) (auto simp: takeWhile_append2 takeWhile_tail)
  show "dropWhile is_digit (ds @ rest) = rest"
    using assms by (cases rest) (auto simp: dropWhile_append2)
qed

lemma int_part_okD: "int_part_ok ds \<Longrightarrow> (\<forall>c\<in>set ds. is_digit c) \<and> ds \<noteq> []"
  by (simp add: int_part_ok_def list_all_iff)

lemma int_part_ok_digits_of: "int_part_ok (digits_of n)"
proof -
  have "hd (digits_of n) = CHR ''0'' \<longrightarrow> length (digits_of n) = 1"
    by (simp add: hd_digits_of) (simp add: digits_of.simps[of 0])
  then show ?thesis by (auto simp: int_part_ok_def list_all_iff digits_of_digits)
qed

lemma decimal_parts:
  assumes i: "int_part_ok i" and f: "list_all is_digit f" "f \<noteq> []" and sg: "sg = [] \<or> sg = ''-''"
  shows "ValidDecimal (sg @ i @ CHR ''.'' # f)"
    and "rat_of_decimal (sg @ i @ CHR ''.'' # f) =
           (if sg = [] then dec_val i f else - dec_val i f)"
    and "IndexByte (sg @ i @ CHR ''.'' # f) (CHR ''.'') = Some (length (sg @ i))"
proof -
  note di = int_part_okD[OF i]
  have hd_i: "hd i \<noteq> CHR ''-''" using di by (metis list.set_sel(1) not_digit_dot(2))
  have up: "unsigned_part (sg @ i @ CHR ''.'' # f) = i @ CHR ''.'' # f"
    using sg di hd_i by (auto simp: hd_append)
  have span: "takeWhile is_digit (i @ CHR ''.'' # f) = i" "dropWhile is_digit (i @ CHR ''.'' # f) = CHR ''.'' # f"
    using digits_span[of i "CHR ''.'' # f"] di by simp_all
  show "ValidDecimal (sg @ i @ CHR ''.'' # f)"
    using i f by (simp add: ValidDecimal_def up span)
  have "hd (sg @ i @ CHR ''.'' # f) = CHR ''-'' \<longleftrightarrow> sg \<noteq> []" using sg di hd_i by (auto simp: hd_append)
  then show "rat_of_decimal (sg @ i @ CHR ''.'' # f) =
      (if sg = [] then dec_val i f else - dec_val i f)"
    by (simp add: rat_of_decimal_def up span Let_def)
  have "CHR ''.'' \<notin> set (sg @ i)" using di sg by (auto simp: not_digit_dot(1))
  then show "IndexByte (sg @ i @ CHR ''.'' # f) (CHR ''.'') = Some (length (sg @ i))"
    using IndexByte_append[of "CHR ''.''" "sg @ i" f] by simp
qed

lemma ParseAmount_parts:
  assumes "int_part_ok i" and "list_all is_digit f" and "f \<noteq> []" and "sg = [] \<or> sg = ''-''"
    and "length f \<le> MaxScale"
  shows "ParseAmount (sg @ i @ CHR ''.'' # f) =
           Inr (if sg = [] then dec_val i f else - dec_val i f)"
  using decimal_parts[OF assms(1-4)] assms(5) by (auto simp: ParseAmount_def)

text \<open>Conversely, what parses is a sign, an integer part and at most six decimals.\<close>

lemma ValidDecimal_cases:
  assumes "ValidDecimal s"
  obtains sg i f where "sg = [] \<or> sg = ''-''" "int_part_ok i" "list_all is_digit f"
    "s = sg @ i @ (if f = [] then [] else CHR ''.'' # f)"
proof -
  define b where "b = unsigned_part s"
  define i where "i = takeWhile is_digit b"
  have b: "b = i @ dropWhile is_digit b" by (simp add: i_def)
  have i: "int_part_ok i" using assms by (simp add: ValidDecimal_def Let_def b_def i_def)
  obtain sg where sg: "sg = [] \<or> sg = ''-''" "s = sg @ b"
  proof (cases "s \<noteq> [] \<and> hd s = CHR ''-''")
    case True
    then show ?thesis using that[of "''-''"] by (cases s) (auto simp: b_def)
  next
    case False
    then show ?thesis using that[of "[]"] by (cases s) (auto simp: b_def unsigned_part_def)
  qed
  obtain f where f: "list_all is_digit f" "dropWhile is_digit b = (if f = [] then [] else CHR ''.'' # f)"
  proof (cases "dropWhile is_digit b")
    case Nil
    then show ?thesis using that[of "[]"] by simp
  next
    case (Cons c f)
    then show ?thesis using that[of f] assms by (simp add: ValidDecimal_def Let_def b_def)
  qed
  show ?thesis using that[of sg i f] sg i f b by simp
qed

lemma rat_of_decimal_int:
  assumes "int_part_ok i" and "sg = [] \<or> sg = ''-''"
  shows "rat_of_decimal (sg @ i) = (if sg = [] then dec_val i [] else - dec_val i [])"
    and "IndexByte (sg @ i) (CHR ''.'') = None"
proof -
  note di = int_part_okD[OF assms(1)]
  have hd_i: "hd i \<noteq> CHR ''-''" using di by (metis list.set_sel(1) not_digit_dot(2))
  have up: "unsigned_part (sg @ i) = i" using assms(2) di hd_i by auto
  have "hd (sg @ i) = CHR ''-'' \<longleftrightarrow> sg \<noteq> []" using assms(2) di hd_i by (auto simp: hd_append)
  moreover have "takeWhile is_digit i = i" "dropWhile is_digit i = []" using digits_span[of i "[]"] di by simp_all
  ultimately show "rat_of_decimal (sg @ i) = (if sg = [] then dec_val i [] else - dec_val i [])"
    using di by (simp only: rat_of_decimal_def up Let_def) auto
  have "CHR ''.'' \<notin> set (sg @ i)" using di assms(2) by (auto simp: not_digit_dot(1))
  then show "IndexByte (sg @ i) (CHR ''.'') = None" by (simp add: IndexByte_None)
qed

lemma ParseAmount_scaled:
  assumes "ParseAmount s = Inr a"
  shows "scaled MaxScale a"
proof -
  have v: "ValidDecimal s" and a: "a = rat_of_decimal s"
    and len: "\<And>j. IndexByte s (CHR ''.'') = Some j \<Longrightarrow> length s - j - 1 \<le> MaxScale"
    using assms by (auto simp: ParseAmount_def split: if_splits option.splits)
  from v obtain sg i f where p: "sg = [] \<or> sg = ''-''" "int_part_ok i" "list_all is_digit f"
    "s = sg @ i @ (if f = [] then [] else CHR ''.'' # f)" by (rule ValidDecimal_cases)
  have sc: "scaled (length f) (if sg = [] then dec_val i f else - dec_val i f)"
    using scaled_nat[of "length f"] scaled_uminus by (auto simp: dec_val_def simp del: of_nat_add of_nat_mult)
  show ?thesis
  proof (cases "f = []")
    case True
    with p a sc have "scaled 0 a" using rat_of_decimal_int(1)[of i sg] by auto
    then show ?thesis by (rule scaled_mono) simp
  next
    case False
    with p have f: "length f \<le> MaxScale" using len decimal_parts(3)[of i f sg] by auto
    from False p a sc have "scaled (length f) a" using decimal_parts(2)[of i f sg] by simp
    then show ?thesis using f by (rule scaled_mono)
  qed
qed

section \<open>Printing\<close>

lemma TrimRightZeros_append: "c \<noteq> CHR ''0'' \<Longrightarrow> TrimRightZeros (xs @ c # ys) = xs @ c # TrimRightZeros ys"
  by (simp add: TrimRightZeros_def dropWhile_append)

lemma TrimRightZeros_split: "\<exists>j. ds = TrimRightZeros ds @ replicate j (CHR ''0'')"
proof -
  let ?z = "takeWhile (\<lambda>c. c = CHR ''0'') (rev ds)"
  have "?z = replicate (length ?z) (CHR ''0'')"
    by (rule replicate_length_same[symmetric]) (auto dest: set_takeWhileD)
  then have "rev ?z = replicate (length ?z) (CHR ''0'')" by (metis rev_replicate)
  moreover have "ds = TrimRightZeros ds @ rev ?z"
    by (metis TrimRightZeros_def rev_append rev_rev_ident takeWhile_dropWhile_id)
  ultimately show ?thesis by metis
qed

lemma TrimRightZeros_last: "TrimRightZeros ds \<noteq> [] \<Longrightarrow> last (TrimRightZeros ds) \<noteq> CHR ''0''"
  unfolding TrimRightZeros_def by (metis (mono_tags, lifting) hd_dropWhile last_rev rev_is_Nil_conv)

lemma TrimRightZeros_digits: "c \<in> set (TrimRightZeros ds) \<Longrightarrow> c \<in> set ds"
  by (metis TrimRightZeros_split UnI1 set_append)

lemma dec_val_zeros: "dec_val i (f @ replicate j (CHR ''0'')) = dec_val i f"
  by (simp add: dec_val_def digits_val_append power_add field_simps)

text \<open>The integer and the fraction digits of an amount of six decimals.\<close>

definition int_digits :: "int \<Rightarrow> string" where
  "int_digits k = digits_of (nat \<bar>k\<bar> div 10 ^ MaxScale)"

definition frac_digits :: "int \<Rightarrow> string" where
  "frac_digits k = pad_digits MaxScale (nat \<bar>k\<bar> mod 10 ^ MaxScale)"

lemma frac_digits_props:
  "\<forall>c\<in>set (frac_digits k). is_digit c" "length (frac_digits k) = MaxScale"
  by (auto simp: frac_digits_def pad_digits_digits MaxScale_def)

lemma int_digits_ok: "int_part_ok (int_digits k)" "CHR ''.'' \<notin> set (int_digits k)"
  using int_part_ok_digits_of digits_of_digits[of "CHR ''.''"] by (auto simp: int_digits_def)

lemma dec_val_digits: "dec_val (int_digits k) (frac_digits k) = \<bar>of_int k / 10 ^ MaxScale\<bar>"
proof -
  have "dec_val (int_digits k) (frac_digits k) = of_nat (nat \<bar>k\<bar>) / 10 ^ MaxScale"
    by (simp only: dec_val_def frac_digits_props(2))
       (simp only: int_digits_def frac_digits_def digits_val_digits_of pad_digits_val div_mult_mod_eq)
  then show ?thesis by simp
qed

lemma FloatString_scaled:
  "FloatString (of_int k / 10 ^ MaxScale) =
     (if k < 0 then ''-'' else []) @ int_digits k @ CHR ''.'' # frac_digits k"
proof -
  have "\<lfloor>\<bar>of_int k / 10 ^ MaxScale\<bar> * 10 ^ MaxScale + 1 / 2 :: rat\<rfloor> = \<bar>k\<bar>"
    by (rule floor_unique) simp_all
  then show ?thesis by (simp add: FloatString_def int_digits_def frac_digits_def divide_less_0_iff Let_def)
qed

definition sig_digits :: "int \<Rightarrow> string" where
  "sig_digits k = TrimRightZeros (frac_digits k)"

lemma sig_digits_props:
  "\<forall>c\<in>set (sig_digits k). is_digit c" "length (sig_digits k) \<le> MaxScale"
  "dec_val i (sig_digits k) = dec_val i (frac_digits k)"
proof -
  obtain j where j: "frac_digits k = sig_digits k @ replicate j (CHR ''0'')"
    using TrimRightZeros_split sig_digits_def by metis
  show "\<forall>c\<in>set (sig_digits k). is_digit c" using frac_digits_props(1)[of k] j by simp
  show "length (sig_digits k) \<le> MaxScale" using frac_digits_props(2)[of k] j by (metis le_add1 length_append)
  show "dec_val i (sig_digits k) = dec_val i (frac_digits k)" using j by (metis dec_val_zeros)
qed

lemma Amount_scale_eq: "Amount_scale (of_int k / 10 ^ MaxScale) = length (sig_digits k)"
proof -
  define sg where "sg = (if k < 0 then ''-'' else [])"
  have "CHR ''.'' \<notin> set (sg @ int_digits k)" using int_digits_ok sg_def by auto
  from IndexByte_append[OF this, of "frac_digits k"]
  have "IndexByte (sg @ int_digits k @ CHR ''.'' # frac_digits k) (CHR ''.'') = Some (length (sg @ int_digits k))"
    by simp
  then show ?thesis
    by (simp add: Amount_scale_def FloatString_scaled sig_digits_def Let_def flip: sg_def)
qed

lemma sig_digits_min:
  assumes "scaled m (of_int k / 10 ^ MaxScale)"
  shows "length (sig_digits k) \<le> m"
proof (rule ccontr)
  assume "\<not> length (sig_digits k) \<le> m"
  then have lt: "m < length (sig_digits k)" by simp
  define t where "t = sig_digits k"
  have len: "length t \<le> MaxScale" using sig_digits_props(2) t_def by simp
  from assms obtain k' :: int where k': "of_int k / 10 ^ MaxScale = (of_int k' / 10 ^ m :: rat)"
    unfolding scaled_def by blast
  have "(10 :: rat) ^ MaxScale = 10 ^ m * 10 ^ (MaxScale - m)"
    using lt len t_def by (simp flip: power_add)
  then have "(of_int k :: rat) = of_int (k' * 10 ^ (MaxScale - m))"
    using k' by (simp add: field_simps)
  then have k: "k = k' * 10 ^ (MaxScale - m)" using of_int_eq_iff by blast
  have "10 ^ (MaxScale - m) dvd nat \<bar>k\<bar>"
    using k by (simp add: nat_abs_mult_distrib nat_power_eq)
  then have dv: "10 ^ (MaxScale - m) dvd nat \<bar>k\<bar> mod 10 ^ MaxScale"
    by (meson dvd_mod le_imp_power_dvd diff_le_self)
  obtain j where j: "frac_digits k = t @ replicate j (CHR ''0'')"
    using TrimRightZeros_split sig_digits_def t_def by metis
  have jl: "j = MaxScale - length t" using frac_digits_props(2)[of k] j by (metis add_diff_cancel_left' length_append length_replicate)
  have "nat \<bar>k\<bar> mod 10 ^ MaxScale = digits_val t * 10 ^ j"
    using j by (metis add.right_neutral digits_val_append digits_val_zeros frac_digits_def length_replicate pad_digits_val)
  with dv jl have "10 ^ (MaxScale - m) dvd digits_val t * 10 ^ (MaxScale - length t)" by simp
  moreover have "MaxScale - m = (length t - m) + (MaxScale - length t)" using lt len t_def by simp
  ultimately have "10 ^ (length t - m) dvd digits_val t" by (simp add: power_add)
  then have ten: "10 dvd digits_val t" using lt t_def
    by (metis dvd_power dvd_trans zero_less_diff)
  have ne: "t \<noteq> []" using lt t_def by auto
  then have "digits_val t = digits_val (butlast t) * 10 + digit_val (last t)"
    by (metis append_butlast_last_id digits_val_append digits_val_single length_Cons list.size(3) power_one_right One_nat_def)
  with ten have "10 dvd digit_val (last t)" by presburger
  moreover have dg: "is_digit (last t)" using sig_digits_props(1) t_def ne last_in_set by blast
  ultimately have "digit_val (last t) = 0" using digit_val_less by (metis dvd_imp_le not_le neq0_conv)
  then have "last t = CHR ''0''" using dg digit_char_of_val is_digit_zero by metis
  then show False using TrimRightZeros_last ne t_def sig_digits_def by metis
qed

lemma Amount_scale_le_iff: "scaled MaxScale a \<Longrightarrow> Amount_scale a \<le> m \<longleftrightarrow> scaled m a"
proof -
  assume "scaled MaxScale a"
  then obtain k :: int where a: "a = of_int k / 10 ^ MaxScale" by (auto simp: scaled_def)
  have "scaled (length (sig_digits k)) a"
  proof -
    have "\<bar>a\<bar> = dec_val (int_digits k) (sig_digits k)"
      using sig_digits_props(3) dec_val_digits a by simp
    then have "scaled (length (sig_digits k)) \<bar>a\<bar>"
      by (simp only: dec_val_def) (rule scaled_nat)
    then show ?thesis using scaled_uminus[of _ "- a"] by (cases "a < 0") auto
  qed
  then have "length (sig_digits k) \<le> m \<Longrightarrow> scaled m a" by (rule scaled_mono)
  then show ?thesis using sig_digits_min[of m k] a Amount_scale_eq[of k] by auto
qed

lemma Amount_String_eq:
  "Amount_String (of_int k / 10 ^ MaxScale) =
     (if k < 0 then ''-'' else []) @ int_digits k @ CHR ''.'' #
     sig_digits k @ replicate (2 - length (sig_digits k)) (CHR ''0'')"
proof -
  define sg where "sg = (if k < 0 then ''-'' else [])"
  define s where "s = sg @ int_digits k @ CHR ''.'' # frac_digits k"
  define u where "u = sg @ int_digits k @ CHR ''.'' # sig_digits k @ replicate (2 - length (sig_digits k)) (CHR ''0'')"
  have nd: "CHR ''.'' \<notin> set (sg @ int_digits k)" using int_digits_ok sg_def by auto
  from IndexByte_append[OF this, of "frac_digits k"]
  have idx: "IndexByte s (CHR ''.'') = Some (length (sg @ int_digits k))" by (simp add: s_def)
  have trim: "TrimRightZeros s = sg @ int_digits k @ CHR ''.'' # sig_digits k"
    using TrimRightZeros_append[of "CHR ''.''" "sg @ int_digits k" "frac_digits k"]
    by (simp add: s_def sig_digits_def)
  have len: "length (TrimRightZeros s) - length (sg @ int_digits k) - 1 = length (sig_digits k)"
    using trim by simp
  have "u \<noteq> ''-0.00''"
  proof
    assume u: "u = ''-0.00''"
    have "sg \<noteq> []"
    proof
      assume "sg = []"
      with u have "hd (int_digits k) = CHR ''-''" using int_part_okD[OF int_digits_ok(1)[of k]]
        by (auto simp: u_def hd_append dest!: arg_cong[of _ _ hd])
      then show False using int_part_okD[OF int_digits_ok(1)[of k]] by (metis list.set_sel(1) not_digit_dot(2))
    qed
    then have neg: "k < 0" and sg: "sg = ''-''" by (auto simp: sg_def split: if_splits)
    with u have "IndexByte (int_digits k @ CHR ''.'' # sig_digits k @ replicate (2 - length (sig_digits k)) (CHR ''0'')) (CHR ''.'')
      = IndexByte ''0.00'' (CHR ''.'')" by (simp add: u_def)
    then have li: "length (int_digits k) = 1" using IndexByte_append[of "CHR ''.''" "int_digits k"] int_digits_ok(2) by simp
    with u sg have id: "int_digits k = ''0''" "sig_digits k @ replicate (2 - length (sig_digits k)) (CHR ''0'') = ''00''"
      by (auto simp: u_def length_Suc_conv)
    have "dec_val (int_digits k) (sig_digits k) = dec_val ''0'' ''00''"
      using id by (metis dec_val_zeros)
    then have "dec_val (int_digits k) (frac_digits k) = 0"
      by (simp add: sig_digits_props(3)) (simp add: dec_val_def digits_val_def digit_val_def)
    then show False using dec_val_digits[of k] neg by simp
  qed
  then show ?thesis
    using idx len trim
    by (cases "length (sig_digits k) < 2")
       (simp_all add: Amount_String_def FloatString_scaled Let_def u_def flip: sg_def s_def)
qed

lemma ParseAmount_String: "scaled MaxScale a \<Longrightarrow> ParseAmount (Amount_String a) = Inr a"
proof -
  assume "scaled MaxScale a"
  then obtain k :: int where a: "a = of_int k / 10 ^ MaxScale" by (auto simp: scaled_def)
  define sg where "sg = (if k < 0 then ''-'' else [])"
  define f where "f = sig_digits k @ replicate (2 - length (sig_digits k)) (CHR ''0'')"
  have f: "list_all is_digit f" "f \<noteq> []" "length f \<le> MaxScale"
    using sig_digits_props(1,2)[of k] by (auto simp: f_def list_all_iff MaxScale_def)
  have "dec_val (int_digits k) f = \<bar>a\<bar>"
    using a by (simp add: f_def dec_val_zeros sig_digits_props(3) dec_val_digits)
  then have "(if sg = [] then dec_val (int_digits k) f else - dec_val (int_digits k) f) = a"
    using a by (auto simp: sg_def divide_less_0_iff)
  moreover have "Amount_String a = sg @ int_digits k @ CHR ''.'' # f"
    using a by (simp add: Amount_String_eq sg_def f_def)
  moreover have "sg = [] \<or> sg = ''-''" by (simp add: sg_def)
  ultimately show ?thesis using ParseAmount_parts[OF int_digits_ok(1) f(1,2) _ f(3), of sg k] by simp
qed

lemma MustAmount_String [simp]: "scaled MaxScale a \<Longrightarrow> MustAmount (Amount_String a) = Inr a"
  by (simp add: MustAmount_def ParseAmount_String)

lemma Amount_String_inject:
  "scaled MaxScale a \<Longrightarrow> scaled MaxScale b \<Longrightarrow> Amount_String a = Amount_String b \<longleftrightarrow> a = b"
  using ParseAmount_String by (metis sum.inject(2))

section \<open>Money: quantized amounts\<close>

lemma MinorUnits_le: "MinorUnits currency \<le> 4"
proof -
  have "\<forall>(c, n)\<in>set [(''BIF'', 0), (''CLP'', 0), (''DJF'', 0), (''GNF'', 0), (''ISK'', 0), (''JPY'', 0), (''KMF'', 0),
     (''KRW'', 0), (''PYG'', 0), (''RWF'', 0), (''UGX'', 0), (''UYI'', 0), (''VND'', 0), (''VUV'', 0),
     (''XAF'', 0), (''XOF'', 0), (''XPF'', 0),
     (''BHD'', 3), (''IQD'', 3), (''JOD'', 3), (''KWD'', 3), (''LYD'', 3), (''OMR'', 3), (''TND'', 3),
     (''CLF'', 4), (''UYW'', 4::nat)]. n \<le> 4" by simp
  then have "minorUnits c = Some n \<Longrightarrow> n \<le> 4" for c n
    unfolding minorUnits_def by (fast dest: map_of_SomeD)
  then show ?thesis by (simp add: MinorUnits_def split: option.splits)
qed

lemma ParseMoney_iff:
  "ParseMoney s currency = Inr a \<longleftrightarrow>
     ParseAmount s = Inr a \<and> ValidCurrency currency \<and> scaled (MinorUnits currency) a"
  using ParseAmount_scaled Amount_scale_le_iff[of a "MinorUnits currency"]
  by (auto simp: ParseMoney_def CheckQuantized_def not_le split: sum.splits)

lemma ParseMoney_errors:
  "ParseMoney s currency = Inl e \<Longrightarrow> e = ErrInvalidAmount \<or> e = ErrNotQuantized"
  by (auto simp: ParseMoney_def CheckQuantized_def ParseAmount_def split: sum.splits if_splits option.splits)

lemma MinorUnit_eq: "MinorUnit currency = Inr (1 / 10 ^ MinorUnits currency)"
proof (cases "MinorUnits currency")
  case 0
  have "ParseAmount ''1'' = Inr 1"
    by (simp add: ParseAmount_def ValidDecimal_def unsigned_part_def is_digit_def int_part_ok_def rat_of_decimal_def
        dec_val_def digits_val_def digit_val_def)
  with 0 show ?thesis by (simp add: MinorUnit_def MustAmount_def)
next
  case (Suc n)
  let ?f = "replicate n (CHR ''0'') @ ''1''"
  have "n \<le> 3" using Suc MinorUnits_le[of currency] by simp
  then have "ParseAmount ([] @ ''0'' @ CHR ''.'' # ?f) = Inr (dec_val ''0'' ?f)"
    using ParseAmount_parts[of "''0''" ?f "[]"]
    by (auto simp: int_part_ok_def list_all_iff MaxScale_def is_digit_def)
  moreover have "dec_val ''0'' ?f = 1 / 10 ^ Suc n"
    by (simp add: dec_val_def digits_val_append digit_val_def)
  ultimately show ?thesis using Suc by (simp add: MinorUnit_def MustAmount_def)
qed

section \<open>Properties\<close>

text \<open>C37. The wire form loses nothing: printing a parsed amount and parsing it again gives the same exact
  value, and two parsed amounts print alike exactly when they are equal ("20", "20.0" and "20.00" are
  one amount and one string).\<close>

theorem amount_wire_round_trip:
  assumes "ParseAmount s = Inr a" and "ParseAmount t = Inr b"
  shows "ParseAmount (Amount_String a) = Inr a \<and> (Amount_String a = Amount_String b \<longleftrightarrow> a = b)"
  using ParseAmount_String[OF ParseAmount_scaled[OF assms(1)]]
    Amount_String_inject[OF ParseAmount_scaled[OF assms(1)] ParseAmount_scaled[OF assms(2)]] by blast

theorem amount_wire_round_trip_witness:
  "ParseAmount ''1499.5'' = Inr (2999 / 2) \<and> ParseAmount (Amount_String (2999 / 2)) = Inr (2999 / 2)"
proof -
  have v: "ParseAmount ''1499.5'' = Inr (2999 / 2)" by code_simp
  show ?thesis using amount_wire_round_trip[OF v v] v by simp
qed

end
