(* ===== verification/Pay_Status.thy ===== *)
theory Pay_Status
  imports Pay_Amount
begin

text \<open>
  The normalized payment status and its lifecycle (\<^verbatim>\<open>src/payments/status.go\<close>), with the payment
  channels of \<^verbatim>\<open>src/payments/model.go\<close>.

  \<^verbatim>\<open>type Status string\<close>: the eleven constants are constructors and \<open>StatusOther s\<close> is any other string
  (\<open>StatusOther []\<close> is the empty status). \<open>Reachable\<close> is the code's breadth-first search with its
  \<^verbatim>\<open>seen\<close> set and queue; it is proved to decide the inductive relation \<open>forward\<close>.
\<close>

section \<open>Statuses and channels\<close>

datatype Status =
    StatusPending | StatusRequiresAction | StatusAtDevice | StatusAuthorized | StatusPaid
  | StatusFailed | StatusCancelling | StatusCancelled | StatusExpired | StatusRefunded
  | StatusPartiallyRefunded | StatusOther string

definition Statuses :: "Status list" where
  "Statuses =
     [StatusPending, StatusRequiresAction, StatusAuthorized, StatusPaid, StatusFailed,
      StatusCancelled, StatusExpired, StatusRefunded, StatusPartiallyRefunded,
      StatusAtDevice, StatusCancelling]"

fun status_string :: "Status \<Rightarrow> string" where
  "status_string StatusPending = ''pending''"
| "status_string StatusRequiresAction = ''requires_action''"
| "status_string StatusAtDevice = ''at_device''"
| "status_string StatusAuthorized = ''authorized''"
| "status_string StatusPaid = ''paid''"
| "status_string StatusFailed = ''failed''"
| "status_string StatusCancelling = ''cancelling''"
| "status_string StatusCancelled = ''cancelled''"
| "status_string StatusExpired = ''expired''"
| "status_string StatusRefunded = ''refunded''"
| "status_string StatusPartiallyRefunded = ''partially_refunded''"
| "status_string (StatusOther s) = s"

text \<open>The conversion \<^verbatim>\<open>Status(s)\<close> of a string.\<close>

definition status_of :: "string \<Rightarrow> Status" where
  "status_of s = (case find (\<lambda>k. status_string k = s) Statuses of Some k \<Rightarrow> k | None \<Rightarrow> StatusOther s)"

definition Status_Valid :: "Status \<Rightarrow> bool" where
  "Status_Valid s \<longleftrightarrow> s \<in> set Statuses"

fun Open :: "Status \<Rightarrow> bool" where
  "Open StatusPending = True"
| "Open StatusRequiresAction = True"
| "Open StatusAtDevice = True"
| "Open StatusAuthorized = True"
| "Open StatusCancelling = True"
| "Open _ = False"

fun Captured :: "Status \<Rightarrow> bool" where
  "Captured StatusPaid = True"
| "Captured StatusPartiallyRefunded = True"
| "Captured StatusRefunded = True"
| "Captured _ = False"

fun transitions :: "Status \<Rightarrow> Status list" where
  "transitions StatusPending =
     [StatusRequiresAction, StatusAtDevice, StatusAuthorized, StatusPaid, StatusFailed,
      StatusCancelling, StatusCancelled, StatusExpired]"
| "transitions StatusRequiresAction =
     [StatusPending, StatusAuthorized, StatusPaid, StatusFailed, StatusCancelling, StatusCancelled,
      StatusExpired]"
| "transitions StatusAtDevice =
     [StatusAuthorized, StatusPaid, StatusFailed, StatusCancelling, StatusCancelled, StatusExpired]"
| "transitions StatusAuthorized =
     [StatusPaid, StatusFailed, StatusCancelling, StatusCancelled, StatusExpired]"
| "transitions StatusCancelling =
     [StatusCancelled, StatusPaid, StatusAuthorized, StatusAtDevice, StatusFailed, StatusExpired]"
| "transitions StatusPaid = [StatusPartiallyRefunded, StatusRefunded]"
| "transitions StatusPartiallyRefunded = [StatusPartiallyRefunded, StatusRefunded]"
| "transitions _ = []"

definition Final :: "Status \<Rightarrow> bool" where
  "Final s \<longleftrightarrow> transitions s = []"

definition Counts :: "Status \<Rightarrow> bool" where
  "Counts s \<longleftrightarrow> s = StatusPaid \<or> s = StatusPartiallyRefunded"

definition CanTransition :: "Status \<Rightarrow> Status \<Rightarrow> bool" where
  "CanTransition from to \<longleftrightarrow> to \<in> set (transitions from)"

definition Transition :: "Status \<Rightarrow> Status \<Rightarrow> (pay_error, unit) result" where
  "Transition from to =
     (if \<not> Status_Valid from \<or> \<not> Status_Valid to then Inl ErrInvalidTransition
      else if \<not> CanTransition from to then Inl ErrInvalidTransition
      else Inr ())"

datatype Channel =
    ChannelTerminal | ChannelOnline | ChannelQR | ChannelLink | ChannelCash | ChannelOther string

text \<open>\<^verbatim>\<open>capability.PaymentChannels\<close> lists exactly the five constants.\<close>

fun Channel_Valid :: "Channel \<Rightarrow> bool" where
  "Channel_Valid (ChannelOther _) = False"
| "Channel_Valid _ = True"

definition InPerson :: "Channel \<Rightarrow> bool" where
  "InPerson c \<longleftrightarrow> c = ChannelTerminal \<or> c = ChannelCash"

definition Command :: "Channel \<Rightarrow> Status \<Rightarrow> Status \<Rightarrow> (pay_error, unit) result" where
  "Command channel from to =
     (case Transition from to of
        Inl e \<Rightarrow> Inl e
      | Inr _ \<Rightarrow>
          if channel = ChannelCash then Inr ()
          else if to \<noteq> StatusCancelling then Inl ErrInvalidTransition
          else Inr ())"

section \<open>Provider re-reads\<close>

text \<open>A status that is not a key of the Go map reads as 0.\<close>

fun openRank :: "Status \<Rightarrow> nat" where
  "openRank StatusPending = 0"
| "openRank StatusRequiresAction = 1"
| "openRank StatusAtDevice = 1"
| "openRank StatusAuthorized = 2"
| "openRank StatusCancelling = 3"
| "openRank _ = 0"

definition advances :: "Status \<Rightarrow> Status \<Rightarrow> bool" where
  "advances from to =
     (if \<not> CanTransition from to then False
      else if from = StatusCancelling then True
      else if Open from \<and> Open to \<and> openRank to \<le> openRank from then False
      else True)"

text \<open>The inner loop of \<^verbatim>\<open>Reachable\<close> over the moves of \<open>cur\<close>: \<open>None\<close> is \<^verbatim>\<open>return true\<close>, otherwise the
  updated \<^verbatim>\<open>seen\<close> and \<^verbatim>\<open>queue\<close>.\<close>

fun scan_moves :: "Status \<Rightarrow> Status \<Rightarrow> Status list \<Rightarrow> Status list \<Rightarrow> Status list \<Rightarrow> (Status list \<times> Status list) option" where
  "scan_moves cur to [] seen queue = Some (seen, queue)"
| "scan_moves cur to (n # ns) seen queue =
     (if \<not> advances cur n then scan_moves cur to ns seen queue
      else if n = to then None
      else if n \<notin> set seen \<and> n \<noteq> StatusCancelling
           then scan_moves cur to ns (n # seen) (queue @ [n])
      else scan_moves cur to ns seen queue)"

lemma scan_moves_size:
  assumes "scan_moves cur to ns seen queue = Some (seen', queue')"
    and "set ns \<subseteq> set Statuses"
  shows "length queue' + card (set Statuses - set seen') \<le> length queue + card (set Statuses - set seen)"
  using assms
proof (induction ns arbitrary: seen queue)
  case (Cons n ns)
  have ns: "set ns \<subseteq> set Statuses" "n \<in> set Statuses" using Cons.prems(2) by simp_all
  show ?case
  proof (cases "advances cur n \<and> n \<noteq> to \<and> n \<notin> set seen \<and> n \<noteq> StatusCancelling")
    case True
    with Cons.prems(1) have "scan_moves cur to ns (n # seen) (queue @ [n]) = Some (seen', queue')" by simp
    from Cons.IH[OF this ns(1)]
    have "length queue' + card (set Statuses - set seen') \<le>
        length (queue @ [n]) + card (set Statuses - set (n # seen))" .
    moreover have "card (set Statuses - set seen) = Suc (card (set Statuses - set (n # seen)))"
    proof -
      have "set Statuses - set (n # seen) = set Statuses - set seen - {n}" by auto
      moreover have "n \<in> set Statuses - set seen" using True ns(2) by blast
      ultimately show ?thesis by (simp only: card_Suc_Diff1 finite_Diff finite_set)
    qed
    ultimately show ?thesis by simp
  next
    case False
    then have "scan_moves cur to (n # ns) seen queue = None \<or>
        scan_moves cur to (n # ns) seen queue = scan_moves cur to ns seen queue" by auto
    with Cons.prems(1) have "scan_moves cur to ns seen queue = Some (seen', queue')" by auto
    from Cons.IH[OF this ns(1)] show ?thesis .
  qed
qed simp

lemma transitions_known: "set (transitions s) \<subseteq> set Statuses"
  by (cases s) (simp_all add: Statuses_def)

function search :: "Status \<Rightarrow> Status list \<Rightarrow> Status list \<Rightarrow> bool" where
  "search to seen [] = False"
| "search to seen (cur # queue) =
     (case scan_moves cur to (transitions cur) seen queue of
        None \<Rightarrow> True
      | Some (seen', queue') \<Rightarrow> search to seen' queue')"
  by pat_completeness auto
termination
proof (relation "measure (\<lambda>(to, seen, queue). length queue + card (set Statuses - set seen))")
  show "wf (measure (\<lambda>(to, seen, queue). length queue + card (set Statuses - set seen)))" by simp
next
  fix to cur :: Status and seen queue seen' queue' :: "Status list" and x
  assume "scan_moves cur to (transitions cur) seen queue = Some x" and "(seen', queue') = x"
  then have "length queue' + card (set Statuses - set seen') \<le> length queue + card (set Statuses - set seen)"
    using scan_moves_size[of cur to "transitions cur" seen queue seen' queue'] transitions_known[of cur] by simp
  then show "((to, seen', queue'), to, seen, cur # queue)
      \<in> measure (\<lambda>(to, seen, queue). length queue + card (set Statuses - set seen))" by simp
qed

definition Reachable :: "Status \<Rightarrow> Status \<Rightarrow> bool" where
  "Reachable from to = search to [from] [from]"

datatype Decision = Apply | Ignore | Anomaly

text \<open>Observation reasons; \<open>ReasonNone\<close> is the empty string of an applied move.\<close>

datatype Reason =
    ReasonNone | ReasonDuplicate | ReasonStale | ReasonLateCapture | ReasonCaptureReversed
  | ReasonRefundReversed | ReasonUnknownStatus | ReasonAmountMismatch | ReasonCurrencyMismatch
  | ReasonProviderRefMismatch | ReasonInvalidOutcome | ReasonOrphan | ReasonStuck
  | ReasonRefundNeedsReview | ReasonNoProviderState

type_synonym observation = "Decision \<times> Reason"

definition gaveUp :: "Status \<Rightarrow> bool" where
  "gaveUp s \<longleftrightarrow> s = StatusFailed \<or> s = StatusCancelled \<or> s = StatusExpired"

definition Observe :: "Status \<Rightarrow> Status \<Rightarrow> observation" where
  "Observe stored observed =
     (if \<not> Status_Valid observed \<or> \<not> Status_Valid stored then (Anomaly, ReasonUnknownStatus)
      else if stored = observed \<and> stored \<noteq> StatusPartiallyRefunded then (Ignore, ReasonDuplicate)
      else if Reachable stored observed then (Apply, ReasonNone)
      else if gaveUp stored \<and> (observed = StatusAuthorized \<or> Captured observed)
           then (Anomaly, ReasonLateCapture)
      else if Open observed then (Ignore, ReasonStale)
      else if Captured stored \<and> gaveUp observed then (Anomaly, ReasonCaptureReversed)
      else if Captured stored \<and> Captured observed then (Anomaly, ReasonRefundReversed)
      else (Ignore, ReasonStale))"

section \<open>The search decides reachability\<close>

inductive forward :: "Status \<Rightarrow> Status \<Rightarrow> bool" where
  direct: "advances s t \<Longrightarrow> forward s t"
| via: "advances s n \<Longrightarrow> n \<noteq> StatusCancelling \<Longrightarrow> forward n t \<Longrightarrow> forward s t"

inductive_simps forward_step: "forward s t"

lemma scan_moves_None:
  "scan_moves cur to ns seen queue = None \<longleftrightarrow> (\<exists>n\<in>set ns. advances cur n \<and> n = to)"
  by (induction ns arbitrary: seen queue) auto

definition fresh_moves :: "Status \<Rightarrow> Status list \<Rightarrow> Status set" where
  "fresh_moves cur ns = {n \<in> set ns. advances cur n \<and> n \<noteq> StatusCancelling}"

lemma fresh_moves_Cons:
  "fresh_moves cur (n # ns) =
     (if advances cur n \<and> n \<noteq> StatusCancelling then insert n (fresh_moves cur ns) else fresh_moves cur ns)"
  by (auto simp: fresh_moves_def)

lemma advances_moves: "advances s t \<Longrightarrow> t \<in> set (transitions s)"
  by (simp add: advances_def CanTransition_def split: if_splits)

lemma fresh_moves_transitions:
  "n \<in> fresh_moves s (transitions s) \<longleftrightarrow> advances s n \<and> n \<noteq> StatusCancelling"
  by (auto simp: fresh_moves_def advances_moves)

lemma scan_moves_Some:
  "scan_moves cur to ns seen queue = Some (seen', queue') \<Longrightarrow>
     set seen' = set seen \<union> fresh_moves cur ns \<and>
     set queue' = set queue \<union> (fresh_moves cur ns - set seen)"
proof (induction ns arbitrary: seen queue)
  case Nil
  then show ?case by (simp add: fresh_moves_def)
next
  case (Cons n ns)
  show ?case
  proof (cases "advances cur n \<and> n \<noteq> to \<and> n \<notin> set seen \<and> n \<noteq> StatusCancelling")
    case True
    with Cons.prems Cons.IH[of "n # seen" "queue @ [n]"] show ?thesis
      by (auto simp: fresh_moves_Cons)
  next
    case False
    with Cons.prems Cons.IH[of seen queue] show ?thesis
      by (auto simp: fresh_moves_Cons split: if_splits)
  qed
qed

lemma search_sound: "search to seen queue \<Longrightarrow> \<exists>x\<in>set queue. forward x to"
proof (induction to seen queue rule: search.induct)
  case (2 to seen cur queue)
  show ?case
  proof (cases "scan_moves cur to (transitions cur) seen queue")
    case None
    then show ?thesis by (auto simp: scan_moves_None intro: forward.direct)
  next
    case (Some p)
    obtain seen' queue' where p: "p = (seen', queue')" by (cases p)
    have "search to seen' queue'" using 2(2) Some p by simp
    with 2(1)[OF Some p[symmetric]] obtain x where x: "x \<in> set queue'" "forward x to" by blast
    then have "x \<in> set queue \<or> x \<in> fresh_moves cur (transitions cur)"
      using scan_moves_Some[OF Some[unfolded p]] by auto
    then show ?thesis
    proof
      assume "x \<in> set queue"
      with x show ?thesis by auto
    next
      assume "x \<in> fresh_moves cur (transitions cur)"
      with x have "forward cur to" by (auto simp: fresh_moves_transitions intro: forward.via)
      then show ?thesis by simp
    qed
  qed
qed simp

text \<open>What was seen and is no longer queued has been expanded.\<close>

definition expanded :: "Status \<Rightarrow> Status list \<Rightarrow> Status list \<Rightarrow> bool" where
  "expanded to seen queue \<longleftrightarrow>
     (\<forall>x\<in>set seen - set queue. \<not> advances x to \<and> (\<forall>n. advances x n \<longrightarrow> n \<noteq> StatusCancelling \<longrightarrow> n \<in> set seen))"

lemma expanded_all: "forward x to \<Longrightarrow> expanded to seen [] \<Longrightarrow> x \<in> set seen \<Longrightarrow> False"
  by (induction rule: forward.induct) (auto simp: expanded_def)

lemma search_complete:
  "\<not> search to seen queue \<Longrightarrow> expanded to seen queue \<Longrightarrow> x \<in> set seen \<Longrightarrow> \<not> forward x to"
proof (induction to seen queue rule: search.induct)
  case (1 to seen)
  then show ?case using expanded_all by blast
next
  case (2 to seen cur queue)
  then obtain seen' queue' where p: "scan_moves cur to (transitions cur) seen queue = Some (seen', queue')"
    and ns: "\<not> search to seen' queue'" by (auto split: option.splits)
  note S = scan_moves_Some[OF p]
  have nd: "\<not> advances cur to"
    using p scan_moves_None[of cur to "transitions cur" seen queue] by (auto dest: advances_moves)
  have "expanded to seen' queue'"
    unfolding expanded_def
  proof
    fix y assume y: "y \<in> set seen' - set queue'"
    show "\<not> advances y to \<and> (\<forall>n. advances y n \<longrightarrow> n \<noteq> StatusCancelling \<longrightarrow> n \<in> set seen')"
    proof (cases "y = cur")
      case True
      then show ?thesis using nd S by (auto simp: fresh_moves_transitions)
    next
      case False
      with y S have "y \<in> set seen - set (cur # queue)" by auto
      with 2(3) S show ?thesis unfolding expanded_def by blast
    qed
  qed
  then show ?case using 2(1)[OF p] ns 2(4) S by auto
qed

lemma Reachable_forward: "Reachable from to \<longleftrightarrow> forward from to"
proof
  show "Reachable from to \<Longrightarrow> forward from to"
    using search_sound[of to "[from]" "[from]"] by (simp add: Reachable_def)
  show "forward from to \<Longrightarrow> Reachable from to"
    using search_complete[of to "[from]" "[from]" "from"] by (auto simp: Reachable_def expanded_def)
qed

section \<open>Facts about the lifecycle\<close>

text \<open>A transition table: the moves leave and reach known states only.\<close>

locale transition_table =
  fixes moves :: "'s \<Rightarrow> 's list" and known :: "'s list"
  assumes moves_source: "t \<in> set (moves s) \<Longrightarrow> s \<in> set known"
    and moves_target: "t \<in> set (moves s) \<Longrightarrow> t \<in> set known"
begin

definition moves_to :: "'s \<Rightarrow> 's \<Rightarrow> bool" where
  "moves_to s t \<longleftrightarrow> t \<in> set (moves s)"

lemma unknown_stuck: "s \<notin> set known \<Longrightarrow> moves s = []"
  using moves_source[of "hd (moves s)" s] by (cases "moves s") auto

lemma run_known: "moves_to\<^sup>*\<^sup>* s t \<Longrightarrow> s = t \<or> s \<in> set known \<and> t \<in> set known"
  by (induction rule: rtranclp_induct) (auto simp: moves_to_def intro: moves_source moves_target)

lemma run_final: "moves_to\<^sup>*\<^sup>* s t \<Longrightarrow> moves s = [] \<Longrightarrow> t = s"
  by (induction rule: converse_rtranclp_induct) (auto simp: moves_to_def)

text \<open>A set of states the moves never leave is never left by a run.\<close>

lemma run_closed:
  "moves_to\<^sup>*\<^sup>* s t \<Longrightarrow> P s \<Longrightarrow> (\<And>u v. P u \<Longrightarrow> v \<in> set (moves u) \<Longrightarrow> P v) \<Longrightarrow> P t"
  by (induction rule: rtranclp_induct) (auto simp: moves_to_def)

end

interpretation status_table: transition_table transitions Statuses
proof
  fix s t assume t: "t \<in> set (transitions s)"
  show "s \<in> set Statuses" using t by (cases s) (simp_all add: Statuses_def)
  show "t \<in> set Statuses" using t transitions_known by blast
qed

lemma Status_Valid_simps [simp]:
  "Status_Valid StatusPending" "Status_Valid StatusRequiresAction" "Status_Valid StatusAtDevice"
  "Status_Valid StatusAuthorized" "Status_Valid StatusPaid" "Status_Valid StatusFailed"
  "Status_Valid StatusCancelling" "Status_Valid StatusCancelled" "Status_Valid StatusExpired"
  "Status_Valid StatusRefunded" "Status_Valid StatusPartiallyRefunded" "\<not> Status_Valid (StatusOther s)"
  by (simp_all add: Status_Valid_def Statuses_def)

lemma Counts_simps [simp]: "Counts StatusPaid" "Counts StatusPartiallyRefunded"
  by (simp_all add: Counts_def)

lemma Counts_Captured: "Counts s \<Longrightarrow> Captured s"
  by (auto simp: Counts_def)

lemma Captured_Valid: "Captured s \<Longrightarrow> Status_Valid s"
  by (cases s) simp_all

lemma Open_Valid: "Open s \<Longrightarrow> Status_Valid s"
  by (cases s) simp_all

lemma status_of_string [simp]: "status_of (status_string s) = s \<or> (\<exists>x. s = StatusOther x)"
  by (cases s) (simp_all add: status_of_def Statuses_def)

lemma advances_captured: "advances s t \<Longrightarrow> Captured s \<Longrightarrow> Captured t"
  by (cases s) (auto simp: advances_def CanTransition_def split: if_splits)

lemma forward_captured: "forward s t \<Longrightarrow> Captured s \<Longrightarrow> Captured t"
  by (induction rule: forward.induct) (auto dest: advances_captured)

lemma forward_not_final: "forward s t \<Longrightarrow> \<not> Final s"
  by (induction rule: forward.induct)
     (auto simp: Final_def dest!: advances_moves)

lemma Final_iff:
  "Status_Valid s \<Longrightarrow> Final s \<longleftrightarrow> gaveUp s \<or> s = StatusRefunded"
  by (cases s) (simp_all add: Final_def gaveUp_def)

lemma open_settles:
  assumes "Open s" and "Status_Valid t" and "\<not> Open t"
  shows "forward s t"
proof -
  have adv: "advances s u" if "u = StatusPaid \<or> gaveUp u" for u
    using that assms(1) by (cases s) (auto simp: gaveUp_def advances_def CanTransition_def)
  have "advances StatusPaid t" if "t = StatusRefunded \<or> t = StatusPartiallyRefunded"
    using that by (auto simp: advances_def CanTransition_def)
  then have "t = StatusRefunded \<or> t = StatusPartiallyRefunded \<Longrightarrow> forward s t"
    using forward.via[OF adv[of StatusPaid]] forward.direct by simp
  moreover have "t = StatusPaid \<or> gaveUp t \<Longrightarrow> forward s t" using adv forward.direct by blast
  ultimately show ?thesis using assms(2,3) by (cases t) (simp_all add: gaveUp_def)
qed

lemma not_forward_gaveUp: "gaveUp s \<Longrightarrow> \<not> forward s t"
  using forward_not_final[of s t] by (auto simp: Final_def gaveUp_def)

lemma Observe_Apply_iff:
  "fst (Observe s t) = Apply \<longleftrightarrow>
     Status_Valid s \<and> Status_Valid t \<and> forward s t \<and> (s \<noteq> t \<or> s = StatusPartiallyRefunded)"
  by (auto simp: Observe_def Reachable_forward)

lemma Observe_Apply_captured: "fst (Observe s t) = Apply \<Longrightarrow> Captured s \<Longrightarrow> Captured t"
  using forward_captured by (auto simp: Observe_Apply_iff)

lemma Observe_reason:
  "Observe s t = (Apply, r) \<Longrightarrow> r = ReasonNone"
  by (auto simp: Observe_def split: if_splits)

lemma status_trichotomy: "Status_Valid s \<Longrightarrow> Open s \<or> Captured s \<or> gaveUp s"
  by (cases s) (simp_all add: gaveUp_def)

lemma status_disjoint:
  "Open s \<Longrightarrow> \<not> Captured s" "Open s \<Longrightarrow> \<not> gaveUp s" "gaveUp s \<Longrightarrow> \<not> Captured s"
  by (cases s; simp add: gaveUp_def)+

lemma forward_partial: "forward StatusPartiallyRefunded StatusPartiallyRefunded"
  by (rule forward.direct) (simp add: advances_def CanTransition_def)

text \<open>\<open>Observe\<close> on a stored status of each of the three classes.\<close>

lemma Observe_gaveUp:
  assumes "gaveUp s" and "Status_Valid t"
  shows "Observe s t =
    (if s = t then (Ignore, ReasonDuplicate)
     else if t = StatusAuthorized \<or> Captured t then (Anomaly, ReasonLateCapture)
     else (Ignore, ReasonStale))"
proof -
  have "Status_Valid s" "s \<noteq> StatusPartiallyRefunded" "\<not> Captured s" using assms(1) by (auto simp: gaveUp_def)
  then show ?thesis using assms not_forward_gaveUp[of s t] by (simp add: Observe_def Reachable_forward)
qed

lemma Observe_captured:
  assumes "Captured s" and "Status_Valid t"
  shows "Observe s t =
    (if s = t \<and> s \<noteq> StatusPartiallyRefunded then (Ignore, ReasonDuplicate)
     else if forward s t then (Apply, ReasonNone)
     else if Open t then (Ignore, ReasonStale)
     else if gaveUp t then (Anomaly, ReasonCaptureReversed)
     else (Anomaly, ReasonRefundReversed))"
proof -
  have "\<not> gaveUp s" using assms(1) status_disjoint(3) by blast
  then show ?thesis using assms Captured_Valid[of s] status_trichotomy[of t]
    by (auto simp: Observe_def Reachable_forward)
qed

lemma Observe_open:
  assumes "Open s" and "Status_Valid t"
  shows "Observe s t =
    (if s = t then (Ignore, ReasonDuplicate)
     else if forward s t then (Apply, ReasonNone) else (Ignore, ReasonStale))"
proof -
  have "\<not> gaveUp s" "\<not> Captured s" "s \<noteq> StatusPartiallyRefunded" using assms(1) status_disjoint by auto
  then show ?thesis using assms Open_Valid[of s] by (simp add: Observe_def Reachable_forward)
qed

section \<open>Properties\<close>

text \<open>The breadth-first search of \<^verbatim>\<open>Reachable\<close> answers true exactly when a chain of advancing moves
  leads from one status to the other without passing through \<^verbatim>\<open>cancelling\<close> (unless it starts there).\<close>

theorem Reachable_decides_forward: "Reachable from to \<longleftrightarrow> forward from to"
  by (rule Reachable_forward)

text \<open>The classification of a re-read status, case by case: a move is applied exactly when it is
  reachable and not a repetition; a capture after the payment was given up is a late capture; giving
  up after a capture is a reversed capture; a smaller refund state is a reversed refund; and the only
  updates that are ignored are repetitions, older open statuses, and one final failure replacing
  another.\<close>

theorem Observe_classifies:
  assumes "Status_Valid s" and "Status_Valid t"
  shows "(Observe s t = (Apply, ReasonNone) \<longleftrightarrow> forward s t \<and> (s \<noteq> t \<or> s = StatusPartiallyRefunded)) \<and>
    (Observe s t = (Anomaly, ReasonLateCapture) \<longleftrightarrow> gaveUp s \<and> (t = StatusAuthorized \<or> Captured t)) \<and>
    (Observe s t = (Anomaly, ReasonCaptureReversed) \<longleftrightarrow> Captured s \<and> gaveUp t) \<and>
    (Observe s t = (Anomaly, ReasonRefundReversed) \<longleftrightarrow> Captured s \<and> Captured t \<and> s \<noteq> t \<and> \<not> forward s t) \<and>
    (fst (Observe s t) = Ignore \<longleftrightarrow>
       s = t \<and> s \<noteq> StatusPartiallyRefunded
       \<or> Open t \<and> \<not> forward s t \<and> \<not> (gaveUp s \<and> t = StatusAuthorized)
       \<or> gaveUp s \<and> gaveUp t)"
proof -
  consider "gaveUp s" | "Captured s" | "Open s" using status_trichotomy[OF assms(1)] by blast
  then show ?thesis
  proof cases
    case 1
    then have "\<not> Captured s" "\<not> forward s t" "s \<noteq> StatusPartiallyRefunded"
      using status_disjoint(3) not_forward_gaveUp by (auto simp: gaveUp_def)
    then show ?thesis using 1 status_trichotomy[OF assms(2)] status_disjoint[of t]
      by (simp add: Observe_gaveUp[OF 1 assms(2)]) auto
  next
    case 2
    then have "\<not> gaveUp s" "\<not> Open s" using status_disjoint by blast+
    then show ?thesis
      using 2 status_trichotomy[OF assms(2)] status_disjoint[of t] forward_captured[of s t] forward_partial
      by (simp add: Observe_captured[OF 2 assms(2)]) auto
  next
    case 3
    then have "\<not> gaveUp s" "\<not> Captured s" "s \<noteq> StatusPartiallyRefunded" using status_disjoint by auto
    then show ?thesis using 3 open_settles[OF 3 assms(2)]
      by (simp add: Observe_open[OF 3 assms(2)]) auto
  qed
qed

theorem Observe_classifies_witness:
  "Status_Valid StatusExpired \<and> Status_Valid StatusPaid \<and>
   Observe StatusExpired StatusPaid = (Anomaly, ReasonLateCapture)"
  using Observe_classifies[of StatusExpired StatusPaid] by (simp add: gaveUp_def)

text \<open>A local command on a payment is accepted exactly for a table move, and outside the drawer-cash
  channel only for asking to cancel an open payment: staff or a channel can never declare a provider
  payment paid, failed or cancelled.\<close>

theorem Command_only_requests_cancel:
  "Command channel s t = Inr () \<longleftrightarrow>
     CanTransition s t \<and>
     (channel = ChannelCash \<or> t = StatusCancelling \<and> Open s \<and> s \<noteq> StatusCancelling)"
proof -
  have "CanTransition s t \<Longrightarrow> Status_Valid s \<and> Status_Valid t"
    using status_table.moves_source status_table.moves_target
    by (simp add: CanTransition_def Status_Valid_def)
  moreover have "CanTransition s StatusCancelling \<Longrightarrow> Open s \<and> s \<noteq> StatusCancelling"
    by (cases s) (simp_all add: CanTransition_def)
  ultimately show ?thesis by (auto simp: Command_def Transition_def)
qed

end
