(* ===== verification/Pay_Model.thy ===== *)
theory Pay_Model
  imports Pay_Status
begin

text \<open>
  The canonical payment record and its validation (\<^verbatim>\<open>src/payments/model.go\<close>).

  A Go struct is a record with one field per struct field (prefix \<open>p_\<close> for \<^verbatim>\<open>Payment\<close>); a pointer field
  is an option; \<^verbatim>\<open>time.Time\<close> is an integer number of nanoseconds. \<^verbatim>\<open>Validate\<close> returns the list of
  problems; each message of the source is one constructor of \<open>problem\<close>.
\<close>

section \<open>Records\<close>

record Card =
  card_Type :: string
  card_Brand :: string
  card_Last4 :: string
  card_AuthCode :: string
  card_EntryMode :: string

record Seller =
  seller_AccountRef :: string
  seller_SellerID :: string
  seller_ApplicationFee :: string

record CashTender =
  cash_Tendered :: string
  cash_Change :: string
  cash_OperationID :: string
  cash_Rounding :: string

record Payment =
  p_ID :: string
  p_DocumentType :: string
  p_DocumentID :: string
  p_OrderRef :: string
  p_Channel :: Channel
  p_Provider :: string
  p_ProviderRef :: string
  p_SessionID :: string
  p_DeviceID :: string
  p_IdempotencyKey :: string
  p_Status :: Status
  p_CancelledFrom :: Status
  p_Amount :: string
  p_Currency :: string
  p_AmountRefunded :: string
  p_Fee :: string
  p_Net :: string
  p_Method :: string
  p_Installments :: int
  p_Card :: "Card option"
  p_Cash :: "CashTender option"
  p_Seller :: "Seller option"
  p_TestMode :: bool
  p_HoldToken :: string
  p_Anomaly :: "Reason option"
  p_PaidAt :: "int option"
  p_CreatedAt :: int
  p_UpdatedAt :: int

definition ProviderCash :: string where
  "ProviderCash = ''cash''"

section \<open>Operations\<close>

definition StatusAfterRefunds :: "amount \<Rightarrow> amount \<Rightarrow> Status" where
  "StatusAfterRefunds amount refunded =
     (if Amount_Sign refunded \<le> 0 then StatusPaid
      else if Amount_Cmp refunded amount \<ge> 0 then StatusRefunded
      else StatusPartiallyRefunded)"

definition NetCaptured :: "Payment \<Rightarrow> (pay_error, amount) result" where
  "NetCaptured p =
     (if \<not> Counts (p_Status p) then Inr 0
      else case ParseAmount (p_Amount p) of
        Inl e \<Rightarrow> Inl e
      | Inr amount \<Rightarrow>
          if p_AmountRefunded p = [] then Inr amount
          else case ParseAmount (p_AmountRefunded p) of
            Inl e \<Rightarrow> Inl e
          | Inr refunded \<Rightarrow> Inr (amount - refunded))"

text \<open>Every rejection of \<^verbatim>\<open>ValidateSeller\<close> is a plain error of its own: \<open>ErrSeller\<close>.\<close>

definition ValidateSeller :: "Seller \<Rightarrow> string \<Rightarrow> string \<Rightarrow> (pay_error, unit) result" where
  "ValidateSeller s amount currency =
     (if blank (seller_AccountRef s) then Inl ErrSeller
      else if seller_ApplicationFee s = [] then Inr ()
      else case ParseMoney (seller_ApplicationFee s) currency of
        Inl _ \<Rightarrow> Inl ErrSeller
      | Inr fee \<Rightarrow>
          (case ParseAmount amount of
             Inl _ \<Rightarrow> Inl ErrSeller
           | Inr a \<Rightarrow>
               if Amount_Sign fee < 0 \<or> Amount_Cmp fee a > 0 then Inl ErrSeller else Inr ()))"

datatype problem =
    ProblemDocument | ProblemChannel | ProblemProvider | ProblemKey | ProblemStatus
  | ProblemCancelledFrom | ProblemCurrency | ProblemProviderRef | ProblemCashProvider
  | ProblemAmount | ProblemAmountPositive | ProblemRefundedParse | ProblemRefundedNegative
  | ProblemRefundedExceeds | ProblemStatusMismatch | ProblemUncapturedRefund | ProblemFeeParse
  | ProblemFeeRange | ProblemNetParse | ProblemNetMismatch | ProblemCardType | ProblemCardLast4
  | ProblemSeller

definition CardTypes :: "string list" where
  "CardTypes = [''credit'', ''debit'', ''prepaid'', ''other'']"

definition last4_ok :: "string \<Rightarrow> bool" where
  "last4_ok s \<longleftrightarrow> length s = 4 \<and> list_all is_digit s"

text \<open>\<open>bad b x\<close> appends the problem \<open>x\<close> when the check \<open>b\<close> fires.\<close>

definition bad :: "bool \<Rightarrow> 'a \<Rightarrow> 'a list" where
  "bad b x = (if b then [x] else [])"

definition validate_header :: "Payment \<Rightarrow> problem list" where
  "validate_header p =
     bad (blank (p_DocumentType p) \<or> blank (p_DocumentID p)) ProblemDocument @
     bad (\<not> Channel_Valid (p_Channel p)) ProblemChannel @
     bad (blank (p_Provider p)) ProblemProvider @
     bad (blank (p_IdempotencyKey p)) ProblemKey @
     bad (\<not> Status_Valid (p_Status p)) ProblemStatus @
     bad (p_CancelledFrom p \<noteq> StatusOther [] \<and>
          (\<not> Open (p_CancelledFrom p) \<or> p_CancelledFrom p = StatusCancelling)) ProblemCancelledFrom @
     bad (\<not> ValidCurrency (p_Currency p)) ProblemCurrency @
     bad (blank (p_ProviderRef p) \<and> (Captured (p_Status p) \<or> p_Status p = StatusAuthorized))
       ProblemProviderRef @
     bad ((p_Channel p = ChannelCash) \<noteq> (p_Provider p = ProviderCash)) ProblemCashProvider"

definition validate_refunded :: "Payment \<Rightarrow> amount \<Rightarrow> amount \<Rightarrow> problem list" where
  "validate_refunded p amount refunded =
     (if Amount_Sign refunded < 0 then [ProblemRefundedNegative]
      else if Amount_Cmp refunded amount > 0 then [ProblemRefundedExceeds]
      else if Status_Valid (p_Status p) then
        bad (Captured (p_Status p) \<and> StatusAfterRefunds amount refunded \<noteq> p_Status p) ProblemStatusMismatch @
        bad (\<not> Captured (p_Status p) \<and> Amount_Sign refunded \<noteq> 0) ProblemUncapturedRefund
      else [])"

definition validate_fee :: "Payment \<Rightarrow> string \<Rightarrow> amount \<Rightarrow> problem list" where
  "validate_fee p cur amount =
     (if p_Fee p = [] then []
      else case ParseMoney (p_Fee p) cur of
        Inl _ \<Rightarrow> [ProblemFeeParse]
      | Inr fee \<Rightarrow>
          if Amount_Sign fee < 0 \<or> Amount_Cmp fee amount > 0 then [ProblemFeeRange]
          else if p_Net p \<noteq> [] then
            (case ParseMoney (p_Net p) cur of
               Inl _ \<Rightarrow> [ProblemNetParse]
             | Inr net \<Rightarrow> bad (Amount_Cmp net (amount - fee) \<noteq> 0) ProblemNetMismatch)
          else [])"

definition validate_tail :: "Payment \<Rightarrow> string \<Rightarrow> problem list" where
  "validate_tail p cur =
     (case p_Card p of
        None \<Rightarrow> []
      | Some c \<Rightarrow>
          bad (card_Type c \<noteq> [] \<and> card_Type c \<notin> set CardTypes) ProblemCardType @
          bad (card_Last4 c \<noteq> [] \<and> \<not> last4_ok (card_Last4 c)) ProblemCardLast4) @
     (case p_Seller p of
        None \<Rightarrow> []
      | Some s \<Rightarrow> (case ValidateSeller s (p_Amount p) cur of Inl _ \<Rightarrow> [ProblemSeller] | Inr _ \<Rightarrow> []))"

definition Validate :: "Payment \<Rightarrow> problem list" where
  "Validate p =
     (let errs = validate_header p;
          cur = (if ValidCurrency (p_Currency p) then p_Currency p else ''XXX'')
      in case ParseMoney (p_Amount p) cur of
           Inl _ \<Rightarrow> errs @ [ProblemAmount]
         | Inr amount \<Rightarrow>
             (let errs = errs @ bad (Amount_Sign amount \<le> 0) ProblemAmountPositive
              in case (if p_AmountRefunded p = [] then Inr 0 else ParseMoney (p_AmountRefunded p) cur) of
                   Inl _ \<Rightarrow> errs @ [ProblemRefundedParse]
                 | Inr refunded \<Rightarrow>
                     errs @ validate_refunded p amount refunded @ validate_fee p cur amount @
                     validate_tail p cur))"

section \<open>What a valid record guarantees\<close>

text \<open>The amount of a record and its refunded total, 0 when empty.\<close>

definition refunded_of :: "Payment \<Rightarrow> (pay_error, amount) result" where
  "refunded_of p = (if p_AmountRefunded p = [] then Inr 0 else ParseAmount (p_AmountRefunded p))"

lemma bad_Nil [simp]: "bad b x = [] \<longleftrightarrow> \<not> b"
  by (simp add: bad_def)

lemma StatusAfterRefunds_simps:
  "refunded \<le> 0 \<Longrightarrow> StatusAfterRefunds amount refunded = StatusPaid"
  "0 < refunded \<Longrightarrow> amount \<le> refunded \<Longrightarrow> StatusAfterRefunds amount refunded = StatusRefunded"
  "0 < refunded \<Longrightarrow> refunded < amount \<Longrightarrow> StatusAfterRefunds amount refunded = StatusPartiallyRefunded"
  by (simp_all add: StatusAfterRefunds_def)

lemma StatusAfterRefunds_Captured [simp]: "Captured (StatusAfterRefunds amount refunded)"
  by (simp add: StatusAfterRefunds_def)

lemma StatusAfterRefunds_eq_iff:
  "StatusAfterRefunds a r = StatusPaid \<longleftrightarrow> r \<le> 0"
  "StatusAfterRefunds a r = StatusRefunded \<longleftrightarrow> 0 < r \<and> a \<le> r"
  "StatusAfterRefunds a r = StatusPartiallyRefunded \<longleftrightarrow> 0 < r \<and> r < a"
  by (auto simp: StatusAfterRefunds_def)

lemma Validate_okD:
  assumes "Validate p = []"
  obtains a r where "ParseMoney (p_Amount p) (p_Currency p) = Inr a" "0 < a"
    "refunded_of p = Inr r" "0 \<le> r" "r \<le> a" "ValidCurrency (p_Currency p)" "Status_Valid (p_Status p)"
    "Captured (p_Status p) \<Longrightarrow> p_Status p = StatusAfterRefunds a r"
    "\<not> Captured (p_Status p) \<Longrightarrow> r = 0"
proof -
  have cur: "ValidCurrency (p_Currency p)" and hdr: "validate_header p = []"
    using assms by (auto simp: Validate_def Let_def validate_header_def split: sum.splits)
  then have st: "Status_Valid (p_Status p)" by (simp add: validate_header_def)
  obtain a where a: "ParseMoney (p_Amount p) (p_Currency p) = Inr a"
    using assms cur by (cases "ParseMoney (p_Amount p) (p_Currency p)") (auto simp: Validate_def)
  obtain r where r: "(if p_AmountRefunded p = [] then Inr 0 else ParseMoney (p_AmountRefunded p) (p_Currency p)) = Inr r"
    using assms cur a
    by (cases "if p_AmountRefunded p = [] then Inr 0 else ParseMoney (p_AmountRefunded p) (p_Currency p)")
       (auto simp: Validate_def)
  have v: "0 < a" "validate_refunded p a r = []"
    using assms cur a r by (auto simp: Validate_def Let_def)
  have "refunded_of p = Inr r" using r by (auto simp: refunded_of_def ParseMoney_iff split: if_splits)
  with v st cur a show ?thesis
    by (intro that[of a r]) (auto simp: validate_refunded_def not_less split: if_splits)
qed

section \<open>Properties\<close>

text \<open>A payment record that passes \<^verbatim>\<open>Validate\<close> contributes a well-defined amount to its document:
  \<^verbatim>\<open>NetCaptured\<close> does not fail, is between zero and the payment's amount, is positive exactly while
  the payment counts (paid or partially refunded), and is then the amount minus what was refunded.\<close>

theorem Validate_NetCaptured:
  assumes "Validate p = []"
  shows "\<exists>a r n. ParseAmount (p_Amount p) = Inr a \<and> refunded_of p = Inr r \<and> NetCaptured p = Inr n \<and>
           0 \<le> n \<and> n \<le> a \<and> (0 < n \<longleftrightarrow> Counts (p_Status p)) \<and>
           n = (if Counts (p_Status p) then a - r else 0)"
proof -
  from assms obtain a r where ar: "ParseMoney (p_Amount p) (p_Currency p) = Inr a" "0 < a"
    "refunded_of p = Inr r" "0 \<le> r" "r \<le> a"
    and st: "Captured (p_Status p) \<Longrightarrow> p_Status p = StatusAfterRefunds a r"
    by (rule Validate_okD) blast
  have a: "ParseAmount (p_Amount p) = Inr a" using ar(1) by (simp add: ParseMoney_iff)
  have net: "NetCaptured p = Inr (if Counts (p_Status p) then a - r else 0)"
    using a ar(3) by (auto simp: NetCaptured_def refunded_of_def split: if_splits)
  have "Counts (p_Status p) \<Longrightarrow> r < a"
    using st Counts_Captured[of "p_Status p"] ar(2) StatusAfterRefunds_eq_iff[of a r]
    by (auto simp: Counts_def)
  with a net ar show ?thesis by auto
qed

text \<open>A concrete record: 100.00 MXN paid on a terminal, 40.00 of it refunded.\<close>

definition sample_payment :: Payment where
  "sample_payment =
     \<lparr>p_ID = ''pay-1'', p_DocumentType = ''sales_order'', p_DocumentID = ''doc-1'', p_OrderRef = ''ref-1'',
      p_Channel = ChannelTerminal, p_Provider = ''stripe'', p_ProviderRef = ''pi_1'', p_SessionID = [],
      p_DeviceID = [], p_IdempotencyKey = ''key-1'', p_Status = StatusPartiallyRefunded,
      p_CancelledFrom = StatusOther [], p_Amount = ''100.00'', p_Currency = ''MXN'',
      p_AmountRefunded = ''40.00'', p_Fee = [], p_Net = [], p_Method = ''card'', p_Installments = 1,
      p_Card = None, p_Cash = None, p_Seller = None, p_TestMode = False, p_HoldToken = [],
      p_Anomaly = None, p_PaidAt = None, p_CreatedAt = 0, p_UpdatedAt = 0\<rparr>"

lemma sample_payment_valid: "Validate sample_payment = []"
  by code_simp

theorem Validate_NetCaptured_witness:
  "Validate sample_payment = [] \<and> NetCaptured sample_payment = Inr 60"
proof -
  have "ParseAmount (p_Amount sample_payment) = Inr 100" "refunded_of sample_payment = Inr 40"
    "Counts (p_Status sample_payment)" by code_simp+
  then show ?thesis using Validate_NetCaptured[OF sample_payment_valid] sample_payment_valid by auto
qed

end
