(* ===== verification/Pay_Refund.thy ===== *)
theory Pay_Refund
  imports Pay_Model
begin

text \<open>
  Refunds of a payment (\<^verbatim>\<open>src/payments/refund.go\<close>): the refund lifecycle, what can still be refunded,
  the check of a new refund, the effect of succeeded refunds on the payment and what counts as paid
  toward a document. The sums of the code are related to \<open>refund_sum\<close>, a sum over the rows that match
  a predicate; the properties are stated over it.
\<close>

section \<open>Data\<close>

datatype RefundStatus =
    RefundPending | RefundSucceeded | RefundFailed | RefundManualRequired | RefundOther string

fun refundTransitions :: "RefundStatus \<Rightarrow> RefundStatus list" where
  "refundTransitions RefundPending = [RefundSucceeded, RefundFailed, RefundManualRequired]"
| "refundTransitions RefundManualRequired = [RefundSucceeded, RefundFailed]"
| "refundTransitions _ = []"

fun RefundStatus_Valid :: "RefundStatus \<Rightarrow> bool" where
  "RefundStatus_Valid (RefundOther _) = False"
| "RefundStatus_Valid _ = True"

definition CanTransitionRefund :: "RefundStatus \<Rightarrow> RefundStatus \<Rightarrow> bool" where
  "CanTransitionRefund from to \<longleftrightarrow> to \<in> set (refundTransitions from)"

datatype RefundDestination = RefundToOriginal | RefundToWallet | RefundToCash | RefundToOther string

definition RefundDestination_Valid :: "RefundDestination \<Rightarrow> bool" where
  "RefundDestination_Valid d \<longleftrightarrow> d = RefundToOriginal \<or> d = RefundToWallet \<or> d = RefundToCash"

record Refund =
  r_ID :: string
  r_PaymentID :: string
  r_Destination :: RefundDestination
  r_Provider :: string
  r_ProviderRefundID :: string
  r_Amount :: string
  r_Currency :: string
  r_Status :: RefundStatus
  r_Reason :: string
  r_IdempotencyKey :: string
  r_SourceType :: string
  r_SourceID :: string
  r_CreditNoteRequired :: bool
  r_CreditNoteID :: string
  r_AdjustsTotal :: bool
  r_CashSessionID :: string
  r_NeedsReview :: bool
  r_CreatedAt :: int
  r_SettledAt :: "int option"

definition Refund_Complete :: "Refund \<Rightarrow> bool" where
  "Refund_Complete r \<longleftrightarrow>
     r_Status r = RefundSucceeded \<and> (\<not> r_CreditNoteRequired r \<or> TrimSpace (r_CreditNoteID r) \<noteq> [])"

section \<open>Operations\<close>

text \<open>The inner loop of \<^verbatim>\<open>sumRefunds\<close> over the wanted statuses.\<close>

fun sum_statuses :: "Refund \<Rightarrow> RefundStatus list \<Rightarrow> amount \<Rightarrow> (pay_error, amount) result" where
  "sum_statuses r [] acc = Inr acc"
| "sum_statuses r (st # sts) acc =
     (if r_Status r = st then
        (case ParseAmount (r_Amount r) of Inl e \<Rightarrow> Inl e | Inr a \<Rightarrow> sum_statuses r sts (acc + a))
      else sum_statuses r sts acc)"

fun sumRefunds_from :: "Payment \<Rightarrow> Refund list \<Rightarrow> RefundStatus list \<Rightarrow> amount \<Rightarrow> (pay_error, amount) result" where
  "sumRefunds_from p [] sts acc = Inr acc"
| "sumRefunds_from p (r # rs) sts acc =
     (if r_PaymentID r \<noteq> p_ID p then sumRefunds_from p rs sts acc
      else case sum_statuses r sts acc of
             Inl e \<Rightarrow> Inl e
           | Inr acc' \<Rightarrow> sumRefunds_from p rs sts acc')"

definition sumRefunds :: "Payment \<Rightarrow> Refund list \<Rightarrow> RefundStatus list \<Rightarrow> (pay_error, amount) result" where
  "sumRefunds p refunds statuses = sumRefunds_from p refunds statuses 0"

definition Refundable :: "Payment \<Rightarrow> Refund list \<Rightarrow> (pay_error, amount) result" where
  "Refundable p refunds =
     (if \<not> Counts (p_Status p) then Inr 0
      else
        rbind (ParseAmount (p_Amount p)) (\<lambda>amount.
        rbind (if p_AmountRefunded p \<noteq> [] then ParseAmount (p_AmountRefunded p) else Inr 0) (\<lambda>recorded.
        rbind (sumRefunds p refunds [RefundSucceeded]) (\<lambda>done.
        rbind (sumRefunds p refunds [RefundPending, RefundManualRequired]) (\<lambda>inFlight.
          let left = amount - Amount_Max recorded done - inFlight
          in if Amount_Sign left < 0 then Inr 0 else Inr left)))))"

text \<open>The loop of \<^verbatim>\<open>CheckRefund\<close> over the existing refunds: the first with the key decides, \<open>None\<close> when no
  refund has it.\<close>

fun find_replay :: "Payment \<Rightarrow> Refund list \<Rightarrow> Refund \<Rightarrow> amount \<Rightarrow> (pay_error, Refund option) result" where
  "find_replay p [] next amount = Inr None"
| "find_replay p (r # rs) next amount =
     (if r_IdempotencyKey r \<noteq> r_IdempotencyKey next then find_replay p rs next amount
      else case ParseAmount (r_Amount r) of
             Inl _ \<Rightarrow> Inl ErrIdempotencyConflict
           | Inr prev \<Rightarrow>
               if r_PaymentID r \<noteq> p_ID p \<or> Amount_Cmp prev amount \<noteq> 0 \<or>
                  r_Currency r \<noteq> r_Currency next \<or> r_Destination r \<noteq> r_Destination next
               then Inl ErrIdempotencyConflict
               else Inr (Some r))"

text \<open>\<open>Inr (Some r)\<close> is a replay of \<open>r\<close>, \<open>Inr None\<close> a new refund that may proceed.\<close>

definition CheckRefund :: "Payment \<Rightarrow> Refund list \<Rightarrow> Refund \<Rightarrow> (pay_error, Refund option) result" where
  "CheckRefund p refunds next0 =
     (if blank (r_IdempotencyKey next0) then Inl ErrNotRefundable
      else
        let next = (if r_Currency next0 = [] then next0\<lparr>r_Currency := p_Currency p\<rparr> else next0)
        in rbind (ParseMoney (r_Amount next) (r_Currency next)) (\<lambda>amount.
           rbind (find_replay p refunds next amount) (\<lambda>replay.
             case replay of
               Some r \<Rightarrow> Inr (Some r)
             | None \<Rightarrow>
                 if \<not> RefundDestination_Valid (r_Destination next) then Inl ErrNotRefundable
                 else if r_Destination next = RefundToOriginal \<and> r_Provider next \<noteq> [] \<and>
                         r_Provider next \<noteq> p_Provider p then Inl ErrNotRefundable
                 else if \<not> Counts (p_Status p) then Inl ErrNotRefundable
                 else if r_Currency next \<noteq> p_Currency p then Inl ErrRefundCurrency
                 else if Amount_Sign amount \<le> 0 then Inl ErrNotRefundable
                 else rbind (Refundable p refunds) (\<lambda>left.
                        if Amount_Cmp amount left > 0 then Inl ErrRefundExceeds else Inr None))))"

definition ApplySucceededRefunds :: "Payment \<Rightarrow> Refund list \<Rightarrow> (pay_error, Payment) result" where
  "ApplySucceededRefunds p refunds =
     (if \<not> Captured (p_Status p) then Inl ErrNotRefundable
      else
        rbind (ParseAmount (p_Amount p)) (\<lambda>amount.
        rbind (sumRefunds p refunds [RefundSucceeded]) (\<lambda>done.
          if Amount_Cmp done amount > 0 then Inl ErrRefundExceeds
          else rbind (if p_AmountRefunded p \<noteq> [] then ParseAmount (p_AmountRefunded p) else Inr 0) (\<lambda>recorded.
            let tot = Amount_Max recorded done;
                p' = (if Amount_Sign tot > 0 then p\<lparr>p_AmountRefunded := Amount_String tot\<rparr> else p)
            in Inr (p'\<lparr>p_Status := StatusAfterRefunds amount tot\<rparr>)))))"

text \<open>The two loops of \<^verbatim>\<open>DocumentPaid\<close>.\<close>

fun paid_payments :: "Payment list \<Rightarrow> amount \<Rightarrow> string list \<Rightarrow> (pay_error, amount \<times> string list) result" where
  "paid_payments [] paid ids = Inr (paid, ids)"
| "paid_payments (p # ps) paid ids =
     (if \<not> Captured (p_Status p) then paid_payments ps paid ids
      else case ParseAmount (p_Amount p) of
             Inl e \<Rightarrow> Inl e
           | Inr a \<Rightarrow> paid_payments ps (paid + a) (p_ID p # ids))"

fun paid_refunds :: "Refund list \<Rightarrow> string list \<Rightarrow> amount \<Rightarrow> (pay_error, amount) result" where
  "paid_refunds [] ids paid = Inr paid"
| "paid_refunds (r # rs) ids paid =
     (if \<not> r_AdjustsTotal r \<or> r_PaymentID r \<notin> set ids \<or> r_Status r = RefundFailed
      then paid_refunds rs ids paid
      else case ParseAmount (r_Amount r) of
             Inl e \<Rightarrow> Inl e
           | Inr a \<Rightarrow> paid_refunds rs ids (paid - a))"

definition DocumentPaid :: "Payment list \<Rightarrow> Refund list \<Rightarrow> (pay_error, amount) result" where
  "DocumentPaid payments refunds =
     rbind (paid_payments payments 0 []) (\<lambda>(paid, ids). paid_refunds refunds ids paid)"

section \<open>The sums\<close>

text \<open>The value of an amount string that parses, and the sum over the rows that satisfy a predicate.\<close>

definition amount_val :: "string \<Rightarrow> amount" where
  "amount_val s = (case ParseAmount s of Inr a \<Rightarrow> a | Inl _ \<Rightarrow> 0)"

definition parses :: "string \<Rightarrow> bool" where
  "parses s \<longleftrightarrow> (case ParseAmount s of Inr _ \<Rightarrow> True | Inl _ \<Rightarrow> False)"

definition refund_sum :: "(Refund \<Rightarrow> bool) \<Rightarrow> Refund list \<Rightarrow> amount" where
  "refund_sum P rs = (\<Sum>r\<leftarrow>filter P rs. amount_val (r_Amount r))"

definition of_payment :: "string \<Rightarrow> RefundStatus list \<Rightarrow> Refund \<Rightarrow> bool" where
  "of_payment pid sts r \<longleftrightarrow> r_PaymentID r = pid \<and> r_Status r \<in> set sts"

lemma ParseAmount_Inr_iff: "ParseAmount s = Inr a \<longleftrightarrow> parses s \<and> a = amount_val s"
  by (auto simp: parses_def amount_val_def split: sum.splits)

lemma ParseAmount_cases: "ParseAmount s = (if parses s then Inr (amount_val s) else Inl ErrInvalidAmount)"
  by (auto simp: parses_def amount_val_def ParseAmount_def split: sum.splits option.splits)

lemma refund_sum_simps [simp]:
  "refund_sum P [] = 0"
  "refund_sum P (r # rs) = (if P r then amount_val (r_Amount r) else 0) + refund_sum P rs"
  "refund_sum P (rs @ ss) = refund_sum P rs + refund_sum P ss"
  by (simp_all add: refund_sum_def)

lemma refund_sum_cong:
  "(\<And>r. r \<in> set rs \<Longrightarrow> P r = Q r) \<Longrightarrow> refund_sum P rs = refund_sum Q rs"
  by (induction rs) auto

lemma refund_sum_split:
  "refund_sum P rs = refund_sum (\<lambda>r. P r \<and> Q r) rs + refund_sum (\<lambda>r. P r \<and> \<not> Q r) rs"
  by (induction rs) auto

lemma refund_sum_nonneg:
  "(\<And>r. r \<in> set rs \<Longrightarrow> P r \<Longrightarrow> 0 \<le> amount_val (r_Amount r)) \<Longrightarrow> 0 \<le> refund_sum P rs"
  by (induction rs) auto

lemma sum_statuses_eq:
  "distinct sts \<Longrightarrow> sum_statuses r sts acc =
     (if r_Status r \<in> set sts then
        (if parses (r_Amount r) then Inr (acc + amount_val (r_Amount r)) else Inl ErrInvalidAmount)
      else Inr acc)"
  by (induction sts arbitrary: acc) (auto simp: ParseAmount_cases)

lemma sumRefunds_from_eq:
  "distinct sts \<Longrightarrow> sumRefunds_from p rs sts acc =
     (if \<forall>r\<in>set rs. of_payment (p_ID p) sts r \<longrightarrow> parses (r_Amount r)
      then Inr (acc + refund_sum (of_payment (p_ID p) sts) rs) else Inl ErrInvalidAmount)"
  by (induction rs arbitrary: acc) (auto simp: sum_statuses_eq of_payment_def)

lemma sumRefunds_eq:
  "distinct sts \<Longrightarrow> sumRefunds p rs sts =
     (if \<forall>r\<in>set rs. of_payment (p_ID p) sts r \<longrightarrow> parses (r_Amount r)
      then Inr (refund_sum (of_payment (p_ID p) sts) rs) else Inl ErrInvalidAmount)"
  by (simp add: sumRefunds_def sumRefunds_from_eq)

text \<open>The amounts the decisions are taken on.\<close>

definition succeeded_sum :: "string \<Rightarrow> Refund list \<Rightarrow> amount" where
  "succeeded_sum pid rs = refund_sum (of_payment pid [RefundSucceeded]) rs"

definition in_flight_sum :: "string \<Rightarrow> Refund list \<Rightarrow> amount" where
  "in_flight_sum pid rs = refund_sum (of_payment pid [RefundPending, RefundManualRequired]) rs"

definition live_rows_parse :: "string \<Rightarrow> Refund list \<Rightarrow> bool" where
  "live_rows_parse pid rs \<longleftrightarrow>
     (\<forall>r\<in>set rs. of_payment pid [RefundSucceeded, RefundPending, RefundManualRequired] r \<longrightarrow> parses (r_Amount r))"

lemma Refundable_iff:
  "Refundable p rs = Inr left \<longleftrightarrow>
     (if \<not> Counts (p_Status p) then left = 0
      else parses (p_Amount p) \<and> (\<exists>recorded. refunded_of p = Inr recorded \<and> live_rows_parse (p_ID p) rs \<and>
             left = max 0 (amount_val (p_Amount p) - max recorded (succeeded_sum (p_ID p) rs)
                           - in_flight_sum (p_ID p) rs)))"
proof -
  have live: "live_rows_parse (p_ID p) rs \<longleftrightarrow>
      (\<forall>r\<in>set rs. of_payment (p_ID p) [RefundSucceeded] r \<longrightarrow> parses (r_Amount r)) \<and>
      (\<forall>r\<in>set rs. of_payment (p_ID p) [RefundPending, RefundManualRequired] r \<longrightarrow> parses (r_Amount r))"
    by (auto simp: live_rows_parse_def of_payment_def)
  have rec: "(if p_AmountRefunded p \<noteq> [] then ParseAmount (p_AmountRefunded p) else Inr 0) = refunded_of p"
    by (simp add: refunded_of_def)
  show ?thesis
    unfolding Refundable_def rec
    by (auto simp: rbind_Inr_iff sumRefunds_eq ParseAmount_cases live Let_def
        succeeded_sum_def in_flight_sum_def max_def split: if_splits)
qed

lemma find_replay_eq:
  "find_replay p rs next amount =
     (case find (\<lambda>r. r_IdempotencyKey r = r_IdempotencyKey next) rs of
        None \<Rightarrow> Inr None
      | Some r \<Rightarrow>
          if ParseAmount (r_Amount r) = Inr amount \<and> r_PaymentID r = p_ID p \<and>
             r_Currency r = r_Currency next \<and> r_Destination r = r_Destination next
          then Inr (Some r) else Inl ErrIdempotencyConflict)"
  by (induction rs) (auto split: sum.splits)

text \<open>The currency a refund is checked in.\<close>

definition refund_currency :: "Payment \<Rightarrow> Refund \<Rightarrow> string" where
  "refund_currency p next = (if r_Currency next = [] then p_Currency p else r_Currency next)"

lemma CheckRefund_unfold:
  "CheckRefund p rs next =
     (if blank (r_IdempotencyKey next) then Inl ErrNotRefundable
      else rbind (ParseMoney (r_Amount next) (refund_currency p next)) (\<lambda>amount.
        case find (\<lambda>r. r_IdempotencyKey r = r_IdempotencyKey next) rs of
          Some r \<Rightarrow>
            if ParseAmount (r_Amount r) = Inr amount \<and> r_PaymentID r = p_ID p \<and>
               r_Currency r = refund_currency p next \<and> r_Destination r = r_Destination next
            then Inr (Some r) else Inl ErrIdempotencyConflict
        | None \<Rightarrow>
            if \<not> RefundDestination_Valid (r_Destination next) then Inl ErrNotRefundable
            else if r_Destination next = RefundToOriginal \<and> r_Provider next \<noteq> [] \<and>
                    r_Provider next \<noteq> p_Provider p then Inl ErrNotRefundable
            else if \<not> Counts (p_Status p) then Inl ErrNotRefundable
            else if refund_currency p next \<noteq> p_Currency p then Inl ErrRefundCurrency
            else if amount \<le> 0 then Inl ErrNotRefundable
            else rbind (Refundable p rs) (\<lambda>left. if left < amount then Inl ErrRefundExceeds else Inr None)))"
  by (cases "ParseMoney (r_Amount next) (refund_currency p next)";
      cases "find (\<lambda>r. r_IdempotencyKey r = r_IdempotencyKey next) rs")
     (auto simp: CheckRefund_def Let_def refund_currency_def find_replay_eq)

section \<open>Accepting, replaying and applying refunds\<close>

lemma CheckRefund_newD:
  assumes "CheckRefund p rs next = Inr None"
  shows "parses (r_Amount next)" "0 < amount_val (r_Amount next)" "parses (p_Amount p)"
    "\<not> blank (r_IdempotencyKey next)" "\<forall>r\<in>set rs. r_IdempotencyKey r \<noteq> r_IdempotencyKey next"
    "RefundDestination_Valid (r_Destination next)" "Counts (p_Status p)"
    "refund_currency p next = p_Currency p" "live_rows_parse (p_ID p) rs"
    "ParseMoney (r_Amount next) (p_Currency p) = Inr (amount_val (r_Amount next))"
    "\<exists>recorded. refunded_of p = Inr recorded \<and>
       max recorded (succeeded_sum (p_ID p) rs) + in_flight_sum (p_ID p) rs + amount_val (r_Amount next)
         \<le> amount_val (p_Amount p)"
proof -
  obtain a left where a: "ParseMoney (r_Amount next) (refund_currency p next) = Inr a"
    and no: "find (\<lambda>r. r_IdempotencyKey r = r_IdempotencyKey next) rs = None"
    and left: "Refundable p rs = Inr left" "\<not> left < a" and pos: "0 < a"
    and cur: "refund_currency p next = p_Currency p" and cnt: "Counts (p_Status p)"
    and key: "\<not> blank (r_IdempotencyKey next)" and dst: "RefundDestination_Valid (r_Destination next)"
    using assms unfolding CheckRefund_unfold
    by (auto simp: rbind_Inr_iff split: if_splits option.splits)
  have av: "parses (r_Amount next)" "a = amount_val (r_Amount next)"
    using a by (simp_all add: ParseMoney_iff ParseAmount_Inr_iff)
  show "parses (r_Amount next)" "0 < amount_val (r_Amount next)" "\<not> blank (r_IdempotencyKey next)"
    "RefundDestination_Valid (r_Destination next)" "Counts (p_Status p)"
    "refund_currency p next = p_Currency p"
    "ParseMoney (r_Amount next) (p_Currency p) = Inr (amount_val (r_Amount next))"
    using av pos key dst cnt cur a by auto
  show "\<forall>r\<in>set rs. r_IdempotencyKey r \<noteq> r_IdempotencyKey next" using no by (simp add: find_None_iff)
  show "parses (p_Amount p)" "live_rows_parse (p_ID p) rs"
    using left(1) cnt by (auto simp: Refundable_iff)
  show "\<exists>recorded. refunded_of p = Inr recorded \<and>
       max recorded (succeeded_sum (p_ID p) rs) + in_flight_sum (p_ID p) rs + amount_val (r_Amount next)
         \<le> amount_val (p_Amount p)"
    using left cnt pos av by (auto simp: Refundable_iff max_def split: if_splits)
qed

lemma ApplySucceededRefunds_iff:
  "ApplySucceededRefunds p rs = Inr p' \<longleftrightarrow>
     Captured (p_Status p) \<and> parses (p_Amount p) \<and>
     (\<forall>r\<in>set rs. of_payment (p_ID p) [RefundSucceeded] r \<longrightarrow> parses (r_Amount r)) \<and>
     succeeded_sum (p_ID p) rs \<le> amount_val (p_Amount p) \<and>
     (\<exists>recorded. refunded_of p = Inr recorded \<and>
        p' = (if 0 < max recorded (succeeded_sum (p_ID p) rs)
              then p\<lparr>p_AmountRefunded := Amount_String (max recorded (succeeded_sum (p_ID p) rs))\<rparr> else p)
             \<lparr>p_Status := StatusAfterRefunds (amount_val (p_Amount p)) (max recorded (succeeded_sum (p_ID p) rs))\<rparr>)"
proof -
  have rec: "(if p_AmountRefunded p \<noteq> [] then ParseAmount (p_AmountRefunded p) else Inr 0) = refunded_of p"
    by (simp add: refunded_of_def)
  show ?thesis
  proof (cases "Captured (p_Status p) \<and> parses (p_Amount p)")
    case True
    then show ?thesis unfolding ApplySucceededRefunds_def rec
      by (cases "refunded_of p")
         (simp_all add: sumRefunds_eq ParseAmount_cases Let_def succeeded_sum_def not_le eq_commute[of _ p'])
  next
    case False
    then show ?thesis by (auto simp: ApplySucceededRefunds_def ParseAmount_cases)
  qed
qed

lemma amount_val_scaled: "scaled MaxScale (amount_val s)"
  using ParseAmount_scaled[of s] by (auto simp: amount_val_def split: sum.splits)

lemma refund_sum_scaled: "scaled MaxScale (refund_sum P rs)"
  by (induction rs) (auto intro!: scaled_intros amount_val_scaled)

lemma refunded_of_scaled: "refunded_of p = Inr r \<Longrightarrow> scaled MaxScale r"
  by (auto simp: refunded_of_def ParseAmount_scaled split: if_splits)

lemma refunded_of_set:
  assumes "scaled MaxScale r"
  shows "refunded_of (p\<lparr>p_AmountRefunded := Amount_String r\<rparr>) = Inr r"
proof -
  have "ParseAmount (Amount_String r) = Inr r" using ParseAmount_String[OF assms] .
  moreover have "Amount_String r \<noteq> []"
    using calculation by (auto simp: ParseAmount_def ValidDecimal_def unsigned_part_def int_part_ok_def)
  ultimately show ?thesis by (simp add: refunded_of_def)
qed

lemma refunded_of_status [simp]: "refunded_of (p\<lparr>p_Status := s\<rparr>) = refunded_of p"
  by (simp add: refunded_of_def)

text \<open>What counts as paid: the captured payments minus the refunds that lowered the total.\<close>

definition captured_sum :: "Payment list \<Rightarrow> amount" where
  "captured_sum ps = (\<Sum>p\<leftarrow>filter (\<lambda>p. Captured (p_Status p)) ps. amount_val (p_Amount p))"

definition captured_ids :: "Payment list \<Rightarrow> string list" where
  "captured_ids ps = map p_ID (filter (\<lambda>p. Captured (p_Status p)) ps)"

definition lowers_total :: "Payment list \<Rightarrow> Refund \<Rightarrow> bool" where
  "lowers_total ps r \<longleftrightarrow>
     r_AdjustsTotal r \<and> r_PaymentID r \<in> set (captured_ids ps) \<and> r_Status r \<noteq> RefundFailed"

lemma paid_payments_eq:
  "paid_payments ps paid ids =
     (if \<forall>p\<in>set ps. Captured (p_Status p) \<longrightarrow> parses (p_Amount p)
      then Inr (paid + captured_sum ps, rev (captured_ids ps) @ ids) else Inl ErrInvalidAmount)"
  by (induction ps arbitrary: paid ids)
     (auto simp: captured_sum_def captured_ids_def ParseAmount_cases)

lemma paid_refunds_eq:
  "paid_refunds rs ids paid =
     (let P = \<lambda>r. r_AdjustsTotal r \<and> r_PaymentID r \<in> set ids \<and> r_Status r \<noteq> RefundFailed
      in if \<forall>r\<in>set rs. P r \<longrightarrow> parses (r_Amount r)
         then Inr (paid - refund_sum P rs) else Inl ErrInvalidAmount)"
  by (induction rs arbitrary: paid) (auto simp: Let_def ParseAmount_cases)

lemma DocumentPaid_eq:
  "DocumentPaid ps rs =
     (if (\<forall>p\<in>set ps. Captured (p_Status p) \<longrightarrow> parses (p_Amount p)) \<and>
         (\<forall>r\<in>set rs. lowers_total ps r \<longrightarrow> parses (r_Amount r))
      then Inr (captured_sum ps - refund_sum (lowers_total ps) rs) else Inl ErrInvalidAmount)"
proof -
  have "(\<lambda>r. r_AdjustsTotal r \<and> r_PaymentID r \<in> set (rev (captured_ids ps) @ []) \<and> r_Status r \<noteq> RefundFailed)
      = lowers_total ps" by (auto simp: lowers_total_def fun_eq_iff)
  then show ?thesis
    by (auto simp: DocumentPaid_def paid_payments_eq paid_refunds_eq Let_def lowers_total_def cong: if_cong)
qed

interpretation refund_table: transition_table refundTransitions
  "[RefundPending, RefundSucceeded, RefundFailed, RefundManualRequired]"
proof
  fix s t assume t: "t \<in> set (refundTransitions s)"
  show "s \<in> set [RefundPending, RefundSucceeded, RefundFailed, RefundManualRequired]"
    using t by (cases s) simp_all
  show "t \<in> set [RefundPending, RefundSucceeded, RefundFailed, RefundManualRequired]"
    using t by (cases s) auto
qed

section \<open>Properties\<close>

text \<open>A refund is accepted only while it fits: the payment counts, the key is new, the amount is
  positive and quantized in the payment's currency, and what already went back (the larger of the
  provider's figure and the succeeded refunds) plus what is in flight plus the new refund is at most
  the captured amount.\<close>

theorem CheckRefund_never_exceeds:
  assumes "CheckRefund p rs next = Inr None"
  shows "\<exists>a amt recorded. ParseMoney (r_Amount next) (p_Currency p) = Inr a \<and> 0 < a \<and>
           ParseAmount (p_Amount p) = Inr amt \<and> refunded_of p = Inr recorded \<and> Counts (p_Status p) \<and>
           (\<forall>r\<in>set rs. r_IdempotencyKey r \<noteq> r_IdempotencyKey next) \<and>
           max recorded (succeeded_sum (p_ID p) rs) + in_flight_sum (p_ID p) rs + a \<le> amt"
  using CheckRefund_newD[OF assms] by (auto simp: ParseAmount_Inr_iff)

definition sample_refund :: Refund where
  "sample_refund =
     \<lparr>r_ID = ''re-1'', r_PaymentID = ''pay-1'', r_Destination = RefundToOriginal, r_Provider = ''stripe'',
      r_ProviderRefundID = [], r_Amount = ''25.00'', r_Currency = ''MXN'', r_Status = RefundPending,
      r_Reason = [], r_IdempotencyKey = ''rk-1'', r_SourceType = [], r_SourceID = [],
      r_CreditNoteRequired = False, r_CreditNoteID = [], r_AdjustsTotal = False, r_CashSessionID = [],
      r_NeedsReview = False, r_CreatedAt = 0, r_SettledAt = None\<rparr>"

definition sample_next :: Refund where
  "sample_next = sample_refund\<lparr>r_IdempotencyKey := ''rk-2'', r_Amount := ''35.00''\<rparr>"

lemma sample_next_accepted: "CheckRefund sample_payment [sample_refund] sample_next = Inr None"
  by code_simp

theorem CheckRefund_never_exceeds_witness:
  "CheckRefund sample_payment [sample_refund] sample_next = Inr None \<and>
   (\<exists>recorded. refunded_of sample_payment = Inr recorded \<and>
      max recorded (succeeded_sum ''pay-1'' [sample_refund]) + in_flight_sum ''pay-1'' [sample_refund] + 35 \<le> 100)"
proof -
  have v: "ParseMoney (r_Amount sample_next) (p_Currency sample_payment) = Inr 35"
    "ParseAmount (p_Amount sample_payment) = Inr 100" by code_simp+
  have "p_ID sample_payment = ''pay-1''" by (simp add: sample_payment_def)
  then show ?thesis using CheckRefund_never_exceeds[OF sample_next_accepted] sample_next_accepted v by auto
qed

text \<open>A request is answered as a replay exactly when the first refund with its key is the same refund:
  same payment, same value, same currency and same destination. Any other reuse of the key is a
  conflict, whatever else the request says.\<close>

theorem CheckRefund_replay_or_conflict:
  assumes "\<not> blank (r_IdempotencyKey next)" and "ParseMoney (r_Amount next) (refund_currency p next) = Inr a"
    and "find (\<lambda>r. r_IdempotencyKey r = r_IdempotencyKey next) rs = Some r"
  shows "CheckRefund p rs next =
    (if r_PaymentID r = p_ID p \<and> ParseAmount (r_Amount r) = Inr a \<and>
        r_Currency r = refund_currency p next \<and> r_Destination r = r_Destination next
     then Inr (Some r) else Inl ErrIdempotencyConflict)"
  using assms by (auto simp: CheckRefund_unfold)

theorem CheckRefund_replay_or_conflict_witness:
  "CheckRefund sample_payment [sample_refund] (sample_refund\<lparr>r_Amount := ''25''\<rparr>) = Inr (Some sample_refund)"
proof -
  have *: "\<not> blank (r_IdempotencyKey (sample_refund\<lparr>r_Amount := ''25''\<rparr>))"
    "ParseMoney (r_Amount (sample_refund\<lparr>r_Amount := ''25''\<rparr>))
       (refund_currency sample_payment (sample_refund\<lparr>r_Amount := ''25''\<rparr>)) = Inr 25"
    "ParseAmount (r_Amount sample_refund) = Inr 25" by code_simp+
  have f: "find (\<lambda>r. r_IdempotencyKey r = r_IdempotencyKey (sample_refund\<lparr>r_Amount := ''25''\<rparr>)) [sample_refund]
      = Some sample_refund" by (simp add: sample_refund_def)
  show ?thesis
    using CheckRefund_replay_or_conflict[OF *(1,2) f] *(3)
    by (simp add: refund_currency_def) (simp add: sample_refund_def sample_payment_def)
qed

text \<open>\<^verbatim>\<open>ApplySucceededRefunds\<close> only ever raises what is recorded as refunded: afterwards the record shows
  the larger of the previous figure and the succeeded refunds, its status is the one those amounts
  imply, no other field changes, and applying the same refunds again changes nothing.\<close>

theorem ApplySucceededRefunds_raises:
  assumes "ApplySucceededRefunds p rs = Inr p'" and "refunded_of p = Inr old" and "0 \<le> old"
  shows "refunded_of p' = Inr (max old (succeeded_sum (p_ID p) rs)) \<and>
         p_Status p' = StatusAfterRefunds (amount_val (p_Amount p)) (max old (succeeded_sum (p_ID p) rs)) \<and>
         p'\<lparr>p_Status := p_Status p, p_AmountRefunded := p_AmountRefunded p\<rparr> = p \<and>
         ApplySucceededRefunds p' rs = Inr p'"
proof -
  define tot where "tot = max old (succeeded_sum (p_ID p) rs)"
  have p': "p' = (if 0 < tot then p\<lparr>p_AmountRefunded := Amount_String tot\<rparr> else p)
             \<lparr>p_Status := StatusAfterRefunds (amount_val (p_Amount p)) tot\<rparr>"
    and ok: "Captured (p_Status p)" "parses (p_Amount p)" "succeeded_sum (p_ID p) rs \<le> amount_val (p_Amount p)"
      "\<forall>r\<in>set rs. of_payment (p_ID p) [RefundSucceeded] r \<longrightarrow> parses (r_Amount r)"
    using assms by (auto simp: ApplySucceededRefunds_iff tot_def)
  have "scaled MaxScale tot"
    unfolding tot_def succeeded_sum_def using refunded_of_scaled[OF assms(2)] refund_sum_scaled
    by (intro scaled_intros)
  then have r: "refunded_of p' = Inr tot"
    using assms(2,3) by (auto simp: p' refunded_of_set tot_def)
  have keep: "p_ID p' = p_ID p" "p_Amount p' = p_Amount p" "p'\<lparr>p_Status := p_Status p, p_AmountRefunded := p_AmountRefunded p\<rparr> = p"
    "p_Status p' = StatusAfterRefunds (amount_val (p_Amount p)) tot"
    by (simp_all add: p')
  have mx: "max tot (succeeded_sum (p_ID p) rs) = tot" by (simp add: tot_def)
  have again: "p' = (if 0 < tot then p'\<lparr>p_AmountRefunded := Amount_String tot\<rparr> else p')
      \<lparr>p_Status := StatusAfterRefunds (amount_val (p_Amount p)) tot\<rparr>"
    by (simp add: p')
  have "ApplySucceededRefunds p' rs = Inr p'"
    unfolding ApplySucceededRefunds_iff keep(1,2,4) r
  proof (intro conjI exI[of _ tot])
    show "p' = (if 0 < max tot (succeeded_sum (p_ID p) rs)
        then p'\<lparr>p_AmountRefunded := Amount_String (max tot (succeeded_sum (p_ID p) rs))\<rparr> else p')
        \<lparr>p_Status := StatusAfterRefunds (amount_val (p_Amount p)) (max tot (succeeded_sum (p_ID p) rs))\<rparr>"
      unfolding mx by (rule again)
  qed (use ok in auto)
  with r keep show ?thesis by (simp add: tot_def)
qed

theorem ApplySucceededRefunds_raises_witness:
  "\<exists>p'. ApplySucceededRefunds sample_payment [sample_refund\<lparr>r_Status := RefundSucceeded, r_Amount := ''100''\<rparr>] = Inr p' \<and>
     refunded_of p' = Inr 100 \<and> p_Status p' = StatusRefunded"
proof -
  let ?rs = "[sample_refund\<lparr>r_Status := RefundSucceeded, r_Amount := ''100''\<rparr>]"
  have v: "refunded_of sample_payment = Inr 40" "succeeded_sum (p_ID sample_payment) ?rs = 100"
    "amount_val (p_Amount sample_payment) = 100" by code_simp+
  have "\<not> isl (ApplySucceededRefunds sample_payment ?rs)" by code_simp
  then obtain p' where p': "ApplySucceededRefunds sample_payment ?rs = Inr p'"
    by (cases "ApplySucceededRefunds sample_payment ?rs") auto
  show ?thesis using ApplySucceededRefunds_raises[OF p' v(1)] p' v
    by (simp add: StatusAfterRefunds_def)
qed

text \<open>What counts as paid toward a document is the sum of its captured payments minus exactly the
  refunds that came with a reduction of the total and did not fail; so a goodwill refund, whatever its
  status, never reopens the document's debt.\<close>

theorem DocumentPaid_value:
  "DocumentPaid ps rs = DocumentPaid ps (filter r_AdjustsTotal rs) \<and>
   (DocumentPaid ps rs = Inr d \<longrightarrow> d = captured_sum ps - refund_sum (lowers_total ps) rs)"
proof -
  have "refund_sum (lowers_total ps) (filter r_AdjustsTotal rs) = refund_sum (lowers_total ps) rs"
    by (induction rs) (auto simp: lowers_total_def)
  moreover have "(\<forall>r\<in>set (filter r_AdjustsTotal rs). lowers_total ps r \<longrightarrow> parses (r_Amount r)) \<longleftrightarrow>
      (\<forall>r\<in>set rs. lowers_total ps r \<longrightarrow> parses (r_Amount r))" by (auto simp: lowers_total_def)
  ultimately show ?thesis by (simp add: DocumentPaid_eq)
qed

theorem DocumentPaid_value_witness:
  "DocumentPaid [sample_payment] [sample_refund] = Inr 100 \<and>
   DocumentPaid [sample_payment] [sample_refund\<lparr>r_AdjustsTotal := True\<rparr>] = Inr 75 \<and>
   (100::rat) = captured_sum [sample_payment] - refund_sum (lowers_total [sample_payment]) [sample_refund]"
proof -
  have "DocumentPaid [sample_payment] [sample_refund] = Inr 100"
    "DocumentPaid [sample_payment] [sample_refund\<lparr>r_AdjustsTotal := True\<rparr>] = Inr 75" by code_simp+
  then show ?thesis using DocumentPaid_value[of "[sample_payment]" "[sample_refund]" 100] by simp
qed

end
