(* ===== verification/Pay_Settle.thy ===== *)
theory Pay_Settle
  imports Pay_Refund
begin

text \<open>
  Collecting toward a document (\<^verbatim>\<open>src/payments/settle.go\<close>): the tenders of a collection, the split of
  what is collected into what is applied, change, rounding and remainder, and the replay decision of a
  charge. When the code returns an error next to a partially filled \<^verbatim>\<open>Settlement\<close>, the model returns
  the error only (no caller reads the struct then).
\<close>

section \<open>Tenders and lines\<close>

fun sum_tenders :: "string \<Rightarrow> amount \<Rightarrow> string list \<Rightarrow> (pay_error, amount) result" where
  "sum_tenders currency acc [] = Inr acc"
| "sum_tenders currency acc (t # ts) =
     (case ParseMoney t currency of
        Inl e \<Rightarrow> Inl e
      | Inr a \<Rightarrow> if Amount_Sign a \<le> 0 then Inl ErrTenderMismatch else sum_tenders currency (acc + a) ts)"

definition CheckTenders :: "string \<Rightarrow> string \<Rightarrow> string list \<Rightarrow> (pay_error, unit) result" where
  "CheckTenders currency declared tenders =
     rbind (ParseMoney declared currency) (\<lambda>want.
     rbind (sum_tenders currency 0 tenders) (\<lambda>sum.
       if Amount_Cmp sum want \<noteq> 0 then Inl ErrTenderMismatch else Inr ()))"

definition CheckLinesTotal :: "string \<Rightarrow> string list \<Rightarrow> (pay_error, unit) result" where
  "CheckLinesTotal tot lineTotals =
     rbind (ParseAmount tot) (\<lambda>t.
     rbind (Amount_Sum lineTotals) (\<lambda>sum.
       if Amount_Cmp sum t \<noteq> 0 then Inl ErrLinesMismatch else Inr ()))"

section \<open>Settling a collection\<close>

record Settlement =
  s_Due :: amount
  s_Applied :: amount
  s_Change :: amount
  s_Rounding :: amount
  s_Remaining :: amount
  s_Settled :: bool

definition MaxCashTolerance :: "string \<Rightarrow> (pay_error, amount) result" where
  "MaxCashTolerance currency =
     rbind (MustAmount ''1'') (\<lambda>one. rbind (MinorUnit currency) (\<lambda>unit. Inr (one - unit)))"

definition MaxRoundingPercent :: nat where
  "MaxRoundingPercent = 10"

definition maxRoundingShare :: "(pay_error, amount) result" where
  "maxRoundingShare =
     rbind (MustAmount (digits_of MaxRoundingPercent)) (\<lambda>pct.
     rbind (MustAmount ''0.01'') (\<lambda>hundredth. Inr (pct * hundredth)))"

definition orZero :: "string \<Rightarrow> string" where
  "orZero s = (if TrimSpace s = [] then ''0'' else s)"

definition CheckCashTolerance :: "string \<Rightarrow> string \<Rightarrow> (pay_error, amount) result" where
  "CheckCashTolerance tolerance currency =
     (case ParseMoney (orZero tolerance) currency of
        Inl _ \<Rightarrow> Inl ErrInvalidTolerance
      | Inr tol \<Rightarrow>
          if Amount_Sign tol < 0 then Inl ErrInvalidTolerance
          else rbind (MaxCashTolerance currency) (\<lambda>cap.
            if Amount_Cmp tol cap > 0 then Inl ErrInvalidTolerance else Inr tol))"

record Collection =
  c_Currency :: string
  c_Total :: string
  c_AlreadyPaid :: string
  c_NonCash :: string
  c_Cash :: string
  c_CashTolerance :: string

definition settle_parse :: "Collection \<Rightarrow> string \<Rightarrow> (pay_error, amount) result" where
  "settle_parse c v =
     rbind (ParseMoney (orZero v) (c_Currency c)) (\<lambda>a.
       if Amount_Sign a < 0 then Inl ErrNegativeAmount else Inr a)"

text \<open>The split of \<^verbatim>\<open>Settle\<close> once everything is parsed and checked.\<close>

definition settle_split :: "amount \<Rightarrow> amount \<Rightarrow> amount \<Rightarrow> amount \<Rightarrow> amount \<Rightarrow> Settlement" where
  "settle_split due nonCash cash tol share =
     (let rest = due - nonCash in
      if Amount_Cmp cash rest \<ge> 0 then
        \<lparr>s_Due = due, s_Applied = due, s_Change = cash - rest, s_Rounding = 0, s_Remaining = 0, s_Settled = True\<rparr>
      else if Amount_Sign cash > 0 \<and> Amount_Cmp (rest - cash) tol \<le> 0 \<and>
              Amount_Cmp (rest - cash) (rest * share) \<le> 0 then
        \<lparr>s_Due = due, s_Applied = nonCash + cash, s_Change = 0, s_Rounding = rest - cash, s_Remaining = 0,
         s_Settled = True\<rparr>
      else
        \<lparr>s_Due = due, s_Applied = nonCash + cash, s_Change = 0, s_Rounding = 0,
         s_Remaining = due - (nonCash + cash), s_Settled = False\<rparr>)"

definition Settle :: "Collection \<Rightarrow> (pay_error, Settlement) result" where
  "Settle c =
     rbind (settle_parse c (c_Total c)) (\<lambda>tot.
     rbind (settle_parse c (c_AlreadyPaid c)) (\<lambda>paid.
     rbind (settle_parse c (c_NonCash c)) (\<lambda>nonCash.
     rbind (settle_parse c (c_Cash c)) (\<lambda>cash.
     rbind (CheckCashTolerance (c_CashTolerance c) (c_Currency c)) (\<lambda>tol.
     rbind maxRoundingShare (\<lambda>share.
       if Amount_Sign (nonCash + cash) \<le> 0 then Inl ErrTenderMismatch
       else let due = tot - paid in
         if Amount_Sign due \<le> 0 then Inl ErrNothingDue
         else if Amount_Cmp nonCash due > 0 then Inl ErrExceedsTotal
         else Inr (settle_split due nonCash cash tol share)))))))"

section \<open>The replay decision\<close>

datatype Verdict =
    VerdictNew | VerdictReplay | VerdictAlreadyPaid | VerdictInProgress | VerdictRetryNewKey

definition CheckReplay :: "Payment list \<Rightarrow> Refund list \<Rightarrow> string \<Rightarrow> string \<Rightarrow>
    (pay_error, Verdict \<times> Payment option) result" where
  "CheckReplay payments refunds idempotencyKey tot =
     (if blank idempotencyKey then Inl ErrKeyRequired
      else case find (\<lambda>p. p_IdempotencyKey p = idempotencyKey) payments of
        Some p \<Rightarrow>
          if Captured (p_Status p) then Inr (VerdictReplay, Some p)
          else if Open (p_Status p) then Inr (VerdictInProgress, Some p)
          else Inr (VerdictRetryNewKey, Some p)
      | None \<Rightarrow>
          rbind (ParseAmount tot) (\<lambda>t.
            if Amount_Sign t \<le> 0 then Inl ErrNegativeAmount
            else rbind (DocumentPaid payments refunds) (\<lambda>paid.
              if Amount_Cmp paid t \<ge> 0 then Inr (VerdictAlreadyPaid, None)
              else case find (\<lambda>p. Open (p_Status p)) payments of
                     Some p \<Rightarrow> Inr (VerdictInProgress, Some p)
                   | None \<Rightarrow> Inr (VerdictNew, None))))"

section \<open>Lemmas\<close>

lemma MaxCashTolerance_eq: "MaxCashTolerance currency = Inr (1 - 1 / 10 ^ MinorUnits currency)"
proof -
  have "MustAmount ''1'' = Inr 1" by code_simp
  then show ?thesis by (simp add: MaxCashTolerance_def MinorUnit_eq)
qed

lemma maxRoundingShare_eq: "maxRoundingShare = Inr (1 / 10)"
  by code_simp

lemma CheckCashTolerance_iff:
  "CheckCashTolerance tolerance currency = Inr tol \<longleftrightarrow>
     ParseMoney (orZero tolerance) currency = Inr tol \<and> 0 \<le> tol \<and> tol \<le> 1 - 1 / 10 ^ MinorUnits currency"
  by (auto simp: CheckCashTolerance_def MaxCashTolerance_eq not_less not_le split: sum.splits if_splits)

lemma settle_parse_iff:
  "settle_parse c v = Inr a \<longleftrightarrow> ParseMoney (orZero v) (c_Currency c) = Inr a \<and> 0 \<le> a"
  by (auto simp: settle_parse_def rbind_Inr_iff not_less)

lemma Settle_iff:
  "Settle c = Inr s \<longleftrightarrow>
     (\<exists>tot paid nonCash cash tol.
        settle_parse c (c_Total c) = Inr tot \<and> settle_parse c (c_AlreadyPaid c) = Inr paid \<and>
        settle_parse c (c_NonCash c) = Inr nonCash \<and> settle_parse c (c_Cash c) = Inr cash \<and>
        CheckCashTolerance (c_CashTolerance c) (c_Currency c) = Inr tol \<and>
        0 < nonCash + cash \<and> 0 < tot - paid \<and> nonCash \<le> tot - paid \<and>
        s = settle_split (tot - paid) nonCash cash tol (1 / 10))"
  unfolding Settle_def maxRoundingShare_eq
  by (auto simp: rbind_Inr_iff Let_def not_le not_less split: if_splits)

lemma settle_split_cases:
  obtains (change) "due - nonCash \<le> cash"
      "settle_split due nonCash cash tol share =
         \<lparr>s_Due = due, s_Applied = due, s_Change = cash - (due - nonCash), s_Rounding = 0, s_Remaining = 0,
          s_Settled = True\<rparr>"
    | (rounding) "0 < cash" "cash < due - nonCash" "due - nonCash - cash \<le> tol"
      "due - nonCash - cash \<le> (due - nonCash) * share"
      "settle_split due nonCash cash tol share =
         \<lparr>s_Due = due, s_Applied = nonCash + cash, s_Change = 0, s_Rounding = due - nonCash - cash,
          s_Remaining = 0, s_Settled = True\<rparr>"
    | (partial) "cash < due - nonCash"
      "settle_split due nonCash cash tol share =
         \<lparr>s_Due = due, s_Applied = nonCash + cash, s_Change = 0, s_Rounding = 0,
          s_Remaining = due - (nonCash + cash), s_Settled = False\<rparr>"
proof -
  define B where "B \<longleftrightarrow> 0 < cash \<and> due - nonCash - cash \<le> tol \<and>
    due - nonCash - cash \<le> (due - nonCash) * share"
  consider "due - nonCash \<le> cash" | "cash < due - nonCash" "B" | "cash < due - nonCash" "\<not> B"
    by fastforce
  then show thesis
  proof cases
    case 1
    then show ?thesis by (intro change) (auto simp: settle_split_def Let_def)
  next
    case 2
    then show ?thesis by (intro rounding) (auto simp: settle_split_def Let_def B_def)
  next
    case 3
    then show ?thesis by (intro partial) (auto simp: settle_split_def Let_def B_def)
  qed
qed

lemma CheckReplay_new_iff:
  "CheckReplay ps rs key tot = Inr (VerdictNew, x) \<longleftrightarrow>
     x = None \<and> \<not> blank key \<and> (\<forall>p\<in>set ps. p_IdempotencyKey p \<noteq> key \<and> \<not> Open (p_Status p)) \<and>
     (\<exists>t paid. ParseAmount tot = Inr t \<and> 0 < t \<and> DocumentPaid ps rs = Inr paid \<and> paid < t)"
  by (auto simp: CheckReplay_def rbind_Inr_iff find_None_iff not_le split: option.splits if_splits
      dest!: find_Some_in)

section \<open>Properties\<close>

text \<open>C8. \<^verbatim>\<open>Settle\<close> conserves money: what was due splits exactly into what is applied, what is absorbed as
  rounding and what remains; what was collected splits exactly into what is applied and the change.
  Nothing is negative, change comes only out of the cash, rounding is bounded by the tolerance (itself
  less than one major unit) and by ten percent of what the cash had to cover, at most one of the three
  is positive, and the document is settled exactly when nothing remains.\<close>

theorem Settle_conserves:
  assumes "Settle c = Inr s"
    and "settle_parse c (c_NonCash c) = Inr nonCash" and "settle_parse c (c_Cash c) = Inr cash"
  shows "0 < s_Due s \<and> s_Applied s + s_Rounding s + s_Remaining s = s_Due s \<and>
         nonCash + cash = s_Applied s + s_Change s \<and>
         0 < s_Applied s \<and> 0 \<le> s_Change s \<and> s_Change s \<le> cash \<and> 0 \<le> s_Rounding s \<and> 0 \<le> s_Remaining s \<and>
         s_Rounding s < 1 \<and> s_Rounding s \<le> (s_Due s - nonCash) / 10 \<and>
         (s_Settled s \<longleftrightarrow> s_Remaining s = 0) \<and>
         (s_Change s = 0 \<or> s_Rounding s = 0 \<and> s_Remaining s = 0) \<and> (s_Rounding s = 0 \<or> s_Remaining s = 0)"
proof -
  obtain due tol where s: "s = settle_split due nonCash cash tol (1 / 10)"
    and due: "0 < due" "nonCash \<le> due" and col: "0 < nonCash + cash"
    and tol: "tol \<le> 1 - 1 / 10 ^ MinorUnits (c_Currency c)"
    using assms by (auto simp: Settle_iff CheckCashTolerance_iff)
  have nn: "0 \<le> nonCash" "0 \<le> cash" using assms(2,3) by (simp_all add: settle_parse_iff)
  have "(0::rat) < 1 / 10 ^ MinorUnits (c_Currency c)" by simp
  with tol have tol1: "tol < 1" by linarith
  show ?thesis
    by (cases rule: settle_split_cases[of due nonCash cash tol "1 / 10"])
       (use due nn col tol1 in \<open>auto simp: s field_simps\<close>)
qed

definition sample_collection :: Collection where
  "sample_collection =
     \<lparr>c_Currency = ''MXN'', c_Total = ''150.30'', c_AlreadyPaid = ''50'', c_NonCash = ''40'', c_Cash = ''60'',
      c_CashTolerance = ''0.50''\<rparr>"

theorem Settle_conserves_witness:
  "Settle sample_collection =
     Inr \<lparr>s_Due = 1003 / 10, s_Applied = 100, s_Change = 0, s_Rounding = 3 / 10, s_Remaining = 0, s_Settled = True\<rparr> \<and>
   (3 / 10 :: rat) \<le> (1003 / 10 - 40) / 10"
proof -
  have v: "settle_parse sample_collection (c_NonCash sample_collection) = Inr 40"
    "settle_parse sample_collection (c_Cash sample_collection) = Inr 60"
    "Settle sample_collection =
     Inr \<lparr>s_Due = 1003 / 10, s_Applied = 100, s_Change = 0, s_Rounding = 3 / 10, s_Remaining = 0, s_Settled = True\<rparr>"
    by code_simp+
  show ?thesis using Settle_conserves[OF v(3,1,2)] v(3) by simp
qed

text \<open>A charge is new exactly when its key is present and unused by the document's payments, none of
  them is still open, and what counts as paid is less than a positive total: no sequence of retries,
  second points of sale or timeouts gets a second charge of a paid or in-progress document.\<close>

theorem CheckReplay_new_only_if_due:
  "CheckReplay ps rs key tot = Inr (VerdictNew, x) \<longleftrightarrow>
     x = None \<and> \<not> blank key \<and> (\<forall>p\<in>set ps. p_IdempotencyKey p \<noteq> key \<and> \<not> Open (p_Status p)) \<and>
     (\<exists>t paid. ParseAmount tot = Inr t \<and> 0 < t \<and> DocumentPaid ps rs = Inr paid \<and> paid < t)"
  by (rule CheckReplay_new_iff)

theorem CheckReplay_new_only_if_due_witness:
  "CheckReplay [sample_payment] [sample_refund] ''key-9'' ''120.00'' = Inr (VerdictNew, None)"
proof -
  have "\<not> blank ''key-9''" "ParseAmount ''120.00'' = Inr 120"
    "DocumentPaid [sample_payment] [sample_refund] = Inr 100"
    "p_IdempotencyKey sample_payment \<noteq> ''key-9'' \<and> \<not> Open (p_Status sample_payment)" by code_simp+
  then show ?thesis using CheckReplay_new_only_if_due[of "[sample_payment]" "[sample_refund]" "''key-9''" "''120.00''" None]
    by simp
qed

text \<open>Tenders pass exactly when every one is positive and quantized in the currency and together they
  are the declared amount.\<close>

theorem CheckTenders_exact:
  "CheckTenders currency declared tenders = Inr () \<longleftrightarrow>
     (\<exists>want. ParseMoney declared currency = Inr want \<and>
        list_all (\<lambda>t. \<exists>a. ParseMoney t currency = Inr a \<and> 0 < a) tenders \<and>
        (\<Sum>t\<leftarrow>tenders. amount_val t) = want)"
proof -
  have "sum_tenders currency acc ts = Inr v \<longleftrightarrow>
      list_all (\<lambda>t. \<exists>a. ParseMoney t currency = Inr a \<and> 0 < a) ts \<and> v = acc + (\<Sum>t\<leftarrow>ts. amount_val t)" for acc v ts
  proof (induction ts arbitrary: acc)
    case (Cons t ts)
    show ?case
    proof (cases "ParseMoney t currency")
      case (Inr a)
      then have "amount_val t = a" by (simp add: ParseMoney_iff ParseAmount_Inr_iff)
      with Inr Cons show ?thesis by (auto simp: algebra_simps)
    qed simp
  qed auto
  then show ?thesis by (auto simp: CheckTenders_def rbind_Inr_iff)
qed

end
