(* ===== verification/Guarded.thy ===== *)
theory Guarded
  imports Prelude
begin

text \<open>
  The contract of a resource that only its owner may change while it is reserved, and the tokens that
  name owners. Charge holds, the reconciler's leases and the outbox's job leases provide it.

  In \<open>guarded_view\<close> operations run on a larger state of which the resource is a part (\<open>view\<close>);
  \<open>guarded_resource\<close> is the case where the state is the resource.
\<close>

section \<open>Resources only the owner changes\<close>

locale guarded_view =
  fixes run_op :: "'op \<Rightarrow> 's \<Rightarrow> 's"
    and may_touch :: "'op \<Rightarrow> 'v \<Rightarrow> bool"
    and view :: "'s \<Rightarrow> 'v"
    and wf :: "'s \<Rightarrow> bool"
  assumes foreign_keeps_view: "wf s \<Longrightarrow> \<not> may_touch op (view s) \<Longrightarrow> view (run_op op s) = view s"
    and run_op_wf: "wf s \<Longrightarrow> wf (run_op op s)"
begin

lemma run_wf: "wf s \<Longrightarrow> wf (fold run_op ops s)"
  by (induction ops arbitrary: s) (simp_all add: run_op_wf)

lemma run_foreign_view:
  assumes "wf s" and "\<forall>op\<in>set ops. \<not> may_touch op (view s)"
  shows "view (fold run_op ops s) = view s"
  using assms
proof (induction ops arbitrary: s)
  case (Cons op ops)
  then have "view (run_op op s) = view s" "wf (run_op op s)" by (simp_all add: foreign_keeps_view run_op_wf)
  with Cons show ?case by simp
qed simp

lemma view_change_has_cause:
  assumes "wf s" and "view (fold run_op ops s) \<noteq> view s"
  shows "\<exists>i<length ops. may_touch (ops ! i) (view s) \<and> view (fold run_op (take i ops) s) = view s"
  using assms(2)
proof (induction ops rule: rev_induct)
  case (snoc op ops)
  show ?case
  proof (cases "view (fold run_op ops s) = view s")
    case True
    with snoc.prems have "may_touch op (view s)"
      using foreign_keeps_view[OF run_wf[OF assms(1)], of op ops] by auto
    with True show ?thesis by (intro exI[of _ "length ops"]) simp
  next
    case False
    with snoc.IH obtain i where "i < length ops" "may_touch (ops ! i) (view s)"
      "view (fold run_op (take i ops) s) = view s" by blast
    then show ?thesis by (intro exI[of _ i]) (simp add: nth_append)
  qed
qed simp

end

locale guarded_resource =
  fixes apply_op :: "'op \<Rightarrow> 's \<Rightarrow> 's"
    and may_change :: "'op \<Rightarrow> 's \<Rightarrow> bool"
  assumes foreign_keeps: "\<not> may_change op s \<Longrightarrow> apply_op op s = s"
begin

definition run_ops :: "'op list \<Rightarrow> 's \<Rightarrow> 's" where
  "run_ops ops s = fold apply_op ops s"

end

sublocale guarded_resource \<subseteq> whole: guarded_view apply_op may_change "\<lambda>s. s" "\<lambda>_. True"
  by unfold_locales (simp_all add: foreign_keeps)

context guarded_resource
begin

lemma run_foreign:
  "\<forall>op\<in>set ops. \<not> may_change op s \<Longrightarrow> run_ops ops s = s"
  unfolding run_ops_def using whole.run_foreign_view by simp

lemma change_has_cause:
  "run_ops ops s \<noteq> s \<Longrightarrow> \<exists>i<length ops. may_change (ops ! i) s \<and> run_ops (take i ops) s = s"
  unfolding run_ops_def using whole.view_change_has_cause by simp

end

section \<open>Tokens\<close>

text \<open>\<^verbatim>\<open>hex.EncodeToString\<close>.\<close>

definition hex_digit :: "nat \<Rightarrow> char" where
  "hex_digit n = (if n < 10 then digit_char n else char_of (n + 87))"

definition hex_encode :: "string \<Rightarrow> string" where
  "hex_encode bs = concat (map (\<lambda>b. [hex_digit (of_char b div 16), hex_digit (of_char b mod 16)]) bs)"

lemma length_hex_encode: "length (hex_encode bs) = 2 * length bs"
  by (induction bs) (simp_all add: hex_encode_def)

end
