(* ===== verification/Pay_Hold.thy ===== *)
theory Pay_Hold
  imports Pay_Status Guarded
begin

text \<open>
  Charge holds (\<^verbatim>\<open>src/payments/hold.go\<close>): a token-owned, time-limited reservation of a document. Times
  and durations are integer nanoseconds. The random token of \<^verbatim>\<open>NewHoldToken\<close> is an argument (its bytes),
  and so is the token a caller's \<^verbatim>\<open>newToken\<close> would return.

  Holds provide the contract \<open>guarded_resource\<close> of a resource only its owner may change.
\<close>

section \<open>Data\<close>

datatype HoldStatus = HoldActive | HoldReleased | HoldConsumed | HoldExpired

definition second_ns :: int where
  "second_ns = 1000000000"

definition DefaultHoldTTL :: int where "DefaultHoldTTL = 300 * second_ns"
definition MinHoldTTL :: int where "MinHoldTTL = 30 * second_ns"
definition MaxHoldTTL :: int where "MaxHoldTTL = 3600 * second_ns"

definition ClampHoldTTL :: "int \<Rightarrow> int" where
  "ClampHoldTTL d =
     (if d \<le> 0 then DefaultHoldTTL
      else if d < MinHoldTTL then MinHoldTTL
      else if d > MaxHoldTTL then MaxHoldTTL
      else d)"

definition MinHoldTokenLen :: nat where "MinHoldTokenLen = 32"

definition NewHoldToken :: "string \<Rightarrow> string" where
  "NewHoldToken bytes = hex_encode bytes"

record Hold =
  h_DocumentType :: string
  h_DocumentID :: string
  h_Token :: string
  h_Holder :: string
  h_Channel :: Channel
  h_UserID :: string
  h_Status :: HoldStatus
  h_ExpiresAt :: int

record HoldRequest =
  hr_DocumentType :: string
  hr_DocumentID :: string
  hr_Holder :: string
  hr_Channel :: Channel
  hr_UserID :: string
  hr_Token :: string
  hr_TTL :: int

section \<open>Operations\<close>

definition Live :: "Hold \<Rightarrow> int \<Rightarrow> bool" where
  "Live h now \<longleftrightarrow> h_Status h = HoldActive \<and> now < h_ExpiresAt h"

definition Owns :: "Hold \<Rightarrow> string \<Rightarrow> bool" where
  "Owns h token \<longleftrightarrow> token \<noteq> [] \<and> h_Token h = token"

definition Acquire :: "Hold option \<Rightarrow> HoldRequest \<Rightarrow> int \<Rightarrow> string \<Rightarrow> (pay_error, Hold) result" where
  "Acquire current req now newToken =
     (if blank (hr_DocumentType req) \<or> blank (hr_DocumentID req) \<or> blank (hr_Holder req) then Inl ErrHoldInput
      else
        let ttl = ClampHoldTTL (hr_TTL req);
            fresh = (if length (TrimSpace newToken) < MinHoldTokenLen then Inl ErrHoldTokenShort
                     else Inr \<lparr>h_DocumentType = hr_DocumentType req, h_DocumentID = hr_DocumentID req,
                               h_Token = newToken, h_Holder = hr_Holder req, h_Channel = hr_Channel req,
                               h_UserID = hr_UserID req, h_Status = HoldActive, h_ExpiresAt = now + ttl\<rparr>)
        in case current of
             None \<Rightarrow> fresh
           | Some h \<Rightarrow>
               if Live h now then
                 if Owns h (hr_Token req) then Inr (h\<lparr>h_ExpiresAt := now + ttl\<rparr>)
                 else Inl (ErrHeld (h_Holder h) (h_ExpiresAt h))
               else fresh)"

definition CheckCharge :: "Hold option \<Rightarrow> string \<Rightarrow> int \<Rightarrow> (pay_error, unit) result" where
  "CheckCharge current token now =
     (case current of
        None \<Rightarrow> Inr ()
      | Some h \<Rightarrow> if \<not> Live h now \<or> Owns h token then Inr () else Inl (ErrHeld (h_Holder h) (h_ExpiresAt h)))"

text \<open>\<^verbatim>\<open>Release\<close> and \<^verbatim>\<open>Consume\<close> return the unchanged hold next to an error; here just the error.\<close>

definition Release :: "Hold option \<Rightarrow> string \<Rightarrow> bool \<Rightarrow> int \<Rightarrow> (pay_error, Hold option) result" where
  "Release current token force now =
     (case current of
        None \<Rightarrow> Inr None
      | Some h \<Rightarrow>
          if h_Status h \<noteq> HoldActive then Inr (Some h)
          else if \<not> Live h now then Inr (Some (h\<lparr>h_Status := HoldExpired\<rparr>))
          else if force \<or> Owns h token then Inr (Some (h\<lparr>h_Status := HoldReleased\<rparr>))
          else Inl ErrHoldNotOwner)"

definition Consume :: "Hold option \<Rightarrow> string \<Rightarrow> int \<Rightarrow> (pay_error, Hold option) result" where
  "Consume current token now =
     (case current of
        None \<Rightarrow> Inr None
      | Some h \<Rightarrow>
          if \<not> Owns h token then Inl ErrHoldNotOwner
          else if \<not> Live h now then Inl ErrHoldExpired
          else Inr (Some (h\<lparr>h_Status := HoldConsumed\<rparr>)))"

section \<open>Histories of one document's hold\<close>

text \<open>One call of a point of sale, with the clock it reads; a failing call leaves the hold as it is.\<close>

datatype hold_call =
    CallAcquire HoldRequest string
  | CallRelease string bool
  | CallConsume string
  | CallCharge string

fun call_token :: "hold_call \<Rightarrow> string" where
  "call_token (CallAcquire req _) = hr_Token req"
| "call_token (CallRelease token _) = token"
| "call_token (CallConsume token) = token"
| "call_token (CallCharge token) = token"

fun call_forced :: "hold_call \<Rightarrow> bool" where
  "call_forced (CallRelease _ force) = force"
| "call_forced _ = False"

fun hold_apply :: "int \<times> hold_call \<Rightarrow> Hold option \<Rightarrow> Hold option" where
  "hold_apply (now, CallAcquire req newToken) current =
     (case Acquire current req now newToken of Inl _ \<Rightarrow> current | Inr h \<Rightarrow> Some h)"
| "hold_apply (now, CallRelease token force) current =
     (case Release current token force now of Inl _ \<Rightarrow> current | Inr h \<Rightarrow> h)"
| "hold_apply (now, CallConsume token) current =
     (case Consume current token now of Inl _ \<Rightarrow> current | Inr h \<Rightarrow> h)"
| "hold_apply (now, CallCharge token) current = current"

definition hold_may_change :: "int \<times> hold_call \<Rightarrow> Hold option \<Rightarrow> bool" where
  "hold_may_change tc current \<longleftrightarrow>
     (case current of
        None \<Rightarrow> True
      | Some h \<Rightarrow> \<not> Live h (fst tc) \<or> Owns h (call_token (snd tc)) \<or> call_forced (snd tc))"

interpretation hold: guarded_resource hold_apply hold_may_change
proof
  fix tc :: "int \<times> hold_call" and s :: "Hold option"
  assume no: "\<not> hold_may_change tc s"
  obtain now c where tc: "tc = (now, c)" by (cases tc)
  obtain h where s: "s = Some h" using no by (cases s) (auto simp: hold_may_change_def)
  have l: "Live h now" "\<not> Owns h (call_token c)" "\<not> call_forced c"
    using no by (auto simp: hold_may_change_def s tc)
  then have "h_Status h = HoldActive" by (simp add: Live_def)
  with l show "hold_apply tc s = s"
    by (cases c) (auto simp: tc s Acquire_def Release_def Consume_def Let_def)
qed

lemma Acquire_live:
  assumes "Live h now" and "Acquire (Some h) req now newToken = Inr h'"
  shows "Owns h (hr_Token req) \<and> h' = h\<lparr>h_ExpiresAt := now + ClampHoldTTL (hr_TTL req)\<rparr>"
  using assms by (auto simp: Acquire_def Let_def split: if_splits)

lemma Acquire_okD:
  assumes "Acquire current req now newToken = Inr h"
  shows "h_Status h = HoldActive" "h_ExpiresAt h = now + ClampHoldTTL (hr_TTL req)"
    "current = None \<or> \<not> Live (the current) now \<Longrightarrow>
       h_Token h = newToken \<and> h_DocumentType h = hr_DocumentType req \<and> h_DocumentID h = hr_DocumentID req"
  using assms by (auto simp: Acquire_def Let_def Live_def split: if_splits option.splits)

lemma ClampHoldTTL_bounds: "MinHoldTTL \<le> ClampHoldTTL d" "ClampHoldTTL d \<le> MaxHoldTTL"
  by (auto simp: ClampHoldTTL_def MinHoldTTL_def MaxHoldTTL_def DefaultHoldTTL_def second_ns_def)

section \<open>Properties\<close>

text \<open>A hold excludes every other point of sale until it expires: whatever calls are made before its
  expiry by callers that neither present its token nor force a release, the hold is unchanged by
  them, and any charge attempted without the token is refused with its holder's name.\<close>

theorem hold_excludes_others:
  assumes "h_Status h = HoldActive"
    and "\<forall>(now, c)\<in>set calls. now < h_ExpiresAt h \<and> \<not> Owns h (call_token c) \<and> \<not> call_forced c"
  shows "fold hold_apply calls (Some h) = Some h \<and>
         (\<forall>(now, c)\<in>set calls. CheckCharge (Some h) (call_token c) now = Inl (ErrHeld (h_Holder h) (h_ExpiresAt h)))"
proof -
  have "\<forall>tc\<in>set calls. \<not> hold_may_change tc (Some h)"
    using assms by (auto simp: hold_may_change_def Live_def)
  then have "hold.run_ops calls (Some h) = Some h" by (rule hold.run_foreign)
  moreover have "CheckCharge (Some h) (call_token c) now = Inl (ErrHeld (h_Holder h) (h_ExpiresAt h))"
    if "(now, c) \<in> set calls" for now c
    using that assms by (auto simp: CheckCharge_def Live_def)
  ultimately show ?thesis by (auto simp: hold.run_ops_def)
qed

definition sample_hold :: Hold where
  "sample_hold =
     \<lparr>h_DocumentType = ''sales_order'', h_DocumentID = ''doc-1'', h_Token = replicate 32 (CHR ''a''),
      h_Holder = ''pos:1'', h_Channel = ChannelCash, h_UserID = ''u1'', h_Status = HoldActive,
      h_ExpiresAt = 300\<rparr>"

theorem hold_excludes_others_witness:
  "fold hold_apply [(10, CallConsume ''b''), (299, CallRelease [] False)] (Some sample_hold) = Some sample_hold"
  using hold_excludes_others[of sample_hold "[(10, CallConsume ''b''), (299, CallRelease [] False)]"]
  by (simp add: sample_hold_def Owns_def numeral_eq_Suc)

text \<open>A granted hold is active, carries a token of at least 32 characters when it is new, and expires
  between thirty seconds and one hour from now whatever TTL was asked for; a live hold is only ever
  granted again to the caller that presents its token, and then only its expiry changes.\<close>

theorem Acquire_grants:
  assumes "Acquire current req now newToken = Inr h"
  shows "Live h now \<and> 30 * second_ns \<le> h_ExpiresAt h - now \<and> h_ExpiresAt h - now \<le> 3600 * second_ns \<and>
    (case current of
       Some h0 \<Rightarrow> if Live h0 now then Owns h0 (hr_Token req) \<and> h = h0\<lparr>h_ExpiresAt := h_ExpiresAt h\<rparr>
                  else h_Token h = newToken \<and> MinHoldTokenLen \<le> length newToken
     | None \<Rightarrow> h_Token h = newToken \<and> MinHoldTokenLen \<le> length newToken)"
proof -
  note ok = Acquire_okD[OF assms]
  note b = ClampHoldTTL_bounds[of "hr_TTL req"]
  have trim: "length (TrimSpace s) \<le> length s" for s
  proof -
    have "length (trim_runes runes s) \<le> length s" for runes s
      by (induction runes s rule: trim_runes.induct) (subst trim_runes.simps, auto)
    then show ?thesis unfolding TrimSpace_def by (metis le_trans length_rev)
  qed
  have live: "Live h now" using ok(1,2) b(1) by (simp add: Live_def MinHoldTTL_def second_ns_def)
  have len: "MinHoldTokenLen \<le> length newToken" if "current = None \<or> \<not> Live (the current) now"
    using that assms trim[of newToken]
    by (auto simp: Acquire_def Let_def not_less split: if_splits option.splits)
  show ?thesis
    using live ok b len Acquire_live[of _ now req newToken h] assms
    by (auto simp: MinHoldTTL_def MaxHoldTTL_def split: option.splits)
qed

theorem Acquire_grants_witness:
  "\<exists>h. Acquire (Some sample_hold) (\<lparr>hr_DocumentType = ''sales_order'', hr_DocumentID = ''doc-1'',
        hr_Holder = ''kiosk'', hr_Channel = ChannelCash, hr_UserID = [], hr_Token = [], hr_TTL = 5\<rparr>) 400
        (replicate 32 (CHR ''b'')) = Inr h \<and> h_ExpiresAt h - 400 \<ge> 30 * second_ns"
proof -
  let ?a = "Acquire (Some sample_hold) (\<lparr>hr_DocumentType = ''sales_order'', hr_DocumentID = ''doc-1'',
        hr_Holder = ''kiosk'', hr_Channel = ChannelCash, hr_UserID = [], hr_Token = [], hr_TTL = 5\<rparr>) 400
        (replicate 32 (CHR ''b''))"
  have "\<not> isl ?a" by code_simp
  then obtain h where h: "?a = Inr h" by (cases ?a) auto
  show ?thesis using Acquire_grants[OF h] h by blast
qed

end
