(* ===== verification/Pay_Observe.thy ===== *)
theory Pay_Observe
  imports Pay_Refund
begin

text \<open>
  Provider updates: event identity and trust (\<^verbatim>\<open>src/payments/event.go\<close>) and the classification of a
  re-read against the stored payment, status and money (\<^verbatim>\<open>src/payments/observe.go\<close>).

  The registry lookup, the schema validation and the JSON decoding of \<^verbatim>\<open>DecodeConfirmed\<close> happen before
  any decision of this package; their results are arguments of the model.
\<close>

section \<open>Data\<close>

datatype EventKind = KindPayment | KindRefund | KindDispute | KindOther string

fun kind_string :: "EventKind \<Rightarrow> string" where
  "kind_string KindPayment = ''payment''"
| "kind_string KindRefund = ''refund''"
| "kind_string KindDispute = ''dispute''"
| "kind_string (KindOther s) = s"

datatype Source = SourceWebhook | SourcePoll | SourceReconcile | SourceStaff | SourceOther string

record Outcome =
  o_OrderRef :: string
  o_Status :: Status
  o_Amount :: string
  o_Currency :: string
  o_ProviderRef :: string
  o_EventID :: string
  o_Kind :: EventKind
  o_Method :: string
  o_Installments :: int
  o_PaidAt :: string
  o_OccurredAt :: string
  o_AmountRefunded :: string
  o_Fee :: string
  o_NetAmount :: string
  o_TestMode :: bool
  o_Channel :: Channel
  o_SessionID :: string
  o_DeviceID :: string
  o_Card :: "Card option"
  o_Cash :: "CashTender option"
  o_Seller :: "Seller option"
  o_ProviderStatus :: string
  o_StatusDetail :: string

record Confirmed =
  cf_Provider :: string
  cf_Emitter :: string
  cf_Result :: Outcome
  cf_OrganizationID :: string
  cf_OccurredAt :: string
  cf_Source :: Source
  cf_PaymentID :: string
  cf_DocumentType :: string
  cf_DocumentID :: string

section \<open>Event identity and trust\<close>

definition DedupeKey :: "string \<Rightarrow> string \<Rightarrow> string" where
  "DedupeKey provider eventID = provider @ [char_of (31::nat)] @ eventID"

definition canonicalAmount :: "string \<Rightarrow> string" where
  "canonicalAmount s0 =
     (let s = TrimSpace s0
      in if s = [] then [] else case ParseAmount s of Inr a \<Rightarrow> Amount_String a | Inl _ \<Rightarrow> s)"

definition DerivedEventID :: "EventKind \<Rightarrow> string \<Rightarrow> Status \<Rightarrow> string \<Rightarrow> string \<Rightarrow> string \<Rightarrow> string" where
  "DerivedEventID kind providerRef status currency amount amountRefunded =
     (let kind = (if kind = KindOther [] then KindPayment else kind)
      in join_with ''|'' [''derived'', kind_string kind, TrimSpace providerRef, status_string status,
           ToUpper (TrimSpace currency), canonicalAmount amount, canonicalAmount amountRefunded])"

definition DedupeEventID :: "Outcome \<Rightarrow> string" where
  "DedupeEventID oc =
     (if o_EventID oc \<noteq> [] then o_EventID oc
      else DerivedEventID (o_Kind oc) (o_ProviderRef oc) (o_Status oc) (o_Currency oc) (o_Amount oc) (o_AmountRefunded oc))"

text \<open>\<open>registered\<close>, \<open>problems\<close> and \<open>decoded\<close> stand for the registry lookup, the schema problems and the JSON
  decoding of the payload; \<open>isProvider\<close> is the caller's check, \<open>None\<close> for nil.\<close>

definition DecodeConfirmed :: "(string \<Rightarrow> bool) option \<Rightarrow> bool \<Rightarrow> string list \<Rightarrow> Confirmed option \<Rightarrow>
    (pay_error, Confirmed) result" where
  "DecodeConfirmed isProvider registered problems decoded =
     (case isProvider of
        None \<Rightarrow> Inl ErrUntrustedConfirmation
      | Some is_provider \<Rightarrow>
          if \<not> registered then Inl ErrUntrustedConfirmation
          else if problems \<noteq> [] then Inl ErrUntrustedConfirmation
          else case decoded of
            None \<Rightarrow> Inl ErrUntrustedConfirmation
          | Some c \<Rightarrow>
              if TrimSpace (cf_Emitter c) = [] then Inl ErrUntrustedConfirmation
              else if cf_Emitter c \<noteq> cf_Provider c then Inl ErrUntrustedConfirmation
              else if \<not> is_provider (cf_Emitter c) then Inl ErrUntrustedConfirmation
              else Inr c)"

definition ConfirmedFor :: "Confirmed \<Rightarrow> Payment \<Rightarrow> (pay_error, unit) result" where
  "ConfirmedFor c p =
     (if cf_Provider c \<noteq> p_Provider p then Inl ErrUntrustedConfirmation
      else if cf_PaymentID c \<noteq> [] \<and> p_ID p \<noteq> [] \<and> cf_PaymentID c \<noteq> p_ID p then Inl ErrUntrustedConfirmation
      else if o_ProviderRef (cf_Result c) \<noteq> [] \<and> p_ProviderRef p \<noteq> [] \<and>
              o_ProviderRef (cf_Result c) \<noteq> p_ProviderRef p then Inl ErrUntrustedConfirmation
      else Inr ())"

section \<open>Observing an outcome\<close>

definition staleAfterCancelling :: "Payment \<Rightarrow> Status \<Rightarrow> bool" where
  "staleAfterCancelling stored observed =
     (let from = p_CancelledFrom stored
      in if p_Status stored \<noteq> StatusCancelling \<or> \<not> Open from \<or> from = StatusCancelling then False
         else Open observed \<and> observed \<noteq> StatusCancelling \<and> observed \<noteq> from \<and>
              openRank observed \<le> openRank from)"

text \<open>\<open>Inr None\<close>: the outcome says nothing about the refunded total.\<close>

definition observedRefunded :: "Outcome \<Rightarrow> amount \<Rightarrow> amount \<Rightarrow> (pay_error, amount option) result" where
  "observedRefunded oc amount storedRefunded =
     (if o_AmountRefunded oc \<noteq> [] then rbind (ParseAmount (o_AmountRefunded oc)) (\<lambda>a. Inr (Some a))
      else if o_Status oc = StatusRefunded then Inr (Some amount)
      else if o_Status oc = StatusPaid then Inr (Some 0)
      else if o_Kind oc = KindRefund \<and> o_Amount oc \<noteq> [] then
        rbind (ParseAmount (o_Amount oc)) (\<lambda>a. Inr (Some (storedRefunded + a)))
      else Inr None)"

text \<open>The check of an authorization or capture's amount: \<open>None\<close> when it passes.\<close>

definition capture_check :: "Outcome \<Rightarrow> EventKind \<Rightarrow> amount \<Rightarrow> observation option" where
  "capture_check oc kind amount =
     (if kind = KindPayment \<and> (Captured (o_Status oc) \<or> o_Status oc = StatusAuthorized) then
        if TrimSpace (o_Amount oc) = [] then Some (Anomaly, ReasonInvalidOutcome)
        else case ParseAmount (o_Amount oc) of
               Inl _ \<Rightarrow> Some (Anomaly, ReasonInvalidOutcome)
             | Inr got \<Rightarrow> if Amount_Cmp got amount \<noteq> 0 then Some (Anomaly, ReasonAmountMismatch) else None
      else None)"

text \<open>The checks of the refunded total of a captured outcome: \<open>None\<close> when they leave the decision to the
  status.\<close>

definition refunded_check :: "Payment \<Rightarrow> Outcome \<Rightarrow> amount \<Rightarrow> amount \<Rightarrow> observation option" where
  "refunded_check stored oc amount storedRefunded =
     (if Captured (o_Status oc) then
        case observedRefunded oc amount storedRefunded of
          Inl _ \<Rightarrow> Some (Anomaly, ReasonInvalidOutcome)
        | Inr None \<Rightarrow> None
        | Inr (Some observed) \<Rightarrow>
            if Amount_Sign observed < 0 \<or> Amount_Cmp observed amount > 0 then Some (Anomaly, ReasonAmountMismatch)
            else if Amount_Cmp observed storedRefunded < 0 then Some (Anomaly, ReasonRefundReversed)
            else if StatusAfterRefunds amount observed \<noteq> o_Status oc then Some (Anomaly, ReasonAmountMismatch)
            else if p_Status stored = StatusPartiallyRefunded \<and> o_Status oc = StatusPartiallyRefunded then
              (if Amount_Cmp observed storedRefunded = 0 then Some (Ignore, ReasonDuplicate)
               else Some (Apply, ReasonNone))
            else None
      else None)"

definition ObserveOutcome :: "Payment \<Rightarrow> Outcome \<Rightarrow> observation" where
  "ObserveOutcome stored oc =
     (if \<not> Status_Valid (o_Status oc) \<or> \<not> Status_Valid (p_Status stored) then (Anomaly, ReasonUnknownStatus)
      else if o_Currency oc \<noteq> [] \<and> p_Currency stored \<noteq> [] \<and> o_Currency oc \<noteq> p_Currency stored
           then (Anomaly, ReasonCurrencyMismatch)
      else if p_ProviderRef stored \<noteq> [] \<and> o_ProviderRef oc \<noteq> [] \<and>
              TrimSpace (o_ProviderRef oc) \<noteq> p_ProviderRef stored then (Anomaly, ReasonProviderRefMismatch)
      else case ParseAmount (p_Amount stored) of
        Inl _ \<Rightarrow> (Anomaly, ReasonInvalidOutcome)
      | Inr amount \<Rightarrow>
          let kind = (if o_Kind oc = KindOther [] then KindPayment else o_Kind oc)
          in case capture_check oc kind amount of
            Some r \<Rightarrow> r
          | None \<Rightarrow>
              (case (if p_AmountRefunded stored \<noteq> [] then ParseAmount (p_AmountRefunded stored) else Inr 0) of
                 Inl _ \<Rightarrow> (Anomaly, ReasonInvalidOutcome)
               | Inr storedRefunded \<Rightarrow>
                   (case refunded_check stored oc amount storedRefunded of
                      Some r \<Rightarrow> r
                    | None \<Rightarrow>
                        if staleAfterCancelling stored (o_Status oc) then (Ignore, ReasonStale)
                        else Observe (p_Status stored) (o_Status oc))))"

section \<open>Lemmas\<close>

lemma capture_check_None:
  "capture_check oc kind amount = None \<longleftrightarrow>
     (kind = KindPayment \<and> (Captured (o_Status oc) \<or> o_Status oc = StatusAuthorized) \<longrightarrow>
        TrimSpace (o_Amount oc) \<noteq> [] \<and> ParseAmount (o_Amount oc) = Inr amount)"
  by (auto simp: capture_check_def split: sum.splits)

lemma capture_check_Anomaly: "capture_check oc kind amount = Some r \<Longrightarrow> fst r = Anomaly"
  by (auto simp: capture_check_def split: if_splits sum.splits)

text \<open>What a captured outcome that is not rejected says about the refunded total.\<close>

lemma refunded_check_pass:
  assumes "refunded_check stored oc amount sr = None \<or> refunded_check stored oc amount sr = Some (Apply, x)"
    and "Captured (o_Status oc)" and "observedRefunded oc amount sr = Inr (Some r)"
  shows "0 \<le> r \<and> sr \<le> r \<and> r \<le> amount \<and> StatusAfterRefunds amount r = o_Status oc"
  using assms by (auto simp: refunded_check_def split: if_splits)

lemma refunded_check_Apply:
  "refunded_check stored oc amount sr = Some (Apply, x) \<Longrightarrow>
     p_Status stored = StatusPartiallyRefunded \<and> o_Status oc = StatusPartiallyRefunded"
  by (auto simp: refunded_check_def split: if_splits sum.splits option.splits)

definition outcome_kind :: "Outcome \<Rightarrow> EventKind" where
  "outcome_kind oc = (if o_Kind oc = KindOther [] then KindPayment else o_Kind oc)"

lemma ObserveOutcome_ApplyD:
  assumes "fst (ObserveOutcome p oc) = Apply"
  obtains amount sr where
    "Status_Valid (o_Status oc)" "Status_Valid (p_Status p)"
    "o_Currency oc = [] \<or> p_Currency p = [] \<or> o_Currency oc = p_Currency p"
    "p_ProviderRef p = [] \<or> o_ProviderRef oc = [] \<or> TrimSpace (o_ProviderRef oc) = p_ProviderRef p"
    "ParseAmount (p_Amount p) = Inr amount" "refunded_of p = Inr sr"
    "capture_check oc (outcome_kind oc) amount = None"
    "refunded_check p oc amount sr = None \<or> refunded_check p oc amount sr = Some (Apply, snd (ObserveOutcome p oc))"
    "forward (p_Status p) (o_Status oc)"
    "p_Status p = StatusPartiallyRefunded \<and> o_Status oc = StatusPartiallyRefunded \<or>
       \<not> staleAfterCancelling p (o_Status oc) \<and> fst (Observe (p_Status p) (o_Status oc)) = Apply"
proof -
  have ok: "Status_Valid (o_Status oc)" "Status_Valid (p_Status p)"
    "o_Currency oc = [] \<or> p_Currency p = [] \<or> o_Currency oc = p_Currency p"
    "p_ProviderRef p = [] \<or> o_ProviderRef oc = [] \<or> TrimSpace (o_ProviderRef oc) = p_ProviderRef p"
    using assms by (auto simp: ObserveOutcome_def split: if_splits)
  obtain amount where a: "ParseAmount (p_Amount p) = Inr amount"
    using assms ok by (cases "ParseAmount (p_Amount p)") (auto simp: ObserveOutcome_def split: if_splits)
  have cc: "capture_check oc (outcome_kind oc) amount = None"
    using assms ok a capture_check_Anomaly[of oc "outcome_kind oc" amount]
    by (cases "capture_check oc (outcome_kind oc) amount")
       (auto simp: ObserveOutcome_def outcome_kind_def Let_def split: if_splits)
  have rec: "(if p_AmountRefunded p \<noteq> [] then ParseAmount (p_AmountRefunded p) else Inr 0) = refunded_of p"
    by (simp add: refunded_of_def)
  obtain sr where sr: "refunded_of p = Inr sr"
    using assms ok a cc unfolding ObserveOutcome_def rec outcome_kind_def Let_def
    by (cases "refunded_of p") (auto split: if_splits)
  have val: "ObserveOutcome p oc =
      (case refunded_check p oc amount sr of
         Some r \<Rightarrow> r
       | None \<Rightarrow> if staleAfterCancelling p (o_Status oc) then (Ignore, ReasonStale)
                 else Observe (p_Status p) (o_Status oc))"
    using ok a cc sr unfolding ObserveOutcome_def rec outcome_kind_def Let_def by auto
  show thesis
  proof (cases "refunded_check p oc amount sr")
    case None
    then have "fst (Observe (p_Status p) (o_Status oc)) = Apply" "\<not> staleAfterCancelling p (o_Status oc)"
      using assms val by (auto split: if_splits)
    with None ok a cc sr show ?thesis by (intro that) (auto simp: Observe_Apply_iff)
  next
    case (Some r)
    then have r: "refunded_check p oc amount sr = Some (Apply, snd (ObserveOutcome p oc))"
      using assms val by (cases r) auto
    from refunded_check_Apply[OF r] show ?thesis
      using r ok a cc sr forward_partial by (intro that) auto
  qed
qed

lemma Amount_String_chars:
  assumes "scaled MaxScale a" and "c \<in> set (Amount_String a)"
  shows "is_digit c \<or> c = CHR ''.'' \<or> c = CHR ''-''"
proof -
  have "ValidDecimal (Amount_String a)"
    using ParseAmount_String[OF assms(1)] by (auto simp: ParseAmount_def split: if_splits)
  then obtain sg i f where "sg = [] \<or> sg = ''-''" "int_part_ok i" "list_all is_digit f"
    "Amount_String a = sg @ i @ (if f = [] then [] else CHR ''.'' # f)"
    by (rule ValidDecimal_cases)
  with assms(2) show ?thesis
    by (auto simp: list_all_iff dest!: int_part_okD split: if_splits)
qed

text \<open>An amount that is empty or parses, as the event ids see it.\<close>

definition amount_text :: "string \<Rightarrow> amount option" where
  "amount_text s = (if TrimSpace s = [] then None else Some (amount_val (TrimSpace s)))"

definition amount_ok :: "string \<Rightarrow> bool" where
  "amount_ok s \<longleftrightarrow> TrimSpace s = [] \<or> parses (TrimSpace s)"

lemma canonicalAmount_eq:
  "amount_ok s \<Longrightarrow> canonicalAmount s = (case amount_text s of None \<Rightarrow> [] | Some a \<Rightarrow> Amount_String a)"
  by (auto simp: canonicalAmount_def amount_text_def amount_ok_def ParseAmount_cases)

lemma Amount_String_nonempty: "scaled MaxScale a \<Longrightarrow> Amount_String a \<noteq> []"
  using ParseAmount_String[of a]
  by (auto simp: ParseAmount_def ValidDecimal_def unsigned_part_def int_part_ok_def split: if_splits)

lemma canonicalAmount_inject:
  assumes "amount_ok s" and "amount_ok t"
  shows "canonicalAmount s = canonicalAmount t \<longleftrightarrow> amount_text s = amount_text t"
  using assms Amount_String_inject[OF amount_val_scaled amount_val_scaled, of "TrimSpace s" "TrimSpace t"]
    Amount_String_nonempty[OF amount_val_scaled, of "TrimSpace s"]
    Amount_String_nonempty[OF amount_val_scaled, of "TrimSpace t"]
  by (auto simp: canonicalAmount_eq amount_text_def)

lemma canonicalAmount_no_bar:
  assumes "amount_ok s"
  shows "CHR ''|'' \<notin> set (canonicalAmount s)"
proof -
  have "\<not> is_digit (CHR ''|'')" by code_simp
  then show ?thesis
    using Amount_String_chars[OF amount_val_scaled, of "CHR ''|''" "TrimSpace s"] assms
    by (auto simp: canonicalAmount_eq amount_text_def)
qed

lemma split_at_bar:
  assumes "c \<notin> set a" and "c \<notin> set a'" and "a @ c # b = a' @ c # b'"
  shows "a = a' \<and> b = b'"
proof -
  have "takeWhile (\<lambda>x. x \<noteq> c) (a @ c # b) = a" "takeWhile (\<lambda>x. x \<noteq> c) (a' @ c # b') = a'"
    using assms(1,2) by (auto simp: takeWhile_append2 takeWhile_tail)
  with assms(3) show ?thesis by auto
qed

section \<open>Properties\<close>

text \<open>An outcome is applied only when it is about this payment's money: known statuses and a reachable
  move, no other currency and no other provider payment, exactly the payment's amount when a payment
  is authorized or captured, and a refunded total (when one is reported) between the stored total and
  the amount that agrees with the reported status. A refused cancellation never falls back to an open
  status older than the one it was requested from.\<close>

theorem ObserveOutcome_apply_safe:
  assumes "fst (ObserveOutcome p oc) = Apply"
  shows "\<exists>amount sr. ParseAmount (p_Amount p) = Inr amount \<and> refunded_of p = Inr sr \<and>
     forward (p_Status p) (o_Status oc) \<and>
     (o_Currency oc = [] \<or> p_Currency p = [] \<or> o_Currency oc = p_Currency p) \<and>
     (p_ProviderRef p = [] \<or> o_ProviderRef oc = [] \<or> TrimSpace (o_ProviderRef oc) = p_ProviderRef p) \<and>
     (outcome_kind oc = KindPayment \<and> (Captured (o_Status oc) \<or> o_Status oc = StatusAuthorized) \<longrightarrow>
        ParseAmount (o_Amount oc) = Inr amount) \<and>
     (\<forall>r. Captured (o_Status oc) \<and> observedRefunded oc amount sr = Inr (Some r) \<longrightarrow>
        0 \<le> r \<and> sr \<le> r \<and> r \<le> amount \<and> o_Status oc = StatusAfterRefunds amount r) \<and>
     (p_Status p = StatusCancelling \<and> Open (p_CancelledFrom p) \<and> p_CancelledFrom p \<noteq> StatusCancelling \<and>
        Open (o_Status oc) \<and> o_Status oc \<noteq> p_CancelledFrom p \<longrightarrow> openRank (p_CancelledFrom p) < openRank (o_Status oc))"
  using assms
proof (rule ObserveOutcome_ApplyD)
  fix amount sr
  assume A: "ParseAmount (p_Amount p) = Inr amount" "refunded_of p = Inr sr"
    "forward (p_Status p) (o_Status oc)"
    "o_Currency oc = [] \<or> p_Currency p = [] \<or> o_Currency oc = p_Currency p"
    "p_ProviderRef p = [] \<or> o_ProviderRef oc = [] \<or> TrimSpace (o_ProviderRef oc) = p_ProviderRef p"
    and cc: "capture_check oc (outcome_kind oc) amount = None"
    and rc: "refunded_check p oc amount sr = None \<or> refunded_check p oc amount sr = Some (Apply, snd (ObserveOutcome p oc))"
    and st: "p_Status p = StatusPartiallyRefunded \<and> o_Status oc = StatusPartiallyRefunded \<or>
       \<not> staleAfterCancelling p (o_Status oc) \<and> fst (Observe (p_Status p) (o_Status oc)) = Apply"
  have money: "outcome_kind oc = KindPayment \<and> (Captured (o_Status oc) \<or> o_Status oc = StatusAuthorized) \<longrightarrow>
        ParseAmount (o_Amount oc) = Inr amount"
    using cc by (simp add: capture_check_None)
  have ref: "0 \<le> r \<and> sr \<le> r \<and> r \<le> amount \<and> o_Status oc = StatusAfterRefunds amount r"
    if "Captured (o_Status oc) \<and> observedRefunded oc amount sr = Inr (Some r)" for r
    using refunded_check_pass[OF rc, of r] that by simp
  have cancel: "openRank (p_CancelledFrom p) < openRank (o_Status oc)"
    if c: "p_Status p = StatusCancelling" "Open (p_CancelledFrom p)" "p_CancelledFrom p \<noteq> StatusCancelling"
      "Open (o_Status oc)" "o_Status oc \<noteq> p_CancelledFrom p"
  proof -
    have "\<not> staleAfterCancelling p (o_Status oc)" "o_Status oc \<noteq> StatusCancelling"
      using st c by (auto simp: Observe_Apply_iff)
    then show ?thesis using c by (auto simp: staleAfterCancelling_def Let_def)
  qed
  show ?thesis using A money ref cancel by (intro exI[of _ amount] exI[of _ sr]) blast
qed

definition sample_outcome :: Outcome where
  "sample_outcome =
     \<lparr>o_OrderRef = ''ref-1'', o_Status = StatusPartiallyRefunded, o_Amount = ''100'', o_Currency = ''MXN'',
      o_ProviderRef = ''pi_1'', o_EventID = [], o_Kind = KindPayment, o_Method = [], o_Installments = 0,
      o_PaidAt = [], o_OccurredAt = [], o_AmountRefunded = ''55.5'', o_Fee = [], o_NetAmount = [],
      o_TestMode = False, o_Channel = ChannelOther [], o_SessionID = [], o_DeviceID = [], o_Card = None,
      o_Cash = None, o_Seller = None, o_ProviderStatus = [], o_StatusDetail = []\<rparr>"

theorem ObserveOutcome_apply_safe_witness:
  "fst (ObserveOutcome sample_payment sample_outcome) = Apply \<and>
   (\<exists>amount sr. ParseAmount (p_Amount sample_payment) = Inr amount \<and> refunded_of sample_payment = Inr sr \<and>
      ParseAmount (o_Amount sample_outcome) = Inr amount)"
proof -
  have v: "fst (ObserveOutcome sample_payment sample_outcome) = Apply" by code_simp
  have "outcome_kind sample_outcome = KindPayment \<and> Captured (o_Status sample_outcome)" by code_simp
  then show ?thesis using ObserveOutcome_apply_safe[OF v] v by blast
qed

text \<open>A derived event id identifies the observed state: for the same kind, provider payment, status and
  currency, two updates derive the same id exactly when their amounts have the same values, however
  they were written. Re-polling an unchanged payment is a duplicate; two partial refunds of different
  amounts are two events.\<close>

theorem DerivedEventID_identifies_state:
  assumes "amount_ok a" and "amount_ok r" and "amount_ok a'" and "amount_ok r'"
  shows "DerivedEventID kind ref st cur a r = DerivedEventID kind ref st cur a' r' \<longleftrightarrow>
         amount_text a = amount_text a' \<and> amount_text r = amount_text r'"
proof -
  have "canonicalAmount a @ ''|'' @ canonicalAmount r = canonicalAmount a' @ ''|'' @ canonicalAmount r' \<longleftrightarrow>
      canonicalAmount a = canonicalAmount a' \<and> canonicalAmount r = canonicalAmount r'"
    using split_at_bar[of "CHR ''|''" "canonicalAmount a" "canonicalAmount a'" "canonicalAmount r" "canonicalAmount r'"]
      canonicalAmount_no_bar assms by auto
  then show ?thesis
    using canonicalAmount_inject assms by (simp add: DerivedEventID_def Let_def)
qed

theorem DerivedEventID_identifies_state_witness:
  "DerivedEventID KindRefund ''pi_1'' StatusPartiallyRefunded ''MXN'' ''20.0'' [] =
   DerivedEventID KindRefund ''pi_1'' StatusPartiallyRefunded ''MXN'' '' 20.00'' []"
proof -
  have v: "amount_ok ''20.0''" "amount_ok []" "amount_ok '' 20.00''" "amount_text ''20.0'' = amount_text '' 20.00''"
    by code_simp+
  show ?thesis using DerivedEventID_identifies_state[OF v(1,2,3,2)] v(4) by simp
qed

text \<open>A confirmation that is decoded and matched to a payment was stamped by the host with the very
  provider stored on that payment, and that emitter provides payments in the organization; without a
  provider check nothing is accepted.\<close>

theorem confirmation_is_from_the_provider:
  assumes "DecodeConfirmed isProvider registered problems decoded = Inr c" and "ConfirmedFor c p = Inr ()"
  shows "cf_Emitter c = p_Provider p \<and> cf_Provider c = p_Provider p \<and> cf_Emitter c \<noteq> [] \<and> problems = [] \<and>
         (\<exists>f. isProvider = Some f \<and> f (p_Provider p)) \<and>
         (cf_PaymentID c = [] \<or> p_ID p = [] \<or> cf_PaymentID c = p_ID p)"
  using assms by (auto simp: DecodeConfirmed_def ConfirmedFor_def split: option.splits if_splits)

definition sample_confirmed :: Confirmed where
  "sample_confirmed =
     \<lparr>cf_Provider = ''stripe'', cf_Emitter = ''stripe'', cf_Result = sample_outcome, cf_OrganizationID = [],
      cf_OccurredAt = [], cf_Source = SourceWebhook, cf_PaymentID = ''pay-1'', cf_DocumentType = [],
      cf_DocumentID = []\<rparr>"

theorem confirmation_is_from_the_provider_witness:
  "DecodeConfirmed (Some (\<lambda>a. a = ''stripe'')) True [] (Some sample_confirmed) = Inr sample_confirmed \<and>
   cf_Emitter sample_confirmed = p_Provider sample_payment"
proof -
  have t: "TrimSpace ''stripe'' \<noteq> []" by code_simp
  have v: "DecodeConfirmed (Some (\<lambda>a. a = ''stripe'')) True [] (Some sample_confirmed) = Inr sample_confirmed"
    using t by (simp add: DecodeConfirmed_def sample_confirmed_def)
  have w: "ConfirmedFor sample_confirmed sample_payment = Inr ()" by code_simp
  show ?thesis using confirmation_is_from_the_provider[OF v w] v by simp
qed

end
