(* ===== verification/Ledger_State.thy ===== *)
theory Ledger_State
  imports Pay_Settle Pay_Hold Pay_Observe
begin

text \<open>
  The state of the payments ledger (\<^verbatim>\<open>src/payments/ledger/rows.go\<close>, \<^verbatim>\<open>schema.go\<close>): its tables, the
  constraints of its indexes, and what it takes from outside.

  A table is the list of its rows in insertion order; \<open>payments_ok\<close>, \<open>events_ok\<close>, \<open>refunds_ok\<close> and
  \<open>holds_ok\<close> are its primary key and unique indexes, checked by every insert and update, which fail
  otherwise. A JSON column holds the decoded struct and a text column of an enumeration its datatype.
  Money columns keep the text that was written (\<^verbatim>\<open>TEXT\<close>, the SQLite schema); every read goes through
  \<^verbatim>\<open>norm\<close>, so the \<^verbatim>\<open>NUMERIC(20,6)\<close> padding of Postgres is not visible. A \<^verbatim>\<open>uuid.UUID\<close> is its canonical
  string.

  A transaction is a function from the database to an error (everything rolled back) or the new
  database and its result; the locks make transactions on a document or a payment serial, so the
  system's behaviour is a sequence of them. I/O errors of the database are not modelled. The record
  \<open>env\<close> holds what one call reads from outside: the clock (one instant per call), new uuids and
  tokens, the SHA-256 digest, uuid and RFC 3339 parsing, the configuration and the providers' answers.
\<close>

section \<open>Errors\<close>

datatype ledger_code =
    CodeInvalidInput | CodeNotFound | CodeInPayment | CodeHoldNotOwner | CodeInvalidTransition
  | CodeExceedsDue | CodeNotRefundable | CodeRefundExceeds | CodeIdempotency | CodeForbidden
  | CodeProvider | CodeUnavailable | CodeOther string

text \<open>A coded error, an uncoded one (database constraint, unparseable stored amount) or a panic.\<close>

datatype lerr = LedgerError ledger_code | InternalError | LedgerPanic

fun code_string :: "ledger_code \<Rightarrow> string" where
  "code_string CodeInvalidInput = ''invalid_input''"
| "code_string CodeNotFound = ''not_found''"
| "code_string CodeInPayment = ''in_payment''"
| "code_string CodeHoldNotOwner = ''hold_not_owner''"
| "code_string CodeInvalidTransition = ''invalid_transition''"
| "code_string CodeExceedsDue = ''exceeds_due''"
| "code_string CodeNotRefundable = ''not_refundable''"
| "code_string CodeRefundExceeds = ''refund_exceeds''"
| "code_string CodeIdempotency = ''idempotency_conflict''"
| "code_string CodeForbidden = ''forbidden''"
| "code_string CodeProvider = ''provider_error''"
| "code_string CodeUnavailable = ''unavailable''"
| "code_string (CodeOther s) = s"

definition ledger_codes :: "ledger_code list" where
  "ledger_codes =
     [CodeInvalidInput, CodeNotFound, CodeInPayment, CodeHoldNotOwner, CodeInvalidTransition,
      CodeExceedsDue, CodeNotRefundable, CodeRefundExceeds, CodeIdempotency, CodeForbidden, CodeProvider,
      CodeUnavailable]"

definition code_of :: "string \<Rightarrow> ledger_code" where
  "code_of s = (case find (\<lambda>c. code_string c = s) ledger_codes of Some c \<Rightarrow> c | None \<Rightarrow> CodeOther s)"

definition ErrorCode :: "lerr option \<Rightarrow> string" where
  "ErrorCode e =
     (case e of None \<Rightarrow> [] | Some (LedgerError c) \<Rightarrow> code_string c | Some InternalError \<Rightarrow> ''internal''
      | Some LedgerPanic \<Rightarrow> ''internal'')"

text \<open>An error of the payments package returned without a code; \<^verbatim>\<open>MustAmount\<close> panics.\<close>

definition uncoded :: "(pay_error, 'a) result \<Rightarrow> (lerr, 'a) result" where
  "uncoded r = (case r of Inl Panic \<Rightarrow> Inl LedgerPanic | Inl _ \<Rightarrow> Inl InternalError | Inr a \<Rightarrow> Inr a)"

section \<open>Rows\<close>

record paymentRow =
  pr_ID :: string
  pr_OrganizationID :: string
  pr_DocumentType :: string
  pr_DocumentID :: string
  pr_OrderRef :: string
  pr_Channel :: Channel
  pr_Provider :: string
  pr_ProviderRef :: "string option"
  pr_SessionID :: string
  pr_DeviceID :: string
  pr_IdempotencyKey :: string
  pr_Status :: Status
  pr_Amount :: string
  pr_Currency :: string
  pr_DocumentTotal :: "string option"
  pr_AmountRefunded :: string
  pr_Fee :: "string option"
  pr_Net :: "string option"
  pr_Method :: string
  pr_Installments :: int
  pr_Card :: "Card option"
  pr_Cash :: "CashTender option"
  pr_Seller :: "Seller option"
  pr_TestMode :: bool
  pr_StatusDetail :: string
  pr_Anomaly :: Reason
  pr_AnomalyStatus :: Status
  pr_CancelledFrom :: Status
  pr_CreatedBy :: string
  pr_ExpiresAt :: "int option"
  pr_LastCheckedAt :: "int option"
  pr_PaidAt :: "int option"
  pr_CreatedAt :: int
  pr_UpdatedAt :: int

datatype event_decision = Decided Decision | Corrected

record eventRow =
  er_ID :: string
  er_OrganizationID :: string
  er_PaymentID :: "string option"
  er_Provider :: string
  er_EventID :: string
  er_Kind :: EventKind
  er_Source :: Source
  er_Status :: Status
  er_Decision :: event_decision
  er_Reason :: Reason
  er_Outcome :: Outcome
  er_ObservedAt :: int

record refundRow =
  rr_ID :: string
  rr_OrganizationID :: string
  rr_PaymentID :: string
  rr_Destination :: RefundDestination
  rr_Provider :: string
  rr_ProviderRefundID :: string
  rr_Amount :: string
  rr_Currency :: string
  rr_Status :: RefundStatus
  rr_Reason :: string
  rr_IdempotencyKey :: string
  rr_SourceType :: string
  rr_SourceID :: string
  rr_CreditNoteRequired :: bool
  rr_RefundApplicationFee :: bool
  rr_RecheckAttempts :: int
  rr_NextRecheckAt :: "int option"
  rr_NeedsReview :: bool
  rr_AdjustsTotal :: bool
  rr_CreditNoteID :: string
  rr_CashSessionID :: string
  rr_Instructions :: string
  rr_CreatedBy :: string
  rr_SettledAt :: "int option"
  rr_CreatedAt :: int
  rr_UpdatedAt :: int

record holdRow =
  hw_ID :: string
  hw_OrganizationID :: string
  hw_DocumentType :: string
  hw_DocumentID :: string
  hw_TokenHash :: string
  hw_Holder :: string
  hw_Channel :: Channel
  hw_UserID :: string
  hw_Status :: HoldStatus
  hw_CreatedBy :: string
  hw_ExpiresAt :: int
  hw_CreatedAt :: int
  hw_UpdatedAt :: int

text \<open>What one reconciliation run did; an error is the lost lease, a failed call or a failed provider
  listing.\<close>

datatype report_error = LeaseLost | CallFailed lerr | ListingFailed string | RefundsFailed "string list"

record Report =
  rep_Org :: string
  rep_Refreshed :: nat
  rep_Applied :: nat
  rep_Cancelled :: nat
  rep_Stuck :: nat
  rep_Anomalies :: nat
  rep_Corrected :: nat
  rep_Listed :: nat
  rep_Orphans :: nat
  rep_Refunds :: nat
  rep_Errors :: "report_error list"
  rep_Skipped :: bool

record leaseRow =
  lr_OrganizationID :: string
  lr_LockedBy :: string
  lr_LockedUntil :: "int option"
  lr_LastRunAt :: "int option"
  lr_LastReport :: "Report option"

record LedgerAnomaly =
  an_Org :: string
  an_PaymentID :: string
  an_DocumentType :: string
  an_DocumentID :: string
  an_Provider :: string
  an_ProviderRef :: string
  an_OrderRef :: string
  an_Reason :: Reason
  an_Stored :: Status
  an_Observed :: Status
  an_Amount :: string
  an_Currency :: string
  an_Source :: Source
  an_Resolved :: bool

record ConfirmedPayload =
  cp_Provider :: string
  cp_Result :: Outcome
  cp_OrganizationID :: string
  cp_OccurredAt :: string
  cp_Source :: Source
  cp_PaymentID :: string
  cp_DocumentType :: string
  cp_DocumentID :: string

text \<open>What leaves the ledger: a published confirmation with its emitter, an anomaly handed to the sink, an
  anomaly published as \<^verbatim>\<open>kernel\<close>.\<close>

datatype notice =
    Published string ConfirmedPayload
  | SinkAnomaly LedgerAnomaly
  | PublishedAnomaly LedgerAnomaly

record ldb =
  db_payments :: "paymentRow list"
  db_events :: "eventRow list"
  db_refunds :: "refundRow list"
  db_holds :: "holdRow list"
  db_leases :: "leaseRow list"
  db_log :: "notice list"

definition empty_db :: ldb where
  "empty_db = \<lparr>db_payments = [], db_events = [], db_refunds = [], db_holds = [], db_leases = [], db_log = []\<rparr>"

end
