(* ===== verification/Ledger_Store.thy ===== *)
theory Ledger_Store
  imports Ledger_State
begin

text \<open>
  Reading and writing the ledger's tables: what a call takes from outside (\<open>env\<close>), the row projections
  of \<^verbatim>\<open>rows.go\<close>, the constraints of \<^verbatim>\<open>schema.go\<close> with inserts and updates that respect them, and the
  announcements of \<^verbatim>\<open>observe.go\<close> (\<^verbatim>\<open>publish\<close>, \<^verbatim>\<open>raise\<close>).
\<close>

section \<open>What a call takes from outside\<close>

datatype input_val = InStr string | InBool bool | InInt int | InSeller Seller

datatype capability_key =
    CommercePaymentsSession | CommercePaymentsTerminalCreate | CommercePaymentsStatus
  | CommercePaymentsCancel | CommercePaymentsRefund | CommercePaymentsRefundStatus
  | CommercePaymentsReconcile

record pquery =
  q_Org :: string
  q_Market :: string
  q_Capability :: capability_key
  q_Input :: "(string \<times> input_val) list"
  q_Provider :: string

definition input_set :: "string \<Rightarrow> input_val \<Rightarrow> (string \<times> input_val) list \<Rightarrow> (string \<times> input_val) list" where
  "input_set k v m = (k, v) # filter (\<lambda>kv. fst kv \<noteq> k) m"

text \<open>
  A provider's answer: the query itself failed (message), no result, a result with an error (its code,
  message and whether it is indeterminate), or an output: the struct the JSON decoder filled and
  whether decoding reported an error.
\<close>

datatype 'a answer = QueryError string | NoResult | ResultError string string bool | Output 'a bool

record creationOutput =
  co_ProviderRef :: string
  co_SessionID :: string
  co_Status :: Status
  co_DeviceID :: string
  co_ExpiresAt :: string
  co_TestMode :: bool

record refundOutput =
  ro_RefundID :: string
  ro_Status :: RefundStatus
  ro_Instructions :: string

record pageOutput =
  po_Payments :: "Outcome list"
  po_NextCursor :: string

record providers =
  ask_create :: "pquery \<Rightarrow> creationOutput answer"
  ask_status :: "pquery \<Rightarrow> Outcome answer"
  ask_cancel :: "pquery \<Rightarrow> Status answer"
  ask_refund :: "pquery \<Rightarrow> refundOutput answer"
  ask_list :: "pquery \<Rightarrow> pageOutput answer"

record env =
  e_now :: int
  e_uuid :: "nat \<Rightarrow> string"
  e_token :: string
  e_sha256_hex :: "string \<Rightarrow> string"
  e_uuid_parse :: "string \<Rightarrow> string option"
  e_rfc3339 :: "string \<Rightarrow> int option"
  e_format_rfc3339 :: "int \<Rightarrow> string"
  e_providers :: "providers option"
  e_publish :: bool
  e_anomalies :: bool
  e_isPaymentsProvider :: "(string \<Rightarrow> string \<Rightarrow> bool option) option"
  e_RefundRepostWindow :: "string \<Rightarrow> int option"
  e_DefaultRefundRepostWindow :: int

section \<open>Row projections\<close>

definition hashToken :: "env \<Rightarrow> string \<Rightarrow> string" where
  "hashToken e token = (if token = [] then [] else e_sha256_hex e (''metacore-payments-hold:'' @ token))"

definition norm_text :: "string \<Rightarrow> string" where
  "norm_text s = (if s = [] then [] else case ParseAmount s of Inl _ \<Rightarrow> s | Inr a \<Rightarrow> Amount_String a)"

definition normPtr :: "string option \<Rightarrow> string" where
  "normPtr s = (case s of None \<Rightarrow> [] | Some s \<Rightarrow> norm_text s)"

definition strPtr :: "string \<Rightarrow> string option" where
  "strPtr s = (if s = [] then None else Some s)"

definition deref :: "string option \<Rightarrow> string" where
  "deref s = (case s of None \<Rightarrow> [] | Some s \<Rightarrow> s)"

definition firstNonBlank :: "string list \<Rightarrow> string" where
  "firstNonBlank vals = (case find (\<lambda>v. \<not> blank v) vals of Some v \<Rightarrow> v | None \<Rightarrow> [])"

definition truncate_text :: "string \<Rightarrow> nat \<Rightarrow> string" where
  "truncate_text s n = (if length s \<le> n then s else take n s)"

definition row_payment :: "paymentRow \<Rightarrow> Payment" where
  "row_payment r =
     (let refunded = norm_text (pr_AmountRefunded r)
      in \<lparr>p_ID = pr_ID r, p_DocumentType = pr_DocumentType r, p_DocumentID = pr_DocumentID r,
          p_OrderRef = pr_OrderRef r, p_Channel = pr_Channel r, p_Provider = pr_Provider r,
          p_ProviderRef = deref (pr_ProviderRef r), p_SessionID = pr_SessionID r, p_DeviceID = pr_DeviceID r,
          p_IdempotencyKey = pr_IdempotencyKey r, p_Status = pr_Status r,
          p_CancelledFrom = pr_CancelledFrom r, p_Amount = norm_text (pr_Amount r), p_Currency = pr_Currency r,
          p_AmountRefunded = (if refunded = ''0.00'' then [] else refunded),
          p_Fee = normPtr (pr_Fee r), p_Net = normPtr (pr_Net r), p_Method = pr_Method r,
          p_Installments = pr_Installments r, p_Card = pr_Card r, p_Cash = pr_Cash r, p_Seller = pr_Seller r,
          p_TestMode = pr_TestMode r, p_HoldToken = [],
          p_Anomaly = (if pr_Anomaly r = ReasonNone then None else Some (pr_Anomaly r)),
          p_PaidAt = pr_PaidAt r, p_CreatedAt = pr_CreatedAt r, p_UpdatedAt = pr_UpdatedAt r\<rparr>)"

definition row_refund :: "refundRow \<Rightarrow> Refund" where
  "row_refund r =
     \<lparr>r_ID = rr_ID r, r_PaymentID = rr_PaymentID r, r_Destination = rr_Destination r,
      r_Provider = rr_Provider r, r_ProviderRefundID = rr_ProviderRefundID r, r_Amount = norm_text (rr_Amount r),
      r_Currency = rr_Currency r, r_Status = rr_Status r, r_Reason = rr_Reason r,
      r_IdempotencyKey = rr_IdempotencyKey r, r_SourceType = rr_SourceType r, r_SourceID = rr_SourceID r,
      r_CreditNoteRequired = rr_CreditNoteRequired r, r_CreditNoteID = rr_CreditNoteID r,
      r_AdjustsTotal = rr_AdjustsTotal r, r_CashSessionID = rr_CashSessionID r,
      r_NeedsReview = rr_NeedsReview r, r_CreatedAt = rr_CreatedAt r, r_SettledAt = rr_SettledAt r\<rparr>"

definition row_hold :: "holdRow \<Rightarrow> Hold" where
  "row_hold r =
     \<lparr>h_DocumentType = hw_DocumentType r, h_DocumentID = hw_DocumentID r, h_Token = hw_TokenHash r,
      h_Holder = hw_Holder r, h_Channel = hw_Channel r, h_UserID = hw_UserID r, h_Status = hw_Status r,
      h_ExpiresAt = hw_ExpiresAt r\<rparr>"

section \<open>Constraints, inserts and updates\<close>

definition payments_ok :: "paymentRow list \<Rightarrow> bool" where
  "payments_ok rows \<longleftrightarrow>
     distinct (map pr_ID rows) \<and>
     distinct (map (\<lambda>r. (pr_OrganizationID r, pr_Provider r, pr_IdempotencyKey r)) rows) \<and>
     distinct (map (\<lambda>r. (pr_OrganizationID r, pr_Provider r, pr_ProviderRef r))
       (filter (\<lambda>r. pr_ProviderRef r \<noteq> None) rows))"

definition events_ok :: "eventRow list \<Rightarrow> bool" where
  "events_ok rows \<longleftrightarrow>
     distinct (map er_ID rows) \<and>
     distinct (map (\<lambda>r. (er_OrganizationID r, er_Provider r, er_EventID r)) rows)"

definition refunds_ok :: "refundRow list \<Rightarrow> bool" where
  "refunds_ok rows \<longleftrightarrow>
     distinct (map rr_ID rows) \<and>
     distinct (map (\<lambda>r. (rr_OrganizationID r, rr_PaymentID r, rr_IdempotencyKey r)) rows)"

definition hold_document :: "holdRow \<Rightarrow> string \<times> string \<times> string" where
  "hold_document r = (hw_OrganizationID r, hw_DocumentType r, hw_DocumentID r)"

definition holds_ok :: "holdRow list \<Rightarrow> bool" where
  "holds_ok rows \<longleftrightarrow>
     distinct (map hw_ID rows) \<and>
     distinct (map hold_document (filter (\<lambda>r. hw_Status r = HoldActive) rows))"

definition set_payments :: "paymentRow list \<Rightarrow> ldb \<Rightarrow> (lerr, ldb) result" where
  "set_payments rows db = (if payments_ok rows then Inr (db\<lparr>db_payments := rows\<rparr>) else Inl InternalError)"

definition set_refunds :: "refundRow list \<Rightarrow> ldb \<Rightarrow> (lerr, ldb) result" where
  "set_refunds rows db = (if refunds_ok rows then Inr (db\<lparr>db_refunds := rows\<rparr>) else Inl InternalError)"

definition set_holds :: "holdRow list \<Rightarrow> ldb \<Rightarrow> (lerr, ldb) result" where
  "set_holds rows db = (if holds_ok rows then Inr (db\<lparr>db_holds := rows\<rparr>) else Inl InternalError)"

definition create_payment :: "paymentRow \<Rightarrow> ldb \<Rightarrow> (lerr, ldb) result" where
  "create_payment row db = set_payments (db_payments db @ [row]) db"

definition update_payments :: "(paymentRow \<Rightarrow> bool) \<Rightarrow> (paymentRow \<Rightarrow> paymentRow) \<Rightarrow> ldb \<Rightarrow> (lerr, ldb) result" where
  "update_payments p f db = set_payments (update_where p f (db_payments db)) db"

definition create_refund :: "refundRow \<Rightarrow> ldb \<Rightarrow> (lerr, ldb) result" where
  "create_refund row db = set_refunds (db_refunds db @ [row]) db"

definition update_refunds :: "(refundRow \<Rightarrow> bool) \<Rightarrow> (refundRow \<Rightarrow> refundRow) \<Rightarrow> ldb \<Rightarrow> (lerr, ldb) result" where
  "update_refunds p f db = set_refunds (update_where p f (db_refunds db)) db"

definition create_hold :: "holdRow \<Rightarrow> ldb \<Rightarrow> (lerr, ldb) result" where
  "create_hold row db = set_holds (db_holds db @ [row]) db"

definition update_holds :: "(holdRow \<Rightarrow> bool) \<Rightarrow> (holdRow \<Rightarrow> holdRow) \<Rightarrow> ldb \<Rightarrow> (lerr, ldb) result" where
  "update_holds p f db = set_holds (update_where p f (db_holds db)) db"

text \<open>\<^verbatim>\<open>insertEvent\<close>: \<^verbatim>\<open>ON CONFLICT (organization_id, provider, event_id) DO NOTHING\<close>; the flag is \<^verbatim>\<open>dup\<close>.\<close>

definition insertEvent :: "eventRow \<Rightarrow> ldb \<Rightarrow> (lerr, ldb \<times> bool) result" where
  "insertEvent ev db =
     (if \<exists>r\<in>set (db_events db). er_OrganizationID r = er_OrganizationID ev \<and> er_Provider r = er_Provider ev \<and>
           er_EventID r = er_EventID ev
      then Inr (db, True)
      else if events_ok (db_events db @ [ev]) then Inr (db\<lparr>db_events := db_events db @ [ev]\<rparr>, False)
      else Inl InternalError)"

section \<open>Announcements\<close>

definition outcomeOf :: "Payment \<Rightarrow> Outcome" where
  "outcomeOf p =
     \<lparr>o_OrderRef = p_OrderRef p, o_Status = p_Status p, o_Amount = p_Amount p, o_Currency = p_Currency p,
      o_ProviderRef = p_ProviderRef p, o_EventID = [], o_Kind = KindPayment, o_Method = p_Method p,
      o_Installments = p_Installments p, o_PaidAt = [], o_OccurredAt = [],
      o_AmountRefunded = p_AmountRefunded p, o_Fee = p_Fee p, o_NetAmount = p_Net p,
      o_TestMode = p_TestMode p, o_Channel = p_Channel p, o_SessionID = p_SessionID p,
      o_DeviceID = p_DeviceID p, o_Card = p_Card p, o_Cash = p_Cash p, o_Seller = p_Seller p,
      o_ProviderStatus = [], o_StatusDetail = []\<rparr>"

definition publish :: "env \<Rightarrow> string \<Rightarrow> paymentRow \<Rightarrow> Outcome \<Rightarrow> Source \<Rightarrow> ldb \<Rightarrow> ldb" where
  "publish e org row oc source db =
     (if \<not> e_publish e then db
      else
        let p = row_payment row;
            result = (outcomeOf p)\<lparr>o_Kind := o_Kind oc, o_EventID := DedupeEventID oc,
                        o_OccurredAt := o_OccurredAt oc, o_PaidAt := o_PaidAt oc\<rparr>;
            result = (if o_Kind oc = KindRefund then result\<lparr>o_Amount := o_Amount oc\<rparr> else result);
            payload = \<lparr>cp_Provider = p_Provider p, cp_Result = result, cp_OrganizationID = org,
                       cp_OccurredAt = firstNonBlank [o_OccurredAt oc, e_format_rfc3339 e (e_now e)],
                       cp_Source = source, cp_PaymentID = p_ID p, cp_DocumentType = p_DocumentType p,
                       cp_DocumentID = p_DocumentID p\<rparr>
        in db\<lparr>db_log := db_log db @ [Published (p_Provider p) payload]\<rparr>)"

definition raise :: "env \<Rightarrow> LedgerAnomaly \<Rightarrow> ldb \<Rightarrow> ldb" where
  "raise e a db =
     (let db = (if e_anomalies e then db\<lparr>db_log := db_log db @ [SinkAnomaly a]\<rparr> else db)
      in if e_publish e then db\<lparr>db_log := db_log db @ [PublishedAnomaly a]\<rparr> else db)"

end
