(* ===== verification/Ledger_Holds.thy ===== *)
theory Ledger_Holds
  imports Ledger_Store
begin

text \<open>
  Holds and documents of the ledger (\<^verbatim>\<open>src/payments/ledger/ledger.go\<close>). \<open>AcquireHold\<close> and \<open>ReleaseHold\<close> are
  one transaction each, under the document lock. \<^verbatim>\<open>Order("created_at")\<close> is a stable sort.
\<close>

section \<open>Holds\<close>

definition activeHold :: "ldb \<Rightarrow> string \<Rightarrow> string \<Rightarrow> string \<Rightarrow> holdRow option" where
  "activeHold db org docType docID =
     find (\<lambda>r. hw_OrganizationID r = org \<and> hw_DocumentType r = docType \<and> hw_DocumentID r = docID \<and>
               hw_Status r = HoldActive) (db_holds db)"

record HoldResult =
  hres_Hold :: Hold
  hres_Token :: string

definition hold_error :: "pay_error \<Rightarrow> lerr" where
  "hold_error e = (case e of ErrHeld _ _ \<Rightarrow> LedgerError CodeInPayment | _ \<Rightarrow> LedgerError CodeInvalidInput)"

text \<open>\<open>raw\<close> is the new token when \<^verbatim>\<open>Acquire\<close> calls \<^verbatim>\<open>newToken\<close>, empty on a renewal.\<close>

definition AcquireHold :: "env \<Rightarrow> string \<Rightarrow> HoldRequest \<Rightarrow> string \<Rightarrow> ldb \<Rightarrow> (lerr, ldb \<times> HoldResult) result" where
  "AcquireHold e org req caller db =
     (if blank (hr_DocumentType req) \<or> blank (hr_DocumentID req) \<or> blank (hr_Holder req)
      then Inl (LedgerError CodeInvalidInput)
      else
        let now = e_now e;
            cur = activeHold db org (hr_DocumentType req) (hr_DocumentID req);
            current = map_option row_hold cur;
            hreq = req\<lparr>hr_Token := hashToken e (hr_Token req)\<rparr>;
            raw = (case current of None \<Rightarrow> e_token e | Some h \<Rightarrow> if Live h now then [] else e_token e)
        in case Acquire current hreq now (hashToken e (e_token e)) of
             Inl err \<Rightarrow> Inl (hold_error err)
           | Inr h \<Rightarrow>
               if raw = [] then
                 (case cur of
                    None \<Rightarrow> Inl LedgerPanic
                  | Some c \<Rightarrow>
                      rbind (update_holds (\<lambda>r. hw_ID r = hw_ID c)
                               (\<lambda>r. r\<lparr>hw_ExpiresAt := h_ExpiresAt h, hw_UpdatedAt := now\<rparr>) db) (\<lambda>db.
                        Inr (db, \<lparr>hres_Hold = h\<lparr>h_Token := []\<rparr>, hres_Token = hr_Token req\<rparr>)))
               else
                 rbind (case cur of
                          None \<Rightarrow> Inr db
                        | Some c \<Rightarrow> update_holds (\<lambda>r. hw_ID r = hw_ID c)
                                     (\<lambda>r. r\<lparr>hw_Status := HoldExpired, hw_UpdatedAt := now\<rparr>) db) (\<lambda>db.
                 rbind (create_hold
                          \<lparr>hw_ID = e_uuid e 0, hw_OrganizationID = org, hw_DocumentType = hr_DocumentType req,
                           hw_DocumentID = hr_DocumentID req, hw_TokenHash = h_Token h, hw_Holder = hr_Holder req,
                           hw_Channel = hr_Channel req, hw_UserID = hr_UserID req, hw_Status = HoldActive,
                           hw_CreatedBy = caller, hw_ExpiresAt = h_ExpiresAt h, hw_CreatedAt = now,
                           hw_UpdatedAt = now\<rparr> db) (\<lambda>db.
                   Inr (db, \<lparr>hres_Hold = h\<lparr>h_Token := []\<rparr>, hres_Token = raw\<rparr>))))"

definition ReleaseHold :: "env \<Rightarrow> string \<Rightarrow> string \<Rightarrow> string \<Rightarrow> string \<Rightarrow> bool \<Rightarrow> ldb \<Rightarrow> (lerr, ldb) result" where
  "ReleaseHold e org docType docID token force db =
     (case activeHold db org docType docID of
        None \<Rightarrow> Inr db
      | Some cur \<Rightarrow>
          (case Release (Some (row_hold cur)) (hashToken e token) force (e_now e) of
             Inl _ \<Rightarrow> Inl (LedgerError CodeHoldNotOwner)
           | Inr None \<Rightarrow> Inl LedgerPanic
           | Inr (Some h) \<Rightarrow>
               update_holds (\<lambda>r. hw_ID r = hw_ID cur)
                 (\<lambda>r. r\<lparr>hw_Status := h_Status h, hw_UpdatedAt := e_now e\<rparr>) db))"

section \<open>Documents\<close>

record Document =
  d_DocumentType :: string
  d_DocumentID :: string
  d_Payments :: "Payment list"
  d_Refunds :: "Refund list"
  d_NetPaid :: string
  d_Paid :: string
  d_Open :: bool
  d_Hold :: "Hold option"

definition document_rows :: "ldb \<Rightarrow> string \<Rightarrow> string \<Rightarrow> string \<Rightarrow> paymentRow list" where
  "document_rows db org docType docID =
     sort_key pr_CreatedAt
       (filter (\<lambda>r. pr_OrganizationID r = org \<and> pr_DocumentType r = docType \<and> pr_DocumentID r = docID)
          (db_payments db))"

definition refund_rows :: "ldb \<Rightarrow> string \<Rightarrow> string list \<Rightarrow> refundRow list" where
  "refund_rows db org ids =
     sort_key rr_CreatedAt
       (filter (\<lambda>r. rr_OrganizationID r = org \<and> rr_PaymentID r \<in> set ids) (db_refunds db))"

fun net_of :: "Payment list \<Rightarrow> amount \<Rightarrow> (pay_error, amount) result" where
  "net_of [] net = Inr net"
| "net_of (p # ps) net = rbind (NetCaptured p) (\<lambda>n. net_of ps (net + n))"

definition document :: "env \<Rightarrow> string \<Rightarrow> string \<Rightarrow> string \<Rightarrow> ldb \<Rightarrow> (lerr, Document) result" where
  "document e org docType docID db =
     (let rows = document_rows db org docType docID;
          ps = map row_payment rows;
          rs = (if rows = [] then [] else map row_refund (refund_rows db org (map pr_ID rows)))
      in rbind (uncoded (net_of ps 0)) (\<lambda>net.
         rbind (uncoded (DocumentPaid ps rs)) (\<lambda>paid.
           Inr \<lparr>d_DocumentType = docType, d_DocumentID = docID, d_Payments = ps, d_Refunds = rs,
                d_NetPaid = Amount_String net, d_Paid = Amount_String paid,
                d_Open = (\<exists>p\<in>set ps. Open (p_Status p)),
                d_Hold = (case activeHold db org docType docID of
                            Some h \<Rightarrow> if hw_ExpiresAt h > e_now e then Some ((row_hold h)\<lparr>h_Token := []\<rparr>) else None
                          | None \<Rightarrow> None)\<rparr>)))"

definition Document_get :: "env \<Rightarrow> string \<Rightarrow> string \<Rightarrow> string \<Rightarrow> ldb \<Rightarrow> (lerr, Document) result" where
  "Document_get e org docType docID db =
     (if blank docType \<or> blank docID then Inl (LedgerError CodeInvalidInput) else document e org docType docID db)"

definition find_row :: "ldb \<Rightarrow> string \<Rightarrow> string \<Rightarrow> paymentRow option" where
  "find_row db org pid = find (\<lambda>r. pr_OrganizationID r = org \<and> pr_ID r = pid) (db_payments db)"

definition paymentRow_get :: "env \<Rightarrow> string \<Rightarrow> string \<Rightarrow> ldb \<Rightarrow> (lerr, paymentRow) result" where
  "paymentRow_get e org ident db =
     (case e_uuid_parse e (TrimSpace ident) of
        None \<Rightarrow> Inl (LedgerError CodeInvalidInput)
      | Some pid \<Rightarrow>
          (case find_row db org pid of
             None \<Rightarrow> Inl (LedgerError CodeNotFound)
           | Some row \<Rightarrow> Inr row))"

definition Payment_get :: "env \<Rightarrow> string \<Rightarrow> string \<Rightarrow> ldb \<Rightarrow> (lerr, Payment) result" where
  "Payment_get e org ident db = rbind (paymentRow_get e org ident db) (\<lambda>row. Inr (row_payment row))"

section \<open>Lemmas on the tables\<close>

lemma set_table_iff [row_simps]:
  "set_payments rows db = Inr db' \<longleftrightarrow> payments_ok rows \<and> db' = db\<lparr>db_payments := rows\<rparr>"
  "set_refunds rs db = Inr db' \<longleftrightarrow> refunds_ok rs \<and> db' = db\<lparr>db_refunds := rs\<rparr>"
  "set_holds hs db = Inr db' \<longleftrightarrow> holds_ok hs \<and> db' = db\<lparr>db_holds := hs\<rparr>"
  by (auto simp: set_payments_def set_refunds_def set_holds_def)

lemma table_op_iff [row_simps]:
  "create_payment row db = Inr db' \<longleftrightarrow>
     payments_ok (db_payments db @ [row]) \<and> db' = db\<lparr>db_payments := db_payments db @ [row]\<rparr>"
  "update_payments p f db = Inr db' \<longleftrightarrow>
     payments_ok (update_where p f (db_payments db)) \<and> db' = db\<lparr>db_payments := update_where p f (db_payments db)\<rparr>"
  "create_refund r db = Inr db' \<longleftrightarrow>
     refunds_ok (db_refunds db @ [r]) \<and> db' = db\<lparr>db_refunds := db_refunds db @ [r]\<rparr>"
  "update_refunds q g db = Inr db' \<longleftrightarrow>
     refunds_ok (update_where q g (db_refunds db)) \<and> db' = db\<lparr>db_refunds := update_where q g (db_refunds db)\<rparr>"
  "create_hold h db = Inr db' \<longleftrightarrow>
     holds_ok (db_holds db @ [h]) \<and> db' = db\<lparr>db_holds := db_holds db @ [h]\<rparr>"
  "update_holds s k db = Inr db' \<longleftrightarrow>
     holds_ok (update_where s k (db_holds db)) \<and> db' = db\<lparr>db_holds := update_where s k (db_holds db)\<rparr>"
  by (simp_all add: create_payment_def update_payments_def create_refund_def update_refunds_def
      create_hold_def update_holds_def row_simps)

lemma insertEvent_iff [row_simps]:
  "insertEvent ev db = Inr (db', dup) \<Longrightarrow>
     (dup \<and> db' = db) \<or> (\<not> dup \<and> events_ok (db_events db @ [ev]) \<and> db' = db\<lparr>db_events := db_events db @ [ev]\<rparr>)"
  by (auto simp: insertEvent_def split: if_splits)

lemma row_payment_simps [simp]:
  "p_ID (row_payment r) = pr_ID r" "p_Status (row_payment r) = pr_Status r"
  "p_Currency (row_payment r) = pr_Currency r" "p_Provider (row_payment r) = pr_Provider r"
  "p_Amount (row_payment r) = norm_text (pr_Amount r)" "p_IdempotencyKey (row_payment r) = pr_IdempotencyKey r"
  "p_CancelledFrom (row_payment r) = pr_CancelledFrom r" "p_ProviderRef (row_payment r) = deref (pr_ProviderRef r)"
  "p_DocumentType (row_payment r) = pr_DocumentType r" "p_DocumentID (row_payment r) = pr_DocumentID r"
  "p_Channel (row_payment r) = pr_Channel r"
  by (simp_all add: row_payment_def Let_def)

lemma row_refund_simps [simp]:
  "r_ID (row_refund r) = rr_ID r" "r_PaymentID (row_refund r) = rr_PaymentID r"
  "r_Status (row_refund r) = rr_Status r" "r_Amount (row_refund r) = norm_text (rr_Amount r)"
  "r_Currency (row_refund r) = rr_Currency r" "r_IdempotencyKey (row_refund r) = rr_IdempotencyKey r"
  "r_Destination (row_refund r) = rr_Destination r" "r_AdjustsTotal (row_refund r) = rr_AdjustsTotal r"
  by (simp_all add: row_refund_def)

lemma row_hold_simps [simp]:
  "h_Status (row_hold r) = hw_Status r" "h_ExpiresAt (row_hold r) = hw_ExpiresAt r"
  "h_Token (row_hold r) = hw_TokenHash r" "h_Holder (row_hold r) = hw_Holder r"
  by (simp_all add: row_hold_def)

lemma norm_parses [amount_simps]: "parses (norm_text s) = parses s" "parses s \<Longrightarrow> amount_val (norm_text s) = amount_val s"
proof -
  have "parses s \<Longrightarrow> parses (norm_text s) \<and> amount_val (norm_text s) = amount_val s"
    using ParseAmount_String[OF amount_val_scaled, of s]
    by (auto simp: norm_text_def ParseAmount_cases split: if_splits)
  moreover have "\<not> parses s \<Longrightarrow> norm_text s = s" by (simp add: norm_text_def ParseAmount_cases)
  ultimately show "parses (norm_text s) = parses s" "parses s \<Longrightarrow> amount_val (norm_text s) = amount_val s"
    by (cases "parses s"; simp)+
qed

lemma amount_val_norm [simp]: "amount_val (norm_text s) = amount_val s"
  using norm_parses(2)[of s] by (cases "parses s") (auto simp: norm_text_def ParseAmount_cases)

declare norm_parses(1) [simp]

lemma activeHold_Some:
  "activeHold db org ty did = Some h \<Longrightarrow>
     h \<in> set (db_holds db) \<and> hold_document h = (org, ty, did) \<and> hw_Status h = HoldActive"
  by (auto simp: activeHold_def hold_document_def dest!: find_Some_in)

lemma activeHold_unique:
  assumes "holds_ok (db_holds db)" and "h \<in> set (db_holds db)" and "hw_Status h = HoldActive"
  shows "activeHold db (hw_OrganizationID h) (hw_DocumentType h) (hw_DocumentID h) = Some h"
proof -
  let ?P = "\<lambda>r. hw_OrganizationID r = hw_OrganizationID h \<and> hw_DocumentType r = hw_DocumentType h \<and>
      hw_DocumentID r = hw_DocumentID h \<and> hw_Status r = HoldActive"
  obtain g where g: "find ?P (db_holds db) = Some g"
    using assms(2,3) by (cases "find ?P (db_holds db)") (auto simp: find_None_iff)
  have gin: "g \<in> set (db_holds db)" and gP: "?P g" using find_Some_in[OF g] by simp_all
  have inj: "inj_on hold_document (set (filter (\<lambda>r. hw_Status r = HoldActive) (db_holds db)))"
    using assms(1) by (simp add: holds_ok_def distinct_map)
  have "hold_document g = hold_document h" using gP by (simp add: hold_document_def)
  then have "g = h" using gin gP assms(2,3) by (intro inj_onD[OF inj]) simp_all
  then show ?thesis using g by (simp add: activeHold_def)
qed

lemma find_row_Some: "find_row db org pid = Some r \<Longrightarrow> r \<in> set (db_payments db) \<and> pr_OrganizationID r = org \<and> pr_ID r = pid"
  by (auto simp: find_row_def dest!: find_Some_in)

end
