(* ===== verification/Ledger_Observe.thy ===== *)
theory Ledger_Observe
  imports Ledger_Holds
begin

text \<open>
  Recording provider updates (\<^verbatim>\<open>src/payments/ledger/observe.go\<close>), with the two helpers its transaction
  calls: \<^verbatim>\<open>settleDocument\<close> (\<^verbatim>\<open>charge.go\<close>) and \<^verbatim>\<open>queueRefundRecheck\<close> (\<^verbatim>\<open>refund.go\<close>).

  \<open>observe_tx\<close> is the transaction; \<open>observe\<close> validates, runs it and announces. A handler returns the
  database, its result and an optional error, since the code returns a result next to an error. When
  the transaction fails and is rolled back the observation is the zero value here; the code may return
  one it had filled before the failing statement.
\<close>

section \<open>Helpers\<close>

record Observation =
  ob_Payment :: "Payment option"
  ob_Decision :: "Decision option"
  ob_Reason :: Reason
  ob_Duplicate :: bool
  ob_Corrected :: bool
  ob_Orphan :: bool

text \<open>The zero value of the struct.\<close>

definition no_observation :: Observation where
  "no_observation =
     \<lparr>ob_Payment = None, ob_Decision = None, ob_Reason = ReasonNone, ob_Duplicate = False,
      ob_Corrected = False, ob_Orphan = False\<rparr>"

definition moneyMismatch :: "Reason \<Rightarrow> bool" where
  "moneyMismatch r \<longleftrightarrow>
     r \<in> {ReasonAmountMismatch, ReasonCurrencyMismatch, ReasonProviderRefMismatch, ReasonInvalidOutcome}"

definition validOutcome :: "Outcome \<Rightarrow> (lerr, unit) result" where
  "validOutcome oc =
     (if \<not> Status_Valid (o_Status oc) \<or>
         (case ParseAmount (o_Amount oc) of Inl _ \<Rightarrow> True | Inr _ \<Rightarrow> False) \<or>
         (o_AmountRefunded oc \<noteq> [] \<and> (case ParseAmount (o_AmountRefunded oc) of Inl _ \<Rightarrow> True | Inr _ \<Rightarrow> False)) \<or>
         \<not> ValidCurrency (o_Currency oc) \<or>
         (blank (o_ProviderRef oc) \<and> blank (o_SessionID oc) \<and> blank (o_OrderRef oc))
      then Inl (LedgerError CodeInvalidInput) else Inr ())"

definition newest :: "(paymentRow \<Rightarrow> bool) \<Rightarrow> paymentRow list \<Rightarrow> paymentRow option" where
  "newest p rows = (case sort_key (\<lambda>r. - pr_CreatedAt r) (filter p rows) of [] \<Rightarrow> None | r # _ \<Rightarrow> Some r)"

definition findPayment :: "ldb \<Rightarrow> string \<Rightarrow> string \<Rightarrow> Outcome \<Rightarrow> paymentRow option" where
  "findPayment db org provider oc =
     (let base = filter (\<lambda>r. pr_OrganizationID r = org \<and> pr_Provider r = provider) (db_payments db);
          by_ref = (if o_ProviderRef oc \<noteq> [] then find (\<lambda>r. pr_ProviderRef r = Some (o_ProviderRef oc)) base else None);
          by_session = (if o_SessionID oc \<noteq> [] then newest (\<lambda>r. pr_SessionID r = o_SessionID oc) base else None);
          by_order = (if o_OrderRef oc \<noteq> []
                      then newest (\<lambda>r. pr_OrderRef r = o_OrderRef oc \<and>
                                       (pr_ProviderRef r = None \<or> pr_ProviderRef r = Some [])) base
                      else None)
      in case by_ref of Some r \<Rightarrow> Some r | None \<Rightarrow> (case by_session of Some r \<Rightarrow> Some r | None \<Rightarrow> by_order))"

definition settleDocument :: "env \<Rightarrow> string \<Rightarrow> string \<Rightarrow> string \<Rightarrow> string \<Rightarrow> ldb \<Rightarrow> (lerr, ldb) result" where
  "settleDocument e org docType docID tot db =
     (if tot = [] then Inr db
      else rbind (document e org docType docID db) (\<lambda>doc.
           rbind (uncoded (MustAmount (d_Paid doc))) (\<lambda>paid.
           rbind (uncoded (MustAmount tot)) (\<lambda>t.
             if Amount_Cmp paid t < 0 then Inr db
             else update_holds (\<lambda>r. hw_OrganizationID r = org \<and> hw_DocumentType r = docType \<and>
                                    hw_DocumentID r = docID \<and> hw_Status r = HoldActive)
                    (\<lambda>r. r\<lparr>hw_Status := HoldConsumed, hw_UpdatedAt := e_now e\<rparr>) db))))"

definition queueRefundRecheck :: "string \<Rightarrow> string \<Rightarrow> int \<Rightarrow> ldb \<Rightarrow> (lerr, ldb) result" where
  "queueRefundRecheck org paymentID now db =
     update_refunds (\<lambda>r. rr_OrganizationID r = org \<and> rr_PaymentID r = paymentID \<and>
                         rr_Status r = RefundPending \<and> rr_Destination r = RefundToOriginal \<and> \<not> rr_NeedsReview r)
       (\<lambda>r. r\<lparr>rr_NextRecheckAt := Some now\<rparr>) db"

section \<open>Applying an outcome\<close>

text \<open>The value written to \<^verbatim>\<open>amount_refunded\<close>, \<open>None\<close> when it is not written.\<close>

definition applied_refunded :: "paymentRow \<Rightarrow> Outcome \<Rightarrow> (lerr, string option) result" where
  "applied_refunded row oc =
     (if o_Status oc = StatusRefunded then Inr (Some (pr_Amount row))
      else if o_AmountRefunded oc \<noteq> [] then Inr (Some (o_AmountRefunded oc))
      else if o_Kind oc = KindRefund \<and> o_Status oc = StatusPartiallyRefunded then
        rbind (uncoded (MustAmount (norm_text (pr_AmountRefunded row)))) (\<lambda>a.
        rbind (uncoded (MustAmount (o_Amount oc))) (\<lambda>b. Inr (Some (Amount_String (a + b)))))
      else Inr None)"

text \<open>The columns \<^verbatim>\<open>applyOutcome\<close> writes, as one update of the row; \<open>last_checked_at\<close> and \<open>updated_at\<close> are
  always among the updates of \<^verbatim>\<open>observe\<close>.\<close>

definition applyOutcome :: "env \<Rightarrow> paymentRow \<Rightarrow> Outcome \<Rightarrow> (lerr, paymentRow \<Rightarrow> paymentRow) result" where
  "applyOutcome e row oc =
     rbind (applied_refunded row oc) (\<lambda>refunded.
       Inr (\<lambda>r. r\<lparr>
         pr_Status := o_Status oc,
         pr_CancelledFrom := (if o_Status oc \<noteq> StatusCancelling then StatusOther [] else pr_CancelledFrom r),
         pr_ProviderRef := (if o_ProviderRef oc \<noteq> [] \<and> (pr_ProviderRef row = None \<or> pr_ProviderRef row = Some [])
                            then Some (o_ProviderRef oc) else pr_ProviderRef r),
         pr_SessionID := (if o_SessionID oc \<noteq> [] \<and> pr_SessionID row = [] then o_SessionID oc else pr_SessionID r),
         pr_DeviceID := (if o_DeviceID oc \<noteq> [] then o_DeviceID oc else pr_DeviceID r),
         pr_AmountRefunded := (case refunded of Some v \<Rightarrow> v | None \<Rightarrow> pr_AmountRefunded r),
         pr_Fee := (if o_Fee oc \<noteq> [] then Some (o_Fee oc) else pr_Fee r),
         pr_Net := (if o_NetAmount oc \<noteq> [] then Some (o_NetAmount oc) else pr_Net r),
         pr_Method := (if o_Method oc \<noteq> [] then o_Method oc else pr_Method r),
         pr_Installments := (if o_Installments oc > 0 then o_Installments oc else pr_Installments r),
         pr_Card := (case o_Card oc of None \<Rightarrow> pr_Card r | Some c \<Rightarrow> Some c),
         pr_Cash := (case o_Cash oc of None \<Rightarrow> pr_Cash r | Some c \<Rightarrow> Some c),
         pr_TestMode := (if o_TestMode oc then True else pr_TestMode r),
         pr_StatusDetail := (let d = firstNonBlank [o_StatusDetail oc, o_ProviderStatus oc]
                             in if d \<noteq> [] then truncate_text d 500 else pr_StatusDetail r),
         pr_PaidAt := (if Captured (o_Status oc) \<and> pr_PaidAt row = None
                       then Some (case e_rfc3339 e (o_PaidAt oc) of Some t \<Rightarrow> t | None \<Rightarrow> e_now e)
                       else pr_PaidAt r)\<rparr>))"

definition stamp :: "env \<Rightarrow> paymentRow \<Rightarrow> paymentRow" where
  "stamp e r = r\<lparr>pr_LastCheckedAt := Some (e_now e), pr_UpdatedAt := e_now e\<rparr>"

section \<open>The transaction\<close>

record observe_result =
  or_obs :: Observation
  or_anomaly :: "LedgerAnomaly option"
  or_publish :: bool
  or_stored :: "paymentRow option"

definition silent :: "Observation \<Rightarrow> observe_result" where
  "silent obs = \<lparr>or_obs = obs, or_anomaly = None, or_publish = False, or_stored = None\<rparr>"

definition orphan_anomaly :: "string \<Rightarrow> string \<Rightarrow> Outcome \<Rightarrow> Source \<Rightarrow> LedgerAnomaly" where
  "orphan_anomaly org provider oc source =
     \<lparr>an_Org = org, an_PaymentID = [], an_DocumentType = [], an_DocumentID = [], an_Provider = provider,
      an_ProviderRef = o_ProviderRef oc, an_OrderRef = o_OrderRef oc, an_Reason = ReasonOrphan,
      an_Stored = StatusOther [], an_Observed = o_Status oc, an_Amount = o_Amount oc,
      an_Currency = o_Currency oc, an_Source = source, an_Resolved = False\<rparr>"

definition observe_event :: "env \<Rightarrow> string \<Rightarrow> string \<Rightarrow> Outcome \<Rightarrow> Source \<Rightarrow> eventRow" where
  "observe_event e org provider oc source =
     \<lparr>er_ID = e_uuid e 0, er_OrganizationID = org, er_PaymentID = None, er_Provider = provider,
      er_EventID = DedupeEventID oc, er_Kind = o_Kind oc, er_Source = source, er_Status = o_Status oc,
      er_Decision = Decided Anomaly, er_Reason = ReasonNone, er_Outcome = oc, er_ObservedAt = e_now e\<rparr>"

text \<open>Recording the event of a known payment: the dedupe insert and, for a derived id whose state comes
  back as a valid move, the insert under its own id.\<close>

definition record_event :: "env \<Rightarrow> eventRow \<Rightarrow> Payment \<Rightarrow> Outcome \<Rightarrow> Decision \<Rightarrow> bool \<Rightarrow> ldb \<Rightarrow>
    (lerr, ldb \<times> bool) result" where
  "record_event e ev p oc decision corrected db =
     rbind (insertEvent ev db) (\<lambda>(db, dup).
       if dup \<and> \<not> corrected \<and> decision = Apply \<and> o_EventID oc = [] \<and> p_Status p \<noteq> o_Status oc
       then insertEvent (ev\<lparr>er_ID := e_uuid e 1,
              er_EventID := er_EventID ev @ ''|after|'' @ status_string (p_Status p)\<rparr>) db
       else Inr (db, dup))"

definition observe_known :: "env \<Rightarrow> string \<Rightarrow> string \<Rightarrow> Outcome \<Rightarrow> Source \<Rightarrow> paymentRow \<Rightarrow> ldb \<Rightarrow>
    (lerr, ldb \<times> observe_result) result" where
  "observe_known e org provider oc source row db =
     (let p = row_payment row;
          (decision, reason) = ObserveOutcome p oc;
          corrected = (decision = Anomaly \<and> source = SourceReconcile \<and> pr_Anomaly row = reason \<and>
                       pr_AnomalyStatus row = o_Status oc \<and> \<not> moneyMismatch reason);
          applied = (decision = Apply \<or> corrected);
          ev0 = (observe_event e org provider oc source)\<lparr>er_PaymentID := Some (pr_ID row),
                  er_Decision := Decided decision, er_Reason := reason\<rparr>;
          ev = (if corrected then ev0\<lparr>er_Decision := Corrected, er_EventID := er_EventID ev0 @ ''|corrected''\<rparr>
                else ev0)
      in rbind (record_event e ev p oc decision corrected db) (\<lambda>(db, dup).
         if dup \<and> \<not> corrected then
           rbind (update_payments (\<lambda>r. pr_ID r = pr_ID row) (stamp e) db) (\<lambda>db.
             Inr (db, silent (no_observation\<lparr>ob_Payment := Some p, ob_Decision := Some Ignore,
                                ob_Reason := ReasonDuplicate, ob_Duplicate := True\<rparr>)))
         else
           rbind (if applied then applyOutcome e row oc else Inr (\<lambda>r. r)) (\<lambda>upd.
           let upd = (if corrected then (\<lambda>r. (upd r)\<lparr>pr_Anomaly := ReasonNone, pr_AnomalyStatus := StatusOther []\<rparr>)
                      else if applied then upd
                      else if decision = Anomaly
                           then (\<lambda>r. r\<lparr>pr_Anomaly := reason, pr_AnomalyStatus := o_Status oc\<rparr>)
                      else (\<lambda>r. r));
               announce = (applied \<and> o_Status oc \<noteq> StatusPending \<and> o_Status oc \<noteq> StatusRequiresAction)
           in rbind (update_payments (\<lambda>r. pr_ID r = pr_ID row) (\<lambda>r. upd (stamp e r)) db) (\<lambda>db.
              case find (\<lambda>r. pr_ID r = pr_ID row) (db_payments db) of
                None \<Rightarrow> Inl InternalError
              | Some stored \<Rightarrow>
                  rbind (if applied then
                           rbind (uncoded (MustAmount (norm_text (pr_AmountRefunded stored)))) (\<lambda>a.
                           rbind (uncoded (MustAmount (norm_text (pr_AmountRefunded row)))) (\<lambda>b.
                             if Amount_Cmp a b > 0 then queueRefundRecheck org (pr_ID stored) (e_now e) db
                             else Inr db))
                         else Inr db) (\<lambda>db.
                  rbind (if announce \<and> Counts (o_Status oc)
                         then settleDocument e org (pr_DocumentType row) (pr_DocumentID row)
                                (normPtr (pr_DocumentTotal row)) db
                         else Inr db) (\<lambda>db.
                    Inr (db, \<lparr>or_obs = no_observation\<lparr>ob_Payment := Some (row_payment stored),
                                ob_Decision := Some decision, ob_Reason := reason, ob_Corrected := corrected\<rparr>,
                              or_anomaly =
                                (if decision = Anomaly \<or> corrected then
                                   Some \<lparr>an_Org = org, an_PaymentID = pr_ID row, an_DocumentType = pr_DocumentType row,
                                         an_DocumentID = pr_DocumentID row, an_Provider = provider,
                                         an_ProviderRef = firstNonBlank [o_ProviderRef oc, p_ProviderRef p],
                                         an_OrderRef = pr_OrderRef row, an_Reason = reason, an_Stored = p_Status p,
                                         an_Observed = o_Status oc, an_Amount = o_Amount oc,
                                         an_Currency = o_Currency oc, an_Source = source,
                                         an_Resolved = corrected\<rparr>
                                 else None),
                              or_publish = announce, or_stored = Some stored\<rparr>)))))))"

definition observe_tx :: "env \<Rightarrow> string \<Rightarrow> string \<Rightarrow> Outcome \<Rightarrow> Source \<Rightarrow> ldb \<Rightarrow>
    (lerr, ldb \<times> observe_result) result" where
  "observe_tx e org provider oc source db =
     (case findPayment db org provider oc of
        Some row \<Rightarrow> observe_known e org provider oc source row db
      | None \<Rightarrow>
          rbind (insertEvent ((observe_event e org provider oc source)\<lparr>er_Reason := ReasonOrphan\<rparr>) db) (\<lambda>(db, dup).
            if dup then Inr (db, silent (no_observation\<lparr>ob_Duplicate := True\<rparr>))
            else Inr (db, \<lparr>or_obs = no_observation\<lparr>ob_Decision := Some Anomaly, ob_Reason := ReasonOrphan, ob_Orphan := True\<rparr>,
                           or_anomaly = Some (orphan_anomaly org provider oc source),
                           or_publish = False, or_stored = None\<rparr>)))"

definition observe :: "env \<Rightarrow> string \<Rightarrow> string \<Rightarrow> Outcome \<Rightarrow> Source \<Rightarrow> ldb \<Rightarrow> ldb \<times> Observation \<times> lerr option" where
  "observe e org provider oc0 source db =
     (case validOutcome oc0 of
        Inl err \<Rightarrow> (db, no_observation, Some err)
      | Inr _ \<Rightarrow>
          let oc = (if o_Kind oc0 = KindOther [] then oc0\<lparr>o_Kind := KindPayment\<rparr> else oc0)
          in case observe_tx e org provider oc source db of
               Inl err \<Rightarrow> (db, no_observation, Some err)
             | Inr (db, res) \<Rightarrow>
                 let db = (case or_anomaly res of Some a \<Rightarrow> raise e a db | None \<Rightarrow> db);
                     db = (case or_stored res of
                             Some stored \<Rightarrow> if or_publish res then publish e org stored oc source db else db
                           | None \<Rightarrow> db)
                 in (db, or_obs res, None))"

definition Ledger_Observe :: "env \<Rightarrow> string \<Rightarrow> string \<Rightarrow> string \<Rightarrow> Outcome \<Rightarrow> Source \<Rightarrow> ldb \<Rightarrow>
    ldb \<times> Observation \<times> lerr option" where
  "Ledger_Observe e org caller provider0 oc source0 db =
     (let source = (if source0 = SourceOther [] then SourceWebhook else source0);
          run = (\<lambda>provider. if blank provider then (db, no_observation, Some (LedgerError CodeInvalidInput))
                            else observe e org provider oc source db)
      in if caller \<noteq> [] then
           if provider0 \<noteq> [] \<and> provider0 \<noteq> caller then (db, no_observation, Some (LedgerError CodeForbidden))
           else case e_isPaymentsProvider e of
                  None \<Rightarrow> (db, no_observation, Some (LedgerError CodeForbidden))
                | Some is_provider \<Rightarrow>
                    (case is_provider org caller of
                       None \<Rightarrow> (db, no_observation, Some (LedgerError CodeUnavailable))
                     | Some False \<Rightarrow> (db, no_observation, Some (LedgerError CodeForbidden))
                     | Some True \<Rightarrow> run caller)
         else run provider0)"

end
