(* ===== verification/Ledger_Charge.thy ===== *)
theory Ledger_Charge
  imports Ledger_Observe
begin

text \<open>
  Charging a document (\<^verbatim>\<open>src/payments/ledger/charge.go\<close>): \<open>charge_tx\<close> is the transaction of
  \<^verbatim>\<open>StartCharge\<close> under the document lock; \<open>sendToProvider\<close>, \<open>Refresh\<close> and \<open>Cancel\<close> call the provider and
  record its answer.
\<close>

section \<open>Starting a charge\<close>

record ChargeRequest =
  ch_DocumentType :: string
  ch_DocumentID :: string
  ch_OrderRef :: string
  ch_DocumentTotal :: string
  ch_Amount :: string
  ch_Currency :: string
  ch_Channel :: Channel
  ch_Provider :: string
  ch_DeviceID :: string
  ch_IdempotencyKey :: string
  ch_HoldToken :: string
  ch_Market :: string
  ch_Cash :: "CashTender option"
  ch_Seller :: "Seller option"
  ch_ProviderInput :: "(string \<times> input_val) list"
  ch_TestMode :: bool
  ch_Caller :: string

record ChargeResult =
  cr_Verdict :: "Verdict option"
  cr_Payment :: "Payment option"
  cr_Provider :: "creationOutput option"
  cr_Indeterminate :: bool

definition no_charge :: ChargeResult where
  "no_charge = \<lparr>cr_Verdict = None, cr_Payment = None, cr_Provider = None, cr_Indeterminate = False\<rparr>"

definition positive_amount :: "string \<Rightarrow> bool" where
  "positive_amount v \<longleftrightarrow> (case ParseAmount v of Inl _ \<Rightarrow> False | Inr a \<Rightarrow> Amount_Sign a > 0)"

definition validateCharge :: "ChargeRequest \<Rightarrow> (lerr, unit) result" where
  "validateCharge req =
     (if blank (ch_DocumentType req) \<or> blank (ch_DocumentID req) \<or> blank (ch_IdempotencyKey req) \<or>
         \<not> Channel_Valid (ch_Channel req) \<or> blank (ch_Provider req) \<or>
         (ch_Channel req = ChannelCash) \<noteq> (ch_Provider req = ProviderCash) \<or>
         (ch_Channel req = ChannelTerminal \<and> blank (ch_DeviceID req)) \<or>
         \<not> positive_amount (ch_Amount req) \<or> \<not> positive_amount (ch_DocumentTotal req) \<or>
         \<not> ValidCurrency (ch_Currency req)
      then Inl (LedgerError CodeInvalidInput) else Inr ())"

definition new_payment_row :: "env \<Rightarrow> string \<Rightarrow> ChargeRequest \<Rightarrow> paymentRow" where
  "new_payment_row e org req =
     (let row = \<lparr>pr_ID = e_uuid e 0, pr_OrganizationID = org, pr_DocumentType = ch_DocumentType req,
           pr_DocumentID = ch_DocumentID req, pr_OrderRef = firstNonBlank [ch_OrderRef req, ch_DocumentID req],
           pr_Channel = ch_Channel req, pr_Provider = ch_Provider req, pr_ProviderRef = None,
           pr_SessionID = [], pr_DeviceID = ch_DeviceID req, pr_IdempotencyKey = ch_IdempotencyKey req,
           pr_Status = StatusPending, pr_Amount = ch_Amount req, pr_Currency = ch_Currency req,
           pr_DocumentTotal = strPtr (ch_DocumentTotal req), pr_AmountRefunded = ''0'', pr_Fee = None,
           pr_Net = None, pr_Method = [], pr_Installments = 0, pr_Card = None, pr_Cash = None,
           pr_Seller = ch_Seller req, pr_TestMode = ch_TestMode req, pr_StatusDetail = [],
           pr_Anomaly = ReasonNone, pr_AnomalyStatus = StatusOther [], pr_CancelledFrom = StatusOther [],
           pr_CreatedBy = ch_Caller req, pr_ExpiresAt = None, pr_LastCheckedAt = None, pr_PaidAt = None,
           pr_CreatedAt = e_now e, pr_UpdatedAt = e_now e\<rparr>
      in if ch_Channel req = ChannelCash
         then row\<lparr>pr_ProviderRef := Some (pr_ID row), pr_Status := StatusPaid, pr_Method := ''cash'',
                  pr_PaidAt := Some (e_now e), pr_Cash := ch_Cash req\<rparr>
         else row)"

text \<open>The transaction: the answer, and the row it created (\<open>None\<close> when it created nothing).\<close>

definition charge_tx :: "env \<Rightarrow> string \<Rightarrow> ChargeRequest \<Rightarrow> ldb \<Rightarrow>
    (lerr, ldb \<times> ChargeResult \<times> paymentRow option) result" where
  "charge_tx e org req db =
     (let ty = ch_DocumentType req; did = ch_DocumentID req; hold = activeHold db org ty did
      in case CheckCharge (map_option row_hold hold) (hashToken e (ch_HoldToken req)) (e_now e) of
           Inl _ \<Rightarrow> Inl (LedgerError CodeInPayment)
         | Inr _ \<Rightarrow>
             rbind (document e org ty did db) (\<lambda>doc.
             case CheckReplay (d_Payments doc) (d_Refunds doc) (ch_IdempotencyKey req) (ch_DocumentTotal req) of
               Inl _ \<Rightarrow> Inl (LedgerError CodeInvalidInput)
             | Inr (verdict, existing) \<Rightarrow>
                 if verdict \<noteq> VerdictNew then
                   Inr (db, no_charge\<lparr>cr_Verdict := Some verdict, cr_Payment := existing\<rparr>, None)
                 else
                   rbind (uncoded (MustAmount (ch_DocumentTotal req))) (\<lambda>tot.
                   rbind (uncoded (MustAmount (d_Paid doc))) (\<lambda>paid.
                   rbind (uncoded (MustAmount (ch_Amount req))) (\<lambda>amount.
                     if Amount_Cmp amount (tot - paid) > 0 then Inl (LedgerError CodeExceedsDue)
                     else
                       let row = new_payment_row e org req
                       in if Validate (row_payment row) \<noteq> [] then Inl (LedgerError CodeInvalidInput)
                          else rbind (create_payment row db) (\<lambda>db.
                               rbind (if pr_Status row = StatusPaid
                                      then settleDocument e org ty did (ch_DocumentTotal req) db else Inr db) (\<lambda>db.
                                 Inr (db, no_charge\<lparr>cr_Verdict := Some VerdictNew, cr_Payment := Some (row_payment row)\<rparr>,
                                      Some row))))))))"

section \<open>Talking to the provider\<close>

definition by_org_id :: "string \<Rightarrow> string \<Rightarrow> paymentRow \<Rightarrow> bool" where
  "by_org_id org pid r \<longleftrightarrow> pr_OrganizationID r = org \<and> pr_ID r = pid"

definition touch :: "env \<Rightarrow> string \<Rightarrow> string \<Rightarrow> string \<Rightarrow> ldb \<Rightarrow> (lerr, ldb) result" where
  "touch e org pid detail db =
     update_payments (by_org_id org pid)
       (\<lambda>r. r\<lparr>pr_StatusDetail := truncate_text detail 500, pr_UpdatedAt := e_now e\<rparr>) db"

definition markFailed :: "env \<Rightarrow> string \<Rightarrow> string \<Rightarrow> string \<Rightarrow> ldb \<Rightarrow> (lerr, ldb) result" where
  "markFailed e org pid detail db =
     update_payments (\<lambda>r. by_org_id org pid r \<and> pr_Status r = StatusPending)
       (\<lambda>r. r\<lparr>pr_Status := StatusFailed, pr_StatusDetail := truncate_text detail 500, pr_UpdatedAt := e_now e\<rparr>) db"

text \<open>A statement whose error the code drops (\<^verbatim>\<open>_ = ...\<close>): the database is unchanged then.\<close>

definition ignore_error :: "ldb \<Rightarrow> (lerr, ldb) result \<Rightarrow> ldb" where
  "ignore_error db r = (case r of Inl _ \<Rightarrow> db | Inr db' \<Rightarrow> db')"

definition create_query :: "string \<Rightarrow> ChargeRequest \<Rightarrow> paymentRow \<Rightarrow> pquery" where
  "create_query org req row =
     (let input = input_set ''idempotency_key'' (InStr (ch_IdempotencyKey req))
                    (input_set ''currency'' (InStr (ch_Currency req))
                    (input_set ''amount'' (InStr (ch_Amount req))
                    (input_set ''order_ref'' (InStr (pr_OrderRef row)) (ch_ProviderInput req))));
          terminal = (ch_Channel req = ChannelTerminal);
          input = (if terminal then input_set ''device_id'' (InStr (ch_DeviceID req)) input
                   else input_set ''channel'' (InStr (case ch_Channel req of
                          ChannelTerminal \<Rightarrow> ''terminal'' | ChannelOnline \<Rightarrow> ''online'' | ChannelQR \<Rightarrow> ''qr''
                        | ChannelLink \<Rightarrow> ''link'' | ChannelCash \<Rightarrow> ''cash'' | ChannelOther s \<Rightarrow> s)) input);
          input = (case ch_Seller req of None \<Rightarrow> input | Some s \<Rightarrow> input_set ''seller'' (InSeller s) input)
      in \<lparr>q_Org = org, q_Market = ch_Market req,
          q_Capability = (if terminal then CommercePaymentsTerminalCreate else CommercePaymentsSession),
          q_Input = input, q_Provider = ch_Provider req\<rparr>)"

text \<open>The refused creation: the pending row is marked failed and the answer carries its new state.\<close>

definition refuse_charge :: "env \<Rightarrow> string \<Rightarrow> paymentRow \<Rightarrow> ChargeResult \<Rightarrow> string \<Rightarrow> string \<Rightarrow> ldb \<Rightarrow>
    ldb \<times> ChargeResult \<times> lerr option" where
  "refuse_charge e org row res code0 msg db =
     (let code = (if code0 = [] then code_string CodeProvider else code0)
      in case markFailed e org (pr_ID row) (code @ '': '' @ msg) db of
           Inl err \<Rightarrow> (db, res, Some err)
         | Inr db \<Rightarrow>
             (db, res\<lparr>cr_Payment := (case Payment_get e org (pr_ID row) db of Inl _ \<Rightarrow> None | Inr p \<Rightarrow> Some p)\<rparr>,
              Some (LedgerError (code_of code))))"

definition creation_update :: "env \<Rightarrow> ChargeRequest \<Rightarrow> creationOutput \<Rightarrow> paymentRow \<Rightarrow> paymentRow" where
  "creation_update e req co r =
     (let ref = firstNonBlank [co_ProviderRef co]
      in r\<lparr>pr_SessionID := (if ch_Channel req \<noteq> ChannelTerminal then co_SessionID co else co_ProviderRef co),
           pr_UpdatedAt := e_now e, pr_TestMode := (co_TestMode co \<or> ch_TestMode req),
           pr_ProviderRef := (if ref \<noteq> [] then Some ref else pr_ProviderRef r),
           pr_DeviceID := (if co_DeviceID co \<noteq> [] then co_DeviceID co else pr_DeviceID r),
           pr_ExpiresAt := (case e_rfc3339 e (co_ExpiresAt co) of Some t \<Rightarrow> Some t | None \<Rightarrow> pr_ExpiresAt r)\<rparr>)"

text \<open>A payment the code reads and whose error it drops: the zero struct then.\<close>

definition zero_payment :: Payment where
  "zero_payment =
     \<lparr>p_ID = [], p_DocumentType = [], p_DocumentID = [], p_OrderRef = [], p_Channel = ChannelOther [],
      p_Provider = [], p_ProviderRef = [], p_SessionID = [], p_DeviceID = [], p_IdempotencyKey = [],
      p_Status = StatusOther [], p_CancelledFrom = StatusOther [], p_Amount = [], p_Currency = [],
      p_AmountRefunded = [], p_Fee = [], p_Net = [], p_Method = [], p_Installments = 0, p_Card = None,
      p_Cash = None, p_Seller = None, p_TestMode = False, p_HoldToken = [], p_Anomaly = None,
      p_PaidAt = None, p_CreatedAt = 0, p_UpdatedAt = 0\<rparr>"

definition payment_or_zero :: "env \<Rightarrow> string \<Rightarrow> string \<Rightarrow> ldb \<Rightarrow> Payment" where
  "payment_or_zero e org pid db = (case Payment_get e org pid db of Inl _ \<Rightarrow> zero_payment | Inr p \<Rightarrow> p)"

definition record_creation :: "env \<Rightarrow> string \<Rightarrow> ChargeRequest \<Rightarrow> paymentRow \<Rightarrow> creationOutput \<Rightarrow> ChargeResult \<Rightarrow> ldb \<Rightarrow>
    ldb \<times> ChargeResult \<times> lerr option" where
  "record_creation e org req row co res0 db =
     (let res = res0\<lparr>cr_Provider := Some co\<rparr>;
          status = (if co_Status co = StatusOther ''created'' \<or> \<not> Status_Valid (co_Status co) then StatusPending
                    else co_Status co);
          finish = (\<lambda>db. case Payment_get e org (pr_ID row) db of
                            Inl err \<Rightarrow> (db, res\<lparr>cr_Payment := None\<rparr>, Some err)
                          | Inr p \<Rightarrow> (db, res\<lparr>cr_Payment := Some p\<rparr>, None))
      in case update_payments (by_org_id org (pr_ID row)) (creation_update e req co) db of
           Inl err \<Rightarrow> (db, res, Some err)
         | Inr db \<Rightarrow>
             if status \<noteq> StatusPending then
               (case observe e org (pr_Provider row)
                       ((outcomeOf (payment_or_zero e org (pr_ID row) db))\<lparr>o_Status := status\<rparr>) SourcePoll db of
                  (db, _, Some err) \<Rightarrow> (db, res, Some err)
                | (db, _, None) \<Rightarrow> finish db)
             else finish db)"

definition sendToProvider :: "env \<Rightarrow> string \<Rightarrow> ChargeRequest \<Rightarrow> paymentRow \<Rightarrow> ldb \<Rightarrow>
    ldb \<times> ChargeResult \<times> lerr option" where
  "sendToProvider e org req row db =
     (let res = no_charge\<lparr>cr_Verdict := Some VerdictNew, cr_Payment := Some (row_payment row)\<rparr>
      in case e_providers e of
           None \<Rightarrow> (db, res, Some (LedgerError CodeUnavailable))
         | Some pv \<Rightarrow>
             (case ask_create pv (create_query org req row) of
                QueryError msg \<Rightarrow> refuse_charge e org row res [] msg db
              | NoResult \<Rightarrow> refuse_charge e org row res [] ''provider returned nothing'' db
              | ResultError code msg indeterminate \<Rightarrow>
                  if indeterminate then
                    (ignore_error db (touch e org (pr_ID row) (''indeterminate: '' @ msg) db),
                     res\<lparr>cr_Indeterminate := True\<rparr>, None)
                  else refuse_charge e org row res code msg db
              | Output co _ \<Rightarrow> record_creation e org req row co res db))"

definition StartCharge :: "env \<Rightarrow> string \<Rightarrow> ChargeRequest \<Rightarrow> ldb \<Rightarrow> ldb \<times> ChargeResult \<times> lerr option" where
  "StartCharge e org req db =
     (case validateCharge req of
        Inl err \<Rightarrow> (db, no_charge, Some err)
      | Inr _ \<Rightarrow>
          (case charge_tx e org req db of
             Inl err \<Rightarrow> (db, no_charge, Some err)
           | Inr (db, res, None) \<Rightarrow> (db, res, None)
           | Inr (db, res, Some row) \<Rightarrow>
               if ch_Channel req = ChannelCash
               then (publish e org row (outcomeOf (row_payment row)) SourceStaff db, res, None)
               else sendToProvider e org req row db))"

section \<open>Re-reading and cancelling\<close>

definition reference_input :: "Payment \<Rightarrow> (string \<times> input_val) list" where
  "reference_input p =
     (let input = [(''order_ref'', InStr (p_OrderRef p))];
          input = (if p_ProviderRef p \<noteq> [] then input_set ''provider_ref'' (InStr (p_ProviderRef p)) input else input)
      in if p_SessionID p \<noteq> [] then input_set ''session_id'' (InStr (p_SessionID p)) input else input)"

definition readStatus :: "env \<Rightarrow> string \<Rightarrow> Payment \<Rightarrow> (ledger_code \<times> string, Outcome) result" where
  "readStatus e org p =
     (case e_providers e of
        None \<Rightarrow> Inl (CodeUnavailable, ''no provider querier configured'')
      | Some pv \<Rightarrow>
          (case ask_status pv \<lparr>q_Org = org, q_Market = [], q_Capability = CommercePaymentsStatus,
                  q_Input = reference_input p, q_Provider = p_Provider p\<rparr> of
             QueryError msg \<Rightarrow> Inl (CodeProvider, msg)
           | NoResult \<Rightarrow> Inl (CodeProvider, ''no provider'')
           | ResultError _ msg _ \<Rightarrow> Inl (CodeProvider, msg)
           | Output oc err \<Rightarrow> if err then Inl (CodeProvider, ''invalid output'') else Inr oc))"

definition Refresh :: "env \<Rightarrow> string \<Rightarrow> string \<Rightarrow> Source \<Rightarrow> ldb \<Rightarrow> ldb \<times> Observation \<times> lerr option" where
  "Refresh e org paymentID source db =
     (case paymentRow_get e org paymentID db of
        Inl err \<Rightarrow> (db, no_observation, Some err)
      | Inr row \<Rightarrow>
          let p = row_payment row
          in if p_Provider p = ProviderCash then
               (db, no_observation\<lparr>ob_Payment := Some p, ob_Decision := Some Ignore,
                      ob_Reason := ReasonNoProviderState\<rparr>, None)
             else case readStatus e org p of
                    Inl (code, msg) \<Rightarrow>
                      (ignore_error db (update_payments (\<lambda>r. pr_ID r = pr_ID row)
                         (\<lambda>r. r\<lparr>pr_LastCheckedAt := Some (e_now e),
                                pr_StatusDetail := truncate_text (''status: '' @ code_string code @ '': '' @ msg) 500\<rparr>) db),
                       no_observation\<lparr>ob_Payment := Some p\<rparr>, Some (LedgerError code))
                  | Inr oc \<Rightarrow> observe e org (p_Provider p) oc source db)"

definition cancel_query :: "string \<Rightarrow> Payment \<Rightarrow> string \<Rightarrow> string \<Rightarrow> pquery" where
  "cancel_query org p key reason =
     (let input = input_set ''idempotency_key'' (InStr key) (input_set ''reason'' (InStr reason) (reference_input p));
          input = (if p_DeviceID p \<noteq> [] then input_set ''device_id'' (InStr (p_DeviceID p)) input else input)
      in \<lparr>q_Org = org, q_Market = [], q_Capability = CommercePaymentsCancel, q_Input = input,
          q_Provider = p_Provider p\<rparr>)"

text \<open>The write of a cancellation the provider accepted as in progress, from the status that was read.\<close>

definition mark_cancelling :: "env \<Rightarrow> paymentRow \<Rightarrow> ldb \<Rightarrow> (lerr, ldb) result" where
  "mark_cancelling e row db =
     (if pr_Status row \<noteq> StatusCancelling \<and> Transition (pr_Status row) StatusCancelling = Inr ()
      then update_payments (\<lambda>r. pr_ID r = pr_ID row \<and> pr_Status r = pr_Status row)
             (\<lambda>r. r\<lparr>pr_Status := StatusCancelling, pr_CancelledFrom := pr_Status row, pr_UpdatedAt := e_now e\<rparr>) db
      else Inr db)"

definition Cancel :: "env \<Rightarrow> string \<Rightarrow> string \<Rightarrow> string \<Rightarrow> string \<Rightarrow> ldb \<Rightarrow> ldb \<times> Observation \<times> lerr option" where
  "Cancel e org paymentID key reason db =
     (case paymentRow_get e org paymentID db of
        Inl err \<Rightarrow> (db, no_observation, Some err)
      | Inr row \<Rightarrow>
          let p = row_payment row; seen = no_observation\<lparr>ob_Payment := Some p\<rparr>
          in if blank key then (db, seen, Some (LedgerError CodeInvalidInput))
             else if \<not> Open (p_Status p) then (db, seen, Some (LedgerError CodeInvalidTransition))
             else case e_providers e of
               None \<Rightarrow> (db, seen, Some (LedgerError CodeUnavailable))
             | Some pv \<Rightarrow>
                 let (db, err) = (case ask_cancel pv (cancel_query org p key reason) of
                        Output status _ \<Rightarrow>
                          (if status = StatusCancelling then ignore_error db (mark_cancelling e row db) else db, None)
                      | _ \<Rightarrow> (db, Some (LedgerError CodeProvider)));
                     (db, obs, rerr) = Refresh e org paymentID SourcePoll db
                 in (db, obs, case err of Some x \<Rightarrow> Some x | None \<Rightarrow> rerr))"

end
