(* ===== verification/Ledger_Refund.thy ===== *)
theory Ledger_Refund
  imports Ledger_Charge
begin

text \<open>
  Refunds of the ledger (\<^verbatim>\<open>src/payments/ledger/refund.go\<close>). The transactions are \<open>refund_tx\<close> (creation),
  \<open>updateRefund\<close> (a provider's answer), \<open>applyRefunds_tx\<close> and \<open>settle_tx\<close>; the handlers compose them with
  the provider's answers.
\<close>

section \<open>Data\<close>

record RefundRequest =
  rq_PaymentID :: string
  rq_Amount :: string
  rq_Destination :: RefundDestination
  rq_IdempotencyKey :: string
  rq_Reason :: string
  rq_SourceType :: string
  rq_SourceID :: string
  rq_CreditNoteRequired :: bool
  rq_AdjustsTotal :: bool
  rq_RefundApplicationFee :: bool
  rq_Caller :: string

record RefundResult =
  rs_Refund :: "Refund option"
  rs_Payment :: "Payment option"
  rs_Replay :: bool
  rs_Instructions :: string
  rs_Indeterminate :: bool

definition no_refund_result :: RefundResult where
  "no_refund_result =
     \<lparr>rs_Refund = None, rs_Payment = None, rs_Replay = False, rs_Instructions = [], rs_Indeterminate = False\<rparr>"

record SettleRequest =
  sr_RefundID :: string
  sr_Status :: RefundStatus
  sr_CashSessionID :: string
  sr_CreditNoteID :: string

section \<open>Reading\<close>

definition refundsOf :: "ldb \<Rightarrow> string \<Rightarrow> string \<Rightarrow> Refund list" where
  "refundsOf db org paymentID = map row_refund (refund_rows db org [paymentID])"

definition find_refund :: "ldb \<Rightarrow> string \<Rightarrow> string \<Rightarrow> refundRow option" where
  "find_refund db org rid = find (\<lambda>r. rr_OrganizationID r = org \<and> rr_ID r = rid) (db_refunds db)"

definition refundResult :: "env \<Rightarrow> string \<Rightarrow> string \<Rightarrow> RefundResult \<Rightarrow> ldb \<Rightarrow> RefundResult \<times> lerr option" where
  "refundResult e org rid res db =
     (case find_refund db org rid of
        None \<Rightarrow> (res, Some InternalError)
      | Some r \<Rightarrow>
          let res = res\<lparr>rs_Refund := Some (row_refund r)\<rparr>
          in case Payment_get e org (rr_PaymentID r) db of
               Inl err \<Rightarrow> (res\<lparr>rs_Payment := None\<rparr>, Some err)
             | Inr p \<Rightarrow> (res\<lparr>rs_Payment := Some p\<rparr>, None))"

section \<open>Transactions\<close>

definition new_refund_row :: "env \<Rightarrow> string \<Rightarrow> paymentRow \<Rightarrow> RefundRequest \<Rightarrow> refundRow" where
  "new_refund_row e org row req =
     \<lparr>rr_ID = e_uuid e 0, rr_OrganizationID = org, rr_PaymentID = pr_ID row,
      rr_Destination = rq_Destination req,
      rr_Provider = (if rq_Destination req = RefundToOriginal then pr_Provider row else []),
      rr_ProviderRefundID = [], rr_Amount = norm_text (rq_Amount req), rr_Currency = pr_Currency row,
      rr_Status = RefundPending, rr_Reason = rq_Reason req, rr_IdempotencyKey = rq_IdempotencyKey req,
      rr_SourceType = rq_SourceType req, rr_SourceID = rq_SourceID req,
      rr_CreditNoteRequired = rq_CreditNoteRequired req,
      rr_RefundApplicationFee = rq_RefundApplicationFee req, rr_RecheckAttempts = 0,
      rr_NextRecheckAt = None, rr_NeedsReview = False, rr_AdjustsTotal = rq_AdjustsTotal req,
      rr_CreditNoteID = [], rr_CashSessionID = [], rr_Instructions = [], rr_CreatedBy = rq_Caller req,
      rr_SettledAt = None, rr_CreatedAt = e_now e, rr_UpdatedAt = e_now e\<rparr>"

definition next_refund :: "paymentRow \<Rightarrow> RefundRequest \<Rightarrow> Refund" where
  "next_refund row req =
     \<lparr>r_ID = [], r_PaymentID = pr_ID row, r_Destination = rq_Destination req, r_Provider = [],
      r_ProviderRefundID = [], r_Amount = rq_Amount req, r_Currency = pr_Currency row,
      r_Status = RefundOther [], r_Reason = [], r_IdempotencyKey = rq_IdempotencyKey req,
      r_SourceType = [], r_SourceID = [], r_CreditNoteRequired = False, r_CreditNoteID = [],
      r_AdjustsTotal = False, r_CashSessionID = [], r_NeedsReview = False, r_CreatedAt = 0,
      r_SettledAt = None\<rparr>"

datatype refund_tx_out =
    RefundReplayed Refund
  | RefundRecheck Refund refundRow
  | RefundCreated refundRow

text \<open>Result: the payment row that was read and what happened.\<close>

definition refund_tx :: "env \<Rightarrow> string \<Rightarrow> RefundRequest \<Rightarrow> ldb \<Rightarrow>
    (lerr, ldb \<times> paymentRow \<times> refund_tx_out) result" where
  "refund_tx e org req db =
     rbind (paymentRow_get e org (rq_PaymentID req) db) (\<lambda>row.
       let p = row_payment row
       in case CheckRefund p (refundsOf db org (pr_ID row)) (next_refund row req) of
            Inl ErrRefundExceeds \<Rightarrow> Inl (LedgerError CodeRefundExceeds)
          | Inl ErrIdempotencyConflict \<Rightarrow> Inl (LedgerError CodeIdempotency)
          | Inl _ \<Rightarrow> Inl (LedgerError CodeNotRefundable)
          | Inr (Some replay) \<Rightarrow>
              if r_Status replay = RefundPending \<and> r_Destination replay = RefundToOriginal then
                (case find_refund db org (r_ID replay) of
                   None \<Rightarrow> Inl InternalError
                 | Some r \<Rightarrow> Inr (db, row, RefundRecheck replay r))
              else Inr (db, row, RefundReplayed replay)
          | Inr None \<Rightarrow>
              if rq_Destination req = RefundToOriginal \<and> p_Provider p = ProviderCash
              then Inl (LedgerError CodeNotRefundable)
              else rbind (create_refund (new_refund_row e org row req) db) (\<lambda>db.
                     Inr (db, row, RefundCreated (new_refund_row e org row req))))"

definition updateRefund :: "env \<Rightarrow> string \<Rightarrow> string \<Rightarrow> RefundStatus \<Rightarrow> string \<Rightarrow> string \<Rightarrow> string \<Rightarrow> ldb \<Rightarrow>
    (lerr, ldb \<times> RefundStatus) result" where
  "updateRefund e org rid st providerID instructions reason db =
     (case find_refund db org rid of
        None \<Rightarrow> Inl InternalError
      | Some r \<Rightarrow>
          let cur = rr_Status r;
              moves = (st \<noteq> cur \<and> CanTransitionRefund cur st)
          in rbind (update_refunds (\<lambda>x. rr_ID x = rr_ID r \<and> (moves \<longrightarrow> rr_Status x = cur))
               (\<lambda>x. x\<lparr>rr_UpdatedAt := e_now e,
                      rr_Status := (if moves then st else rr_Status x),
                      rr_SettledAt := (if moves \<and> st = RefundSucceeded then Some (e_now e) else rr_SettledAt x),
                      rr_Reason := (if moves \<and> reason \<noteq> [] then reason else rr_Reason x),
                      rr_ProviderRefundID := (if providerID \<noteq> [] \<and> rr_ProviderRefundID r = [] then providerID
                                              else rr_ProviderRefundID x),
                      rr_Instructions := (if instructions \<noteq> [] then truncate_text instructions 1000
                                          else rr_Instructions x)\<rparr>) db)
             (\<lambda>db. Inr (db, if moves then st else cur)))"

text \<open>The new payment row when something changed.\<close>

definition applyRefunds_tx :: "env \<Rightarrow> string \<Rightarrow> string \<Rightarrow> ldb \<Rightarrow> (lerr, ldb \<times> paymentRow option) result" where
  "applyRefunds_tx e org paymentID db =
     rbind (paymentRow_get e org paymentID db) (\<lambda>row.
       let p = row_payment row
       in case ApplySucceededRefunds p (refundsOf db org (pr_ID row)) of
            Inl _ \<Rightarrow> Inl (LedgerError CodeRefundExceeds)
          | Inr p' \<Rightarrow>
              if p_Status p' \<noteq> p_Status p \<or> norm_text (pr_AmountRefunded row) \<noteq> p_AmountRefunded p' then
                rbind (update_payments (\<lambda>r. pr_ID r = pr_ID row)
                         (\<lambda>r. r\<lparr>pr_Status := p_Status p', pr_AmountRefunded := p_AmountRefunded p',
                                pr_UpdatedAt := e_now e\<rparr>) db) (\<lambda>db.
                  case find (\<lambda>r. pr_ID r = pr_ID row) (db_payments db) of
                    None \<Rightarrow> Inl InternalError
                  | Some stored \<Rightarrow> Inr (db, Some stored))
              else Inr (db, None))"

definition settle_tx :: "env \<Rightarrow> string \<Rightarrow> string \<Rightarrow> SettleRequest \<Rightarrow> ldb \<Rightarrow> (lerr, ldb \<times> string \<times> bool) result" where
  "settle_tx e org rid req db =
     (case find_refund db org rid of
        None \<Rightarrow> Inl (LedgerError CodeNotFound)
      | Some r \<Rightarrow>
          let cur = rr_Status r;
              moves = (sr_Status req \<noteq> RefundOther [] \<and> sr_Status req \<noteq> cur)
          in if moves \<and> \<not> CanTransitionRefund cur (sr_Status req) then Inl (LedgerError CodeInvalidTransition)
             else rbind (update_refunds (\<lambda>x. rr_ID x = rr_ID r)
               (\<lambda>x. x\<lparr>rr_UpdatedAt := e_now e,
                      rr_Status := (if moves then sr_Status req else rr_Status x),
                      rr_NeedsReview := (if moves then False else rr_NeedsReview x),
                      rr_SettledAt := (if moves \<and> sr_Status req = RefundSucceeded then Some (e_now e) else rr_SettledAt x),
                      rr_CashSessionID := (if sr_CashSessionID req \<noteq> [] then sr_CashSessionID req else rr_CashSessionID x),
                      rr_CreditNoteID := (if sr_CreditNoteID req \<noteq> [] then sr_CreditNoteID req else rr_CreditNoteID x)\<rparr>) db)
             (\<lambda>db. Inr (db, rr_PaymentID r, moves \<and> sr_Status req = RefundSucceeded)))"

section \<open>Handlers\<close>

definition applyRefunds :: "env \<Rightarrow> string \<Rightarrow> string \<Rightarrow> ldb \<Rightarrow> ldb \<times> lerr option" where
  "applyRefunds e org paymentID db =
     (case applyRefunds_tx e org paymentID db of
        Inl err \<Rightarrow> (db, Some err)
      | Inr (db, None) \<Rightarrow> (db, None)
      | Inr (db, Some stored) \<Rightarrow>
          (publish e org stored
             ((outcomeOf (row_payment stored))\<lparr>o_Kind := KindRefund, o_Amount := norm_text (pr_AmountRefunded stored)\<rparr>)
             SourceStaff db, None))"

text \<open>Recording an answer that is not an error.\<close>

definition record_refund_answer :: "env \<Rightarrow> string \<Rightarrow> paymentRow \<Rightarrow> refundRow \<Rightarrow> refundOutput \<Rightarrow> RefundResult \<Rightarrow> ldb \<Rightarrow>
    ldb \<times> RefundResult \<times> lerr option" where
  "record_refund_answer e org pay r out res db =
     (let st0 = (if RefundStatus_Valid (ro_Status out) then ro_Status out else RefundPending)
      in case updateRefund e org (rr_ID r) st0 (ro_RefundID out) (ro_Instructions out) [] db of
           Inl err \<Rightarrow> (db, res, Some err)
         | Inr (db, st) \<Rightarrow>
             let res = res\<lparr>rs_Instructions := ro_Instructions out\<rparr>;
                 (db, aerr) = (if st = RefundSucceeded then applyRefunds e org (pr_ID pay) db else (db, None))
             in case aerr of
                  Some err \<Rightarrow> (db, res, Some err)
                | None \<Rightarrow> (db, refundResult e org (rr_ID r) res db))"

definition refund_refused :: "env \<Rightarrow> string \<Rightarrow> refundRow \<Rightarrow> RefundResult \<Rightarrow> string \<Rightarrow> ldb \<Rightarrow>
    ldb \<times> RefundResult \<times> lerr option" where
  "refund_refused e org r res msg db =
     (case updateRefund e org (rr_ID r) RefundFailed [] [] (truncate_text msg 500) db of
        Inl err \<Rightarrow> (db, res, Some err)
      | Inr (db, st) \<Rightarrow>
          let res = res\<lparr>rs_Refund := map_option (\<lambda>x. x\<lparr>r_Status := st\<rparr>) (rs_Refund res)\<rparr>
          in if st = RefundFailed then (db, res, Some (LedgerError CodeProvider))
             else (db, refundResult e org (rr_ID r) res db))"

definition askRefund :: "env \<Rightarrow> string \<Rightarrow> paymentRow \<Rightarrow> refundRow \<Rightarrow> capability_key \<Rightarrow> (string \<times> input_val) list \<Rightarrow>
    bool \<Rightarrow> ldb \<Rightarrow> ldb \<times> RefundResult \<times> lerr option" where
  "askRefund e org pay r key input first db =
     (let res = no_refund_result\<lparr>rs_Refund := Some (row_refund r), rs_Payment := Some (row_payment pay)\<rparr>;
          failed = (\<lambda>indeterminate msg.
             if indeterminate \<or> \<not> first then
               (db, res\<lparr>rs_Indeterminate := True\<rparr>, if first then None else Some (LedgerError CodeProvider))
             else refund_refused e org r res msg db)
      in case e_providers e of
           None \<Rightarrow> (db, res, Some (LedgerError CodeUnavailable))
         | Some pv \<Rightarrow>
             (case ask_refund pv \<lparr>q_Org = org, q_Market = [], q_Capability = key, q_Input = input,
                     q_Provider = pr_Provider pay\<rparr> of
                QueryError msg \<Rightarrow> failed False msg
              | NoResult \<Rightarrow> failed False ''provider returned nothing''
              | ResultError _ msg indeterminate \<Rightarrow> failed indeterminate msg
              | Output out _ \<Rightarrow> record_refund_answer e org pay r out res db))"

definition refundAtProvider :: "env \<Rightarrow> string \<Rightarrow> paymentRow \<Rightarrow> refundRow \<Rightarrow> bool \<Rightarrow> ldb \<Rightarrow>
    ldb \<times> RefundResult \<times> lerr option" where
  "refundAtProvider e org pay r first db =
     (let p = row_payment pay;
          input = [(''provider_ref'', InStr (p_ProviderRef p)), (''amount'', InStr (rr_Amount r)),
                   (''currency'', InStr (rr_Currency r)), (''order_ref'', InStr (p_OrderRef p)),
                   (''reason'', InStr (rr_Reason r)), (''idempotency_key'', InStr (rr_IdempotencyKey r))];
          input = (case p_Seller p of
                     None \<Rightarrow> input
                   | Some s \<Rightarrow> input_set ''refund_application_fee'' (InBool (rr_RefundApplicationFee r))
                                 (input_set ''seller'' (InSeller s) input))
      in askRefund e org pay r CommercePaymentsRefund input first db)"

definition refundStatusAtProvider :: "env \<Rightarrow> string \<Rightarrow> paymentRow \<Rightarrow> refundRow \<Rightarrow> ldb \<Rightarrow>
    ldb \<times> RefundResult \<times> lerr option" where
  "refundStatusAtProvider e org pay r db =
     askRefund e org pay r CommercePaymentsRefundStatus
       [(''refund_id'', InStr (rr_ProviderRefundID r)), (''provider_ref'', InStr (p_ProviderRef (row_payment pay))),
        (''idempotency_key'', InStr (rr_IdempotencyKey r))] False db"

definition refundInFlight :: int where "refundInFlight = 60 * second_ns"

definition DefaultRefundRepostWindow :: int where "DefaultRefundRepostWindow = 12 * 3600 * second_ns"

definition refundBackoff :: "int \<Rightarrow> int" where
  "refundBackoff attempt =
     (if attempt \<ge> 6 then 3600 * second_ns else 60 * second_ns * 2 ^ nat attempt)"

definition repostWindow :: "env \<Rightarrow> string \<Rightarrow> int" where
  "repostWindow e provider =
     (case e_RefundRepostWindow e provider of
        Some w \<Rightarrow> if w > 0 then w
                  else if e_DefaultRefundRepostWindow e > 0 then e_DefaultRefundRepostWindow e
                  else DefaultRefundRepostWindow
      | None \<Rightarrow> if e_DefaultRefundRepostWindow e > 0 then e_DefaultRefundRepostWindow e
                else DefaultRefundRepostWindow)"

text \<open>The write that ends a recheck which left the refund pending: the next attempt, or the review.\<close>

definition recheck_write :: "env \<Rightarrow> refundRow \<Rightarrow> bool \<Rightarrow> ldb \<Rightarrow> (lerr, ldb) result" where
  "recheck_write e r expired db =
     update_refunds (\<lambda>x. rr_ID x = rr_ID r \<and> rr_Status x = RefundPending \<and> (expired \<longrightarrow> rr_ProviderRefundID x = []))
       (\<lambda>x. if expired then x\<lparr>rr_NeedsReview := True, rr_NextRecheckAt := None\<rparr>
            else x\<lparr>rr_RecheckAttempts := rr_RecheckAttempts r + 1,
                   rr_NextRecheckAt := Some (e_now e + refundBackoff (rr_RecheckAttempts r))\<rparr>) db"

definition review_anomaly :: "string \<Rightarrow> Payment \<Rightarrow> refundRow \<Rightarrow> LedgerAnomaly" where
  "review_anomaly org p r =
     \<lparr>an_Org = org, an_PaymentID = p_ID p, an_DocumentType = p_DocumentType p, an_DocumentID = p_DocumentID p,
      an_Provider = rr_Provider r, an_ProviderRef = p_ProviderRef p, an_OrderRef = p_OrderRef p,
      an_Reason = ReasonRefundNeedsReview, an_Stored = p_Status p, an_Observed = p_Status p,
      an_Amount = norm_text (rr_Amount r), an_Currency = rr_Currency r, an_Source = SourceReconcile,
      an_Resolved = False\<rparr>"

definition recheckRefund :: "env \<Rightarrow> string \<Rightarrow> paymentRow \<Rightarrow> refundRow \<Rightarrow> ldb \<Rightarrow> ldb \<times> RefundResult \<times> lerr option" where
  "recheckRefund e org pay r db =
     (let res0 = no_refund_result\<lparr>rs_Refund := Some (row_refund r), rs_Payment := Some (row_payment pay)\<rparr>
      in if rr_NeedsReview r \<or> rr_Status r \<noteq> RefundPending then (db, res0, None)
         else
           let expired = (rr_ProviderRefundID r = [] \<and> e_now e - rr_CreatedAt r > repostWindow e (rr_Provider r));
               (db, res, err) = (if rr_ProviderRefundID r \<noteq> [] then refundStatusAtProvider e org pay r db
                                 else if \<not> expired then refundAtProvider e org pay r False db
                                 else (db, res0, None))
           in if map_option r_Status (rs_Refund res) \<noteq> Some RefundPending then (db, res, err)
              else
                let hits = (\<exists>x\<in>set (db_refunds db). rr_ID x = rr_ID r \<and> rr_Status x = RefundPending \<and>
                              (expired \<longrightarrow> rr_ProviderRefundID x = []))
                in case recheck_write e r expired db of
                     Inl uerr \<Rightarrow> (db, res, Some uerr)
                   | Inr db \<Rightarrow>
                       if expired \<and> \<not> hits then (db, refundResult e org (rr_ID r) res db)
                       else if expired then
                         (raise e (review_anomaly org (row_payment pay) r) db,
                          res\<lparr>rs_Refund := map_option (\<lambda>x. x\<lparr>r_NeedsReview := True\<rparr>) (rs_Refund res)\<rparr>, err)
                       else (db, res, err))"

definition CreateRefund :: "env \<Rightarrow> string \<Rightarrow> RefundRequest \<Rightarrow> ldb \<Rightarrow> ldb \<times> RefundResult \<times> lerr option" where
  "CreateRefund e org req db =
     (case refund_tx e org req db of
        Inl err \<Rightarrow> (db, no_refund_result, Some err)
      | Inr (db, row, RefundReplayed replay) \<Rightarrow>
          (db, no_refund_result\<lparr>rs_Refund := Some replay, rs_Payment := Some (row_payment row), rs_Replay := True\<rparr>, None)
      | Inr (db, row, RefundRecheck replay r) \<Rightarrow>
          (let (db, out, rerr) = recheckRefund e org row r db;
               out = out\<lparr>rs_Replay := True\<rparr>
           in if ErrorCode rerr = code_string CodeProvider then (db, out, None) else (db, out, rerr))
      | Inr (db, row, RefundCreated r) \<Rightarrow>
          if rq_Destination req \<noteq> RefundToOriginal then
            (db, no_refund_result\<lparr>rs_Refund := Some (row_refund r), rs_Payment := Some (row_payment row)\<rparr>, None)
          else refundAtProvider e org row r True db)"

definition due_refunds :: "env \<Rightarrow> string \<Rightarrow> nat \<Rightarrow> ldb \<Rightarrow> refundRow list" where
  "due_refunds e org limit db =
     (let rows = sort_key rr_CreatedAt (filter (\<lambda>r.
            rr_OrganizationID r = org \<and> rr_Status r = RefundPending \<and> rr_Destination r = RefundToOriginal \<and>
            rr_Provider r \<noteq> [] \<and> \<not> rr_NeedsReview r \<and>
            (case rr_NextRecheckAt r of None \<Rightarrow> True | Some t \<Rightarrow> t \<le> e_now e) \<and>
            (rr_ProviderRefundID r \<noteq> [] \<or> rr_CreatedAt r < e_now e - refundInFlight)) (db_refunds db))
      in if limit > 0 then take limit rows else rows)"

fun recheck_all :: "env \<Rightarrow> string \<Rightarrow> refundRow list \<Rightarrow> ldb \<Rightarrow> ldb \<times> string list" where
  "recheck_all e org [] db = (db, [])"
| "recheck_all e org (r # rs) db =
     (let (db, err) = (case paymentRow_get e org (rr_PaymentID r) db of
             Inl err \<Rightarrow> (db, Some err)
           | Inr pay \<Rightarrow> (let (db, _, err) = recheckRefund e org pay r db in (db, err)));
          (db, errs) = recheck_all e org rs db
      in (db, (case err of None \<Rightarrow> errs | Some _ \<Rightarrow> rr_ID r # errs)))"

text \<open>The number of refunds looked at and the ids of those that failed.\<close>

definition recheckRefunds :: "env \<Rightarrow> string \<Rightarrow> nat \<Rightarrow> ldb \<Rightarrow> ldb \<times> nat \<times> string list" where
  "recheckRefunds e org limit db =
     (let rows = due_refunds e org limit db; (db, errs) = recheck_all e org rows db
      in (db, length rows, errs))"

definition SettleRefund :: "env \<Rightarrow> string \<Rightarrow> SettleRequest \<Rightarrow> ldb \<Rightarrow> ldb \<times> RefundResult \<times> lerr option" where
  "SettleRefund e org req db =
     (case e_uuid_parse e (TrimSpace (sr_RefundID req)) of
        None \<Rightarrow> (db, no_refund_result, Some (LedgerError CodeInvalidInput))
      | Some rid \<Rightarrow>
          (case settle_tx e org rid req db of
             Inl err \<Rightarrow> (db, no_refund_result, Some err)
           | Inr (db, paymentID, succeeded) \<Rightarrow>
               let (db, aerr) = (if succeeded then applyRefunds e org paymentID db else (db, None))
               in case aerr of
                    Some err \<Rightarrow> (db, no_refund_result, Some err)
                  | None \<Rightarrow> (db, refundResult e org rid no_refund_result db)))"

end
