(* ===== verification/Ledger_Reconcile.thy ===== *)
theory Ledger_Reconcile
  imports Ledger_Refund
begin

text \<open>
  The reconciliation job (\<^verbatim>\<open>src/payments/ledger/reconcile.go\<close>): leases and one run over an organization.

  A run makes many calls at different times. \<open>envs k\<close> is what its \<open>k\<close>-th call reads from outside (the
  clock, new uuids, the provider's answers); the run's local variables are the record \<open>run\<close>. The endless
  ticker loop \<^verbatim>\<open>Run\<close> and the logging of \<^verbatim>\<open>RunOnce\<close> are not modelled.
\<close>

section \<open>Configuration\<close>

record Reconciler =
  rc_MinAge :: int
  rc_StuckAfter :: int
  rc_Window :: int
  rc_Batch :: int
  rc_Lease :: int
  rc_Owner :: string

definition rc_defaults :: "env \<Rightarrow> Reconciler \<Rightarrow> Reconciler" where
  "rc_defaults e r =
     \<lparr>rc_MinAge = (if rc_MinAge r \<le> 0 then 30 * second_ns else rc_MinAge r),
      rc_StuckAfter = (if rc_StuckAfter r \<le> 0 then 1800 * second_ns else rc_StuckAfter r),
      rc_Window = (if rc_Window r \<le> 0 then 7200 * second_ns else rc_Window r),
      rc_Batch = (if rc_Batch r \<le> 0 then 200 else rc_Batch r),
      rc_Lease = (if rc_Lease r \<le> 0 then 300 * second_ns else rc_Lease r),
      rc_Owner = (if rc_Owner r = [] then e_uuid e 0 else rc_Owner r)\<rparr>"

definition openStatuses :: "Status list" where
  "openStatuses = [StatusPending, StatusRequiresAction, StatusAtDevice, StatusAuthorized, StatusCancelling]"

section \<open>Leases\<close>

text \<open>The first statement of \<^verbatim>\<open>claim\<close>, \<^verbatim>\<open>ON CONFLICT DO NOTHING\<close>.\<close>

definition ensure_lease :: "string \<Rightarrow> leaseRow list \<Rightarrow> leaseRow list" where
  "ensure_lease org leases =
     (if \<exists>x\<in>set leases. lr_OrganizationID x = org then leases
      else leases @ [\<lparr>lr_OrganizationID = org, lr_LockedBy = [], lr_LockedUntil = None, lr_LastRunAt = None,
                      lr_LastReport = None\<rparr>])"

definition claimable :: "Reconciler \<Rightarrow> string \<Rightarrow> int \<Rightarrow> leaseRow \<Rightarrow> bool" where
  "claimable r org now x \<longleftrightarrow>
     lr_OrganizationID x = org \<and>
     (case lr_LockedUntil x of None \<Rightarrow> True | Some t \<Rightarrow> t < now \<or> lr_LockedBy x = rc_Owner r)"

definition claim :: "Reconciler \<Rightarrow> env \<Rightarrow> string \<Rightarrow> ldb \<Rightarrow> ldb \<times> bool" where
  "claim r e org db =
     (let now = e_now e; leases = ensure_lease org (db_leases db);
          ok = (length (filter (claimable r org now) leases) = 1)
      in (db\<lparr>db_leases := update_where (claimable r org now)
               (\<lambda>x. x\<lparr>lr_LockedBy := rc_Owner r, lr_LockedUntil := Some (now + rc_Lease r)\<rparr>) leases\<rparr>, ok))"

definition own_lease :: "Reconciler \<Rightarrow> string \<Rightarrow> leaseRow \<Rightarrow> bool" where
  "own_lease r org x \<longleftrightarrow> lr_OrganizationID x = org \<and> lr_LockedBy x = rc_Owner r"

definition renew :: "Reconciler \<Rightarrow> env \<Rightarrow> string \<Rightarrow> ldb \<Rightarrow> ldb \<times> bool" where
  "renew r e org db =
     (db\<lparr>db_leases := update_where (own_lease r org)
           (\<lambda>x. x\<lparr>lr_LockedUntil := Some (e_now e + rc_Lease r)\<rparr>) (db_leases db)\<rparr>,
      length (filter (own_lease r org) (db_leases db)) = 1)"

definition release_lease :: "Reconciler \<Rightarrow> env \<Rightarrow> string \<Rightarrow> Report \<Rightarrow> ldb \<Rightarrow> ldb" where
  "release_lease r e org rep db =
     db\<lparr>db_leases := update_where (own_lease r org)
          (\<lambda>x. x\<lparr>lr_LockedUntil := None, lr_LastRunAt := Some (e_now e), lr_LastReport := Some rep\<rparr>)
          (db_leases db)\<rparr>"

section \<open>One run\<close>

definition new_report :: "string \<Rightarrow> Report" where
  "new_report org =
     \<lparr>rep_Org = org, rep_Refreshed = 0, rep_Applied = 0, rep_Cancelled = 0, rep_Stuck = 0, rep_Anomalies = 0,
      rep_Corrected = 0, rep_Listed = 0, rep_Orphans = 0, rep_Refunds = 0, rep_Errors = [], rep_Skipped = False\<rparr>"

record run =
  rn_k :: nat
  rn_db :: ldb
  rn_rep :: Report
  rn_renewed :: int
  rn_lost :: bool

definition note_errors :: "report_error list \<Rightarrow> run \<Rightarrow> run" where
  "note_errors errs st = st\<lparr>rn_rep := (rn_rep st)\<lparr>rep_Errors := rep_Errors (rn_rep st) @ errs\<rparr>\<rparr>"

definition note_error :: "lerr option \<Rightarrow> run \<Rightarrow> run" where
  "note_error err st = (case err of None \<Rightarrow> st | Some x \<Rightarrow> note_errors [CallFailed x] st)"

definition count_observation :: "Observation \<Rightarrow> run \<Rightarrow> run" where
  "count_observation ob st =
     (let rep = (rn_rep st)\<lparr>rep_Refreshed := rep_Refreshed (rn_rep st) + 1\<rparr>;
          rep = (if ob_Corrected ob then rep\<lparr>rep_Corrected := rep_Corrected rep + 1\<rparr>
                 else if ob_Decision ob = Some Apply then rep\<lparr>rep_Applied := rep_Applied rep + 1\<rparr>
                 else if ob_Decision ob = Some Anomaly then rep\<lparr>rep_Anomalies := rep_Anomalies rep + 1\<rparr>
                 else rep)
      in st\<lparr>rn_rep := rep\<rparr>)"

definition alive :: "Reconciler \<Rightarrow> (nat \<Rightarrow> env) \<Rightarrow> string \<Rightarrow> run \<Rightarrow> run \<times> bool" where
  "alive r envs org st =
     (if rn_lost st then (st, False)
      else
        let e = envs (rn_k st); st = st\<lparr>rn_k := rn_k st + 1\<rparr>
        in if e_now e - rn_renewed st \<ge> rc_Lease r div 2 then
             (let (db, ok) = renew r e org (rn_db st)
              in if \<not> ok then (note_errors [LeaseLost] (st\<lparr>rn_db := db, rn_lost := True\<rparr>), False)
                 else (st\<lparr>rn_db := db, rn_renewed := e_now e\<rparr>, True))
           else (st, True))"

text \<open>Steps 1 and 3: re-read every row; the flag is False when the run has to stop.\<close>

fun refresh_rows :: "Reconciler \<Rightarrow> (nat \<Rightarrow> env) \<Rightarrow> string \<Rightarrow> paymentRow list \<Rightarrow> run \<Rightarrow> run \<times> bool" where
  "refresh_rows r envs org [] st = (st, True)"
| "refresh_rows r envs org (p # ps) st =
     (let (st, ok) = alive r envs org st
      in if \<not> ok then (st, False)
         else
           let (db, ob, err) = Refresh (envs (rn_k st)) org (pr_ID p) SourceReconcile (rn_db st);
               st = note_error err (st\<lparr>rn_db := db, rn_k := rn_k st + 1\<rparr>);
               st = (if err = None then count_observation ob st else st)
           in refresh_rows r envs org ps st)"

definition stuck_anomaly :: "string \<Rightarrow> paymentRow \<Rightarrow> Status \<Rightarrow> LedgerAnomaly" where
  "stuck_anomaly org p observed =
     \<lparr>an_Org = org, an_PaymentID = pr_ID p, an_DocumentType = pr_DocumentType p, an_DocumentID = pr_DocumentID p,
      an_Provider = pr_Provider p, an_ProviderRef = deref (pr_ProviderRef p), an_OrderRef = pr_OrderRef p,
      an_Reason = ReasonStuck, an_Stored = pr_Status p, an_Observed = observed,
      an_Amount = norm_text (pr_Amount p), an_Currency = pr_Currency p, an_Source = SourceReconcile,
      an_Resolved = False\<rparr>"

definition expire_key :: "paymentRow \<Rightarrow> string" where
  "expire_key p = ''reconcile-expire:'' @ pr_ID p"

text \<open>Step 2: cancel what is past its expiry and raise what stays open.\<close>

fun cancel_rows :: "Reconciler \<Rightarrow> (nat \<Rightarrow> env) \<Rightarrow> string \<Rightarrow> paymentRow list \<Rightarrow> run \<Rightarrow> run \<times> bool" where
  "cancel_rows r envs org [] st = (st, True)"
| "cancel_rows r envs org (p # ps) st =
     (let (st, ok) = alive r envs org st
      in if \<not> ok then (st, False)
         else
           let e = envs (rn_k st);
               (db, ob, err) = Cancel e org (pr_ID p) (expire_key p) ''expired'' (rn_db st);
               st = note_error err (st\<lparr>rn_db := db, rn_k := rn_k st + 1,
                      rn_rep := (rn_rep st)\<lparr>rep_Cancelled := rep_Cancelled (rn_rep st) + 1\<rparr>\<rparr>);
               st = (case ob_Payment ob of
                       None \<Rightarrow> st
                     | Some q \<Rightarrow>
                         if Open (p_Status q) then
                           st\<lparr>rn_rep := (rn_rep st)\<lparr>rep_Stuck := rep_Stuck (rn_rep st) + 1\<rparr>,
                              rn_db := raise e (stuck_anomaly org p (p_Status q)) (rn_db st)\<rparr>
                         else st)
           in cancel_rows r envs org ps st)"

fun record_page :: "(nat \<Rightarrow> env) \<Rightarrow> string \<Rightarrow> string \<Rightarrow> Outcome list \<Rightarrow> run \<Rightarrow> run" where
  "record_page envs org provider [] st = st"
| "record_page envs org provider (oc # ocs) st =
     (let (db, ob, err) = observe (envs (rn_k st)) org provider oc SourceReconcile (rn_db st);
          rep = (rn_rep st)\<lparr>rep_Listed := rep_Listed (rn_rep st) + 1\<rparr>;
          rep = (if err \<noteq> None then rep\<lparr>rep_Errors := rep_Errors rep @ [ListingFailed provider]\<rparr>
                 else if ob_Orphan ob then rep\<lparr>rep_Orphans := rep_Orphans rep + 1\<rparr>
                 else if ob_Corrected ob then rep\<lparr>rep_Corrected := rep_Corrected rep + 1\<rparr>
                 else if ob_Decision ob = Some Apply \<and> \<not> ob_Duplicate ob then rep\<lparr>rep_Applied := rep_Applied rep + 1\<rparr>
                 else if ob_Decision ob = Some Anomaly \<and> \<not> ob_Duplicate ob then rep\<lparr>rep_Anomalies := rep_Anomalies rep + 1\<rparr>
                 else rep)
      in record_page envs org provider ocs (st\<lparr>rn_db := db, rn_rep := rep, rn_k := rn_k st + 1\<rparr>))"

text \<open>The pages of one provider, at most \<open>pages\<close> of them (50 in the code). \<^verbatim>\<open>ErrNoProvider\<close> is the answer
  \<open>QueryError []\<close>: the provider is simply not listed.\<close>

fun list_pages :: "Reconciler \<Rightarrow> (nat \<Rightarrow> env) \<Rightarrow> providers \<Rightarrow> string \<Rightarrow> string \<Rightarrow> int \<Rightarrow> nat \<Rightarrow> string \<Rightarrow> run \<Rightarrow> run" where
  "list_pages r envs pv org provider now 0 cursor st = st"
| "list_pages r envs pv org provider now (Suc pages) cursor st =
     (let (st, ok) = alive r envs org st
      in if \<not> ok then st
         else
           let e = envs (rn_k st);
               input = [(''from'', InStr (e_format_rfc3339 e (now - rc_Window r))),
                        (''to'', InStr (e_format_rfc3339 e now)), (''limit'', InInt (rc_Batch r))];
               input = (if cursor \<noteq> [] then input_set ''cursor'' (InStr cursor) input else input)
           in case ask_list pv \<lparr>q_Org = org, q_Market = [], q_Capability = CommercePaymentsReconcile,
                      q_Input = input, q_Provider = provider\<rparr> of
                QueryError msg \<Rightarrow> if msg = [] then st else note_errors [ListingFailed provider] st
              | NoResult \<Rightarrow> note_errors [ListingFailed provider] st
              | ResultError _ _ _ \<Rightarrow> note_errors [ListingFailed provider] st
              | Output page err \<Rightarrow>
                  if err then note_errors [ListingFailed provider] st
                  else
                    let st = record_page envs org provider (po_Payments page) st
                    in if po_NextCursor page = [] \<or> po_NextCursor page = cursor then st
                       else list_pages r envs pv org provider now pages (po_NextCursor page) st)"

definition listProvider :: "Reconciler \<Rightarrow> (nat \<Rightarrow> env) \<Rightarrow> string \<Rightarrow> string \<Rightarrow> int \<Rightarrow> run \<Rightarrow> run" where
  "listProvider r envs org provider now st =
     (case e_providers (envs (rn_k st)) of
        None \<Rightarrow> st
      | Some pv \<Rightarrow> list_pages r envs pv org provider now 50 [] st)"

fun list_providers :: "Reconciler \<Rightarrow> (nat \<Rightarrow> env) \<Rightarrow> string \<Rightarrow> int \<Rightarrow> string list \<Rightarrow> run \<Rightarrow> run \<times> bool" where
  "list_providers r envs org now [] st = (st, True)"
| "list_providers r envs org now (prov # provs) st =
     (let (st, ok) = alive r envs org st
      in if \<not> ok then (st, False) else list_providers r envs org now provs (listProvider r envs org prov now st))"

text \<open>The rows the steps select.\<close>

definition batch :: "Reconciler \<Rightarrow> 'a list \<Rightarrow> 'a list" where
  "batch r rows = take (nat (rc_Batch r)) rows"

definition open_rows :: "Reconciler \<Rightarrow> string \<Rightarrow> int \<Rightarrow> ldb \<Rightarrow> paymentRow list" where
  "open_rows r org now db =
     batch r (sort_key pr_CreatedAt (filter (\<lambda>p.
       pr_OrganizationID p = org \<and> pr_Status p \<in> set openStatuses \<and> pr_Provider p \<noteq> ProviderCash \<and>
       (case pr_LastCheckedAt p of None \<Rightarrow> True | Some t \<Rightarrow> t < now - rc_MinAge r)) (db_payments db)))"

definition stale_rows :: "Reconciler \<Rightarrow> string \<Rightarrow> int \<Rightarrow> ldb \<Rightarrow> paymentRow list" where
  "stale_rows r org now db =
     batch r (sort_key pr_CreatedAt (filter (\<lambda>p.
       pr_OrganizationID p = org \<and> pr_Status p \<in> set openStatuses \<and> pr_Provider p \<noteq> ProviderCash \<and>
       (case pr_ExpiresAt p of Some t \<Rightarrow> t < now | None \<Rightarrow> pr_CreatedAt p < now - rc_StuckAfter r)) (db_payments db)))"

definition flagged_rows :: "Reconciler \<Rightarrow> string \<Rightarrow> ldb \<Rightarrow> paymentRow list" where
  "flagged_rows r org db =
     batch r (sort_key pr_UpdatedAt (filter (\<lambda>p.
       pr_OrganizationID p = org \<and> pr_Anomaly p \<noteq> ReasonNone \<and> pr_Provider p \<noteq> ProviderCash) (db_payments db)))"

definition org_providers :: "string \<Rightarrow> ldb \<Rightarrow> string list" where
  "org_providers org db =
     remdups (map pr_Provider (filter (\<lambda>p. pr_OrganizationID p = org \<and> pr_Provider p \<noteq> ProviderCash) (db_payments db)))"

text \<open>The five steps; each list is read from the database when its step starts, and the run stops when
  the lease is lost.\<close>

definition run_steps :: "Reconciler \<Rightarrow> (nat \<Rightarrow> env) \<Rightarrow> string \<Rightarrow> int \<Rightarrow> run \<Rightarrow> run" where
  "run_steps r envs org now st =
     (let (st, ok1) = refresh_rows r envs org (open_rows r org now (rn_db st)) st
      in if \<not> ok1 then st else
      let (st, ok2) = cancel_rows r envs org (stale_rows r org now (rn_db st)) st
      in if \<not> ok2 then st else
      let (st, ok3) = refresh_rows r envs org (flagged_rows r org (rn_db st)) st
      in if \<not> ok3 then st else
      let (st, ok4) = list_providers r envs org now (org_providers org (rn_db st)) st
      in if \<not> ok4 then st else
      let (st, ok5) = alive r envs org st
      in if \<not> ok5 then st else
      let (db, n, errs) = recheckRefunds (envs (rn_k st)) org (nat (rc_Batch r)) (rn_db st);
          st = st\<lparr>rn_db := db, rn_k := rn_k st + 1,
                  rn_rep := (rn_rep st)\<lparr>rep_Refunds := rep_Refunds (rn_rep st) + n\<rparr>\<rparr>
      in if errs = [] then st else note_errors [RefundsFailed errs] st)"

definition RunOrg :: "Reconciler \<Rightarrow> (nat \<Rightarrow> env) \<Rightarrow> string \<Rightarrow> ldb \<Rightarrow> ldb \<times> Report" where
  "RunOrg r0 envs org db =
     (let r = rc_defaults (envs 0) r0;
          (db, ok) = claim r (envs 0) org db
      in if \<not> ok then (db, (new_report org)\<lparr>rep_Skipped := True\<rparr>)
         else
           let now = e_now (envs 1);
               st = run_steps r envs org now \<lparr>rn_k = 2, rn_db = db, rn_rep = new_report org, rn_renewed = now, rn_lost = False\<rparr>
           in (release_lease r (envs (rn_k st)) org (rn_rep st) (rn_db st), rn_rep st))"

definition Orgs :: "Reconciler \<Rightarrow> env \<Rightarrow> ldb \<Rightarrow> string list" where
  "Orgs r0 e db =
     (let r = rc_defaults e r0
      in remdups (map pr_OrganizationID (filter (\<lambda>p.
           pr_Status p \<in> set openStatuses \<or> pr_Anomaly p \<noteq> ReasonNone \<or> pr_UpdatedAt p > e_now e - rc_Window r)
           (db_payments db))))"

end
