(* ===== verification/Ledger_Steps.thy ===== *)
theory Ledger_Steps
  imports Ledger_Reconcile "HOL-Library.Multiset"
begin

text \<open>
  The ledger as a state machine: every transaction and every single statement of the handlers is one
  step, and a history is a sequence of steps of any number of callers. The handlers are shown to be
  sequences of steps, so an invariant of the steps holds between any two transactions of any
  interleaving.

  \<open>evolves\<close> says what a history can do to a row that exists: it is never deleted, a payment keeps its
  document, key, provider, amount and currency, a refund keeps its payment and amount and moves along
  the refund table, an event never changes, and a finished hold never becomes active again.
\<close>

section \<open>Growing tables\<close>

definition grows :: "('a \<Rightarrow> 'a \<Rightarrow> bool) \<Rightarrow> 'a list \<Rightarrow> 'a list \<Rightarrow> bool" where
  "grows R xs ys \<longleftrightarrow> length xs \<le> length ys \<and> (\<forall>i<length xs. R (xs ! i) (ys ! i))"

lemma grows_refl: "reflp R \<Longrightarrow> grows R xs xs"
  by (auto simp: grows_def reflp_def)

lemma grows_trans: "transp R \<Longrightarrow> grows R xs ys \<Longrightarrow> grows R ys zs \<Longrightarrow> grows R xs zs"
  unfolding grows_def transp_def by (meson less_le_trans order_trans)

lemma grows_append: "reflp R \<Longrightarrow> grows R xs (xs @ ys)"
  by (auto simp: grows_def reflp_def nth_append)

lemma grows_update_where:
  "reflp R \<Longrightarrow> (\<And>x. x \<in> set xs \<Longrightarrow> p x \<Longrightarrow> R x (f x)) \<Longrightarrow> grows R xs (update_where p f xs)"
  by (auto simp: grows_def reflp_def update_where_def)

lemma grows_mem: "grows R xs ys \<Longrightarrow> x \<in> set xs \<Longrightarrow> \<exists>y\<in>set ys. R x y"
  by (auto simp: grows_def in_set_conv_nth) (metis less_le_trans nth_mem)

definition pay_core where
  "pay_core r = (pr_ID r, pr_OrganizationID r, pr_DocumentType r, pr_DocumentID r, pr_Channel r, pr_Provider r,
                 pr_IdempotencyKey r, pr_Amount r, pr_Currency r, pr_DocumentTotal r)"

definition refund_core where
  "refund_core r = (rr_ID r, rr_OrganizationID r, rr_PaymentID r, rr_Destination r, rr_Provider r, rr_Amount r,
                    rr_Currency r, rr_IdempotencyKey r, rr_AdjustsTotal r)"

definition hold_core where
  "hold_core r = (hw_ID r, hold_document r, hw_TokenHash r, hw_Holder r)"

definition pay_keeps :: "paymentRow \<Rightarrow> paymentRow \<Rightarrow> bool" where
  "pay_keeps a b \<longleftrightarrow> pay_core a = pay_core b"

definition refund_keeps :: "refundRow \<Rightarrow> refundRow \<Rightarrow> bool" where
  "refund_keeps a b \<longleftrightarrow> refund_core a = refund_core b \<and> refund_table.moves_to\<^sup>*\<^sup>* (rr_Status a) (rr_Status b)"

definition hold_keeps :: "holdRow \<Rightarrow> holdRow \<Rightarrow> bool" where
  "hold_keeps a b \<longleftrightarrow> hold_core a = hold_core b \<and> (hw_Status a = hw_Status b \<or> hw_Status a = HoldActive)"

lemma keeps_preorder:
  "reflp pay_keeps" "transp pay_keeps" "reflp refund_keeps" "transp refund_keeps" "reflp hold_keeps" "transp hold_keeps"
  by (auto simp: reflp_def transp_def pay_keeps_def refund_keeps_def hold_keeps_def intro: rtranclp_trans)

lemma transp_eq: "transp ((=) :: 'a \<Rightarrow> 'a \<Rightarrow> bool)"
  by (simp add: transp_def)

definition evolves :: "ldb \<Rightarrow> ldb \<Rightarrow> bool" where
  "evolves db db' \<longleftrightarrow>
     grows pay_keeps (db_payments db) (db_payments db') \<and> grows refund_keeps (db_refunds db) (db_refunds db') \<and>
     grows (=) (db_events db) (db_events db') \<and> grows hold_keeps (db_holds db) (db_holds db')"

lemma evolves_refl: "evolves db db"
  using keeps_preorder by (simp add: evolves_def grows_refl reflp_def)

lemma evolves_trans: "evolves a b \<Longrightarrow> evolves b c \<Longrightarrow> evolves a c"
  unfolding evolves_def
  by (intro conjI; elim conjE)
     (blast intro: grows_trans[OF keeps_preorder(2)] grows_trans[OF keeps_preorder(4)]
        grows_trans[OF keeps_preorder(6)] grows_trans[OF transp_eq])+

section \<open>Table operations make progress\<close>

definition tables_ok :: "ldb \<Rightarrow> bool" where
  "tables_ok db \<longleftrightarrow>
     payments_ok (db_payments db) \<and> events_ok (db_events db) \<and> refunds_ok (db_refunds db) \<and> holds_ok (db_holds db)"

text \<open>From a database that satisfies its constraints to one that does, evolving its rows.\<close>

definition progress :: "ldb \<Rightarrow> ldb \<Rightarrow> bool" where
  "progress db db' \<longleftrightarrow> (tables_ok db \<longrightarrow> tables_ok db' \<and> evolves db db')"

lemma progress_refl: "progress db db"
  by (simp add: progress_def evolves_refl)

lemma progress_trans: "progress a b \<Longrightarrow> progress b c \<Longrightarrow> progress a c"
  unfolding progress_def using evolves_trans by blast

lemma grows_same: "grows pay_keeps ps ps" "grows refund_keeps rs rs" "grows hold_keeps hs hs" "grows (=) es es"
  using keeps_preorder by (simp_all add: grows_refl reflp_def)

lemma progress_update_payments:
  assumes "update_payments p f db = Inr db'" and "\<And>r. pay_core (f r) = pay_core r"
  shows "progress db db'"
  using assms grows_same grows_update_where[OF keeps_preorder(1)]
  by (auto simp: progress_def evolves_def row_simps pay_keeps_def tables_ok_def)

lemma progress_create_payment: "create_payment row db = Inr db' \<Longrightarrow> progress db db'"
  using grows_same grows_append[OF keeps_preorder(1)] by (auto simp: progress_def evolves_def row_simps tables_ok_def)

lemma progress_update_refunds:
  assumes "update_refunds p f db = Inr db'"
    and "\<And>r. refund_core (f r) = refund_core r"
    and "\<And>r. tables_ok db \<Longrightarrow> r \<in> set (db_refunds db) \<Longrightarrow> p r \<Longrightarrow>
           rr_Status (f r) = rr_Status r \<or> CanTransitionRefund (rr_Status r) (rr_Status (f r))"
  shows "progress db db'"
proof -
  have "refund_keeps r (f r)" if r: "tables_ok db" "r \<in> set (db_refunds db)" "p r" for r
  proof -
    have "refund_table.moves_to\<^sup>*\<^sup>* (rr_Status r) (rr_Status (f r))"
      using assms(3)[OF r] by (auto simp: CanTransitionRefund_def refund_table.moves_to_def)
    then show ?thesis using assms(2)[of r] by (simp add: refund_keeps_def)
  qed
  then show ?thesis
    using assms(1) grows_same grows_update_where[OF keeps_preorder(3)]
    by (auto simp: progress_def evolves_def row_simps tables_ok_def)
qed

lemma progress_create_refund: "create_refund row db = Inr db' \<Longrightarrow> progress db db'"
  using grows_same grows_append[OF keeps_preorder(3)] by (auto simp: progress_def evolves_def row_simps tables_ok_def)

lemma progress_update_holds:
  assumes "update_holds p f db = Inr db'" and "\<And>r. hold_core (f r) = hold_core r"
    and "\<And>r. tables_ok db \<Longrightarrow> r \<in> set (db_holds db) \<Longrightarrow> p r \<Longrightarrow> hw_Status (f r) = hw_Status r \<or> hw_Status r = HoldActive"
  shows "progress db db'"
proof -
  have "hold_keeps r (f r)" if "tables_ok db" "r \<in> set (db_holds db)" "p r" for r
    using assms(2)[of r] assms(3)[OF that] by (auto simp: hold_keeps_def)
  then show ?thesis
    using assms(1) grows_same grows_update_where[OF keeps_preorder(5)]
    by (auto simp: progress_def evolves_def row_simps tables_ok_def)
qed

lemma progress_create_hold: "create_hold row db = Inr db' \<Longrightarrow> progress db db'"
  using grows_same grows_append[OF keeps_preorder(5)] by (auto simp: progress_def evolves_def row_simps tables_ok_def)

lemma progress_insertEvent: "insertEvent ev db = Inr (db', dup) \<Longrightarrow> progress db db'"
  using grows_same grows_append[of "(=)"]
  by (auto simp: progress_def evolves_def reflp_def tables_ok_def dest!: insertEvent_iff)

lemma progress_frame [simp]:
  "progress db (db'\<lparr>db_log := x\<rparr>) = progress db db'" "progress db (db'\<lparr>db_leases := y\<rparr>) = progress db db'"
  by (simp_all add: progress_def evolves_def tables_ok_def)

lemma hold_by_id:
  assumes "tables_ok db" and "a \<in> set (db_holds db)" and "b \<in> set (db_holds db)" and "hw_ID a = hw_ID b"
  shows "a = b"
  using assms by (auto simp: tables_ok_def holds_ok_def distinct_map dest: inj_onD)

lemma payment_by_id:
  assumes "tables_ok db" and "a \<in> set (db_payments db)" and "b \<in> set (db_payments db)" and "pr_ID a = pr_ID b"
  shows "a = b"
  using assms by (auto simp: tables_ok_def payments_ok_def distinct_map dest: inj_onD)

lemma refund_by_id:
  assumes "tables_ok db" and "a \<in> set (db_refunds db)" and "b \<in> set (db_refunds db)" and "rr_ID a = rr_ID b"
  shows "a = b"
  using assms by (auto simp: tables_ok_def refunds_ok_def distinct_map dest: inj_onD)

section \<open>Transactions make progress\<close>

lemma progress_AcquireHold:
  assumes "AcquireHold e org req caller db = Inr (db', res)"
  shows "progress db db'"
proof -
  let ?cur = "activeHold db org (hr_DocumentType req) (hr_DocumentID req)"
  have renewed: "progress db d" if "update_holds (\<lambda>r. hw_ID r = i) (\<lambda>r. r\<lparr>hw_ExpiresAt := x, hw_UpdatedAt := y\<rparr>) db = Inr d" for i x y d
    using that by (rule progress_update_holds) (simp_all add: hold_core_def hold_document_def)
  have expired: "progress db d"
    if "?cur = Some c" "update_holds (\<lambda>r. hw_ID r = hw_ID c) (\<lambda>r. r\<lparr>hw_Status := HoldExpired, hw_UpdatedAt := y\<rparr>) db = Inr d" for c y d
    using that(2) activeHold_Some[OF that(1)] hold_by_id
    by (intro progress_update_holds[OF that(2)]) (auto simp: hold_core_def hold_document_def)
  show ?thesis
    using assms unfolding AcquireHold_def Let_def
    by (auto simp: rbind_Inr_iff split: if_splits sum.splits option.splits
        intro: renewed expired progress_create_hold progress_trans)
qed

lemma progress_ReleaseHold:
  assumes "ReleaseHold e org docType docID token force db = Inr db'"
  shows "progress db db'"
proof (cases "activeHold db org docType docID")
  case None
  then show ?thesis using assms by (simp add: ReleaseHold_def progress_refl)
next
  case (Some c)
  then obtain h where "update_holds (\<lambda>r. hw_ID r = hw_ID c) (\<lambda>r. r\<lparr>hw_Status := h, hw_UpdatedAt := e_now e\<rparr>) db = Inr db'"
    using assms by (auto simp: ReleaseHold_def split: sum.splits option.splits)
  then show ?thesis
    using activeHold_Some[OF Some] hold_by_id
    by (elim progress_update_holds) (auto simp: hold_core_def hold_document_def)
qed

lemma progress_settleDocument:
  assumes "settleDocument e org ty did tot db = Inr db'"
  shows "progress db db'"
proof (cases "db' = db")
  case False
  let ?p = "\<lambda>r. hw_OrganizationID r = org \<and> hw_DocumentType r = ty \<and> hw_DocumentID r = did \<and> hw_Status r = HoldActive"
  have "update_holds ?p (\<lambda>r. r\<lparr>hw_Status := HoldConsumed, hw_UpdatedAt := e_now e\<rparr>) db = Inr db'"
    using assms False by (auto simp: settleDocument_def elim!: rbindE split: if_splits)
  then show ?thesis by (rule progress_update_holds) (simp_all add: hold_core_def hold_document_def)
qed (simp add: progress_refl)

lemma progress_charge_tx: "charge_tx e org req db = Inr (db', res, row) \<Longrightarrow> progress db db'"
  unfolding charge_tx_def Let_def
  by (auto simp: progress_refl elim!: rbindE split: if_splits sum.splits prod.splits
      dest!: progress_create_payment progress_settleDocument) (blast intro: progress_trans)

lemma progress_queueRefundRecheck: "queueRefundRecheck org pid now db = Inr db' \<Longrightarrow> progress db db'"
  unfolding queueRefundRecheck_def by (erule progress_update_refunds) (simp_all add: refund_core_def)

lemma progress_record_event: "record_event e ev p oc d c db = Inr (db', dup) \<Longrightarrow> progress db db'"
  unfolding record_event_def
  by (auto elim!: rbindE split: prod.splits if_splits dest!: progress_insertEvent) (blast intro: progress_trans)

lemma stamp_core [simp]: "pay_core (stamp e r) = pay_core r"
  by (simp add: stamp_def pay_core_def)

lemma applyOutcome_core: "applyOutcome e row oc = Inr upd \<Longrightarrow> pay_core (upd r) = pay_core r"
  unfolding applyOutcome_def by (auto elim!: rbindE simp: pay_core_def)

text \<open>The two optional statements at the end of the transaction.\<close>

lemma recheck_part:
  "(if applied then rbind x (\<lambda>a. rbind y (\<lambda>b. if Amount_Cmp a b > 0 then queueRefundRecheck org pid now db else Inr db))
    else Inr db) = Inr db' \<Longrightarrow> db' = db \<or> queueRefundRecheck org pid now db = Inr db'"
  by (auto elim!: rbindE split: if_splits)

lemma settle_part:
  "rbind (if b then settleDocument e org ty did tot db else Inr db) (\<lambda>db. Inr (db, res)) = Inr (db', res') \<Longrightarrow>
     db' = db \<or> settleDocument e org ty did tot db = Inr db'"
  by (auto elim!: rbindE split: if_splits)

text \<open>What the transaction on a known payment does, step by step.\<close>

lemma observe_knownE:
  assumes "observe_known e org provider oc source row db = Inr (db', res)"
    and "ObserveOutcome (row_payment row) oc = (decision, reason)"
  obtains (duplicate) db1 corrected ev where
      "record_event e ev (row_payment row) oc decision False db = Inr (db1, True)" "\<not> corrected"
      "update_payments (\<lambda>r. pr_ID r = pr_ID row) (stamp e) db1 = Inr db'"
      "er_OrganizationID ev = org" "er_Provider ev = provider" "er_EventID ev = DedupeEventID oc"
    | (recorded) db1 db2 db3 dup corrected applied upd upd' ev stored where
      "corrected \<longleftrightarrow> decision = Anomaly \<and> source = SourceReconcile \<and> pr_Anomaly row = reason \<and>
         pr_AnomalyStatus row = o_Status oc \<and> \<not> moneyMismatch reason"
      "applied \<longleftrightarrow> decision = Apply \<or> corrected"
      "record_event e ev (row_payment row) oc decision corrected db = Inr (db1, dup)" "dup \<longrightarrow> corrected"
      "(if applied then applyOutcome e row oc else Inr (\<lambda>r. r)) = Inr upd"
      "upd' = (if corrected then (\<lambda>r. (upd r)\<lparr>pr_Anomaly := ReasonNone, pr_AnomalyStatus := StatusOther []\<rparr>)
                else if applied then upd
                else if decision = Anomaly then (\<lambda>r. r\<lparr>pr_Anomaly := reason, pr_AnomalyStatus := o_Status oc\<rparr>)
                else (\<lambda>r. r))"
      "update_payments (\<lambda>r. pr_ID r = pr_ID row) (\<lambda>r. upd' (stamp e r)) db1 = Inr db2"
      "find (\<lambda>r. pr_ID r = pr_ID row) (db_payments db2) = Some stored"
      "db3 = db2 \<or> queueRefundRecheck org (pr_ID stored) (e_now e) db2 = Inr db3"
      "db' = db3 \<or> settleDocument e org (pr_DocumentType row) (pr_DocumentID row) (normPtr (pr_DocumentTotal row)) db3 = Inr db'"
      "er_OrganizationID ev = org" "er_Provider ev = provider" "er_PaymentID ev = Some (pr_ID row)"
      "er_EventID ev = (if corrected then DedupeEventID oc @ ''|corrected'' else DedupeEventID oc)"
      "er_Decision ev = (if corrected then Corrected else Decided decision)"
proof -
  define corrected where "corrected \<longleftrightarrow> decision = Anomaly \<and> source = SourceReconcile \<and> pr_Anomaly row = reason \<and>
    pr_AnomalyStatus row = o_Status oc \<and> \<not> moneyMismatch reason"
  define applied where "applied \<longleftrightarrow> decision = Apply \<or> corrected"
  define ev0 where "ev0 = (observe_event e org provider oc source)\<lparr>er_PaymentID := Some (pr_ID row),
    er_Decision := Decided decision, er_Reason := reason\<rparr>"
  define ev where "ev = (if corrected then ev0\<lparr>er_Decision := Corrected, er_EventID := er_EventID ev0 @ ''|corrected''\<rparr> else ev0)"
  have ev: "er_OrganizationID ev = org" "er_Provider ev = provider" "er_PaymentID ev = Some (pr_ID row)"
    "er_EventID ev = (if corrected then DedupeEventID oc @ ''|corrected'' else DedupeEventID oc)"
    "er_Decision ev = (if corrected then Corrected else Decided decision)"
    by (simp_all add: ev_def ev0_def observe_event_def)
  note run = assms(1)[unfolded observe_known_def Let_def assms(2) prod.case,
      folded corrected_def, folded applied_def, folded ev0_def, folded ev_def]
  from run obtain db1 dup where rec: "record_event e ev (row_payment row) oc decision corrected db = Inr (db1, dup)"
    by (auto elim!: rbindE)
  note run = run[unfolded rec rbind_simps prod.case]
  show thesis
  proof (cases "dup \<and> \<not> corrected")
    case True
    then have "update_payments (\<lambda>r. pr_ID r = pr_ID row) (stamp e) db1 = Inr db'"
      using run by (auto elim!: rbindE)
    then show ?thesis using duplicate[of ev db1 corrected] rec True ev by simp
  next
    case False
    from run[unfolded if_not_P[OF False]] obtain upd where
      upd: "(if applied then applyOutcome e row oc else Inr (\<lambda>r. r)) = Inr upd" by (elim rbindE)
    note run2 = run[unfolded if_not_P[OF False] upd rbind_simps]
    define upd' where "upd' = (if corrected then (\<lambda>r. (upd r)\<lparr>pr_Anomaly := ReasonNone, pr_AnomalyStatus := StatusOther []\<rparr>)
      else if applied then upd
      else if decision = Anomaly then (\<lambda>r. r\<lparr>pr_Anomaly := reason, pr_AnomalyStatus := o_Status oc\<rparr>) else (\<lambda>r. r))"
    from run2[folded upd'_def] obtain db2 where
      db2: "update_payments (\<lambda>r. pr_ID r = pr_ID row) (\<lambda>r. upd' (stamp e r)) db1 = Inr db2" by (elim rbindE)
    note run3 = run2[folded upd'_def, unfolded db2 rbind_simps]
    from run3 obtain stored where st: "find (\<lambda>r. pr_ID r = pr_ID row) (db_payments db2) = Some stored"
      by (auto split: option.splits)
    note run4 = run3[unfolded st option.case]
    obtain db3 where db3: "db3 = db2 \<or> queueRefundRecheck org (pr_ID stored) (e_now e) db2 = Inr db3"
      and fin: "db' = db3 \<or> settleDocument e org (pr_DocumentType row) (pr_DocumentID row)
        (normPtr (pr_DocumentTotal row)) db3 = Inr db'"
      by (rule rbindE[OF run4]) (drule recheck_part, drule settle_part, blast)
    show ?thesis
      by (rule recorded[OF corrected_def applied_def rec _ upd upd'_def db2 st db3 fin ev]) (use False in blast)
  qed
qed

lemma progress_observe_known:
  assumes "observe_known e org provider oc source row db = Inr (db', res)"
  shows "progress db db'"
proof -
  obtain decision reason where dr: "ObserveOutcome (row_payment row) oc = (decision, reason)" by fastforce
  from assms dr show ?thesis
  proof (cases rule: observe_knownE)
    case (duplicate db1 corrected ev)
    then show ?thesis
      using progress_record_event[OF duplicate(1)] progress_update_payments[OF duplicate(3)] progress_trans by simp
  next
    case (recorded db1 db2 db3 dup corrected applied upd upd' ev stored)
    have "pay_core (upd r) = pay_core r" for r
      using recorded(5) applyOutcome_core by (auto split: if_splits)
    then have "pay_core (upd' (stamp e r)) = pay_core r" for r
      unfolding recorded(6) by (simp add: pay_core_def stamp_def)
    then have "progress db1 db2" by (rule progress_update_payments[OF recorded(7)])
    moreover have "progress db2 db3"
      using recorded(9) progress_queueRefundRecheck progress_refl by blast
    moreover have "progress db3 db'"
      using recorded(10) progress_settleDocument progress_refl by blast
    ultimately show ?thesis using progress_record_event[OF recorded(3)] progress_trans by blast
  qed
qed

lemma progress_observe_tx: "observe_tx e org provider oc source db = Inr (db', res) \<Longrightarrow> progress db db'"
  unfolding observe_tx_def
  by (auto split: option.splits if_splits elim!: rbindE dest: progress_observe_known progress_insertEvent)

lemma progress_refund_tx: "refund_tx e org req db = Inr (db', x) \<Longrightarrow> progress db db'"
  unfolding refund_tx_def Let_def
  by (auto simp: progress_refl elim!: rbindE split: sum.splits option.splits if_splits pay_error.splits
      dest: progress_create_refund)

lemma find_refund_Some:
  "find_refund db org rid = Some r \<Longrightarrow> r \<in> set (db_refunds db) \<and> rr_OrganizationID r = org \<and> rr_ID r = rid"
  by (auto simp: find_refund_def dest!: find_Some_in)

lemma rbind_pair: "rbind u (\<lambda>db. Inr (db, y)) = Inr (db', x) \<Longrightarrow> u = Inr db'"
  by (auto elim!: rbindE)

lemma progress_updateRefund:
  assumes "updateRefund e org rid st pid ins rsn db = Inr (db', fin)"
  shows "progress db db'"
proof -
  obtain r where r: "find_refund db org rid = Some r" using assms by (auto simp: updateRefund_def split: option.splits)
  note rid = find_refund_Some[OF r]
  define moves where "moves \<longleftrightarrow> st \<noteq> rr_Status r \<and> CanTransitionRefund (rr_Status r) st"
  note run = rbind_pair[OF assms[unfolded updateRefund_def r option.case Let_def, folded moves_def]]
  show ?thesis
    by (rule progress_update_refunds[OF run]) (auto simp: refund_core_def moves_def)
qed

lemma progress_applyRefunds_tx: "applyRefunds_tx e org pid db = Inr (db', x) \<Longrightarrow> progress db db'"
  unfolding applyRefunds_tx_def Let_def
  by (auto simp: progress_refl pay_core_def elim!: rbindE split: sum.splits if_splits option.splits
      dest!: progress_update_payments)

lemma progress_settle_tx:
  assumes "settle_tx e org rid req db = Inr (db', x)"
  shows "progress db db'"
proof -
  obtain r where r: "find_refund db org rid = Some r" using assms by (auto simp: settle_tx_def split: option.splits)
  note rid = find_refund_Some[OF r]
  define moves where "moves \<longleftrightarrow> sr_Status req \<noteq> RefundOther [] \<and> sr_Status req \<noteq> rr_Status r"
  have can: "moves \<longrightarrow> CanTransitionRefund (rr_Status r) (sr_Status req)"
    using assms unfolding settle_tx_def r by (auto simp: Let_def moves_def split: if_splits)
  then have no: "\<not> (moves \<and> \<not> CanTransitionRefund (rr_Status r) (sr_Status req))" by blast
  note run = assms[unfolded settle_tx_def r option.case Let_def, folded moves_def, unfolded if_not_P[OF no]]
  have same: "x = r" if "tables_ok db" "x \<in> set (db_refunds db)" "rr_ID x = rr_ID r" for x
    using refund_by_id that rid by blast
  show ?thesis
    by (rule progress_update_refunds[OF rbind_pair[OF run]])
       (use can same in \<open>auto simp: refund_core_def\<close>)
qed

lemma progress_recheck_write: "recheck_write e r expired db = Inr db' \<Longrightarrow> progress db db'"
  unfolding recheck_write_def by (erule progress_update_refunds) (simp_all add: refund_core_def)

section \<open>The state machine\<close>

inductive ledger_step :: "ldb \<Rightarrow> ldb \<Rightarrow> bool" where
  acquire: "AcquireHold e org hreq caller db = Inr (db', hres) \<Longrightarrow> ledger_step db db'"
| release: "ReleaseHold e org ty did token force db = Inr db' \<Longrightarrow> ledger_step db db'"
| charge: "validateCharge req = Inr () \<Longrightarrow> charge_tx e org req db = Inr (db', cres, row) \<Longrightarrow> ledger_step db db'"
| touched: "touch e org pid detail db = Inr db' \<Longrightarrow> ledger_step db db'"
| failed: "markFailed e org pid detail db = Inr db' \<Longrightarrow> ledger_step db db'"
| created: "update_payments (by_org_id org pid) (creation_update e req co) db = Inr db' \<Longrightarrow> ledger_step db db'"
| checked: "update_payments (\<lambda>r. pr_ID r = pid) (\<lambda>r. r\<lparr>pr_LastCheckedAt := t, pr_StatusDetail := d\<rparr>) db = Inr db' \<Longrightarrow>
    ledger_step db db'"
| cancelling: "mark_cancelling e prow db = Inr db' \<Longrightarrow> ledger_step db db'"
| observed: "validOutcome oc = Inr () \<Longrightarrow> observe_tx e org provider oc source db = Inr (db', ores) \<Longrightarrow> ledger_step db db'"
| refund: "refund_tx e org rreq db = Inr (db', rout) \<Longrightarrow> ledger_step db db'"
| refund_answer: "updateRefund e org rid st prid ins rsn db = Inr (db', fin) \<Longrightarrow> ledger_step db db'"
| refunds_applied: "applyRefunds_tx e org pid db = Inr (db', stored) \<Longrightarrow> ledger_step db db'"
| settled: "settle_tx e org rid sreq db = Inr (db', sres) \<Longrightarrow> ledger_step db db'"
| rechecked: "recheck_write e rrow expired db = Inr db' \<Longrightarrow> ledger_step db db'"
| leased: "ledger_step db (db\<lparr>db_leases := ls\<rparr>)"
| announced: "ledger_step db (db\<lparr>db_log := lg\<rparr>)"

definition ledger_reachable :: "ldb \<Rightarrow> bool" where
  "ledger_reachable db \<longleftrightarrow> ledger_step\<^sup>*\<^sup>* empty_db db"

lemma progress_step: "ledger_step db db' \<Longrightarrow> progress db db'"
proof (induction rule: ledger_step.induct)
  case (cancelling e prow db db')
  then show ?case
    by (auto simp: mark_cancelling_def progress_refl pay_core_def split: if_splits dest!: progress_update_payments)
qed (auto dest: progress_AcquireHold progress_ReleaseHold progress_charge_tx progress_observe_tx progress_refund_tx
      progress_updateRefund progress_applyRefunds_tx progress_settle_tx progress_recheck_write
      simp: touch_def markFailed_def pay_core_def creation_update_def Let_def progress_refl
      dest!: progress_update_payments)

lemma progress_steps: "ledger_step\<^sup>*\<^sup>* db db' \<Longrightarrow> progress db db'"
  by (induction rule: rtranclp_induct) (auto intro: progress_refl progress_trans progress_step)

lemma reachable_tables_ok: "ledger_reachable db \<Longrightarrow> tables_ok db"
  using progress_steps[of empty_db db]
  by (auto simp: ledger_reachable_def progress_def tables_ok_def empty_db_def payments_ok_def events_ok_def
      refunds_ok_def holds_ok_def)

lemma reachable_evolves: "ledger_reachable db \<Longrightarrow> ledger_step\<^sup>*\<^sup>* db db' \<Longrightarrow> evolves db db'"
  using progress_steps reachable_tables_ok unfolding progress_def by blast

lemma reachable_steps: "ledger_reachable db \<Longrightarrow> ledger_step\<^sup>*\<^sup>* db db' \<Longrightarrow> ledger_reachable db'"
  unfolding ledger_reachable_def by (rule rtranclp_trans)

section \<open>Handlers are sequences of steps\<close>

abbreviation runs :: "ldb \<Rightarrow> ldb \<Rightarrow> bool" where
  "runs \<equiv> ledger_step\<^sup>*\<^sup>*"

lemma runs_refl: "runs db db"
  by simp

lemma runs_step: "runs a db \<Longrightarrow> ledger_step db db' \<Longrightarrow> runs a db'"
  by (rule rtranclp.rtrancl_into_rtrancl)

lemma runs_log: "runs a db \<Longrightarrow> runs a (db\<lparr>db_log := lg\<rparr>)"
  using runs_step announced by blast

lemma runs_publish: "runs a db \<Longrightarrow> runs a (publish e org row oc source db)"
  by (simp add: publish_def Let_def runs_log)

lemma runs_raise: "runs a db \<Longrightarrow> runs a (raise e x db)"
proof -
  assume "runs a db"
  then have "runs a (db\<lparr>db_log := db_log db @ [SinkAnomaly x]\<rparr>)" by (rule runs_log)
  with \<open>runs a db\<close> show ?thesis unfolding raise_def Let_def by (auto intro: runs_log)
qed

lemma runs_ignore_error:
  "runs a db \<Longrightarrow> (\<And>db'. r = Inr db' \<Longrightarrow> ledger_step db db') \<Longrightarrow> runs a (ignore_error db r)"
  by (auto simp: ignore_error_def split: sum.splits intro: runs_step)

lemma runs_observe: "runs a db \<Longrightarrow> runs a (fst (observe e org provider oc source db))"
proof -
  assume a: "runs a db"
  define oc' where "oc' = (if o_Kind oc = KindOther [] then oc\<lparr>o_Kind := KindPayment\<rparr> else oc)"
  have v: "validOutcome oc' = validOutcome oc" by (auto simp: oc'_def validOutcome_def)
  show ?thesis
  proof (cases "validOutcome oc")
    case (Inr u)
    show ?thesis
    proof (cases "observe_tx e org provider oc' source db")
      case (Inr p)
      obtain db1 res where p: "p = (db1, res)" by (cases p)
      have "ledger_step db db1" using Inr p v \<open>validOutcome oc = Inr u\<close> by (auto intro: observed)
      then have 1: "runs a db1" using a by (rule_tac runs_step)
      then have 2: "runs a (case or_anomaly res of Some x \<Rightarrow> raise e x db1 | None \<Rightarrow> db1)"
        by (auto split: option.splits intro: runs_raise)
      show ?thesis
        using \<open>validOutcome oc = Inr u\<close> Inr p runs_publish[OF 2] 2
        by (auto simp: observe_def Let_def oc'_def[symmetric] split: option.splits)
    qed (use a \<open>validOutcome oc = Inr u\<close> in \<open>simp add: observe_def Let_def oc'_def[symmetric]\<close>)
  qed (use a in \<open>simp add: observe_def\<close>)
qed

lemma runs_Ledger_Observe: "runs a db \<Longrightarrow> runs a (fst (Ledger_Observe e org caller provider oc source db))"
  using runs_observe[of a db] by (auto simp: Ledger_Observe_def Let_def split: option.splits bool.splits)

lemma runs_refuse: "runs a db \<Longrightarrow> runs a (fst (refuse_charge e org row res code msg db))"
  by (auto simp: refuse_charge_def Let_def split: sum.splits intro: runs_step failed)

lemma runs_record_creation: "runs a db \<Longrightarrow> runs a (fst (record_creation e org req row co res db))"
proof -
  assume a: "runs a db"
  let ?u = "update_payments (by_org_id org (pr_ID row)) (creation_update e req co) db"
  have fin: "fst (case Payment_get e org i d of Inl err \<Rightarrow> (d, r, Some err) | Inr p \<Rightarrow> (d, f p, None)) = d" for i d r f
    by (auto split: sum.splits)
  show ?thesis
  proof (cases ?u)
    case (Inr db1)
    then have 1: "runs a db1" using a created runs_step by blast
    show ?thesis using Inr 1 runs_observe[OF 1]
      by (auto simp: record_creation_def Let_def fin split: prod.splits option.splits)
         (metis fst_conv)+
  qed (use a in \<open>simp add: record_creation_def Let_def\<close>)
qed

lemma runs_sendToProvider: "runs a db \<Longrightarrow> runs a (fst (sendToProvider e org req row db))"
  by (auto simp: sendToProvider_def Let_def split: option.splits answer.splits
      intro: runs_refuse runs_record_creation runs_ignore_error touched)

lemma runs_StartCharge: "runs a db \<Longrightarrow> runs a (fst (StartCharge e org req db))"
  by (auto simp: StartCharge_def split: sum.splits option.splits
      intro: runs_publish runs_sendToProvider runs_step charge)

lemma runs_Refresh: "runs a db \<Longrightarrow> runs a (fst (Refresh e org pid source db))"
  by (auto simp: Refresh_def Let_def split: sum.splits intro: runs_observe runs_ignore_error checked)

lemma runs_Cancel: "runs a db \<Longrightarrow> runs a (fst (Cancel e org pid key reason db))"
proof -
  assume a: "runs a db"
  have "runs a (ignore_error db (mark_cancelling e row db))" for row
    using a by (auto intro: runs_ignore_error cancelling)
  then have "runs a (fst (Refresh e org pid SourcePoll (ignore_error db (mark_cancelling e row db))))"
    "runs a (fst (Refresh e org pid SourcePoll db))" for row
    using a by (auto intro: runs_Refresh)
  then show ?thesis using a
    by (auto simp: Cancel_def Let_def split: sum.splits option.splits answer.splits prod.splits)
qed

lemma runs_applyRefunds: "runs a db \<Longrightarrow> runs a (fst (applyRefunds e org pid db))"
  by (auto simp: applyRefunds_def split: sum.splits option.splits intro: runs_publish runs_step refunds_applied)

lemma runs_record_refund_answer: "runs a db \<Longrightarrow> runs a (fst (record_refund_answer e org pay r out res db))"
proof -
  assume a: "runs a db"
  define st0 where "st0 = (if RefundStatus_Valid (ro_Status out) then ro_Status out else RefundPending)"
  show ?thesis
  proof (cases "updateRefund e org (rr_ID r) st0 (ro_RefundID out) (ro_Instructions out) [] db")
    case (Inr p)
    obtain db1 st where p: "p = (db1, st)" by (cases p)
    have 1: "runs a db1" using a Inr p runs_step refund_answer by blast
    then have "runs a (fst (if st = RefundSucceeded then applyRefunds e org (pr_ID pay) db1 else (db1, None)))"
      using runs_applyRefunds by simp
    then show ?thesis using Inr p
      by (auto simp: record_refund_answer_def Let_def st0_def[symmetric] split: prod.splits option.splits)
  qed (use a in \<open>simp add: record_refund_answer_def Let_def st0_def[symmetric]\<close>)
qed

lemma runs_refund_refused: "runs a db \<Longrightarrow> runs a (fst (refund_refused e org r res msg db))"
  by (auto simp: refund_refused_def Let_def split: sum.splits intro: runs_step refund_answer)

lemma runs_askRefund: "runs a db \<Longrightarrow> runs a (fst (askRefund e org pay r key input first db))"
  by (auto simp: askRefund_def Let_def split: option.splits answer.splits
      intro: runs_refund_refused runs_record_refund_answer)

lemma runs_recheckRefund: "runs a db \<Longrightarrow> runs a (fst (recheckRefund e org pay r db))"
proof -
  assume a: "runs a db"
  define res0 where "res0 = no_refund_result\<lparr>rs_Refund := Some (row_refund r), rs_Payment := Some (row_payment pay)\<rparr>"
  define expired where "expired \<longleftrightarrow> rr_ProviderRefundID r = [] \<and> e_now e - rr_CreatedAt r > repostWindow e (rr_Provider r)"
  define asked where "asked = (if rr_ProviderRefundID r \<noteq> [] then refundStatusAtProvider e org pay r db
    else if \<not> expired then refundAtProvider e org pay r False db else (db, res0, None))"
  obtain db1 res err where asked1: "asked = (db1, res, err)" by (cases asked) auto
  have "runs a (fst asked)"
    using a runs_askRefund by (simp add: asked_def refundStatusAtProvider_def refundAtProvider_def Let_def)
  then have 1: "runs a db1" by (simp add: asked1)
  then have 2: "recheck_write e r expired db1 = Inr db2 \<Longrightarrow> runs a db2" for db2
    using rechecked runs_step by blast
  show ?thesis
  proof (cases "rr_NeedsReview r \<or> rr_Status r \<noteq> RefundPending")
    case True
    then show ?thesis using a by (simp add: recheckRefund_def Let_def)
  next
    case False
    then have "recheckRefund e org pay r db =
        (if map_option r_Status (rs_Refund res) \<noteq> Some RefundPending then (db1, res, err)
         else let hits = (\<exists>x\<in>set (db_refunds db1). rr_ID x = rr_ID r \<and> rr_Status x = RefundPending \<and>
                              (expired \<longrightarrow> rr_ProviderRefundID x = []))
              in case recheck_write e r expired db1 of
                   Inl uerr \<Rightarrow> (db1, res, Some uerr)
                 | Inr db \<Rightarrow> if expired \<and> \<not> hits then (db, refundResult e org (rr_ID r) res db)
                     else if expired then (raise e (review_anomaly org (row_payment pay) r) db,
                          res\<lparr>rs_Refund := map_option (\<lambda>x. x\<lparr>r_NeedsReview := True\<rparr>) (rs_Refund res)\<rparr>, err)
                     else (db, res, err))"
      unfolding recheckRefund_def Let_def res0_def[symmetric] expired_def[symmetric] asked_def[symmetric] asked1 by simp
    then show ?thesis using 1 2 by (auto simp: Let_def split: sum.splits intro: runs_raise)
  qed
qed

lemma runs_CreateRefund: "runs a db \<Longrightarrow> runs a (fst (CreateRefund e org req db))"
proof -
  assume a: "runs a db"
  have tx: "refund_tx e org req db = Inr (db1, x) \<Longrightarrow> runs a db1" for db1 x
    using a refund runs_step by blast
  have re: "refund_tx e org req db = Inr (db1, row, RefundRecheck rp r) \<Longrightarrow>
      recheckRefund e org row r db1 = (d, y) \<Longrightarrow> runs a d" for db1 row rp r d y
    using runs_recheckRefund[OF tx] by (metis fst_conv)
  show ?thesis using a tx re runs_askRefund[OF tx]
    by (auto simp: CreateRefund_def Let_def refundAtProvider_def split: sum.splits refund_tx_out.splits prod.splits)
qed

lemma runs_recheck_all: "runs a db \<Longrightarrow> runs a (fst (recheck_all e org rs db))"
proof (induction rs arbitrary: db)
  case (Cons r rs)
  have "runs a (fst (recheck_all e org rs (fst (recheckRefund e org pay r db))))" for pay
    using Cons runs_recheckRefund by blast
  then show ?case using Cons
    by (auto simp: Let_def split: sum.splits prod.splits) (metis fst_conv)+
qed simp

lemma runs_recheckRefunds: "runs a db \<Longrightarrow> runs a (fst (recheckRefunds e org limit db))"
  using runs_recheck_all by (auto simp: recheckRefunds_def Let_def split: prod.splits) (metis fst_conv)

lemma runs_SettleRefund: "runs a db \<Longrightarrow> runs a (fst (SettleRefund e org req db))"
proof -
  assume a: "runs a db"
  have tx: "settle_tx e org rid req db = Inr (db1, x) \<Longrightarrow> runs a db1" for rid db1 x
    using a settled runs_step by blast
  show ?thesis using a tx runs_applyRefunds[OF tx]
    by (auto simp: SettleRefund_def Let_def split: option.splits sum.splits prod.splits) (metis fst_conv)+
qed

text \<open>One reconciliation run, whatever the providers answer and whenever the lease is lost.\<close>

lemma run_db_simps [simp]:
  "rn_db (note_errors errs st) = rn_db st" "rn_db (note_error err st) = rn_db st"
  "rn_db (count_observation ob st) = rn_db st"
  by (simp_all add: note_errors_def note_error_def count_observation_def Let_def split: option.splits)

lemma runs_leases: "runs a db \<Longrightarrow> runs a (db\<lparr>db_leases := ls\<rparr>)"
  using runs_step leased by blast

lemma runs_alive: "runs a (rn_db st) \<Longrightarrow> runs a (rn_db (fst (alive r envs org st)))"
  by (auto simp: alive_def renew_def Let_def intro: runs_leases)

lemma runs_refresh_rows: "runs a (rn_db st) \<Longrightarrow> runs a (rn_db (fst (refresh_rows r envs org ps st)))"
proof (induction ps arbitrary: st)
  case (Cons p ps)
  obtain st1 ok where al: "alive r envs org st = (st1, ok)" by (cases "alive r envs org st")
  have 1: "runs a (rn_db st1)" using runs_alive[OF Cons.prems, of r envs org] al by simp
  obtain db ob err where rf: "Refresh (envs (rn_k st1)) org (pr_ID p) SourceReconcile (rn_db st1) = (db, ob, err)"
    by (cases "Refresh (envs (rn_k st1)) org (pr_ID p) SourceReconcile (rn_db st1)") auto
  have "runs a db" using runs_Refresh[OF 1, of "envs (rn_k st1)" org "pr_ID p" SourceReconcile] rf by simp
  then show ?case using Cons.IH 1 by (simp add: al rf Let_def)
qed simp

lemma runs_cancel_rows: "runs a (rn_db st) \<Longrightarrow> runs a (rn_db (fst (cancel_rows r envs org ps st)))"
proof (induction ps arbitrary: st)
  case (Cons p ps)
  obtain st1 ok where al: "alive r envs org st = (st1, ok)" by (cases "alive r envs org st")
  have 1: "runs a (rn_db st1)" using runs_alive[OF Cons.prems, of r envs org] al by simp
  let ?c = "Cancel (envs (rn_k st1)) org (pr_ID p) (expire_key p) ''expired'' (rn_db st1)"
  obtain db ob err where cn: "?c = (db, ob, err)" by (cases ?c) auto
  have d: "runs a db" using runs_Cancel[OF 1, of "envs (rn_k st1)" org "pr_ID p" "expire_key p" "''expired''"] cn by simp
  show ?case
    using Cons.IH 1 d runs_raise[OF d]
    by (cases ok; cases "ob_Payment ob") (simp_all add: al cn Let_def)
qed simp

lemma runs_record_page: "runs a (rn_db st) \<Longrightarrow> runs a (rn_db (record_page envs org provider ocs st))"
proof (induction ocs arbitrary: st)
  case (Cons oc ocs)
  let ?o = "observe (envs (rn_k st)) org provider oc SourceReconcile (rn_db st)"
  obtain db ob err where o: "?o = (db, ob, err)" by (cases ?o) auto
  have "runs a db" using runs_observe[OF Cons.prems, of "envs (rn_k st)" org provider oc SourceReconcile] o by simp
  then show ?case using Cons.IH by (simp add: o Let_def)
qed simp

lemma runs_list_pages: "runs a (rn_db st) \<Longrightarrow> runs a (rn_db (list_pages r envs pv org provider now pages cursor st))"
proof (induction pages arbitrary: cursor st)
  case (Suc pages)
  obtain st1 ok where al: "alive r envs org st = (st1, ok)" by (cases "alive r envs org st")
  have 1: "runs a (rn_db st1)" using runs_alive[OF Suc.prems, of r envs org] al by simp
  then show ?case using Suc.IH runs_record_page[OF 1]
    by (cases ok) (simp_all add: al Let_def split: answer.splits)
qed simp

lemma runs_list_providers: "runs a (rn_db st) \<Longrightarrow> runs a (rn_db (fst (list_providers r envs org now provs st)))"
proof (induction provs arbitrary: st)
  case (Cons p provs)
  obtain st1 ok where al: "alive r envs org st = (st1, ok)" by (cases "alive r envs org st")
  have 1: "runs a (rn_db st1)" using runs_alive[OF Cons.prems, of r envs org] al by simp
  then show ?case using Cons.IH runs_list_pages[OF 1]
    by (cases ok) (simp_all add: al listProvider_def split: option.splits)
qed simp

lemma runs_run_steps: "runs a (rn_db st) \<Longrightarrow> runs a (rn_db (run_steps r envs org now st))"
proof -
  assume a: "runs a (rn_db st)"
  obtain s1 o1 where 1: "refresh_rows r envs org (open_rows r org now (rn_db st)) st = (s1, o1)" by fastforce
  obtain s2 o2 where 2: "cancel_rows r envs org (stale_rows r org now (rn_db s1)) s1 = (s2, o2)" by fastforce
  obtain s3 o3 where 3: "refresh_rows r envs org (flagged_rows r org (rn_db s2)) s2 = (s3, o3)" by fastforce
  obtain s4 o4 where 4: "list_providers r envs org now (org_providers org (rn_db s3)) s3 = (s4, o4)" by fastforce
  obtain s5 o5 where 5: "alive r envs org s4 = (s5, o5)" by fastforce
  obtain db n errs where 6: "recheckRefunds (envs (rn_k s5)) org (nat (rc_Batch r)) (rn_db s5) = (db, n, errs)"
    by (cases "recheckRefunds (envs (rn_k s5)) org (nat (rc_Batch r)) (rn_db s5)") auto
  have r1: "runs a (rn_db s1)" using runs_refresh_rows[OF a] 1 by (metis fst_conv)
  have r2: "runs a (rn_db s2)" using runs_cancel_rows[OF r1] 2 by (metis fst_conv)
  have r3: "runs a (rn_db s3)" using runs_refresh_rows[OF r2] 3 by (metis fst_conv)
  have r4: "runs a (rn_db s4)" using runs_list_providers[OF r3] 4 by (metis fst_conv)
  have r5: "runs a (rn_db s5)" using runs_alive[OF r4] 5 by (metis fst_conv)
  have r6: "runs a db" using runs_recheckRefunds[OF r5] 6 by (metis fst_conv)
  show ?thesis
    unfolding run_steps_def Let_def 1 prod.case 2 3 4 5 6 using r1 r2 r3 r4 r5 r6 by simp
qed

lemma runs_RunOrg: "runs a db \<Longrightarrow> runs a (fst (RunOrg r envs org db))"
  by (auto simp: RunOrg_def Let_def claim_def release_lease_def intro!: runs_leases runs_run_steps)

end
