(* ===== verification/Ledger_Invariants.thy ===== *)
theory Ledger_Invariants
  imports Ledger_Steps
begin

text \<open>
  Invariants of the ledger over every history of \<open>ledger_step\<close>: the refund bound, idempotent charges,
  one live hold per document, the monotone refund lifecycle, exactly-once application of provider
  events and the reconciler's leases.
\<close>

section \<open>Which steps create rows\<close>

definition counts :: "ldb \<Rightarrow> nat \<times> nat" where
  "counts db = (length (db_payments db), length (db_refunds db))"

lemma counts_frame [simp]: "counts (db\<lparr>db_leases := x\<rparr>) = counts db" "counts (db\<lparr>db_log := y\<rparr>) = counts db"
  by (simp_all add: counts_def)

lemma counts_ops:
  "update_payments p f db = Inr db' \<Longrightarrow> counts db' = counts db"
  "update_refunds q g db = Inr db' \<Longrightarrow> counts db' = counts db"
  "update_holds s k db = Inr db' \<Longrightarrow> counts db' = counts db"
  "create_hold h db = Inr db' \<Longrightarrow> counts db' = counts db"
  "insertEvent ev db = Inr (db', dup) \<Longrightarrow> counts db' = counts db"
  by (auto simp: counts_def row_simps dest!: insertEvent_iff)

lemma counts_settleDocument: "settleDocument e org ty did tot db = Inr db' \<Longrightarrow> counts db' = counts db"
  unfolding settleDocument_def by (auto elim!: rbindE split: if_splits dest: counts_ops)

lemma counts_AcquireHold: "AcquireHold e org req caller db = Inr (db', res) \<Longrightarrow> counts db' = counts db"
  unfolding AcquireHold_def Let_def
  by (auto elim!: rbindE split: if_splits sum.splits option.splits dest!: counts_ops)

lemma counts_ReleaseHold: "ReleaseHold e org ty did token force db = Inr db' \<Longrightarrow> counts db' = counts db"
  unfolding ReleaseHold_def by (auto split: sum.splits option.splits dest!: counts_ops)

lemma counts_record_event: "record_event e ev p oc d c db = Inr (db', dup) \<Longrightarrow> counts db' = counts db"
  unfolding record_event_def by (auto elim!: rbindE split: if_splits dest!: counts_ops)

lemma counts_observe_known:
  assumes "observe_known e org provider oc source row db = Inr (db', res)"
  shows "counts db' = counts db"
proof -
  obtain decision reason where dr: "ObserveOutcome (row_payment row) oc = (decision, reason)" by fastforce
  from assms dr show ?thesis
  proof (cases rule: observe_knownE)
    case (duplicate db1 corrected ev)
    then show ?thesis using counts_record_event counts_ops(1) by metis
  next
    case (recorded db1 db2 db3 dup corrected applied upd upd' ev stored)
    have "counts db1 = counts db" using counts_record_event recorded(3) by blast
    moreover have "counts db2 = counts db1" using counts_ops(1) recorded(7) by blast
    moreover have "counts db3 = counts db2"
      using counts_ops(2) recorded(9) unfolding queueRefundRecheck_def by blast
    moreover have "counts db' = counts db3" using recorded(10) counts_settleDocument by blast
    ultimately show ?thesis by simp
  qed
qed

lemma counts_observe_tx: "observe_tx e org provider oc source db = Inr (db', res) \<Longrightarrow> counts db' = counts db"
  unfolding observe_tx_def
  by (auto split: option.splits if_splits elim!: rbindE dest: counts_observe_known counts_ops)

lemma counts_refund_ops:
  "updateRefund e org rid st pid ins rsn db = Inr (db', fin) \<Longrightarrow> counts db' = counts db"
  "applyRefunds_tx e org pid db = Inr (db', x) \<Longrightarrow> counts db' = counts db"
  "settle_tx e org rid req db = Inr (db', y) \<Longrightarrow> counts db' = counts db"
  "recheck_write e r expired db = Inr db' \<Longrightarrow> counts db' = counts db"
  "mark_cancelling e row db = Inr db' \<Longrightarrow> counts db' = counts db"
  unfolding updateRefund_def applyRefunds_tx_def settle_tx_def recheck_write_def mark_cancelling_def Let_def
  by (auto elim!: rbindE split: option.splits sum.splits if_splits dest!: counts_ops)

text \<open>Only a charge creates a payment and only a refund request creates a refund.\<close>

lemma charge_tx_created:
  assumes "charge_tx e org req db = Inr (db', res, x)"
  shows "db_refunds db' = db_refunds db \<and>
    (case x of None \<Rightarrow> db' = db | Some row \<Rightarrow> db_payments db' = db_payments db @ [row] \<and> row = new_payment_row e org req)"
proof -
  have keep: "settleDocument e org ty did tot d = Inr d' \<Longrightarrow>
      db_refunds d' = db_refunds d \<and> db_payments d' = db_payments d" for ty did tot d d'
    unfolding settleDocument_def by (auto elim!: rbindE split: if_splits simp: row_simps)
  show ?thesis
    using assms unfolding charge_tx_def Let_def
    by (auto elim!: rbindE split: if_splits sum.splits prod.splits option.splits simp: row_simps dest!: keep)
qed

lemma refund_tx_created:
  assumes "refund_tx e org req db = Inr (db', row, out)"
  shows "db_payments db' = db_payments db \<and> find_row db org (pr_ID row) = Some row \<and>
    (if \<exists>r. out = RefundCreated r then
       db_refunds db' = db_refunds db @ [new_refund_row e org row req] \<and>
       CheckRefund (row_payment row) (refundsOf db org (pr_ID row)) (next_refund row req) = Inr None
     else db' = db)"
  using assms unfolding refund_tx_def Let_def paymentRow_get_def
  by (auto elim!: rbindE split: sum.splits option.splits if_splits pay_error.splits simp: row_simps
      dest: find_row_Some)

lemma step_counts:
  assumes "ledger_step db db'"
  shows "counts db' = counts db \<or> (\<exists>req e org res row. validateCharge req = Inr () \<and> charge_tx e org req db = Inr (db', res, Some row)) \<or>
    (\<exists>e org req row r. refund_tx e org req db = Inr (db', row, RefundCreated r))"
  using assms
proof cases
  case (charge req e org cres row)
  then show ?thesis using charge_tx_created[of e org req db db' cres row] by (cases row) auto
next
  case (refund e org rreq rout)
  obtain row out where "rout = (row, out)" by (cases rout)
  with refund show ?thesis using refund_tx_created[of e org rreq db db' row out] by (cases out) auto
next
  case (observed oc e org provider source ores)
  then show ?thesis using counts_observe_tx by blast
qed (auto simp: touch_def markFailed_def
      dest: counts_AcquireHold counts_ReleaseHold counts_ops counts_refund_ops)

section \<open>Refunds never exceed the payment\<close>

definition live_refund :: "string \<Rightarrow> string \<Rightarrow> refundRow \<Rightarrow> bool" where
  "live_refund org pid x \<longleftrightarrow> rr_OrganizationID x = org \<and> rr_PaymentID x = pid \<and> rr_Status x \<noteq> RefundFailed"

definition live_sum :: "refundRow list \<Rightarrow> string \<Rightarrow> string \<Rightarrow> amount" where
  "live_sum rows org pid = (\<Sum>x\<leftarrow>filter (live_refund org pid) rows. amount_val (rr_Amount x))"

definition refund_row_ok :: "ldb \<Rightarrow> refundRow \<Rightarrow> bool" where
  "refund_row_ok db x \<longleftrightarrow>
     RefundStatus_Valid (rr_Status x) \<and> parses (rr_Amount x) \<and> 0 < amount_val (rr_Amount x) \<and>
     (\<exists>r\<in>set (db_payments db). pr_OrganizationID r = rr_OrganizationID x \<and> pr_ID r = rr_PaymentID x)"

definition refunds_inv :: "ldb \<Rightarrow> bool" where
  "refunds_inv db \<longleftrightarrow>
     (\<forall>x\<in>set (db_refunds db). refund_row_ok db x) \<and>
     (\<forall>r\<in>set (db_payments db). 0 < amount_val (pr_Amount r) \<and>
        live_sum (db_refunds db) (pr_OrganizationID r) (pr_ID r) \<le> amount_val (pr_Amount r))"

lemma live_sum_simps [simp]:
  "live_sum [] org pid = 0"
  "live_sum (x # xs) org pid = (if live_refund org pid x then amount_val (rr_Amount x) else 0) + live_sum xs org pid"
  "live_sum (xs @ ys) org pid = live_sum xs org pid + live_sum ys org pid"
  by (simp_all add: live_sum_def)

lemma refund_moves_status:
  assumes "refund_table.moves_to\<^sup>*\<^sup>* s t"
  shows "RefundStatus_Valid s \<Longrightarrow> RefundStatus_Valid t" "s = RefundFailed \<Longrightarrow> t = RefundFailed"
    "s = RefundSucceeded \<Longrightarrow> t = RefundSucceeded"
proof -
  show "RefundStatus_Valid s \<Longrightarrow> RefundStatus_Valid t" using refund_table.run_known[OF assms] by auto
  show "s = RefundFailed \<Longrightarrow> t = RefundFailed" "s = RefundSucceeded \<Longrightarrow> t = RefundSucceeded"
    using refund_table.run_final[OF assms] by auto
qed

lemma live_sum_keeps:
  assumes "list_all2 refund_keeps xs ys" and "\<forall>x\<in>set xs. 0 < amount_val (rr_Amount x)"
  shows "live_sum ys org pid \<le> live_sum xs org pid"
  using assms
proof (induction rule: list_all2_induct)
  case (Cons x xs y ys)
  have xy: "rr_OrganizationID y = rr_OrganizationID x" "rr_PaymentID y = rr_PaymentID x" "rr_Amount y = rr_Amount x"
    "rr_Status x = RefundFailed \<Longrightarrow> rr_Status y = RefundFailed"
    using Cons.hyps(1) refund_moves_status(2) by (auto simp: refund_keeps_def refund_core_def)
  then show ?case using Cons by (auto simp: live_refund_def)
qed simp

lemma grows_list_all2: "grows R xs ys \<Longrightarrow> length ys = length xs \<Longrightarrow> list_all2 R xs ys"
  by (simp add: grows_def list_all2_conv_all_nth)

lemma list_all2_mem:
  "list_all2 R xs ys \<Longrightarrow> y \<in> set ys \<Longrightarrow> \<exists>x\<in>set xs. R x y"
  "list_all2 R xs ys \<Longrightarrow> x \<in> set xs \<Longrightarrow> \<exists>y\<in>set ys. R x y"
  by (induction rule: list_all2_induct) auto

lemma refunds_inv_evolves:
  assumes "evolves db db'" and "counts db' = counts db" and inv: "refunds_inv db"
  shows "refunds_inv db'"
proof -
  have rs: "list_all2 refund_keeps (db_refunds db) (db_refunds db')"
    and ps: "list_all2 pay_keeps (db_payments db) (db_payments db')"
    using assms(1,2) by (auto simp: evolves_def counts_def intro!: grows_list_all2)
  have pos: "\<forall>x\<in>set (db_refunds db). 0 < amount_val (rr_Amount x)"
    using inv by (auto simp: refunds_inv_def refund_row_ok_def)
  have pay: "\<exists>r\<in>set (db_payments db). pay_core r = pay_core r'" if "r' \<in> set (db_payments db')" for r'
    using list_all2_mem(1)[OF ps that] by (simp add: pay_keeps_def)
  have pay': "\<exists>r'\<in>set (db_payments db'). pay_core r = pay_core r'" if "r \<in> set (db_payments db)" for r
    using list_all2_mem(2)[OF ps that] by (simp add: pay_keeps_def)
  have "refund_row_ok db' y" if y: "y \<in> set (db_refunds db')" for y
  proof -
    obtain x where x: "x \<in> set (db_refunds db)" "refund_keeps x y"
      using list_all2_mem(1)[OF rs y] by blast
    have ok: "refund_row_ok db x" using inv x(1) by (simp add: refunds_inv_def)
    then obtain r where r: "r \<in> set (db_payments db)" "pr_OrganizationID r = rr_OrganizationID x" "pr_ID r = rr_PaymentID x"
      by (auto simp: refund_row_ok_def)
    obtain r' where r': "r' \<in> set (db_payments db')" "pay_core r = pay_core r'" using pay'[OF r(1)] by blast
    have "RefundStatus_Valid (rr_Status y)"
      using x(2) ok refund_moves_status(1) by (auto simp: refund_keeps_def refund_row_ok_def)
    then show ?thesis using ok x(2) r r'
      by (auto simp: refund_row_ok_def refund_keeps_def refund_core_def pay_core_def)
  qed
  moreover have "0 < amount_val (pr_Amount r') \<and>
      live_sum (db_refunds db') (pr_OrganizationID r') (pr_ID r') \<le> amount_val (pr_Amount r')"
    if r': "r' \<in> set (db_payments db')" for r'
  proof -
    obtain r where r: "r \<in> set (db_payments db)" "pay_core r = pay_core r'" using pay[OF r'] by blast
    then show ?thesis
      using inv live_sum_keeps[OF rs pos, of "pr_OrganizationID r'" "pr_ID r'"]
      by (fastforce simp: refunds_inv_def pay_core_def)
  qed
  ultimately show ?thesis by (simp add: refunds_inv_def)
qed

lemma live_sum_none:
  "(\<And>x. x \<in> set xs \<Longrightarrow> rr_PaymentID x \<noteq> pid) \<Longrightarrow> live_sum xs org pid = 0"
  by (induction xs) (auto simp: live_refund_def)

lemma validateCharge_positive: "validateCharge req = Inr () \<Longrightarrow> 0 < amount_val (ch_Amount req) \<and> parses (ch_Amount req)"
  by (auto simp: validateCharge_def positive_amount_def ParseAmount_cases split: if_splits)

lemma new_payment_row_core [simp]:
  "pr_ID (new_payment_row e org req) = e_uuid e 0" "pr_Amount (new_payment_row e org req) = ch_Amount req"
  "pr_OrganizationID (new_payment_row e org req) = org" "pr_IdempotencyKey (new_payment_row e org req) = ch_IdempotencyKey req"
  "pr_DocumentType (new_payment_row e org req) = ch_DocumentType req" "pr_DocumentID (new_payment_row e org req) = ch_DocumentID req"
  "pr_Provider (new_payment_row e org req) = ch_Provider req" "pr_Currency (new_payment_row e org req) = ch_Currency req"
  by (simp_all add: new_payment_row_def Let_def)

lemma refunds_inv_charge:
  assumes tx: "charge_tx e org req db = Inr (db', res, Some row)" and v: "validateCharge req = Inr ()"
    and ok: "tables_ok db'" and inv: "refunds_inv db"
  shows "refunds_inv db'"
proof -
  have new: "db_refunds db' = db_refunds db" "db_payments db' = db_payments db @ [row]" "row = new_payment_row e org req"
    using charge_tx_created[OF tx] by auto
  have fresh: "rr_PaymentID x \<noteq> pr_ID row" if "x \<in> set (db_refunds db)" for x
  proof -
    have "refund_row_ok db x" using inv that by (simp add: refunds_inv_def)
    then obtain r where "r \<in> set (db_payments db)" "pr_ID r = rr_PaymentID x"
      by (auto simp: refund_row_ok_def)
    moreover have "pr_ID row \<notin> pr_ID ` set (db_payments db)"
      using ok by (simp add: tables_ok_def payments_ok_def new(2))
    ultimately show ?thesis by (metis imageI)
  qed
  have "live_sum (db_refunds db) org (pr_ID row) = 0" using fresh by (rule live_sum_none)
  then show ?thesis
    using inv validateCharge_positive[OF v] by (auto simp: refunds_inv_def refund_row_ok_def new)
qed

text \<open>What the refund check sums over the sorted rows is the sum over the table.\<close>

lemma sum_sort_key: "(\<Sum>x\<leftarrow>sort_key k xs. (f x :: amount)) = (\<Sum>x\<leftarrow>xs. f x)"
proof -
  have "mset (map f (sort_key k xs)) = mset (map f xs)" by simp
  then show ?thesis by (metis sum_mset_sum_list)
qed

lemma refund_sum_rows:
  "refund_sum P (map row_refund rows) = (\<Sum>x\<leftarrow>rows. if P (row_refund x) then amount_val (rr_Amount x) else 0)"
  by (induction rows) auto

lemma sum_filter_rows:
  "(\<Sum>x\<leftarrow>filter Q rows. (f x :: amount)) = (\<Sum>x\<leftarrow>rows. if Q x then f x else 0)"
  by (induction rows) auto

lemma refundsOf_sums:
  assumes "\<forall>x\<in>set (db_refunds db). RefundStatus_Valid (rr_Status x)"
  shows "succeeded_sum pid (refundsOf db org pid) + in_flight_sum pid (refundsOf db org pid) =
         live_sum (db_refunds db) org pid"
proof -
  let ?rows = "filter (\<lambda>r. rr_OrganizationID r = org \<and> rr_PaymentID r \<in> set [pid]) (db_refunds db)"
  have s: "refund_sum P (refundsOf db org pid) = (\<Sum>x\<leftarrow>?rows. if P (row_refund x) then amount_val (rr_Amount x) else 0)" for P
    by (simp add: refundsOf_def refund_rows_def refund_sum_rows sum_sort_key)
  have "succeeded_sum pid (refundsOf db org pid) + in_flight_sum pid (refundsOf db org pid) =
      (\<Sum>x\<leftarrow>?rows. (if of_payment pid [RefundSucceeded] (row_refund x) then amount_val (rr_Amount x) else 0) +
        (if of_payment pid [RefundPending, RefundManualRequired] (row_refund x) then amount_val (rr_Amount x) else 0))"
    by (simp add: succeeded_sum_def in_flight_sum_def s sum_list_addf)
  also have "\<dots> = (\<Sum>x\<leftarrow>db_refunds db. if rr_OrganizationID x = org \<and> rr_PaymentID x \<in> set [pid] then
      (if of_payment pid [RefundSucceeded] (row_refund x) then amount_val (rr_Amount x) else 0) +
        (if of_payment pid [RefundPending, RefundManualRequired] (row_refund x) then amount_val (rr_Amount x) else 0) else 0)"
    by (simp only: sum_filter_rows)
  also have "\<dots> = (\<Sum>x\<leftarrow>db_refunds db. if live_refund org pid x then amount_val (rr_Amount x) else 0)"
  proof (intro arg_cong[where f = sum_list] map_cong refl)
    fix x assume "x \<in> set (db_refunds db)"
    with assms have "RefundStatus_Valid (rr_Status x)" by blast
    then show "(if rr_OrganizationID x = org \<and> rr_PaymentID x \<in> set [pid] then
      (if of_payment pid [RefundSucceeded] (row_refund x) then amount_val (rr_Amount x) else 0) +
        (if of_payment pid [RefundPending, RefundManualRequired] (row_refund x) then amount_val (rr_Amount x) else 0) else 0)
      = (if live_refund org pid x then amount_val (rr_Amount x) else 0)"
      by (cases "rr_Status x") (auto simp: live_refund_def of_payment_def)
  qed
  also have "\<dots> = live_sum (db_refunds db) org pid" by (simp add: live_sum_def sum_filter_rows)
  finally show ?thesis .
qed

lemma next_refund_simps [simp]:
  "r_Amount (next_refund row req) = rq_Amount req" "r_IdempotencyKey (next_refund row req) = rq_IdempotencyKey req"
  "r_Currency (next_refund row req) = pr_Currency row" "r_Destination (next_refund row req) = rq_Destination req"
  "r_PaymentID (next_refund row req) = pr_ID row"
  by (simp_all add: next_refund_def)

lemma new_refund_row_simps [simp]:
  "rr_Amount (new_refund_row e org row req) = norm_text (rq_Amount req)" "rr_PaymentID (new_refund_row e org row req) = pr_ID row"
  "rr_OrganizationID (new_refund_row e org row req) = org" "rr_Status (new_refund_row e org row req) = RefundPending"
  "rr_IdempotencyKey (new_refund_row e org row req) = rq_IdempotencyKey req"
  by (simp_all add: new_refund_row_def)

lemma refunds_inv_refund:
  assumes tx: "refund_tx e org req db = Inr (db', row, RefundCreated r)"
    and ok: "tables_ok db" and inv: "refunds_inv db"
  shows "refunds_inv db'"
proof -
  have t: "db_payments db' = db_payments db" "find_row db org (pr_ID row) = Some row"
    "db_refunds db' = db_refunds db @ [new_refund_row e org row req]"
    and chk: "CheckRefund (row_payment row) (refundsOf db org (pr_ID row)) (next_refund row req) = Inr None"
    using refund_tx_created[OF tx] by auto
  note row = find_row_Some[OF t(2)]
  have amt: "parses (rq_Amount req)" "0 < amount_val (rq_Amount req)"
    using CheckRefund_newD(1,2)[OF chk] by simp_all
  obtain recorded where "max recorded (succeeded_sum (pr_ID row) (refundsOf db org (pr_ID row))) +
      in_flight_sum (pr_ID row) (refundsOf db org (pr_ID row)) + amount_val (rq_Amount req) \<le> amount_val (pr_Amount row)"
    using CheckRefund_newD(11)[OF chk] by auto
  then have bound: "live_sum (db_refunds db) org (pr_ID row) + amount_val (rq_Amount req) \<le> amount_val (pr_Amount row)"
    using refundsOf_sums[of db "pr_ID row" org] inv by (auto simp: refunds_inv_def refund_row_ok_def)
  have "refund_row_ok db' (new_refund_row e org row req)"
    using amt row t(1) by (auto simp: refund_row_ok_def)
  moreover have "\<forall>x\<in>set (db_refunds db). refund_row_ok db' x"
    using inv t(1) by (auto simp: refunds_inv_def refund_row_ok_def)
  moreover have "live_sum (db_refunds db') (pr_OrganizationID p) (pr_ID p) \<le> amount_val (pr_Amount p)"
    if p: "p \<in> set (db_payments db)" for p
  proof (cases "pr_ID p = pr_ID row")
    case True
    then have "p = row" using payment_by_id[OF ok p] row by blast
    then show ?thesis using bound row by (simp add: t(3) live_refund_def)
  next
    case False
    then show ?thesis using inv p by (auto simp: t(3) live_refund_def refunds_inv_def)
  qed
  ultimately show ?thesis using inv by (auto simp: refunds_inv_def t(1,3))
qed

lemma reachable_refunds_inv: "ledger_reachable db \<Longrightarrow> refunds_inv db"
  unfolding ledger_reachable_def
proof (induction rule: rtranclp_induct)
  case base
  then show ?case by (simp add: refunds_inv_def empty_db_def)
next
  case (step db db')
  have ok: "tables_ok db" "tables_ok db'" and ev: "evolves db db'"
    using reachable_tables_ok step.hyps progress_step[OF step.hyps(2)]
    by (auto simp: ledger_reachable_def progress_def)
  from step_counts[OF step.hyps(2)] show ?case
    using refunds_inv_evolves[OF ev] refunds_inv_charge refunds_inv_refund ok step.IH by blast
qed

section \<open>Observing\<close>

lemma settleDocument_frame: "settleDocument e org ty did tot db = Inr db' \<Longrightarrow>
    db_payments db' = db_payments db \<and> db_refunds db' = db_refunds db \<and> db_events db' = db_events db"
  unfolding settleDocument_def by (auto elim!: rbindE split: if_splits simp: row_simps)

lemma record_event_frame: "record_event e ev p oc d c db = Inr (db', dup) \<Longrightarrow>
    db_payments db' = db_payments db \<and> db_refunds db' = db_refunds db \<and> db_holds db' = db_holds db \<and>
    set (db_events db) \<subseteq> set (db_events db')"
  unfolding record_event_def by (auto elim!: rbindE split: if_splits dest!: insertEvent_iff)

lemma queue_frame: "queueRefundRecheck org pid now db = Inr db' \<Longrightarrow>
    db_payments db' = db_payments db \<and> db_events db' = db_events db \<and> db_holds db' = db_holds db"
  unfolding queueRefundRecheck_def by (auto simp: row_simps)

lemma applyOutcome_status: "applyOutcome e row oc = Inr upd \<Longrightarrow> pr_Status (upd r) = o_Status oc"
  unfolding applyOutcome_def by (auto elim!: rbindE)

lemma stamp_status [simp]: "pr_Status (stamp e r) = pr_Status r"
  by (simp add: stamp_def)

lemma insertEvent_new:
  "insertEvent ev db = Inr (db', False) \<Longrightarrow> ev \<in> set (db_events db')"
  by (auto dest!: insertEvent_iff)

lemma record_event_corrected:
  "record_event e ev p oc d True db = Inr (db', dup) \<Longrightarrow>
     \<exists>x\<in>set (db_events db'). er_OrganizationID x = er_OrganizationID ev \<and> er_Provider x = er_Provider ev \<and> er_EventID x = er_EventID ev"
  unfolding record_event_def by (auto elim!: rbindE simp: insertEvent_def split: if_splits)

lemma record_event_dup:
  assumes "record_event e ev p oc d c db = Inr (db', True)"
  shows "\<exists>x\<in>set (db_events db). er_OrganizationID x = er_OrganizationID ev \<and> er_Provider x = er_Provider ev \<and> er_EventID x = er_EventID ev"
  using assms unfolding record_event_def
  by (auto elim!: rbindE simp: insertEvent_def split: if_splits)

lemma findPayment_Some:
  "findPayment db org provider oc = Some row \<Longrightarrow>
     row \<in> set (db_payments db) \<and> pr_OrganizationID row = org \<and> pr_Provider row = provider"
proof -
  have nw: "r \<in> set rows" if "newest p rows = Some r" for p rows r
  proof -
    obtain x where "sort_key (\<lambda>r. - pr_CreatedAt r) (filter p rows) = r # x"
      using \<open>newest p rows = Some r\<close> by (auto simp: newest_def split: list.splits)
    then have "r \<in> set (sort_key (\<lambda>r. - pr_CreatedAt r) (filter p rows))" by (simp only: list.set_intros)
    then show ?thesis by simp
  qed
  show "findPayment db org provider oc = Some row \<Longrightarrow>
     row \<in> set (db_payments db) \<and> pr_OrganizationID row = org \<and> pr_Provider row = provider"
    by (auto simp: findPayment_def Let_def split: option.splits if_splits dest!: find_Some_in nw)
qed

text \<open>What recording an update does to each payment: nothing but its stamps, or, on the payment it is
  about, an applied move or an audited correction.\<close>

lemma observe_known_payments:
  assumes tx: "observe_known e org provider oc source row db = Inr (db', res)"
  shows "\<exists>f. db_payments db' = update_where (\<lambda>r. pr_ID r = pr_ID row) f (db_payments db) \<and>
    ((\<forall>r. pr_Status (f r) = pr_Status r) \<or>
     (\<forall>r. pr_Status (f r) = o_Status oc) \<and>
     (fst (ObserveOutcome (row_payment row) oc) = Apply \<or>
      fst (ObserveOutcome (row_payment row) oc) = Anomaly \<and> source = SourceReconcile \<and>
      pr_Anomaly row = snd (ObserveOutcome (row_payment row) oc) \<and> pr_AnomalyStatus row = o_Status oc \<and>
      \<not> moneyMismatch (pr_Anomaly row) \<and>
      (\<exists>ev\<in>set (db_events db'). er_OrganizationID ev = org \<and> er_Provider ev = provider \<and>
         er_EventID ev = DedupeEventID oc @ ''|corrected'')))"
proof -
  obtain decision reason where dr: "ObserveOutcome (row_payment row) oc = (decision, reason)" by fastforce
  from tx dr show ?thesis
  proof (cases rule: observe_knownE)
    case (duplicate db1 corrected ev)
    then have "db_payments db' = update_where (\<lambda>r. pr_ID r = pr_ID row) (stamp e) (db_payments db)"
      using record_event_frame[OF duplicate(1)] by (simp add: row_simps)
    then show ?thesis by (intro exI[of _ "stamp e"]) simp
  next
    case (recorded db1 db2 db3 dup corrected applied upd upd' ev stored)
    have ev: "db_payments db1 = db_payments db" using record_event_frame[OF recorded(3)] by simp
    have 3: "db_payments db3 = db_payments db2 \<and> db_events db3 = db_events db2" using recorded(9) queue_frame by blast
    have 4: "db_payments db' = db_payments db3 \<and> db_events db' = db_events db3" using recorded(10) settleDocument_frame by blast
    have 2: "db_payments db2 = update_where (\<lambda>r. pr_ID r = pr_ID row) (\<lambda>r. upd' (stamp e r)) (db_payments db1)"
      "db_events db2 = db_events db1"
      using recorded(7) by (auto simp: row_simps)
    have st: "pr_Status (upd' (stamp e r)) = (if applied then o_Status oc else pr_Status r)" for r
      using recorded(5) applyOutcome_status[of e row oc upd] unfolding recorded(6)
      by (auto simp: recorded(2) split: if_splits)
    have cor: "corrected \<Longrightarrow> \<exists>x\<in>set (db_events db'). er_OrganizationID x = org \<and> er_Provider x = provider \<and>
        er_EventID x = DedupeEventID oc @ ''|corrected''"
      using recorded(3) record_event_corrected[of e ev "row_payment row" oc decision db db1 dup]
      by (simp add: recorded(11,12,14) 2(2) 3 4)
    show ?thesis
      using 2 3 4 ev st cor by (intro exI[of _ "\<lambda>r. upd' (stamp e r)"]) (auto simp: dr recorded(1,2))
  qed
qed

end
