(* ===== verification/Ledger_Samples.thy ===== *)
theory Ledger_Samples
  imports Ledger_Invariants
begin

text \<open>
  Concrete histories of the ledger, used to show that the properties' hypotheses can hold: an
  organization that charges a document in cash and on a terminal, refunds it and reads its provider.
  The outside functions are instantiated by simple ones (a digest that tags its input, uuids made of a
  prefix and a number).
\<close>

definition sample_providers :: "Status \<Rightarrow> providers" where
  "sample_providers st =
     \<lparr>ask_create = (\<lambda>q. Output \<lparr>co_ProviderRef = ''pi_9'', co_SessionID = [], co_Status = StatusAtDevice,
                        co_DeviceID = [], co_ExpiresAt = [], co_TestMode = False\<rparr> False),
      ask_status = (\<lambda>q. Output \<lparr>o_OrderRef = ''doc-1'', o_Status = st, o_Amount = ''100.00'', o_Currency = ''MXN'',
                        o_ProviderRef = ''pi_9'', o_EventID = [], o_Kind = KindPayment, o_Method = [],
                        o_Installments = 0, o_PaidAt = [], o_OccurredAt = [], o_AmountRefunded = [], o_Fee = [],
                        o_NetAmount = [], o_TestMode = False, o_Channel = ChannelOther [], o_SessionID = [],
                        o_DeviceID = [], o_Card = None, o_Cash = None, o_Seller = None, o_ProviderStatus = [],
                        o_StatusDetail = []\<rparr> False),
      ask_cancel = (\<lambda>q. Output StatusCancelling False),
      ask_refund = (\<lambda>q. ResultError ''timeout'' ''deadline'' True),
      ask_list = (\<lambda>q. NoResult)\<rparr>"

definition sample_env :: "int \<Rightarrow> string \<Rightarrow> Status \<Rightarrow> env" where
  "sample_env now prefix st =
     \<lparr>e_now = now, e_uuid = (\<lambda>n. prefix @ digits_of n), e_token = replicate 64 (CHR ''a''),
      e_sha256_hex = (\<lambda>s. ''sha256:'' @ s), e_uuid_parse = (\<lambda>s. Some s), e_rfc3339 = (\<lambda>s. None),
      e_format_rfc3339 = (\<lambda>t. ''2026-01-01T00:00:00Z''), e_providers = Some (sample_providers st),
      e_publish = False, e_anomalies = False, e_isPaymentsProvider = Some (\<lambda>org a. Some True),
      e_RefundRepostWindow = (\<lambda>p. None), e_DefaultRefundRepostWindow = 0\<rparr>"

definition sample_charge :: ChargeRequest where
  "sample_charge =
     \<lparr>ch_DocumentType = ''sales_order'', ch_DocumentID = ''doc-1'', ch_OrderRef = [], ch_DocumentTotal = ''100.00'',
      ch_Amount = ''100.00'', ch_Currency = ''MXN'', ch_Channel = ChannelCash, ch_Provider = ''cash'',
      ch_DeviceID = [], ch_IdempotencyKey = ''k1'', ch_HoldToken = [], ch_Market = [], ch_Cash = None,
      ch_Seller = None, ch_ProviderInput = [], ch_TestMode = False, ch_Caller = ''pos''\<rparr>"

definition sample_refund_request :: RefundRequest where
  "sample_refund_request =
     \<lparr>rq_PaymentID = ''a0'', rq_Amount = ''40.00'', rq_Destination = RefundToWallet, rq_IdempotencyKey = ''rk1'',
      rq_Reason = [], rq_SourceType = [], rq_SourceID = [], rq_CreditNoteRequired = False,
      rq_AdjustsTotal = False, rq_RefundApplicationFee = False, rq_Caller = ''pos''\<rparr>"

definition sample_hold_request :: HoldRequest where
  "sample_hold_request =
     \<lparr>hr_DocumentType = ''sales_order'', hr_DocumentID = ''doc-1'', hr_Holder = ''pos:1'',
      hr_Channel = ChannelCash, hr_UserID = [], hr_Token = [], hr_TTL = 0\<rparr>"

text \<open>A cash payment of 100.00, a refund of 40.00 of it, and a hold on a document, as rows.\<close>

definition sample_row :: paymentRow where
  "sample_row =
     \<lparr>pr_ID = ''a0'', pr_OrganizationID = ''org'', pr_DocumentType = ''sales_order'', pr_DocumentID = ''doc-1'',
      pr_OrderRef = ''doc-1'', pr_Channel = ChannelCash, pr_Provider = ''cash'', pr_ProviderRef = Some ''a0'',
      pr_SessionID = [], pr_DeviceID = [], pr_IdempotencyKey = ''k1'', pr_Status = StatusPaid,
      pr_Amount = ''100.00'', pr_Currency = ''MXN'', pr_DocumentTotal = Some ''100.00'', pr_AmountRefunded = ''0'',
      pr_Fee = None, pr_Net = None, pr_Method = ''cash'', pr_Installments = 0, pr_Card = None, pr_Cash = None,
      pr_Seller = None, pr_TestMode = False, pr_StatusDetail = [], pr_Anomaly = ReasonNone,
      pr_AnomalyStatus = StatusOther [], pr_CancelledFrom = StatusOther [], pr_CreatedBy = ''pos'',
      pr_ExpiresAt = None, pr_LastCheckedAt = None, pr_PaidAt = Some 0, pr_CreatedAt = 0, pr_UpdatedAt = 0\<rparr>"

definition sample_refund_row :: refundRow where
  "sample_refund_row =
     \<lparr>rr_ID = ''b0'', rr_OrganizationID = ''org'', rr_PaymentID = ''a0'', rr_Destination = RefundToWallet,
      rr_Provider = [], rr_ProviderRefundID = [], rr_Amount = ''40.00'', rr_Currency = ''MXN'',
      rr_Status = RefundPending, rr_Reason = [], rr_IdempotencyKey = ''rk1'', rr_SourceType = [],
      rr_SourceID = [], rr_CreditNoteRequired = False, rr_RefundApplicationFee = False,
      rr_RecheckAttempts = 0, rr_NextRecheckAt = None, rr_NeedsReview = False, rr_AdjustsTotal = False,
      rr_CreditNoteID = [], rr_CashSessionID = [], rr_Instructions = [], rr_CreatedBy = ''pos'',
      rr_SettledAt = None, rr_CreatedAt = 1, rr_UpdatedAt = 1\<rparr>"

definition sample_hold_row :: holdRow where
  "sample_hold_row =
     \<lparr>hw_ID = ''h0'', hw_OrganizationID = ''org'', hw_DocumentType = ''sales_order'', hw_DocumentID = ''doc-1'',
      hw_TokenHash = ''sha256:metacore-payments-hold:'' @ replicate 64 (CHR ''a''), hw_Holder = ''pos:1'',
      hw_Channel = ChannelCash, hw_UserID = [], hw_Status = HoldActive, hw_CreatedBy = ''pos'',
      hw_ExpiresAt = 300000000000, hw_CreatedAt = 0, hw_UpdatedAt = 0\<rparr>"

definition sample_paid :: ldb where
  "sample_paid = empty_db\<lparr>db_payments := [sample_row]\<rparr>"

definition sample_refunded :: ldb where
  "sample_refunded = sample_paid\<lparr>db_refunds := [sample_refund_row]\<rparr>"

definition sample_held :: ldb where
  "sample_held = empty_db\<lparr>db_holds := [sample_hold_row]\<rparr>"

lemma empty_reachable: "ledger_reachable empty_db"
  by (simp add: ledger_reachable_def)

lemma digits_zero: "digits_of 0 = ''0''"
  by code_simp

lemma sample_amount: "ParseAmount ''100.00'' = Inr 100" "MustAmount ''100.00'' = Inr 100" "MustAmount ''0.00'' = Inr 0"
  "Amount_String 0 = ''0.00''" "Amount_String 100 = ''100.00''"
  by code_simp+

lemma sample_row_valid: "Validate (row_payment sample_row) = []"
  by code_simp

lemma sample_new_row: "new_payment_row (sample_env 0 ''a'' StatusPaid) ''org'' sample_charge = sample_row"
proof -
  have "firstNonBlank [[], ''doc-1''] = ''doc-1''" by code_simp
  then show ?thesis
    by (simp add: new_payment_row_def sample_env_def sample_charge_def sample_row_def strPtr_def digits_zero)
qed

lemma sample_validate: "validateCharge sample_charge = Inr ()"
  by code_simp

lemma sample_settles:
  "settleDocument (sample_env 0 ''a'' StatusPaid) ''org'' ''sales_order'' ''doc-1'' ''100.00'' sample_paid = Inr sample_paid"
proof -
  have paid: "net_of [row_payment sample_row] 0 = Inr 100" "DocumentPaid [row_payment sample_row] [] = Inr 100"
    by code_simp+
  have rows: "document_rows sample_paid ''org'' ''sales_order'' ''doc-1'' = [sample_row]"
    by (simp add: document_rows_def sample_paid_def sample_row_def)
  have "refund_rows sample_paid ''org'' ids = []" "activeHold sample_paid o1 o2 o3 = None" for ids o1 o2 o3
    by (simp_all add: refund_rows_def activeHold_def sample_paid_def empty_db_def)
  then have "\<exists>d. document (sample_env 0 ''a'' StatusPaid) ''org'' ''sales_order'' ''doc-1'' sample_paid = Inr d \<and> d_Paid d = ''100.00''"
    using paid by (simp add: document_def rows uncoded_def sample_amount)
  then show ?thesis
    by (auto simp: settleDocument_def uncoded_def sample_amount update_holds_def set_holds_def sample_paid_def
        empty_db_def holds_ok_def)
qed

lemma sample_charge_tx:
  "\<exists>res. charge_tx (sample_env 0 ''a'' StatusPaid) ''org'' sample_charge empty_db = Inr (sample_paid, res, Some sample_row)"
proof -
  have e: "document_rows empty_db o1 o2 o3 = []" "activeHold empty_db o1 o2 o3 = None" for o1 o2 o3
    by (simp_all add: document_rows_def activeHold_def empty_db_def)
  have k: "\<not> blank ''k1''" by code_simp
  have req: "ch_DocumentType sample_charge = ''sales_order''" "ch_DocumentID sample_charge = ''doc-1''"
    "ch_IdempotencyKey sample_charge = ''k1''" "ch_DocumentTotal sample_charge = ''100.00''" "ch_Amount sample_charge = ''100.00''"
    by (simp_all add: sample_charge_def)
  have cr: "create_payment sample_row empty_db = Inr sample_paid"
    by (simp add: create_payment_def set_payments_def payments_ok_def empty_db_def sample_paid_def sample_row_def)
  have st: "pr_Status sample_row = StatusPaid" by (simp add: sample_row_def)
  show ?thesis
    by (simp add: charge_tx_def Let_def req e CheckCharge_def document_def uncoded_def DocumentPaid_def sample_amount
        CheckReplay_def k sample_new_row sample_row_valid cr st sample_settles)
qed

lemma sample_paid_reachable: "ledger_reachable sample_paid"
  using sample_charge_tx charge[OF sample_validate] by (auto simp: ledger_reachable_def)

lemma sample_refund_tx:
  "refund_tx (sample_env 1 ''b'' StatusPaid) ''org'' sample_refund_request sample_paid =
     Inr (sample_refunded, sample_row, RefundCreated sample_refund_row)"
proof -
  have t: "TrimSpace ''a0'' = ''a0''" by code_simp
  have chk: "CheckRefund (row_payment sample_row) [] (next_refund sample_row sample_refund_request) = Inr None" by code_simp
  have n: "norm_text ''40.00'' = ''40.00''" by code_simp
  have row: "new_refund_row (sample_env 1 ''b'' StatusPaid) ''org'' sample_row sample_refund_request = sample_refund_row"
    by (simp add: new_refund_row_def sample_env_def sample_row_def sample_refund_request_def sample_refund_row_def n digits_zero)
  have get: "paymentRow_get (sample_env 1 ''b'' StatusPaid) ''org'' (rq_PaymentID sample_refund_request) sample_paid = Inr sample_row"
    by (simp add: paymentRow_get_def sample_env_def sample_refund_request_def t find_row_def sample_paid_def sample_row_def)
  have rs: "refundsOf sample_paid o1 o2 = []" for o1 o2
    by (simp add: refundsOf_def refund_rows_def sample_paid_def empty_db_def)
  have cr: "create_refund sample_refund_row sample_paid = Inr sample_refunded"
    by (simp add: create_refund_def set_refunds_def refunds_ok_def sample_refunded_def sample_paid_def empty_db_def)
  show ?thesis
    by (simp add: refund_tx_def get Let_def rs chk row cr) (simp add: sample_refund_request_def)
qed

lemma sample_refunded_reachable: "ledger_reachable sample_refunded"
  using reachable_steps[OF sample_paid_reachable] refund[OF sample_refund_tx] by blast

lemma sample_acquire:
  "\<exists>res. AcquireHold (sample_env 0 ''h'' StatusPaid) ''org'' sample_hold_request ''pos'' empty_db = Inr (sample_held, res)"
proof -
  have nb: "\<not> blank ''sales_order''" "\<not> blank ''doc-1''" "\<not> blank ''pos:1''"
    "\<not> length (TrimSpace (''sha256:metacore-payments-hold:'' @ replicate 64 (CHR ''a''))) < MinHoldTokenLen" by code_simp+
  show ?thesis
    using nb
    by (simp add: AcquireHold_def Let_def sample_hold_request_def sample_env_def activeHold_def empty_db_def Acquire_def
        hashToken_def ClampHoldTTL_def DefaultHoldTTL_def second_ns_def create_hold_def set_holds_def holds_ok_def
        sample_held_def sample_hold_row_def digits_zero)
qed

lemma sample_held_reachable: "ledger_reachable sample_held"
  using sample_acquire acquire by (auto simp: ledger_reachable_def)

end
