(* ===== verification/Ledger_Properties.thy ===== *)
theory Ledger_Properties
  imports Ledger_Samples
begin

text \<open>The properties of the ledger, each with a witness on the concrete histories of \<^verbatim>\<open>Ledger_Samples\<close>.\<close>

section \<open>Refunds\<close>

text \<open>C1. In every state any interleaving of the ledger's transactions can reach, the refunds of a payment
  that have not failed (succeeded, pending or waiting for a manual settlement) add up to at most the
  captured amount, and each of them is a positive amount of an existing payment.\<close>

theorem refunds_never_exceed_payment:
  assumes "ledger_reachable db" and "r \<in> set (db_payments db)"
  shows "live_sum (db_refunds db) (pr_OrganizationID r) (pr_ID r) \<le> amount_val (pr_Amount r) \<and>
    list_all (\<lambda>x. 0 < amount_val (rr_Amount x) \<and> RefundStatus_Valid (rr_Status x)) (db_refunds db)"
  using reachable_refunds_inv[OF assms(1)] assms(2)
  by (auto simp: refunds_inv_def refund_row_ok_def list_all_iff)

theorem refunds_never_exceed_payment_witness:
  "ledger_reachable sample_refunded \<and> sample_row \<in> set (db_payments sample_refunded) \<and>
   live_sum (db_refunds sample_refunded) ''org'' ''a0'' \<le> 100"
proof -
  have m: "sample_row \<in> set (db_payments sample_refunded)" by (simp add: sample_refunded_def sample_paid_def)
  have v: "pr_OrganizationID sample_row = ''org''" "pr_ID sample_row = ''a0''" "amount_val (pr_Amount sample_row) = 100"
    using sample_amount(1) by (simp_all add: sample_row_def amount_val_def)
  show ?thesis using refunds_never_exceed_payment[OF sample_refunded_reachable m] m sample_refunded_reachable v by simp
qed

text \<open>C4. History only moves forward: from a reachable state on, no row is ever deleted; a payment keeps
  its document, key, provider, amount and currency; a refund keeps its payment and amount, and once
  succeeded or failed it stays so; a hold that ended never becomes active again; recorded events never
  change.\<close>

theorem ledger_history_monotone:
  assumes "ledger_reachable db" and "ledger_step\<^sup>*\<^sup>* db db'"
  shows "(\<forall>r\<in>set (db_payments db). \<exists>r'\<in>set (db_payments db'). pay_core r' = pay_core r) \<and>
    (\<forall>x\<in>set (db_refunds db). \<exists>x'\<in>set (db_refunds db'). refund_core x' = refund_core x \<and>
       (rr_Status x = RefundSucceeded \<or> rr_Status x = RefundFailed \<longrightarrow> rr_Status x' = rr_Status x)) \<and>
    (\<forall>h\<in>set (db_holds db). \<exists>h'\<in>set (db_holds db'). hold_core h' = hold_core h \<and>
       (hw_Status h \<noteq> HoldActive \<longrightarrow> hw_Status h' = hw_Status h)) \<and>
    set (db_events db) \<subseteq> set (db_events db')"
proof -
  have ev: "evolves db db'" by (rule reachable_evolves[OF assms])
  have "\<exists>r'\<in>set (db_payments db'). pay_core r' = pay_core r" if "r \<in> set (db_payments db)" for r
    using ev grows_mem[of pay_keeps "db_payments db" "db_payments db'" r] that
    by (auto simp: evolves_def pay_keeps_def)
  moreover have "\<exists>x'\<in>set (db_refunds db'). refund_core x' = refund_core x \<and>
       (rr_Status x = RefundSucceeded \<or> rr_Status x = RefundFailed \<longrightarrow> rr_Status x' = rr_Status x)"
    if "x \<in> set (db_refunds db)" for x
    using ev grows_mem[of refund_keeps "db_refunds db" "db_refunds db'" x] that refund_moves_status(2,3)
    unfolding evolves_def refund_keeps_def by metis
  moreover have "\<exists>h'\<in>set (db_holds db'). hold_core h' = hold_core h \<and>
       (hw_Status h \<noteq> HoldActive \<longrightarrow> hw_Status h' = hw_Status h)" if "h \<in> set (db_holds db)" for h
    using ev grows_mem[of hold_keeps "db_holds db" "db_holds db'" h] that
    unfolding evolves_def hold_keeps_def by metis
  moreover have "set (db_events db) \<subseteq> set (db_events db')"
    using ev grows_mem[of "(=)" "db_events db" "db_events db'"] by (auto simp: evolves_def)
  ultimately show ?thesis by blast
qed

theorem ledger_history_monotone_witness:
  "ledger_reachable sample_paid \<and> ledger_step\<^sup>*\<^sup>* sample_paid sample_refunded \<and>
   (\<exists>r'\<in>set (db_payments sample_refunded). pay_core r' = pay_core sample_row)"
proof -
  have st: "ledger_step\<^sup>*\<^sup>* sample_paid sample_refunded" using refund[OF sample_refund_tx] by blast
  have "sample_row \<in> set (db_payments sample_paid)" by (simp add: sample_paid_def)
  then show ?thesis using ledger_history_monotone[OF sample_paid_reachable st] st sample_paid_reachable by blast
qed

section \<open>Charges\<close>

lemma document_rows_mem:
  "r \<in> set (document_rows db org ty did) \<longleftrightarrow>
     r \<in> set (db_payments db) \<and> pr_OrganizationID r = org \<and> pr_DocumentType r = ty \<and> pr_DocumentID r = did"
  by (auto simp: document_rows_def)

lemma document_payments: "document e org ty did db = Inr d \<Longrightarrow> d_Payments d = map row_payment (document_rows db org ty did)"
  by (auto simp: document_def Let_def elim!: rbindE)

lemma charge_newE:
  assumes "charge_tx e org req db = Inr (db', res, Some row)"
  obtains doc x tot paid amount where
    "CheckCharge (map_option row_hold (activeHold db org (ch_DocumentType req) (ch_DocumentID req)))
       (hashToken e (ch_HoldToken req)) (e_now e) = Inr ()"
    "document e org (ch_DocumentType req) (ch_DocumentID req) db = Inr doc"
    "CheckReplay (d_Payments doc) (d_Refunds doc) (ch_IdempotencyKey req) (ch_DocumentTotal req) = Inr (VerdictNew, x)"
    "uncoded (MustAmount (ch_DocumentTotal req)) = Inr tot" "uncoded (MustAmount (d_Paid doc)) = Inr paid"
    "uncoded (MustAmount (ch_Amount req)) = Inr amount" "amount \<le> tot - paid"
    "row = new_payment_row e org req" "Validate (row_payment row) = []"
  using assms unfolding charge_tx_def Let_def
  by (auto elim!: rbindE split: if_splits sum.splits prod.splits simp: not_less)

lemma uncoded_Must: "uncoded (MustAmount s) = Inr a \<longleftrightarrow> ParseAmount s = Inr a"
  by (auto simp: uncoded_def MustAmount_def split: sum.splits)

text \<open>C2. A charge is created only when the document is free for it: no live hold of someone else, no
  payment of the document still open, the key unused there, and what already counts as paid plus the
  new amount within the total. The created row is valid and is the only row added.\<close>

theorem charge_created_only_when_free:
  assumes "charge_tx e org req db = Inr (db', res, Some row)"
  shows "(\<forall>h. activeHold db org (ch_DocumentType req) (ch_DocumentID req) = Some h \<longrightarrow>
            Live (row_hold h) (e_now e) \<longrightarrow> Owns (row_hold h) (hashToken e (ch_HoldToken req))) \<and>
    (\<forall>p\<in>set (db_payments db). pr_OrganizationID p = org \<and> pr_DocumentType p = ch_DocumentType req \<and>
       pr_DocumentID p = ch_DocumentID req \<longrightarrow> \<not> Open (pr_Status p) \<and> pr_IdempotencyKey p \<noteq> ch_IdempotencyKey req) \<and>
    (\<exists>doc tot paid amount. document e org (ch_DocumentType req) (ch_DocumentID req) db = Inr doc \<and>
       ParseAmount (ch_DocumentTotal req) = Inr tot \<and> ParseAmount (d_Paid doc) = Inr paid \<and>
       ParseAmount (ch_Amount req) = Inr amount \<and> paid + amount \<le> tot) \<and>
    db_payments db' = db_payments db @ [row] \<and> db_refunds db' = db_refunds db \<and> Validate (row_payment row) = []"
  using assms
proof (rule charge_newE)
  fix doc x tot paid amount
  assume A: "CheckCharge (map_option row_hold (activeHold db org (ch_DocumentType req) (ch_DocumentID req)))
       (hashToken e (ch_HoldToken req)) (e_now e) = Inr ()"
    "document e org (ch_DocumentType req) (ch_DocumentID req) db = Inr doc"
    "CheckReplay (d_Payments doc) (d_Refunds doc) (ch_IdempotencyKey req) (ch_DocumentTotal req) = Inr (VerdictNew, x)"
    "uncoded (MustAmount (ch_DocumentTotal req)) = Inr tot" "uncoded (MustAmount (d_Paid doc)) = Inr paid"
    "uncoded (MustAmount (ch_Amount req)) = Inr amount" "amount \<le> tot - paid" "Validate (row_payment row) = []"
  have "Live (row_hold h) (e_now e) \<longrightarrow> Owns (row_hold h) (hashToken e (ch_HoldToken req))"
    if "activeHold db org (ch_DocumentType req) (ch_DocumentID req) = Some h" for h
    using A(1) that by (auto simp: CheckCharge_def split: if_splits)
  moreover have "\<not> Open (pr_Status p) \<and> pr_IdempotencyKey p \<noteq> ch_IdempotencyKey req"
    if "p \<in> set (db_payments db)" "pr_OrganizationID p = org" "pr_DocumentType p = ch_DocumentType req"
      "pr_DocumentID p = ch_DocumentID req" for p
    using A(3) that by (auto simp: CheckReplay_new_iff document_payments[OF A(2)] document_rows_mem)
  moreover have "paid + amount \<le> tot" using A(7) by simp
  ultimately show ?thesis using A charge_tx_created[OF assms] by (simp add: uncoded_Must)
qed

theorem charge_created_only_when_free_witness:
  "\<exists>res. charge_tx (sample_env 0 ''a'' StatusPaid) ''org'' sample_charge empty_db = Inr (sample_paid, res, Some sample_row) \<and>
     db_payments sample_paid = db_payments empty_db @ [sample_row] \<and> Validate (row_payment sample_row) = []"
proof -
  obtain res where r: "charge_tx (sample_env 0 ''a'' StatusPaid) ''org'' sample_charge empty_db = Inr (sample_paid, res, Some sample_row)"
    using sample_charge_tx by blast
  show ?thesis using charge_created_only_when_free[OF r] r by blast
qed

text \<open>C5. Charging is idempotent for good: once a document has a payment with a key, a request with that key
  for that document never creates another one, in any later state; it answers the replay, the payment
  in progress, or that a new key is needed, and changes nothing.\<close>

theorem charge_key_is_used_once:
  assumes "ledger_reachable db" and "p \<in> set (db_payments db)" and "ledger_step\<^sup>*\<^sup>* db db1"
    and "ch_DocumentType req = pr_DocumentType p" and "ch_DocumentID req = pr_DocumentID p"
    and "ch_IdempotencyKey req = pr_IdempotencyKey p"
    and "charge_tx e (pr_OrganizationID p) req db1 = Inr (db2, res, x)"
  shows "x = None \<and> db2 = db1 \<and> cr_Verdict res \<noteq> Some VerdictNew"
proof -
  have "evolves db db1" by (rule reachable_evolves[OF assms(1,3)])
  then obtain p' where p': "p' \<in> set (db_payments db1)" "pay_core p = pay_core p'"
    using grows_mem[of pay_keeps "db_payments db" "db_payments db1" p] assms(2)
    by (auto simp: evolves_def pay_keeps_def)
  have none: "x = None"
  proof (cases x)
    case (Some row)
    note tx = assms(7)[unfolded Some]
    obtain doc y where d: "document e (pr_OrganizationID p) (ch_DocumentType req) (ch_DocumentID req) db1 = Inr doc"
      and rp: "CheckReplay (d_Payments doc) (d_Refunds doc) (ch_IdempotencyKey req) (ch_DocumentTotal req) = Inr (VerdictNew, y)"
      by (rule charge_newE[OF tx])
    have "row_payment p' \<in> set (d_Payments doc)"
      using p' assms(4,5) by (auto simp: document_payments[OF d] document_rows_mem pay_core_def)
    then have "p_IdempotencyKey (row_payment p') \<noteq> ch_IdempotencyKey req" using rp by (auto simp: CheckReplay_new_iff)
    then show ?thesis using p'(2) assms(6) by (simp add: pay_core_def)
  qed simp
  moreover have "cr_Verdict res \<noteq> Some VerdictNew"
    using assms(7) none unfolding charge_tx_def Let_def by (auto elim!: rbindE split: if_splits sum.splits prod.splits)
  ultimately show ?thesis using charge_tx_created[OF assms(7)] by simp
qed

lemma sample_charge_again:
  "charge_tx (sample_env 5 ''c'' StatusPaid) ''org'' sample_charge sample_paid =
     Inr (sample_paid, no_charge\<lparr>cr_Verdict := Some VerdictReplay, cr_Payment := Some (row_payment sample_row)\<rparr>, None)"
proof -
  have rows: "document_rows sample_paid ''org'' ''sales_order'' ''doc-1'' = [sample_row]"
    by (simp add: document_rows_def sample_paid_def sample_row_def)
  have o: "refund_rows sample_paid ''org'' ids = []" "activeHold sample_paid o1 o2 o3 = None" for ids o1 o2 o3
    by (simp_all add: refund_rows_def activeHold_def sample_paid_def empty_db_def)
  have paid: "net_of [row_payment sample_row] 0 = Inr 100" "DocumentPaid [row_payment sample_row] [] = Inr 100"
    "\<not> blank ''k1''" by code_simp+
  show ?thesis using paid
    by (simp add: charge_tx_def Let_def sample_charge_def o CheckCharge_def document_def rows uncoded_def CheckReplay_def)
       (simp add: sample_row_def)
qed

theorem charge_key_is_used_once_witness:
  "charge_tx (sample_env 5 ''c'' StatusPaid) ''org'' sample_charge sample_paid =
     Inr (sample_paid, no_charge\<lparr>cr_Verdict := Some VerdictReplay, cr_Payment := Some (row_payment sample_row)\<rparr>, None) \<and>
   Some VerdictReplay \<noteq> Some VerdictNew"
proof -
  have m: "sample_row \<in> set (db_payments sample_paid)" by (simp add: sample_paid_def)
  have f: "ch_DocumentType sample_charge = pr_DocumentType sample_row" "ch_DocumentID sample_charge = pr_DocumentID sample_row"
    "ch_IdempotencyKey sample_charge = pr_IdempotencyKey sample_row" "pr_OrganizationID sample_row = ''org''"
    by (simp_all add: sample_charge_def sample_row_def)
  note again = sample_charge_again[folded f(4)]
  show ?thesis
    using charge_key_is_used_once[OF sample_paid_reachable m rtranclp.rtrancl_refl f(1-3) again] sample_charge_again by simp
qed

section \<open>Holds\<close>

text \<open>C7. In every reachable state a document has at most one active hold, and while it is live a caller
  without its token can neither take the hold, nor release it, nor create a charge of the document.\<close>

theorem live_hold_is_exclusive:
  assumes "ledger_reachable db" and "h \<in> set (db_holds db)" and "Live (row_hold h) (e_now e)"
    and "\<not> Owns (row_hold h) (hashToken e token)"
    and "hr_DocumentType hreq = hw_DocumentType h" and "hr_DocumentID hreq = hw_DocumentID h" and "hr_Token hreq = token"
    and "ch_DocumentType creq = hw_DocumentType h" and "ch_DocumentID creq = hw_DocumentID h" and "ch_HoldToken creq = token"
  shows "(\<forall>g\<in>set (db_holds db). hold_document g = hold_document h \<and> hw_Status g = HoldActive \<longrightarrow> g = h) \<and>
    isl (AcquireHold e (hw_OrganizationID h) hreq caller db) \<and>
    ReleaseHold e (hw_OrganizationID h) (hw_DocumentType h) (hw_DocumentID h) token False db = Inl (LedgerError CodeHoldNotOwner) \<and>
    charge_tx e (hw_OrganizationID h) creq db = Inl (LedgerError CodeInPayment)"
proof -
  have ok: "holds_ok (db_holds db)" using reachable_tables_ok[OF assms(1)] by (simp add: tables_ok_def)
  have act: "hw_Status h = HoldActive" "e_now e < hw_ExpiresAt h" using assms(3) by (simp_all add: Live_def)
  have cur: "activeHold db (hw_OrganizationID h) (hw_DocumentType h) (hw_DocumentID h) = Some h"
    by (rule activeHold_unique[OF ok assms(2) act(1)])
  have "g = h" if "g \<in> set (db_holds db)" "hold_document g = hold_document h" "hw_Status g = HoldActive" for g
    using activeHold_unique[OF ok that(1,3)] cur that(2) unfolding hold_document_def by (metis option.inject prod.inject)
  moreover have "isl (AcquireHold e (hw_OrganizationID h) hreq caller db)"
    using assms(3,4) cur
    by (simp add: AcquireHold_def Let_def Acquire_def assms(5-7))
  moreover have "ReleaseHold e (hw_OrganizationID h) (hw_DocumentType h) (hw_DocumentID h) token False db = Inl (LedgerError CodeHoldNotOwner)"
    using assms(3,4) cur act by (simp add: ReleaseHold_def Release_def)
  moreover have "charge_tx e (hw_OrganizationID h) creq db = Inl (LedgerError CodeInPayment)"
    using assms(3,4,8-10) cur by (simp add: charge_tx_def Let_def CheckCharge_def)
  ultimately show ?thesis by blast
qed

theorem live_hold_is_exclusive_witness:
  "sample_hold_row \<in> set (db_holds sample_held) \<and>
   charge_tx (sample_env 7 ''c'' StatusPaid) ''org'' sample_charge sample_held = Inl (LedgerError CodeInPayment)"
proof -
  have m: "sample_hold_row \<in> set (db_holds sample_held)" by (simp add: sample_held_def)
  have v: "Live (row_hold sample_hold_row) (e_now (sample_env 7 ''c'' StatusPaid))"
    "\<not> Owns (row_hold sample_hold_row) (hashToken (sample_env 7 ''c'' StatusPaid) [])"
    "hr_DocumentType sample_hold_request = hw_DocumentType sample_hold_row" "hr_DocumentID sample_hold_request = hw_DocumentID sample_hold_row"
    "hr_Token sample_hold_request = []" "ch_DocumentType sample_charge = hw_DocumentType sample_hold_row"
    "ch_DocumentID sample_charge = hw_DocumentID sample_hold_row" "ch_HoldToken sample_charge = []" "hw_OrganizationID sample_hold_row = ''org''"
    by (simp_all add: Live_def Owns_def hashToken_def sample_env_def sample_hold_row_def sample_hold_request_def sample_charge_def)
  show ?thesis using live_hold_is_exclusive[OF sample_held_reachable m v(1-8)] v(9) m by simp
qed

section \<open>Handlers\<close>

text \<open>Every handler of the ledger (charge, refresh, cancel, observe, refund, settle, recheck) and a whole
  reconciliation run, whatever the providers answer and whatever fails on the way, is a sequence of
  the modelled transactions: it takes a reachable state to a reachable state, so every invariant holds
  before, between and after them.\<close>

lemma handlers_stay_reachable:
  assumes "ledger_reachable db"
  shows "ledger_reachable (fst (StartCharge e org creq db)) \<and> ledger_reachable (fst (Refresh e org pid source db)) \<and>
    ledger_reachable (fst (Cancel e org pid key reason db)) \<and>
    ledger_reachable (fst (Ledger_Observe e org caller provider oc source db)) \<and>
    ledger_reachable (fst (CreateRefund e org rreq db)) \<and> ledger_reachable (fst (SettleRefund e org sreq db)) \<and>
    ledger_reachable (fst (recheckRefunds e org limit db)) \<and> ledger_reachable (fst (RunOrg rc envs org db))"
  using assms unfolding ledger_reachable_def
  by (intro conjI runs_StartCharge runs_Refresh runs_Cancel runs_Ledger_Observe runs_CreateRefund runs_SettleRefund
      runs_recheckRefunds runs_RunOrg)

section \<open>Provider events\<close>

text \<open>A row without the two columns every observation stamps.\<close>

definition unstamped :: "paymentRow \<Rightarrow> paymentRow" where
  "unstamped r = r\<lparr>pr_LastCheckedAt := None, pr_UpdatedAt := 0\<rparr>"

lemma unstamped_stamp [simp]: "unstamped (stamp e r) = unstamped r"
  by (simp add: unstamped_def stamp_def)

lemma update_where_unstamped: "map unstamped (update_where p (stamp e) rows) = map unstamped rows"
  by (rule map_update_where) simp

lemma insertEvent_known:
  assumes "\<exists>ev\<in>set (db_events db). er_OrganizationID ev = org \<and> er_Provider ev = provider \<and> er_EventID ev = DedupeEventID oc"
    and "er_OrganizationID ev = org" "er_Provider ev = provider" "er_EventID ev = DedupeEventID oc"
  shows "insertEvent ev db = Inr (db, True)"
  using assms by (auto simp: insertEvent_def)

lemma observed_row:
  assumes "observe_tx e org provider oc source db = Inr (db', res)" and "i < length (db_payments db)"
    and "pr_Status (db_payments db' ! i) \<noteq> pr_Status (db_payments db ! i)" and "tables_ok db"
  obtains row where "findPayment db org provider oc = Some row" "db_payments db ! i = row"
    "pr_Status (db_payments db' ! i) = o_Status oc"
    "fst (ObserveOutcome (row_payment row) oc) = Apply \<or>
      fst (ObserveOutcome (row_payment row) oc) = Anomaly \<and> source = SourceReconcile \<and>
      pr_Anomaly row = snd (ObserveOutcome (row_payment row) oc) \<and> pr_AnomalyStatus row = o_Status oc \<and>
      \<not> moneyMismatch (pr_Anomaly row) \<and>
      (\<exists>ev\<in>set (db_events db'). er_OrganizationID ev = org \<and> er_Provider ev = provider \<and>
         er_EventID ev = DedupeEventID oc @ ''|corrected'')"
proof (cases "findPayment db org provider oc")
  case None
  then have "db_payments db' = db_payments db"
    using assms(1) by (auto simp: observe_tx_def elim!: rbindE split: if_splits dest!: insertEvent_iff)
  then show ?thesis using assms(3) by simp
next
  case (Some row)
  have tx: "observe_known e org provider oc source row db = Inr (db', res)" using assms(1) Some by (simp add: observe_tx_def)
  obtain f where f: "db_payments db' = update_where (\<lambda>r. pr_ID r = pr_ID row) f (db_payments db)"
    "(\<forall>r. pr_Status (f r) = pr_Status r) \<or> (\<forall>r. pr_Status (f r) = o_Status oc) \<and>
     (fst (ObserveOutcome (row_payment row) oc) = Apply \<or>
      fst (ObserveOutcome (row_payment row) oc) = Anomaly \<and> source = SourceReconcile \<and>
      pr_Anomaly row = snd (ObserveOutcome (row_payment row) oc) \<and> pr_AnomalyStatus row = o_Status oc \<and>
      \<not> moneyMismatch (pr_Anomaly row) \<and>
      (\<exists>ev\<in>set (db_events db'). er_OrganizationID ev = org \<and> er_Provider ev = provider \<and>
         er_EventID ev = DedupeEventID oc @ ''|corrected''))"
    using observe_known_payments[OF tx] by blast
  have nth: "db_payments db' ! i = (if pr_ID (db_payments db ! i) = pr_ID row then f (db_payments db ! i) else db_payments db ! i)"
    using assms(2) by (simp add: f(1) update_where_def)
  then have id: "pr_ID (db_payments db ! i) = pr_ID row" and st: "\<not> (\<forall>r. pr_Status (f r) = pr_Status r)"
    using assms(3) by (auto split: if_splits)
  have "row \<in> set (db_payments db)" using findPayment_Some[OF Some] by simp
  then have row: "db_payments db ! i = row" using payment_by_id[OF assms(4)] id assms(2) nth_mem by blast
  show ?thesis
    by (rule that[OF Some row]) (use f(2) st nth id in auto)
qed

definition has_reason :: "observation \<Rightarrow> bool" where
  "has_reason r \<longleftrightarrow> (fst r = Anomaly \<longrightarrow> snd r \<noteq> ReasonNone)"

lemma has_reason_Observe: "has_reason (Observe s t)"
  by (auto simp: has_reason_def Observe_def)

lemma has_reason_capture: "capture_check oc k a = Some r \<Longrightarrow> has_reason r"
  by (auto simp: has_reason_def capture_check_def split: if_splits sum.splits)

lemma has_reason_refunded: "refunded_check p oc a b = Some r \<Longrightarrow> has_reason r"
  unfolding refunded_check_def by (auto simp: has_reason_def split: if_splits sum.splits option.splits)

lemma has_reason_pair: "x \<noteq> ReasonNone \<Longrightarrow> has_reason (d, x)"
  by (simp add: has_reason_def)

lemma has_reason_if: "has_reason a \<Longrightarrow> has_reason b \<Longrightarrow> has_reason (if c then a else b)"
  by simp

lemma has_reason_sum:
  "(\<And>x. r = Inl x \<Longrightarrow> has_reason (f x)) \<Longrightarrow> (\<And>y. r = Inr y \<Longrightarrow> has_reason (g y)) \<Longrightarrow>
     has_reason (case r of Inl x \<Rightarrow> f x | Inr y \<Rightarrow> g y)"
  by (cases r) simp_all

lemma has_reason_option:
  "(r = None \<Longrightarrow> has_reason a) \<Longrightarrow> (\<And>y. r = Some y \<Longrightarrow> has_reason (g y)) \<Longrightarrow>
     has_reason (case r of None \<Rightarrow> a | Some y \<Rightarrow> g y)"
  by (cases r) simp_all

lemma ObserveOutcome_has_reason: "has_reason (ObserveOutcome p oc)"
  unfolding ObserveOutcome_def Let_def
  by (intro has_reason_if has_reason_sum has_reason_option has_reason_Observe has_reason_pair;
      (elim has_reason_capture has_reason_refunded | simp))

text \<open>C3. Recording an update changes the status of at most one payment, the one the update's references find, and only along
  the lifecycle: to a status reachable from the stored one, unless the reconciler reads for the second time the anomaly already
  flagged on that payment, in which case a correction is recorded under its own event id. So outside
  such a correction a captured payment stays captured.\<close>

theorem observed_moves_follow_lifecycle:
  assumes "tables_ok db" and "observe_tx e org provider oc source db = Inr (db', res)"
    and "i < length (db_payments db)" and "pr_Status (db_payments db' ! i) \<noteq> pr_Status (db_payments db ! i)"
  shows "findPayment db org provider oc = Some (db_payments db ! i) \<and>
    pr_OrganizationID (db_payments db ! i) = org \<and> pr_Provider (db_payments db ! i) = provider \<and>
    pr_Status (db_payments db' ! i) = o_Status oc \<and>
    (forward (pr_Status (db_payments db ! i)) (o_Status oc) \<or>
     source = SourceReconcile \<and> pr_Anomaly (db_payments db ! i) \<noteq> ReasonNone \<and>
     \<not> moneyMismatch (pr_Anomaly (db_payments db ! i)) \<and> pr_AnomalyStatus (db_payments db ! i) = o_Status oc \<and>
     (\<exists>ev\<in>set (db_events db'). er_OrganizationID ev = org \<and> er_Provider ev = provider \<and>
        er_EventID ev = DedupeEventID oc @ ''|corrected''))"
proof (rule observed_row[OF assms(2-4,1)])
  fix row
  assume f: "findPayment db org provider oc = Some row" and row: "db_payments db ! i = row"
    and st: "pr_Status (db_payments db' ! i) = o_Status oc"
    and d: "fst (ObserveOutcome (row_payment row) oc) = Apply \<or>
      fst (ObserveOutcome (row_payment row) oc) = Anomaly \<and> source = SourceReconcile \<and>
      pr_Anomaly row = snd (ObserveOutcome (row_payment row) oc) \<and> pr_AnomalyStatus row = o_Status oc \<and>
      \<not> moneyMismatch (pr_Anomaly row) \<and>
      (\<exists>ev\<in>set (db_events db'). er_OrganizationID ev = org \<and> er_Provider ev = provider \<and>
         er_EventID ev = DedupeEventID oc @ ''|corrected'')"
  have "forward (pr_Status row) (o_Status oc)" if "fst (ObserveOutcome (row_payment row) oc) = Apply"
    using that by (rule ObserveOutcome_ApplyD) simp
  then show ?thesis
    using d st f findPayment_Some[OF f] ObserveOutcome_has_reason[of "row_payment row" oc]
    unfolding row has_reason_def by auto
qed

definition sample_open_row :: paymentRow where
  "sample_open_row = sample_row\<lparr>pr_Provider := ''stripe'', pr_Channel := ChannelTerminal, pr_Status := StatusAtDevice,
     pr_ProviderRef := Some ''pi_1'', pr_PaidAt := None, pr_DocumentTotal := None\<rparr>"

definition sample_open :: ldb where
  "sample_open = empty_db\<lparr>db_payments := [sample_open_row]\<rparr>"

definition sample_paid_outcome :: Outcome where
  "sample_paid_outcome = sample_outcome\<lparr>o_Status := StatusPaid, o_AmountRefunded := [], o_EventID := ''evt_2''\<rparr>"

lemma sample_observe_paid:
  "\<exists>db' res. observe_tx (sample_env 3 ''x'' StatusPaid) ''org'' ''stripe'' sample_paid_outcome SourceWebhook sample_open = Inr (db', res) \<and>
     pr_Status (db_payments db' ! 0) = StatusPaid"
proof -
  let ?e = "sample_env 3 ''x'' StatusPaid"
  have f: "findPayment sample_open ''org'' ''stripe'' sample_paid_outcome = Some sample_open_row"
    by (simp add: findPayment_def sample_open_def sample_open_row_def sample_row_def sample_paid_outcome_def sample_outcome_def)
  have d: "ObserveOutcome (row_payment sample_open_row) sample_paid_outcome = (Apply, ReasonNone)" by code_simp
  have ap: "applied_refunded sample_open_row sample_paid_outcome = Inr None"
    by (simp add: applied_refunded_def sample_paid_outcome_def sample_outcome_def)
  have m: "MustAmount (norm_text ''0'') = Inr 0" by code_simp
  have o: "o_Status sample_paid_outcome = StatusPaid" "o_EventID sample_paid_outcome = ''evt_2''" "o_ProviderRef sample_paid_outcome = ''pi_1''"
    by (simp_all add: sample_paid_outcome_def sample_outcome_def)
  have r: "pr_AmountRefunded sample_open_row = ''0''" "pr_DocumentTotal sample_open_row = None" "pr_ID sample_open_row = ''a0''"
    "pr_ProviderRef sample_open_row = Some ''pi_1''"
    by (simp_all add: sample_open_row_def sample_row_def)
  define ev where "ev = (observe_event ?e ''org'' ''stripe'' sample_paid_outcome SourceWebhook)
    \<lparr>er_PaymentID := Some (pr_ID sample_open_row), er_Decision := Decided Apply, er_Reason := ReasonNone\<rparr>"
  define db1 where "db1 = sample_open\<lparr>db_events := [ev]\<rparr>"
  have rec: "record_event ?e ev (row_payment sample_open_row) sample_paid_outcome Apply False sample_open = Inr (db1, False)"
    by (simp add: record_event_def insertEvent_def events_ok_def sample_open_def empty_db_def db1_def)
  obtain upd where upd: "applyOutcome ?e sample_open_row sample_paid_outcome = Inr upd" by (simp add: applyOutcome_def ap)
  define new where "new = upd (stamp ?e sample_open_row)"
  have new: "pr_Status new = StatusPaid" "pr_AmountRefunded new = ''0''" "pr_ID new = ''a0''"
    using upd by (auto simp: applyOutcome_def ap o r new_def stamp_def)
  define db2 where "db2 = db1\<lparr>db_payments := [new]\<rparr>"
  have up: "update_payments (\<lambda>r. pr_ID r = pr_ID sample_open_row) (\<lambda>r. upd (stamp ?e r)) db1 = Inr db2"
    by (simp add: update_payments_def set_payments_def payments_ok_def db1_def db2_def sample_open_def new_def)
  have fnd: "find (\<lambda>r. pr_ID r = pr_ID sample_open_row) (db_payments db2) = Some new"
    by (simp add: db2_def new r)
  have "\<exists>res. observe_known ?e ''org'' ''stripe'' sample_paid_outcome SourceWebhook sample_open_row sample_open = Inr (db2, res)"
    unfolding observe_known_def Let_def d prod.case
    by (simp only: Decision.simps simp_thms if_True if_False ev_def[symmetric] rec rbind_simps prod.case upd up fnd option.case)
       (simp add: new r m uncoded_def settleDocument_def normPtr_def)
  then show ?thesis using new by (auto simp: observe_tx_def f db2_def)
qed

theorem observed_moves_follow_lifecycle_witness:
  "\<exists>db' res. observe_tx (sample_env 3 ''x'' StatusPaid) ''org'' ''stripe'' sample_paid_outcome SourceWebhook sample_open = Inr (db', res) \<and>
     pr_Status (db_payments db' ! 0) = StatusPaid \<and> forward StatusAtDevice StatusPaid \<and>
     findPayment sample_open ''org'' ''stripe'' sample_paid_outcome = Some (db_payments sample_open ! 0)"
proof -
  obtain db' res where r: "observe_tx (sample_env 3 ''x'' StatusPaid) ''org'' ''stripe'' sample_paid_outcome SourceWebhook sample_open = Inr (db', res)"
    and st: "pr_Status (db_payments db' ! 0) = StatusPaid" using sample_observe_paid by blast
  have h: "tables_ok sample_open" "0 < length (db_payments sample_open)"
    by (simp_all add: tables_ok_def sample_open_def empty_db_def payments_ok_def events_ok_def refunds_ok_def holds_ok_def)
  have old: "pr_Status (db_payments sample_open ! 0) = StatusAtDevice" by (simp add: sample_open_def sample_open_row_def)
  have "pr_Status (db_payments db' ! 0) \<noteq> pr_Status (db_payments sample_open ! 0)" using st old by simp
  from observed_moves_follow_lifecycle[OF h(1) r h(2) this] show ?thesis using r st old by auto
qed

text \<open>The second consistent read of the reconciler: it meets the payment with the anomaly it flagged before, which was not
  about money, and the provider still reports the status that raised it.\<close>

definition second_read :: "string \<Rightarrow> string \<Rightarrow> Outcome \<Rightarrow> Source \<Rightarrow> ldb \<Rightarrow> bool" where
  "second_read org provider oc source db \<longleftrightarrow> source = SourceReconcile \<and>
     (case findPayment db org provider oc of None \<Rightarrow> False
      | Some row \<Rightarrow> pr_Anomaly row \<noteq> ReasonNone \<and> \<not> moneyMismatch (pr_Anomaly row) \<and> pr_AnomalyStatus row = o_Status oc)"

text \<open>An update without an event id of its own, met by a payment that has since left the reported status, may be a valid
  move again; such a move is recorded, and so applied, once per status it starts from.\<close>

definition fresh_move :: "string \<Rightarrow> string \<Rightarrow> Outcome \<Rightarrow> ldb \<Rightarrow> bool" where
  "fresh_move org provider oc db \<longleftrightarrow> o_EventID oc = [] \<and>
     (case findPayment db org provider oc of None \<Rightarrow> False
      | Some row \<Rightarrow> pr_Status row \<noteq> o_Status oc \<and> forward (pr_Status row) (o_Status oc) \<and>
          (\<forall>ev\<in>set (db_events db). er_OrganizationID ev = org \<and> er_Provider ev = provider \<longrightarrow>
             er_EventID ev \<noteq> DedupeEventID oc @ ''|after|'' @ status_string (pr_Status row)))"

lemma record_event_known:
  assumes "\<exists>ev\<in>set (db_events db). er_OrganizationID ev = org \<and> er_Provider ev = provider \<and> er_EventID ev = DedupeEventID oc"
    and ev: "er_OrganizationID ev = org" "er_Provider ev = provider" "er_EventID ev = DedupeEventID oc"
    and find: "findPayment db org provider oc = Some row" and dr: "ObserveOutcome (row_payment row) oc = (decision, reason)"
    and "\<not> fresh_move org provider oc db"
  shows "record_event e ev (row_payment row) oc decision False db = Inr (db, True)"
proof (cases "decision = Apply \<and> o_EventID oc = [] \<and> pr_Status row \<noteq> o_Status oc")
  case True
  have "fst (ObserveOutcome (row_payment row) oc) = Apply" using True dr by simp
  then have "forward (pr_Status row) (o_Status oc)" by (rule ObserveOutcome_ApplyD) simp
  then have "\<exists>ev\<in>set (db_events db). er_OrganizationID ev = org \<and> er_Provider ev = provider \<and>
      er_EventID ev = DedupeEventID oc @ ''|after|'' @ status_string (pr_Status row)"
    using assms(7) True find by (auto simp: fresh_move_def)
  then show ?thesis using insertEvent_known[OF assms(1) ev] ev by (auto simp: record_event_def insertEvent_def)
next
  case False
  then show ?thesis using insertEvent_known[OF assms(1) ev] by (auto simp: record_event_def)
qed

text \<open>C6. A provider update is applied once. When an event with the id of the update (its own, or the one derived from its
  references) is already recorded for the organization and the provider, recording it again changes no payment (but for the
  times it was last checked and updated), no refund, no hold and no event, and reports a duplicate. There are two
  exceptions: the reconciler's second consistent read of a flagged anomaly, and an update without an event id of its own
  that is a valid move from the present status not recorded before.\<close>

theorem event_applied_once:
  assumes "\<exists>ev\<in>set (db_events db). er_OrganizationID ev = org \<and> er_Provider ev = provider \<and> er_EventID ev = DedupeEventID oc"
    and "observe_tx e org provider oc source db = Inr (db', res)"
  shows "map unstamped (db_payments db') = map unstamped (db_payments db) \<and> db_refunds db' = db_refunds db \<and>
      db_holds db' = db_holds db \<and> db_events db' = db_events db \<and> ob_Duplicate (or_obs res) \<or>
    second_read org provider oc source db \<or> fresh_move org provider oc db"
proof (cases "findPayment db org provider oc")
  case None
  have "insertEvent ((observe_event e org provider oc source)\<lparr>er_Reason := ReasonOrphan\<rparr>) db = Inr (db, True)"
    by (rule insertEvent_known[OF assms(1)]) (simp_all add: observe_event_def)
  then show ?thesis using assms(2) None by (auto simp: observe_tx_def silent_def)
next
  case (Some row)
  obtain decision reason where dr: "ObserveOutcome (row_payment row) oc = (decision, reason)" by fastforce
  let ?ev = "(observe_event e org provider oc source)\<lparr>er_PaymentID := Some (pr_ID row),
    er_Decision := Decided decision, er_Reason := reason\<rparr>"
  show ?thesis
  proof (cases "second_read org provider oc source db \<or> fresh_move org provider oc db")
    case False
    have rec: "record_event e ?ev (row_payment row) oc decision False db = Inr (db, True)"
      using False by (intro record_event_known[OF assms(1) _ _ _ Some dr]) (simp_all add: observe_event_def)
    have "\<not> (decision = Anomaly \<and> source = SourceReconcile \<and> pr_Anomaly row = reason \<and> pr_AnomalyStatus row = o_Status oc \<and>
        \<not> moneyMismatch reason)"
      using False Some dr ObserveOutcome_has_reason[of "row_payment row" oc] by (auto simp: second_read_def has_reason_def)
    then obtain u: "update_payments (\<lambda>r. pr_ID r = pr_ID row) (stamp e) db = Inr db'" "ob_Duplicate (or_obs res)"
      using assms(2) rec by (auto simp: observe_tx_def Some observe_known_def Let_def dr silent_def elim!: rbindE)
    then show ?thesis using update_where_unstamped by (auto simp: row_simps)
  qed simp
qed

text \<open>The paid notice of the open terminal payment, already recorded once.\<close>

definition sample_event :: eventRow where
  "sample_event =
     \<lparr>er_ID = ''e0'', er_OrganizationID = ''org'', er_PaymentID = Some ''a0'', er_Provider = ''stripe'', er_EventID = ''evt_2'',
      er_Kind = KindPayment, er_Source = SourceWebhook, er_Status = StatusPaid, er_Decision = Decided Apply,
      er_Reason = ReasonNone, er_Outcome = sample_paid_outcome, er_ObservedAt = 0\<rparr>"

lemma sample_observe_again:
  "\<exists>db' res. observe_tx (sample_env 3 ''x'' StatusPaid) ''org'' ''stripe'' sample_paid_outcome SourceWebhook
     (sample_open\<lparr>db_events := [sample_event]\<rparr>) = Inr (db', res)"
proof -
  let ?e = "sample_env 3 ''x'' StatusPaid" and ?db = "sample_open\<lparr>db_events := [sample_event]\<rparr>"
  have f: "findPayment ?db ''org'' ''stripe'' sample_paid_outcome = Some sample_open_row"
    by (simp add: findPayment_def sample_open_def sample_open_row_def sample_row_def sample_paid_outcome_def sample_outcome_def)
  have d: "ObserveOutcome (row_payment sample_open_row) sample_paid_outcome = (Apply, ReasonNone)" by code_simp
  have k: "DedupeEventID sample_paid_outcome = ''evt_2''" "o_EventID sample_paid_outcome = ''evt_2''" by code_simp+
  have i: "insertEvent ((observe_event ?e ''org'' ''stripe'' sample_paid_outcome SourceWebhook)
      \<lparr>er_PaymentID := Some (pr_ID sample_open_row), er_Decision := Decided Apply, er_Reason := ReasonNone\<rparr>) ?db = Inr (?db, True)"
    by (rule insertEvent_known[of _ "''org''" "''stripe''" sample_paid_outcome]) (simp_all add: sample_event_def observe_event_def k)
  show ?thesis
    by (simp add: observe_tx_def f observe_known_def d record_event_def i k) (simp add: update_payments_def set_payments_def payments_ok_def sample_open_def)
qed

theorem event_applied_once_witness:
  "\<exists>db' res. observe_tx (sample_env 3 ''x'' StatusPaid) ''org'' ''stripe'' sample_paid_outcome SourceWebhook
     (sample_open\<lparr>db_events := [sample_event]\<rparr>) = Inr (db', res) \<and>
     map unstamped (db_payments db') = map unstamped [sample_open_row] \<and> ob_Duplicate (or_obs res)"
proof -
  let ?db = "sample_open\<lparr>db_events := [sample_event]\<rparr>"
  have h: "\<exists>ev\<in>set (db_events ?db). er_OrganizationID ev = ''org'' \<and> er_Provider ev = ''stripe'' \<and>
      er_EventID ev = DedupeEventID sample_paid_outcome"
    by (simp add: sample_event_def) code_simp
  have "\<not> second_read ''org'' ''stripe'' sample_paid_outcome SourceWebhook ?db" "\<not> fresh_move ''org'' ''stripe'' sample_paid_outcome ?db"
    by (simp_all add: second_read_def fresh_move_def sample_paid_outcome_def)
  then show ?thesis using event_applied_once[OF h] sample_observe_again by (fastforce simp: sample_open_def)
qed

end
