(* ===== verification/Ledger_Recheck.thy ===== *)
theory Ledger_Recheck
  imports Ledger_Samples
begin

text \<open>
  What the ledger does on its own: the automatic re-queries of pending refunds (\<^verbatim>\<open>recheckRefund\<close>,
  \<^verbatim>\<open>updateRefund\<close> of \<^verbatim>\<open>src/payments/ledger/refund.go\<close>) and the lease that lets one replica reconcile an
  organization at a time (\<^verbatim>\<open>claim\<close>, \<^verbatim>\<open>renew\<close> and \<^verbatim>\<open>release\<close> of \<^verbatim>\<open>src/payments/ledger/reconcile.go\<close>), which
  is the second resource behind the contract \<open>guarded_resource\<close>.
\<close>

section \<open>What a provider can influence\<close>

text \<open>The environment with other providers behind it.\<close>

definition with_providers :: "providers option \<Rightarrow> env \<Rightarrow> env" where
  "with_providers pv e = e\<lparr>e_providers := pv\<rparr>"

lemma with_providers_simps [simp]:
  "e_now (with_providers pv e) = e_now e" "e_providers (with_providers pv e) = pv"
  "e_uuid_parse (with_providers pv e) = e_uuid_parse e" "e_publish (with_providers pv e) = e_publish e"
  "e_anomalies (with_providers pv e) = e_anomalies e"
  "e_RefundRepostWindow (with_providers pv e) = e_RefundRepostWindow e"
  "e_DefaultRefundRepostWindow (with_providers pv e) = e_DefaultRefundRepostWindow e"
  "e_format_rfc3339 (with_providers pv e) = e_format_rfc3339 e"
  by (simp_all add: with_providers_def)

lemma provider_free:
  "publish (with_providers pv e) = publish e"
  "raise (with_providers pv e) = raise e"
  "paymentRow_get (with_providers pv e) = paymentRow_get e"
  "repostWindow (with_providers pv e) = repostWindow e"
  "updateRefund (with_providers pv e) = updateRefund e"
  "recheck_write (with_providers pv e) = recheck_write e"
  unfolding fun_eq_iff publish_def raise_def paymentRow_get_def repostWindow_def updateRefund_def recheck_write_def
    with_providers_simps
  by (rule refl allI)+

lemma provider_free_refund:
  "refundResult (with_providers pv e) = refundResult e"
  "applyRefunds_tx (with_providers pv e) = applyRefunds_tx e"
  unfolding fun_eq_iff refundResult_def applyRefunds_tx_def Payment_get_def provider_free with_providers_simps
  by (rule refl allI)+

lemma provider_free_apply: "applyRefunds (with_providers pv e) = applyRefunds e"
  unfolding fun_eq_iff applyRefunds_def provider_free provider_free_refund by (rule refl allI)+

lemma provider_free_record:
  "record_refund_answer (with_providers pv e) = record_refund_answer e"
  "refund_refused (with_providers pv e) = refund_refused e"
  unfolding fun_eq_iff record_refund_answer_def refund_refused_def provider_free provider_free_refund provider_free_apply
  by (rule refl allI)+

lemmas provider_frees = provider_free provider_free_refund provider_free_apply provider_free_record

text \<open>A recheck of a numbered refund asks one question, of the key \<^verbatim>\<open>commerce.payments.refund.status\<close>.\<close>

lemma status_question:
  assumes "\<And>q. q_Capability q = CommercePaymentsRefundStatus \<Longrightarrow> ask_refund pv q = ask_refund pv' q"
  shows "refundStatusAtProvider (with_providers (Some pv) e) org pay r db =
         refundStatusAtProvider (with_providers (Some pv') e) org pay r db"
  unfolding refundStatusAtProvider_def askRefund_def provider_frees by (simp add: assms)

lemma recheck_numbered:
  assumes "rr_ProviderRefundID r \<noteq> []"
    and "\<And>q. q_Capability q = CommercePaymentsRefundStatus \<Longrightarrow> ask_refund pv q = ask_refund pv' q"
  shows "recheckRefund (with_providers (Some pv) e) org pay r db = recheckRefund (with_providers (Some pv') e) org pay r db"
  unfolding recheckRefund_def provider_frees by (simp add: assms(1) Let_def status_question[OF assms(2)])

definition past_window :: "env \<Rightarrow> refundRow \<Rightarrow> bool" where
  "past_window e r \<longleftrightarrow> e_now e - rr_CreatedAt r > repostWindow e (rr_Provider r)"

lemma recheck_expired:
  assumes "rr_ProviderRefundID r = []" "past_window e r"
  shows "recheckRefund (with_providers pv e) org pay r db = recheckRefund (with_providers pv' e) org pay r db"
  unfolding recheckRefund_def provider_frees using assms by (simp add: past_window_def Let_def)

section \<open>Rewriting one refund\<close>

definition put_refund :: "refundRow \<Rightarrow> refundRow list \<Rightarrow> refundRow list" where
  "put_refund r' = map (\<lambda>x. if rr_ID x = rr_ID r' then r' else x)"

lemma update_one_refund:
  assumes "tables_ok db" "r \<in> set (db_refunds db)" "P r" "refund_core (f r) = refund_core r" "\<And>x. rr_ID (f x) = rr_ID x"
  shows "update_refunds (\<lambda>x. rr_ID x = rr_ID r \<and> P x) f db = Inr (db\<lparr>db_refunds := put_refund (f r) (db_refunds db)\<rparr>)"
proof -
  have rows: "update_where (\<lambda>x. rr_ID x = rr_ID r \<and> P x) f (db_refunds db) = put_refund (f r) (db_refunds db)"
    unfolding update_where_def put_refund_def
    by (intro map_cong refl) (use assms refund_by_id[OF assms(1) _ assms(2)] in auto)
  have key: "map g (put_refund (f r) (db_refunds db)) = map g (db_refunds db)" if "g (f r) = g r" for g :: "refundRow \<Rightarrow> 'k"
    unfolding put_refund_def map_map
    by (intro map_cong refl) (use that assms refund_by_id[OF assms(1) _ assms(2)] in auto)
  have "refunds_ok (put_refund (f r) (db_refunds db))"
    using assms(1,4) unfolding refunds_ok_def tables_ok_def by (subst (1 2) key) (auto simp: refund_core_def)
  then show ?thesis by (simp add: update_refunds_def set_refunds_def rows)
qed

lemma find_put_refund:
  assumes "tables_ok db" "find_refund db org rid = Some r" "rr_ID r' = rr_ID r" "rr_OrganizationID r' = org"
  shows "find_refund (db\<lparr>db_refunds := put_refund r' (db_refunds db)\<rparr>) org rid = Some r'"
proof -
  have "find (\<lambda>x. rr_OrganizationID x = org \<and> rr_ID x = rid) (map (\<lambda>x. if rr_ID x = rr_ID r' then r' else x) xs) = Some r'"
    if "find (\<lambda>x. rr_OrganizationID x = org \<and> rr_ID x = rid) xs = Some r" "\<forall>x\<in>set xs. rr_ID x = rr_ID r \<longrightarrow> x = r" for xs
    using that assms(3,4) by (induction xs) (auto split: if_splits)
  moreover have "\<forall>x\<in>set (db_refunds db). rr_ID x = rr_ID r \<longrightarrow> x = r"
    using refund_by_id[OF assms(1)] find_refund_Some[OF assms(2)] by blast
  ultimately show ?thesis using assms(2) by (simp add: find_refund_def put_refund_def)
qed

section \<open>Leases as a guarded resource\<close>

datatype lease_op =
    LeaseClaim Reconciler env
  | LeaseRenew Reconciler env
  | LeaseRelease Reconciler env Report

fun lease_owner :: "lease_op \<Rightarrow> string" where
  "lease_owner (LeaseClaim r _) = rc_Owner r"
| "lease_owner (LeaseRenew r _) = rc_Owner r"
| "lease_owner (LeaseRelease r _ _) = rc_Owner r"

fun lease_time :: "lease_op \<Rightarrow> int" where
  "lease_time (LeaseClaim _ e) = e_now e"
| "lease_time (LeaseRenew _ e) = e_now e"
| "lease_time (LeaseRelease _ e _) = e_now e"

fun lease_apply :: "string \<times> lease_op \<Rightarrow> ldb \<Rightarrow> ldb" where
  "lease_apply (org, LeaseClaim r e) db = fst (claim r e org db)"
| "lease_apply (org, LeaseRenew r e) db = fst (renew r e org db)"
| "lease_apply (org, LeaseRelease r e rep) db = release_lease r e org rep db"

definition lease_held :: "string \<Rightarrow> string \<Rightarrow> int \<Rightarrow> ldb \<Rightarrow> bool" where
  "lease_held org owner now db \<longleftrightarrow>
     (\<exists>x\<in>set (db_leases db). lr_OrganizationID x = org) \<and>
     (\<forall>x\<in>set (db_leases db). lr_OrganizationID x = org \<longrightarrow>
        lr_LockedBy x = owner \<and> (case lr_LockedUntil x of None \<Rightarrow> False | Some t \<Rightarrow> now \<le> t))"

definition lease_may_change :: "string \<times> lease_op \<Rightarrow> ldb \<Rightarrow> bool" where
  "lease_may_change c db \<longleftrightarrow> \<not> (\<exists>owner. owner \<noteq> lease_owner (snd c) \<and> lease_held (fst c) owner (lease_time (snd c)) db)"

lemma update_where_none: "(\<And>x. x \<in> set xs \<Longrightarrow> \<not> p x) \<Longrightarrow> update_where p f xs = xs"
  by (auto simp: update_where_def intro: map_idI)

lemma held_not_claimable:
  assumes "lease_held org owner (e_now e) db" "owner \<noteq> rc_Owner r"
  shows "claim r e org db = (db, False)"
proof -
  have e: "ensure_lease org (db_leases db) = db_leases db" using assms(1) by (auto simp: ensure_lease_def lease_held_def)
  have n: "\<And>x. x \<in> set (db_leases db) \<Longrightarrow> \<not> claimable r org (e_now e) x"
    using assms by (fastforce simp: claimable_def lease_held_def split: option.splits)
  then have "filter (claimable r org (e_now e)) (db_leases db) = []" by (simp add: filter_empty_conv)
  then show ?thesis by (simp add: claim_def e update_where_none[OF n])
qed

interpretation lease: guarded_resource lease_apply lease_may_change
proof
  fix c :: "string \<times> lease_op" and db :: ldb
  assume "\<not> lease_may_change c db"
  then obtain owner where o: "owner \<noteq> lease_owner (snd c)" "lease_held (fst c) owner (lease_time (snd c)) db"
    by (auto simp: lease_may_change_def)
  obtain org lop where c: "c = (org, lop)" by (cases c)
  have n: "\<not> own_lease r org x" if "x \<in> set (db_leases db)" "rc_Owner r = lease_owner lop" for r x
    using that o by (auto simp: own_lease_def lease_held_def c)
  show "lease_apply c db = db"
  proof (cases lop)
    case (LeaseClaim r e)
    then show ?thesis using o held_not_claimable[of org owner e db r] by (simp add: c)
  next
    case (LeaseRenew r e)
    then show ?thesis using n[of _ r] by (simp add: c renew_def update_where_none)
  next
    case (LeaseRelease r e rep)
    then show ?thesis using n[of _ r] by (simp add: c release_lease_def update_where_none)
  qed
qed

section \<open>Properties\<close>

text \<open>C9. A replica that holds the lease of an organization has it to itself until the lease expires: every
  claim, renewal or release made meanwhile by replicas with another name changes nothing, and a
  reconciliation run they start is skipped without touching the database.\<close>

theorem lease_is_exclusive:
  assumes "lease_held org owner until db"
    and "\<forall>op\<in>set ops. lease_owner op \<noteq> owner \<and> lease_time op \<le> until"
    and "rc_Owner r \<noteq> owner" "rc_Owner r \<noteq> []" "e_now (envs 0) \<le> until"
  shows "fold (\<lambda>op. lease_apply (org, op)) ops db = db \<and>
         RunOrg r envs org db = (db, (new_report org)\<lparr>rep_Skipped := True\<rparr>)"
proof -
  have held: "lease_held org owner t db" if "t \<le> until" for t
    using assms(1) that by (fastforce simp: lease_held_def split: option.splits)
  have "\<forall>c\<in>set (map (Pair org) ops). \<not> lease_may_change c db"
    using assms(2) held unfolding lease_may_change_def by (auto intro!: exI[of _ owner])
  then have "lease.run_ops (map (Pair org) ops) db = db" by (rule lease.run_foreign)
  moreover have "claim (rc_defaults (envs 0) r) (envs 0) org db = (db, False)"
    by (rule held_not_claimable[of _ owner]) (use held assms in \<open>auto simp: rc_defaults_def\<close>)
  ultimately show ?thesis by (simp add: lease.run_ops_def fold_map comp_def RunOrg_def)
qed

definition sample_lease :: leaseRow where
  "sample_lease =
     \<lparr>lr_OrganizationID = ''org'', lr_LockedBy = ''a'', lr_LockedUntil = Some 300, lr_LastRunAt = None, lr_LastReport = None\<rparr>"

definition sample_reconciler :: Reconciler where
  "sample_reconciler = \<lparr>rc_MinAge = 0, rc_StuckAfter = 0, rc_Window = 0, rc_Batch = 0, rc_Lease = 0, rc_Owner = ''b''\<rparr>"

theorem lease_is_exclusive_witness:
  "RunOrg sample_reconciler (\<lambda>k. sample_env (int k) ''x'' StatusPaid) ''org'' (sample_paid\<lparr>db_leases := [sample_lease]\<rparr>) =
     (sample_paid\<lparr>db_leases := [sample_lease]\<rparr>, (new_report ''org'')\<lparr>rep_Skipped := True\<rparr>)"
  using lease_is_exclusive[of "''org''" "''a''" 300 "sample_paid\<lparr>db_leases := [sample_lease]\<rparr>" "[]" sample_reconciler
    "\<lambda>k. sample_env (int k) ''x'' StatusPaid"]
  by (simp add: lease_held_def sample_lease_def sample_reconciler_def sample_env_def)

text \<open>No automatic recheck ever sends a second refund of money that may already have moved: for a
  refund the provider numbered, or one past the window in which its idempotency key is still honoured,
  the recheck does the same whatever the provider would answer to a refund request. It only reads.\<close>

theorem recheck_never_refunds_again:
  assumes "rr_ProviderRefundID r \<noteq> [] \<or> past_window e r"
    and "\<forall>q. q_Capability q = CommercePaymentsRefundStatus \<longrightarrow> ask_refund pv q = ask_refund pv' q"
  shows "recheckRefund (with_providers (Some pv) e) org pay r db = recheckRefund (with_providers (Some pv') e) org pay r db"
  using assms recheck_numbered[of r pv pv' e org pay db] recheck_expired[of r e "Some pv" org pay db "Some pv'"] by blast

definition sample_numbered :: refundRow where
  "sample_numbered = sample_refund_row\<lparr>rr_Provider := ''stripe'', rr_Destination := RefundToOriginal, rr_ProviderRefundID := ''re_1''\<rparr>"

theorem recheck_never_refunds_again_witness:
  "recheckRefund (with_providers (Some (sample_providers StatusPaid)) (sample_env 3 ''x'' StatusPaid)) ''org'' sample_row sample_numbered sample_paid =
   recheckRefund (with_providers (Some ((sample_providers StatusPaid)\<lparr>ask_refund :=
        (\<lambda>q. if q_Capability q = CommercePaymentsRefund then QueryError ''boom'' else ask_refund (sample_providers StatusPaid) q)\<rparr>))
     (sample_env 3 ''x'' StatusPaid)) ''org'' sample_row sample_numbered sample_paid"
  by (rule recheck_never_refunds_again) (simp_all add: sample_numbered_def)

text \<open>Recording a provider's answer about a refund always succeeds and is monotone: the refund's status
  afterwards is the one reported to the caller and either stays or makes one step of the refund
  lifecycle, so a final refund keeps its status whatever answer arrives late; the provider's number,
  once known, is kept, and neither the amount nor any other refund is touched.\<close>

theorem updateRefund_is_monotone:
  assumes "tables_ok db" and "find_refund db org rid = Some r"
  shows "\<exists>db' r' st'. updateRefund e org rid st providerID instructions reason db = Inr (db', st') \<and>
    find_refund db' org rid = Some r' \<and> db' = db\<lparr>db_refunds := put_refund r' (db_refunds db)\<rparr> \<and>
    rr_Status r' = st' \<and> refund_core r' = refund_core r \<and>
    st' = (if CanTransitionRefund (rr_Status r) st then st else rr_Status r) \<and>
    (rr_Status r \<in> {RefundSucceeded, RefundFailed} \<longrightarrow> st' = rr_Status r) \<and>
    rr_ProviderRefundID r' = (if rr_ProviderRefundID r = [] then providerID else rr_ProviderRefundID r)"
proof -
  note rid = find_refund_Some[OF assms(2)]
  define moves where "moves \<longleftrightarrow> st \<noteq> rr_Status r \<and> CanTransitionRefund (rr_Status r) st"
  define f where "f = (\<lambda>x::refundRow. x\<lparr>rr_UpdatedAt := e_now e, rr_Status := (if moves then st else rr_Status x),
     rr_SettledAt := (if moves \<and> st = RefundSucceeded then Some (e_now e) else rr_SettledAt x),
     rr_Reason := (if moves \<and> reason \<noteq> [] then reason else rr_Reason x),
     rr_ProviderRefundID := (if providerID \<noteq> [] \<and> rr_ProviderRefundID r = [] then providerID else rr_ProviderRefundID x),
     rr_Instructions := (if instructions \<noteq> [] then truncate_text instructions 1000 else rr_Instructions x)\<rparr>)"
  have f: "refund_core (f r) = refund_core r" "\<And>x. rr_ID (f x) = rr_ID x" "rr_OrganizationID (f r) = org"
    using rid by (simp_all add: f_def refund_core_def)
  have "update_refunds (\<lambda>x. rr_ID x = rr_ID r \<and> (moves \<longrightarrow> rr_Status x = rr_Status r)) f db =
      Inr (db\<lparr>db_refunds := put_refund (f r) (db_refunds db)\<rparr>)"
    by (rule update_one_refund) (use assms rid f in auto)
  then have "updateRefund e org rid st providerID instructions reason db =
      Inr (db\<lparr>db_refunds := put_refund (f r) (db_refunds db)\<rparr>, if moves then st else rr_Status r)"
    unfolding updateRefund_def assms(2) option.case Let_def moves_def[symmetric] f_def[symmetric] by simp
  moreover have "find_refund (db\<lparr>db_refunds := put_refund (f r) (db_refunds db)\<rparr>) org rid = Some (f r)"
    by (rule find_put_refund) (use assms f in auto)
  moreover have "\<not> CanTransitionRefund s st" if "s \<in> {RefundSucceeded, RefundFailed}" for s
    using that by (auto simp: CanTransitionRefund_def)
  ultimately show ?thesis
    using f by (intro exI[of _ "f r"] exI conjI) (auto simp: f_def moves_def)
qed

theorem updateRefund_is_monotone_witness:
  "\<exists>db' st'. updateRefund (sample_env 9 ''x'' StatusPaid) ''org'' ''b0'' RefundSucceeded ''re_1'' [] [] sample_refunded = Inr (db', st') \<and>
     st' = RefundSucceeded"
proof -
  have h: "tables_ok sample_refunded" "find_refund sample_refunded ''org'' ''b0'' = Some sample_refund_row"
    by (simp_all add: tables_ok_def find_refund_def sample_refunded_def sample_paid_def empty_db_def payments_ok_def
          events_ok_def refunds_ok_def holds_ok_def sample_refund_row_def)
  have "CanTransitionRefund (rr_Status sample_refund_row) RefundSucceeded"
    by (simp add: CanTransitionRefund_def sample_refund_row_def)
  then show ?thesis
    using updateRefund_is_monotone[OF h, of "sample_env 9 ''x'' StatusPaid" RefundSucceeded "''re_1''" "[]" "[]"] by auto
qed

text \<open>A pending refund the provider never numbered, past its window, goes to a human: one recheck
  flags it for review and raises the anomaly, changes nothing else, and from then on no automatic
  recheck of any size at any time selects it again.\<close>

theorem unnumbered_refund_goes_to_review:
  assumes "tables_ok db" "r \<in> set (db_refunds db)"
    and "rr_Status r = RefundPending" "\<not> rr_NeedsReview r" "rr_ProviderRefundID r = []" "past_window e r"
  shows "\<exists>db' res. recheckRefund e org pay r db = (db', res, None) \<and>
    db' = raise e (review_anomaly org (row_payment pay) r)
            (db\<lparr>db_refunds := put_refund (r\<lparr>rr_NeedsReview := True, rr_NextRecheckAt := None\<rparr>) (db_refunds db)\<rparr>) \<and>
    map_option r_NeedsReview (rs_Refund res) = Some True \<and>
    (\<forall>e' org' limit. rr_ID r \<notin> rr_ID ` set (due_refunds e' org' limit db'))"
proof -
  let ?r = "r\<lparr>rr_NeedsReview := True, rr_NextRecheckAt := None\<rparr>"
  let ?db = "db\<lparr>db_refunds := put_refund ?r (db_refunds db)\<rparr>"
  have w: "recheck_write e r True db = Inr ?db"
    unfolding recheck_write_def if_True simp_thms
    by (subst update_one_refund[where r = r and P = "\<lambda>x. rr_Status x = RefundPending \<and> rr_ProviderRefundID x = []"])
       (use assms in \<open>auto simp: refund_core_def\<close>)
  have hit: "\<exists>x\<in>set (db_refunds db). rr_ID x = rr_ID r \<and> rr_Status x = RefundPending \<and> rr_ProviderRefundID x = []"
    using assms by blast
  have st: "r_Status (row_refund r) = RefundPending" using assms(3) by (simp add: row_refund_def)
  have run: "recheckRefund e org pay r db = (raise e (review_anomaly org (row_payment pay) r) ?db,
      no_refund_result\<lparr>rs_Refund := Some ((row_refund r)\<lparr>r_NeedsReview := True\<rparr>), rs_Payment := Some (row_payment pay)\<rparr>, None)"
    unfolding recheckRefund_def using assms(3-6) hit w st by (simp add: Let_def past_window_def)
  have rows: "db_refunds (raise e (review_anomaly org (row_payment pay) r) ?db) = put_refund ?r (db_refunds db)"
    by (simp add: raise_def Let_def)
  have "\<forall>x\<in>set (put_refund ?r (db_refunds db)). rr_ID x = rr_ID r \<longrightarrow> rr_NeedsReview x"
    by (auto simp: put_refund_def split: if_splits)
  then have "rr_ID r \<notin> rr_ID ` set (due_refunds e' org' limit (raise e (review_anomaly org (row_payment pay) r) ?db))" for e' org' limit
    unfolding due_refunds_def Let_def rows by (auto dest!: in_set_takeD split: if_splits)
  then show ?thesis unfolding run by (intro exI conjI) (rule refl | simp)+
qed

definition sample_lost_refund :: refundRow where
  "sample_lost_refund = sample_refund_row\<lparr>rr_Provider := ''stripe'', rr_Destination := RefundToOriginal\<rparr>"

theorem unnumbered_refund_goes_to_review_witness:
  "\<exists>db' res. recheckRefund (sample_env (13 * 3600 * second_ns) ''x'' StatusPaid) ''org'' sample_row sample_lost_refund
       (sample_paid\<lparr>db_refunds := [sample_lost_refund]\<rparr>) = (db', res, None) \<and>
     map_option r_NeedsReview (rs_Refund res) = Some True"
proof -
  let ?db = "sample_paid\<lparr>db_refunds := [sample_lost_refund]\<rparr>"
  let ?e = "sample_env (13 * 3600 * second_ns) ''x'' StatusPaid"
  have "tables_ok ?db" "sample_lost_refund \<in> set (db_refunds ?db)" "rr_Status sample_lost_refund = RefundPending"
    "\<not> rr_NeedsReview sample_lost_refund" "rr_ProviderRefundID sample_lost_refund = []" "past_window ?e sample_lost_refund"
    by (simp_all add: tables_ok_def sample_paid_def empty_db_def payments_ok_def events_ok_def refunds_ok_def holds_ok_def
          sample_lost_refund_def sample_refund_row_def past_window_def repostWindow_def sample_env_def second_ns_def
          DefaultRefundRepostWindow_def)
  from unnumbered_refund_goes_to_review[OF this, of "''org''" sample_row] show ?thesis by blast
qed

text \<open>The wait before the next re-query of a refund is between a minute and an hour, never shrinks
  from one attempt to the next and at most doubles.\<close>

theorem refundBackoff_bounds:
  assumes "0 \<le> attempt"
  shows "60 * second_ns \<le> refundBackoff attempt \<and> refundBackoff attempt \<le> 3600 * second_ns \<and>
         refundBackoff attempt \<le> refundBackoff (attempt + 1) \<and> refundBackoff (attempt + 1) \<le> 2 * refundBackoff attempt"
proof (cases "attempt \<ge> 6")
  case False
  then have "attempt \<in> {0, 1, 2, 3, 4, 5}" using assms by auto
  then show ?thesis by (auto simp: refundBackoff_def second_ns_def)
qed (simp add: refundBackoff_def second_ns_def)

theorem refundBackoff_bounds_witness: "60 * second_ns \<le> refundBackoff 5 \<and> refundBackoff 6 \<le> 2 * refundBackoff 5"
  using refundBackoff_bounds[of 5] by simp

end
