(* ===== verification/Ledger_Findings.thy ===== *)
theory Ledger_Findings
  imports Ledger_Samples
begin

text \<open>
  Two observations the ledger accepts that leave a payment which \<^verbatim>\<open>Payment.Validate\<close> rejects. Both go
  through \<^verbatim>\<open>ObserveOutcome\<close> as \<^verbatim>\<open>apply\<close>: it checks a refunded total only for captured statuses and only
  when the outcome gives one, while \<^verbatim>\<open>applyOutcome\<close> copies the status and the total unconditionally.
\<close>

definition sample_open_payment :: paymentRow where
  "sample_open_payment = sample_row\<lparr>pr_Provider := ''stripe'', pr_Channel := ChannelTerminal, pr_Status := StatusPending,
     pr_ProviderRef := Some ''pi_1'', pr_PaidAt := None\<rparr>"

definition sample_card_payment :: paymentRow where
  "sample_card_payment = sample_row\<lparr>pr_Provider := ''stripe'', pr_Channel := ChannelTerminal, pr_ProviderRef := Some ''pi_1''\<rparr>"

text \<open>An open payment observed as on its device, with a refunded total: the total is stored although
  nothing was captured.\<close>

definition early_refund :: Outcome where
  "early_refund = sample_outcome\<lparr>o_Status := StatusAtDevice, o_AmountRefunded := ''40.00''\<rparr>"

text \<open>A paid payment observed as partially refunded, by an update about the payment that gives no refunded
  total: the status moves and the refunded amount stays zero.\<close>

definition partial_without_total :: Outcome where
  "partial_without_total = sample_outcome\<lparr>o_Status := StatusPartiallyRefunded, o_AmountRefunded := [], o_Kind := KindPayment\<rparr>"

definition observed_row :: "paymentRow \<Rightarrow> Outcome \<Rightarrow> (lerr, paymentRow) result" where
  "observed_row row oc = rbind (applyOutcome (sample_env 5 ''x'' StatusPaid) row oc) (\<lambda>upd. Inr (upd row))"

text \<open>A refunded total reported for a payment that is not captured is applied unchecked: a valid open
  payment, a valid outcome and the decision to apply it give a row that \<^verbatim>\<open>Payment.Validate\<close> rejects,
  because a payment that is not captured cannot have refunds.\<close>

theorem uncaptured_refund_is_stored:
  "Validate (row_payment sample_open_payment) = [] \<and> validOutcome early_refund = Inr () \<and>
   ObserveOutcome (row_payment sample_open_payment) early_refund = (Apply, ReasonNone) \<and>
   (case observed_row sample_open_payment early_refund of
      Inl _ \<Rightarrow> False | Inr row \<Rightarrow> pr_AmountRefunded row = ''40.00'' \<and> Validate (row_payment row) \<noteq> [])"
  by code_simp

text \<open>A partial refund reported without its total is applied with a refunded amount of zero: a valid
  paid payment, a valid outcome and the decision to apply it give a row whose status contradicts its
  refunded total, which \<^verbatim>\<open>Payment.Validate\<close> rejects.\<close>

theorem partial_refund_without_total:
  "Validate (row_payment sample_card_payment) = [] \<and> validOutcome partial_without_total = Inr () \<and>
   ObserveOutcome (row_payment sample_card_payment) partial_without_total = (Apply, ReasonNone) \<and>
   (case observed_row sample_card_payment partial_without_total of
      Inl _ \<Rightarrow> False | Inr row \<Rightarrow> pr_AmountRefunded row = ''0'' \<and> pr_Status row = StatusPartiallyRefunded \<and>
        Validate (row_payment row) \<noteq> [])"
  by code_simp

end
