(* ===== verification/Money_Decimal.thy ===== *)
theory Money_Decimal
  imports Prelude "HOL-Library.Signed_Division" "HOL-Library.Word"
begin

text \<open>
  Rounding and exact decimals of the money package (\<^verbatim>\<open>src/money/rounding.go\<close>, \<^verbatim>\<open>src/money/decimal.go\<close>,
  \<^verbatim>\<open>src/money/errors.go\<close>).

  A \<^verbatim>\<open>big.Int\<close> is an \<^typ>\<open>int\<close>; \<^verbatim>\<open>QuoRem\<close> is truncated division, the library's \<^verbatim>\<open>sdiv\<close> and \<^verbatim>\<open>smod\<close>. The
  specification of rounding is \<open>round_spec\<close>, a function on rationals; \<open>divRound\<close> implements it, and the
  locale \<open>rounding\<close> states what the rest of the package relies on.
\<close>

section \<open>Errors\<close>

text \<open>The sentinel errors; \<open>MoneyPanic\<close> is a run-time panic (a division by zero, an index out of range).\<close>

datatype money_error = ErrCurrencyMismatch | ErrOverflow | ErrPrecision | ErrInvalid | MoneyPanic

section \<open>Rounding modes\<close>

text \<open>A \<^verbatim>\<open>uint8\<close>; \<open>ModeOther\<close> is a number without a name.\<close>

datatype RoundingMode =
  HalfAwayFromZero | HalfEven | TowardZero | AwayFromZero | Floor | Ceiling | ModeOther nat

definition modeNames :: "(RoundingMode \<times> string) list" where
  "modeNames =
     [(HalfAwayFromZero, ''halfAwayFromZero''), (HalfEven, ''halfEven''), (TowardZero, ''towardZero''),
      (AwayFromZero, ''awayFromZero''), (Floor, ''floor''), (Ceiling, ''ceil'')]"

definition mode_valid :: "RoundingMode \<Rightarrow> bool" where
  "mode_valid m \<longleftrightarrow> (case m of ModeOther _ \<Rightarrow> False | _ \<Rightarrow> True)"

definition mode_MarshalText :: "RoundingMode \<Rightarrow> (money_error, string) result" where
  "mode_MarshalText m = (case map_of modeNames m of Some n \<Rightarrow> Inr n | None \<Rightarrow> Inl ErrInvalid)"

definition ParseRoundingMode :: "string \<Rightarrow> (money_error, RoundingMode) result" where
  "ParseRoundingMode s = (case find (\<lambda>(m, n). n = s) modeNames of Some (m, _) \<Rightarrow> Inr m | None \<Rightarrow> Inl ErrInvalid)"

definition checkMode :: "RoundingMode \<Rightarrow> (money_error, unit) result" where
  "checkMode m = (if mode_valid m then Inr () else Inl ErrInvalid)"

definition round_up :: "RoundingMode \<Rightarrow> int \<Rightarrow> int \<Rightarrow> int \<Rightarrow> int \<Rightarrow> bool" where
  "round_up mode sign q r den =
     (case mode of
        TowardZero \<Rightarrow> False
      | AwayFromZero \<Rightarrow> True
      | Floor \<Rightarrow> sign < 0
      | Ceiling \<Rightarrow> sign > 0
      | _ \<Rightarrow> 2 * \<bar>r\<bar> > \<bar>den\<bar> \<or> (2 * \<bar>r\<bar> = \<bar>den\<bar> \<and> (mode = HalfAwayFromZero \<or> odd q)))"

definition divRound :: "int \<Rightarrow> int \<Rightarrow> RoundingMode \<Rightarrow> int" where
  "divRound num den mode =
     (let q = num sdiv den; r = num smod den; sign = sgn num * sgn den
      in if r = 0 then q else if round_up mode sign q r den then q + sign else q)"

section \<open>What rounding means\<close>

definition round_spec :: "RoundingMode \<Rightarrow> rat \<Rightarrow> int" where
  "round_spec mode x =
     (case mode of
        TowardZero \<Rightarrow> if x \<ge> 0 then \<lfloor>x\<rfloor> else \<lceil>x\<rceil>
      | AwayFromZero \<Rightarrow> if x \<ge> 0 then \<lceil>x\<rceil> else \<lfloor>x\<rfloor>
      | Floor \<Rightarrow> \<lfloor>x\<rfloor>
      | Ceiling \<Rightarrow> \<lceil>x\<rceil>
      | HalfAwayFromZero \<Rightarrow> if x \<ge> 0 then \<lfloor>x + 1 / 2\<rfloor> else \<lceil>x - 1 / 2\<rceil>
      | _ \<Rightarrow> if x - of_int \<lfloor>x\<rfloor> = 1 / 2 \<and> even \<lfloor>x\<rfloor> then \<lfloor>x\<rfloor> else \<lfloor>x + 1 / 2\<rfloor>)"

lemma quotient_parts:
  fixes a b :: int
  assumes "0 < b" "0 \<le> a"
  shows "(of_int a / of_int b :: rat) = of_int (a div b) + of_int (a mod b) / of_int b"
    and "0 \<le> (of_int (a mod b) / of_int b :: rat)" "(of_int (a mod b) / of_int b :: rat) < 1"
proof -
  have "(of_int a :: rat) = of_int (a div b) * of_int b + of_int (a mod b)"
    by (metis div_mult_mod_eq of_int_add of_int_mult)
  then show "(of_int a / of_int b :: rat) = of_int (a div b) + of_int (a mod b) / of_int b"
    using assms by (simp add: add_divide_distrib)
  show "0 \<le> (of_int (a mod b) / of_int b :: rat)" "(of_int (a mod b) / of_int b :: rat) < 1"
    using assms by simp_all
qed

text \<open>Rounding of a non-negative number with integer part \<open>k\<close> and fraction \<open>f\<close>, and of its negation.\<close>

lemma floor_parts:
  fixes f :: rat
  assumes "0 \<le> f" "f < 1"
  shows "\<lfloor>of_int k + f\<rfloor> = k" "\<lceil>- (of_int k + f)\<rceil> = - k"
    "\<lceil>of_int k + f\<rceil> = (if f = 0 then k else k + 1)" "\<lfloor>- (of_int k + f)\<rfloor> = (if f = 0 then - k else - k - 1)"
    "\<lfloor>of_int k + f + 1 / 2\<rfloor> = (if 1 / 2 \<le> f then k + 1 else k)"
    "\<lceil>- (of_int k + f) - 1 / 2\<rceil> = - (if 1 / 2 \<le> f then k + 1 else k)"
    "\<lfloor>- (of_int k + f) + 1 / 2\<rfloor> = (if f \<le> 1 / 2 then - k else - k - 1)"
  using assms by (auto simp: floor_eq_iff ceiling_eq_iff)

lemma round_spec_nonneg:
  fixes f :: rat
  assumes "0 \<le> f" "f < 1" "0 \<le> k"
  shows "round_spec mode (of_int k + f) =
     (if f = 0 then k else
      case mode of
        TowardZero \<Rightarrow> k | AwayFromZero \<Rightarrow> k + 1 | Floor \<Rightarrow> k | Ceiling \<Rightarrow> k + 1
      | _ \<Rightarrow> if f > 1 / 2 \<or> f = 1 / 2 \<and> (mode = HalfAwayFromZero \<or> odd k) then k + 1 else k)"
proof -
  have "0 \<le> of_int k + f" using assms by simp
  then show ?thesis
    using floor_parts[OF assms(1,2), of k] by (cases mode) (auto simp: round_spec_def)
qed

lemma round_spec_neg:
  fixes f :: rat
  assumes "0 \<le> f" "f < 1" "0 \<le> k" "0 < of_int k + f"
  shows "round_spec mode (- (of_int k + f)) = -
     (if f = 0 then k else
      case mode of
        TowardZero \<Rightarrow> k | AwayFromZero \<Rightarrow> k + 1 | Floor \<Rightarrow> k + 1 | Ceiling \<Rightarrow> k
      | _ \<Rightarrow> if f > 1 / 2 \<or> f = 1 / 2 \<and> (mode = HalfAwayFromZero \<or> odd k) then k + 1 else k)"
proof -
  have neg: "\<not> 0 \<le> - (of_int k + f)" using assms by simp
  have diff: "- (of_int k + f) - of_int \<lfloor>- (of_int k + f)\<rfloor> = (if f = 0 then 0 else 1 - f)"
    using floor_parts(4)[OF assms(1,2), of k] by simp
  show ?thesis
    using neg diff floor_parts[OF assms(1,2), of k]
    by (cases mode) (auto simp: round_spec_def)
qed

theorem divRound_round_spec:
  assumes "den \<noteq> 0"
  shows "divRound num den mode = round_spec mode (of_int num / of_int den)"
proof -
  define a b where "a = \<bar>num\<bar>" and "b = \<bar>den\<bar>"
  define k f where "k = a div b" and "f = (of_int (a mod b) / of_int b :: rat)"
  define s where "s = sgn num * sgn den"
  have b: "0 < b" "0 \<le> a" using assms by (simp_all add: a_def b_def)
  note parts = quotient_parts[OF b, folded k_def f_def]
  have k: "0 \<le> k" using b by (simp add: k_def pos_imp_zdiv_nonneg_iff)
  have x: "(of_int num / of_int den :: rat) = of_int s * (of_int k + f)"
    unfolding parts(1)[symmetric] s_def a_def b_def using assms
    by (cases "0 < num"; cases "num = 0"; cases "0 < den") (auto simp: sgn_if)
  have q: "num sdiv den = s * k" by (simp add: signed_divide_int_def s_def k_def a_def b_def)
  have r: "\<bar>num smod den\<bar> = a mod b"
    using b by (auto simp: signed_modulo_int_def a_def b_def abs_mult sgn_if)
  have r0: "num smod den = 0 \<longleftrightarrow> f = 0"
  proof -
    have "num smod den = 0 \<longleftrightarrow> a mod b = 0" unfolding r[symmetric] by simp
    then show ?thesis using b by (simp add: f_def)
  qed
  have half: "2 * (a mod b) > b \<longleftrightarrow> f > 1 / 2" "2 * (a mod b) = b \<longleftrightarrow> f = 1 / 2"
  proof -
    have "f > 1 / 2 \<longleftrightarrow> of_int (2 * (a mod b)) > (of_int b :: rat)" "f = 1 / 2 \<longleftrightarrow> of_int (2 * (a mod b)) = (of_int b :: rat)"
      using b by (auto simp: f_def field_simps)
    then show "2 * (a mod b) > b \<longleftrightarrow> f > 1 / 2" "2 * (a mod b) = b \<longleftrightarrow> f = 1 / 2"
      by (simp_all only: of_int_less_iff of_int_eq_iff)
  qed
  have val: "divRound num den mode = (if f = 0 then s * k
     else if round_up mode s (s * k) (num smod den) den then s * k + s else s * k)"
    unfolding divRound_def Let_def q r0 s_def[symmetric] by simp
  have up: "round_up mode s (s * k) (num smod den) den = (case mode of
        TowardZero \<Rightarrow> False | AwayFromZero \<Rightarrow> True | Floor \<Rightarrow> s < 0 | Ceiling \<Rightarrow> s > 0
      | _ \<Rightarrow> f > 1 / 2 \<or> f = 1 / 2 \<and> (mode = HalfAwayFromZero \<or> odd (s * k)))"
    unfolding round_up_def r b_def[symmetric] half by (cases mode) simp_all
  have "s = 0 \<or> s = 1 \<or> s = - 1" unfolding s_def sgn_if by simp
  then consider "s = 0" | "s = 1" | "s = - 1" by blast
  then show ?thesis
  proof cases
    case 1
    then have "f = 0" "k = 0" using assms by (auto simp: s_def sgn_if f_def k_def a_def split: if_splits)
    with 1 show ?thesis using round_spec_nonneg[of 0 0 mode] by (simp add: val x)
  next
    case 2
    then show ?thesis unfolding val x up using round_spec_nonneg[OF parts(2,3) k, of mode] by (cases mode) auto
  next
    case 3
    show ?thesis
    proof (cases "of_int k + f = 0")
      case True
      then have "f = 0" "k = 0" using parts(2) k by (simp_all add: add_nonneg_eq_0_iff)
      then show ?thesis using round_spec_nonneg[of 0 0 mode] by (simp add: val x)
    next
      case False
      have "0 \<le> (of_int k :: rat)" using k by simp
      then have "0 < of_int k + f" using False parts(2) by linarith
      then show ?thesis unfolding val x up using 3 round_spec_neg[OF parts(2,3) k, of mode] by (cases mode) auto
    qed
  qed
qed

section \<open>The contract of rounding\<close>

text \<open>What every mode promises: whole numbers are kept, the order is kept, and the result is less than one
  unit away.\<close>

locale rounding =
  fixes rnd :: "rat \<Rightarrow> int"
  assumes rnd_whole: "rnd (of_int z) = z"
    and rnd_mono: "x \<le> y \<Longrightarrow> rnd x \<le> rnd y"
begin

lemma rnd_floor_ceiling: "\<lfloor>x\<rfloor> \<le> rnd x \<and> rnd x \<le> \<lceil>x\<rceil>"
  using rnd_mono[of "of_int \<lfloor>x\<rfloor>" x] rnd_mono[of x "of_int \<lceil>x\<rceil>"] by (simp add: rnd_whole)

lemma rnd_error: "\<bar>of_int (rnd x) - x\<bar> < 1"
proof -
  have "of_int \<lfloor>x\<rfloor> \<le> (of_int (rnd x) :: rat)" "(of_int (rnd x) :: rat) \<le> of_int \<lceil>x\<rceil>"
    using rnd_floor_ceiling by (simp_all only: of_int_le_iff)
  then show ?thesis by linarith
qed

lemma rnd_zero_iff: "0 \<le> x \<Longrightarrow> 0 \<le> rnd x"
  using rnd_mono[of 0 x] rnd_whole[of 0] by simp

lemma rnd_exact: "of_int (rnd x) = x \<longleftrightarrow> x \<in> \<int>"
  by (metis Ints_cases Ints_of_int rnd_whole)

end

lemma floor_half_mono: "x \<le> y \<Longrightarrow> \<lfloor>x + 1 / 2\<rfloor> \<le> \<lfloor>y + 1 / 2 :: rat\<rfloor>"
  by (simp add: floor_mono)

text \<open>Half-even rounding, the only mode that is not visibly monotone.\<close>

lemma half_even_mono:
  fixes x y :: rat
  assumes "x \<le> y"
  shows "(if x - of_int \<lfloor>x\<rfloor> = 1 / 2 \<and> even \<lfloor>x\<rfloor> then \<lfloor>x\<rfloor> else \<lfloor>x + 1 / 2\<rfloor>) \<le>
         (if y - of_int \<lfloor>y\<rfloor> = 1 / 2 \<and> even \<lfloor>y\<rfloor> then \<lfloor>y\<rfloor> else \<lfloor>y + 1 / 2\<rfloor>)"
proof -
  have up: "\<lfloor>z\<rfloor> \<le> \<lfloor>z + 1 / 2\<rfloor>" for z :: rat by (simp add: floor_mono)
  have le: "\<lfloor>x\<rfloor> \<le> \<lfloor>y\<rfloor>" "\<lfloor>x + 1 / 2\<rfloor> \<le> \<lfloor>y + 1 / 2\<rfloor>" using assms by (simp_all add: floor_mono)
  have "\<lfloor>x + 1 / 2\<rfloor> \<le> \<lfloor>y\<rfloor>" if "y - of_int \<lfloor>y\<rfloor> = 1 / 2" "even \<lfloor>y\<rfloor>" "\<not> (x - of_int \<lfloor>x\<rfloor> = 1 / 2 \<and> even \<lfloor>x\<rfloor>)"
  proof (rule ccontr)
    assume "\<not> ?thesis"
    then have "of_int \<lfloor>y\<rfloor> + 1 \<le> x + 1 / 2" by linarith
    then have "x = y" using that(1) assms by linarith
    then show False using that by simp
  qed
  then show ?thesis using le up[of y] by auto
qed

interpretation mode: rounding "round_spec mode" for mode
proof
  show "round_spec mode (of_int z) = z" for z
    by (cases mode) (auto simp: round_spec_def floor_eq_iff ceiling_eq_iff)
  fix x y :: rat
  assume xy: "x \<le> y"
  note m = floor_mono[OF xy] ceiling_mono[OF xy] floor_half_mono[OF xy]
  have c: "\<lceil>x - 1 / 2\<rceil> \<le> \<lceil>y - 1 / 2\<rceil>" using xy by (simp add: ceiling_mono)
  have z: "\<lceil>x\<rceil> \<le> 0" "\<lfloor>x\<rfloor> \<le> 0" "\<lceil>x - 1 / 2\<rceil> \<le> 0" if "x \<le> 0" using that by linarith+
  have p: "0 \<le> \<lceil>y\<rceil>" "0 \<le> \<lfloor>y\<rfloor>" "0 \<le> \<lfloor>y + 1 / 2\<rfloor>" if "0 \<le> y" using that by linarith+
  show "round_spec mode x \<le> round_spec mode y"
  proof (cases "x < 0 \<and> 0 \<le> y")
    case True
    then have "x \<le> 0" "0 \<le> y" by simp_all
    note zp = z[OF this(1)] p[OF this(2)]
    have "\<lceil>x - 1 / 2\<rceil> \<le> \<lfloor>y + 1 / 2\<rfloor>" "\<lceil>x\<rceil> \<le> \<lfloor>y\<rfloor>" "\<lfloor>x\<rfloor> \<le> \<lceil>y\<rceil>" using zp by linarith+
    then show ?thesis using True m half_even_mono[OF xy] by (cases mode) (auto simp: round_spec_def)
  next
    case False
    then show ?thesis using xy m c half_even_mono[OF xy] by (cases mode) (auto simp: round_spec_def)
  qed
qed

section \<open>Decimals\<close>

text \<open>\<open>dec_coef\<close> is the coefficient (\<^verbatim>\<open>nil\<close> reads as zero), \<open>dec_scale\<close> an \<^verbatim>\<open>int32\<close>.\<close>

record Decimal =
  dec_coef :: int
  dec_scale :: int

definition MaxDecimalLen :: nat where "MaxDecimalLen = 256"

definition maxScale :: int where "maxScale = 64"

definition pow10 :: "int \<Rightarrow> int" where "pow10 n = 10 ^ nat n"

text \<open>Conversion to \<^verbatim>\<open>int32\<close>, two's complement.\<close>

definition to_int32 :: "int \<Rightarrow> int" where "to_int32 n = sint (word_of_int n :: 32 word)"

text \<open>The negation of the smallest \<^verbatim>\<open>int32\<close> is itself, a negative exponent: an index out of range.\<close>

definition NewDecimal :: "int \<Rightarrow> int \<Rightarrow> (money_error, Decimal) result" where
  "NewDecimal coef scale =
     (if scale < 0 then
        (if to_int32 (- scale) < 0 then Inl MoneyPanic
         else Inr \<lparr>dec_coef = coef * pow10 (to_int32 (- scale)), dec_scale = 0\<rparr>)
      else Inr \<lparr>dec_coef = coef, dec_scale = scale\<rparr>)"

definition ParseDecimal :: "string \<Rightarrow> (money_error, Decimal) result" where
  "ParseDecimal s =
     (if s = [] \<or> length s > MaxDecimalLen then Inl ErrInvalid
      else
        let signed = (hd s = CHR ''+'' \<or> hd s = CHR ''-'');
            neg = (hd s = CHR ''-'');
            b = (if signed then tl s else s);
            intDigits = takeWhile is_digit b;
            rest = dropWhile is_digit b;
            dot = (rest \<noteq> [] \<and> hd rest = CHR ''.'');
            fracDigits = (if dot then takeWhile is_digit (tl rest) else []);
            left = (if dot then dropWhile is_digit (tl rest) else rest)
        in if dot \<and> fracDigits = [] then Inl ErrInvalid
           else if intDigits = [] \<or> left \<noteq> [] then Inl ErrInvalid
           else let c = int (digits_val (intDigits @ fracDigits))
                in Inr \<lparr>dec_coef = (if neg then - c else c), dec_scale = int (length fracDigits)\<rparr>)"

definition Decimal_Sign :: "Decimal \<Rightarrow> int" where "Decimal_Sign d = sgn (dec_coef d)"

definition Decimal_IsZero :: "Decimal \<Rightarrow> bool" where "Decimal_IsZero d \<longleftrightarrow> Decimal_Sign d = 0"

definition Decimal_Neg :: "Decimal \<Rightarrow> Decimal" where "Decimal_Neg d = d\<lparr>dec_coef := - dec_coef d\<rparr>"

definition Decimal_Cmp :: "Decimal \<Rightarrow> Decimal \<Rightarrow> int" where
  "Decimal_Cmp d e =
     (let a = (if dec_scale d < dec_scale e then dec_coef d * pow10 (dec_scale e - dec_scale d) else dec_coef d);
          b = (if dec_scale d > dec_scale e then dec_coef e * pow10 (dec_scale d - dec_scale e) else dec_coef e)
      in sgn (a - b))"

definition Decimal_Mul :: "Decimal \<Rightarrow> Decimal \<Rightarrow> Decimal" where
  "Decimal_Mul d e = \<lparr>dec_coef = dec_coef d * dec_coef e, dec_scale = to_int32 (dec_scale d + dec_scale e)\<rparr>"

definition Decimal_Quo :: "Decimal \<Rightarrow> Decimal \<Rightarrow> int \<Rightarrow> RoundingMode \<Rightarrow> (money_error, Decimal) result" where
  "Decimal_Quo d e scale mode =
     (if Decimal_IsZero e then Inl ErrInvalid
      else if scale < 0 \<or> scale > maxScale then Inl ErrInvalid
      else rbind (checkMode mode) (\<lambda>_.
        let num = dec_coef d * pow10 (dec_scale e + scale); den = dec_coef e * pow10 (dec_scale d)
        in Inr \<lparr>dec_coef = divRound num den mode, dec_scale = scale\<rparr>))"

definition Decimal_Round :: "Decimal \<Rightarrow> int \<Rightarrow> RoundingMode \<Rightarrow> (money_error, Decimal) result" where
  "Decimal_Round d scale mode =
     (if scale < 0 \<or> scale > maxScale then Inl ErrInvalid
      else rbind (checkMode mode) (\<lambda>_.
        if scale \<ge> dec_scale d then
          Inr \<lparr>dec_coef = dec_coef d * pow10 (scale - dec_scale d), dec_scale = scale\<rparr>
        else Inr \<lparr>dec_coef = divRound (dec_coef d) (pow10 (dec_scale d - scale)) mode, dec_scale = scale\<rparr>))"

definition formatScaled :: "int \<Rightarrow> int \<Rightarrow> string" where
  "formatScaled coef scale =
     (let digits = digits_of (nat \<bar>coef\<bar>); k = nat scale;
          digits = (if scale > 0 then
                      (let digits = (if length digits \<le> k then replicate (k - length digits + 1) (CHR ''0'') @ digits
                                     else digits)
                       in take (length digits - k) digits @ ''.'' @ drop (length digits - k) digits)
                    else digits)
      in if coef < 0 then CHR ''-'' # digits else digits)"

definition Decimal_String :: "Decimal \<Rightarrow> string" where
  "Decimal_String d = formatScaled (dec_coef d) (dec_scale d)"

section \<open>Values of decimals\<close>

definition dec_value :: "Decimal \<Rightarrow> rat" where
  "dec_value d = of_int (dec_coef d) / 10 ^ nat (dec_scale d)"

definition dec_ok :: "Decimal \<Rightarrow> bool" where "dec_ok d \<longleftrightarrow> 0 \<le> dec_scale d"

lemma pow10_pos [simp]: "0 < pow10 n" "pow10 n \<noteq> 0"
  by (simp_all add: pow10_def)

lemma of_int_pow10 [simp]: "of_int (pow10 n) = (10 ^ nat n :: rat)"
  by (simp add: pow10_def)

lemma pow10_add: "0 \<le> m \<Longrightarrow> 0 \<le> n \<Longrightarrow> (10 ^ nat (m + n) :: rat) = 10 ^ nat m * 10 ^ nat n"
  by (simp add: nat_add_distrib power_add)

lemma pow10_diff: "n \<le> m \<Longrightarrow> 0 \<le> n \<Longrightarrow> (10 ^ nat m :: rat) = 10 ^ nat n * 10 ^ nat (m - n)"
  using pow10_add[of n "m - n"] by simp

lemma Decimal_Cmp_value:
  assumes "dec_ok d" "dec_ok e"
  shows "(Decimal_Cmp d e < 0 \<longleftrightarrow> dec_value d < dec_value e) \<and> (Decimal_Cmp d e = 0 \<longleftrightarrow> dec_value d = dec_value e)"
proof -
  define m where "m = max (dec_scale d) (dec_scale e)"
  have lift: "of_int (dec_coef x * pow10 (m - dec_scale x)) = dec_value x * 10 ^ nat m"
    if "dec_ok x" "dec_scale x \<le> m" for x :: Decimal
    using that pow10_diff[of "dec_scale x" m] by (simp add: dec_value_def dec_ok_def)
  have cmp: "Decimal_Cmp d e = sgn (dec_coef d * pow10 (m - dec_scale d) - dec_coef e * pow10 (m - dec_scale e))"
    by (auto simp: Decimal_Cmp_def m_def max_def pow10_def)
  have le: "dec_scale d \<le> m" "dec_scale e \<le> m" by (simp_all add: m_def)
  have "dec_value d < dec_value e \<longleftrightarrow> dec_value d * 10 ^ nat m < dec_value e * 10 ^ nat m"
    "dec_value d = dec_value e \<longleftrightarrow> dec_value d * 10 ^ nat m = dec_value e * 10 ^ nat m" by simp_all
  then show ?thesis
    unfolding cmp lift[OF assms(1) le(1), symmetric] lift[OF assms(2) le(2), symmetric] of_int_less_iff of_int_eq_iff
    by (auto simp: sgn_if)
qed

lemma Decimal_Round_value:
  assumes "dec_ok d" "Decimal_Round d scale mode = Inr r"
  shows "dec_scale r = scale \<and> dec_coef r = round_spec mode (dec_value d * 10 ^ nat scale)"
proof (cases "scale \<ge> dec_scale d")
  case True
  have "dec_value d * 10 ^ nat scale = of_int (dec_coef d * pow10 (scale - dec_scale d))"
    using pow10_diff[OF True] assms(1) by (simp add: dec_value_def dec_ok_def)
  then have "round_spec mode (dec_value d * 10 ^ nat scale) = dec_coef d * pow10 (scale - dec_scale d)"
    by (simp only: mode.rnd_whole)
  then show ?thesis using assms(2) True by (auto simp: Decimal_Round_def split: if_splits elim!: rbindE)
next
  case False
  then have s: "0 \<le> scale" "scale \<le> dec_scale d" using assms(2) by (auto simp: Decimal_Round_def split: if_splits)
  have "dec_value d * 10 ^ nat scale = of_int (dec_coef d) / of_int (pow10 (dec_scale d - scale))"
    using pow10_diff[OF s(2,1)] by (simp add: dec_value_def)
  then show ?thesis using assms(2) False divRound_round_spec[of "pow10 (dec_scale d - scale)" "dec_coef d" mode]
    by (auto simp: Decimal_Round_def split: if_splits elim!: rbindE)
qed

lemma Decimal_Quo_value:
  assumes "dec_ok d" "dec_ok e" "Decimal_Quo d e scale mode = Inr r"
  shows "dec_scale r = scale \<and> dec_coef r = round_spec mode (dec_value d / dec_value e * 10 ^ nat scale)"
proof -
  have e: "dec_coef e \<noteq> 0" "0 \<le> scale"
    using assms(3) by (auto simp: Decimal_Quo_def Decimal_IsZero_def Decimal_Sign_def split: if_splits)
  define num den where "num = dec_coef d * pow10 (dec_scale e + scale)" and "den = dec_coef e * pow10 (dec_scale d)"
  have "dec_value d / dec_value e * 10 ^ nat scale = of_int num / of_int den"
    using e assms(2) pow10_add[of "dec_scale e" scale] by (simp add: num_def den_def dec_value_def dec_ok_def mult_ac)
  moreover have "den \<noteq> 0" using e by (simp add: den_def)
  ultimately show ?thesis using assms(3) divRound_round_spec[of den num mode]
    by (auto simp: Decimal_Quo_def num_def den_def split: if_splits elim!: rbindE)
qed

section \<open>Printing and parsing\<close>

lemma formatScaled_parts:
  assumes "0 < scale"
  obtains i f where "formatScaled coef scale = (if coef < 0 then ''-'' else []) @ i @ CHR ''.'' # f"
    "i @ f = pad_digits (Suc (nat scale)) (nat \<bar>coef\<bar>)" "i \<noteq> []" "length f = nat scale"
proof -
  define k n where "k = nat scale" and "n = nat \<bar>coef\<bar>"
  define ds where "ds = pad_digits (Suc k) n"
  have pad: "(if length (digits_of n) \<le> k then replicate (k - length (digits_of n) + 1) (CHR ''0'') @ digits_of n
     else digits_of n) = ds"
    by (auto simp: ds_def pad_digits_def Suc_diff_le)
  have len: "Suc k \<le> length ds" by (simp add: ds_def pad_digits_def)
  have "formatScaled coef scale = (if coef < 0 then ''-'' else []) @ take (length ds - k) ds @ CHR ''.'' # drop (length ds - k) ds"
    using assms unfolding formatScaled_def Let_def k_def[symmetric] n_def[symmetric] pad by simp
  moreover have "take (length ds - k) ds \<noteq> []" "length (drop (length ds - k) ds) = k" using len by auto
  ultimately show ?thesis using that[of "take (length ds - k) ds" "drop (length ds - k) ds"]
    by (simp add: ds_def k_def n_def)
qed

lemma digits_run:
  assumes "\<forall>c\<in>set ds. is_digit c" "rest = [] \<or> \<not> is_digit (hd rest)"
  shows "takeWhile is_digit (ds @ rest) = ds" "dropWhile is_digit (ds @ rest) = rest"
proof -
  show "takeWhile is_digit (ds @ rest) = ds"
    using assms by (cases rest) (auto simp: takeWhile_append2 takeWhile_tail)
  show "dropWhile is_digit (ds @ rest) = rest"
    using assms by (cases rest) (auto simp: dropWhile_append2)
qed

text \<open>What \<open>ParseDecimal\<close> makes of a sign, an integer part and a fraction.\<close>

lemma ParseDecimal_parts:
  assumes "\<forall>c\<in>set (i @ f). is_digit c" "i \<noteq> []" "sg = [] \<or> sg = ''-''"
    and "length (sg @ i @ (if f = [] then [] else CHR ''.'' # f)) \<le> MaxDecimalLen"
  shows "ParseDecimal (sg @ i @ (if f = [] then [] else CHR ''.'' # f)) =
    Inr \<lparr>dec_coef = (if sg = [] then int (digits_val (i @ f)) else - int (digits_val (i @ f))), dec_scale = int (length f)\<rparr>"
proof -
  define b where "b = i @ (if f = [] then [] else CHR ''.'' # f)"
  have "is_digit (hd i)" using assms(1,2) by simp
  then have hd: "hd b \<noteq> CHR ''-''" "hd b \<noteq> CHR ''+''"
    using assms(2) by (auto simp: b_def)
  have hs: "hd (sg @ b) = CHR ''-'' \<longleftrightarrow> sg \<noteq> []" "hd (sg @ b) \<noteq> CHR ''+''" "sg @ b \<noteq> []"
    "(if hd (sg @ b) = CHR ''+'' \<or> hd (sg @ b) = CHR ''-'' then tl (sg @ b) else sg @ b) = b"
    using assms(2,3) hd by (auto simp: b_def)
  have span: "takeWhile is_digit b = i" "dropWhile is_digit b = (if f = [] then [] else CHR ''.'' # f)"
    unfolding b_def by (rule digits_run; use assms(1) in auto)+
  have frac: "takeWhile is_digit f = f" "dropWhile is_digit f = []"
    using digits_run[of f "[]"] assms(1) by simp_all
  have len: "\<not> MaxDecimalLen < length (sg @ b)" using assms(4) by (simp add: b_def)
  show ?thesis
    unfolding b_def[symmetric] ParseDecimal_def Let_def hs(4) span using hs(1-3) len assms(1,2) by (simp add: frac)
qed

lemma formatScaled_nonpos: "scale \<le> 0 \<Longrightarrow> formatScaled coef scale = (if coef < 0 then ''-'' else []) @ digits_of (nat \<bar>coef\<bar>)"
  by (simp add: formatScaled_def Let_def)

lemma ParseDecimal_formatScaled:
  assumes "0 \<le> scale" "length (formatScaled coef scale) \<le> MaxDecimalLen"
  shows "ParseDecimal (formatScaled coef scale) = Inr \<lparr>dec_coef = coef, dec_scale = scale\<rparr>"
proof (cases "scale = 0")
  case True
  then show ?thesis
    using ParseDecimal_parts[of "digits_of (nat \<bar>coef\<bar>)" "[]" "if coef < 0 then ''-'' else []"] assms(2)
    by (auto simp: formatScaled_nonpos digits_of_digits)
next
  case False
  then have "0 < scale" using assms(1) by simp
  then obtain i f where fs: "formatScaled coef scale = (if coef < 0 then ''-'' else []) @ i @ CHR ''.'' # f"
    and ds: "i @ f = pad_digits (Suc (nat scale)) (nat \<bar>coef\<bar>)" and ne: "i \<noteq> []" "length f = nat scale"
    by (rule formatScaled_parts)
  have "f \<noteq> []" using ne \<open>0 < scale\<close> by auto
  moreover have "\<forall>c\<in>set (i @ f). is_digit c" unfolding ds by (simp add: pad_digits_digits)
  ultimately show ?thesis
    using ParseDecimal_parts[of i f "if coef < 0 then ''-'' else []"] ne assms fs ds by auto
qed

section \<open>Properties\<close>

lemma half_error:
  assumes "mode = HalfAwayFromZero \<or> mode = HalfEven"
  shows "\<bar>of_int (round_spec mode x) - x\<bar> \<le> 1 / 2"
proof -
  have "\<bar>of_int \<lfloor>x + 1 / 2\<rfloor> - x\<bar> \<le> 1 / 2" "\<bar>of_int \<lceil>x - 1 / 2\<rceil> - x\<bar> \<le> 1 / 2" by linarith+
  moreover have "\<bar>of_int \<lfloor>x\<rfloor> - x\<bar> \<le> 1 / 2" if "x - of_int \<lfloor>x\<rfloor> = 1 / 2" using that by linarith
  ultimately show ?thesis using assms unfolding round_spec_def by auto
qed

text \<open>Rounding is exact: for every mode \<^verbatim>\<open>divRound\<close> computes the rounding the mode names of the exact
  quotient, although it only works with the truncated quotient and the remainder. The result is less
  than one unit away, at most half a unit for the two half modes, and order-preserving.\<close>

theorem divRound_is_rounding:
  assumes "den \<noteq> 0"
  shows "divRound num den mode = round_spec mode (of_int num / of_int den) \<and>
    \<bar>of_int (divRound num den mode) - of_int num / of_int den\<bar> < (1 :: rat) \<and>
    (mode \<in> {HalfAwayFromZero, HalfEven} \<longrightarrow> \<bar>of_int (divRound num den mode) - of_int num / of_int den\<bar> \<le> (1 / 2 :: rat)) \<and>
    (\<forall>num' den'. den' \<noteq> 0 \<and> (of_int num / of_int den :: rat) \<le> of_int num' / of_int den' \<longrightarrow>
       divRound num den mode \<le> divRound num' den' mode)"
  using assms divRound_round_spec mode.rnd_error mode.rnd_mono half_error by auto

theorem divRound_is_rounding_witness:
  "divRound (-5) 2 HalfEven = -2 \<and> divRound (-5) 2 HalfAwayFromZero = -3 \<and>
   divRound (-5) 2 HalfEven = round_spec HalfEven (- (5 / 2))"
proof -
  have "divRound (-5) 2 HalfEven = -2" "divRound (-5) 2 HalfAwayFromZero = -3" by code_simp+
  then show ?thesis using divRound_is_rounding[of 2 "-5" HalfEven] by simp
qed

text \<open>Decimals survive the wire: the text of a decimal (at most 256 bytes) parses back to the same
  coefficient and scale, trailing zeros included, and what it denotes is the decimal's value.\<close>

theorem decimal_wire_round_trip:
  assumes "dec_ok d" "length (Decimal_String d) \<le> MaxDecimalLen"
  shows "ParseDecimal (Decimal_String d) = Inr d"
  using ParseDecimal_formatScaled[of "dec_scale d" "dec_coef d"] assms
  by (simp add: Decimal_String_def dec_ok_def)

theorem decimal_wire_round_trip_witness:
  "Decimal_String \<lparr>dec_coef = -50, dec_scale = 2\<rparr> = ''-0.50'' \<and>
   ParseDecimal (Decimal_String \<lparr>dec_coef = -50, dec_scale = 2\<rparr>) = Inr \<lparr>dec_coef = -50, dec_scale = 2\<rparr>"
proof -
  have s: "Decimal_String \<lparr>dec_coef = -50, dec_scale = 2\<rparr> = ''-0.50''" by code_simp
  show ?thesis using decimal_wire_round_trip[of "\<lparr>dec_coef = -50, dec_scale = 2\<rparr>"] s
    by (simp add: dec_ok_def MaxDecimalLen_def)
qed

end
