(* ===== verification/Money_Core.thy ===== *)
theory Money_Core
  imports Money_Decimal
begin

text \<open>
  Amounts in minor units (\<^verbatim>\<open>src/money/money.go\<close>), currencies (\<^verbatim>\<open>src/money/iso.go\<close>) and exchange rates
  (\<^verbatim>\<open>src/money/rate.go\<close>).

  The minor units of a \<^verbatim>\<open>Money\<close> are an \<^verbatim>\<open>int64\<close>, here a \<^typ>\<open>64 word\<close> read with \<^const>\<open>sint\<close>; \<^verbatim>\<open>uint64\<close> values are the
  same words read with \<^const>\<open>unat\<close>. The locale \<open>checked_op\<close> is the contract of the overflow-checked
  operations; \<open>add64\<close> and \<open>sub64\<close> provide it. The scale of a \<^verbatim>\<open>Decimal\<close> argument is assumed not negative
  (\<open>dec_ok\<close>), which every constructor gives.
\<close>

section \<open>Currencies\<close>

text \<open>The scope is a string in the source: \<^verbatim>\<open>""\<close>, \<^verbatim>\<open>"line"\<close>, \<^verbatim>\<open>"total"\<close> or anything else.\<close>

record Spec =
  sp_Code :: string
  sp_MinorUnits :: int
  sp_CashIncrementMinor :: int
  sp_Scope :: string

definition ScopeLine :: string where "ScopeLine = ''line''"

definition ScopeTotal :: string where "ScopeTotal = ''total''"

definition MaxMinorUnits :: int where "MaxMinorUnits = 18"

definition Spec_Validate :: "Spec \<Rightarrow> (money_error, unit) result" where
  "Spec_Validate s =
     (if sp_Code s = [] then Inl ErrInvalid
      else if sp_MinorUnits s < 0 \<or> sp_MinorUnits s > MaxMinorUnits then Inl ErrInvalid
      else if sp_CashIncrementMinor s < 0 then Inl ErrInvalid
      else if sp_Scope s \<noteq> [] \<and> sp_Scope s \<noteq> ScopeLine \<and> sp_Scope s \<noteq> ScopeTotal then Inl ErrInvalid
      else Inr ())"

definition cashIncrements :: "string \<Rightarrow> int" where
  "cashIncrements c =
     (case map_of [(''CHF'', 5), (''CAD'', 5), (''DKK'', 50), (''SEK'', 100), (''NOK'', 100), (''CZK'', 100), (''HUF'', 100)] c of
        Some n \<Rightarrow> n | None \<Rightarrow> 0)"

definition isoMinorUnits :: "(string \<times> int) list" where
  "isoMinorUnits =
     [
      (''AED'', 2), (''AFN'', 2), (''ALL'', 2), (''AMD'', 2), (''ANG'', 2), (''AOA'', 2),
      (''ARS'', 2), (''AUD'', 2), (''AWG'', 2), (''AZN'', 2), (''BAM'', 2), (''BBD'', 2),
      (''BDT'', 2), (''BGN'', 2), (''BHD'', 3), (''BIF'', 0), (''BMD'', 2), (''BND'', 2),
      (''BOB'', 2), (''BOV'', 2), (''BRL'', 2), (''BSD'', 2), (''BTN'', 2), (''BWP'', 2),
      (''BYN'', 2), (''BZD'', 2), (''CAD'', 2), (''CDF'', 2), (''CHE'', 2), (''CHF'', 2),
      (''CHW'', 2), (''CLF'', 4), (''CLP'', 0), (''CNY'', 2), (''COP'', 2), (''COU'', 2),
      (''CRC'', 2), (''CUC'', 2), (''CUP'', 2), (''CVE'', 2), (''CZK'', 2), (''DJF'', 0),
      (''DKK'', 2), (''DOP'', 2), (''DZD'', 2), (''EGP'', 2), (''ERN'', 2), (''ETB'', 2),
      (''EUR'', 2), (''FJD'', 2), (''FKP'', 2), (''GBP'', 2), (''GEL'', 2), (''GHS'', 2),
      (''GIP'', 2), (''GMD'', 2), (''GNF'', 0), (''GTQ'', 2), (''GYD'', 2), (''HKD'', 2),
      (''HNL'', 2), (''HTG'', 2), (''HUF'', 2), (''IDR'', 2), (''ILS'', 2), (''INR'', 2),
      (''IQD'', 3), (''IRR'', 2), (''ISK'', 0), (''JMD'', 2), (''JOD'', 3), (''JPY'', 0),
      (''KES'', 2), (''KGS'', 2), (''KHR'', 2), (''KMF'', 0), (''KPW'', 2), (''KRW'', 0),
      (''KWD'', 3), (''KYD'', 2), (''KZT'', 2), (''LAK'', 2), (''LBP'', 2), (''LKR'', 2),
      (''LRD'', 2), (''LSL'', 2), (''LYD'', 3), (''MAD'', 2), (''MDL'', 2), (''MGA'', 2),
      (''MKD'', 2), (''MMK'', 2), (''MNT'', 2), (''MOP'', 2), (''MRU'', 2), (''MUR'', 2),
      (''MVR'', 2), (''MWK'', 2), (''MXN'', 2), (''MXV'', 2), (''MYR'', 2), (''MZN'', 2),
      (''NAD'', 2), (''NGN'', 2), (''NIO'', 2), (''NOK'', 2), (''NPR'', 2), (''NZD'', 2),
      (''OMR'', 3), (''PAB'', 2), (''PEN'', 2), (''PGK'', 2), (''PHP'', 2), (''PKR'', 2),
      (''PLN'', 2), (''PYG'', 0), (''QAR'', 2), (''RON'', 2), (''RSD'', 2), (''RUB'', 2),
      (''RWF'', 0), (''SAR'', 2), (''SBD'', 2), (''SCR'', 2), (''SDG'', 2), (''SEK'', 2),
      (''SGD'', 2), (''SHP'', 2), (''SLE'', 2), (''SLL'', 2), (''SOS'', 2), (''SRD'', 2),
      (''SSP'', 2), (''STN'', 2), (''SVC'', 2), (''SYP'', 2), (''SZL'', 2), (''THB'', 2),
      (''TJS'', 2), (''TMT'', 2), (''TND'', 3), (''TOP'', 2), (''TRY'', 2), (''TTD'', 2),
      (''TWD'', 2), (''TZS'', 2), (''UAH'', 2), (''UGX'', 0), (''USD'', 2), (''USN'', 2),
      (''UYI'', 0), (''UYU'', 2), (''UYW'', 4), (''UZS'', 2), (''VED'', 2), (''VES'', 2),
      (''VND'', 0), (''VUV'', 0), (''WST'', 2), (''XAF'', 0), (''XCD'', 2), (''XCG'', 2),
      (''XOF'', 0), (''XPF'', 0), (''YER'', 2), (''ZAR'', 2), (''ZMW'', 2), (''ZWG'', 2),
      (''ZWL'', 2)
     ]"

definition ISO :: "string \<Rightarrow> Spec option" where
  "ISO code =
     (let c = ToUpper (TrimSpace code)
      in case map_of isoMinorUnits c of
           None \<Rightarrow> None
         | Some mu \<Rightarrow> Some \<lparr>sp_Code = c, sp_MinorUnits = mu, sp_CashIncrementMinor = cashIncrements c, sp_Scope = ScopeLine\<rparr>)"

section \<open>Amounts\<close>

type_synonym int64 = "64 word"

record Money =
  mo_minor :: int64
  mo_spec :: Spec

definition Money_New :: "int64 \<Rightarrow> Spec \<Rightarrow> Money" where
  "Money_New minor spec = \<lparr>mo_minor = minor, mo_spec = spec\<rparr>"

definition Money_Zero :: "Spec \<Rightarrow> Money" where
  "Money_Zero spec = \<lparr>mo_minor = 0, mo_spec = spec\<rparr>"

text \<open>\<^verbatim>\<open>big.Int.IsInt64\<close>.\<close>

definition is_int64 :: "int \<Rightarrow> bool" where
  "is_int64 n \<longleftrightarrow> - (2 ^ 63) \<le> n \<and> n < 2 ^ 63"

definition fromBig :: "int \<Rightarrow> Spec \<Rightarrow> (money_error, Money) result" where
  "fromBig minor spec =
     (if \<not> is_int64 minor then Inl ErrOverflow else Inr \<lparr>mo_minor = word_of_int minor, mo_spec = spec\<rparr>)"

definition FromDecimal :: "Decimal \<Rightarrow> Spec \<Rightarrow> (money_error, Money) result" where
  "FromDecimal d spec =
     rbind (Spec_Validate spec) (\<lambda>_.
     rbind (Decimal_Round d (sp_MinorUnits spec) TowardZero) (\<lambda>r.
       if Decimal_Cmp r d \<noteq> 0 then Inl ErrPrecision else fromBig (dec_coef r) spec))"

definition FromDecimalRound :: "Decimal \<Rightarrow> Spec \<Rightarrow> RoundingMode \<Rightarrow> (money_error, Money) result" where
  "FromDecimalRound d spec mode =
     rbind (Spec_Validate spec) (\<lambda>_.
     rbind (Decimal_Round d (sp_MinorUnits spec) mode) (\<lambda>r. fromBig (dec_coef r) spec))"

definition Money_Parse :: "string \<Rightarrow> Spec \<Rightarrow> (money_error, Money) result" where
  "Money_Parse s spec =
     rbind (Spec_Validate spec) (\<lambda>_. rbind (ParseDecimal s) (\<lambda>d. FromDecimal d spec))"

definition ParseRound :: "string \<Rightarrow> Spec \<Rightarrow> RoundingMode \<Rightarrow> (money_error, Money) result" where
  "ParseRound s spec mode =
     rbind (Spec_Validate spec) (\<lambda>_. rbind (ParseDecimal s) (\<lambda>d. FromDecimalRound d spec mode))"

definition Money_Amount :: "Money \<Rightarrow> Decimal" where
  "Money_Amount m = \<lparr>dec_coef = sint (mo_minor m), dec_scale = sp_MinorUnits (mo_spec m)\<rparr>"

definition sameCurrency :: "Spec \<Rightarrow> Spec \<Rightarrow> bool" where
  "sameCurrency a b \<longleftrightarrow> sp_Code a = sp_Code b \<and> sp_MinorUnits a = sp_MinorUnits b"

definition WithSpec :: "Money \<Rightarrow> Spec \<Rightarrow> (money_error, Money) result" where
  "WithSpec m spec =
     rbind (Spec_Validate spec) (\<lambda>_.
       if \<not> sameCurrency (mo_spec m) spec then Inl ErrCurrencyMismatch
       else Inr \<lparr>mo_minor = mo_minor m, mo_spec = spec\<rparr>)"

definition Money_Sign :: "Money \<Rightarrow> int" where
  "Money_Sign m = (if mo_minor m <s 0 then -1 else if 0 <s mo_minor m then 1 else 0)"

text \<open>\<^verbatim>\<open>bits.Add64\<close> and \<^verbatim>\<open>bits.Sub64\<close> without carry are word addition and subtraction.\<close>

definition add64 :: "int64 \<Rightarrow> int64 \<Rightarrow> int64 \<times> bool" where
  "add64 a b = (let s = a + b in (s, \<not> ((0 \<le>s a) = (0 \<le>s b) \<and> (0 \<le>s s) \<noteq> (0 \<le>s a))))"

definition sub64 :: "int64 \<Rightarrow> int64 \<Rightarrow> int64 \<times> bool" where
  "sub64 a b = (let s = a - b in (s, \<not> ((0 \<le>s a) \<noteq> (0 \<le>s b) \<and> (0 \<le>s s) \<noteq> (0 \<le>s a))))"

definition Money_Add :: "Money \<Rightarrow> Money \<Rightarrow> (money_error, Money) result" where
  "Money_Add m n =
     (if \<not> sameCurrency (mo_spec m) (mo_spec n) then Inl ErrCurrencyMismatch
      else let (s, ok) = add64 (mo_minor m) (mo_minor n)
           in if \<not> ok then Inl ErrOverflow else Inr \<lparr>mo_minor = s, mo_spec = mo_spec m\<rparr>)"

definition Money_Sub :: "Money \<Rightarrow> Money \<Rightarrow> (money_error, Money) result" where
  "Money_Sub m n =
     (if \<not> sameCurrency (mo_spec m) (mo_spec n) then Inl ErrCurrencyMismatch
      else let (s, ok) = sub64 (mo_minor m) (mo_minor n)
           in if \<not> ok then Inl ErrOverflow else Inr \<lparr>mo_minor = s, mo_spec = mo_spec m\<rparr>)"

definition MinInt64 :: int64 where "MinInt64 = 0x8000000000000000"

definition Money_Neg :: "Money \<Rightarrow> (money_error, Money) result" where
  "Money_Neg m = (if mo_minor m = MinInt64 then Inl ErrOverflow else Inr (m\<lparr>mo_minor := - mo_minor m\<rparr>))"

definition Money_Cmp :: "Money \<Rightarrow> Money \<Rightarrow> (money_error, int) result" where
  "Money_Cmp m n =
     (if \<not> sameCurrency (mo_spec m) (mo_spec n) then Inl ErrCurrencyMismatch
      else Inr (if mo_minor m <s mo_minor n then -1 else if mo_minor n <s mo_minor m then 1 else 0))"

definition MulDecimal :: "Money \<Rightarrow> Decimal \<Rightarrow> RoundingMode \<Rightarrow> (money_error, Money) result" where
  "MulDecimal m d mode =
     rbind (checkMode mode) (\<lambda>_.
       fromBig (divRound (sint (mo_minor m) * dec_coef d) (pow10 (dec_scale d)) mode) (mo_spec m))"

definition RoundCash :: "Money \<Rightarrow> RoundingMode \<Rightarrow> (money_error, Money) result" where
  "RoundCash m mode =
     rbind (checkMode mode) (\<lambda>_.
       let inc = sp_CashIncrementMinor (mo_spec m)
       in if inc \<le> 1 then Inr m else fromBig (divRound (sint (mo_minor m)) inc mode * inc) (mo_spec m))"

definition Money_String :: "Money \<Rightarrow> string" where
  "Money_String m = formatScaled (sint (mo_minor m)) (sp_MinorUnits (mo_spec m))"

text \<open>The JSON object \<^verbatim>\<open>{"amount": ..., "currency_code": ...}\<close>; its text form is the standard library's.\<close>

record moneyJSON =
  mj_Amount :: string
  mj_CurrencyCode :: string

definition MarshalJSON :: "Money \<Rightarrow> moneyJSON" where
  "MarshalJSON m = \<lparr>mj_Amount = Money_String m, mj_CurrencyCode = sp_Code (mo_spec m)\<rparr>"

definition UnmarshalJSON :: "moneyJSON \<Rightarrow> (money_error, Money) result" where
  "UnmarshalJSON v = (case ISO (mj_CurrencyCode v) of None \<Rightarrow> Inl ErrInvalid | Some spec \<Rightarrow> Money_Parse (mj_Amount v) spec)"

section \<open>Exchange rates\<close>

definition InverseScale :: int where "InverseScale = 12"

definition InverseMode :: RoundingMode where "InverseMode = HalfEven"

record Rate =
  rt_ID :: string
  rt_Base :: string
  rt_Quote :: string
  rt_Value :: Decimal
  rt_Kind :: string
  rt_Inverted :: bool
  rt_Derived :: bool

definition Rate_validate :: "Rate \<Rightarrow> (money_error, unit) result" where
  "Rate_validate r =
     (if rt_Base r = [] \<or> rt_Quote r = [] then Inl ErrInvalid
      else if Decimal_Sign (rt_Value r) \<le> 0 then Inl ErrInvalid else Inr ())"

definition Rate_Inverse :: "Rate \<Rightarrow> int \<Rightarrow> (money_error, Rate) result" where
  "Rate_Inverse r scale =
     rbind (Rate_validate r) (\<lambda>_.
     rbind (NewDecimal 1 0) (\<lambda>one.
     rbind (Decimal_Quo one (rt_Value r) scale InverseMode) (\<lambda>v.
       if Decimal_Sign v = 0 then Inl ErrPrecision
       else Inr \<lparr>rt_ID = rt_ID r, rt_Base = rt_Quote r, rt_Quote = rt_Base r, rt_Value = v, rt_Kind = rt_Kind r,
                 rt_Inverted = (\<not> rt_Inverted r), rt_Derived = True\<rparr>)))"

definition Convert :: "Money \<Rightarrow> Rate \<Rightarrow> Spec \<Rightarrow> RoundingMode \<Rightarrow> (money_error, Money) result" where
  "Convert a r to mode =
     rbind (Rate_validate r) (\<lambda>_.
     rbind (Spec_Validate to) (\<lambda>_.
     rbind (checkMode mode) (\<lambda>_.
       if rt_Base r \<noteq> sp_Code (mo_spec a) then Inl ErrCurrencyMismatch
       else if rt_Quote r \<noteq> sp_Code to then Inl ErrCurrencyMismatch
       else
         let num = sint (mo_minor a) * dec_coef (rt_Value r) * pow10 (sp_MinorUnits to);
             den = pow10 (dec_scale (rt_Value r) + sp_MinorUnits (mo_spec a))
         in fromBig (divRound num den mode) to)))"

section \<open>Signed 64-bit values\<close>

lemma sint64_range: "- (2 ^ 63) \<le> sint (a :: int64)" "sint (a :: int64) < 2 ^ 63"
  using sint_ge[of a] sint_lt[of a] by simp_all

lemma is_int64_sint [simp]: "is_int64 (sint (a :: int64))"
  using sint64_range by (simp add: is_int64_def)

lemma sint_wrap: "sint (word_of_int k :: int64) = (k + 2 ^ 63) mod 2 ^ 64 - 2 ^ 63"
  by (simp add: signed_of_int signed_take_bit_eq_take_bit_shift take_bit_eq_mod)

lemma sint_word_of_int [simp]: "is_int64 n \<Longrightarrow> sint (word_of_int n :: int64) = n"
  by (simp add: sint_wrap is_int64_def)

lemma word_of_sint: "word_of_int (sint (a :: int64)) = a"
  by simp

lemma nonneg_sint: "0 \<le>s (a :: int64) \<longleftrightarrow> 0 \<le> sint a"
  by (simp add: word_sle_eq)

lemma wrap_cases:
  fixes k :: int
  assumes "- (2 ^ 64) \<le> k" "k < 2 ^ 64"
  shows "(k + 2 ^ 63) mod 2 ^ 64 - 2 ^ 63 = (if k < - (2 ^ 63) then k + 2 ^ 64 else if k < 2 ^ 63 then k else k - 2 ^ 64)"
proof -
  consider "k < - (2 ^ 63)" | "- (2 ^ 63) \<le> k" "k < 2 ^ 63" | "2 ^ 63 \<le> k" by linarith
  then show ?thesis
  proof cases
    case 1
    then have "(k + 2 ^ 63 + 2 ^ 64) mod 2 ^ 64 = k + 2 ^ 63 + 2 ^ 64" using assms by (intro mod_pos_pos_trivial) simp_all
    then have "(k + 2 ^ 63) mod 2 ^ 64 = k + 2 ^ 63 + 2 ^ 64" by (simp only: mod_add_self2)
    then show ?thesis using 1 by simp
  next
    case 2
    then have "(k + 2 ^ 63) mod 2 ^ 64 = k + 2 ^ 63" by (intro mod_pos_pos_trivial) simp_all
    then show ?thesis using 2 by simp
  next
    case 3
    then have "(k + 2 ^ 63 - 2 ^ 64) mod 2 ^ 64 = k + 2 ^ 63 - 2 ^ 64" using assms by (intro mod_pos_pos_trivial) simp_all
    then have "(k + 2 ^ 63) mod 2 ^ 64 = k + 2 ^ 63 - 2 ^ 64" by (simp only: minus_mod_self2)
    then show ?thesis using 3 by simp
  qed
qed

lemma sint_add_cases: "sint (a + b :: int64) = (let k = sint a + sint b in
    if k < - (2 ^ 63) then k + 2 ^ 64 else if k < 2 ^ 63 then k else k - 2 ^ 64)"
proof -
  have w: "sint (a + b) = (sint a + sint b + 2 ^ 63) mod 2 ^ 64 - 2 ^ 63"
    using sint_wrap[of "sint a + sint b"] by simp
  show ?thesis
    unfolding w Let_def by (rule wrap_cases) (use sint64_range[of a] sint64_range[of b] in simp_all)
qed

lemma sint_sub_cases: "sint (a - b :: int64) = (let k = sint a - sint b in
    if k < - (2 ^ 63) then k + 2 ^ 64 else if k < 2 ^ 63 then k else k - 2 ^ 64)"
proof -
  have w: "sint (a - b) = (sint a - sint b + 2 ^ 63) mod 2 ^ 64 - 2 ^ 63"
    using sint_wrap[of "sint a - sint b"] by simp
  show ?thesis
    unfolding w Let_def by (rule wrap_cases) (use sint64_range[of a] sint64_range[of b] in simp_all)
qed

section \<open>The contract of a checked operation\<close>

text \<open>\<open>chk\<close> computes \<open>exact\<close> on the signed values and reports exactly whether the result fits.\<close>

locale checked_op =
  fixes chk :: "int64 \<Rightarrow> int64 \<Rightarrow> int64 \<times> bool"
    and exact :: "int \<Rightarrow> int \<Rightarrow> int"
  assumes ok_iff: "snd (chk a b) \<longleftrightarrow> is_int64 (exact (sint a) (sint b))"
    and value_ok: "snd (chk a b) \<Longrightarrow> sint (fst (chk a b)) = exact (sint a) (sint b)"
begin

lemma checked_result:
  "(let (s, ok) = chk a b in if \<not> ok then Inl ErrOverflow else Inr \<lparr>mo_minor = s, mo_spec = spec\<rparr>) =
   fromBig (exact (sint a) (sint b)) spec"
proof (cases "chk a b")
  case (Pair s ok)
  show ?thesis
  proof (cases ok)
    case True
    then have "sint s = exact (sint a) (sint b)" "is_int64 (exact (sint a) (sint b))"
      using Pair ok_iff[of a b] value_ok[of a b] by simp_all
    then show ?thesis using True by (simp add: Pair fromBig_def) (metis word_of_sint)
  next
    case False
    then show ?thesis using Pair ok_iff[of a b] by (simp add: fromBig_def)
  qed
qed

end

interpretation add: checked_op add64 "(+)"
proof
  fix a b :: int64
  note r = sint64_range[of a] sint64_range[of b]
  show "snd (add64 a b) \<longleftrightarrow> is_int64 (sint a + sint b)"
    using r by (auto simp: add64_def Let_def nonneg_sint sint_add_cases is_int64_def)
  show "snd (add64 a b) \<Longrightarrow> sint (fst (add64 a b)) = sint a + sint b"
    using r by (auto simp: add64_def Let_def nonneg_sint sint_add_cases split: if_splits)
qed

interpretation sub: checked_op sub64 "(-)"
proof
  fix a b :: int64
  note r = sint64_range[of a] sint64_range[of b]
  show "snd (sub64 a b) \<longleftrightarrow> is_int64 (sint a - sint b)"
    using r by (auto simp: sub64_def Let_def nonneg_sint sint_sub_cases is_int64_def)
  show "snd (sub64 a b) \<Longrightarrow> sint (fst (sub64 a b)) = sint a - sint b"
    using r by (auto simp: sub64_def Let_def nonneg_sint sint_sub_cases split: if_splits)
qed

lemma fromBig_ok: "fromBig n spec = Inr m \<longleftrightarrow> is_int64 n \<and> sint (mo_minor m) = n \<and> mo_spec m = spec"
  by (auto simp: fromBig_def)

lemma fromBig_err: "fromBig n spec = Inl e \<longleftrightarrow> \<not> is_int64 n \<and> e = ErrOverflow"
  by (auto simp: fromBig_def)

section \<open>Text form\<close>

lemma Spec_Validate_ok: "Spec_Validate spec = Inr u \<Longrightarrow> 0 \<le> sp_MinorUnits spec \<and> sp_MinorUnits spec \<le> 18"
  by (auto simp: Spec_Validate_def MaxMinorUnits_def split: if_splits)

lemma length_formatScaled:
  assumes "0 \<le> scale" "scale \<le> 18" "is_int64 coef"
  shows "length (formatScaled coef scale) \<le> MaxDecimalLen"
proof -
  have "nat \<bar>coef\<bar> < 10 ^ 19" using assms(3) by (auto simp: is_int64_def)
  then have len: "length (digits_of (nat \<bar>coef\<bar>)) \<le> 19" by (rule length_digits_of_le) simp
  show ?thesis
  proof (cases "scale = 0")
    case True
    then show ?thesis using len by (auto simp: formatScaled_nonpos MaxDecimalLen_def)
  next
    case False
    then have "0 < scale" using assms(1) by simp
    then obtain i f where "formatScaled coef scale = (if coef < 0 then ''-'' else []) @ i @ CHR ''.'' # f"
      and ds: "i @ f = pad_digits (Suc (nat scale)) (nat \<bar>coef\<bar>)" by (rule formatScaled_parts)
    moreover have "length i + length f \<le> 19"
      unfolding length_append[symmetric] ds pad_digits_def using len assms(2) by simp
    ultimately show ?thesis by (simp add: MaxDecimalLen_def)
  qed
qed

lemma Money_Parse_String:
  assumes "Spec_Validate spec = Inr ()"
  shows "Money_Parse (Money_String \<lparr>mo_minor = n, mo_spec = spec\<rparr>) spec = Inr \<lparr>mo_minor = n, mo_spec = spec\<rparr>"
proof -
  note mu = Spec_Validate_ok[OF assms]
  have p: "ParseDecimal (Money_String \<lparr>mo_minor = n, mo_spec = spec\<rparr>) =
      Inr \<lparr>dec_coef = sint n, dec_scale = sp_MinorUnits spec\<rparr>"
    unfolding Money_String_def by (simp add: ParseDecimal_formatScaled mu length_formatScaled)
  have "Decimal_Round \<lparr>dec_coef = sint n, dec_scale = sp_MinorUnits spec\<rparr> (sp_MinorUnits spec) TowardZero =
      Inr \<lparr>dec_coef = sint n, dec_scale = sp_MinorUnits spec\<rparr>"
    using mu by (simp add: Decimal_Round_def maxScale_def checkMode_def mode_valid_def pow10_def)
  then show ?thesis
    by (simp add: Money_Parse_def p FromDecimal_def assms Decimal_Cmp_def fromBig_def)
qed

section \<open>Rounded products\<close>

lemma MulDecimal_exact:
  assumes "mode_valid mode"
  shows "MulDecimal m d mode = fromBig (round_spec mode (of_int (sint (mo_minor m)) * dec_value d)) (mo_spec m)"
  using assms divRound_round_spec[of "pow10 (dec_scale d)" "sint (mo_minor m) * dec_coef d" mode]
  by (simp add: MulDecimal_def checkMode_def dec_value_def)

lemma RoundCash_exact:
  assumes "mode_valid mode" "1 < sp_CashIncrementMinor (mo_spec m)"
  shows "RoundCash m mode = fromBig (round_spec mode (of_int (sint (mo_minor m)) / of_int (sp_CashIncrementMinor (mo_spec m))) *
     sp_CashIncrementMinor (mo_spec m)) (mo_spec m)"
  using assms divRound_round_spec[of "sp_CashIncrementMinor (mo_spec m)" "sint (mo_minor m)" mode]
  by (simp add: RoundCash_def checkMode_def Let_def)

section \<open>Properties\<close>

text \<open>C39. Addition and subtraction of amounts never wrap: of the same currency they give the exact sum or
  difference of the signed minor units, or \<^verbatim>\<open>ErrOverflow\<close> exactly when it does not fit in an \<^verbatim>\<open>int64\<close>;
  different currencies are always refused.\<close>

theorem money_sums_never_wrap:
  "Money_Add m n = (if sameCurrency (mo_spec m) (mo_spec n)
     then fromBig (sint (mo_minor m) + sint (mo_minor n)) (mo_spec m) else Inl ErrCurrencyMismatch) \<and>
   Money_Sub m n = (if sameCurrency (mo_spec m) (mo_spec n)
     then fromBig (sint (mo_minor m) - sint (mo_minor n)) (mo_spec m) else Inl ErrCurrencyMismatch) \<and>
   Money_Neg m = fromBig (- sint (mo_minor m)) (mo_spec m)"
proof -
  have "Money_Neg m = fromBig (- sint (mo_minor m)) (mo_spec m)"
  proof (cases "mo_minor m = MinInt64")
    case True
    moreover have "sint MinInt64 = - (2 ^ 63)" by (simp add: MinInt64_def)
    ultimately show ?thesis by (simp add: Money_Neg_def fromBig_def is_int64_def)
  next
    case False
    have "sint (mo_minor m) \<noteq> - (2 ^ 63)"
    proof
      assume "sint (mo_minor m) = - (2 ^ 63)"
      then have "mo_minor m = word_of_int (- (2 ^ 63))" by (metis word_of_sint)
      then show False using False by (simp add: MinInt64_def)
    qed
    then have "is_int64 (- sint (mo_minor m))" using sint64_range[of "mo_minor m"] by (simp add: is_int64_def)
    then show ?thesis using False by (simp add: Money_Neg_def fromBig_def)
  qed
  then show ?thesis
    by (simp add: Money_Add_def Money_Sub_def add.checked_result sub.checked_result)
qed

lemma iso_units: "list_all (\<lambda>(c, mu). ToUpper (TrimSpace c) = c \<and> c \<noteq> [] \<and> 0 \<le> mu \<and> mu \<le> 4) isoMinorUnits"
  by code_simp

lemma ISO_spec:
  assumes "ISO code = Some spec"
  shows "ISO (sp_Code spec) = Some spec \<and> Spec_Validate spec = Inr ()"
proof -
  obtain mu where mu: "map_of isoMinorUnits (ToUpper (TrimSpace code)) = Some mu"
    and spec: "spec = \<lparr>sp_Code = ToUpper (TrimSpace code), sp_MinorUnits = mu,
       sp_CashIncrementMinor = cashIncrements (ToUpper (TrimSpace code)), sp_Scope = ScopeLine\<rparr>"
    using assms by (auto simp: ISO_def Let_def split: option.splits)
  have u: "ToUpper (TrimSpace (ToUpper (TrimSpace code))) = ToUpper (TrimSpace code)" "ToUpper (TrimSpace code) \<noteq> []"
    "0 \<le> mu" "mu \<le> 4"
    using iso_units map_of_SomeD[OF mu] by (auto simp: list_all_iff)
  have "0 \<le> cashIncrements c" for c by (auto simp: cashIncrements_def dest!: map_of_SomeD split: option.splits)
  then show ?thesis using u mu by (simp add: spec ISO_def Let_def Spec_Validate_def MaxMinorUnits_def not_less)
qed

text \<open>Amounts survive JSON: an amount of a listed currency with its standard specification is encoded
  and decoded to itself, whatever its minor units, the most negative \<^verbatim>\<open>int64\<close> included.\<close>

theorem money_json_round_trip:
  assumes "ISO code = Some spec"
  shows "UnmarshalJSON (MarshalJSON \<lparr>mo_minor = n, mo_spec = spec\<rparr>) = Inr \<lparr>mo_minor = n, mo_spec = spec\<rparr>"
  using ISO_spec[OF assms] Money_Parse_String by (simp add: UnmarshalJSON_def MarshalJSON_def)

definition sample_spec :: Spec where
  "sample_spec = \<lparr>sp_Code = ''KWD'', sp_MinorUnits = 3, sp_CashIncrementMinor = 0, sp_Scope = ''line''\<rparr>"

theorem money_json_round_trip_witness:
  "UnmarshalJSON (MarshalJSON \<lparr>mo_minor = MinInt64, mo_spec = sample_spec\<rparr>) = Inr \<lparr>mo_minor = MinInt64, mo_spec = sample_spec\<rparr>"
proof -
  have "ISO '' kwd'' = Some sample_spec" by code_simp
  then show ?thesis by (rule money_json_round_trip)
qed

lemma ParseDecimal_ok: "ParseDecimal s = Inr d \<Longrightarrow> dec_ok d"
  by (auto simp: ParseDecimal_def Let_def dec_ok_def split: if_splits)

lemma Decimal_Round_scale: "Decimal_Round d scale mode = Inr r \<Longrightarrow> dec_scale r = scale \<and> 0 \<le> scale"
  by (auto simp: Decimal_Round_def split: if_splits elim!: rbindE)

text \<open>Parsing never drops precision silently: an accepted text denotes exactly the amount's minor units;
  a value with more decimals than the currency has is refused.\<close>

theorem money_parse_is_exact:
  assumes "Money_Parse s spec = Inr m"
  shows "\<exists>d. ParseDecimal s = Inr d \<and> mo_spec m = spec \<and>
     dec_value d = of_int (sint (mo_minor m)) / 10 ^ nat (sp_MinorUnits spec)"
proof -
  obtain d r where d: "ParseDecimal s = Inr d" "Decimal_Round d (sp_MinorUnits spec) TowardZero = Inr r"
    "Decimal_Cmp r d = 0" "fromBig (dec_coef r) spec = Inr m"
    using assms by (auto simp: Money_Parse_def FromDecimal_def split: if_splits elim!: rbindE)
  note r = Decimal_Round_scale[OF d(2)]
  have "dec_value r = dec_value d" using Decimal_Cmp_value[of r d] d(3) ParseDecimal_ok[OF d(1)] r by (simp add: dec_ok_def)
  moreover have "dec_coef r = sint (mo_minor m)" "mo_spec m = spec" using d(4) by (simp_all add: fromBig_ok)
  ultimately show ?thesis using d(1) r by (metis dec_value_def)
qed

theorem money_parse_is_exact_witness:
  "Money_Parse ''10.50'' sample_spec = Inr \<lparr>mo_minor = 10500, mo_spec = sample_spec\<rparr> \<and>
   (\<exists>d. ParseDecimal ''10.50'' = Inr d \<and> dec_value d = 10500 / 10 ^ 3) \<and> Money_Parse ''0.1234'' sample_spec = Inl ErrPrecision"
proof -
  have p: "Money_Parse ''10.50'' sample_spec = Inr \<lparr>mo_minor = 10500, mo_spec = sample_spec\<rparr>"
    "Money_Parse ''0.1234'' sample_spec = Inl ErrPrecision" by code_simp+
  then show ?thesis using money_parse_is_exact[OF p(1)] by (auto simp: sample_spec_def)
qed

text \<open>Converting an amount computes the exact product with the rate, in minor units of the target, and
  rounds once with the given mode; it fails only on an invalid rate, target or mode, on a currency that
  is not the rate's, or when the result does not fit. So a larger amount never converts to less.\<close>

theorem Convert_is_exact:
  assumes "Rate_validate r = Inr ()" "Spec_Validate to = Inr ()" "Spec_Validate (mo_spec a) = Inr ()" "mode_valid mode"
    and "dec_ok (rt_Value r)" "rt_Base r = sp_Code (mo_spec a)" "rt_Quote r = sp_Code to"
  shows "Convert a r to mode =
    fromBig (round_spec mode (of_int (sint (mo_minor a)) / 10 ^ nat (sp_MinorUnits (mo_spec a)) * dec_value (rt_Value r) *
      10 ^ nat (sp_MinorUnits to))) to"
proof -
  define num den where "num = sint (mo_minor a) * dec_coef (rt_Value r) * pow10 (sp_MinorUnits to)"
    and "den = pow10 (dec_scale (rt_Value r) + sp_MinorUnits (mo_spec a))"
  have mu: "0 \<le> sp_MinorUnits (mo_spec a)" using Spec_Validate_ok[OF assms(3)] by simp
  have "(of_int num / of_int den :: rat) = of_int (sint (mo_minor a)) / 10 ^ nat (sp_MinorUnits (mo_spec a)) *
      dec_value (rt_Value r) * 10 ^ nat (sp_MinorUnits to)"
    using pow10_add[of "dec_scale (rt_Value r)" "sp_MinorUnits (mo_spec a)"] mu assms(5)
    by (simp add: num_def den_def dec_value_def dec_ok_def mult_ac)
  then show ?thesis
    using assms divRound_round_spec[of den num mode]
    by (simp add: Convert_def checkMode_def Let_def num_def den_def)
qed

definition sample_rate :: Rate where
  "sample_rate = \<lparr>rt_ID = ''r'', rt_Base = ''KWD'', rt_Quote = ''MXN'', rt_Value = \<lparr>dec_coef = 172345, dec_scale = 4\<rparr>,
     rt_Kind = ''mid'', rt_Inverted = False, rt_Derived = False\<rparr>"

definition sample_mxn :: Spec where
  "sample_mxn = \<lparr>sp_Code = ''MXN'', sp_MinorUnits = 2, sp_CashIncrementMinor = 0, sp_Scope = ''line''\<rparr>"

theorem Convert_is_exact_witness:
  "Convert \<lparr>mo_minor = 10000, mo_spec = sample_spec\<rparr> sample_rate sample_mxn HalfEven =
     fromBig (round_spec HalfEven (10000 / 10 ^ 3 * (172345 / 10 ^ 4) * 10 ^ 2)) sample_mxn"
proof -
  have "Rate_validate sample_rate = Inr ()" "Spec_Validate sample_mxn = Inr ()" "Spec_Validate sample_spec = Inr ()"
    by code_simp+
  then show ?thesis
    using Convert_is_exact[of sample_rate sample_mxn "\<lparr>mo_minor = 10000, mo_spec = sample_spec\<rparr>" HalfEven]
    by (simp add: mode_valid_def dec_ok_def sample_rate_def sample_mxn_def sample_spec_def dec_value_def)
qed

end
