(* ===== verification/Money_Allocate.thy ===== *)
theory Money_Allocate
  imports Money_Core "HOL-Library.Multiset"
begin

text \<open>
  Splitting an amount by weights (\<^verbatim>\<open>Money.Allocate\<close> of \<^verbatim>\<open>src/money/money.go\<close>) with the 128-bit products and
  quotients of \<^verbatim>\<open>math/bits\<close>. The specification is the largest-remainder rule on natural numbers.
\<close>

section \<open>The code\<close>

text \<open>\<^verbatim>\<open>bits.Mul64\<close>: the high and low half of the product. \<^verbatim>\<open>bits.Div64\<close> panics when the quotient overflows.\<close>

definition Mul64 :: "64 word \<Rightarrow> 64 word \<Rightarrow> 64 word \<times> 64 word" where
  "Mul64 a b = (let p = unat a * unat b in (of_nat (p div 2 ^ 64), of_nat (p mod 2 ^ 64)))"

definition Div64 :: "64 word \<Rightarrow> 64 word \<Rightarrow> 64 word \<Rightarrow> (money_error, 64 word \<times> 64 word) result" where
  "Div64 hi lo y =
     (if y = 0 \<or> y \<le> hi then Inl MoneyPanic
      else let n = unat hi * 2 ^ 64 + unat lo in Inr (of_nat (n div unat y), of_nat (n mod unat y)))"

text \<open>The sum of the weights; \<^verbatim>\<open>bits.Add64\<close> reports the carry.\<close>

fun sum_weights :: "64 word \<Rightarrow> int64 list \<Rightarrow> (money_error, 64 word) result" where
  "sum_weights acc [] = Inr acc"
| "sum_weights acc (w # ws) =
     (if w <s 0 then Inl ErrInvalid
      else if unat acc + unat w \<ge> 2 ^ 64 then Inl ErrOverflow
      else sum_weights (acc + w) ws)"

fun shares :: "64 word \<Rightarrow> 64 word \<Rightarrow> int64 list \<Rightarrow> (money_error, (64 word \<times> 64 word) list) result" where
  "shares n W [] = Inr []"
| "shares n W (w # ws) =
     (let (hi, lo) = Mul64 n w
      in rbind (Div64 hi lo W) (\<lambda>qr. rbind (shares n W ws) (\<lambda>qrs. Inr (qr # qrs))))"

definition remainder_order :: "64 word list \<Rightarrow> nat list" where
  "remainder_order rems = sort_key (\<lambda>i. - int (unat (rems ! i))) [0..<length rems]"

text \<open>The loop that hands out the leftover units; an index past the end panics.\<close>

fun bump :: "nat list \<Rightarrow> nat \<Rightarrow> 64 word list \<Rightarrow> (money_error, 64 word list) result" where
  "bump order 0 quotas = Inr quotas"
| "bump [] (Suc k) quotas = Inl MoneyPanic"
| "bump (i # order) (Suc k) quotas = bump order k (quotas[i := quotas ! i + 1])"

definition Allocate :: "Money \<Rightarrow> int64 list \<Rightarrow> (money_error, Money list) result" where
  "Allocate m weights =
     (if weights = [] then Inl ErrInvalid
      else rbind (sum_weights 0 weights) (\<lambda>W.
        if W = 0 then Inl ErrInvalid
        else
          let neg = (mo_minor m <s 0);
              n = (if neg then - mo_minor m else mo_minor m)
          in rbind (shares n W weights) (\<lambda>qrs.
             let quotas = map fst qrs; rems = map snd qrs; assigned = sum_list quotas
             in rbind (bump (remainder_order rems) (unat (n - assigned)) quotas) (\<lambda>quotas.
                Inr (map (\<lambda>q. \<lparr>mo_minor = (if neg then - q else q), mo_spec = mo_spec m\<rparr>) quotas)))))"

section \<open>Words as numbers\<close>

lemma unat_less_64: "unat (a :: 64 word) < 2 ^ 64"
  by (rule order_less_le_trans[OF unsigned_less]) simp

lemma uint_64: "uint (a :: 64 word) < 2 ^ 64" "0 \<le> uint a"
  by (rule order_less_le_trans[OF unsigned_less]) simp_all

lemma unat_of_nat_64: "k < 2 ^ 64 \<Longrightarrow> unat (of_nat k :: 64 word) = k"
  by (simp add: unat_of_nat take_bit_nat_eq_self)

lemma sint_unat: "sint (w :: int64) = (if unat w < 2 ^ 63 then int (unat w) else int (unat w) - 2 ^ 64)"
proof -
  have s: "sint w = (int (unat w) + 2 ^ 63) mod 2 ^ 64 - 2 ^ 63" using sint_wrap[of "int (unat w)"] by simp
  have "(int (unat w) + 2 ^ 63) mod 2 ^ 64 - 2 ^ 63 = (if int (unat w) < - (2 ^ 63) then int (unat w) + 2 ^ 64
      else if int (unat w) < 2 ^ 63 then int (unat w) else int (unat w) - 2 ^ 64)"
  proof (rule wrap_cases)
    show "- (2 ^ 64) \<le> int (unat w)" by (rule order_trans[of _ 0]) simp_all
    show "int (unat w) < 2 ^ 64" using uint_64(1)[of w] by simp
  qed
  moreover have "\<not> int (unat w) < - (2 ^ 63)" by (rule leD, rule order_trans[of _ 0]) simp_all
  moreover have "int (unat w) < 2 ^ 63 \<longleftrightarrow> unat w < 2 ^ 63"
    using of_nat_less_iff[of "unat w" "2 ^ 63", where 'a = int] by (simp only: of_nat_power of_nat_numeral)
  ultimately show ?thesis using s by (simp only: if_False)
qed

lemma nonneg_unat: "\<not> (w :: int64) <s 0 \<Longrightarrow> sint w = int (unat w)"
  using sint_unat[of w] uint_64[of w] by (auto simp: word_sless_alt split: if_splits)

lemma Div64_share:
  assumes "unat w \<le> unat W" "W \<noteq> 0" "Mul64 n w = (hi, lo)"
  shows "Div64 hi lo W = Inr (of_nat (unat n * unat w div unat W), of_nat (unat n * unat w mod unat W))"
    and "unat n * unat w div unat W \<le> unat n"
proof -
  define p where "p = unat n * unat w"
  have W: "0 < unat W" using assms(2) by (simp add: unat_gt_0)
  have le: "p \<le> unat n * unat W" using assms(1) by (simp add: p_def)
  then have "p < 2 ^ 64 * unat W" using W unat_less_64[of n] by (meson le_less_trans mult_less_mono1)
  then have hi_lt: "p div 2 ^ 64 < unat W" by (simp add: less_mult_imp_div_less mult.commute)
  have hi: "unat hi = p div 2 ^ 64" "unat lo = p mod 2 ^ 64"
    using assms(3) hi_lt unat_less_64[of W] by (auto simp: Mul64_def Let_def p_def unat_of_nat_64)
  then have "\<not> W \<le> hi" using hi_lt by (simp add: word_le_nat_alt)
  moreover have "unat hi * 2 ^ 64 + unat lo = p" by (simp add: hi)
  ultimately show "Div64 hi lo W = Inr (of_nat (unat n * unat w div unat W), of_nat (unat n * unat w mod unat W))"
    using assms(2) by (simp add: Div64_def p_def Let_def)
  show "unat n * unat w div unat W \<le> unat n"
    using le W by (metis div_le_mono div_mult_self_is_m p_def)
qed

section \<open>The largest-remainder rule\<close>

text \<open>\<open>n\<close> units split by the weights \<open>ws\<close> of sum \<open>W\<close>: the rounded-down shares and what they leave.\<close>

lemma sum_shares:
  fixes n W :: nat
  assumes "0 < W"
  shows "W * (\<Sum>w\<leftarrow>ws. n * w div W) + (\<Sum>w\<leftarrow>ws. n * w mod W) = n * sum_list ws"
  by (induction ws) (simp_all add: algebra_simps)

lemma sum_rems_le: "(\<Sum>w\<leftarrow>ws. n * w mod W) \<le> W * length (filter (\<lambda>w. 0 < n * w mod W) ws)" if "0 < (W :: nat)"
proof (induction ws)
  case (Cons w ws)
  have "n * w mod W \<le> W" using that by (simp add: order_less_imp_le)
  with Cons show ?case by (auto simp: algebra_simps)
qed simp

lemma leftover_bounds:
  fixes n W :: nat
  assumes "0 < W" "W = sum_list ws"
  shows "(\<Sum>w\<leftarrow>ws. n * w div W) \<le> n"
    and "n - (\<Sum>w\<leftarrow>ws. n * w div W) \<le> length (filter (\<lambda>w. 0 < n * w mod W) ws)"
proof -
  define Q where "Q = (\<Sum>w\<leftarrow>ws. n * w div W)"
  have eq: "W * Q + (\<Sum>w\<leftarrow>ws. n * w mod W) = n * W" using sum_shares[OF assms(1), of n ws] assms(2) by (simp add: Q_def)
  then have "W * Q \<le> n * W" by (metis le_add1)
  then show Q: "(\<Sum>w\<leftarrow>ws. n * w div W) \<le> n" using assms(1) by (simp add: Q_def mult.commute[of n W])
  have "W * (n - Q) = (\<Sum>w\<leftarrow>ws. n * w mod W)" using eq by (simp add: diff_mult_distrib2 mult.commute)
  also have "\<dots> \<le> W * length (filter (\<lambda>w. 0 < n * w mod W) ws)" using sum_rems_le[OF assms(1)] .
  finally show "n - (\<Sum>w\<leftarrow>ws. n * w div W) \<le> length (filter (\<lambda>w. 0 < n * w mod W) ws)"
    using assms(1) by (simp add: Q_def)
qed

lemma sorted_prefix:
  assumes "sorted (map f xs)" "k \<le> length (filter (\<lambda>x. f x < c) xs)" "x \<in> set (take k xs)"
  shows "f x < (c :: 'b :: linorder)"
  using assms
proof (induction xs arbitrary: k)
  case (Cons a xs)
  show ?case
  proof (cases "f a < c")
    case True
    then show ?thesis using Cons by (cases k) auto
  next
    case False
    then have "filter (\<lambda>x. f x < c) (a # xs) = []" using Cons.prems(1) by (auto simp: filter_empty_conv)
    then show ?thesis using Cons.prems by simp
  qed
qed simp

lemma filter_indices: "length (filter (\<lambda>i. P (xs ! i)) [0..<length xs]) = length (filter P xs)"
proof -
  have "filter P xs = filter P (map ((!) xs) [0..<length xs])" by (simp only: map_nth)
  then show ?thesis by (metis (no_types, lifting) comp_apply filter_cong filter_map length_map)
qed

lemma remainder_order:
  shows "distinct (remainder_order rems)" "set (remainder_order rems) = {0..<length rems}"
    "length (remainder_order rems) = length rems"
  by (simp_all add: remainder_order_def)

text \<open>The first \<open>k\<close> indices all have something left over, as long as that many do.\<close>

lemma remainder_first:
  assumes "k \<le> length (filter (\<lambda>r. 0 < unat r) rems)" "i \<in> set (take k (remainder_order rems))"
  shows "0 < unat (rems ! i)"
proof -
  define f where "f = (\<lambda>i. - int (unat (rems ! i)))"
  have f0: "f i < 0 \<longleftrightarrow> 0 < unat (rems ! i)" for i
    unfolding f_def by (metis neg_less_0_iff_less of_nat_0_less_iff)
  have ms: "mset (remainder_order rems) = mset [0..<length rems]" by (simp add: remainder_order_def)
  have "length (filter (\<lambda>i. f i < 0) (remainder_order rems)) = length (filter (\<lambda>i. f i < 0) [0..<length rems])"
    using ms by (metis mset_filter size_mset)
  also have "\<dots> = length (filter (\<lambda>r. 0 < unat r) rems)"
    unfolding f0 by (rule filter_indices)
  finally have "k \<le> length (filter (\<lambda>i. f i < 0) (remainder_order rems))" using assms(1) by simp
  moreover have "sorted (map f (remainder_order rems))" unfolding remainder_order_def f_def by (rule sorted_sort_key)
  ultimately have "f i < 0" using sorted_prefix[of f "remainder_order rems" k 0 i] assms(2) by blast
  then show ?thesis unfolding f0 .
qed

lemma bump_result:
  assumes "distinct order" "set order \<subseteq> {0..<length quotas}" "k \<le> length order"
  shows "bump order k quotas = Inr (map (\<lambda>i. if i \<in> set (take k order) then quotas ! i + 1 else quotas ! i) [0..<length quotas])"
  using assms
proof (induction order k quotas rule: bump.induct)
  case (1 order quotas)
  show ?case by (simp add: map_nth)
next
  case (3 i order k quotas)
  have "bump (i # order) (Suc k) quotas = Inr (map (\<lambda>j. if j \<in> set (take k order)
      then quotas[i := quotas ! i + 1] ! j + 1 else quotas[i := quotas ! i + 1] ! j) [0..<length quotas])"
    using 3 by simp
  also have "\<dots> = Inr (map (\<lambda>j. if j \<in> set (take (Suc k) (i # order)) then quotas ! j + 1 else quotas ! j) [0..<length quotas])"
    using 3(2,3) in_set_takeD[of _ k order] by (intro arg_cong[of _ _ Inr] map_cong) (auto simp: nth_list_update)
  finally show ?case .
qed simp

section \<open>The code computes it\<close>

lemma sum_weights_ok:
  assumes "sum_weights acc ws = Inr W"
  shows "unat W = unat acc + sum_list (map unat ws) \<and> (\<forall>w\<in>set ws. \<not> w <s 0)"
  using assms
proof (induction ws arbitrary: acc)
  case (Cons w ws)
  then have lt: "unat acc + unat w < 2 ^ 64" "\<not> w <s 0" and rec: "sum_weights (acc + w) ws = Inr W"
    by (auto split: if_splits)
  have "unat (acc + w) = unat acc + unat w" using lt(1) by (simp add: unat_word_ariths)
  then show ?case using Cons.IH[OF rec] lt by simp
qed simp

lemma sum_weights_total:
  assumes "\<forall>w\<in>set ws. \<not> w <s 0" "unat acc + sum_list (map unat ws) < 2 ^ 64"
  shows "\<exists>W. sum_weights acc ws = Inr W"
  using assms
proof (induction ws arbitrary: acc)
  case (Cons w ws)
  then have "unat acc + unat w < 2 ^ 64" by simp
  moreover from this have "unat (acc + w) = unat acc + unat w" by (simp add: unat_word_ariths)
  ultimately show ?case using Cons.IH[of "acc + w"] Cons.prems by auto
qed simp

abbreviation share :: "64 word \<Rightarrow> 64 word \<Rightarrow> int64 \<Rightarrow> nat" where
  "share n W w \<equiv> unat n * unat w div unat W"

abbreviation share_rem :: "64 word \<Rightarrow> 64 word \<Rightarrow> int64 \<Rightarrow> nat" where
  "share_rem n W w \<equiv> unat n * unat w mod unat W"

lemma shares_ok:
  assumes "W \<noteq> 0" "\<forall>w\<in>set ws. unat w \<le> unat W"
  shows "shares n W ws = Inr (map (\<lambda>w. (of_nat (share n W w), of_nat (share_rem n W w))) ws)"
  using assms(2)
proof (induction ws)
  case (Cons w ws)
  obtain hi lo where m: "Mul64 n w = (hi, lo)" by (cases "Mul64 n w")
  show ?case using Cons Div64_share(1)[OF _ assms(1) m] by (simp add: m)
qed simp

lemma unat_minus_of_nat:
  assumes "k \<le> unat (n :: 64 word)"
  shows "unat (n - of_nat k) = unat n - k"
proof -
  have "n - of_nat k = of_nat (unat n - k)" using assms by (simp add: of_nat_diff)
  moreover have "unat n - k < 2 ^ 64" using unat_less_64[of n] by linarith
  ultimately show ?thesis by (simp only: unat_of_nat_64)
qed

text \<open>The parts, as numbers: the rounded-down share, plus one for the indices that get a leftover unit.\<close>

lemma allocate_quotas:
  assumes "W \<noteq> 0" "unat W = sum_list (map unat ws)"
  obtains B where "B \<subseteq> {0..<length ws}" "\<forall>i\<in>B. 0 < share_rem n W (ws ! i)"
    "(\<Sum>i<length ws. share n W (ws ! i) + (if i \<in> B then 1 else 0)) = unat n"
    "rbind (shares n W ws) (\<lambda>qrs. bump (remainder_order (map snd qrs)) (unat (n - sum_list (map fst qrs))) (map fst qrs)) =
       Inr (map (\<lambda>i. of_nat (share n W (ws ! i) + (if i \<in> B then 1 else 0))) [0..<length ws])"
proof -
  define q where "q = map (\<lambda>w. of_nat (share n W w) :: 64 word) ws"
  define r where "r = map (\<lambda>w. of_nat (share_rem n W w) :: 64 word) ws"
  define S where "S = (\<Sum>w\<leftarrow>ws. share n W w)"
  define L where "L = unat n - S"
  define B where "B = set (take L (remainder_order r))"
  have W: "0 < unat W" using assms(1) by (simp add: unat_gt_0)
  have le: "\<forall>w\<in>set ws. unat w \<le> unat W" by (simp add: assms(2) member_le_sum_list)
  note lb = leftover_bounds[OF W assms(2), of "unat n", unfolded map_map comp_def filter_map length_map, folded S_def]
  have rems: "unat (of_nat (share_rem n W w) :: 64 word) = share_rem n W w" for w
    using W unat_less_64[of W] by (intro unat_of_nat_64) (meson less_trans mod_less_divisor)
  have sumq: "sum_list q = of_nat S" unfolding q_def S_def by (induction ws) simp_all
  have left: "unat (n - sum_list q) = L" unfolding sumq L_def by (rule unat_minus_of_nat[OF lb(1)])
  have cnt: "L \<le> length (filter (\<lambda>x. 0 < unat x) r)"
    using lb(2) by (simp add: L_def r_def filter_map comp_def rems)
  then have Llen: "L \<le> length r" by (meson length_filter_le le_trans)
  have B: "B \<subseteq> {0..<length ws}" using set_take_subset[of L "remainder_order r"] by (auto simp: B_def remainder_order r_def)
  have pos: "0 < share_rem n W (ws ! i)" if "i \<in> B" for i
  proof -
    have "i < length ws" using that B by auto
    then show ?thesis using remainder_first[OF cnt, of i] that by (simp add: B_def r_def rems)
  qed
  have card: "card B = L" unfolding B_def
    by (subst distinct_card) (use Llen in \<open>simp_all add: distinct_take remainder_order\<close>)
  have "(\<Sum>i<length ws. if i \<in> B then 1 else 0) = (card B :: nat)"
    using B by (simp add: sum.If_cases lessThan_atLeast0 Int_absorb1)
  moreover have "(\<Sum>i<length ws. share n W (ws ! i)) = S"
    unfolding S_def by (simp add: sum_list_sum_nth atLeast0LessThan)
  ultimately have sum: "(\<Sum>i<length ws. share n W (ws ! i) + (if i \<in> B then 1 else 0)) = unat n"
    using card lb(1) by (simp add: sum.distrib L_def)
  have "bump (remainder_order r) L q = Inr (map (\<lambda>i. if i \<in> B then q ! i + 1 else q ! i) [0..<length q])"
    unfolding B_def by (rule bump_result) (use Llen in \<open>simp_all add: remainder_order r_def q_def\<close>)
  also have "\<dots> = Inr (map (\<lambda>i. of_nat (share n W (ws ! i) + (if i \<in> B then 1 else 0))) [0..<length ws])"
    by (intro arg_cong[of _ _ Inr] map_cong) (auto simp: q_def)
  finally have run: "bump (remainder_order r) L q = \<dots>" .
  show ?thesis
  proof (rule that[OF B _ sum])
    show "\<forall>i\<in>B. 0 < share_rem n W (ws ! i)" using pos by blast
    show "rbind (shares n W ws) (\<lambda>qrs. bump (remainder_order (map snd qrs)) (unat (n - sum_list (map fst qrs))) (map fst qrs)) =
       Inr (map (\<lambda>i. of_nat (share n W (ws ! i) + (if i \<in> B then 1 else 0))) [0..<length ws])"
      using run left by (simp add: shares_ok[OF assms(1) le] comp_def q_def[symmetric] r_def[symmetric])
  qed
qed

lemma unat_abs:
  assumes "n = (if m <s 0 then - m else m)"
  shows "int (unat n) = \<bar>sint (m :: int64)\<bar>"
proof (cases "m <s 0")
  case False
  then show ?thesis using nonneg_unat[OF False] assms by simp
next
  case True
  then have neg: "sint m < 0" by (simp add: word_sless_alt)
  then have m: "int (unat m) = sint m + 2 ^ 64" using sint_unat[of m] by (auto split: if_splits)
  have "n = of_nat (nat (- sint m))"
  proof -
    have "of_nat (nat (- sint m)) = (word_of_int (- sint m) :: int64)" using neg by simp
    then show ?thesis using True assms by simp
  qed
  moreover have "nat (- sint m) < 2 ^ 64" using sint64_range[of m] by simp
  ultimately show ?thesis using neg by (simp only: unat_of_nat_64)
qed

lemma sint_signed_part:
  assumes "int p \<le> \<bar>sint (m :: int64)\<bar>"
  shows "sint (if m <s 0 then - of_nat p else of_nat p :: int64) = (if sint m < 0 then - int p else int p)"
proof (cases "m <s 0")
  case True
  then have "sint m < 0" by (simp add: word_sless_alt)
  moreover have "is_int64 (- int p)" using assms sint64_range[of m] calculation by (simp add: is_int64_def)
  then have "sint (word_of_int (- int p) :: int64) = - int p" by (rule sint_word_of_int)
  ultimately show ?thesis using True by simp
next
  case False
  then have "\<not> sint m < 0" by (simp add: word_sless_alt)
  moreover have "is_int64 (int p)" using assms sint64_range[of m] calculation by (simp add: is_int64_def)
  then have "sint (word_of_int (int p) :: int64) = int p" by (rule sint_word_of_int)
  ultimately show ?thesis using False by simp
qed

section \<open>Properties\<close>

lemma share_distance:
  fixes a w W :: nat and b :: bool
  assumes "0 < W" "b \<Longrightarrow> 0 < a * w mod W"
  shows "\<bar>of_nat (a * w div W + (if b then 1 else 0)) - of_nat a * of_nat w / of_nat W\<bar> < (1 :: rat)"
proof -
  define q r where "q = a * w div W" and "r = a * w mod W"
  have "a * w = q * W + r" by (simp add: q_def r_def)
  then have "(of_nat a * of_nat w :: rat) = of_nat q * of_nat W + of_nat r" by (metis of_nat_add of_nat_mult)
  then have x: "of_nat a * of_nat w / of_nat W = (of_nat q + of_nat r / of_nat W :: rat)"
    using assms(1) by (simp add: add_divide_distrib)
  have "0 \<le> (of_nat r / of_nat W :: rat)" "(of_nat r / of_nat W :: rat) < 1" "b \<Longrightarrow> 0 < (of_nat r / of_nat W :: rat)"
    using assms by (simp_all add: r_def)
  then show ?thesis unfolding x q_def[symmetric] by auto
qed

lemma Allocate_parts:
  assumes "sum_weights 0 ws = Inr W" "W \<noteq> 0" "ws \<noteq> []"
  obtains B where "\<forall>i\<in>B. 0 < share_rem (if mo_minor m <s 0 then - mo_minor m else mo_minor m) W (ws ! i)"
    "(\<Sum>i<length ws. share (if mo_minor m <s 0 then - mo_minor m else mo_minor m) W (ws ! i) + (if i \<in> B then 1 else 0)) =
       nat \<bar>sint (mo_minor m)\<bar>"
    "Allocate m ws = Inr (map (\<lambda>i. \<lparr>mo_minor = (if mo_minor m <s 0
       then - of_nat (share (if mo_minor m <s 0 then - mo_minor m else mo_minor m) W (ws ! i) + (if i \<in> B then 1 else 0))
       else of_nat (share (if mo_minor m <s 0 then - mo_minor m else mo_minor m) W (ws ! i) + (if i \<in> B then 1 else 0))),
       mo_spec = mo_spec m\<rparr>) [0..<length ws])"
proof -
  define n where "n = (if mo_minor m <s 0 then - mo_minor m else mo_minor m)"
  have "unat W = sum_list (map unat ws)" using sum_weights_ok[OF assms(1)] by simp
  then obtain B where B: "\<forall>i\<in>B. 0 < share_rem n W (ws ! i)"
    "(\<Sum>i<length ws. share n W (ws ! i) + (if i \<in> B then 1 else 0)) = unat n"
    and run: "rbind (shares n W ws) (\<lambda>qrs. bump (remainder_order (map snd qrs)) (unat (n - sum_list (map fst qrs))) (map fst qrs)) =
       Inr (map (\<lambda>i. of_nat (share n W (ws ! i) + (if i \<in> B then 1 else 0))) [0..<length ws])"
    by (rule allocate_quotas[OF assms(2), of ws n])
  have "unat n = nat \<bar>sint (mo_minor m)\<bar>" using unat_abs[OF n_def] by (metis nat_int)
  moreover obtain qrs where "shares n W ws = Inr qrs" using run by (auto elim!: rbindE)
  ultimately show ?thesis
    using that[of B] B run assms unfolding Allocate_def n_def[symmetric]
    by (simp add: Let_def n_def[symmetric])
qed

lemma Allocate_no_panic: "Allocate m ws \<noteq> Inl MoneyPanic"
proof -
  have "sum_weights acc ws \<noteq> Inl MoneyPanic" for acc by (induction ws arbitrary: acc) auto
  moreover have "Allocate m ws \<noteq> Inl MoneyPanic" if "sum_weights 0 ws = Inr W" "W \<noteq> 0" "ws \<noteq> []" for W
    by (rule Allocate_parts[OF that, of m]) simp
  ultimately show ?thesis by (cases "sum_weights 0 ws") (auto simp: Allocate_def)
qed

lemma sum_sint_unat: "\<forall>w\<in>set ws. 0 \<le> sint (w :: int64) \<Longrightarrow> (\<Sum>w\<leftarrow>ws. sint w) = int (sum_list (map unat ws))"
  by (induction ws) (auto simp: nonneg_unat word_sless_alt)

text \<open>C38. Splitting an amount loses nothing: for non-negative weights that are not all zero and whose sum
  fits in 64 bits, \<^verbatim>\<open>Allocate\<close> returns one part per weight, in the same currency; the parts add up to the
  amount exactly, each is less than one minor unit away from its exact proportional share and has the
  amount's sign, and a zero weight gets nothing. It never panics, whatever the weights.\<close>

theorem Allocate_is_exact:
  assumes "ws \<noteq> []" "\<forall>w\<in>set ws. 0 \<le> sint w" "0 < (\<Sum>w\<leftarrow>ws. sint w)" "(\<Sum>w\<leftarrow>ws. sint w) < 2 ^ 64"
  shows "(\<exists>parts. Allocate m ws = Inr parts \<and> length parts = length ws \<and>
      (\<Sum>p\<leftarrow>parts. sint (mo_minor p)) = sint (mo_minor m) \<and>
      (\<forall>i<length ws. mo_spec (parts ! i) = mo_spec m \<and>
         \<bar>of_int (sint (mo_minor (parts ! i))) - of_int (sint (mo_minor m)) * of_int (sint (ws ! i)) / of_int (\<Sum>w\<leftarrow>ws. sint w)\<bar> < (1 :: rat) \<and>
         (sint (ws ! i) = 0 \<longrightarrow> sint (mo_minor (parts ! i)) = 0))) \<and>
    Allocate m ws' \<noteq> Inl MoneyPanic"
proof -
  define n where "n = (if mo_minor m <s 0 then - mo_minor m else mo_minor m)"
  have nonneg: "\<forall>w\<in>set ws. \<not> w <s 0" using assms(2) by (auto simp: word_sless_alt)
  note sums = sum_sint_unat[OF assms(2)]
  have "unat (0 :: 64 word) + sum_list (map unat ws) < 2 ^ 64"
    using assms(4) of_nat_less_iff[of "sum_list (map unat ws)" "2 ^ 64", where 'a = int]
    unfolding sums by (simp only: of_nat_power of_nat_numeral unat_0 add_0)
  then obtain W where W: "sum_weights 0 ws = Inr W" using sum_weights_total[OF nonneg, of 0] by blast
  have uW: "unat W = sum_list (map unat ws)" using sum_weights_ok[OF W] by simp
  then have "0 < unat W" using assms(3) unfolding sums uW[symmetric] by (simp only: of_nat_0_less_iff)
  then have W0: "0 < unat W" "W \<noteq> 0" by (auto simp: unat_gt_0)
  obtain B where B: "\<forall>i\<in>B. 0 < share_rem n W (ws ! i)"
    "(\<Sum>i<length ws. share n W (ws ! i) + (if i \<in> B then 1 else 0)) = nat \<bar>sint (mo_minor m)\<bar>"
    and run: "Allocate m ws = Inr (map (\<lambda>i. \<lparr>mo_minor = (if mo_minor m <s 0
       then - of_nat (share n W (ws ! i) + (if i \<in> B then 1 else 0))
       else of_nat (share n W (ws ! i) + (if i \<in> B then 1 else 0))), mo_spec = mo_spec m\<rparr>) [0..<length ws])"
    by (rule Allocate_parts[OF W W0(2) assms(1), of m, folded n_def])
  define p where "p = (\<lambda>i. share n W (ws ! i) + (if i \<in> B then 1 else 0))"
  define sg where "sg = (\<lambda>k::int. if sint (mo_minor m) < 0 then - k else k)"
  define parts where "parts = map (\<lambda>i. \<lparr>mo_minor = (if mo_minor m <s 0 then - of_nat (p i) else of_nat (p i)),
     mo_spec = mo_spec m\<rparr>) [0..<length ws]"
  have ok: "Allocate m ws = Inr parts" "length parts = length ws" using run by (simp_all add: parts_def p_def)
  have le: "int (p i) \<le> \<bar>sint (mo_minor m)\<bar>" if "i < length ws" for i
    using member_le_sum[of i "{..<length ws}" p] that B(2) by (simp add: p_def)
  have val: "sint (mo_minor (parts ! i)) = sg (int (p i))" if "i < length ws" for i
    using sint_signed_part[OF le[OF that]] that by (auto simp: parts_def sg_def split: if_splits)
  have "(\<Sum>q\<leftarrow>parts. sint (mo_minor q)) = (\<Sum>i<length ws. sg (int (p i)))"
    using val ok(2) by (simp add: sum_list_sum_nth atLeast0LessThan)
  also have "\<dots> = sg (int (\<Sum>i<length ws. p i))" by (simp add: sg_def sum_negf)
  also have "\<dots> = sint (mo_minor m)" using B(2) by (simp add: p_def sg_def)
  finally have sum: "(\<Sum>q\<leftarrow>parts. sint (mo_minor q)) = sint (mo_minor m)" .
  have each: "mo_spec (parts ! i) = mo_spec m \<and>
      \<bar>of_int (sint (mo_minor (parts ! i))) - of_int (sint (mo_minor m)) * of_int (sint (ws ! i)) / of_int (\<Sum>w\<leftarrow>ws. sint w)\<bar> < (1 :: rat) \<and>
      (sint (ws ! i) = 0 \<longrightarrow> sint (mo_minor (parts ! i)) = 0)" if i: "i < length ws" for i
  proof -
    have w: "sint (ws ! i) = int (unat (ws ! i))" using nonneg i by (simp add: nonneg_unat)
    have d: "\<bar>of_nat (p i) - of_nat (unat n) * of_nat (unat (ws ! i)) / of_nat (unat W)\<bar> < (1 :: rat)"
      unfolding p_def by (rule share_distance) (use W0 B(1) in auto)
    have "sint (mo_minor m) = sg 1 * int (unat n)" using unat_abs[OF n_def] by (auto simp: sg_def)
    then have m: "of_int (sint (mo_minor m)) = (of_int (sg 1) * of_nat (unat n) :: rat)"
      by (simp only: of_int_mult of_int_of_nat_eq)
    have Wi: "(\<Sum>w\<leftarrow>ws. sint w) = int (unat W)" by (simp add: sums uW)
    have "of_int (sint (mo_minor (parts ! i))) - of_int (sint (mo_minor m)) * of_int (sint (ws ! i)) / of_int (\<Sum>w\<leftarrow>ws. sint w) =
        (of_int (sg 1) * (of_nat (p i) - of_nat (unat n) * of_nat (unat (ws ! i)) / of_nat (unat W)) :: rat)"
      unfolding val[OF i] m w Wi by (simp add: sg_def)
    then have dist: "\<bar>of_int (sint (mo_minor (parts ! i))) - of_int (sint (mo_minor m)) * of_int (sint (ws ! i)) / of_int (\<Sum>w\<leftarrow>ws. sint w)\<bar> < (1 :: rat)"
      using d by (simp add: sg_def abs_minus_commute)
    have "p i = 0" if "sint (ws ! i) = 0"
    proof -
      have "unat (ws ! i) = 0" using that w by (metis of_nat_eq_0_iff)
      then show ?thesis using B(1) by (auto simp: p_def)
    qed
    then have "sint (ws ! i) = 0 \<longrightarrow> sint (mo_minor (parts ! i)) = 0" unfolding val[OF i] by (simp add: sg_def)
    moreover have "mo_spec (parts ! i) = mo_spec m" using i by (simp add: parts_def)
    ultimately show ?thesis using dist by blast
  qed
  show ?thesis using ok sum each Allocate_no_panic by blast
qed

theorem Allocate_is_exact_witness:
  "\<exists>parts. Allocate \<lparr>mo_minor = -100, mo_spec = sample_mxn\<rparr> [1, 1, 1, 0] = Inr parts \<and> length parts = 4 \<and>
     (\<Sum>p\<leftarrow>parts. sint (mo_minor p)) = -100 \<and> sint (mo_minor (parts ! 3)) = 0"
  using Allocate_is_exact[of "[1, 1, 1, 0]" "\<lparr>mo_minor = -100, mo_spec = sample_mxn\<rparr>" "[]"]
  by (auto simp: numeral_eq_Suc)

end
