(* ===== verification/Outbox_Model.thy ===== *)
theory Outbox_Model
  imports Guarded "HOL-Library.Word" "HOL-Library.Signed_Division" "HOL-Library.List_Lexorder"
    "HOL-Library.Char_ord" "HOL-Library.Product_Lexorder"
begin

text \<open>
  The durable job queue (\<^verbatim>\<open>src/outbox\<close>): the rows of \<^verbatim>\<open>metacore_outbox_jobs\<close>, the statements of
  \<^verbatim>\<open>service.go\<close> and \<^verbatim>\<open>worker.go\<close> that change them, and the admin handlers of \<^verbatim>\<open>handler.go\<close>.

  The table is the list of its rows in insertion order; \<open>jobs_unique\<close> is its primary key and its partial
  unique index, checked by every insert and update. Each statement is atomic. A handler's operation that
  consists of several statements takes an argument for what other sessions commit in between. Times are
  integer nanoseconds, one clock reading per operation, as in the code. \<open>oenv\<close> holds what one operation
  reads from outside: the clock, new uuids, JSON validity, random numbers and the rows other transactions
  hold locked. Metric hooks and log lines are left out, and so are I/O errors of the database: a result that
  could not be written is a run that ends without \<^verbatim>\<open>finish\<close>.
\<close>

section \<open>Jobs\<close>

datatype JobStatus = JobPending | JobRunning | JobDone | JobDead

fun status_text :: "JobStatus \<Rightarrow> string" where
  "status_text JobPending = ''pending''"
| "status_text JobRunning = ''running''"
| "status_text JobDone = ''done''"
| "status_text JobDead = ''dead''"

definition Valid_status :: "string \<Rightarrow> bool" where
  "Valid_status s \<longleftrightarrow> s \<in> set (map status_text [JobPending, JobRunning, JobDone, JobDead])"

record Job =
  j_ID :: string
  j_OrgID :: "string option"
  j_Kind :: string
  j_Payload :: string
  j_Status :: JobStatus
  j_Attempts :: int
  j_MaxAttempts :: int
  j_RunAt :: int
  j_LastError :: string
  j_DedupeKey :: "string option"
  j_LockedUntil :: "int option"
  j_CreatedAt :: int
  j_UpdatedAt :: int

text \<open>A row of the table has one column more, the owner of the lease.\<close>

record jobs_row = Job +
  j_LockedBy :: "string option"

definition job :: "jobs_row \<Rightarrow> Job" where
  "job r = \<lparr>j_ID = j_ID r, j_OrgID = j_OrgID r, j_Kind = j_Kind r, j_Payload = j_Payload r,
            j_Status = j_Status r, j_Attempts = j_Attempts r, j_MaxAttempts = j_MaxAttempts r,
            j_RunAt = j_RunAt r, j_LastError = j_LastError r, j_DedupeKey = j_DedupeKey r,
            j_LockedUntil = j_LockedUntil r, j_CreatedAt = j_CreatedAt r, j_UpdatedAt = j_UpdatedAt r\<rparr>"

datatype outbox_error =
    ErrDuplicate | ErrNotFound | ErrNotRetryable | KindRequired | PayloadInvalid | EncodeFailed
  | InsertReturnedNoRow | KeptConflicting | NeedsTransaction

text \<open>
  A handler's error: a message and the errors it wraps (\<^verbatim>\<open>errors.New\<close>, \<^verbatim>\<open>fmt.Errorf\<close> with \<^verbatim>\<open>%w\<close>,
  \<^verbatim>\<open>errors.Join\<close>), or one of the package's two wrappers. \<open>tree\<close> lists the errors in the order
  \<^verbatim>\<open>errors.As\<close> visits them.
\<close>

datatype gerr = Err string "gerr list" | PermanentErr gerr | RetryAfterErr gerr int

primrec Error :: "gerr \<Rightarrow> string" where
  "Error (Err s es) = s"
| "Error (PermanentErr e) = Error e"
| "Error (RetryAfterErr e d) = Error e"

fun tree :: "gerr \<Rightarrow> gerr list" where
  "tree (Err s es) = Err s es # concat (map tree es)"
| "tree (PermanentErr e) = PermanentErr e # tree e"
| "tree (RetryAfterErr e d) = RetryAfterErr e d # tree e"

definition Permanent :: "gerr option \<Rightarrow> gerr option" where
  "Permanent err = map_option PermanentErr err"

definition IsPermanent :: "gerr \<Rightarrow> bool" where
  "IsPermanent err \<longleftrightarrow> list_ex (\<lambda>e. case e of PermanentErr _ \<Rightarrow> True | _ \<Rightarrow> False) (tree err)"

definition RetryAfter :: "gerr option \<Rightarrow> int \<Rightarrow> gerr option" where
  "RetryAfter err delay = map_option (\<lambda>e. RetryAfterErr e delay) err"

definition retryDelay :: "gerr \<Rightarrow> int option" where
  "retryDelay err =
     (case find (\<lambda>e. case e of RetryAfterErr _ _ \<Rightarrow> True | _ \<Rightarrow> False) (tree err) of
        Some (RetryAfterErr _ d) \<Rightarrow> Some d
      | _ \<Rightarrow> None)"

text \<open>Options of one \<^verbatim>\<open>Enqueue\<close> call; \<open>WithRunAt None\<close> is the zero time.\<close>

record enqueueOptions =
  eo_orgID :: "string option"
  eo_dedupeKey :: "string option"
  eo_runAt :: "int option"
  eo_delay :: int
  eo_maxAttempts :: int

datatype EnqueueOption =
    WithOrg string | WithDedupeKey string | WithDelay int | WithRunAt "int option" | WithMaxAttempts int

definition uuid_Nil :: string where
  "uuid_Nil = ''00000000-0000-0000-0000-000000000000''"

fun apply_option :: "EnqueueOption \<Rightarrow> enqueueOptions \<Rightarrow> enqueueOptions" where
  "apply_option (WithOrg org) opt = (if org \<noteq> uuid_Nil then opt\<lparr>eo_orgID := Some org\<rparr> else opt)"
| "apply_option (WithDedupeKey key) opt = (if key \<noteq> [] then opt\<lparr>eo_dedupeKey := Some key\<rparr> else opt)"
| "apply_option (WithDelay d) opt = opt\<lparr>eo_delay := d\<rparr>"
| "apply_option (WithRunAt t) opt = opt\<lparr>eo_runAt := t\<rparr>"
| "apply_option (WithMaxAttempts n) opt = opt\<lparr>eo_maxAttempts := n\<rparr>"

record JobFilter =
  jf_OrgID :: "string option"
  jf_Kind :: string
  jf_Status :: string
  jf_Limit :: int
  jf_Offset :: int

section \<open>Configuration\<close>

text \<open>The fields of \<^verbatim>\<open>Config\<close> the queue's statements depend on. Durations are in nanoseconds; those the backoff
  computes with are the machine's 64-bit integers.\<close>

record Config =
  c_Workers :: int
  c_PollInterval :: int
  c_BatchSize :: int
  c_LeaseTimeout :: int
  c_HandlerTimeout :: int
  c_MaxAttempts :: int
  c_BackoffBase :: "64 word"
  c_BackoffMax :: "64 word"
  c_Backoff :: "(int \<Rightarrow> int) option"
  c_RetainDone :: int
  c_RetainDead :: int
  c_CleanupInterval :: int
  c_ShutdownGrace :: int

definition sec :: int where
  "sec = 1000000000"

text \<open>The defaults \<^verbatim>\<open>New\<close> applies. A \<^verbatim>\<open>nil\<close> \<open>c_Backoff\<close> stands for \<^verbatim>\<open>ExponentialBackoff(BackoffBase, BackoffMax)\<close>.\<close>

definition New :: "Config \<Rightarrow> Config" where
  "New c =
     (let c = (if c_Workers c \<le> 0 then c\<lparr>c_Workers := 4\<rparr> else c);
          c = (if c_PollInterval c \<le> 0 then c\<lparr>c_PollInterval := sec\<rparr> else c);
          c = (if c_BatchSize c \<le> 0 then c\<lparr>c_BatchSize := c_Workers c\<rparr> else c);
          c = (if c_LeaseTimeout c \<le> 0 then c\<lparr>c_LeaseTimeout := 5 * 60 * sec\<rparr> else c);
          c = (if c_MaxAttempts c \<le> 0 then c\<lparr>c_MaxAttempts := 10\<rparr> else c);
          c = (if sint (c_BackoffBase c) \<le> 0 then c\<lparr>c_BackoffBase := word_of_int (10 * sec)\<rparr> else c);
          c = (if sint (c_BackoffMax c) \<le> 0 then c\<lparr>c_BackoffMax := word_of_int (3600 * sec)\<rparr> else c);
          c = (if c_RetainDone c = 0 then c\<lparr>c_RetainDone := 7 * 24 * 3600 * sec\<rparr> else c);
          c = (if c_CleanupInterval c \<le> 0 then c\<lparr>c_CleanupInterval := 3600 * sec\<rparr> else c)
      in if c_ShutdownGrace c \<le> 0 then c\<lparr>c_ShutdownGrace := 30 * sec\<rparr> else c)"

record oenv =
  oe_now :: int
  oe_uuid :: "nat \<Rightarrow> string"
  oe_json_valid :: "string \<Rightarrow> bool"
  oe_rand :: "64 word \<Rightarrow> 64 word"
  oe_locked :: "string \<Rightarrow> bool"
  oe_quote :: "string \<Rightarrow> string"

section \<open>Backoff\<close>

text \<open>The loop \<^verbatim>\<open>for i := 1; i < attempt && d < max; i++ { d *= 2 }\<close>, \<open>k\<close> being \<^verbatim>\<open>attempt - i\<close>. \<open>oe_rand e n\<close> is
  \<^verbatim>\<open>rand.N(n)\<close>.\<close>

fun double_until :: "nat \<Rightarrow> 64 word \<Rightarrow> 64 word \<Rightarrow> 64 word" where
  "double_until 0 d mx = d"
| "double_until (Suc k) d mx = (if sint d < sint mx then double_until k (d * 2) mx else d)"

definition ExponentialBackoff :: "64 word \<Rightarrow> 64 word \<Rightarrow> oenv \<Rightarrow> int \<Rightarrow> 64 word" where
  "ExponentialBackoff base mx e attempt =
     (let attempt = (if attempt < 1 then 1 else attempt);
          d = double_until (nat (attempt - 1)) base mx;
          d = (if sint mx < sint d then mx else d);
          half = word_of_int (sint d sdiv 2)
      in if sint half \<le> 0 then d else half + oe_rand e (half + 1))"

definition Backoff :: "Config \<Rightarrow> oenv \<Rightarrow> int \<Rightarrow> int" where
  "Backoff c e attempt =
     (case c_Backoff c of
        Some f \<Rightarrow> f attempt
      | None \<Rightarrow> sint (ExponentialBackoff (c_BackoffBase c) (c_BackoffMax c) e attempt))"

section \<open>Error messages\<close>

text \<open>
  \<^verbatim>\<open>strings.ToValidUTF8(s, "")\<close>: the width of the rune a byte string starts with (\<^verbatim>\<open>utf8.DecodeRuneInString\<close>),
  0 when its first byte starts none; such bytes are dropped.
\<close>

definition byte_in :: "string \<Rightarrow> nat \<Rightarrow> nat \<Rightarrow> nat \<Rightarrow> bool" where
  "byte_in s i lo hi \<longleftrightarrow> i < length s \<and> lo \<le> of_char (s ! i) \<and> of_char (s ! i) \<le> hi"

definition rune_width :: "string \<Rightarrow> nat" where
  "rune_width s =
     (case s of
        [] \<Rightarrow> 0
      | c # cs \<Rightarrow>
          (let b = (of_char c :: nat) in
           if b < 128 then 1
           else if 194 \<le> b \<and> b \<le> 223 then (if byte_in cs 0 128 191 then 2 else 0)
           else if 224 \<le> b \<and> b \<le> 239 then
             (if byte_in cs 0 (if b = 224 then 160 else 128) (if b = 237 then 159 else 191) \<and> byte_in cs 1 128 191 then 3 else 0)
           else if 240 \<le> b \<and> b \<le> 244 then
             (if byte_in cs 0 (if b = 240 then 144 else 128) (if b = 244 then 143 else 191) \<and> byte_in cs 1 128 191 \<and> byte_in cs 2 128 191
              then 4 else 0)
           else 0))"

function ToValidUTF8 :: "string \<Rightarrow> string" where
  "ToValidUTF8 [] = []"
| "ToValidUTF8 (c # cs) =
     (let w = rune_width (c # cs) in
      if w = 0 then ToValidUTF8 cs else take w (c # cs) @ ToValidUTF8 (drop w (c # cs)))"
  by pat_completeness auto
termination
  by (relation "measure length") (auto simp: less_Suc_eq_le)

declare ToValidUTF8.simps [simp del]

definition maxErrorLen :: nat where
  "maxErrorLen = 4096"

definition truncate_utf8 :: "string \<Rightarrow> string" where
  "truncate_utf8 s = ToValidUTF8 (if length s > maxErrorLen then take maxErrorLen s else s)"

section \<open>The table\<close>

definition live_row :: "jobs_row \<Rightarrow> bool" where
  "live_row r \<longleftrightarrow> j_Status r = JobPending \<or> j_Status r = JobRunning"

text \<open>The entries of the partial unique index \<^verbatim>\<open>(kind, dedupe_key)\<close>.\<close>

definition dedupe_entry :: "jobs_row \<Rightarrow> (string \<times> string) option" where
  "dedupe_entry r = (if live_row r then map_option (Pair (j_Kind r)) (j_DedupeKey r) else None)"

definition jobs_unique :: "jobs_row list \<Rightarrow> bool" where
  "jobs_unique db \<longleftrightarrow> distinct (map j_ID db) \<and> distinct (filter (\<lambda>x. x \<noteq> None) (map dedupe_entry db))"

definition job_by_id :: "jobs_row list \<Rightarrow> string \<Rightarrow> jobs_row option" where
  "job_by_id db i = find (\<lambda>r. j_ID r = i) db"

section \<open>Producing jobs\<close>

text \<open>A payload is raw JSON or any other Go value, of which the result of \<^verbatim>\<open>json.Marshal\<close> matters.\<close>

datatype payload = RawJSON string | GoValue "string option"

definition encodePayload :: "oenv \<Rightarrow> payload \<Rightarrow> (outbox_error, string) result" where
  "encodePayload e p =
     (case p of
        RawJSON s \<Rightarrow> if oe_json_valid e s then Inr s else Inl PayloadInvalid
      | GoValue None \<Rightarrow> Inl EncodeFailed
      | GoValue (Some s) \<Rightarrow> Inr s)"

definition new_row :: "oenv \<Rightarrow> nat \<Rightarrow> string \<Rightarrow> string \<Rightarrow> enqueueOptions \<Rightarrow> jobs_row" where
  "new_row e i kind raw opt =
     \<lparr>j_ID = oe_uuid e i, j_OrgID = eo_orgID opt, j_Kind = kind, j_Payload = raw, j_Status = JobPending,
      j_Attempts = 0, j_MaxAttempts = eo_maxAttempts opt,
      j_RunAt = (case eo_runAt opt of None \<Rightarrow> oe_now e + eo_delay opt | Some t \<Rightarrow> t),
      j_LastError = [], j_DedupeKey = eo_dedupeKey opt, j_LockedUntil = None,
      j_CreatedAt = oe_now e, j_UpdatedAt = oe_now e, j_LockedBy = None\<rparr>"

text \<open>\<^verbatim>\<open>INSERT ... ON CONFLICT DO NOTHING RETURNING\<close>: the row, or nothing when an index would be violated.\<close>

definition insert_job :: "jobs_row \<Rightarrow> jobs_row list \<Rightarrow> jobs_row list \<times> jobs_row option" where
  "insert_job r db = (if jobs_unique (db @ [r]) then (db @ [r], Some r) else (db, None))"

definition live_with_key :: "string \<Rightarrow> string \<Rightarrow> jobs_row list \<Rightarrow> jobs_row option" where
  "live_with_key kind key db = find (\<lambda>r. j_Kind r = kind \<and> j_DedupeKey r = Some key \<and> live_row r) db"

text \<open>\<^verbatim>\<open>(Job, error)\<close>: a duplicate comes with the job that exists.\<close>

datatype enqueued = Enqueued Job | Duplicate Job | NotEnqueued outbox_error

text \<open>The loop \<^verbatim>\<open>for range 3\<close>, \<open>i\<close> counting the rounds done and \<open>k\<close> those left; \<open>others n\<close> is what other sessions
  commit before the \<open>n\<close>-th of its statements.\<close>

fun enqueue_loop ::
  "nat \<Rightarrow> nat \<Rightarrow> oenv \<Rightarrow> (nat \<Rightarrow> jobs_row list \<Rightarrow> jobs_row list) \<Rightarrow> string \<Rightarrow> string \<Rightarrow> enqueueOptions \<Rightarrow>
     jobs_row list \<Rightarrow> jobs_row list \<times> enqueued" where
  "enqueue_loop 0 i e others kind raw opt db = (db, NotEnqueued KeptConflicting)"
| "enqueue_loop (Suc k) i e others kind raw opt db =
     (case insert_job (new_row e i kind raw opt) (others (2 * i) db) of
        (db, Some r) \<Rightarrow> (db, Enqueued (job r))
      | (db, None) \<Rightarrow>
          (case eo_dedupeKey opt of
             None \<Rightarrow> (db, NotEnqueued InsertReturnedNoRow)
           | Some key \<Rightarrow>
               (let db = others (2 * i + 1) db in
                case live_with_key kind key db of
                  Some r \<Rightarrow> (db, Duplicate (job r))
                | None \<Rightarrow> enqueue_loop k (Suc i) e others kind raw opt db)))"

definition enqueue_options :: "Config \<Rightarrow> EnqueueOption list \<Rightarrow> enqueueOptions" where
  "enqueue_options c opts =
     (let opt = fold apply_option opts
                  \<lparr>eo_orgID = None, eo_dedupeKey = None, eo_runAt = None, eo_delay = 0, eo_maxAttempts = c_MaxAttempts c\<rparr>
      in if eo_maxAttempts opt \<le> 0 then opt\<lparr>eo_maxAttempts := c_MaxAttempts c\<rparr> else opt)"

definition enqueue ::
  "Config \<Rightarrow> oenv \<Rightarrow> (nat \<Rightarrow> jobs_row list \<Rightarrow> jobs_row list) \<Rightarrow> string \<Rightarrow> payload \<Rightarrow> EnqueueOption list \<Rightarrow>
     jobs_row list \<Rightarrow> jobs_row list \<times> enqueued" where
  "enqueue c e others kind p opts db =
     (if kind = [] then (db, NotEnqueued KindRequired)
      else case encodePayload e p of
             Inl err \<Rightarrow> (db, NotEnqueued err)
           | Inr raw \<Rightarrow> enqueue_loop 3 0 e others kind raw (enqueue_options c opts) db)"

section \<open>Reading, retrying and cleaning up\<close>

definition Get :: "string \<Rightarrow> jobs_row list \<Rightarrow> (outbox_error, Job) result" where
  "Get i db = (case job_by_id db i of None \<Rightarrow> Inl ErrNotFound | Some r \<Rightarrow> Inr (job r))"

definition matches :: "JobFilter \<Rightarrow> jobs_row \<Rightarrow> bool" where
  "matches f r \<longleftrightarrow>
     (case jf_OrgID f of None \<Rightarrow> True | Some org \<Rightarrow> j_OrgID r = Some org) \<and>
     (jf_Kind f \<noteq> [] \<longrightarrow> j_Kind r = jf_Kind f) \<and>
     (jf_Status f \<noteq> [] \<longrightarrow> status_text (j_Status r) = jf_Status f)"

text \<open>The page \<^verbatim>\<open>ORDER BY created_at DESC, id LIMIT .. OFFSET ..\<close> and the total.\<close>

definition list_limit :: "int \<Rightarrow> int" where
  "list_limit n = (let l = (if n \<le> 0 then 50 else n) in if l > 500 then 500 else l)"

definition ListJobs :: "JobFilter \<Rightarrow> jobs_row list \<Rightarrow> Job list \<times> int" where
  "ListJobs f db =
     (let q = filter (matches f) db;
          rows = sort_key (\<lambda>r. (- j_CreatedAt r, j_ID r)) q
      in (map job (take (nat (list_limit (jf_Limit f))) (drop (nat (max (jf_Offset f) 0)) rows)), int (length q)))"

text \<open>The \<^verbatim>\<open>UPDATE\<close> of \<^verbatim>\<open>Retry\<close> fails as a whole when it violates the unique index; \<open>others\<close> acts before the
  \<^verbatim>\<open>Get\<close> that tells why nothing matched.\<close>

definition retry_row :: "oenv \<Rightarrow> jobs_row \<Rightarrow> jobs_row" where
  "retry_row e r =
     r\<lparr>j_Status := JobPending, j_Attempts := (if j_Status r = JobDead then 0 else j_Attempts r),
       j_RunAt := oe_now e, j_LockedUntil := None, j_LockedBy := None, j_UpdatedAt := oe_now e\<rparr>"

definition retryable :: "string \<Rightarrow> jobs_row \<Rightarrow> bool" where
  "retryable i r \<longleftrightarrow> j_ID r = i \<and> (j_Status r = JobPending \<or> j_Status r = JobDead)"

definition Retry ::
  "oenv \<Rightarrow> (jobs_row list \<Rightarrow> jobs_row list) \<Rightarrow> string \<Rightarrow> jobs_row list \<Rightarrow> jobs_row list \<times> (outbox_error, Job) result" where
  "Retry e others i db =
     (let db' = update_where (retryable i) (retry_row e) db in
      if \<not> jobs_unique db' then (db, Inl ErrDuplicate)
      else case filter (retryable i) db of
             r # _ \<Rightarrow> (db', Inr (job (retry_row e r)))
           | [] \<Rightarrow>
               (let db = others db in
                case Get i db of Inl err \<Rightarrow> (db, Inl err) | Inr _ \<Rightarrow> (db, Inl ErrNotRetryable)))"

definition delete_old :: "int \<Rightarrow> JobStatus \<Rightarrow> int \<Rightarrow> jobs_row list \<Rightarrow> jobs_row list" where
  "delete_old now st keep db =
     (if keep \<le> 0 then db else filter (\<lambda>r. \<not> (j_Status r = st \<and> j_UpdatedAt r < now - keep)) db)"

definition Cleanup :: "Config \<Rightarrow> oenv \<Rightarrow> jobs_row list \<Rightarrow> jobs_row list \<times> int" where
  "Cleanup c e db =
     (let db1 = delete_old (oe_now e) JobDone (c_RetainDone c) db;
          db2 = delete_old (oe_now e) JobDead (c_RetainDead c) db1
      in (db2, (int (length db) - int (length db1)) + (int (length db1) - int (length db2))))"

section \<open>Workers\<close>

definition newToken :: "string \<Rightarrow> string \<Rightarrow> string" where
  "newToken workerID bytes = workerID @ ''/'' @ hex_encode bytes"

definition lease_expired :: "int \<Rightarrow> jobs_row \<Rightarrow> bool" where
  "lease_expired now r \<longleftrightarrow> (case j_LockedUntil r of None \<Rightarrow> False | Some t \<Rightarrow> t < now)"

definition due :: "string list \<Rightarrow> int \<Rightarrow> jobs_row \<Rightarrow> bool" where
  "due kinds now r \<longleftrightarrow>
     j_Kind r \<in> set kinds \<and>
     (j_Status r = JobPending \<and> j_RunAt r \<le> now \<or>
      j_Status r = JobRunning \<and> lease_expired now r \<and> j_Attempts r < j_MaxAttempts r)"

text \<open>\<^verbatim>\<open>ORDER BY run_at, created_at LIMIT n\<close> (ties in insertion order) over the rows no other transaction
  holds locked (\<^verbatim>\<open>SKIP LOCKED\<close>).\<close>

definition candidates :: "oenv \<Rightarrow> string list \<Rightarrow> nat \<Rightarrow> jobs_row list \<Rightarrow> jobs_row list" where
  "candidates e kinds n db =
     take n (sort_key (\<lambda>r. (j_RunAt r, j_CreatedAt r))
       (filter (\<lambda>r. due kinds (oe_now e) r \<and> \<not> oe_locked e (j_ID r)) db))"

definition claim_row :: "Config \<Rightarrow> oenv \<Rightarrow> string \<Rightarrow> jobs_row \<Rightarrow> jobs_row" where
  "claim_row c e token r =
     r\<lparr>j_Status := JobRunning, j_Attempts := j_Attempts r + 1, j_LockedUntil := Some (oe_now e + c_LeaseTimeout c),
       j_LockedBy := Some token, j_UpdatedAt := oe_now e\<rparr>"

definition claim_jobs ::
  "Config \<Rightarrow> oenv \<Rightarrow> string list \<Rightarrow> nat \<Rightarrow> string \<Rightarrow> jobs_row list \<Rightarrow> jobs_row list \<times> Job list" where
  "claim_jobs c e kinds n token db =
     (let ids = map j_ID (candidates e kinds n db);
          p = (\<lambda>r. j_ID r \<in> set ids)
      in (update_where p (claim_row c e token) db, map (job \<circ> claim_row c e token) (filter p db)))"

text \<open>One poll: \<open>stopping\<close> is the cancelled context, \<open>finished\<close> the runs that end before the second reading of
  the counter.\<close>

definition pollOnce ::
  "Config \<Rightarrow> oenv \<Rightarrow> string list \<Rightarrow> bool \<Rightarrow> int \<Rightarrow> int \<Rightarrow> string \<Rightarrow> jobs_row list \<Rightarrow> jobs_row list \<times> Job list \<times> bool" where
  "pollOnce c e kinds stopping inflight finished token db =
     (let free = c_Workers c - inflight in
      if free \<le> 0 \<or> stopping then (db, [], False)
      else let n = min free (c_BatchSize c);
               (db', jobs) = claim_jobs c e kinds (nat n) token db;
               inflight' = inflight + int (length jobs) - finished
           in (db', jobs, int (length jobs) = n \<and> c_Workers c - inflight' > 0))"

text \<open>What a handler does: it returns, or panics with a value printed by \<^verbatim>\<open>%v\<close>.\<close>

datatype handler_end = Returned "gerr option" | Panicked string

definition invoke :: "oenv \<Rightarrow> (string \<Rightarrow> (Job \<Rightarrow> handler_end) option) \<Rightarrow> Job \<Rightarrow> gerr option" where
  "invoke e handlers jb =
     (case handlers (j_Kind jb) of
        None \<Rightarrow> Some (Err (''outbox: no handler registered for kind '' @ oe_quote e (j_Kind jb)) [])
      | Some h \<Rightarrow>
          (case h jb of
             Returned err \<Rightarrow> err
           | Panicked v \<Rightarrow> Some (Err (''outbox: handler panic: '' @ v) [])))"

definition owned :: "Job \<Rightarrow> string \<Rightarrow> jobs_row \<Rightarrow> bool" where
  "owned jb token r \<longleftrightarrow> j_ID r = j_ID jb \<and> j_Status r = JobRunning \<and> j_LockedBy r = Some token"

text \<open>One tick of \<^verbatim>\<open>heartbeat\<close> and the number of rows it renewed; zero cancels the handler.\<close>

definition heartbeat :: "Config \<Rightarrow> oenv \<Rightarrow> Job \<Rightarrow> string \<Rightarrow> jobs_row list \<Rightarrow> jobs_row list \<times> nat" where
  "heartbeat c e jb token db =
     (update_where (owned jb token) (\<lambda>r. r\<lparr>j_LockedUntil := Some (oe_now e + c_LeaseTimeout c), j_UpdatedAt := oe_now e\<rparr>) db,
      length (filter (owned jb token) db))"

datatype cause = NoCause | CauseLeaseLost | CauseShutdown

definition unlock :: "oenv \<Rightarrow> jobs_row \<Rightarrow> jobs_row" where
  "unlock e r = r\<lparr>j_LockedUntil := None, j_LockedBy := None, j_UpdatedAt := oe_now e\<rparr>"

text \<open>The assignment \<^verbatim>\<open>finish\<close> makes to the row it owns, by the handler's result.\<close>

definition finish_row :: "Config \<Rightarrow> oenv \<Rightarrow> Job \<Rightarrow> gerr option \<Rightarrow> cause \<Rightarrow> jobs_row \<Rightarrow> jobs_row" where
  "finish_row c e jb herr cs r =
     (case herr of
        None \<Rightarrow> unlock e (r\<lparr>j_Status := JobDone, j_LastError := []\<rparr>)
      | Some err \<Rightarrow>
          if cs = CauseShutdown then
            unlock e (r\<lparr>j_Status := JobPending, j_Attempts := (if j_Attempts r > 0 then j_Attempts r - 1 else 0),
                        j_RunAt := oe_now e\<rparr>)
          else if IsPermanent err \<or> j_Attempts jb \<ge> j_MaxAttempts jb then
            unlock e (r\<lparr>j_Status := JobDead, j_LastError := truncate_utf8 (Error err)\<rparr>)
          else
            unlock e (r\<lparr>j_Status := JobPending, j_LastError := truncate_utf8 (Error err),
                        j_RunAt := oe_now e + (case retryDelay err of Some d \<Rightarrow> d | None \<Rightarrow> Backoff c e (j_Attempts jb))\<rparr>))"

definition finish ::
  "Config \<Rightarrow> oenv \<Rightarrow> Job \<Rightarrow> string \<Rightarrow> gerr option \<Rightarrow> cause \<Rightarrow> jobs_row list \<Rightarrow> jobs_row list" where
  "finish c e jb token herr cs db =
     (if cs = CauseLeaseLost then db else update_where (owned jb token) (finish_row c e jb herr cs) db)"

definition reap_msg :: string where
  "reap_msg = ''outbox: lease expired on the final attempt (worker crashed or timed out)''"

definition stuck :: "int \<Rightarrow> jobs_row \<Rightarrow> bool" where
  "stuck now r \<longleftrightarrow> j_Status r = JobRunning \<and> lease_expired now r \<and> j_Attempts r \<ge> j_MaxAttempts r"

definition reap_row :: "oenv \<Rightarrow> jobs_row \<Rightarrow> jobs_row" where
  "reap_row e r = unlock e (r\<lparr>j_Status := JobDead, j_LastError := (if j_LastError r = [] then reap_msg else j_LastError r)\<rparr>)"

definition ReapStuck :: "oenv \<Rightarrow> jobs_row list \<Rightarrow> jobs_row list \<times> Job list" where
  "ReapStuck e db =
     (update_where (stuck (oe_now e)) (reap_row e) db, map (job \<circ> reap_row e) (filter (stuck (oe_now e)) db))"

end
