(* ===== verification/Outbox_Steps.thy ===== *)
theory Outbox_Steps
  imports Outbox_Model
begin

text \<open>
  The queue as a state machine: the table, the runs in flight on any number of replicas and the lease tokens
  drawn so far. Every statement is a step, so a history is any interleaving of producers, workers, admins and
  the maintenance loops; a worker that crashes is a run that ends without a statement. Every reachable state
  satisfies \<open>queue_ok\<close>.
\<close>

named_theorems row_ops \<open>definitions of the assignments to a row\<close>

declare claim_row_def [row_ops] retry_row_def [row_ops] finish_row_def [row_ops] reap_row_def [row_ops] unlock_def [row_ops]

section \<open>The table's indexes\<close>

lemma distinct_entries_mono:
  assumes "distinct (filter (\<lambda>x. x \<noteq> None) (map g xs))" and "\<forall>x\<in>set xs. h x = None \<or> h x = g x"
  shows "distinct (filter (\<lambda>x. x \<noteq> None) (map h xs))"
  using assms
proof (induction xs)
  case (Cons x xs)
  then have IH: "distinct (filter (\<lambda>x. x \<noteq> None) (map h xs))" by (auto split: if_splits)
  show ?case
  proof (cases "h x = None")
    case False
    with Cons.prems have x: "h x = g x" "g x \<notin> g ` set xs" by (auto split: if_splits)
    have "h x \<noteq> h y" if "y \<in> set xs" for y
      using Cons.prems(2) that x False by (metis image_eqI list.set_intros(2))
    then show ?thesis using IH False by auto
  qed (use IH in simp)
qed simp

lemma jobs_unique_filter: "jobs_unique db \<Longrightarrow> jobs_unique (filter p db)"
proof (induction db)
  case (Cons r db)
  then show ?case by (auto simp: jobs_unique_def split: if_splits)
qed simp

lemma jobs_unique_update:
  assumes "jobs_unique db" and "\<And>r. j_ID (f r) = j_ID r"
    and "\<And>r. r \<in> set db \<Longrightarrow> p r \<Longrightarrow> dedupe_entry (f r) = None \<or> dedupe_entry (f r) = dedupe_entry r"
  shows "jobs_unique (update_where p f db)"
proof -
  have "distinct (filter (\<lambda>x. x \<noteq> None) (map (\<lambda>r. dedupe_entry (if p r then f r else r)) db))"
    by (rule distinct_entries_mono[of dedupe_entry]) (use assms in \<open>auto simp: jobs_unique_def\<close>)
  moreover have "map j_ID (update_where p f db) = map j_ID db" by (rule map_update_where) (rule assms(2))
  moreover have "map dedupe_entry (update_where p f db) = map (\<lambda>r. dedupe_entry (if p r then f r else r)) db"
    by (simp add: update_where_def)
  ultimately show ?thesis using assms(1) unfolding jobs_unique_def by (simp only:)
qed

lemma unique_by_id: "jobs_unique db \<Longrightarrow> r \<in> set db \<Longrightarrow> r' \<in> set db \<Longrightarrow> j_ID r = j_ID r' \<Longrightarrow> r = r'"
  by (auto simp: jobs_unique_def distinct_map dest: inj_onD)

lemma job_by_id_iff: "jobs_unique db \<Longrightarrow> job_by_id db i = Some r \<longleftrightarrow> r \<in> set db \<and> j_ID r = i"
proof (induction db)
  case (Cons a db)
  then have "jobs_unique db" "j_ID a \<notin> j_ID ` set db" by (auto simp: jobs_unique_def split: if_splits)
  with Cons.IH show ?case by (auto simp: job_by_id_def)
qed (simp add: job_by_id_def)

lemma job_by_id_update:
  assumes "\<And>r. j_ID (f r) = j_ID r"
  shows "job_by_id (update_where p f db) i = map_option (\<lambda>r. if p r then f r else r) (job_by_id db i)"
  by (induction db) (auto simp: job_by_id_def assms)

lemma unique_by_key:
  assumes "jobs_unique db" and "r \<in> set db" and "r' \<in> set db" and "dedupe_entry r \<noteq> None"
    and "dedupe_entry r = dedupe_entry r'"
  shows "r = r'"
proof -
  have "distinct (map dedupe_entry (filter (\<lambda>r. dedupe_entry r \<noteq> None) db))"
    using assms(1) by (simp add: jobs_unique_def filter_map comp_def)
  then show ?thesis using assms(2-) by (auto simp: distinct_map dest: inj_onD)
qed

lemma row_ids [simp]:
  "j_ID (claim_row c e t r) = j_ID r" "j_ID (retry_row e r) = j_ID r" "j_ID (unlock e r) = j_ID r"
  "j_ID (reap_row e r) = j_ID r" "j_ID (finish_row c e jb herr cs r) = j_ID r"
  by (simp_all add: row_ops split: option.splits)

lemma finish_row_unlocked [simp]:
  "j_LockedBy (finish_row c e jb herr cs r) = None" "j_LockedUntil (finish_row c e jb herr cs r) = None"
  by (simp_all add: row_ops split: option.splits)

section \<open>The invariant\<close>

definition unlocked :: "jobs_row \<Rightarrow> bool" where
  "unlocked r \<longleftrightarrow> j_LockedUntil r = None \<and> j_LockedBy r = None"

definition row_ok :: "jobs_row \<Rightarrow> bool" where
  "row_ok r \<longleftrightarrow>
     1 \<le> j_MaxAttempts r \<and> 0 \<le> j_Attempts r \<and> j_Attempts r \<le> j_MaxAttempts r \<and>
     (case j_Status r of
        JobPending \<Rightarrow> j_Attempts r < j_MaxAttempts r \<and> unlocked r
      | JobRunning \<Rightarrow> 1 \<le> j_Attempts r \<and> j_LockedUntil r \<noteq> None \<and> j_LockedBy r \<noteq> None
      | JobDone \<Rightarrow> unlocked r
      | JobDead \<Rightarrow> unlocked r)"

definition table_ok :: "jobs_row list \<Rightarrow> bool" where
  "table_ok db \<longleftrightarrow> jobs_unique db \<and> (\<forall>r\<in>set db. row_ok r)"

text \<open>A run carries the job as it was claimed and the token of the claim.\<close>

record osys =
  q_db :: "jobs_row list"
  q_runs :: "(Job \<times> string) set"
  q_tokens :: "string set"

definition runs_ok :: "osys \<Rightarrow> bool" where
  "runs_ok s \<longleftrightarrow>
     (\<forall>r\<in>set (q_db s). \<forall>t. j_LockedBy r = Some t \<longrightarrow> t \<in> q_tokens s) \<and>
     (\<forall>(jb, t)\<in>q_runs s. t \<in> q_tokens s \<and>
        (\<forall>r\<in>set (q_db s). owned jb t r \<longrightarrow>
           j_Attempts r = j_Attempts jb \<and> j_MaxAttempts r = j_MaxAttempts jb))"

definition queue_ok :: "osys \<Rightarrow> bool" where
  "queue_ok s \<longleftrightarrow> table_ok (q_db s) \<and> runs_ok s"

definition q_init :: osys where
  "q_init = \<lparr>q_db = [], q_runs = {}, q_tokens = {}\<rparr>"

text \<open>What a process can do to the table without running jobs, and with the jobs it runs.\<close>

datatype table_op =
    OpInsert Config oenv nat string string "EnqueueOption list"
  | OpRetry oenv string
  | OpDelete int JobStatus int
  | OpClaim Config oenv "string list" nat string
  | OpBeat Config oenv Job string
  | OpFinish Config oenv Job string "gerr option" cause
  | OpReap oenv

fun table_run :: "table_op \<Rightarrow> jobs_row list \<Rightarrow> jobs_row list" where
  "table_run (OpInsert c e i kind raw opts) db = fst (insert_job (new_row e i kind raw (enqueue_options (New c) opts)) db)"
| "table_run (OpRetry e i) db = fst (Retry e (\<lambda>d. d) i db)"
| "table_run (OpDelete now st keep) db = (if st = JobDone \<or> st = JobDead then delete_old now st keep db else db)"
| "table_run (OpClaim c e kinds n token) db = fst (claim_jobs (New c) e kinds n token db)"
| "table_run (OpBeat c e jb token) db = fst (heartbeat (New c) e jb token db)"
| "table_run (OpFinish c e jb token herr cs) db = finish (New c) e jb token herr cs db"
| "table_run (OpReap e) db = fst (ReapStuck e db)"

inductive qstep :: "osys \<Rightarrow> table_op option \<Rightarrow> osys \<Rightarrow> bool" where
  q_produce: "op = OpInsert c e i kind raw opts \<or> op = OpRetry e i' \<or> op = OpDelete now st keep \<or> op = OpReap e \<Longrightarrow>
     qstep s (Some op) (s\<lparr>q_db := table_run op (q_db s)\<rparr>)"
| q_claim: "token \<notin> q_tokens s \<Longrightarrow> op = OpClaim c e kinds n token \<Longrightarrow>
     jobs = snd (claim_jobs (New c) e kinds n token (q_db s)) \<Longrightarrow>
     qstep s (Some op) (s\<lparr>q_db := table_run op (q_db s), q_runs := q_runs s \<union> (\<lambda>jb. (jb, token)) ` set jobs,
        q_tokens := insert token (q_tokens s)\<rparr>)"
| q_beat: "(jb, token) \<in> q_runs s \<Longrightarrow> op = OpBeat c e jb token \<Longrightarrow>
     qstep s (Some op) (s\<lparr>q_db := table_run op (q_db s)\<rparr>)"
| q_finish: "(jb, token) \<in> q_runs s \<Longrightarrow> op = OpFinish c e jb token herr cs \<Longrightarrow>
     qstep s (Some op) (s\<lparr>q_db := table_run op (q_db s), q_runs := q_runs s - {(jb, token)}\<rparr>)"
| q_crash: "qstep s None (s\<lparr>q_runs := q_runs s - R\<rparr>)"

inductive queue_run :: "osys \<Rightarrow> table_op list \<Rightarrow> osys \<Rightarrow> bool" where
  run_nil: "queue_run s [] s"
| run_quiet: "queue_run s ops s' \<Longrightarrow> qstep s' None s'' \<Longrightarrow> queue_run s ops s''"
| run_op: "queue_run s ops s' \<Longrightarrow> qstep s' (Some op) s'' \<Longrightarrow> queue_run s (ops @ [op]) s''"

inductive_cases qstepE: "qstep s l s'"

section \<open>Every step keeps the invariant\<close>

lemma New_positive: "0 < c_MaxAttempts (New c)" "0 < c_LeaseTimeout (New c)" "0 < c_Workers (New c)" "0 < c_BatchSize (New c)"
  by (simp_all add: New_def Let_def sec_def)

lemma enqueue_options_max: "1 \<le> eo_maxAttempts (enqueue_options (New c) opts)"
  using New_positive(1)[of c] by (simp add: enqueue_options_def Let_def)

lemma table_ok_update:
  assumes "table_ok db" and "\<And>r. j_ID (f r) = j_ID r"
    and "\<And>r. r \<in> set db \<Longrightarrow> p r \<Longrightarrow> row_ok r \<Longrightarrow>
           row_ok (f r) \<and> (dedupe_entry (f r) = None \<or> dedupe_entry (f r) = dedupe_entry r)"
  shows "table_ok (update_where p f db)"
  using assms jobs_unique_update[of db f p] by (auto simp: table_ok_def set_update_where)

lemma new_row_unlocked [simp]: "j_LockedBy (new_row e i kind raw opt) = None"
  by (simp add: new_row_def)

lemma row_ok_new: "row_ok (new_row e i kind raw (enqueue_options (New c) opts))"
  using enqueue_options_max[of c opts] by (simp add: row_ok_def new_row_def unlocked_def)

lemma row_ok_claim: "row_ok r \<Longrightarrow> due kinds now r \<Longrightarrow> row_ok (claim_row c e t r)"
  by (auto simp: row_ok_def row_ops due_def)

lemma row_ok_reap: "row_ok r \<Longrightarrow> row_ok (reap_row e r)"
  by (auto simp: row_ok_def row_ops unlocked_def)

lemma row_ok_finish:
  assumes "row_ok r" and "j_Status r = JobRunning" and "j_Attempts r = j_Attempts jb" "j_MaxAttempts r = j_MaxAttempts jb"
  shows "row_ok (finish_row c e jb herr cs r)"
  using assms by (auto simp: row_ok_def row_ops unlocked_def split: option.splits)

lemma claimed_due: "x \<in> j_ID ` set (candidates e kinds n db) \<Longrightarrow> \<exists>r\<in>set db. due kinds (oe_now e) r \<and> j_ID r = x"
  by (auto simp: candidates_def dest!: in_set_takeD)

lemma claimed_row_due:
  "jobs_unique db \<Longrightarrow> r \<in> set db \<Longrightarrow> j_ID r \<in> j_ID ` set (candidates e kinds n db) \<Longrightarrow> due kinds (oe_now e) r"
  using claimed_due unique_by_id by metis

lemma entry_running: "j_Status r = JobRunning \<or> j_Status r = JobPending \<Longrightarrow> dedupe_entry r = map_option (Pair (j_Kind r)) (j_DedupeKey r)"
  by (auto simp: dedupe_entry_def live_row_def)

lemma table_ok_claim: "table_ok db \<Longrightarrow> table_ok (fst (claim_jobs c e kinds n t db))"
  unfolding claim_jobs_def Let_def fst_conv
proof (rule table_ok_update)
  fix r assume a: "table_ok db" "r \<in> set db" "j_ID r \<in> set (map j_ID (candidates e kinds n db))" "row_ok r"
  then have d: "due kinds (oe_now e) r" using claimed_row_due[of db r e kinds n] by (simp add: table_ok_def)
  then have "dedupe_entry (claim_row c e t r) = dedupe_entry r"
    by (auto simp: dedupe_entry_def live_row_def row_ops due_def)
  with row_ok_claim[OF a(4) d] show "row_ok (claim_row c e t r) \<and>
     (dedupe_entry (claim_row c e t r) = None \<or> dedupe_entry (claim_row c e t r) = dedupe_entry r)" by simp
qed simp_all

lemma table_ok_heartbeat: "table_ok db \<Longrightarrow> table_ok (fst (heartbeat c e jb t db))"
  unfolding heartbeat_def fst_conv
  by (rule table_ok_update) (auto simp: row_ok_def owned_def unlocked_def dedupe_entry_def live_row_def)

lemma table_ok_finish:
  assumes "table_ok db"
    and "\<And>r. r \<in> set db \<Longrightarrow> owned jb t r \<Longrightarrow> j_Attempts r = j_Attempts jb \<and> j_MaxAttempts r = j_MaxAttempts jb"
  shows "table_ok (finish c e jb t herr cs db)"
proof -
  have "dedupe_entry (finish_row c e jb herr cs r) = None \<or>
        dedupe_entry (finish_row c e jb herr cs r) = dedupe_entry r" if "owned jb t r" for r
    using that by (auto simp: dedupe_entry_def live_row_def row_ops owned_def split: option.splits)
  moreover have "row_ok (finish_row c e jb herr cs r)" if "r \<in> set db" "owned jb t r" "row_ok r" for r
    using that assms(2)[of r] by (intro row_ok_finish) (auto simp: owned_def)
  ultimately show ?thesis using assms(1) by (auto simp: finish_def intro!: table_ok_update)
qed

lemma reap_no_entry: "dedupe_entry (reap_row e r) = None"
  by (simp add: dedupe_entry_def live_row_def row_ops)

lemma table_ok_reap: "table_ok db \<Longrightarrow> table_ok (fst (ReapStuck e db))"
  unfolding ReapStuck_def fst_conv
  by (rule table_ok_update) (simp_all add: row_ok_reap reap_no_entry)

lemma Retry_db: "fst (Retry e (\<lambda>d. d) i db) = db \<or>
    fst (Retry e (\<lambda>d. d) i db) = update_where (retryable i) (retry_row e) db \<and> jobs_unique (fst (Retry e (\<lambda>d. d) i db))"
  by (auto simp: Retry_def Let_def split: list.splits sum.splits)

lemma row_ok_retry: "row_ok r \<Longrightarrow> retryable i r \<Longrightarrow> row_ok (retry_row e r)"
  by (auto simp: row_ok_def row_ops retryable_def unlocked_def)

lemma table_ok_retry: "table_ok db \<Longrightarrow> table_ok (fst (Retry e (\<lambda>d. d) i db))"
  using Retry_db[of e i db] by (auto simp: table_ok_def set_update_where row_ok_retry)

lemma table_ok_insert: "table_ok db \<Longrightarrow> row_ok r \<Longrightarrow> table_ok (fst (insert_job r db))"
  by (auto simp: table_ok_def insert_job_def)

lemma table_ok_delete: "table_ok db \<Longrightarrow> table_ok (delete_old now st keep db)"
  by (auto simp: table_ok_def delete_old_def jobs_unique_filter)

lemmas table_ok_ops = table_ok_claim table_ok_heartbeat table_ok_reap table_ok_retry table_ok_delete
  table_ok_insert[OF _ row_ok_new]

text \<open>What a statement other than a claim can do to the lease columns: it keeps them or clears them.\<close>

definition lease_kept :: "jobs_row list \<Rightarrow> jobs_row list \<Rightarrow> bool" where
  "lease_kept db db' \<longleftrightarrow>
     (\<forall>r'\<in>set db'. j_LockedBy r' \<noteq> None \<longrightarrow>
        (\<exists>r\<in>set db. j_ID r' = j_ID r \<and> j_LockedBy r' = j_LockedBy r \<and> j_Status r' = j_Status r \<and>
            j_Attempts r' = j_Attempts r \<and> j_MaxAttempts r' = j_MaxAttempts r))"

lemma lease_kept_refl: "lease_kept db db"
  by (auto simp: lease_kept_def)

lemma lease_kept_update:
  assumes "\<And>r. r \<in> set db \<Longrightarrow> p r \<Longrightarrow> j_LockedBy (f r) = None \<or>
     j_ID (f r) = j_ID r \<and> j_LockedBy (f r) = j_LockedBy r \<and> j_Status (f r) = j_Status r \<and>
     j_Attempts (f r) = j_Attempts r \<and> j_MaxAttempts (f r) = j_MaxAttempts r"
  shows "lease_kept db (update_where p f db)"
  unfolding lease_kept_def set_update_where
proof (intro ballI impI)
  fix r' assume "r' \<in> (\<lambda>r. if p r then f r else r) ` set db" and l: "j_LockedBy r' \<noteq> None"
  then obtain r where "r \<in> set db" "r' = (if p r then f r else r)" by blast
  then show "\<exists>r\<in>set db. j_ID r' = j_ID r \<and> j_LockedBy r' = j_LockedBy r \<and> j_Status r' = j_Status r \<and>
      j_Attempts r' = j_Attempts r \<and> j_MaxAttempts r' = j_MaxAttempts r"
    using assms[of r] l by (intro bexI[of _ r]) (auto split: if_splits)
qed

lemma lease_kept_ops:
  "lease_kept db (fst (heartbeat c e jb t db))"
  "lease_kept db (finish c e jb t herr cs db)"
  "lease_kept db (fst (ReapStuck e db))"
  "lease_kept db (fst (Retry e (\<lambda>d. d) i db))"
  "lease_kept db (delete_old now st keep db)"
  "j_LockedBy r = None \<Longrightarrow> lease_kept db (fst (insert_job r db))"
proof -
  show "lease_kept db (fst (heartbeat c e jb t db))"
    unfolding heartbeat_def fst_conv by (rule lease_kept_update) simp
  show "lease_kept db (finish c e jb t herr cs db)"
    by (simp add: finish_def lease_kept_refl lease_kept_update)
  show "lease_kept db (fst (ReapStuck e db))"
    unfolding ReapStuck_def fst_conv by (rule lease_kept_update) (simp add: row_ops)
  have "lease_kept db (update_where (retryable i) (retry_row e) db)"
    by (rule lease_kept_update) (simp add: row_ops)
  then show "lease_kept db (fst (Retry e (\<lambda>d. d) i db))" using Retry_db[of e i db] lease_kept_refl by auto
  show "lease_kept db (delete_old now st keep db)" by (auto simp: lease_kept_def delete_old_def)
  show "j_LockedBy r = None \<Longrightarrow> lease_kept db (fst (insert_job r db))" by (auto simp: lease_kept_def insert_job_def)
qed

lemma runs_ok_lease_kept:
  assumes "runs_ok s" and "lease_kept (q_db s) db" and "R \<subseteq> q_runs s"
  shows "runs_ok (s\<lparr>q_db := db, q_runs := R\<rparr>)"
  unfolding runs_ok_def
proof (clarsimp, intro conjI ballI allI impI)
  fix r t assume "r \<in> set db" "j_LockedBy r = Some t"
  with assms(2) obtain r0 where "r0 \<in> set (q_db s)" "j_LockedBy r0 = Some t" by (fastforce simp: lease_kept_def)
  with assms(1) show "t \<in> q_tokens s" by (auto simp: runs_ok_def)
next
  fix x assume x: "x \<in> R"
  obtain jb t where xt: "x = (jb, t)" by (cases x)
  with x assms(3) have "(jb, t) \<in> q_runs s" by blast
  then have R: "t \<in> q_tokens s" "\<forall>r\<in>set (q_db s). owned jb t r \<longrightarrow>
      j_Attempts r = j_Attempts jb \<and> j_MaxAttempts r = j_MaxAttempts jb"
    using assms(1) unfolding runs_ok_def by blast+
  have "j_Attempts r = j_Attempts jb \<and> j_MaxAttempts r = j_MaxAttempts jb" if "r \<in> set db" "owned jb t r" for r
  proof -
    have "j_LockedBy r \<noteq> None" using that by (simp add: owned_def)
    with assms(2) that obtain r0 where "r0 \<in> set (q_db s)" "j_ID r = j_ID r0" "j_LockedBy r = j_LockedBy r0"
      "j_Status r = j_Status r0" "j_Attempts r = j_Attempts r0" "j_MaxAttempts r = j_MaxAttempts r0"
      unfolding lease_kept_def by blast
    with R that show ?thesis by (metis owned_def)
  qed
  with R xt show "case x of (jb, t) \<Rightarrow> t \<in> q_tokens s \<and> (\<forall>r\<in>set db. owned jb t r \<longrightarrow>
      j_Attempts r = j_Attempts jb \<and> j_MaxAttempts r = j_MaxAttempts jb)" by simp
qed

lemma runs_ok_claim:
  assumes "runs_ok s" and "table_ok (q_db s)" and "token \<notin> q_tokens s"
  shows "runs_ok (s\<lparr>q_db := fst (claim_jobs c e kinds n token (q_db s)),
            q_runs := q_runs s \<union> (\<lambda>jb. (jb, token)) ` set (snd (claim_jobs c e kinds n token (q_db s))),
            q_tokens := insert token (q_tokens s)\<rparr>)"
proof -
  define p where "p = (\<lambda>r :: jobs_row. j_ID r \<in> j_ID ` set (candidates e kinds n (q_db s)))"
  let ?f = "claim_row c e token"
  have db: "set (fst (claim_jobs c e kinds n token (q_db s))) = (\<lambda>r. if p r then ?f r else r) ` set (q_db s)"
    by (simp add: claim_jobs_def Let_def p_def set_update_where)
  have jobs: "set (snd (claim_jobs c e kinds n token (q_db s))) = (job \<circ> ?f) ` {r \<in> set (q_db s). p r}"
    by (simp add: claim_jobs_def Let_def p_def)
  have tok: "t \<in> q_tokens s" if "r \<in> set (q_db s)" "j_LockedBy r = Some t" for r t
    using assms(1) that by (auto simp: runs_ok_def)
  have old: "t \<in> q_tokens s \<and> (\<forall>r\<in>set (q_db s). owned jb t r \<longrightarrow>
      j_Attempts r = j_Attempts jb \<and> j_MaxAttempts r = j_MaxAttempts jb)" if "(jb, t) \<in> q_runs s" for jb t
    using assms(1) that unfolding runs_ok_def by blast
  have new: "j_Attempts r' = j_Attempts (job (?f r)) \<and> j_MaxAttempts r' = j_MaxAttempts (job (?f r))"
    if "r \<in> set (q_db s)" "r0 \<in> set (q_db s)" "r' = (if p r0 then ?f r0 else r0)" "owned (job (?f r)) token r'" for r r0 r'
  proof -
    have "j_ID r0 = j_ID r" using that by (auto simp: owned_def job_def split: if_splits)
    with that assms(2) have "r0 = r" by (auto simp: table_ok_def dest: unique_by_id)
    with that tok assms(3) show ?thesis by (auto simp: owned_def job_def row_ops split: if_splits)
  qed
  have keep: "\<not> owned jb t (?f r)" if "(jb, t) \<in> q_runs s" for jb t r
    using old[OF that] assms(3) by (auto simp: owned_def row_ops)
  let ?s = "s\<lparr>q_db := fst (claim_jobs c e kinds n token (q_db s)),
            q_runs := q_runs s \<union> (\<lambda>jb. (jb, token)) ` set (snd (claim_jobs c e kinds n token (q_db s))),
            q_tokens := insert token (q_tokens s)\<rparr>"
  have "t \<in> q_tokens ?s" if "r \<in> set (q_db ?s)" "j_LockedBy r = Some t" for r t
    using that tok by (auto simp: db row_ops split: if_splits)
  moreover have "t \<in> q_tokens ?s \<and> (\<forall>r\<in>set (q_db ?s). owned jb t r \<longrightarrow>
      j_Attempts r = j_Attempts jb \<and> j_MaxAttempts r = j_MaxAttempts jb)" if run: "(jb, t) \<in> q_runs ?s" for jb t
  proof (cases "(jb, t) \<in> q_runs s")
    case True
    then show ?thesis using old[OF True] keep[OF True] by (auto simp: db split: if_splits)
  next
    case False
    with run obtain r where "jb = job (?f r)" "t = token" "r \<in> set (q_db s)" using jobs by auto
    moreover have "j_Attempts r' = j_Attempts jb \<and> j_MaxAttempts r' = j_MaxAttempts jb"
      if "r' \<in> set (q_db ?s)" "owned jb t r'" for r'
    proof -
      from that(1) obtain r0 where "r0 \<in> set (q_db s)" "r' = (if p r0 then ?f r0 else r0)" by (auto simp: db)
      then show ?thesis using new[of r r0 r'] calculation that(2) by simp
    qed
    ultimately show ?thesis by simp
  qed
  ultimately show ?thesis unfolding runs_ok_def by blast
qed

lemma qstep_keeps_ok: "qstep s l s' \<Longrightarrow> queue_ok s \<Longrightarrow> queue_ok s'"
proof (induction rule: qstep.induct)
  case (q_produce op c e i kind raw opts i' now st keep s)
  have "lease_kept (q_db s) (table_run op (q_db s))" "table_ok (table_run op (q_db s))"
    using q_produce by (auto simp: queue_ok_def table_ok_ops lease_kept_ops lease_kept_refl)
  then show ?case using q_produce.prems runs_ok_lease_kept[of s _ "q_runs s"] by (simp add: queue_ok_def)
next
  case (q_claim token s op c e kinds n jobs)
  then show ?case by (simp add: queue_ok_def table_ok_claim runs_ok_claim)
next
  case (q_beat jb token s op c e)
  then show ?case using runs_ok_lease_kept[of s _ "q_runs s"]
    by (simp add: queue_ok_def table_ok_heartbeat lease_kept_ops)
next
  case (q_finish jb token s op c e herr cs)
  then have "\<forall>r\<in>set (q_db s). owned jb token r \<longrightarrow>
      j_Attempts r = j_Attempts jb \<and> j_MaxAttempts r = j_MaxAttempts jb"
    unfolding queue_ok_def runs_ok_def by blast
  with q_finish show ?case
    by (simp add: queue_ok_def table_ok_finish lease_kept_ops runs_ok_lease_kept)
next
  case (q_crash s R)
  then show ?case using runs_ok_lease_kept[of s "q_db s" "q_runs s - R"] by (simp add: queue_ok_def lease_kept_refl)
qed

lemma q_init_ok: "queue_ok q_init"
  by (simp add: queue_ok_def q_init_def table_ok_def jobs_unique_def runs_ok_def)

lemma queue_run_ok: "queue_run s ops s' \<Longrightarrow> queue_ok s \<Longrightarrow> queue_ok s'"
  by (induction rule: queue_run.induct) (auto dest: qstep_keeps_ok)

end
