(* ===== verification/Outbox_Lemmas.thy ===== *)
theory Outbox_Lemmas
  imports Outbox_Steps
begin

text \<open>
  The lemmas behind the guarantees of the queue: the effect of each operation on one job, the lease as a
  guarded resource, the budget of attempts, the order of claims, and the unique index under \<^verbatim>\<open>Retry\<close> and
  \<^verbatim>\<open>Enqueue\<close>.
\<close>

section \<open>Leases\<close>

text \<open>Which operations can touch a job that is running under a live lease: the statements of its own worker, and
  claims and reaps whose clock is past the lease.\<close>

fun lease_may_touch :: "string \<Rightarrow> table_op \<Rightarrow> jobs_row option \<Rightarrow> bool" where
  "lease_may_touch i op None \<longleftrightarrow> True"
| "lease_may_touch i op (Some r) \<longleftrightarrow>
     j_Status r \<noteq> JobRunning \<or>
     (case op of
        OpInsert _ _ _ _ _ _ \<Rightarrow> False
      | OpRetry _ _ \<Rightarrow> False
      | OpDelete _ _ _ \<Rightarrow> False
      | OpClaim _ e _ _ _ \<Rightarrow> lease_expired (oe_now e) r
      | OpBeat _ _ jb token \<Rightarrow> owned jb token r
      | OpFinish _ _ jb token _ _ \<Rightarrow> owned jb token r
      | OpReap e \<Rightarrow> lease_expired (oe_now e) r)"

lemma entry_finish:
  "owned jb t r \<Longrightarrow> dedupe_entry (finish_row c e jb herr cs r) = None \<or>
        dedupe_entry (finish_row c e jb herr cs r) = dedupe_entry r"
  by (auto simp: dedupe_entry_def live_row_def row_ops owned_def split: option.splits)

lemma jobs_unique_ops: "jobs_unique db \<Longrightarrow> jobs_unique (table_run op db)"
proof (induction op)
  case (OpInsert c e i kind raw opts)
  then show ?case by (simp add: insert_job_def)
next
  case (OpRetry e i)
  then show ?case using Retry_db[of e i db] by auto
next
  case (OpDelete now st keep)
  then show ?case by (simp add: delete_old_def jobs_unique_filter)
next
  case (OpClaim c e kinds n token)
  then have "dedupe_entry (claim_row (New c) e token r) = dedupe_entry r"
    if "r \<in> set db" "j_ID r \<in> j_ID ` set (candidates e kinds n db)" for r
    using claimed_row_due[OF _ that] by (auto simp: dedupe_entry_def live_row_def row_ops due_def)
  with OpClaim show ?case by (auto simp: claim_jobs_def Let_def intro!: jobs_unique_update)
next
  case (OpBeat c e jb token)
  then show ?case by (auto simp: heartbeat_def dedupe_entry_def live_row_def intro!: jobs_unique_update)
next
  case (OpFinish c e jb token herr cs)
  then show ?case using entry_finish[of jb token _ "New c" e herr cs]
    by (auto simp: finish_def intro!: jobs_unique_update)
next
  case (OpReap e)
  then show ?case by (auto simp: ReapStuck_def reap_no_entry intro!: jobs_unique_update)
qed

text \<open>The effect of an operation on one job: the row stays, unless it is an old finished one, and changes by its
  operation's assignment.\<close>

lemma job_by_id_append: "job_by_id db i = Some r \<Longrightarrow> job_by_id (db @ rs) i = Some r"
  by (induction db) (auto simp: job_by_id_def split: if_splits)

lemma job_by_id_filter:
  "job_by_id db i = Some r \<Longrightarrow> p r \<Longrightarrow> job_by_id (filter p db) i = Some r"
  by (induction db) (auto simp: job_by_id_def split: if_splits)

lemma effect_insert:
  "job_by_id db i = Some r \<Longrightarrow> job_by_id (table_run (OpInsert c e k kind raw opts) db) i = Some r"
  by (simp add: insert_job_def job_by_id_append)

lemma effect_delete:
  "job_by_id db i = Some r \<Longrightarrow> live_row r \<Longrightarrow> job_by_id (table_run (OpDelete now st keep) db) i = Some r"
  by (auto simp: delete_old_def live_row_def intro!: job_by_id_filter)

lemma effect_retry:
  "job_by_id db i = Some r \<Longrightarrow>
   job_by_id (table_run (OpRetry e k) db) i = Some r \<or>
   retryable k r \<and> job_by_id (table_run (OpRetry e k) db) i = Some (retry_row e r)"
  using Retry_db[of e k db] by (auto simp: job_by_id_update split: if_splits)

lemma effect_claim:
  "job_by_id db i = Some r \<Longrightarrow>
   job_by_id (table_run (OpClaim c e kinds n token) db) i =
     Some (if j_ID r \<in> j_ID ` set (candidates e kinds n db) then claim_row (New c) e token r else r)"
  by (simp add: claim_jobs_def Let_def job_by_id_update)

lemma effect_beat:
  "job_by_id db i = Some r \<Longrightarrow>
   job_by_id (table_run (OpBeat c e jb token) db) i =
     Some (if owned jb token r then r\<lparr>j_LockedUntil := Some (oe_now e + c_LeaseTimeout (New c)), j_UpdatedAt := oe_now e\<rparr> else r)"
  by (simp add: heartbeat_def job_by_id_update)

lemma effect_finish:
  "job_by_id db i = Some r \<Longrightarrow>
   job_by_id (table_run (OpFinish c e jb token herr cs) db) i =
     Some (if owned jb token r \<and> cs \<noteq> CauseLeaseLost then finish_row (New c) e jb herr cs r else r)"
  by (simp add: finish_def job_by_id_update)

lemma effect_reap:
  "job_by_id db i = Some r \<Longrightarrow>
   job_by_id (table_run (OpReap e) db) i = Some (if stuck (oe_now e) r then reap_row e r else r)"
  by (simp add: ReapStuck_def job_by_id_update)

lemmas effects = effect_insert effect_delete effect_retry effect_claim effect_beat effect_finish effect_reap

lemma not_due_while_leased:
  assumes "jobs_unique db" and "job_by_id db i = Some r" and "j_Status r = JobRunning" and "\<not> lease_expired (oe_now e) r"
  shows "j_ID r \<notin> j_ID ` set (candidates e kinds n db)"
proof
  assume "j_ID r \<in> j_ID ` set (candidates e kinds n db)"
  moreover have "r \<in> set db" using assms by (simp add: job_by_id_iff)
  ultimately have "due kinds (oe_now e) r" using assms(1) claimed_row_due by blast
  with assms show False by (simp add: due_def)
qed

interpretation job_lease: guarded_view table_run "lease_may_touch i" "\<lambda>db. job_by_id db i" jobs_unique for i
proof
  fix db :: "jobs_row list" and op
  assume u: "jobs_unique db" and "\<not> lease_may_touch i op (job_by_id db i)"
  then obtain r where r: "job_by_id db i = Some r" "j_Status r = JobRunning" "\<not> lease_may_touch i op (Some r)"
    by (cases "job_by_id db i") auto
  then have l: "live_row r" by (simp add: live_row_def)
  show "job_by_id (table_run op db) i = job_by_id db i"
  proof (cases op)
    case (OpRetry e k)
    then show ?thesis using r effect_retry[OF r(1), of e k] by (auto simp: retryable_def)
  next
    case (OpClaim c e kinds n token)
    then show ?thesis using r u not_due_while_leased[of db i r e kinds n] by (simp add: effect_claim del: table_run.simps)
  qed (use r l in \<open>auto simp: effects stuck_def simp del: table_run.simps\<close>)
next
  show "jobs_unique (table_run op s)" if "jobs_unique s" for s op
    using that by (rule jobs_unique_ops)
qed

section \<open>Attempts\<close>

text \<open>The attempts a table still allows, and how many jobs an operation hands to handlers.\<close>

definition budget :: "jobs_row \<Rightarrow> nat" where
  "budget r = (if live_row r then nat (j_MaxAttempts r - j_Attempts r) else 0)"

definition table_budget :: "jobs_row list \<Rightarrow> nat" where
  "table_budget db = sum_list (map budget db)"

fun handed :: "table_op \<Rightarrow> jobs_row list \<Rightarrow> nat" where
  "handed (OpClaim c e kinds n token) db = length (snd (claim_jobs (New c) e kinds n token db))"
| "handed _ db = 0"

text \<open>The operations of workers and maintenance, other than giving an attempt back at shutdown.\<close>

fun working :: "table_op \<Rightarrow> bool" where
  "working (OpInsert _ _ _ _ _ _) = False"
| "working (OpRetry _ _) = False"
| "working (OpFinish _ _ _ _ _ cs) = (cs \<noteq> CauseShutdown)"
| "working _ = True"

inductive worker_run :: "osys \<Rightarrow> nat \<Rightarrow> osys \<Rightarrow> bool" where
  worker_nil: "worker_run s 0 s"
| worker_quiet: "worker_run s k s' \<Longrightarrow> qstep s' None s'' \<Longrightarrow> worker_run s k s''"
| worker_step: "worker_run s k s' \<Longrightarrow> working op \<Longrightarrow> qstep s' (Some op) s'' \<Longrightarrow>
     worker_run s (k + handed op (q_db s')) s''"

lemma budget_update_le:
  assumes "\<And>r. r \<in> set db \<Longrightarrow> p r \<Longrightarrow> budget (f r) \<le> budget r"
  shows "table_budget (update_where p f db) \<le> table_budget db"
  unfolding table_budget_def update_where_def by (simp add: sum_list_mono assms)

lemma budget_update_spend:
  assumes "\<And>r. r \<in> set db \<Longrightarrow> p r \<Longrightarrow> budget (f r) + 1 = budget r"
  shows "table_budget (update_where p f db) + length (filter p db) = table_budget db"
  using assms
proof (induction db)
  case (Cons r db)
  then have "table_budget (update_where p f db) + length (filter p db) = table_budget db"
    and "p r \<Longrightarrow> budget (f r) + 1 = budget r" by simp_all
  then show ?case by (cases "p r") (simp_all add: table_budget_def)
qed (simp add: table_budget_def)

lemma budget_filter: "table_budget (filter p db) \<le> table_budget db"
  unfolding table_budget_def by (induction db) auto

lemma budget_claim:
  assumes "jobs_unique db" and "table_ok db"
  shows "table_budget (table_run (OpClaim c e kinds n token) db) + handed (OpClaim c e kinds n token) db = table_budget db"
proof -
  have "budget (claim_row (New c) e token r) + 1 = budget r"
    if r: "r \<in> set db" "j_ID r \<in> j_ID ` set (candidates e kinds n db)" for r
  proof -
    have "due kinds (oe_now e) r" "row_ok r"
      using claimed_row_due[OF assms(1) r] assms(2) r(1) by (simp_all add: table_ok_def)
    then show ?thesis by (auto simp: budget_def live_row_def due_def row_ops row_ok_def split: JobStatus.splits)
  qed
  then show ?thesis using budget_update_spend by (simp add: claim_jobs_def Let_def)
qed

lemma budget_working:
  assumes "qstep s (Some op) s'" and "working op" and "queue_ok s"
  shows "table_budget (q_db s') + handed op (q_db s) \<le> table_budget (q_db s)"
proof -
  have db: "q_db s' = table_run op (q_db s)" using assms(1) by (auto elim: qstepE)
  have ok: "table_ok (q_db s)" "jobs_unique (q_db s)" using assms(3) by (simp_all add: queue_ok_def table_ok_def)
  have "budget (finish_row c e jb herr cs r) \<le> budget r" if "owned jb t r" "cs \<noteq> CauseShutdown" for c e jb t herr cs r
    using that by (auto simp: budget_def live_row_def row_ops owned_def split: option.splits)
  then have fin: "table_budget (finish c e jb t herr cs (q_db s)) \<le> table_budget (q_db s)"
    if "cs \<noteq> CauseShutdown" for c e jb t herr cs
    using that by (simp add: finish_def budget_update_le)
  have reap: "table_budget (fst (ReapStuck e (q_db s))) \<le> table_budget (q_db s)" for e
    unfolding ReapStuck_def fst_conv by (rule budget_update_le) (simp add: budget_def live_row_def row_ops)
  have beat: "table_budget (fst (heartbeat c e jb t (q_db s))) \<le> table_budget (q_db s)" for c e jb t
    unfolding heartbeat_def fst_conv by (rule budget_update_le) (simp add: budget_def live_row_def)
  show ?thesis
    unfolding db
  proof (cases op)
    case (OpClaim c e kinds n token)
    then show "table_budget (table_run op (q_db s)) + handed op (q_db s) \<le> table_budget (q_db s)"
      using budget_claim[OF ok(2,1), of c e kinds n token] by simp
  qed (use assms(2) fin reap beat budget_filter in \<open>auto simp: delete_old_def\<close>)
qed

section \<open>The order of claims\<close>

text \<open>The jobs a poll must take before or with \<open>r\<close>: due, not locked, and not later in the order.\<close>

definition ahead :: "oenv \<Rightarrow> string list \<Rightarrow> jobs_row \<Rightarrow> jobs_row list \<Rightarrow> jobs_row list" where
  "ahead e kinds r db =
     filter (\<lambda>x. due kinds (oe_now e) x \<and> \<not> oe_locked e (j_ID x) \<and>
                 (j_RunAt x, j_CreatedAt x) \<le> (j_RunAt r, j_CreatedAt r)) db"

lemma claimed_in_order:
  assumes "r \<in> set db" and "due kinds (oe_now e) r" and "\<not> oe_locked e (j_ID r)" and "length (ahead e kinds r db) \<le> n"
  shows "r \<in> set (candidates e kinds n db)"
  unfolding candidates_def
  by (rule in_take_sort_key) (use assms in \<open>auto simp: ahead_def conj_assoc cong: conj_cong\<close>)

section \<open>Retrying\<close>

lemma retry_entry:
  assumes "retryable i r"
  shows "dedupe_entry (retry_row e r) = map_option (Pair (j_Kind r)) (j_DedupeKey r)"
  using assms by (simp add: dedupe_entry_def live_row_def row_ops)

lemma entry_Some: "dedupe_entry x = Some (k, d) \<longleftrightarrow> live_row x \<and> j_Kind x = k \<and> j_DedupeKey x = Some d"
  by (auto simp: dedupe_entry_def)

definition key_taken :: "jobs_row list \<Rightarrow> jobs_row \<Rightarrow> bool" where
  "key_taken db r \<longleftrightarrow> (\<exists>x\<in>set db. live_row x \<and> x \<noteq> r \<and> j_Kind x = j_Kind r \<and> j_DedupeKey x = j_DedupeKey r \<and> j_DedupeKey r \<noteq> None)"

lemma key_taken_entry:
  "jobs_unique db \<Longrightarrow> retryable i r \<Longrightarrow>
   key_taken db r \<longleftrightarrow> (\<exists>x\<in>set db - {r}. dedupe_entry x = dedupe_entry (retry_row e r) \<and> dedupe_entry x \<noteq> None)"
  by (cases "j_DedupeKey r") (auto simp: key_taken_def retry_entry[of i] entry_Some)

lemma others_not_retryable:
  assumes "jobs_unique (xs @ r # ys)" and "j_ID r = i" and "x \<in> set xs \<union> set ys"
  shows "\<not> retryable i x"
proof -
  have "j_ID r \<notin> j_ID ` (set xs \<union> set ys)" using assms(1) by (simp add: jobs_unique_def image_Un)
  with assms(2,3) show ?thesis by (metis image_eqI retryable_def)
qed

lemma retry_unique:
  assumes "jobs_unique db" and "r \<in> set db" and "retryable i r"
  shows "jobs_unique (update_where (retryable i) (retry_row e) db) \<longleftrightarrow> \<not> key_taken db r"
proof -
  obtain xs ys where db: "db = xs @ r # ys" using split_list[OF assms(2)] by blast
  have n: "\<not> retryable i x" if "x \<in> set xs \<union> set ys" for x
    using others_not_retryable[of xs r ys i x] assms that by (simp add: db retryable_def)
  then have "update_where (retryable i) (retry_row e) zs = zs" if "zs = xs \<or> zs = ys" for zs
    using that unfolding update_where_def by (intro map_idI) auto
  then have upd: "update_where (retryable i) (retry_row e) db = xs @ retry_row e r # ys"
    using assms(3) by (simp add: db update_where_def)
  have diff: "set db - {r} = set xs \<union> set ys" using n assms(3) by (auto simp: db)
  define F where "F = (\<lambda>zs. filter (\<lambda>x. x \<noteq> None) (map dedupe_entry zs))"
  have F: "distinct (F xs @ F ys)" "distinct (map j_ID (xs @ r # ys))"
    using assms(1) by (auto simp: jobs_unique_def db F_def split: if_splits)
  have k: "k \<in> set (F xs) \<union> set (F ys) \<longleftrightarrow> (\<exists>x\<in>set xs \<union> set ys. dedupe_entry x = k \<and> dedupe_entry x \<noteq> None)" for k
    unfolding F_def by auto
  let ?k = "dedupe_entry (retry_row e r)"
  have "jobs_unique (xs @ retry_row e r # ys) \<longleftrightarrow> distinct (F xs @ (if ?k \<noteq> None then [?k] else []) @ F ys)"
    using F(2) by (simp add: jobs_unique_def F_def) blast
  also have "\<dots> \<longleftrightarrow> \<not> (?k \<in> set (F xs) \<union> set (F ys))" using F(1) by (auto simp: F_def)
  finally show ?thesis unfolding key_taken_entry[OF assms(1,3), of e] upd diff k .
qed

lemma retryable_filter:
  assumes "jobs_unique db" and "r \<in> set db" and "j_ID r = i"
  shows "filter (retryable i) db = (if retryable i r then [r] else [])"
proof -
  obtain xs ys where db: "db = xs @ r # ys" using split_list[OF assms(2)] by blast
  have "filter (retryable i) xs = []" "filter (retryable i) ys = []"
    using others_not_retryable[of xs r ys i] assms by (auto simp: db filter_empty_conv)
  then show ?thesis by (simp add: db)
qed

section \<open>Enqueueing\<close>

lemma live_with_key_Some:
  "live_with_key kind key db = Some r \<Longrightarrow> r \<in> set db \<and> j_Kind r = kind \<and> j_DedupeKey r = Some key \<and> live_row r"
  by (auto simp: live_with_key_def dest!: find_Some_in)

lemma insert_blocked:
  assumes "jobs_unique db" and "live_row r" and "j_Kind r = kind" and "j_DedupeKey r = Some key"
    and "live_with_key kind key db = None" and "j_ID r \<notin> j_ID ` set db"
  shows "insert_job r db = (db @ [r], Some r)"
proof -
  have "dedupe_entry x \<noteq> dedupe_entry r" if "x \<in> set db" for x
    using assms that by (auto simp: live_with_key_def find_None_iff dedupe_entry_def split: if_splits)
  then have "jobs_unique (db @ [r])" using assms(1,6) by (auto simp: jobs_unique_def)
  then show ?thesis by (simp add: insert_job_def)
qed

lemma enqueue_loop_sound:
  assumes "table_ok db" and "\<And>n d. table_ok d \<Longrightarrow> table_ok (others n d)"
    and "enqueue_loop k i e others kind raw (enqueue_options (New c) opts) db = (db', res)"
  shows "table_ok db' \<and>
    (case res of
       Enqueued jb \<Rightarrow> \<exists>r\<in>set db'. jb = job r \<and> j_Status r = JobPending \<and> j_Kind r = kind \<and> j_Payload r = raw \<and>
                        j_DedupeKey r = eo_dedupeKey (enqueue_options (New c) opts)
     | Duplicate jb \<Rightarrow> eo_dedupeKey (enqueue_options (New c) opts) \<noteq> None \<and>
         (\<exists>r\<in>set db'. jb = job r \<and> live_row r \<and> j_Kind r = kind \<and> j_DedupeKey r = eo_dedupeKey (enqueue_options (New c) opts))
     | NotEnqueued err \<Rightarrow> err = InsertReturnedNoRow \<or> err = KeptConflicting)"
  using assms(1,3)
proof (induction k arbitrary: i db)
  case (Suc k)
  let ?row = "new_row e i kind raw (enqueue_options (New c) opts)"
  let ?d = "others (2 * i) db"
  have d: "table_ok ?d" "table_ok (others (2 * i + 1) ?d)" using Suc.prems assms(2) by simp_all
  show ?case
  proof (cases "jobs_unique (?d @ [?row])")
    case True
    then have "res = Enqueued (job ?row)" "db' = ?d @ [?row]" using Suc.prems by (simp_all add: insert_job_def)
    moreover have "table_ok (?d @ [?row])" using table_ok_insert[OF d(1) row_ok_new, of e i kind raw c opts] True
      by (simp add: insert_job_def)
    ultimately show ?thesis by (simp add: new_row_def)
  next
    case False
    note F = False
    show ?thesis
    proof (cases "eo_dedupeKey (enqueue_options (New c) opts)")
      case None
      with F Suc.prems d show ?thesis by (auto simp: insert_job_def)
    next
      case (Some key)
      show ?thesis
      proof (cases "live_with_key kind key (others (2 * i + 1) ?d)")
        case None
        with Some F Suc.prems have
          "enqueue_loop k (Suc i) e others kind raw (enqueue_options (New c) opts) (others (2 * i + 1) ?d) = (db', res)"
          by (simp add: insert_job_def Let_def)
        from Suc.IH[OF d(2) this] Some show ?thesis by simp
      next
        case (Some r)
        from live_with_key_Some[OF Some] Some \<open>eo_dedupeKey _ = Some key\<close> F Suc.prems d show ?thesis
          by (auto simp: insert_job_def Let_def)
      qed
    qed
  qed
qed auto

end
