(* ===== verification/Outbox_Properties.thy ===== *)
theory Outbox_Properties
  imports Outbox_Lemmas
begin

text \<open>
  What the queue guarantees: its table stays consistent, a leased job belongs to its worker, a job is done only
  because its handler succeeded and dead only for a reason, no job is ever stuck, the attempts are bounded, and
  \<^verbatim>\<open>Enqueue\<close> and \<^verbatim>\<open>Retry\<close> respect the dedupe keys.
\<close>

section \<open>Samples\<close>

definition sample_config :: Config where
  "sample_config =
     \<lparr>c_Workers = 0, c_PollInterval = 0, c_BatchSize = 0, c_LeaseTimeout = 100, c_HandlerTimeout = 0, c_MaxAttempts = 2,
      c_BackoffBase = 0, c_BackoffMax = 0, c_Backoff = Some (\<lambda>_. 10), c_RetainDone = 0, c_RetainDead = 0,
      c_CleanupInterval = 0, c_ShutdownGrace = 0\<rparr>"

definition sample_oenv :: "int \<Rightarrow> oenv" where
  "sample_oenv now =
     \<lparr>oe_now = now, oe_uuid = (\<lambda>i. ''id'' @ digits_of i), oe_json_valid = (\<lambda>_. True), oe_rand = (\<lambda>_. 0),
      oe_locked = (\<lambda>_. False), oe_quote = (\<lambda>s. s)\<rparr>"

definition sample_insert :: table_op where
  "sample_insert = OpInsert sample_config (sample_oenv 0) 0 ''mail'' ''{}'' [WithDedupeKey ''k'']"

definition sample_claim :: "int \<Rightarrow> string \<Rightarrow> table_op" where
  "sample_claim now token = OpClaim sample_config (sample_oenv now) [''mail''] 4 token"

definition sample_pending :: "jobs_row list" where
  "sample_pending = [new_row (sample_oenv 0) 0 ''mail'' ''{}'' (enqueue_options (New sample_config) [WithDedupeKey ''k''])]"

definition sample_running :: "jobs_row list" where
  "sample_running = map (claim_row (New sample_config) (sample_oenv 5) ''t1'') sample_pending"

definition sample_finish :: table_op where
  "sample_finish = OpFinish sample_config (sample_oenv 70) (job (hd sample_running)) ''t1'' None NoCause"

lemma digits_of_0: "digits_of 0 = ''0''"
  by code_simp

lemmas sample_defs = sample_config_def sample_oenv_def sample_insert_def sample_claim_def sample_pending_def
  sample_running_def new_row_def enqueue_options_def New_def claim_row_def digits_of_0

lemma sample_unique: "jobs_unique sample_pending" "jobs_unique sample_running"
  by (simp_all add: jobs_unique_def sample_defs dedupe_entry_def live_row_def)

lemma sample_claimed:
  "claim_jobs (New sample_config) (sample_oenv 5) [''mail''] 4 ''t1'' sample_pending = (sample_running, map job sample_running)"
  by (simp add: claim_jobs_def candidates_def due_def sample_defs update_where_def)

lemma sample_run:
  "queue_run q_init [sample_insert] \<lparr>q_db = sample_pending, q_runs = {}, q_tokens = {}\<rparr>"
  "queue_run q_init [sample_insert, sample_claim 5 ''t1'']
     \<lparr>q_db = sample_running, q_runs = {(job (hd sample_running), ''t1'')}, q_tokens = {''t1''}\<rparr>"
proof -
  have "table_run sample_insert [] = sample_pending"
    using sample_unique(1) by (simp add: sample_insert_def insert_job_def sample_pending_def)
  then have "qstep q_init (Some sample_insert) \<lparr>q_db = sample_pending, q_runs = {}, q_tokens = {}\<rparr>"
    using q_produce[of sample_insert sample_config "sample_oenv 0" 0 "''mail''" "''{}''" "[WithDedupeKey ''k'']"
        "[]" 0 JobDone 0 q_init]
    by (simp add: q_init_def sample_insert_def)
  from run_op[OF run_nil this] show 1: "queue_run q_init [sample_insert] \<lparr>q_db = sample_pending, q_runs = {}, q_tokens = {}\<rparr>"
    by simp
  have sr: "set sample_running = {hd sample_running}" by (simp add: sample_running_def sample_pending_def)
  have "qstep \<lparr>q_db = sample_pending, q_runs = {}, q_tokens = {}\<rparr> (Some (sample_claim 5 ''t1''))
     \<lparr>q_db = sample_running, q_runs = {(job (hd sample_running), ''t1'')}, q_tokens = {''t1''}\<rparr>"
    using q_claim[of "''t1''" "\<lparr>q_db = sample_pending, q_runs = {}, q_tokens = {}\<rparr>" "sample_claim 5 ''t1''"
        sample_config "sample_oenv 5" "[''mail'']" 4 "map job sample_running"]
    by (simp add: sample_claim_def sample_claimed sr)
  from run_op[OF 1 this] show "queue_run q_init [sample_insert, sample_claim 5 ''t1'']
     \<lparr>q_db = sample_running, q_runs = {(job (hd sample_running), ''t1'')}, q_tokens = {''t1''}\<rparr>" by simp
qed

section \<open>Properties\<close>

text \<open>In every state any interleaving of producers, workers, admins and maintenance can reach, job ids are
  unique, at most one job per kind and dedupe key is pending or running, every job has made between zero and
  its maximum of attempts, a pending one fewer, and exactly the running jobs carry a lease.\<close>

theorem outbox_table_consistent:
  assumes "queue_run q_init ops s" and "r \<in> set (q_db s)"
  shows "distinct (map j_ID (q_db s)) \<and>
    (\<forall>r'\<in>set (q_db s). live_row r \<and> live_row r' \<and> j_Kind r' = j_Kind r \<and> j_DedupeKey r' = j_DedupeKey r \<and>
       j_DedupeKey r \<noteq> None \<longrightarrow> r' = r) \<and>
    1 \<le> j_MaxAttempts r \<and> 0 \<le> j_Attempts r \<and> j_Attempts r \<le> j_MaxAttempts r \<and>
    (j_Status r = JobPending \<longrightarrow> j_Attempts r < j_MaxAttempts r) \<and>
    (j_Status r = JobRunning \<longleftrightarrow> j_LockedBy r \<noteq> None) \<and>
    (j_LockedUntil r = None \<longleftrightarrow> j_LockedBy r = None)"
proof -
  have "queue_ok s" using assms(1) q_init_ok queue_run_ok by blast
  then have u: "jobs_unique (q_db s)" and ok: "row_ok r" using assms(2) by (simp_all add: queue_ok_def table_ok_def)
  have "\<forall>r'\<in>set (q_db s). live_row r \<and> live_row r' \<and> j_Kind r' = j_Kind r \<and> j_DedupeKey r' = j_DedupeKey r \<and>
           j_DedupeKey r \<noteq> None \<longrightarrow> r' = r"
    using unique_by_key[OF u _ assms(2)] by (auto simp: dedupe_entry_def)
  moreover have "distinct (map j_ID (q_db s))" using u by (simp add: jobs_unique_def)
  ultimately show ?thesis using ok by (auto simp: row_ok_def unlocked_def split: JobStatus.splits)
qed

theorem outbox_table_consistent_witness:
  "j_Status (hd sample_running) = JobRunning \<and> j_LockedBy (hd sample_running) \<noteq> None"
proof -
  have "hd sample_running \<in> set sample_running" by (simp add: sample_running_def sample_pending_def)
  then show ?thesis using outbox_table_consistent[OF sample_run(2), of "hd sample_running"]
    by (simp add: sample_defs)
qed

text \<open>C10. While the lease of a running job has not expired, the job belongs to its worker. If any sequence of
  claims, reaps, retries, deletions, insertions, heartbeats and results has changed its row, then the first change
  was made by a heartbeat or the result of the worker whose token the row carries, or by a claim or reap whose
  clock was past the lease: retries, cleanups and workers with other tokens never touch it.\<close>

theorem leased_job_is_exclusive:
  assumes "jobs_unique db" and "job_by_id db i = Some r" and "j_Status r = JobRunning"
    and "job_by_id (fold table_run ops db) i \<noteq> Some r"
  shows "\<exists>k<length ops. job_by_id (fold table_run (take k ops) db) i = Some r \<and>
     (case ops ! k of
        OpClaim c e kinds n token \<Rightarrow> lease_expired (oe_now e) r
      | OpReap e \<Rightarrow> lease_expired (oe_now e) r
      | OpBeat c e jb token \<Rightarrow> j_ID jb = j_ID r \<and> j_LockedBy r = Some token
      | OpFinish c e jb token herr cs \<Rightarrow> j_ID jb = j_ID r \<and> j_LockedBy r = Some token
      | _ \<Rightarrow> False)"
proof -
  obtain k where "k < length ops" "lease_may_touch i (ops ! k) (Some r)"
    "job_by_id (fold table_run (take k ops) db) i = Some r"
    using job_lease.view_change_has_cause[OF assms(1), of ops i] assms(2,4) by auto
  then show ?thesis using assms(3) by (intro exI[of _ k]) (auto simp: owned_def split: table_op.splits)
qed

theorem leased_job_is_exclusive_witness:
  "job_by_id (fold table_run [sample_claim 50 ''t2'', sample_finish] sample_running) ''id0'' \<noteq> Some (hd sample_running) \<and>
   job_by_id (fold table_run [sample_claim 50 ''t2''] sample_running) ''id0'' = Some (hd sample_running)"
proof -
  let ?ops = "[sample_claim 50 ''t2'', sample_finish]"
  have r: "job_by_id sample_running ''id0'' = Some (hd sample_running)" "j_Status (hd sample_running) = JobRunning"
    by (simp_all add: sample_defs job_by_id_def)
  have n: "job_by_id (fold table_run ?ops sample_running) ''id0'' \<noteq> Some (hd sample_running)"
    by (simp add: sample_defs sample_finish_def claim_jobs_def candidates_def due_def lease_expired_def finish_def
        owned_def job_def job_by_id_def finish_row_def unlock_def)
  from leased_job_is_exclusive[OF sample_unique(2) r n] show ?thesis
    using n by (auto simp: less_Suc_eq sample_claim_def sample_defs lease_expired_def)
qed

text \<open>No operation loses a live job: the row is still there afterwards. It becomes done only through the result
  of the worker that holds its lease, whose handler returned no error; and dead only through such a worker's
  error that is permanent or hit the last attempt, or through the reaper after its lease expired on the last
  attempt.\<close>

theorem job_ends_for_a_reason:
  assumes "jobs_unique db" and "job_by_id db i = Some r" and "live_row r"
  shows "\<exists>r'. job_by_id (table_run op db) i = Some r' \<and>
    (j_Status r' = JobDone \<longrightarrow> (\<exists>c e jb token cs. op = OpFinish c e jb token None cs \<and> owned jb token r)) \<and>
    (j_Status r' = JobDead \<longrightarrow>
       (\<exists>c e jb token err cs. op = OpFinish c e jb token (Some err) cs \<and> owned jb token r \<and>
          (IsPermanent err \<or> j_Attempts jb \<ge> j_MaxAttempts jb)) \<or>
       (\<exists>e. op = OpReap e \<and> lease_expired (oe_now e) r \<and> j_Attempts r \<ge> j_MaxAttempts r))"
proof (cases op)
  case (OpInsert c e k kind raw opts)
  then show ?thesis using effect_insert[OF assms(2)] assms(3) by (auto simp: live_row_def)
next
  case (OpRetry e k)
  then show ?thesis using effect_retry[OF assms(2), of e k] assms(3)
    by (auto simp: live_row_def retry_row_def)
next
  case (OpDelete now st keep)
  then show ?thesis using effect_delete[OF assms(2,3), of now st keep] assms(3) by (auto simp: live_row_def)
next
  case (OpClaim c e kinds n token)
  then show ?thesis using effect_claim[OF assms(2), of c e kinds n token] assms(3)
    by (auto simp: live_row_def claim_row_def simp del: table_run.simps)
next
  case (OpBeat c e jb token)
  then show ?thesis using effect_beat[OF assms(2), of c e jb token] assms(3)
    by (auto simp: live_row_def simp del: table_run.simps)
next
  case (OpFinish c e jb token herr cs)
  then show ?thesis using effect_finish[OF assms(2), of c e jb token herr cs] assms(3)
    by (cases herr) (auto simp: live_row_def row_ops simp del: table_run.simps)
next
  case (OpReap e)
  then show ?thesis using effect_reap[OF assms(2), of e] assms(3)
    by (auto simp: live_row_def stuck_def row_ops simp del: table_run.simps)
qed

theorem job_ends_for_a_reason_witness:
  "\<exists>r'. job_by_id (table_run sample_finish sample_running) ''id0'' = Some r' \<and>
     (j_Status r' = JobDone \<longrightarrow> owned (job (hd sample_running)) ''t1'' (hd sample_running))"
proof -
  have "job_by_id sample_running ''id0'' = Some (hd sample_running)" "live_row (hd sample_running)"
    by (simp_all add: sample_defs job_by_id_def live_row_def)
  from job_ends_for_a_reason[OF sample_unique(2) this, of sample_finish] show ?thesis
    by (auto simp: sample_finish_def simp del: table_run.simps)
qed

text \<open>C11. No job is ever stuck. In every reachable state, a pending or running job whose time has come (its run
  time is past and its lease, if any, expired), that no other transaction holds locked and that has attempts
  left, is handed out by a worker for its kind with one attempt more and a fresh lease, provided the poll asks
  for at least as many jobs as are due at or before it; and one that has no attempts left is dead-lettered with
  a reason by the reaper.\<close>

theorem no_job_is_stuck:
  assumes "queue_run q_init ops s" and "r \<in> set (q_db s)" and "live_row r"
    and "j_RunAt r \<le> oe_now e" and "j_LockedUntil r = None \<or> lease_expired (oe_now e) r"
    and "j_Kind r \<in> set kinds" and "\<not> oe_locked e (j_ID r)" and "length (ahead e kinds r (q_db s)) \<le> n"
  shows "if j_Attempts r < j_MaxAttempts r then
           \<exists>jb\<in>set (snd (claim_jobs (New c) e kinds n token (q_db s))).
             j_ID jb = j_ID r \<and> j_Status jb = JobRunning \<and> j_Attempts jb = j_Attempts r + 1 \<and> j_Payload jb = j_Payload r \<and>
             j_LockedUntil jb = Some (oe_now e + c_LeaseTimeout (New c))
         else \<exists>jb\<in>set (snd (ReapStuck e (q_db s))).
             j_ID jb = j_ID r \<and> j_Status jb = JobDead \<and> j_LastError jb \<noteq> []"
proof -
  have ok: "row_ok r" using queue_run_ok[OF assms(1) q_init_ok] assms(2) by (simp add: queue_ok_def table_ok_def)
  show ?thesis
  proof (cases "j_Attempts r < j_MaxAttempts r")
    case True
    have "due kinds (oe_now e) r"
      using ok True assms(3-6) by (auto simp: due_def row_ok_def live_row_def split: JobStatus.splits)
    then have "r \<in> set (candidates e kinds n (q_db s))" using claimed_in_order assms(2,7,8) by blast
    then have "job (claim_row (New c) e token r) \<in> set (snd (claim_jobs (New c) e kinds n token (q_db s)))"
      using assms(2) by (simp add: claim_jobs_def Let_def)
    with True show ?thesis by (auto simp: job_def claim_row_def intro!: bexI)
  next
    case False
    then have "stuck (oe_now e) r"
      using ok assms(3,5) by (auto simp: stuck_def row_ok_def live_row_def split: JobStatus.splits)
    then have "job (reap_row e r) \<in> set (snd (ReapStuck e (q_db s)))" using assms(2) by (simp add: ReapStuck_def)
    with False show ?thesis by (auto simp: job_def row_ops reap_msg_def split: if_splits intro!: bexI)
  qed
qed

theorem no_job_is_stuck_witness:
  "\<exists>jb\<in>set (snd (claim_jobs (New sample_config) (sample_oenv 200) [''mail''] 1 ''t2'' sample_running)).
     j_ID jb = ''id0'' \<and> j_Attempts jb = 2"
proof -
  let ?r = "hd sample_running"
  have "?r \<in> set (q_db \<lparr>q_db = sample_running, q_runs = {(job (hd sample_running), ''t1'')}, q_tokens = {''t1''}\<rparr>)"
    by (simp add: sample_running_def sample_pending_def)
  then show ?thesis
    using no_job_is_stuck[OF sample_run(2), of ?r "sample_oenv 200" "[''mail'']" 1 sample_config "''t2''"]
    by (auto simp: sample_defs live_row_def lease_expired_def ahead_def due_def)
qed

text \<open>C12. The attempts are bounded. From a reachable state, as long as nothing is enqueued or retried and no
  shutdown gives an attempt back, all workers together hand jobs to handlers at most as often as the attempts
  left of the pending and running jobs add up to, however claims, crashes, expired leases, results and reaps
  interleave.\<close>

theorem attempts_are_bounded:
  assumes "queue_run q_init ops s" and "worker_run s k s'"
  shows "k \<le> (\<Sum>r\<leftarrow>q_db s. if live_row r then nat (j_MaxAttempts r - j_Attempts r) else 0)"
proof -
  have "queue_ok s" using queue_run_ok[OF assms(1) q_init_ok] .
  with assms(2) have "queue_ok s' \<and> table_budget (q_db s') + k \<le> table_budget (q_db s)"
  proof (induction rule: worker_run.induct)
    case (worker_quiet s k s' s'')
    then have "q_db s'' = q_db s'" by (auto elim: qstepE)
    with worker_quiet show ?case using qstep_keeps_ok by auto
  next
    case (worker_step s k s' op s'')
    then show ?case using qstep_keeps_ok budget_working[of s' op s''] by fastforce
  qed simp
  then show ?thesis by (simp add: table_budget_def budget_def[abs_def])
qed

theorem attempts_are_bounded_witness: "(1 :: nat) \<le> (\<Sum>r\<leftarrow>sample_pending. if live_row r then nat (j_MaxAttempts r - j_Attempts r) else 0)"
proof -
  let ?s = "\<lparr>q_db = sample_pending, q_runs = {}, q_tokens = {}\<rparr>"
  let ?t = "\<lparr>q_db = sample_running, q_runs = {(job (hd sample_running), ''t1'')}, q_tokens = {''t1''}\<rparr>"
  have sr: "set sample_running = {hd sample_running}" "length sample_running = 1"
    by (simp_all add: sample_running_def sample_pending_def)
  have "qstep ?s (Some (sample_claim 5 ''t1'')) ?t"
    using q_claim[of "''t1''" ?s "sample_claim 5 ''t1''" sample_config "sample_oenv 5" "[''mail'']" 4 "map job sample_running"]
    by (simp add: sample_claim_def sample_claimed sr)
  then have "worker_run ?s (0 + handed (sample_claim 5 ''t1'') (q_db ?s)) ?t"
    by (intro worker_step[OF worker_nil]) (simp_all add: sample_claim_def)
  then have "worker_run ?s 1 ?t" by (simp add: sample_claim_def sample_claimed sr)
  from attempts_are_bounded[OF sample_run(1) this] show ?thesis by simp
qed

text \<open>\<^verbatim>\<open>Enqueue\<close> keeps the table consistent whatever other sessions commit between its statements, and reports the
  truth: on success the pending job with the payload and key is in the table; a duplicate comes with a job of the
  same kind and key that is pending or running; otherwise the kind was empty, the payload was not valid JSON or
  could not be encoded, or the insert conflicted without a live job to show for it.\<close>

theorem enqueue_reports_the_truth:
  assumes "table_ok db" and "\<And>n d. table_ok d \<Longrightarrow> table_ok (others n d)"
    and "enqueue (New c) e others kind p opts db = (db', res)"
  shows "table_ok db' \<and>
    (case res of
       Enqueued jb \<Rightarrow> \<exists>r\<in>set db'. jb = job r \<and> j_Status r = JobPending \<and> j_Kind r = kind \<and>
                        encodePayload e p = Inr (j_Payload r) \<and> j_DedupeKey r = eo_dedupeKey (enqueue_options (New c) opts)
     | Duplicate jb \<Rightarrow> eo_dedupeKey (enqueue_options (New c) opts) \<noteq> None \<and>
         (\<exists>r\<in>set db'. jb = job r \<and> live_row r \<and> j_Kind r = kind \<and>
            j_DedupeKey r = eo_dedupeKey (enqueue_options (New c) opts))
     | NotEnqueued err \<Rightarrow> kind = [] \<and> err = KindRequired \<and> db' = db \<or> encodePayload e p = Inl err \<and> db' = db \<or>
         err = InsertReturnedNoRow \<or> err = KeptConflicting)"
proof (cases "kind = []")
  case True
  with assms show ?thesis by (auto simp: enqueue_def)
next
  case False
  show ?thesis
  proof (cases "encodePayload e p")
    case (Inl err)
    with False assms show ?thesis by (auto simp: enqueue_def)
  next
    case (Inr raw)
    with False assms(3) have "enqueue_loop 3 0 e others kind raw (enqueue_options (New c) opts) db = (db', res)"
      by (simp add: enqueue_def)
    from enqueue_loop_sound[OF assms(1,2) this] Inr show ?thesis by (cases res) auto
  qed
qed

theorem enqueue_reports_the_truth_witness:
  "table_ok sample_pending \<and>
   enqueue (New sample_config) (sample_oenv 9) (\<lambda>_ d. d) ''mail'' (RawJSON ''{}'') [WithDedupeKey ''k''] sample_pending =
     (sample_pending, Duplicate (job (hd sample_pending)))"
proof -
  have t: "table_ok sample_pending"
    using sample_unique(1) row_ok_new by (simp add: table_ok_def sample_pending_def)
  have e: "enqueue (New sample_config) (sample_oenv 9) (\<lambda>_ d. d) ''mail'' (RawJSON ''{}'') [WithDedupeKey ''k''] sample_pending =
     (sample_pending, Duplicate (job (hd sample_pending)))"
    by (simp add: enqueue_def encodePayload_def sample_defs numeral_3_eq_3 insert_job_def jobs_unique_def dedupe_entry_def
        live_row_def live_with_key_def)
  from enqueue_reports_the_truth[OF t _ e] show ?thesis using t e by simp
qed

text \<open>With nothing else going on, \<^verbatim>\<open>Retry\<close> decides by the job's row: unknown ids are not found, running and done
  jobs are refused, a job whose dedupe key a newer live job has taken is a duplicate, and otherwise exactly its
  row becomes pending and due now, a dead one with all its attempts back.\<close>

theorem Retry_decides:
  assumes "jobs_unique db"
  shows "Retry e (\<lambda>d. d) i db =
    (case job_by_id db i of
       None \<Rightarrow> (db, Inl ErrNotFound)
     | Some r \<Rightarrow>
         if j_Status r = JobRunning \<or> j_Status r = JobDone then (db, Inl ErrNotRetryable)
         else if \<exists>x\<in>set db. live_row x \<and> x \<noteq> r \<and> j_Kind x = j_Kind r \<and> j_DedupeKey x = j_DedupeKey r \<and> j_DedupeKey r \<noteq> None
         then (db, Inl ErrDuplicate)
         else (update_where (\<lambda>x. j_ID x = i) (retry_row e) db, Inr (job (retry_row e r))))"
proof (cases "job_by_id db i")
  case None
  then have n: "filter (retryable i) db = []" by (auto simp: job_by_id_def find_None_iff filter_empty_conv retryable_def)
  then have "update_where (retryable i) (retry_row e) db = db"
    unfolding update_where_def by (intro map_idI) (auto simp: filter_empty_conv)
  with n None assms show ?thesis by (simp add: Retry_def Let_def Get_def)
next
  case (Some r)
  then have r: "r \<in> set db" "j_ID r = i" using assms by (simp_all add: job_by_id_iff)
  show ?thesis
  proof (cases "retryable i r")
    case True
    have "update_where (retryable i) (retry_row e) db = update_where (\<lambda>x. j_ID x = i) (retry_row e) db"
      unfolding update_where_def
    proof (rule map_cong[OF refl])
      fix x assume x: "x \<in> set db"
      have "retryable i x \<longleftrightarrow> j_ID x = i"
        using unique_by_id[OF assms x r(1)] r(2) True by (metis retryable_def)
      then show "(if retryable i x then retry_row e x else x) = (if j_ID x = i then retry_row e x else x)" by simp
    qed
    moreover have "Retry e (\<lambda>d. d) i db =
        (if key_taken db r then (db, Inl ErrDuplicate)
         else (update_where (retryable i) (retry_row e) db, Inr (job (retry_row e r))))"
      using True by (simp add: Retry_def Let_def retry_unique[OF assms r(1) True] retryable_filter[OF assms r])
    moreover have "\<not> (j_Status r = JobRunning \<or> j_Status r = JobDone)" using True by (auto simp: retryable_def)
    ultimately show ?thesis unfolding key_taken_def[symmetric] Some by simp
  next
    case False
    with retryable_filter[OF assms r] have n: "filter (retryable i) db = []" by simp
    then have "update_where (retryable i) (retry_row e) db = db"
      unfolding update_where_def by (intro map_idI) (auto simp: filter_empty_conv)
    with n Some False r assms show ?thesis
      by (cases "j_Status r") (auto simp: Retry_def Let_def Get_def retryable_def)
  qed
qed

theorem Retry_decides_witness:
  "jobs_unique sample_running \<and> Retry (sample_oenv 9) (\<lambda>d. d) ''id0'' sample_running = (sample_running, Inl ErrNotRetryable)"
  using Retry_decides[OF sample_unique(2), of "sample_oenv 9" "''id0''"] sample_unique(2)
  by (simp add: sample_defs job_by_id_def)

end
