(* ===== verification/Outbox_Bounds.thy ===== *)
theory Outbox_Bounds
  imports Outbox_Model
begin

text \<open>
  The two computations of the workers that have bounds: the exponential backoff on 64-bit integers, and the
  error text a failed attempt leaves in its row, which has to be short and valid UTF-8 for Postgres.
\<close>

section \<open>UTF-8\<close>

text \<open>The encoding of a Unicode scalar value, the reference for what valid UTF-8 is.\<close>

definition scalar_value :: "nat \<Rightarrow> bool" where
  "scalar_value u \<longleftrightarrow> u < 0xD800 \<or> 0xE000 \<le> u \<and> u < 0x110000"

definition utf8_encode :: "nat \<Rightarrow> string" where
  "utf8_encode u = map char_of
     (if u < 0x80 then [u]
      else if u < 0x800 then [0xC0 + u div 0x40, 0x80 + u mod 0x40]
      else if u < 0x10000 then [0xE0 + u div 0x1000, 0x80 + u div 0x40 mod 0x40, 0x80 + u mod 0x40]
      else [0xF0 + u div 0x40000, 0x80 + u div 0x1000 mod 0x40, 0x80 + u div 0x40 mod 0x40, 0x80 + u mod 0x40])"

lemma digit64:
  fixes m :: nat
  shows "r < 64 \<Longrightarrow> (m * 64 + r) div 64 = m" "r < 64 \<Longrightarrow> (m * 64 + r) mod 64 = r"
  by simp_all

lemma div64:
  fixes n :: nat
  shows "n div 4096 = n div 64 div 64" "n div 262144 = n div 64 div 64 div 64"
  by (simp_all flip: div_mult2_eq)

lemma encode_two:
  assumes "2 \<le> p" "p < 32" "q < (64 :: nat)"
  shows "utf8_encode (p * 64 + q) = map char_of [192 + p, 128 + q] \<and> scalar_value (p * 64 + q)"
  using assms by (simp add: utf8_encode_def scalar_value_def)

lemma encode_three:
  assumes "p < 16" "q < 64" "r < (64 :: nat)" and "p = 0 \<Longrightarrow> 32 \<le> q" and "p = 13 \<Longrightarrow> q < 32"
  shows "utf8_encode ((p * 64 + q) * 64 + r) = map char_of [224 + p, 128 + q, 128 + r] \<and>
         scalar_value ((p * 64 + q) * 64 + r)"
proof -
  define u where "u = (p * 64 + q) * 64 + r"
  have d: "u div 64 = p * 64 + q" "u mod 64 = r" unfolding u_def by (rule digit64, rule assms(3))+
  have e: "u div 4096 = p" "u div 64 mod 64 = q" unfolding div64 d by (rule digit64, rule assms(2))+
  have "2048 \<le> u" "u < 65536" using assms(1-4) unfolding u_def by (cases "p = 0"; simp)+
  moreover have "scalar_value u"
  proof -
    consider "p < 13" | "p = 13" | "13 < p" by linarith
    then show ?thesis using assms(1-3,5) by cases (simp_all add: scalar_value_def u_def)
  qed
  ultimately show ?thesis unfolding u_def[symmetric] using d(2) e by (simp add: utf8_encode_def)
qed

lemma encode_four:
  assumes "p < 5" "q < 64" "r < 64" "t < (64 :: nat)" and "p = 0 \<Longrightarrow> 16 \<le> q" and "p = 4 \<Longrightarrow> q < 16"
  shows "utf8_encode (((p * 64 + q) * 64 + r) * 64 + t) = map char_of [240 + p, 128 + q, 128 + r, 128 + t] \<and>
         scalar_value (((p * 64 + q) * 64 + r) * 64 + t)"
proof -
  define u where "u = ((p * 64 + q) * 64 + r) * 64 + t"
  have d: "u div 64 = (p * 64 + q) * 64 + r" "u mod 64 = t" unfolding u_def by (rule digit64, rule assms(4))+
  have f: "u div 4096 = p * 64 + q" "u div 64 mod 64 = r" unfolding div64 d by (rule digit64, rule assms(3))+
  have e: "u div 64 div 64 = p * 64 + q" using f(1) by (simp only: div64)
  have g: "u div 262144 = p" "u div 4096 mod 64 = q" unfolding div64 e by (rule digit64, rule assms(2))+
  have "65536 \<le> u" using assms(2-5) unfolding u_def by (cases "p = 0") simp_all
  moreover have "u < 1114112" using assms(1-4,6) unfolding u_def by (cases "p = 4") simp_all
  ultimately show ?thesis unfolding u_def[symmetric] using d(2) f(2) g by (simp add: utf8_encode_def scalar_value_def)
qed

lemma char_byte:
  assumes "lo \<le> (of_char c :: nat)"
  obtains k where "c = char_of (lo + k)" "of_char c = lo + k"
  using assms by (metis char_of_char le_iff_add)

lemma rune_width_cases:
  assumes "rune_width s = w" and "w \<noteq> 0"
  shows "\<exists>u. scalar_value u \<and> take w s = utf8_encode u"
proof -
  obtain c cs where s: "s = c # cs" using assms by (cases s) (auto simp: rune_width_def)
  consider (1) "(of_char c :: nat) < 128" "w = 1"
    | (2) "194 \<le> (of_char c :: nat)" "(of_char c :: nat) \<le> 223" "byte_in cs 0 128 191" "w = 2"
    | (3) "224 \<le> (of_char c :: nat)" "(of_char c :: nat) \<le> 239" "byte_in cs 0 128 191" "byte_in cs 1 128 191" "w = 3"
        "of_char c = (224 :: nat) \<Longrightarrow> byte_in cs 0 160 191" "of_char c = (237 :: nat) \<Longrightarrow> byte_in cs 0 128 159"
    | (4) "240 \<le> (of_char c :: nat)" "(of_char c :: nat) \<le> 244" "byte_in cs 0 128 191" "byte_in cs 1 128 191"
        "byte_in cs 2 128 191" "w = 4"
        "of_char c = (240 :: nat) \<Longrightarrow> byte_in cs 0 144 191" "of_char c = (244 :: nat) \<Longrightarrow> byte_in cs 0 128 143"
    using assms unfolding s rune_width_def by (auto simp: Let_def byte_in_def split: if_splits)
  then show ?thesis
  proof cases
    case 1
    then have "utf8_encode (of_char c) = [c]" "scalar_value (of_char c)" by (simp_all add: utf8_encode_def scalar_value_def)
    with 1 s show ?thesis by (intro exI[of _ "of_char c"]) simp
  next
    case 2
    then obtain x ys where cs: "cs = x # ys" by (cases cs) (auto simp: byte_in_def)
    obtain p where p: "c = char_of (192 + p)" "(of_char c :: nat) = 192 + p" using char_byte[of 192 c] 2 by auto
    obtain q where q: "x = char_of (128 + q)" "(of_char x :: nat) = 128 + q" using char_byte[of 128 x] 2 cs by (auto simp: byte_in_def)
    from encode_two[of p q] 2 p q cs s show ?thesis by (intro exI[of _ "p * 64 + q"]) (simp add: byte_in_def numeral_2_eq_2)
  next
    case 3
    then obtain x y ys where cs: "cs = x # y # ys" by (cases cs; cases "tl cs") (auto simp: byte_in_def)
    obtain p where p: "c = char_of (224 + p)" "(of_char c :: nat) = 224 + p" using char_byte[of 224 c] 3 by auto
    obtain q where q: "x = char_of (128 + q)" "(of_char x :: nat) = 128 + q" using char_byte[of 128 x] 3 cs by (auto simp: byte_in_def)
    obtain r where r: "y = char_of (128 + r)" "(of_char y :: nat) = 128 + r" using char_byte[of 128 y] 3 cs by (auto simp: byte_in_def)
    have "p = 13 \<Longrightarrow> q < 32" "p = 0 \<Longrightarrow> 32 \<le> q" using 3(6,7) p q cs by (auto simp: byte_in_def)
    then have "utf8_encode ((p * 64 + q) * 64 + r) = map char_of [224 + p, 128 + q, 128 + r] \<and>
         scalar_value ((p * 64 + q) * 64 + r)"
      using encode_three[of p q r] 3(1-4) p q r cs by (simp add: byte_in_def)
    with 3(5) p q r cs s show ?thesis
      by (intro exI[of _ "(p * 64 + q) * 64 + r"]) (simp add: byte_in_def numeral_3_eq_3)
  next
    case 4
    then obtain x y z ys where cs: "cs = x # y # z # ys"
      by (cases cs; cases "tl cs"; cases "tl (tl cs)") (auto simp: byte_in_def)
    obtain p where p: "c = char_of (240 + p)" "(of_char c :: nat) = 240 + p" using char_byte[of 240 c] 4 by auto
    obtain q where q: "x = char_of (128 + q)" "(of_char x :: nat) = 128 + q" using char_byte[of 128 x] 4 cs by (auto simp: byte_in_def)
    obtain r where r: "y = char_of (128 + r)" "(of_char y :: nat) = 128 + r" using char_byte[of 128 y] 4 cs by (auto simp: byte_in_def)
    obtain t where t: "z = char_of (128 + t)" "(of_char z :: nat) = 128 + t" using char_byte[of 128 z] 4 cs by (auto simp: byte_in_def)
    have "p = 4 \<Longrightarrow> q < 16" "p = 0 \<Longrightarrow> 16 \<le> q" using 4(7,8) p q cs by (auto simp: byte_in_def)
    then have "utf8_encode (((p * 64 + q) * 64 + r) * 64 + t) = map char_of [240 + p, 128 + q, 128 + r, 128 + t] \<and>
         scalar_value (((p * 64 + q) * 64 + r) * 64 + t)"
      using encode_four[of p q r t] 4(1-5) p q r t cs by (simp add: byte_in_def)
    with 4(6) p q r t cs s show ?thesis
      by (intro exI[of _ "((p * 64 + q) * 64 + r) * 64 + t"]) (simp add: byte_in_def)
  qed
qed

lemma rune_width_encode:
  assumes "scalar_value u"
  shows "rune_width (utf8_encode u @ s) = length (utf8_encode u)"
proof -
  consider "u < 128" | "128 \<le> u" "u < 2048" | "2048 \<le> u" "u < 65536" | "65536 \<le> u" "u < 1114112"
    using assms by (fastforce simp: scalar_value_def)
  then show ?thesis
  proof cases
    case 1
    then show ?thesis by (simp add: utf8_encode_def rune_width_def)
  next
    case 2
    then have "2 \<le> u div 64" "u div 64 < 32" "u mod 64 < 64" by simp_all
    with 2 show ?thesis by (simp add: utf8_encode_def rune_width_def Let_def byte_in_def)
  next
    case 3
    define p q r where pqr: "p = u div 4096" "q = u div 64 mod 64" "r = u mod 64"
    have b: "p < 16" "q < 64" "r < 64" using 3 by (simp_all add: pqr)
    have u: "u = p * 4096 + q * 64 + r"
      using div_mult_mod_eq[of u 64] div_mult_mod_eq[of "u div 64" 64] unfolding pqr div64 by linarith
    have "p = 0 \<Longrightarrow> 32 \<le> q" "p = 13 \<Longrightarrow> q \<le> 31" using 3 b assms unfolding u scalar_value_def by linarith+
    with 3 b show ?thesis
      by (simp add: utf8_encode_def rune_width_def Let_def byte_in_def flip: pqr)
  next
    case 4
    define p q r t where pqr: "p = u div 262144" "q = u div 4096 mod 64" "r = u div 64 mod 64" "t = u mod 64"
    have b: "p < 5" "q < 64" "r < 64" "t < 64" using 4 by (simp_all add: pqr)
    have u: "u = p * 262144 + q * 4096 + r * 64 + t"
      using div_mult_mod_eq[of u 64] div_mult_mod_eq[of "u div 64" 64] div_mult_mod_eq[of "u div 64 div 64" 64]
      unfolding pqr div64 by linarith
    have "p = 0 \<Longrightarrow> 16 \<le> q" "p = 4 \<Longrightarrow> q \<le> 15" using 4 b unfolding u by linarith+
    with 4 b show ?thesis
      by (simp add: utf8_encode_def rune_width_def Let_def byte_in_def flip: pqr)
  qed
qed

lemma utf8_encode_nonempty: "utf8_encode u \<noteq> []"
  by (simp add: utf8_encode_def)

lemma ToValidUTF8_step:
  "s \<noteq> [] \<Longrightarrow> ToValidUTF8 s =
     (if rune_width s = 0 then ToValidUTF8 (tl s) else take (rune_width s) s @ ToValidUTF8 (drop (rune_width s) s))"
  by (cases s) (simp_all add: ToValidUTF8.simps Let_def)

lemma ToValidUTF8_valid: "\<exists>us. list_all scalar_value us \<and> ToValidUTF8 s = concat (map utf8_encode us)"
proof (induction s rule: ToValidUTF8.induct)
  case 1
  show ?case by (intro exI[of _ "[]"]) (simp add: ToValidUTF8.simps)
next
  case (2 c cs)
  show ?case
  proof (cases "rune_width (c # cs) = 0")
    case True
    with 2 show ?thesis by (simp add: ToValidUTF8_step)
  next
    case False
    from 2(2)[OF refl False] obtain us where us: "list_all scalar_value us"
      "ToValidUTF8 (drop (rune_width (c # cs)) (c # cs)) = concat (map utf8_encode us)" by auto
    obtain u where "scalar_value u" "take (rune_width (c # cs)) (c # cs) = utf8_encode u"
      using rune_width_cases[OF refl False] by blast
    with us False show ?thesis by (intro exI[of _ "u # us"]) (simp add: ToValidUTF8_step)
  qed
qed

lemma ToValidUTF8_id: "list_all scalar_value us \<Longrightarrow> ToValidUTF8 (concat (map utf8_encode us)) = concat (map utf8_encode us)"
proof (induction us)
  case (Cons u us)
  have "rune_width (utf8_encode u @ concat (map utf8_encode us)) = length (utf8_encode u)"
    using Cons.prems by (simp add: rune_width_encode)
  then show ?case using Cons utf8_encode_nonempty[of u]
    by (subst ToValidUTF8_step) simp_all
qed (simp add: ToValidUTF8.simps)

lemma length_ToValidUTF8: "length (ToValidUTF8 s) \<le> length s"
proof (induction s rule: ToValidUTF8.induct)
  case (2 c cs)
  show ?case
  proof (cases "rune_width (c # cs) = 0")
    case False
    have "length (ToValidUTF8 (drop (rune_width (c # cs)) (c # cs))) \<le> length (drop (rune_width (c # cs)) (c # cs))"
      using 2(2)[OF refl False] .
    with False show ?thesis by (simp add: ToValidUTF8_step)
  qed (use 2 in \<open>simp add: ToValidUTF8_step\<close>)
qed (simp add: ToValidUTF8.simps)

text \<open>The error text a failed attempt leaves in the row has at most 4096 bytes and is valid UTF-8, the encoding of
  a sequence of Unicode scalar values, even when the cut splits a character or the text was not UTF-8; and a
  valid text of at most 4096 bytes is stored as it is.\<close>

theorem error_text_is_valid:
  "length (truncate_utf8 s) \<le> 4096 \<and>
   (\<exists>us. list_all scalar_value us \<and> truncate_utf8 s = concat (map utf8_encode us)) \<and>
   (\<forall>us. list_all scalar_value us \<and> s = concat (map utf8_encode us) \<and> length s \<le> 4096 \<longrightarrow> truncate_utf8 s = s)"
proof -
  let ?t = "if length s > maxErrorLen then take maxErrorLen s else s"
  have "length ?t \<le> 4096" by (simp add: maxErrorLen_def)
  then have "length (truncate_utf8 s) \<le> 4096" unfolding truncate_utf8_def using length_ToValidUTF8 le_trans by blast
  moreover have "truncate_utf8 s = s" if "list_all scalar_value us" "s = concat (map utf8_encode us)" "length s \<le> 4096" for us
    using that ToValidUTF8_id[OF that(1)] by (simp add: truncate_utf8_def maxErrorLen_def)
  ultimately show ?thesis using ToValidUTF8_valid[of ?t] unfolding truncate_utf8_def by blast
qed

theorem error_text_is_valid_witness: "truncate_utf8 (utf8_encode 0x20AC @ utf8_encode 0x41) = utf8_encode 0x20AC @ utf8_encode 0x41"
proof -
  have "utf8_encode 0x20AC @ utf8_encode 0x41 = concat (map utf8_encode [0x20AC, 0x41])" "list_all scalar_value [0x20AC, 0x41]"
    "length (utf8_encode 0x20AC @ utf8_encode 0x41) \<le> 4096" by (simp_all add: scalar_value_def utf8_encode_def)
  then show ?thesis using error_text_is_valid[of "utf8_encode 0x20AC @ utf8_encode 0x41"] by blast
qed

section \<open>Backoff\<close>

lemma sint_in_range: "- (2 ^ 63) \<le> sint (w :: 64 word) \<and> sint w < 2 ^ 63"
  using sint_greater_eq[of w] sint_less[of w] by simp

lemma sint_word_of_int_64: "- (2 ^ 63) \<le> n \<Longrightarrow> n < 2 ^ 63 \<Longrightarrow> sint (word_of_int n :: 64 word) = n"
  by (simp add: signed_of_int signed_take_bit_int_eq_self_iff)

lemma sint_double:
  assumes "0 \<le> sint d" and "sint (d :: 64 word) < 2 ^ 62"
  shows "sint (d * 2) = 2 * sint d"
proof -
  have "d * 2 = word_of_int (2 * sint d)" by (simp add: mult.commute)
  then show ?thesis using sint_word_of_int_64[of "2 * sint d"] assms by (simp add: mult.commute)
qed

lemma sint_add_64:
  "- (2 ^ 63) \<le> sint a + sint b \<Longrightarrow> sint a + sint b < 2 ^ 63 \<Longrightarrow> sint (a + b :: 64 word) = sint a + sint b"
  using sint_word_of_int_64[of "sint a + sint b"] by simp

lemma double_until_min:
  assumes "0 < sint d" and "0 < sint mx" and "sint mx \<le> 2 ^ 62"
  shows "0 < sint (double_until k d mx) \<and> min (sint (double_until k d mx)) (sint mx) = min (sint d * 2 ^ k) (sint mx)"
  using assms(1)
proof (induction k arbitrary: d)
  case (Suc k)
  show ?case
  proof (cases "sint d < sint mx")
    case True
    then have "sint (d * 2) = 2 * sint d" using Suc.prems assms(3) by (intro sint_double) simp_all
    with True Suc.IH[of "d * 2"] Suc.prems show ?thesis by (simp add: mult.assoc mult.commute mult.left_commute)
  next
    case False
    have "sint d * 1 \<le> sint d * 2 ^ Suc k" using Suc.prems by (intro mult_left_mono one_le_power) simp_all
    then have "sint mx \<le> sint d * 2 ^ Suc k" using False by linarith
    with False Suc.prems show ?thesis by (simp add: min_def)
  qed
qed simp

lemma New_backoff_positive: "0 < sint (c_BackoffBase (New c))" "0 < sint (c_BackoffMax (New c))"
  using sint_word_of_int_64[of "10 * sec"] sint_word_of_int_64[of "3600 * sec"]
  by (simp_all add: New_def Let_def sec_def)

lemma ExponentialBackoff_bounds:
  assumes base: "0 < sint base" and mx: "0 < sint mx" "sint mx \<le> 2 ^ 62"
    and rnd: "\<And>n. 0 < sint n \<Longrightarrow> 0 \<le> sint (oe_rand e n) \<and> sint (oe_rand e n) < sint n"
    and d: "d = min (sint base * 2 ^ nat (attempt - 1)) (sint mx)"
  shows "0 < sint (ExponentialBackoff base mx e attempt) \<and>
     d div 2 \<le> sint (ExponentialBackoff base mx e attempt) \<and> sint (ExponentialBackoff base mx e attempt) \<le> d"
proof -
  define w where "w = (let x = double_until (nat (attempt - 1)) base mx in if sint mx < sint x then mx else x)"
  have w: "sint w = d" "0 < d"
    using double_until_min[OF base mx, of "nat (attempt - 1)"] mx unfolding w_def d by (auto simp: Let_def min_def split: if_splits)
  have d62: "d \<le> 2 ^ 62" using mx d by simp
  define h where "h = (word_of_int (d sdiv 2) :: 64 word)"
  have "d sdiv 2 = d div 2" using w(2) by (simp add: signed_divide_int_def)
  then have h: "sint h = d div 2" using sint_word_of_int_64[of "d div 2"] d62 w(2) unfolding h_def by simp
  have eq: "ExponentialBackoff base mx e attempt = (if sint h \<le> 0 then w else h + oe_rand e (h + 1))"
    using w(1) unfolding ExponentialBackoff_def w_def h_def by (auto simp: Let_def)
  show ?thesis
  proof (cases "sint h \<le> 0")
    case True
    with eq w h show ?thesis by simp
  next
    case False
    have one: "sint (h + 1) = sint h + 1" using sint_add_64[of h 1] False h d62 by simp
    have r: "0 \<le> sint (oe_rand e (h + 1))" "sint (oe_rand e (h + 1)) \<le> sint h" using rnd[of "h + 1"] one False by simp_all
    then have "sint (h + oe_rand e (h + 1)) = sint h + sint (oe_rand e (h + 1))"
      using h d62 False by (intro sint_add_64) simp_all
    then show ?thesis using eq False r h by simp
  qed
qed

text \<open>Without a custom schedule, the wait before the next attempt is at least one nanosecond, at least half of and
  at most the smaller of base times two to the number of failures less one and the configured maximum, for
  every configuration \<^verbatim>\<open>New\<close> accepts with a maximum below 146 years: the doubling never wraps around. The random
  number generator returns a number from zero up to its bound.\<close>

theorem backoff_schedule:
  assumes "c_Backoff (New c) = None" and "sint (c_BackoffMax (New c)) \<le> 2 ^ 62"
    and "\<And>n. 0 < sint n \<Longrightarrow> 0 \<le> sint (oe_rand e n) \<and> sint (oe_rand e n) < sint n"
  shows "let d = min (sint (c_BackoffBase (New c)) * 2 ^ nat (attempt - 1)) (sint (c_BackoffMax (New c))) in
    0 < Backoff (New c) e attempt \<and> d div 2 \<le> Backoff (New c) e attempt \<and> Backoff (New c) e attempt \<le> d"
  using ExponentialBackoff_bounds[OF New_backoff_positive assms(2,3) refl] assms(1) by (simp add: Backoff_def Let_def)

definition default_config :: Config where
  "default_config =
     \<lparr>c_Workers = 0, c_PollInterval = 0, c_BatchSize = 0, c_LeaseTimeout = 0, c_HandlerTimeout = 0, c_MaxAttempts = 0,
      c_BackoffBase = 0, c_BackoffMax = 0, c_Backoff = None, c_RetainDone = 0, c_RetainDead = 0,
      c_CleanupInterval = 0, c_ShutdownGrace = 0\<rparr>"

definition zero_oenv :: oenv where
  "zero_oenv = \<lparr>oe_now = 0, oe_uuid = (\<lambda>_. []), oe_json_valid = (\<lambda>_. True), oe_rand = (\<lambda>_. 0), oe_locked = (\<lambda>_. False),
      oe_quote = (\<lambda>s. s)\<rparr>"

theorem backoff_schedule_witness: "5 * sec \<le> Backoff (New default_config) zero_oenv 1 \<and> Backoff (New default_config) zero_oenv 1 \<le> 10 * sec"
proof -
  have v: "c_Backoff (New default_config) = None" "sint (c_BackoffBase (New default_config)) = 10 * sec"
    "sint (c_BackoffMax (New default_config)) = 3600 * sec"
    using sint_word_of_int_64[of "10 * sec"] sint_word_of_int_64[of "3600 * sec"]
    by (simp_all add: New_def Let_def default_config_def sec_def)
  have m: "sint (c_BackoffMax (New default_config)) \<le> 2 ^ 62" unfolding v(3) sec_def by simp
  have "0 \<le> sint (oe_rand zero_oenv n) \<and> sint (oe_rand zero_oenv n) < sint n" if "0 < sint n" for n
    using that by (simp add: zero_oenv_def)
  from backoff_schedule[OF v(1) m this, of 1] show ?thesis unfolding v by (simp add: Let_def sec_def)
qed

end
