(* ===== verification/Outbox_Admin.thy ===== *)
theory Outbox_Admin
  imports Outbox_Lemmas
begin

text \<open>
  The admin HTTP surface of the queue (\<^verbatim>\<open>src/outbox/handler.go\<close>) and that it stays inside the caller's
  organization. A request is its path parameter and query strings; the host's scope resolver and \<^verbatim>\<open>uuid.Parse\<close>
  are arguments.
\<close>

section \<open>Handlers\<close>

text \<open>The number \<^verbatim>\<open>strconv.Atoi\<close> returns next to its error: zero for a malformed text, the nearest 64-bit integer for
  one out of range. The range error is raised at the digit that overflows.\<close>

fun atoi_digits :: "nat \<Rightarrow> string \<Rightarrow> nat option" where
  "atoi_digits n [] = Some n"
| "atoi_digits n (c # cs) =
     (if \<not> is_digit c then None
      else if 10 * n + digit_val c \<ge> 2 ^ 64 then Some (2 ^ 64 - 1)
      else atoi_digits (10 * n + digit_val c) cs)"

definition Atoi :: "string \<Rightarrow> int" where
  "Atoi s =
     (let (neg, t) = (case s of CHR ''-'' # t \<Rightarrow> (True, t) | CHR ''+'' # t \<Rightarrow> (False, t) | _ \<Rightarrow> (False, s)) in
      if t = [] then 0
      else case atoi_digits 0 t of
             None \<Rightarrow> 0
           | Some n \<Rightarrow> if neg then max (- int n) (- (2 ^ 63)) else min (int n) (2 ^ 63 - 1))"

definition error_text :: "outbox_error \<Rightarrow> string" where
  "error_text err =
     (case err of
        ErrDuplicate \<Rightarrow> ''outbox: a job with this dedupe key is already pending or running''
      | ErrNotFound \<Rightarrow> ''outbox: job not found''
      | ErrNotRetryable \<Rightarrow> ''outbox: only pending or dead jobs can be retried''
      | _ \<Rightarrow> [])"

datatype response = Fail nat string | DataJob Job | DataJobs "Job list" int int int

type_synonym scope = "string + string option"

definition list_jobs :: "scope \<Rightarrow> string \<Rightarrow> string \<Rightarrow> string \<Rightarrow> string \<Rightarrow> jobs_row list \<Rightarrow> response" where
  "list_jobs sc kind status limit offset db =
     (case sc of
        Inl msg \<Rightarrow> Fail 403 msg
      | Inr org \<Rightarrow>
          if status \<noteq> [] \<and> \<not> Valid_status status then Fail 400 ''invalid status''
          else let f = \<lparr>jf_OrgID = org, jf_Kind = kind, jf_Status = status, jf_Limit = Atoi limit, jf_Offset = Atoi offset\<rparr>;
                   (jobs, total) = ListJobs f db
               in DataJobs jobs total (jf_Limit f) (jf_Offset f))"

definition load :: "scope \<Rightarrow> string option \<Rightarrow> jobs_row list \<Rightarrow> (nat \<times> string, Job) result" where
  "load sc parsed db =
     (case sc of
        Inl msg \<Rightarrow> Inl (403, msg)
      | Inr org \<Rightarrow>
          (case parsed of
             None \<Rightarrow> Inl (400, ''invalid id'')
           | Some i \<Rightarrow>
               (case Get i db of
                  Inl err \<Rightarrow> Inl (if err = ErrNotFound then 404 else 500, error_text err)
                | Inr jb \<Rightarrow>
                    if org \<noteq> None \<and> j_OrgID jb \<noteq> org then Inl (404, error_text ErrNotFound) else Inr jb)))"

definition get_job :: "(string \<Rightarrow> string option) \<Rightarrow> scope \<Rightarrow> string \<Rightarrow> jobs_row list \<Rightarrow> response" where
  "get_job uuid_Parse sc param db =
     (case load sc (uuid_Parse param) db of Inl (status, msg) \<Rightarrow> Fail status msg | Inr jb \<Rightarrow> DataJob jb)"

text \<open>\<open>others\<close> acts between the load and the \<^verbatim>\<open>UPDATE\<close>, \<open>others'\<close> between the \<^verbatim>\<open>UPDATE\<close> and the read that explains it.\<close>

definition retry_job ::
  "(string \<Rightarrow> string option) \<Rightarrow> oenv \<Rightarrow> (jobs_row list \<Rightarrow> jobs_row list) \<Rightarrow> (jobs_row list \<Rightarrow> jobs_row list) \<Rightarrow> scope \<Rightarrow>
     string \<Rightarrow> jobs_row list \<Rightarrow> jobs_row list \<times> response" where
  "retry_job uuid_Parse e others others' sc param db =
     (case load sc (uuid_Parse param) db of
        Inl (status, msg) \<Rightarrow> (db, Fail status msg)
      | Inr jb \<Rightarrow>
          (case Retry e others' (j_ID jb) (others db) of
             (db', Inr jb') \<Rightarrow> (db', DataJob jb')
           | (db', Inl err) \<Rightarrow>
               (db', Fail (if err = ErrNotFound then 404
                           else if err = ErrNotRetryable \<or> err = ErrDuplicate then 409 else 500) (error_text err))))"

section \<open>Tenant isolation\<close>

lemma load_in_scope:
  assumes "load (Inr (Some org)) parsed db = Inr jb"
  shows "\<exists>r\<in>set db. jb = job r \<and> j_OrgID r = Some org"
proof -
  obtain i where i: "parsed = Some i" using assms by (cases parsed) (simp_all add: load_def)
  then obtain r where "job_by_id db i = Some r" "jb = job r" "j_OrgID jb = Some org"
    using assms by (auto simp: load_def Get_def split: option.splits if_splits)
  then show ?thesis by (auto simp: job_by_id_def job_def dest!: find_Some_in)
qed

lemma ListJobs_in_scope:
  assumes "ListJobs f db = (jobs, tot)" and "jf_OrgID f = Some org" and "jb \<in> set jobs"
  shows "j_OrgID jb = Some org"
  using assms by (auto simp: ListJobs_def Let_def matches_def job_def dest!: in_set_takeD in_set_dropD)

lemma Retry_touches_only:
  assumes "Retry e (\<lambda>d. d) i db = (db', res)" and "\<And>r. r \<in> set db \<Longrightarrow> j_ID r = i \<Longrightarrow> j_OrgID r = org"
  shows "filter (\<lambda>r. j_OrgID r \<noteq> org) db' = filter (\<lambda>r. j_OrgID r \<noteq> org) db \<and>
         (\<forall>jb. res = Inr jb \<longrightarrow> j_OrgID jb = org)"
proof -
  have "filter (\<lambda>r. j_OrgID r \<noteq> org) (update_where (retryable i) (retry_row e) xs) = filter (\<lambda>r. j_OrgID r \<noteq> org) xs"
    if "set xs \<subseteq> set db" for xs
    using that assms(2) by (induction xs) (auto simp: retryable_def retry_row_def)
  then have "filter (\<lambda>r. j_OrgID r \<noteq> org) db' = filter (\<lambda>r. j_OrgID r \<noteq> org) db"
    using Retry_db[of e i db] assms(1) by auto
  moreover have "j_OrgID jb = org" if jb: "res = Inr jb" for jb
  proof -
    from assms(1) jb obtain r rs where "filter (retryable i) db = r # rs" "jb = job (retry_row e r)"
      by (auto simp: Retry_def Let_def split: if_splits list.splits sum.splits)
    moreover from this(1) have "r \<in> set db" "j_ID r = i" by (auto simp: retryable_def filter_eq_Cons_iff)
    ultimately show ?thesis using assms(2) by (simp add: job_def retry_row_def)
  qed
  ultimately show ?thesis by blast
qed

text \<open>A caller scoped to an organization sees and moves only its jobs: a list or a job it is answered belongs to
  the organization, and a retry, whatever id it names, leaves every job of other organizations as it was, also
  when other sessions commit between the check and the update, as long as they keep the organizations of jobs.\<close>

theorem admin_stays_in_organization:
  assumes "\<And>r r'. r \<in> set db \<Longrightarrow> r' \<in> set (others db) \<Longrightarrow> j_ID r' = j_ID r \<Longrightarrow> j_OrgID r' = j_OrgID r"
    and "retry_job uuid_Parse e others (\<lambda>d. d) (Inr (Some org)) param db = (db', resp)"
  shows "(\<forall>jobs tot l off. list_jobs (Inr (Some org)) kind status limit offset db = DataJobs jobs tot l off \<longrightarrow>
            list_all (\<lambda>jb. j_OrgID jb = Some org) jobs) \<and>
         (\<forall>jb. get_job uuid_Parse (Inr (Some org)) param db = DataJob jb \<longrightarrow> j_OrgID jb = Some org) \<and>
         (filter (\<lambda>r. j_OrgID r \<noteq> Some org) db' = filter (\<lambda>r. j_OrgID r \<noteq> Some org) db \<or>
          filter (\<lambda>r. j_OrgID r \<noteq> Some org) db' = filter (\<lambda>r. j_OrgID r \<noteq> Some org) (others db)) \<and>
         (\<forall>jb. resp = DataJob jb \<longrightarrow> j_OrgID jb = Some org)"
proof (intro conjI)
  show "\<forall>jobs tot l off. list_jobs (Inr (Some org)) kind status limit offset db = DataJobs jobs tot l off \<longrightarrow>
      list_all (\<lambda>jb. j_OrgID jb = Some org) jobs"
    by (auto simp: list_jobs_def Let_def list_all_iff split: if_splits prod.splits dest: ListJobs_in_scope[where org = org])
  show "\<forall>jb. get_job uuid_Parse (Inr (Some org)) param db = DataJob jb \<longrightarrow> j_OrgID jb = Some org"
    by (auto simp: get_job_def job_def dest: load_in_scope split: sum.splits)
  have "(filter (\<lambda>r. j_OrgID r \<noteq> Some org) db' = filter (\<lambda>r. j_OrgID r \<noteq> Some org) db \<or>
          filter (\<lambda>r. j_OrgID r \<noteq> Some org) db' = filter (\<lambda>r. j_OrgID r \<noteq> Some org) (others db)) \<and>
         (\<forall>jb. resp = DataJob jb \<longrightarrow> j_OrgID jb = Some org)"
  proof (cases "load (Inr (Some org)) (uuid_Parse param) db")
    case (Inl x)
    with assms(2) show ?thesis by (auto simp: retry_job_def split: prod.splits)
  next
    case (Inr jb)
    from load_in_scope[OF this] obtain r where r: "r \<in> set db" "jb = job r" "j_OrgID r = Some org" by blast
    obtain d res where R: "Retry e (\<lambda>d. d) (j_ID jb) (others db) = (d, res)" by (metis surj_pair)
    have "d = db'" "\<forall>jb'. resp = DataJob jb' \<longrightarrow> res = Inr jb'"
      using assms(2) Inr R by (auto simp: retry_job_def split: sum.splits)
    moreover have "j_OrgID x = Some org" if "x \<in> set (others db)" "j_ID x = j_ID jb" for x
      using assms(1)[OF r(1) that(1)] that(2) r by (simp add: job_def)
    ultimately show ?thesis using Retry_touches_only[OF R, of "Some org"] by blast
  qed
  then show "filter (\<lambda>r. j_OrgID r \<noteq> Some org) db' = filter (\<lambda>r. j_OrgID r \<noteq> Some org) db \<or>
          filter (\<lambda>r. j_OrgID r \<noteq> Some org) db' = filter (\<lambda>r. j_OrgID r \<noteq> Some org) (others db)"
    and "\<forall>jb. resp = DataJob jb \<longrightarrow> j_OrgID jb = Some org" by blast+
qed

definition admin_oenv :: oenv where
  "admin_oenv = \<lparr>oe_now = 0, oe_uuid = (\<lambda>_. []), oe_json_valid = (\<lambda>_. True), oe_rand = (\<lambda>_. 0), oe_locked = (\<lambda>_. False),
      oe_quote = (\<lambda>s. s)\<rparr>"

definition foreign_row :: jobs_row where
  "foreign_row =
     \<lparr>j_ID = ''a'', j_OrgID = Some ''other'', j_Kind = ''mail'', j_Payload = ''{}'', j_Status = JobDead, j_Attempts = 2,
      j_MaxAttempts = 2, j_RunAt = 0, j_LastError = ''x'', j_DedupeKey = None, j_LockedUntil = None, j_CreatedAt = 0,
      j_UpdatedAt = 0, j_LockedBy = None\<rparr>"

theorem admin_stays_in_organization_witness:
  "fst (retry_job Some admin_oenv (\<lambda>d. d) (\<lambda>d. d) (Inr (Some ''mine'')) ''a'' [foreign_row]) = [foreign_row] \<and>
   filter (\<lambda>r. j_OrgID r \<noteq> Some ''mine'') (fst (retry_job Some admin_oenv (\<lambda>d. d) (\<lambda>d. d) (Inr (Some ''mine'')) ''a'' [foreign_row])) = [foreign_row]"
proof -
  have "fst (retry_job Some admin_oenv (\<lambda>d. d) (\<lambda>d. d) (Inr (Some ''mine'')) ''a'' [foreign_row]) = [foreign_row]"
    by (simp add: retry_job_def load_def Get_def job_by_id_def foreign_row_def job_def)
  moreover have "filter (\<lambda>r. j_OrgID r \<noteq> Some ''mine'') (fst (retry_job Some admin_oenv (\<lambda>d. d) (\<lambda>d. d) (Inr (Some ''mine'')) ''a'' [foreign_row])) = [foreign_row]"
    using admin_stays_in_organization[of "[foreign_row]" "\<lambda>d. d" Some admin_oenv "''mine''" "''a''"
        "fst (retry_job Some admin_oenv (\<lambda>d. d) (\<lambda>d. d) (Inr (Some ''mine'')) ''a'' [foreign_row])"
        "snd (retry_job Some admin_oenv (\<lambda>d. d) (\<lambda>d. d) (Inr (Some ''mine'')) ''a'' [foreign_row])"]
    by (simp add: foreign_row_def)
  ultimately show ?thesis ..
qed

end
