(* ===== verification/Compute_Model.thy ===== *)
theory Compute_Model
  imports Prelude
begin

text \<open>
  The numeric expression engine (\<^verbatim>\<open>src/manifest/computeexpr/expr.go\<close>): lexer, recursive-descent parser, evaluator,
  SQL renderer and validator of the formulas manifests declare.

  The machine's \<^verbatim>\<open>float64\<close> is the type variable \<open>'f\<close> with its operations in the record \<open>floats\<close>; nothing is assumed
  of them. \<open>fl_ParseFloat\<close> returns, as \<^verbatim>\<open>strconv.ParseFloat\<close> does, a value and whether there was an error. The
  parser's position in the token slice is the list of remaining tokens, and reading past its end is the panic an
  index out of range is. The recursion of the parser is bounded by fuel; \<open>parseArith\<close> provides more than the
  parser can use.
\<close>

section \<open>Tokens\<close>

datatype token =
    TkNumber string | TkIdent string | TkPlus | TkMinus | TkStar | TkSlash | TkLParen | TkRParen | TkEOF

fun tok_text :: "token \<Rightarrow> string" where
  "tok_text (TkNumber s) = s"
| "tok_text (TkIdent s) = s"
| "tok_text TkPlus = ''+''"
| "tok_text TkMinus = ''-''"
| "tok_text TkStar = ''*''"
| "tok_text TkSlash = ''/''"
| "tok_text TkLParen = ''(''"
| "tok_text TkRParen = '')''"
| "tok_text TkEOF = []"

datatype expr_error =
    IllegalCharacter char | InvalidNumber string | EmptyExpression | UnexpectedToken string | ExpectedRParen
  | UnknownColumns "string list" | IndexPanic | OutOfFuel

record 'f floats =
  fl_ParseFloat :: "string \<Rightarrow> 'f \<times> bool"
  fl_FormatFloat :: "'f \<Rightarrow> string"
  fl_of_int :: "int \<Rightarrow> 'f"
  fl_neg :: "'f \<Rightarrow> 'f"
  fl_add :: "'f \<Rightarrow> 'f \<Rightarrow> 'f"
  fl_sub :: "'f \<Rightarrow> 'f \<Rightarrow> 'f"
  fl_mul :: "'f \<Rightarrow> 'f \<Rightarrow> 'f"
  fl_div :: "'f \<Rightarrow> 'f \<Rightarrow> 'f"
  fl_eq :: "'f \<Rightarrow> 'f \<Rightarrow> bool"
  fl_lt :: "'f \<Rightarrow> 'f \<Rightarrow> bool"
  fl_le :: "'f \<Rightarrow> 'f \<Rightarrow> bool"

definition is_alpha :: "char \<Rightarrow> bool" where
  "is_alpha c \<longleftrightarrow>
     c = CHR ''_'' \<or> (65 \<le> (of_char c :: nat) \<and> (of_char c :: nat) \<le> 90) \<or> (97 \<le> (of_char c :: nat) \<and> (of_char c :: nat) \<le> 122)"

definition is_word :: "char \<Rightarrow> bool" where
  "is_word c \<longleftrightarrow> is_alpha c \<or> is_digit c"

definition is_blank :: "char \<Rightarrow> bool" where
  "is_blank c \<longleftrightarrow> c = CHR '' '' \<or> c = CHR 0x09 \<or> c = CHR 0x0A \<or> c = CHR 0x0D"

text \<open>\<^verbatim>\<open>IdentRe\<close>.\<close>

definition IdentRe :: "string \<Rightarrow> bool" where
  "IdentRe s \<longleftrightarrow> (case s of [] \<Rightarrow> False | c # cs \<Rightarrow> is_alpha c \<and> list_all is_word cs)"

text \<open>The operators and parentheses.\<close>

fun op_token :: "char \<Rightarrow> token option" where
  "op_token c =
     (if c = CHR ''+'' then Some TkPlus else if c = CHR ''-'' then Some TkMinus
      else if c = CHR ''*'' then Some TkStar else if c = CHR ''/'' then Some TkSlash
      else if c = CHR ''('' then Some TkLParen else if c = CHR '')'' then Some TkRParen else None)"

text \<open>The inner loop of a number: digits and at most one dot; what it read and what is left.\<close>

fun number_span :: "bool \<Rightarrow> string \<Rightarrow> string \<times> string" where
  "number_span seenDot [] = ([], [])"
| "number_span seenDot (d # ds) =
     (if is_digit d then (let (n, r) = number_span seenDot ds in (d # n, r))
      else if d = CHR ''.'' \<and> \<not> seenDot then (let (n, r) = number_span True ds in (d # n, r))
      else ([], d # ds))"

lemma number_span_append: "number_span b s = (n, r) \<Longrightarrow> s = n @ r"
  by (induction b s arbitrary: n r rule: number_span.induct) (auto split: if_splits prod.splits)

lemma number_span_shorter:
  assumes "number_span False (c # cs) = (num, rest)" and "is_digit c \<or> c = CHR ''.''"
  shows "length rest \<le> length cs"
proof -
  have "num \<noteq> []" using assms by (auto split: prod.splits if_splits)
  moreover have "length (c # cs) = length num + length rest" using number_span_append[OF assms(1)] by (metis length_append)
  ultimately show ?thesis by (cases num) auto
qed

function lexArith :: "'f floats \<Rightarrow> string \<Rightarrow> (expr_error, token list) result" where
  "lexArith F [] = Inr [TkEOF]"
| "lexArith F (c # cs) =
     (if is_blank c then lexArith F cs
      else case op_token c of
        Some t \<Rightarrow> rbind (lexArith F cs) (\<lambda>ts. Inr (t # ts))
      | None \<Rightarrow>
          if is_digit c \<or> c = CHR ''.'' then
            (let (num, rest) = number_span False (c # cs) in
             if num = ''.'' then Inl (InvalidNumber num)
             else if snd (fl_ParseFloat F num) then Inl (InvalidNumber num)
             else rbind (lexArith F rest) (\<lambda>ts. Inr (TkNumber num # ts)))
          else if is_alpha c then
            rbind (lexArith F (dropWhile is_word cs)) (\<lambda>ts. Inr (TkIdent (c # takeWhile is_word cs) # ts))
          else Inl (IllegalCharacter c))"
  by pat_completeness auto
termination
  by (relation "measure (\<lambda>(F, s). length s)")
     (auto simp: less_Suc_eq_le length_dropWhile_le simp del: number_span.simps dest: number_span_shorter[OF sym])

declare lexArith.simps [simp del]

section \<open>Syntax trees and the parser\<close>

datatype unop = UMinus | UPlus
datatype binop = BPlus | BMinus | BStar | BSlash

datatype 'f node = NumNode 'f string | IdentNode string | UnaryNode unop "'f node" | BinNode binop "'f node" "'f node"

fun add_op :: "token \<Rightarrow> binop option" where
  "add_op TkPlus = Some BPlus" | "add_op TkMinus = Some BMinus" | "add_op _ = None"

fun mul_op :: "token \<Rightarrow> binop option" where
  "mul_op TkStar = Some BStar" | "mul_op TkSlash = Some BSlash" | "mul_op _ = None"

type_synonym 'f parsed = "(expr_error, 'f node \<times> token list) result"

text \<open>\<open>expr_loop\<close> and \<open>term_loop\<close> are the \<^verbatim>\<open>for\<close> loops of \<^verbatim>\<open>parseExpr\<close> and \<^verbatim>\<open>parseTerm\<close> with their variable \<^verbatim>\<open>left\<close>.\<close>

fun parseExpr :: "'f floats \<Rightarrow> nat \<Rightarrow> token list \<Rightarrow> 'f parsed"
  and expr_loop :: "'f floats \<Rightarrow> nat \<Rightarrow> 'f node \<Rightarrow> token list \<Rightarrow> 'f parsed"
  and parseTerm :: "'f floats \<Rightarrow> nat \<Rightarrow> token list \<Rightarrow> 'f parsed"
  and term_loop :: "'f floats \<Rightarrow> nat \<Rightarrow> 'f node \<Rightarrow> token list \<Rightarrow> 'f parsed"
  and parseFactor :: "'f floats \<Rightarrow> nat \<Rightarrow> token list \<Rightarrow> 'f parsed" where
  "parseExpr F 0 ts = Inl OutOfFuel"
| "parseExpr F (Suc k) ts = rbind (parseTerm F k ts) (\<lambda>(left, ts). expr_loop F k left ts)"
| "expr_loop F 0 left ts = Inl OutOfFuel"
| "expr_loop F (Suc k) left [] = Inl IndexPanic"
| "expr_loop F (Suc k) left (t # ts) =
     (case add_op t of
        Some bop \<Rightarrow> rbind (parseTerm F k ts) (\<lambda>(r, ts). expr_loop F k (BinNode bop left r) ts)
      | None \<Rightarrow> Inr (left, t # ts))"
| "parseTerm F 0 ts = Inl OutOfFuel"
| "parseTerm F (Suc k) ts = rbind (parseFactor F k ts) (\<lambda>(left, ts). term_loop F k left ts)"
| "term_loop F 0 left ts = Inl OutOfFuel"
| "term_loop F (Suc k) left [] = Inl IndexPanic"
| "term_loop F (Suc k) left (t # ts) =
     (case mul_op t of
        Some bop \<Rightarrow> rbind (parseFactor F k ts) (\<lambda>(r, ts). term_loop F k (BinNode bop left r) ts)
      | None \<Rightarrow> Inr (left, t # ts))"
| "parseFactor F 0 ts = Inl OutOfFuel"
| "parseFactor F (Suc k) [] = Inl IndexPanic"
| "parseFactor F (Suc k) (t # ts) =
     (case t of
        TkNumber s \<Rightarrow> Inr (NumNode (fst (fl_ParseFloat F s)) s, ts)
      | TkIdent s \<Rightarrow> Inr (IdentNode s, ts)
      | TkLParen \<Rightarrow>
          rbind (parseExpr F k ts) (\<lambda>(inner, ts).
            case ts of
              [] \<Rightarrow> Inl IndexPanic
            | t # ts \<Rightarrow> if t = TkRParen then Inr (inner, ts) else Inl ExpectedRParen)
      | TkMinus \<Rightarrow> rbind (parseFactor F k ts) (\<lambda>(child, ts). Inr (UnaryNode UMinus child, ts))
      | TkPlus \<Rightarrow> rbind (parseFactor F k ts) (\<lambda>(child, ts). Inr (UnaryNode UPlus child, ts))
      | _ \<Rightarrow> Inl (UnexpectedToken (tok_text t)))"

fun collectIdents :: "'f node \<Rightarrow> string list \<Rightarrow> string list" where
  "collectIdents (NumNode v s) acc = acc"
| "collectIdents (IdentNode s) acc = acc @ [s]"
| "collectIdents (UnaryNode u n) acc = collectIdents n acc"
| "collectIdents (BinNode b l r) acc = collectIdents r (collectIdents l acc)"

definition parse_fuel :: "token list \<Rightarrow> nat" where
  "parse_fuel ts = 4 * length ts + 4"

definition parseArith :: "'f floats \<Rightarrow> string \<Rightarrow> (expr_error, 'f node \<times> string list) result" where
  "parseArith F src =
     rbind (lexArith F src) (\<lambda>toks.
       if length toks = 1 then Inl EmptyExpression
       else rbind (parseExpr F (parse_fuel toks) toks) (\<lambda>(n, ts).
         case ts of
           [] \<Rightarrow> Inl IndexPanic
         | t # _ \<Rightarrow> if t \<noteq> TkEOF then Inl (UnexpectedToken (tok_text t)) else Inr (n, collectIdents n [])))"

section \<open>Evaluation, rendering and validation\<close>

fun evalNode :: "'f floats \<Rightarrow> (string \<Rightarrow> 'f option) \<Rightarrow> 'f node \<Rightarrow> 'f" where
  "evalNode F env (NumNode v s) = v"
| "evalNode F env (IdentNode s) = (case env s of Some v \<Rightarrow> v | None \<Rightarrow> fl_of_int F 0)"
| "evalNode F env (UnaryNode u n) = (case u of UMinus \<Rightarrow> fl_neg F (evalNode F env n) | UPlus \<Rightarrow> evalNode F env n)"
| "evalNode F env (BinNode b l r) =
     (let x = evalNode F env l; y = evalNode F env r in
      case b of
        BPlus \<Rightarrow> fl_add F x y
      | BMinus \<Rightarrow> fl_sub F x y
      | BStar \<Rightarrow> fl_mul F x y
      | BSlash \<Rightarrow> if fl_eq F y (fl_of_int F 0) then fl_of_int F 0 else fl_div F x y)"

definition Eval :: "'f floats \<Rightarrow> string \<Rightarrow> (string \<Rightarrow> 'f option) \<Rightarrow> (expr_error, 'f) result" where
  "Eval F src env = rbind (parseArith F src) (\<lambda>(n, _). Inr (evalNode F env n))"

fun unop_text :: "unop \<Rightarrow> string" where
  "unop_text UMinus = ''-''" | "unop_text UPlus = ''+''"

fun binop_text :: "binop \<Rightarrow> string" where
  "binop_text BPlus = ''+''" | "binop_text BMinus = ''-''" | "binop_text BStar = ''*''" | "binop_text BSlash = ''/''"

fun renderNode :: "'f floats \<Rightarrow> 'f node \<Rightarrow> string" where
  "renderNode F (NumNode v s) = (if s \<noteq> [] then s else fl_FormatFloat F v)"
| "renderNode F (IdentNode s) = [CHR 0x22] @ s @ [CHR 0x22]"
| "renderNode F (UnaryNode u n) = unop_text u @ ''('' @ renderNode F n @ '')''"
| "renderNode F (BinNode b l r) = ''('' @ renderNode F l @ '' '' @ binop_text b @ '' '' @ renderNode F r @ '')''"

definition RenderSQL :: "'f floats \<Rightarrow> string \<Rightarrow> (expr_error, string) result" where
  "RenderSQL F src = rbind (parseArith F src) (\<lambda>(n, _). Inr (renderNode F n))"

text \<open>\<^verbatim>\<open>allowed\<close> is \<open>None\<close> for the nil map.\<close>

definition Validate_expr :: "'f floats \<Rightarrow> string \<Rightarrow> string list option \<Rightarrow> expr_error option" where
  "Validate_expr F src allowed =
     (case parseArith F src of
        Inl err \<Rightarrow> Some err
      | Inr (_, idents) \<Rightarrow>
          (case allowed of
             None \<Rightarrow> None
           | Some cols \<Rightarrow>
               (let unknown = filter (\<lambda>i. i \<notin> set cols) idents in
                if unknown \<noteq> [] then Some (UnknownColumns unknown) else None)))"

definition Idents :: "'f floats \<Rightarrow> string \<Rightarrow> (expr_error, string list) result" where
  "Idents F src = rbind (parseArith F src) (\<lambda>(_, ids). Inr ids)"

text \<open>A value of an input or row map. A \<^verbatim>\<open>float32\<close> is the float it widens to.\<close>

datatype 'f goval = GoFloat 'f | GoInt int | GoBool bool | GoString string | GoOther

definition ToFloat :: "'f floats \<Rightarrow> 'f goval \<Rightarrow> 'f" where
  "ToFloat F v =
     (case v of
        GoFloat x \<Rightarrow> x
      | GoInt n \<Rightarrow> fl_of_int F n
      | GoBool b \<Rightarrow> fl_of_int F (if b then 1 else 0)
      | GoString s \<Rightarrow> (let (f, err) = fl_ParseFloat F (TrimSpace s) in if err then fl_of_int F 0 else f)
      | GoOther \<Rightarrow> fl_of_int F 0)"

end
