(* ===== verification/Compute_Parse.thy ===== *)
theory Compute_Parse
  imports Compute_Model
begin

text \<open>
  The parser of the expression engine against the grammar its documentation gives: it terminates without running
  out of fuel or past the end of its tokens, and accepts exactly the sentences of the grammar, with the tree the
  grammar gives them.
\<close>

section \<open>The grammar\<close>

inductive derives_expr :: "'f floats \<Rightarrow> token list \<Rightarrow> 'f node \<Rightarrow> bool"
  and derives_term :: "'f floats \<Rightarrow> token list \<Rightarrow> 'f node \<Rightarrow> bool"
  and derives_factor :: "'f floats \<Rightarrow> token list \<Rightarrow> 'f node \<Rightarrow> bool" for F :: "'f floats" where
  expr_term: "derives_term F ts n \<Longrightarrow> derives_expr F ts n"
| expr_add: "derives_expr F ls l \<Longrightarrow> add_op t = Some bop \<Longrightarrow> derives_term F rs r \<Longrightarrow>
     derives_expr F (ls @ t # rs) (BinNode bop l r)"
| term_factor: "derives_factor F ts n \<Longrightarrow> derives_term F ts n"
| term_mul: "derives_term F ls l \<Longrightarrow> mul_op t = Some bop \<Longrightarrow> derives_factor F rs r \<Longrightarrow>
     derives_term F (ls @ t # rs) (BinNode bop l r)"
| factor_number: "derives_factor F [TkNumber s] (NumNode (fst (fl_ParseFloat F s)) s)"
| factor_ident: "derives_factor F [TkIdent s] (IdentNode s)"
| factor_paren: "derives_expr F ts n \<Longrightarrow> derives_factor F (TkLParen # ts @ [TkRParen]) n"
| factor_minus: "derives_factor F ts n \<Longrightarrow> derives_factor F (TkMinus # ts) (UnaryNode UMinus n)"
| factor_plus: "derives_factor F ts n \<Longrightarrow> derives_factor F (TkPlus # ts) (UnaryNode UPlus n)"

section \<open>Enough fuel, no panic\<close>

definition eof_ended :: "token list \<Rightarrow> bool" where
  "eof_ended ts \<longleftrightarrow> ts \<noteq> [] \<and> last ts = TkEOF"

definition proper :: "nat \<Rightarrow> 'f parsed \<Rightarrow> bool" where
  "proper m r \<longleftrightarrow>
     (case r of
        Inl err \<Rightarrow> err \<noteq> OutOfFuel \<and> err \<noteq> IndexPanic
      | Inr (n, rest) \<Rightarrow> eof_ended rest \<and> length rest \<le> m)"

lemma eof_ended_Cons: "eof_ended (t # ts) \<Longrightarrow> t \<noteq> TkEOF \<Longrightarrow> eof_ended ts"
  by (auto simp: eof_ended_def split: if_splits)

lemma eof_ended_simps [simp]: "\<not> eof_ended []" "t \<noteq> TkEOF \<Longrightarrow> eof_ended (t # ts) = eof_ended ts"
  by (auto simp: eof_ended_def)

lemma op_not_eof [simp]: "add_op t = Some b \<Longrightarrow> t \<noteq> TkEOF" "mul_op t = Some b \<Longrightarrow> t \<noteq> TkEOF"
  by auto

lemma proper_Inr [simp]: "proper m (Inr (n, rest)) \<longleftrightarrow> eof_ended rest \<and> length rest \<le> m"
  by (simp add: proper_def)

lemma proper_Inl [simp]: "proper m (Inl err) \<longleftrightarrow> err \<noteq> OutOfFuel \<and> err \<noteq> IndexPanic"
  by (simp add: proper_def)

lemma proper_mono: "m \<le> m' \<Longrightarrow> proper m r \<Longrightarrow> proper m' r"
  by (auto simp: proper_def split: sum.splits)

lemma proper_rbind:
  assumes "proper m r" and "\<And>n rest. eof_ended rest \<Longrightarrow> length rest \<le> m \<Longrightarrow> proper m' (f (n, rest))"
  shows "proper m' (rbind r f)"
  using assms by (cases r) auto

lemma parser_proper:
  shows "eof_ended ts \<Longrightarrow> 4 * length ts + 3 \<le> k \<Longrightarrow> proper (length ts - 1) (parseExpr F k ts)"
    and "eof_ended ts \<Longrightarrow> 4 * length ts + 1 \<le> k \<Longrightarrow> proper (length ts) (expr_loop F k left ts)"
    and "eof_ended ts \<Longrightarrow> 4 * length ts + 2 \<le> k \<Longrightarrow> proper (length ts - 1) (parseTerm F k ts)"
    and "eof_ended ts \<Longrightarrow> 4 * length ts + 1 \<le> k \<Longrightarrow> proper (length ts) (term_loop F k left ts)"
    and "eof_ended ts \<Longrightarrow> 4 * length ts + 1 \<le> k \<Longrightarrow> proper (length ts - 1) (parseFactor F k ts)"
proof (induction k arbitrary: ts left)
  case (Suc k)
  note IH = Suc.IH
  {
    case 1
    have "proper (length ts - 1) (expr_loop F k n rest)" if "eof_ended rest" "length rest \<le> length ts - 1" for n rest
      by (intro proper_mono[OF that(2)] IH(2)) (use that 1 in linarith)+
    then show ?case using IH(3)[of ts] 1 by (auto intro!: proper_rbind[of "length ts - 1"])
  next
    case 2
    then obtain t us where ts: "ts = t # us" by (cases ts) (auto simp: eof_ended_def)
    show ?case
    proof (cases "add_op t")
      case None
      then show ?thesis using 2 by (simp add: ts)
    next
      case (Some bop)
      then have us: "eof_ended us" using 2(1) eof_ended_Cons unfolding ts by (metis op_not_eof(1))
      have "proper (length ts) (expr_loop F k n rest)" if "eof_ended rest" "length rest \<le> length us - 1" for n rest
        by (intro proper_mono[of "length rest" "length ts"] IH(2)) (use that 2 in \<open>simp_all add: ts\<close>)
      then show ?thesis using IH(3)[of us] us 2 Some by (auto simp: ts intro!: proper_rbind[of "length us - 1"])
    qed
  next
    case 3
    have "proper (length ts - 1) (term_loop F k n rest)" if "eof_ended rest" "length rest \<le> length ts - 1" for n rest
      by (intro proper_mono[OF that(2)] IH(4)) (use that 3 in linarith)+
    then show ?case using IH(5)[of ts] 3 by (auto intro!: proper_rbind[of "length ts - 1"])
  next
    case 4
    then obtain t us where ts: "ts = t # us" by (cases ts) (auto simp: eof_ended_def)
    show ?case
    proof (cases "mul_op t")
      case None
      then show ?thesis using 4 by (simp add: ts)
    next
      case (Some bop)
      then have us: "eof_ended us" using 4(1) eof_ended_Cons unfolding ts by (metis op_not_eof(2))
      have "proper (length ts) (term_loop F k n rest)" if "eof_ended rest" "length rest \<le> length us - 1" for n rest
        by (intro proper_mono[of "length rest" "length ts"] IH(4)) (use that 4 in \<open>simp_all add: ts\<close>)
      then show ?thesis using IH(5)[of us] us 4 Some by (auto simp: ts intro!: proper_rbind[of "length us - 1"])
    qed
  next
    case 5
    then obtain t us where ts: "ts = t # us" by (cases ts) (auto simp: eof_ended_def)
    have us: "eof_ended us" if "t \<noteq> TkEOF" using 5(1) that eof_ended_Cons unfolding ts by blast
    have len: "length us - 1 \<le> length ts - 1" by (simp add: ts)
    have sub: "t \<noteq> TkEOF \<Longrightarrow> proper (length us - 1) (parseFactor F k us)"
      "t \<noteq> TkEOF \<Longrightarrow> proper (length us - 1) (parseExpr F k us)"
      using IH(5)[of us] IH(1)[of us] us 5(2) by (simp_all add: ts)
    show ?case
      using sub us
      by (cases t; (auto simp: ts split: list.splits intro!: proper_rbind[of "length us - 1"]; linarith))
  }
qed auto

section \<open>Every accepted text is a sentence\<close>

lemma parser_sound:
  shows "parseExpr F k ts = Inr (n, rest) \<Longrightarrow> \<exists>pre. ts = pre @ rest \<and> derives_expr F pre n"
    and "expr_loop F k left ts = Inr (n, rest) \<Longrightarrow> derives_expr F pre left \<Longrightarrow>
           \<exists>more. ts = more @ rest \<and> derives_expr F (pre @ more) n"
    and "parseTerm F k ts = Inr (n, rest) \<Longrightarrow> \<exists>pre. ts = pre @ rest \<and> derives_term F pre n"
    and "term_loop F k left ts = Inr (n, rest) \<Longrightarrow> derives_term F pre left \<Longrightarrow>
           \<exists>more. ts = more @ rest \<and> derives_term F (pre @ more) n"
    and "parseFactor F k ts = Inr (n, rest) \<Longrightarrow> \<exists>pre. ts = pre @ rest \<and> derives_factor F pre n"
proof (induction k arbitrary: ts left n rest pre)
  case (Suc k)
  note IH = Suc.IH
  {
    case 1
    then obtain l us where "parseTerm F k ts = Inr (l, us)" "expr_loop F k l us = Inr (n, rest)" by (auto elim!: rbindE)
    then show ?case using IH(3)[of ts l us] IH(2)[of l us n rest] by (metis append.assoc expr_term)
  next
    case (2 ts left n rest pre)
    then obtain t us where ts: "ts = t # us" by (cases ts) auto
    show ?case
    proof (cases "add_op t")
      case None
      then show ?thesis using 2 by (intro exI[of _ "[]"]) (simp add: ts)
    next
      case (Some bop)
      with 2(1) obtain r vs where "parseTerm F k us = Inr (r, vs)" "expr_loop F k (BinNode bop left r) vs = Inr (n, rest)"
        by (auto simp: ts elim!: rbindE)
      moreover then obtain rs where rs: "us = rs @ vs" "derives_term F rs r" using IH(3) by blast
      moreover have "derives_expr F (pre @ t # rs) (BinNode bop left r)" using 2(2) Some rs(2) by (rule expr_add)
      ultimately obtain more where "vs = more @ rest" "derives_expr F ((pre @ t # rs) @ more) n" using IH(2) by blast
      with rs show ?thesis by (intro exI[of _ "t # rs @ more"]) (simp add: ts)
    qed
  next
    case 3
    then obtain l us where "parseFactor F k ts = Inr (l, us)" "term_loop F k l us = Inr (n, rest)" by (auto elim!: rbindE)
    then show ?case using IH(5)[of ts l us] IH(4)[of l us n rest] by (metis append.assoc term_factor)
  next
    case (4 ts left n rest pre)
    then obtain t us where ts: "ts = t # us" by (cases ts) auto
    show ?case
    proof (cases "mul_op t")
      case None
      then show ?thesis using 4 by (intro exI[of _ "[]"]) (simp add: ts)
    next
      case (Some bop)
      with 4(1) obtain r vs where "parseFactor F k us = Inr (r, vs)" "term_loop F k (BinNode bop left r) vs = Inr (n, rest)"
        by (auto simp: ts elim!: rbindE)
      moreover then obtain rs where rs: "us = rs @ vs" "derives_factor F rs r" using IH(5) by blast
      moreover have "derives_term F (pre @ t # rs) (BinNode bop left r)" using 4(2) Some rs(2) by (rule term_mul)
      ultimately obtain more where "vs = more @ rest" "derives_term F ((pre @ t # rs) @ more) n" using IH(4) by blast
      with rs show ?thesis by (intro exI[of _ "t # rs @ more"]) (simp add: ts)
    qed
  next
    case 5
    then obtain t us where ts: "ts = t # us" by (cases ts) auto
    consider (number) s where "t = TkNumber s" "n = NumNode (fst (fl_ParseFloat F s)) s" "us = rest"
      | (ident) s where "t = TkIdent s" "n = IdentNode s" "us = rest"
      | (paren) "t = TkLParen" "parseExpr F k us = Inr (n, TkRParen # rest)"
      | (minus) m where "t = TkMinus" "parseFactor F k us = Inr (m, rest)" "n = UnaryNode UMinus m"
      | (plus) m where "t = TkPlus" "parseFactor F k us = Inr (m, rest)" "n = UnaryNode UPlus m"
      using 5 by (cases t) (auto simp: ts elim!: rbindE split: list.splits if_splits)
    then show ?case
    proof cases
      case number
      then show ?thesis using factor_number by (intro exI[of _ "[t]"]) (simp add: ts)
    next
      case ident
      then show ?thesis using factor_ident by (intro exI[of _ "[t]"]) (simp add: ts)
    next
      case paren
      then obtain pre where "us = pre @ TkRParen # rest" "derives_expr F pre n" using IH(1) by blast
      then show ?thesis using paren factor_paren by (intro exI[of _ "TkLParen # pre @ [TkRParen]"]) (simp add: ts)
    next
      case minus
      then obtain pre where "us = pre @ rest" "derives_factor F pre m" using IH(5) by blast
      then show ?thesis using minus factor_minus by (intro exI[of _ "TkMinus # pre"]) (simp add: ts)
    next
      case plus
      then obtain pre where "us = pre @ rest" "derives_factor F pre m" using IH(5) by blast
      then show ?thesis using plus factor_plus by (intro exI[of _ "TkPlus # pre"]) (simp add: ts)
    qed
  }
qed auto

section \<open>Every sentence is accepted\<close>

text \<open>More fuel does not change a result that did not run out of it.\<close>

lemma rbind_out_of_fuel: "rbind r f \<noteq> Inl OutOfFuel \<Longrightarrow> r \<noteq> Inl OutOfFuel"
  by auto

lemma fuel_mono:
  shows "parseExpr F k ts \<noteq> Inl OutOfFuel \<Longrightarrow> parseExpr F (Suc k) ts = parseExpr F k ts"
    and "expr_loop F k left ts \<noteq> Inl OutOfFuel \<Longrightarrow> expr_loop F (Suc k) left ts = expr_loop F k left ts"
    and "parseTerm F k ts \<noteq> Inl OutOfFuel \<Longrightarrow> parseTerm F (Suc k) ts = parseTerm F k ts"
    and "term_loop F k left ts \<noteq> Inl OutOfFuel \<Longrightarrow> term_loop F (Suc k) left ts = term_loop F k left ts"
    and "parseFactor F k ts \<noteq> Inl OutOfFuel \<Longrightarrow> parseFactor F (Suc k) ts = parseFactor F k ts"
proof (induction k arbitrary: ts left)
  case (Suc k)
  note IH = Suc.IH
  have bind: "rbind r' f' = rbind r f"
    if "rbind r f \<noteq> Inl OutOfFuel" "r \<noteq> Inl OutOfFuel \<Longrightarrow> r' = r" "\<And>x. r = Inr x \<Longrightarrow> f x \<noteq> Inl OutOfFuel \<Longrightarrow> f' x = f x"
    for r r' :: "'b parsed" and f f' :: "'b node \<times> token list \<Rightarrow> 'b parsed"
    using that by (cases r) auto
  {
    case 1
    then show ?case using IH(2,3) by (simp only: parseExpr.simps(2)) (rule bind, auto)
  next
    case 2
    then show ?case using IH(2,3) by (cases ts) (auto split: option.splits intro!: bind)
  next
    case 3
    then show ?case using IH(4,5) by (simp only: parseTerm.simps(2)) (rule bind, auto)
  next
    case 4
    then show ?case using IH(4,5) by (cases ts) (auto split: option.splits intro!: bind)
  next
    case 5
    then show ?case using IH(1,5) by (cases ts) (auto split: token.splits intro!: bind)
  }
qed simp_all

lemma fuel_chain:
  assumes "\<And>k. g k \<noteq> out \<Longrightarrow> g (Suc k) = g k" and "g k \<noteq> out" and "k \<le> k'"
  shows "g k' = g k"
  using assms(3)
proof (induction k' rule: dec_induct)
  case (step m)
  then show ?case using assms(1)[of m] assms(2) by simp
qed simp

lemma fuel_le:
  "parseExpr F k ts \<noteq> Inl OutOfFuel \<Longrightarrow> k \<le> k' \<Longrightarrow> parseExpr F k' ts = parseExpr F k ts"
  "expr_loop F k left ts \<noteq> Inl OutOfFuel \<Longrightarrow> k \<le> k' \<Longrightarrow> expr_loop F k' left ts = expr_loop F k left ts"
  "parseTerm F k ts \<noteq> Inl OutOfFuel \<Longrightarrow> k \<le> k' \<Longrightarrow> parseTerm F k' ts = parseTerm F k ts"
  "term_loop F k left ts \<noteq> Inl OutOfFuel \<Longrightarrow> k \<le> k' \<Longrightarrow> term_loop F k' left ts = term_loop F k left ts"
  "parseFactor F k ts \<noteq> Inl OutOfFuel \<Longrightarrow> k \<le> k' \<Longrightarrow> parseFactor F k' ts = parseFactor F k ts"
  by (rule fuel_chain; (rule fuel_mono)?; assumption)+

text \<open>Fuel is a detail of the model: \<open>X_to F ts res\<close> says that the procedure returns \<open>res\<close> with enough of it.\<close>

definition expr_to where "expr_to F ts res \<longleftrightarrow> (\<exists>k. parseExpr F k ts = Inr res)"
definition loop_to where "loop_to F l ts res \<longleftrightarrow> (\<exists>k. expr_loop F k l ts = Inr res)"
definition term_to where "term_to F ts res \<longleftrightarrow> (\<exists>k. parseTerm F k ts = Inr res)"
definition tloop_to where "tloop_to F l ts res \<longleftrightarrow> (\<exists>k. term_loop F k l ts = Inr res)"
definition factor_to where "factor_to F ts res \<longleftrightarrow> (\<exists>k. parseFactor F k ts = Inr res)"

lemma expr_toI: "term_to F ts (l, us) \<Longrightarrow> loop_to F l us res \<Longrightarrow> expr_to F ts res"
proof -
  assume "term_to F ts (l, us)" "loop_to F l us res"
  then obtain k k' where "parseTerm F k ts = Inr (l, us)" "expr_loop F k' l us = Inr res"
    by (auto simp: term_to_def loop_to_def)
  then have "parseExpr F (Suc (max k k')) ts = Inr res"
    using fuel_le(3)[of F k ts "max k k'"] fuel_le(2)[of F k' l us "max k k'"] by simp
  then show ?thesis unfolding expr_to_def by blast
qed

lemma term_toI: "factor_to F ts (l, us) \<Longrightarrow> tloop_to F l us res \<Longrightarrow> term_to F ts res"
proof -
  assume "factor_to F ts (l, us)" "tloop_to F l us res"
  then obtain k k' where "parseFactor F k ts = Inr (l, us)" "term_loop F k' l us = Inr res"
    by (auto simp: factor_to_def tloop_to_def)
  then have "parseTerm F (Suc (max k k')) ts = Inr res"
    using fuel_le(5)[of F k ts "max k k'"] fuel_le(4)[of F k' l us "max k k'"] by simp
  then show ?thesis unfolding term_to_def by blast
qed

lemma loop_toI:
  assumes "add_op t = Some bop" and "term_to F ts (r, us)" and "loop_to F (BinNode bop l r) us res"
  shows "loop_to F l (t # ts) res"
proof -
  obtain k k' where "parseTerm F k ts = Inr (r, us)" "expr_loop F k' (BinNode bop l r) us = Inr res"
    using assms by (auto simp: term_to_def loop_to_def)
  then have "expr_loop F (Suc (max k k')) l (t # ts) = Inr res"
    using assms(1) fuel_le(3)[of F k ts "max k k'"] fuel_le(2)[of F k' "BinNode bop l r" us "max k k'"] by simp
  then show ?thesis unfolding loop_to_def by blast
qed

lemma tloop_toI:
  assumes "mul_op t = Some bop" and "factor_to F ts (r, us)" and "tloop_to F (BinNode bop l r) us res"
  shows "tloop_to F l (t # ts) res"
proof -
  obtain k k' where "parseFactor F k ts = Inr (r, us)" "term_loop F k' (BinNode bop l r) us = Inr res"
    using assms by (auto simp: factor_to_def tloop_to_def)
  then have "term_loop F (Suc (max k k')) l (t # ts) = Inr res"
    using assms(1) fuel_le(5)[of F k ts "max k k'"] fuel_le(4)[of F k' "BinNode bop l r" us "max k k'"] by simp
  then show ?thesis unfolding tloop_to_def by blast
qed

lemma loop_end: "add_op t = None \<Longrightarrow> loop_to F l (t # ts) (l, t # ts)"
  unfolding loop_to_def by (intro exI[of _ 1]) simp

lemma tloop_end: "mul_op t = None \<Longrightarrow> tloop_to F l (t # ts) (l, t # ts)"
  unfolding tloop_to_def by (intro exI[of _ 1]) simp

lemma factor_steps:
  "factor_to F (TkNumber s # ts) (NumNode (fst (fl_ParseFloat F s)) s, ts)"
  "factor_to F (TkIdent s # ts) (IdentNode s, ts)"
  "expr_to F ts (n, TkRParen # us) \<Longrightarrow> factor_to F (TkLParen # ts) (n, us)"
  "factor_to F ts (n, us) \<Longrightarrow> factor_to F (TkMinus # ts) (UnaryNode UMinus n, us)"
  "factor_to F ts (n, us) \<Longrightarrow> factor_to F (TkPlus # ts) (UnaryNode UPlus n, us)"
proof -
  show "factor_to F (TkNumber s # ts) (NumNode (fst (fl_ParseFloat F s)) s, ts)" "factor_to F (TkIdent s # ts) (IdentNode s, ts)"
    unfolding factor_to_def by (intro exI[of _ 1], simp)+
  show "factor_to F (TkLParen # ts) (n, us)" if "expr_to F ts (n, TkRParen # us)"
  proof -
    from that obtain k where "parseExpr F k ts = Inr (n, TkRParen # us)" by (auto simp: expr_to_def)
    then show ?thesis unfolding factor_to_def by (intro exI[of _ "Suc k"]) simp
  qed
  show "factor_to F (TkMinus # ts) (UnaryNode UMinus n, us)" "factor_to F (TkPlus # ts) (UnaryNode UPlus n, us)"
    if "factor_to F ts (n, us)"
  proof -
    from that obtain k where "parseFactor F k ts = Inr (n, us)" by (auto simp: factor_to_def)
    then show "factor_to F (TkMinus # ts) (UnaryNode UMinus n, us)" "factor_to F (TkPlus # ts) (UnaryNode UPlus n, us)"
      unfolding factor_to_def by (intro exI[of _ "Suc k"], simp)+
  qed
qed

lemma add_not_mul: "add_op t = Some bop \<Longrightarrow> mul_op t = None"
  by (cases t) auto

lemma parser_complete:
  shows "derives_expr F pre n \<Longrightarrow> mul_op t = None \<Longrightarrow> loop_to F n (t # rest) res \<Longrightarrow> expr_to F (pre @ t # rest) res"
    and "derives_term F pre n \<Longrightarrow> tloop_to F n rest res \<Longrightarrow> term_to F (pre @ rest) res"
    and "derives_factor F pre n \<Longrightarrow> factor_to F (pre @ rest) (n, rest)"
proof (induction arbitrary: t rest res and rest res and rest rule: derives_expr_derives_term_derives_factor.inducts)
  case (expr_term ts n)
  then show ?case using tloop_end by (blast intro: expr_toI)
next
  case (expr_add ls l top bop rs r)
  have "term_to F (rs @ t # rest) (r, t # rest)" using expr_add tloop_end by blast
  then have "loop_to F l (top # rs @ t # rest) res" using expr_add loop_toI by blast
  moreover have "mul_op top = None" using expr_add add_not_mul by blast
  ultimately have "expr_to F (ls @ top # rs @ t # rest) res" using expr_add by blast
  then show ?case by simp
next
  case (term_factor ts n)
  then show ?case by (blast intro: term_toI)
next
  case (term_mul ls l top bop rs r)
  have "tloop_to F l (top # rs @ rest) res" using term_mul tloop_toI by blast
  then have "term_to F (ls @ top # rs @ rest) res" using term_mul by blast
  then show ?case by simp
next
  case (factor_paren ts n)
  have "expr_to F (ts @ TkRParen # rest) (n, TkRParen # rest)"
    using factor_paren(2)[of TkRParen rest] loop_end[of TkRParen F n rest] by simp
  then show ?case using factor_steps(3) by simp
qed (simp_all add: factor_steps)

section \<open>Tokens of the lexer\<close>

definition number_ok :: "'f floats \<Rightarrow> string \<Rightarrow> bool" where
  "number_ok F s \<longleftrightarrow> s \<noteq> [] \<and> s \<noteq> ''.'' \<and> number_span False s = (s, []) \<and> \<not> snd (fl_ParseFloat F s)"

fun token_ok :: "'f floats \<Rightarrow> token \<Rightarrow> bool" where
  "token_ok F (TkNumber s) = number_ok F s"
| "token_ok F (TkIdent s) = IdentRe s"
| "token_ok F TkEOF = False"
| "token_ok F _ = True"

lemma number_span_again: "number_span b s = (n, r) \<Longrightarrow> number_span b n = (n, [])"
  by (induction b s arbitrary: n r rule: number_span.induct) (auto split: if_splits prod.splits)

lemma op_token_ok: "op_token c = Some t \<Longrightarrow> token_ok F t"
  by (auto split: if_splits)

text \<open>The shapes of a text the lexer accepts, as an induction rule.\<close>

lemma lex_induct [consumes 1, case_names nil blank oper number ident]:
  assumes "lexArith F s = Inr toks"
    and nil: "P [] [TkEOF]"
    and blank: "\<And>c cs ts. is_blank c \<Longrightarrow> lexArith F cs = Inr ts \<Longrightarrow> P cs ts \<Longrightarrow> P (c # cs) ts"
    and oper: "\<And>c cs t ts. op_token c = Some t \<Longrightarrow> lexArith F cs = Inr ts \<Longrightarrow> P cs ts \<Longrightarrow> P (c # cs) (t # ts)"
    and number: "\<And>num rest ts. number_ok F num \<Longrightarrow> lexArith F rest = Inr ts \<Longrightarrow> P rest ts \<Longrightarrow> P (num @ rest) (TkNumber num # ts)"
    and ident: "\<And>w rest ts. IdentRe w \<Longrightarrow> lexArith F rest = Inr ts \<Longrightarrow> P rest ts \<Longrightarrow> P (w @ rest) (TkIdent w # ts)"
  shows "P s toks"
  using assms(1) number ident blank oper nil
proof (induction F s arbitrary: toks rule: lexArith.induct)
  case (1 F)
  then show ?case by (simp add: lexArith.simps)
next
  case (2 F c cs)
  note number = 2(6) and ident = 2(7) and blank = 2(8) and oper = 2(9) and rules = 2(6-10)
  show ?case
  proof (cases "is_blank c")
    case True
    then have "lexArith F cs = Inr toks" using 2(5) by (simp add: lexArith.simps)
    then show ?thesis using 2(1)[OF True _ rules] blank True by blast
  next
    case nb: False
    show ?thesis
    proof (cases "op_token c")
      case (Some t)
      with nb 2(5) obtain ts where "lexArith F cs = Inr ts" "toks = t # ts" by (auto simp: lexArith.simps elim!: rbindE)
      then show ?thesis using 2(4)[OF nb Some _ rules] oper[OF Some] by blast
    next
      case no: None
      show ?thesis
      proof (cases "is_digit c \<or> c = CHR ''.''")
        case True
        obtain num rest where ns: "number_span False (c # cs) = (num, rest)" by (metis surj_pair)
        have "num \<noteq> []" using True ns by (auto split: if_splits prod.splits)
        moreover from nb no True ns 2(5) obtain ts where
          t: "num \<noteq> ''.''" "\<not> snd (fl_ParseFloat F num)" "lexArith F rest = Inr ts" "toks = TkNumber num # ts"
          by (auto simp: lexArith.simps simp del: number_span.simps op_token.simps elim!: rbindE split: if_splits)
        ultimately have "number_ok F num" using number_span_again[OF ns] by (simp add: number_ok_def)
        from number[OF this t(3)] 2(2)[OF nb no True refl ns[symmetric] t(1,2,3) rules] t(4) number_span_append[OF ns]
        show ?thesis by simp
      next
        case nd: False
        with nb no 2(5) obtain ts where t: "is_alpha c" "lexArith F (dropWhile is_word cs) = Inr ts"
          "toks = TkIdent (c # takeWhile is_word cs) # ts"
          by (auto simp: lexArith.simps simp del: op_token.simps elim!: rbindE split: if_splits)
        have "IdentRe (c # takeWhile is_word cs)" using t(1) by (auto simp: IdentRe_def list_all_iff dest: set_takeWhileD)
        from ident[OF this t(2) 2(3)[OF nb no nd t(1,2) rules]] t(3) show ?thesis by simp
      qed
    qed
  qed
qed

lemma lex_tokens: "lexArith F s = Inr toks \<Longrightarrow> \<exists>ts. toks = ts @ [TkEOF] \<and> list_all (token_ok F) ts"
proof (induction rule: lex_induct)
  case (oper c cs t ts)
  then show ?case using op_token_ok[of c t F] by (metis append_Cons list.pred_inject(2))
qed (fastforce intro: exI[of _ "_ # _"])+

end
