(* ===== verification/Compute_Properties.thy ===== *)
theory Compute_Properties
  imports Compute_Parse
begin

text \<open>
  What the expression engine guarantees: the parser decides the documented grammar and always terminates, the SQL
  it renders contains nothing but numbers, operators and quoted column names and means the same expression, and
  evaluation, rendering, validation and the list of identifiers agree with each other.
\<close>

section \<open>The parser and the grammar\<close>

lemma lex_error: "lexArith F s = Inl err \<Longrightarrow> err \<noteq> OutOfFuel \<and> err \<noteq> IndexPanic"
proof (induction F s rule: lexArith.induct)
  case (2 F c cs)
  have rb: "err \<noteq> OutOfFuel \<and> err \<noteq> IndexPanic"
    if "rbind r (\<lambda>ts. Inr (t # ts)) = Inl err" "r = Inl err \<Longrightarrow> err \<noteq> OutOfFuel \<and> err \<noteq> IndexPanic"
    for r :: "(expr_error, token list) result" and t :: token
    using that by (cases r) auto
  show ?case
  proof (cases "is_blank c")
    case True
    with 2 show ?thesis by (simp add: lexArith.simps)
  next
    case nb: False
    show ?thesis
    proof (cases "op_token c")
      case (Some t)
      with nb 2(5) have "rbind (lexArith F cs) (\<lambda>ts. Inr (t # ts)) = Inl err"
        by (simp add: lexArith.simps del: op_token.simps)
      from rb[OF this] 2(4)[OF nb Some] show ?thesis by blast
    next
      case no: None
      show ?thesis
      proof (cases "is_digit c \<or> c = CHR ''.''")
        case True
        obtain num rest where ns: "number_span False (c # cs) = (num, rest)" by (metis surj_pair)
        show ?thesis
        proof (cases "num = ''.'' \<or> snd (fl_ParseFloat F num)")
          case bad: True
          then have "err = InvalidNumber num" using nb no True ns 2(5)
            by (auto simp: lexArith.simps simp del: number_span.simps op_token.simps split: if_splits)
          then show ?thesis by simp
        next
          case good: False
          then have "rbind (lexArith F rest) (\<lambda>ts. Inr (TkNumber num # ts)) = Inl err" using nb no True ns 2(5)
            by (simp add: lexArith.simps del: number_span.simps op_token.simps)
          from rb[OF this] 2(2)[OF nb no True refl ns[symmetric]] good show ?thesis by blast
        qed
      next
        case nd: False
        show ?thesis
        proof (cases "is_alpha c")
          case True
          with nb no nd 2(5) have "rbind (lexArith F (dropWhile is_word cs)) (\<lambda>ts. Inr (TkIdent (c # takeWhile is_word cs) # ts)) = Inl err"
            by (simp add: lexArith.simps del: op_token.simps)
          from rb[OF this] 2(3)[OF nb no nd True] show ?thesis by blast
        next
          case False
          with nb no nd 2(5) show ?thesis by (auto simp: lexArith.simps simp del: op_token.simps)
        qed
      qed
    qed
  qed
qed (simp add: lexArith.simps)

lemma lex_ends: "lexArith F s = Inr toks \<Longrightarrow> \<exists>ts. toks = ts @ [TkEOF] \<and> TkEOF \<notin> set ts"
  using lex_tokens[of F s toks] by (auto simp: list_all_iff) (metis token_ok.simps(3))

lemma lexed_proper:
  assumes "lexArith F s = Inr toks"
  shows "proper (length toks - 1) (parseExpr F (parse_fuel toks) toks)"
  using lex_ends[OF assms] by (intro parser_proper(1)) (auto simp: eof_ended_def parse_fuel_def)

lemma derives_nonempty:
  "derives_expr F ts n \<Longrightarrow> ts \<noteq> []" "derives_term F ts n \<Longrightarrow> ts \<noteq> []" "derives_factor F ts n \<Longrightarrow> ts \<noteq> []"
  by (induction rule: derives_expr_derives_term_derives_factor.inducts) auto

lemma parse_accepts:
  assumes "lexArith F src = Inr (ts @ [TkEOF])" and "derives_expr F ts n"
  shows "parseArith F src = Inr (n, collectIdents n [])"
proof -
  let ?toks = "ts @ [TkEOF]"
  have "expr_to F ?toks (n, [TkEOF])"
    using parser_complete(1)[OF assms(2), of TkEOF "[]" "(n, [TkEOF])"] loop_end[of TkEOF F n "[]"] by simp
  then obtain k where k: "parseExpr F k ?toks = Inr (n, [TkEOF])" by (auto simp: expr_to_def)
  have "parseExpr F (parse_fuel ?toks) ?toks \<noteq> Inl OutOfFuel" using lexed_proper[OF assms(1)] by auto
  then have "parseExpr F (parse_fuel ?toks) ?toks = Inr (n, [TkEOF])"
    using fuel_le(1)[of F k ?toks "max k (parse_fuel ?toks)"] fuel_le(1)[of F "parse_fuel ?toks" ?toks "max k (parse_fuel ?toks)"] k
    by simp
  then show ?thesis using assms derives_nonempty(1)[OF assms(2)] by (simp add: parseArith_def)
qed

lemma parse_rejects_nothing_else:
  assumes "parseArith F src = Inr (n, ids)"
  shows "\<exists>ts. lexArith F src = Inr (ts @ [TkEOF]) \<and> derives_expr F ts n \<and> ids = collectIdents n []"
proof -
  obtain toks rest where l: "lexArith F src = Inr toks" and p: "parseExpr F (parse_fuel toks) toks = Inr (n, TkEOF # rest)"
    and ids: "ids = collectIdents n []"
    using assms unfolding parseArith_def by (auto elim!: rbindE split: if_splits list.splits)
  obtain ts where ts: "toks = ts @ [TkEOF]" "TkEOF \<notin> set ts" using lex_ends[OF l] by blast
  obtain pre where pre: "toks = pre @ TkEOF # rest" "derives_expr F pre n" using parser_sound(1)[OF p] by blast
  have "rest = []"
  proof (rule ccontr)
    assume "rest \<noteq> []"
    then have "ts = pre @ TkEOF # butlast rest" using ts(1) pre(1) by (metis butlast.simps(2) butlast_append butlast_snoc list.distinct(1))
    with ts(2) show False by simp
  qed
  with ts pre have "ts = pre" by simp
  with pre l ts ids show ?thesis by blast
qed

text \<open>C19. The parser accepts exactly the sentences of the documented grammar, with the tree the grammar gives them:
  a text parses to a tree exactly when its tokens, up to the end mark, derive from \<^verbatim>\<open>expr\<close> with that tree, where
  products bind tighter than sums and both associate to the left.\<close>

theorem parser_decides_grammar:
  "parseArith F src = Inr (n, ids) \<longleftrightarrow>
     (\<exists>ts. lexArith F src = Inr (ts @ [TkEOF]) \<and> derives_expr F ts n \<and> ids = collectIdents n [])"
  using parse_accepts parse_rejects_nothing_else by blast

text \<open>The parser terminates on every text within the fuel it is given, which is linear in the number of tokens and
  can be raised without changing its answer, and it never reads past the end of its tokens.\<close>

theorem parser_terminates:
  "parseArith F src \<noteq> Inl OutOfFuel \<and> parseArith F src \<noteq> Inl IndexPanic \<and>
   (\<forall>toks k. lexArith F src = Inr toks \<and> parse_fuel toks \<le> k \<longrightarrow> parseExpr F k toks = parseExpr F (parse_fuel toks) toks)"
proof (cases "lexArith F src")
  case (Inl err)
  then show ?thesis using lex_error[OF Inl] by (simp add: parseArith_def)
next
  case (Inr toks)
  have pr: "proper (length toks - 1) (parseExpr F (parse_fuel toks) toks)" by (rule lexed_proper[OF Inr])
  then have "parseArith F src \<noteq> Inl OutOfFuel \<and> parseArith F src \<noteq> Inl IndexPanic"
    using Inr by (cases "parseExpr F (parse_fuel toks) toks") (auto simp: parseArith_def split: list.splits if_splits)
  moreover have "parseExpr F k toks = parseExpr F (parse_fuel toks) toks" if "parse_fuel toks \<le> k" for k
  proof -
    have "parseExpr F (parse_fuel toks) toks \<noteq> Inl OutOfFuel" using pr by (metis proper_Inl)
    then show ?thesis using that by (rule fuel_le(1))
  qed
  ultimately show ?thesis using Inr by (metis sum.inject(2))
qed

section \<open>Rendering\<close>

text \<open>Trees as the parser builds them.\<close>

fun node_ok :: "'f floats \<Rightarrow> 'f node \<Rightarrow> bool" where
  "node_ok F (NumNode v s) \<longleftrightarrow> number_ok F s \<and> v = fst (fl_ParseFloat F s)"
| "node_ok F (IdentNode s) \<longleftrightarrow> IdentRe s"
| "node_ok F (UnaryNode u n) \<longleftrightarrow> node_ok F n"
| "node_ok F (BinNode b l r) \<longleftrightarrow> node_ok F l \<and> node_ok F r"

lemma derives_ok:
  "derives_expr F ts n \<Longrightarrow> list_all (token_ok F) ts \<Longrightarrow> node_ok F n"
  "derives_term F ts n \<Longrightarrow> list_all (token_ok F) ts \<Longrightarrow> node_ok F n"
  "derives_factor F ts n \<Longrightarrow> list_all (token_ok F) ts \<Longrightarrow> node_ok F n"
  by (induction rule: derives_expr_derives_term_derives_factor.inducts) auto

lemma parse_node_ok: "parseArith F src = Inr (n, ids) \<Longrightarrow> node_ok F n"
  using parse_rejects_nothing_else[of F src n ids] derives_ok(1) lex_tokens[of F src] by fastforce

text \<open>The tokens of the rendering, and that they derive the tree.\<close>

fun unop_token :: "unop \<Rightarrow> token" where
  "unop_token UMinus = TkMinus" | "unop_token UPlus = TkPlus"

fun binop_token :: "binop \<Rightarrow> token" where
  "binop_token BPlus = TkPlus" | "binop_token BMinus = TkMinus" | "binop_token BStar = TkStar" | "binop_token BSlash = TkSlash"

fun render_tokens :: "'f node \<Rightarrow> token list" where
  "render_tokens (NumNode v s) = [TkNumber s]"
| "render_tokens (IdentNode s) = [TkIdent s]"
| "render_tokens (UnaryNode u n) = unop_token u # TkLParen # render_tokens n @ [TkRParen]"
| "render_tokens (BinNode b l r) = TkLParen # (render_tokens l @ binop_token b # render_tokens r) @ [TkRParen]"

lemma render_derives: "node_ok F n \<Longrightarrow> derives_factor F (render_tokens n) n"
proof (induction n)
  case (NumNode v s)
  then show ?case using factor_number[of F s] by simp
next
  case (IdentNode s)
  then show ?case by (simp add: factor_ident)
next
  case (UnaryNode u n)
  then have "derives_factor F (TkLParen # render_tokens n @ [TkRParen]) n" by (simp add: factor_paren expr_term term_factor)
  then show ?case by (cases u) (simp_all add: factor_minus factor_plus)
next
  case (BinNode b l r)
  then have l: "derives_factor F (render_tokens l) l" and r: "derives_factor F (render_tokens r) r" by simp_all
  have "derives_expr F (render_tokens l @ binop_token b # render_tokens r) (BinNode b l r)"
    by (cases b)
       (auto intro: expr_add[OF expr_term[OF term_factor[OF l]] _ term_factor[OF r]]
          expr_term[OF term_mul[OF term_factor[OF l] _ r]])
  then show ?case by (simp only: render_tokens.simps factor_paren)
qed

abbreviation quote_char :: char where
  "quote_char \<equiv> CHR 0x22"

definition unquote :: "string \<Rightarrow> string" where
  "unquote s = filter (\<lambda>c. c \<noteq> quote_char) s"

lemma unquote_simps [simp]:
  "unquote [] = []" "unquote (xs @ ys) = unquote xs @ unquote ys"
  "unquote (c # s) = (if c = quote_char then unquote s else c # unquote s)"
  by (simp_all add: unquote_def)

lemma word_not_quote: "is_word c \<Longrightarrow> c \<noteq> quote_char" "is_digit c \<Longrightarrow> c \<noteq> quote_char"
  by (auto simp: is_word_def is_alpha_def is_digit_def)

lemma unquote_id: "quote_char \<notin> set s \<Longrightarrow> unquote s = s"
  by (auto simp: unquote_def filter_id_conv)

text \<open>A text after which a number or identifier cannot go on.\<close>

definition boundary :: "string \<Rightarrow> bool" where
  "boundary s \<longleftrightarrow> (case s of [] \<Rightarrow> True | c # _ \<Rightarrow> \<not> is_word c \<and> c \<noteq> CHR ''.'')"

lemma number_span_boundary: "number_span b s = (s, []) \<Longrightarrow> boundary rest \<Longrightarrow> number_span b (s @ rest) = (s, rest)"
proof (induction b s rule: number_span.induct)
  case (1 b)
  then show ?case by (cases rest) (auto simp: boundary_def is_word_def)
qed (auto split: if_splits prod.splits)

lemma number_chars: "number_span b s = (s, []) \<Longrightarrow> c \<in> set s \<Longrightarrow> is_digit c \<or> c = CHR ''.''"
  by (induction b s rule: number_span.induct) (auto split: if_splits prod.splits)

lemma dot_not_special [simp]: "\<not> is_blank (CHR ''.'')" "op_token (CHR ''.'') = None"
  by (simp_all add: is_blank_def)

lemma special_chars: "is_blank c \<or> op_token c \<noteq> None \<Longrightarrow> \<not> is_word c \<and> c \<noteq> CHR ''.''"
proof -
  let ?S = "{CHR '' '', CHR 0x09, CHR 0x0A, CHR 0x0D, CHR ''+'', CHR ''-'', CHR ''*'', CHR ''/'', CHR ''('', CHR '')''}"
  have "\<not> is_blank c \<and> op_token c = None" if "c \<notin> ?S" using that by (simp add: is_blank_def)
  moreover assume "is_blank c \<or> op_token c \<noteq> None"
  ultimately have "c \<in> ?S" by blast
  then show ?thesis by (auto simp: is_word_def is_alpha_def is_digit_def)
qed

lemma word_not_special:
  "is_word c \<Longrightarrow> \<not> is_blank c" "is_word c \<Longrightarrow> op_token c = None"
  using special_chars[of c] by blast+

lemma alpha_not_digit: "is_alpha c \<Longrightarrow> \<not> is_digit c" "is_alpha c \<Longrightarrow> c \<noteq> CHR ''.''"
  by (auto simp: is_alpha_def is_digit_def)

lemma lex_number:
  assumes "number_ok F s" and "boundary rest"
  shows "lexArith F (s @ rest) = rbind (lexArith F rest) (\<lambda>ts. Inr (TkNumber s # ts))"
proof -
  obtain c cs where s: "s = c # cs" using assms(1) by (cases s) (auto simp: number_ok_def)
  have ns: "number_span False (c # (cs @ rest)) = (s, rest)"
    using number_span_boundary[of False s rest] assms by (simp add: number_ok_def s del: number_span.simps)
  have "is_digit c \<or> c = CHR ''.''" using number_chars[of False s c] assms(1) s by (simp add: number_ok_def)
  moreover from this have "\<not> is_blank c" "op_token c = None" using word_not_special[of c] by (auto simp: is_word_def)
  moreover have "c # cs \<noteq> ''.''" "\<not> snd (fl_ParseFloat F (c # cs))" using assms(1) by (simp_all add: number_ok_def s)
  ultimately show ?thesis using ns
    unfolding s append_Cons lexArith.simps(2) by (simp del: number_span.simps op_token.simps list.inject)
qed

lemma lex_ident:
  assumes "IdentRe s" and "boundary rest"
  shows "lexArith F (s @ rest) = rbind (lexArith F rest) (\<lambda>ts. Inr (TkIdent s # ts))"
proof -
  obtain c cs where s: "s = c # cs" "is_alpha c" "list_all is_word cs" using assms(1) by (cases s) (auto simp: IdentRe_def)
  have "takeWhile is_word (cs @ rest) = cs \<and> dropWhile is_word (cs @ rest) = rest"
    using s(3) assms(2) by (cases rest) (auto simp: list_all_iff boundary_def takeWhile_append dropWhile_append)
  moreover have "is_word c" using s(2) by (simp add: is_word_def)
  ultimately show ?thesis using s(1,2) alpha_not_digit[OF s(2)] word_not_special[of c]
    by (simp add: lexArith.simps del: op_token.simps)
qed

lemma lex_single:
  "lexArith F (CHR ''('' # s) = rbind (lexArith F s) (\<lambda>ts. Inr (TkLParen # ts))"
  "lexArith F (CHR '')'' # s) = rbind (lexArith F s) (\<lambda>ts. Inr (TkRParen # ts))"
  "lexArith F (CHR '' '' # s) = lexArith F s"
  by (simp_all add: lexArith.simps is_blank_def)

lemma lex_unop: "lexArith F (unop_text u @ s) = rbind (lexArith F s) (\<lambda>ts. Inr (unop_token u # ts))"
  by (cases u) (simp_all add: lexArith.simps is_blank_def)

lemma lex_binop: "lexArith F (binop_text b @ s) = rbind (lexArith F s) (\<lambda>ts. Inr (binop_token b # ts))"
  by (cases b) (simp_all add: lexArith.simps is_blank_def)

lemma boundary_simps [simp]: "boundary []" "boundary (CHR '')'' # s)" "boundary (CHR '' '' # s)"
  by (simp_all add: boundary_def is_word_def is_alpha_def is_digit_def)

lemma unquote_unop [simp]: "unquote (unop_text u) = unop_text u"
  by (cases u) simp_all

lemma unquote_binop [simp]: "unquote (binop_text b) = binop_text b"
  by (cases b) simp_all

lemma unquote_ident: "IdentRe s \<Longrightarrow> unquote ([CHR 0x22] @ s @ [CHR 0x22]) = s"
proof -
  assume "IdentRe s"
  then have "\<forall>c\<in>set s. is_word c" by (cases s) (auto simp: IdentRe_def list_all_iff is_word_def)
  then have "unquote s = s" by (intro unquote_id) (use word_not_quote in blast)
  then show ?thesis by (simp add: unquote_def)
qed

lemma unquote_number:
  assumes "number_ok F s"
  shows "unquote s = s"
proof (rule unquote_id)
  have "is_digit c \<or> c = CHR ''.''" if "c \<in> set s" for c using number_chars[of False s c] assms that by (simp add: number_ok_def)
  then show "quote_char \<notin> set s" using word_not_quote(2) by fastforce
qed

lemma rbind_assoc: "rbind (rbind r f) g = rbind r (\<lambda>x. rbind (f x) g)"
  by (cases r) simp_all

lemma lex_render:
  "node_ok F n \<Longrightarrow> boundary rest \<Longrightarrow>
   lexArith F (unquote (renderNode F n) @ rest) = rbind (lexArith F rest) (\<lambda>ts. Inr (render_tokens n @ ts))"
proof (induction n arbitrary: rest)
  case (NumNode v s)
  then show ?case using lex_number[of F s rest] unquote_number[of F s] by (simp add: number_ok_def)
next
  case (IdentNode s)
  then show ?case using lex_ident[of s rest F] unquote_ident[of s] by simp
next
  case (UnaryNode u n)
  then show ?case by (simp add: lex_single lex_unop lex_binop rbind_assoc)
next
  case (BinNode b l r)
  then show ?case by (simp add: lex_single lex_unop lex_binop rbind_assoc)
qed

text \<open>What may stand in the SQL text: digits, dots, operators, parentheses and spaces outside quotes, and between two
  quotes one identifier.\<close>

function sql_safe :: "string \<Rightarrow> bool" where
  "sql_safe [] = True"
| "sql_safe (c # cs) =
     (if c = quote_char then
        IdentRe (takeWhile is_word cs) \<and>
        (case dropWhile is_word cs of [] \<Rightarrow> False | q # rest \<Rightarrow> q = quote_char \<and> sql_safe rest)
      else (is_digit c \<or> c \<in> set ''.+-*/() '') \<and> sql_safe cs)"
  by pat_completeness auto
termination
proof (relation "measure length", goal_cases)
  case (2 c cs q rest)
  then have "length (q # rest) \<le> length cs" by (metis length_dropWhile_le)
  then show ?case by simp
qed auto

lemma sql_safe_plain: "\<forall>c\<in>set s. is_digit c \<or> c \<in> set ''.+-*/() '' \<Longrightarrow> sql_safe (s @ rest) = sql_safe rest"
proof (induction s)
  case (Cons c cs)
  then have "c \<noteq> quote_char" using word_not_quote(2)[of c] by auto
  with Cons show ?case by simp
qed simp

lemma sql_safe_ident: "IdentRe s \<Longrightarrow> sql_safe ((quote_char # s @ [quote_char]) @ rest) = sql_safe rest"
proof -
  assume s: "IdentRe s"
  then have "\<forall>c\<in>set s. is_word c" by (cases s) (auto simp: IdentRe_def list_all_iff is_word_def)
  moreover have "\<not> is_word quote_char" using word_not_quote(1) by blast
  ultimately have "takeWhile is_word (s @ quote_char # rest) = s" "dropWhile is_word (s @ quote_char # rest) = quote_char # rest"
    by (simp_all add: takeWhile_append dropWhile_append)
  with s show ?thesis by simp
qed

lemma sql_safe_render: "node_ok F n \<Longrightarrow> sql_safe (renderNode F n @ rest) = sql_safe rest"
proof (induction n arbitrary: rest)
  case (NumNode v s)
  then have "\<forall>c\<in>set s. is_digit c \<or> c \<in> set ''.+-*/() ''" using number_chars[of False s] by (auto simp: number_ok_def)
  with NumNode show ?case using sql_safe_plain[of s rest] by (simp add: number_ok_def)
next
  case (IdentNode s)
  then show ?case using sql_safe_ident[of s rest] by simp
next
  case (UnaryNode u n)
  then show ?case by (cases u) simp_all
next
  case (BinNode b l r)
  then show ?case by (cases b) simp_all
qed

text \<open>Rendering cannot inject: the SQL of an accepted expression contains, outside double quotes, only digits,
  dots, operators, parentheses and spaces, and between two quotes exactly one identifier; and it means the same
  expression, since without its quotes it parses to the same tree.\<close>

theorem rendered_sql_is_safe:
  assumes "RenderSQL F src = Inr sql"
  shows "sql_safe sql \<and> parseArith F (unquote sql) = parseArith F src"
proof -
  obtain n ids where p: "parseArith F src = Inr (n, ids)" and sql: "sql = renderNode F n"
    using assms by (auto simp: RenderSQL_def elim!: rbindE)
  have ok: "node_ok F n" using parse_node_ok[OF p] .
  have "lexArith F (unquote sql) = Inr (render_tokens n @ [TkEOF])"
    using lex_render[OF ok, of "[]"] by (simp add: sql lexArith.simps)
  then have "parseArith F (unquote sql) = Inr (n, collectIdents n [])"
    using parse_accepts expr_term[OF term_factor[OF render_derives[OF ok]]] by blast
  moreover have "ids = collectIdents n []" using parse_rejects_nothing_else[OF p] by blast
  moreover have "sql_safe sql" using sql_safe_render[OF ok, of "[]"] by (simp add: sql)
  ultimately show ?thesis using p by simp
qed

text \<open>Sample arithmetic: integers, a literal being its digits.\<close>

definition sample_floats :: "int floats" where
  "sample_floats =
     \<lparr>fl_ParseFloat = (\<lambda>s. (int (digits_val (filter is_digit s)), False)), fl_FormatFloat = (\<lambda>_. ''0''), fl_of_int = (\<lambda>n. n),
      fl_neg = uminus, fl_add = (+), fl_sub = (-), fl_mul = (*), fl_div = (div), fl_eq = (=), fl_lt = (<), fl_le = (\<le>)\<rparr>"

lemma sample_lex: "lexArith sample_floats ''a*2'' = Inr [TkIdent ''a'', TkStar, TkNumber ''2'', TkEOF]"
  by (simp add: lexArith.simps is_blank_def is_digit_def is_alpha_def is_word_def sample_floats_def)

lemma sample_parse:
  "parseArith sample_floats ''a*2'' = Inr (BinNode BStar (IdentNode ''a'') (NumNode 2 ''2''), [''a''])"
proof -
  have two: "fst (fl_ParseFloat sample_floats ''2'') = 2"
    by (simp add: sample_floats_def is_digit_def digits_val_def digit_val_def)
  have "derives_expr sample_floats ([TkIdent ''a''] @ TkStar # [TkNumber ''2'']) (BinNode BStar (IdentNode ''a'') (NumNode 2 ''2''))"
    using factor_number[of sample_floats "''2''"] unfolding two
    by (intro expr_term term_mul term_factor factor_ident) simp_all
  from parse_accepts[OF _ this, of "''a*2''"] sample_lex show ?thesis by simp
qed

theorem parser_terminates_witness:
  "parseExpr sample_floats 1000 [TkIdent ''a'', TkStar, TkNumber ''2'', TkEOF] =
   parseExpr sample_floats (parse_fuel [TkIdent ''a'', TkStar, TkNumber ''2'', TkEOF]) [TkIdent ''a'', TkStar, TkNumber ''2'', TkEOF]"
proof -
  have "parse_fuel [TkIdent ''a'', TkStar, TkNumber ''2'', TkEOF] \<le> 1000" by (simp add: parse_fuel_def)
  then show ?thesis using parser_terminates[of sample_floats "''a*2''"] sample_lex by blast
qed

theorem rendered_sql_is_safe_witness:
  "sql_safe ([CHR ''('', CHR 0x22, CHR ''a'', CHR 0x22] @ '' * 2)'')"
proof -
  have "RenderSQL sample_floats ''a*2'' = Inr ([CHR ''('', CHR 0x22, CHR ''a'', CHR 0x22] @ '' * 2)'')"
    by (simp add: RenderSQL_def sample_parse)
  from rendered_sql_is_safe[OF this] show ?thesis by blast
qed

section \<open>Evaluation and validation\<close>

lemma collectIdents_acc: "collectIdents n acc = acc @ collectIdents n []"
proof (induction n arbitrary: acc)
  case (BinNode b l r)
  have "collectIdents (BinNode b l r) acc = (acc @ collectIdents l []) @ collectIdents r []"
    using BinNode(2)[of "collectIdents l acc"] BinNode(1)[of acc] by (simp only: collectIdents.simps)
  moreover have "collectIdents (BinNode b l r) [] = collectIdents l [] @ collectIdents r []"
    using BinNode(2)[of "collectIdents l []"] by (simp only: collectIdents.simps)
  ultimately show ?case by (simp only: append_assoc)
next
  case (UnaryNode u n)
  from UnaryNode[of acc] show ?case by (simp only: collectIdents.simps)
qed simp_all

lemma collectIdents_Bin: "collectIdents (BinNode b l r) [] = collectIdents l [] @ collectIdents r []"
  using collectIdents_acc[of r "collectIdents l []"] by (simp only: collectIdents.simps)

lemma evalNode_cong: "\<forall>i\<in>set (collectIdents n []). env i = env' i \<Longrightarrow> evalNode F env n = evalNode F env' n"
proof (induction n)
  case (UnaryNode u n)
  then have "evalNode F env n = evalNode F env' n" by simp
  then show ?case by (simp only: evalNode.simps)
next
  case (BinNode b l r)
  then have "evalNode F env l = evalNode F env' l" "evalNode F env r = evalNode F env' r"
    by (simp_all add: collectIdents_Bin del: collectIdents.simps)
  then show ?case by (simp only: evalNode.simps)
qed simp_all

lemma idents_ok: "node_ok F n \<Longrightarrow> list_all IdentRe (collectIdents n [])"
proof (induction n)
  case (BinNode b l r)
  then show ?case by (simp add: collectIdents_Bin del: collectIdents.simps)
qed simp_all

text \<open>The four uses of an expression agree. A text is refused with the same error by evaluation, rendering,
  validation and the identifier list, or accepted by all; an accepted one evaluates in every environment, to a value
  that depends only on the identifiers listed, each of which is a plain column name, and it passes validation against
  a set of columns exactly when the set contains them.\<close>

theorem expression_uses_agree:
  "case parseArith F src of
     Inl err \<Rightarrow> Eval F src env = Inl err \<and> RenderSQL F src = Inl err \<and> Idents F src = Inl err \<and> Validate_expr F src allowed = Some err
   | Inr (n, ids) \<Rightarrow>
       (\<exists>v. Eval F src env = Inr v \<and> (\<forall>env'. (\<forall>i\<in>set ids. env' i = env i) \<longrightarrow> Eval F src env' = Inr v)) \<and>
       (\<exists>sql. RenderSQL F src = Inr sql) \<and> Idents F src = Inr ids \<and> list_all IdentRe ids \<and>
       Validate_expr F src None = None \<and> (Validate_expr F src (Some cols) = None \<longleftrightarrow> set ids \<subseteq> set cols)"
proof (cases "parseArith F src")
  case (Inl err)
  then show ?thesis by (simp add: Eval_def RenderSQL_def Idents_def Validate_expr_def)
next
  case (Inr r)
  obtain n ids where r: "r = (n, ids)" by (cases r)
  have p: "parseArith F src = Inr (n, ids)" using Inr r by simp
  have ids: "ids = collectIdents n []" using parse_rejects_nothing_else[OF p] by blast
  have "Eval F src env' = Inr (evalNode F env n)" if "\<forall>i\<in>set ids. env' i = env i" for env'
    using evalNode_cong[of n env' env F] that ids by (simp add: Eval_def p)
  then have "\<exists>v. Eval F src env = Inr v \<and> (\<forall>env'. (\<forall>i\<in>set ids. env' i = env i) \<longrightarrow> Eval F src env' = Inr v)" by blast
  moreover have "list_all IdentRe ids" using idents_ok[OF parse_node_ok[OF p]] ids by simp
  ultimately show ?thesis
    by (auto simp: p RenderSQL_def Idents_def Validate_expr_def Let_def filter_empty_conv)
qed

theorem expression_uses_agree_witness:
  "Eval sample_floats ''a*2'' [''a'' \<mapsto> 21] = Inr 42 \<and> Idents sample_floats ''a*2'' = Inr [''a''] \<and>
   Validate_expr sample_floats ''a*2'' (Some [''a'', ''b'']) = None"
  using expression_uses_agree[where F = sample_floats and src = "''a*2''" and env = "[''a'' \<mapsto> 21]" and cols = "[''a'', ''b'']"]
  by (simp add: sample_parse Eval_def) (simp add: sample_floats_def)

end
