(* ===== verification/Rules_Model.thy ===== *)
theory Rules_Model
  imports Compute_Properties Go_Strings "HOL-Library.List_Lexorder" "HOL-Library.Char_ord"
begin

text \<open>
  The predicates of declarative rules (\<^verbatim>\<open>src/manifest/rulesexpr/rulesexpr.go\<close>): one comparison between two
  expressions of the numeric engine, the fields it reports, and its evaluation on a record.
\<close>

datatype cmp_op = OpEq | OpNe | OpLt | OpLe | OpGt | OpGe

fun cmp_text :: "cmp_op \<Rightarrow> string" where
  "cmp_text OpEq = ''==''" | "cmp_text OpNe = ''!=''" | "cmp_text OpLt = ''<''"
| "cmp_text OpLe = ''<=''" | "cmp_text OpGt = ''>''" | "cmp_text OpGe = ''>=''"

definition orderedOps :: "cmp_op list" where
  "orderedOps = [OpEq, OpNe, OpLe, OpGe, OpLt, OpGt]"

datatype rule_error = EmptyRule | MissingOperand | OnlyOneOperator | ExpectedOperator | LeftSide expr_error | RightSide expr_error

record Rule =
  ru_src :: string
  ru_left :: string
  ru_right :: string
  ru_op :: cmp_op
  ru_fields :: "string list"

text \<open>The first operator of \<^verbatim>\<open>orderedOps\<close> a text starts with.\<close>

definition leading_op :: "string \<Rightarrow> cmp_op option" where
  "leading_op s = find (\<lambda>c. HasPrefix s (cmp_text c)) orderedOps"

text \<open>The scan of \<^verbatim>\<open>splitOnOp\<close> for the first operator outside parentheses: the text before it, the operator and the text
  after it. \<open>seen\<close> is what was scanned, in reverse.\<close>

fun find_op :: "int \<Rightarrow> string \<Rightarrow> string \<Rightarrow> (string \<times> cmp_op \<times> string) option" where
  "find_op depth seen [] = None"
| "find_op depth seen (c # cs) =
     (if c = CHR ''('' then find_op (depth + 1) (c # seen) cs
      else if c = CHR '')'' then find_op (depth - 1) (c # seen) cs
      else if depth \<noteq> 0 then find_op depth (c # seen) cs
      else case leading_op (c # cs) of
             Some bop \<Rightarrow> Some (rev seen, bop, drop (length (cmp_text bop)) (c # cs))
           | None \<Rightarrow> find_op depth (c # seen) cs)"

lemma cmp_text_pos: "0 < length (cmp_text c)"
  by (cases c) simp_all

lemma find_op_parts: "find_op depth seen s = Some (l, bop, r) \<Longrightarrow> rev seen @ s = l @ cmp_text bop @ r"
proof (induction depth seen s rule: find_op.induct)
  case (2 depth seen c cs)
  show ?case
  proof (cases "c = CHR ''('' \<or> c = CHR '')'' \<or> depth \<noteq> 0 \<or> leading_op (c # cs) = None")
    case True
    with 2 show ?thesis by (auto split: if_splits)
  next
    case False
    then obtain b where b: "leading_op (c # cs) = Some b" by auto
    then have "take (length (cmp_text b)) (c # cs) = cmp_text b"
      by (auto simp: leading_op_def HasPrefix_def dest!: find_Some_in)
    then have "c # cs = cmp_text b @ drop (length (cmp_text b)) (c # cs)" by (metis append_take_drop_id)
    moreover have "l = rev seen" "bop = b" "r = drop (length (cmp_text b)) (c # cs)" using 2(5) False b by auto
    ultimately show ?thesis by (simp del: drop_Cons)
  qed
qed simp

lemma trim_runes_length: "length (trim_runes runes s) \<le> length s"
proof (induction runes s rule: trim_runes.induct)
  case (1 runes s)
  show ?case
  proof (cases "lead_rune runes s = 0")
    case False
    with 1 have "length (trim_runes runes (drop (lead_rune runes s) s)) \<le> length s" by fastforce
    with False show ?thesis by (subst trim_runes.simps) simp
  qed (subst trim_runes.simps, simp)
qed

lemma TrimSpace_length: "length (TrimSpace s) \<le> length s"
proof -
  have "length (trim_runes (map rev space_runes) (rev (trim_runes space_runes s))) \<le> length (trim_runes space_runes s)"
    using trim_runes_length[of "map rev space_runes" "rev (trim_runes space_runes s)"] by simp
  also have "\<dots> \<le> length s" by (rule trim_runes_length)
  finally show ?thesis by (simp add: TrimSpace_def)
qed

lemma find_op_shorter:
  assumes "find_op 0 [] src = Some (l, bop, r)"
  shows "length (TrimSpace r) < length src"
proof -
  have "length src = length l + length (cmp_text bop) + length r"
    using find_op_parts[OF assms] by (metis append.simps(1) length_append rev.simps(1) add.assoc)
  then show ?thesis using cmp_text_pos[of bop] TrimSpace_length[of r] by linarith
qed

function splitOnOp :: "string \<Rightarrow> (rule_error, string \<times> cmp_op \<times> string) result" where
  "splitOnOp src =
     (case find_op 0 [] src of
        None \<Rightarrow> Inl ExpectedOperator
      | Some (l, bop, r) \<Rightarrow>
          (let left = TrimSpace l; right = TrimSpace r in
           if left = [] \<or> right = [] then Inl MissingOperand
           else case splitOnOp right of
                  Inr _ \<Rightarrow> Inl OnlyOneOperator
                | Inl _ \<Rightarrow> Inr (left, bop, right)))"
  by pat_completeness auto
termination
  by (relation "measure length") (auto dest: find_op_shorter)

declare splitOnOp.simps [simp del]

text \<open>The scan of \<^verbatim>\<open>splitIdents\<close>: \<open>cur\<close> is the builder's content.\<close>

definition run_char :: "char \<Rightarrow> bool" where
  "run_char c \<longleftrightarrow> is_word c \<or> c = CHR ''.''"

definition flush_run :: "string \<Rightarrow> string list" where
  "flush_run cur = (case cur of [] \<Rightarrow> [] | c0 # _ \<Rightarrow> if is_digit c0 then [] else [cur])"

fun splitIdents_from :: "string \<Rightarrow> string \<Rightarrow> string list" where
  "splitIdents_from cur [] = flush_run cur"
| "splitIdents_from cur (c # cs) =
     (if run_char c then splitIdents_from (cur @ [c]) cs else flush_run cur @ splitIdents_from [] cs)"

definition splitIdents :: "string \<Rightarrow> string list" where
  "splitIdents s = splitIdents_from [] s"

text \<open>\<^verbatim>\<open>sort.Strings\<close> of the set's members.\<close>

definition collectFields :: "string \<Rightarrow> string \<Rightarrow> string list" where
  "collectFields left right = sort (remdups (splitIdents left @ splitIdents right))"

definition Parse_rule :: "'f floats \<Rightarrow> string \<Rightarrow> (rule_error, Rule) result" where
  "Parse_rule F src =
     (let trimmed = TrimSpace src in
      if trimmed = [] then Inl EmptyRule
      else rbind (splitOnOp trimmed) (\<lambda>(left, bop, right).
        case Validate_expr F left None of
          Some err \<Rightarrow> Inl (LeftSide err)
        | None \<Rightarrow>
            (case Validate_expr F right None of
               Some err \<Rightarrow> Inl (RightSide err)
             | None \<Rightarrow> Inr \<lparr>ru_src = trimmed, ru_left = left, ru_right = right, ru_op = bop,
                            ru_fields = collectFields left right\<rparr>)))"

fun compare_floats :: "'f floats \<Rightarrow> cmp_op \<Rightarrow> 'f \<Rightarrow> 'f \<Rightarrow> bool" where
  "compare_floats F OpEq x y = fl_eq F x y"
| "compare_floats F OpNe x y = (\<not> fl_eq F x y)"
| "compare_floats F OpLt x y = fl_lt F x y"
| "compare_floats F OpLe x y = fl_le F x y"
| "compare_floats F OpGt x y = fl_lt F y x"
| "compare_floats F OpGe x y = fl_le F y x"

definition Eval_rule :: "'f floats \<Rightarrow> Rule \<Rightarrow> (string \<Rightarrow> 'f goval option) \<Rightarrow> (expr_error, bool) result" where
  "Eval_rule F r rcd =
     (let env = (\<lambda>k. map_option (ToFloat F) (rcd k)) in
      rbind (Eval F (ru_left r) env) (\<lambda>lv.
        rbind (Eval F (ru_right r) env) (\<lambda>rv. Inr (compare_floats F (ru_op r) lv rv))))"

end
