(* ===== verification/Rules_Properties.thy ===== *)
theory Rules_Properties
  imports Rules_Model
begin

text \<open>
  What rules guarantee: a parsed rule always evaluates, its value depends only on the fields it reports, and these
  are exactly its identifiers, except that a literal written with a leading dot is reported as a field too.
\<close>

section \<open>Runs of characters and tokens\<close>

fun operand :: "token \<Rightarrow> bool" where
  "operand (TkNumber s) = True" | "operand (TkIdent s) = True" | "operand _ = False"

fun operand_text :: "token \<Rightarrow> string list" where
  "operand_text (TkNumber s) = flush_run s" | "operand_text (TkIdent s) = [s]" | "operand_text _ = []"

fun spaced :: "token list \<Rightarrow> bool" where
  "spaced [] \<longleftrightarrow> True"
| "spaced [a] \<longleftrightarrow> True"
| "spaced (a # b # ts) \<longleftrightarrow> \<not> (operand a \<and> operand b) \<and> spaced (b # ts)"

lemma spaced_tl: "spaced (t # ts) \<Longrightarrow> spaced ts"
  by (cases ts) auto

lemma spaced_append: "\<not> operand t \<Longrightarrow> spaced (ls @ t # rs) \<longleftrightarrow> spaced ls \<and> spaced rs"
proof (induction ls rule: spaced.induct)
  case 1
  then show ?case by (cases rs) auto
next
  case (2 v)
  then show ?case by (cases rs) auto
qed auto

lemma spaced_Cons: "\<not> operand t \<Longrightarrow> spaced (t # ts) \<longleftrightarrow> spaced ts"
  using spaced_append[of t "[]" ts] by simp

lemma op_not_operand: "add_op t = Some b \<Longrightarrow> \<not> operand t" "mul_op t = Some b \<Longrightarrow> \<not> operand t"
  by (cases t; simp)+

lemma derives_spaced: "derives_expr F ts n \<Longrightarrow> spaced ts" "derives_term F ts n \<Longrightarrow> spaced ts" "derives_factor F ts n \<Longrightarrow> spaced ts"
proof (induction rule: derives_expr_derives_term_derives_factor.inducts)
  case (factor_paren ts n)
  then show ?case using spaced_append[of TkRParen ts "[]"] by (simp add: spaced_Cons)
qed (auto simp: spaced_append op_not_operand spaced_Cons)

lemma run_char_operand:
  assumes "lexArith F (c # cs) = Inr toks" and "run_char c"
  shows "operand (hd toks) \<and> toks \<noteq> []"
proof -
  have nb: "\<not> is_blank c" "op_token c = None" using assms(2) word_not_special[of c] by (auto simp: run_char_def)
  show ?thesis
  proof (cases "is_digit c \<or> c = CHR ''.''")
    case True
    with assms(1) nb show ?thesis
      by (auto simp: lexArith.simps simp del: number_span.simps op_token.simps elim!: rbindE split: if_splits prod.splits)
  next
    case False
    then have "is_alpha c" using assms(2) by (auto simp: run_char_def is_word_def)
    with assms(1) nb False show ?thesis by (auto simp: lexArith.simps simp del: op_token.simps elim!: rbindE)
  qed
qed

lemma splitIdents_run: "list_all run_char w \<Longrightarrow> splitIdents_from cur (w @ rest) = splitIdents_from (cur @ w) rest"
  by (induction w arbitrary: cur) auto

lemma splitIdents_stop:
  assumes "lexArith F rest = Inr toks" and "spaced (t # toks)" and "operand t"
  shows "splitIdents_from w rest = flush_run w @ splitIdents_from [] rest"
proof (cases rest)
  case (Cons c cs)
  have "\<not> run_char c"
  proof
    assume "run_char c"
    with run_char_operand[of F c cs toks] assms(1) Cons have "operand (hd toks)" "toks \<noteq> []" by auto
    with assms(2,3) show False by (cases toks) auto
  qed
  then show ?thesis using Cons by (simp add: flush_run_def)
qed (simp add: flush_run_def)

lemma number_runs: "number_ok F s \<Longrightarrow> list_all run_char s"
  using number_chars[of False s] by (auto simp: number_ok_def list_all_iff run_char_def is_word_def)

lemma ident_runs: "IdentRe s \<Longrightarrow> list_all run_char s"
  by (cases s) (auto simp: IdentRe_def list_all_iff run_char_def is_word_def)

lemma flush_ident: "IdentRe s \<Longrightarrow> flush_run s = [s]"
  by (cases s) (auto simp: IdentRe_def flush_run_def dest: alpha_not_digit)

lemma splitIdents_word:
  assumes "list_all run_char w" and "lexArith F rest = Inr ts" and "spaced (t # ts)" and "operand t"
  shows "splitIdents_from [] (w @ rest) = flush_run w @ splitIdents_from [] rest"
  using splitIdents_run[OF assms(1), of "[]" rest] splitIdents_stop[OF assms(2-4), of w] by (simp del: splitIdents_from.simps)

lemma splitIdents_tokens:
  "lexArith F s = Inr toks \<Longrightarrow> spaced toks \<Longrightarrow> splitIdents_from [] s = concat (map operand_text toks)"
proof (induction rule: lex_induct)
  case nil
  show ?case by (simp add: flush_run_def)
next
  case (blank c cs ts)
  then show ?case using special_chars[of c] by (auto simp: run_char_def flush_run_def)
next
  case (oper c cs t ts)
  have "\<not> run_char c" using special_chars[of c] oper(1) by (auto simp: run_char_def)
  moreover have "operand_text t = []" using oper(1) by (auto split: if_splits)
  ultimately show ?case using oper(3)[OF spaced_tl[OF oper(4)]] by (simp add: flush_run_def)
next
  case (number num rest ts)
  then show ?case using splitIdents_word[OF number_runs[OF number(1)] number(2,4)] spaced_tl[OF number(4)] by simp
next
  case (ident w rest ts)
  then show ?case
    using splitIdents_word[OF ident_runs[OF ident(1)] ident(2,4)] spaced_tl[OF ident(4)] flush_ident[OF ident(1)] by simp
qed

section \<open>Identifiers and literals of a tree\<close>

fun literals :: "'f node \<Rightarrow> string list" where
  "literals (NumNode v s) = [s]"
| "literals (IdentNode s) = []"
| "literals (UnaryNode u n) = literals n"
| "literals (BinNode b l r) = literals l @ literals r"

lemma op_no_text: "add_op t = Some b \<Longrightarrow> operand_text t = []" "mul_op t = Some b \<Longrightarrow> operand_text t = []"
  by (cases t; simp)+

lemma operand_texts:
  "derives_expr F ts n \<Longrightarrow> set (concat (map operand_text ts)) = set (collectIdents n []) \<union> set (concat (map flush_run (literals n)))"
  "derives_term F ts n \<Longrightarrow> set (concat (map operand_text ts)) = set (collectIdents n []) \<union> set (concat (map flush_run (literals n)))"
  "derives_factor F ts n \<Longrightarrow> set (concat (map operand_text ts)) = set (collectIdents n []) \<union> set (concat (map flush_run (literals n)))"
proof (induction rule: derives_expr_derives_term_derives_factor.inducts)
  case (expr_add ls l t bop rs r)
  then show ?case using op_no_text(1) by (simp add: collectIdents_Bin del: collectIdents.simps) blast
next
  case (term_mul ls l t bop rs r)
  then show ?case using op_no_text(2) by (simp add: collectIdents_Bin del: collectIdents.simps) blast
qed auto

lemma splitIdents_exact:
  assumes "parseArith F s = Inr (n, ids)"
  shows "set (splitIdents s) = set ids \<union> {x \<in> set (literals n). hd x = CHR ''.''}"
proof -
  obtain ts where ts: "lexArith F s = Inr (ts @ [TkEOF])" "derives_expr F ts n" "ids = collectIdents n []"
    using parse_rejects_nothing_else[OF assms] by blast
  have sp: "spaced (ts @ [TkEOF])" using derives_spaced(1)[OF ts(2)] spaced_append[of TkEOF ts "[]"] by simp
  have "set (splitIdents s) = set (concat (map operand_text ts))"
    using splitIdents_tokens[OF ts(1) sp] by (simp add: splitIdents_def)
  also have "\<dots> = set ids \<union> set (concat (map flush_run (literals n)))" using operand_texts(1)[OF ts(2)] ts(3) by simp
  finally have e: "set (splitIdents s) = set ids \<union> set (concat (map flush_run (literals n)))" .
  have "set (literals m) \<subseteq> {x. number_ok F x}" if "node_ok F m" for m using that by (induction m) auto
  then have ok: "number_ok F x" if "x \<in> set (literals n)" for x using that parse_node_ok[OF assms] by blast
  have "set (flush_run x) = (if hd x = CHR ''.'' then {x} else {})" if xs: "x \<in> set (literals n)" for x
  proof -
    obtain c cs where x: "x = c # cs" using ok[OF xs] by (cases x) (auto simp: number_ok_def)
    have "is_digit c \<or> c = CHR ''.''" using number_chars[of False x c] ok[OF xs] x by (simp add: number_ok_def)
    then show ?thesis by (auto simp: x flush_run_def)
  qed
  then have "set (concat (map flush_run (literals n))) = {x \<in> set (literals n). hd x = CHR ''.''}" by auto
  with e show ?thesis by simp
qed

section \<open>Finding the operator\<close>

definition cmp_start :: "char \<Rightarrow> bool" where
  "cmp_start c \<longleftrightarrow> c \<in> set ''=!<>''"

fun net_depth :: "string \<Rightarrow> int" where
  "net_depth [] = 0"
| "net_depth (c # cs) = (if c = CHR ''('' then 1 else if c = CHR '')'' then -1 else 0) + net_depth cs"

fun token_depth :: "token \<Rightarrow> int" where
  "token_depth TkLParen = 1" | "token_depth TkRParen = -1" | "token_depth _ = 0"

lemma net_depth_append: "net_depth (s @ t) = net_depth s + net_depth t"
  by (induction s) auto

lemma leading_op_start: "leading_op (c # cs) = Some b \<Longrightarrow> cmp_start c"
  by (auto simp: leading_op_def orderedOps_def HasPrefix_def cmp_start_def split: if_splits)

text \<open>A text without comparison characters is scanned through.\<close>

lemma find_op_through:
  "\<forall>c\<in>set s. \<not> cmp_start c \<Longrightarrow> find_op d seen (s @ rest) = find_op (d + net_depth s) (rev s @ seen) rest"
proof (induction s arbitrary: d seen)
  case (Cons c cs)
  have "leading_op (c # cs @ rest) = None" using leading_op_start[of c "cs @ rest"] Cons.prems by fastforce
  then show ?case using Cons by (auto simp: algebra_simps)
qed simp

lemma run_not_cmp: "run_char c \<Longrightarrow> \<not> cmp_start c \<and> c \<noteq> CHR ''('' \<and> c \<noteq> CHR '')''"
proof -
  have "list_all (\<lambda>c. \<not> run_char c) ''=!<>()''" by code_simp
  then show "run_char c \<Longrightarrow> ?thesis" by (auto simp: list_all_iff cmp_start_def)
qed

lemma plain_chars: "lexArith F s = Inr toks \<Longrightarrow> c \<in> set s \<Longrightarrow> \<not> cmp_start c"
proof (induction rule: lex_induct)
  case (number num rest ts)
  then show ?case using number_runs[OF number(1)] run_not_cmp by (auto simp: list_all_iff)
next
  case (ident w rest ts)
  then show ?case using ident_runs[OF ident(1)] run_not_cmp by (auto simp: list_all_iff)
qed (auto simp: cmp_start_def is_blank_def split: if_splits)

lemma run_flat: "list_all run_char w \<Longrightarrow> net_depth w = 0"
  by (induction w) (auto dest: run_not_cmp)

lemma net_depth_tokens: "lexArith F s = Inr toks \<Longrightarrow> net_depth s = sum_list (map token_depth toks)"
proof (induction rule: lex_induct)
  case (number num rest ts)
  then show ?case using run_flat[OF number_runs[OF number(1)]] by (simp add: net_depth_append)
next
  case (ident w rest ts)
  then show ?case using run_flat[OF ident_runs[OF ident(1)]] by (simp add: net_depth_append)
qed (auto simp: is_blank_def split: if_splits)

lemma op_flat: "add_op t = Some b \<Longrightarrow> token_depth t = 0" "mul_op t = Some b \<Longrightarrow> token_depth t = 0"
  by (cases t; simp)+

lemma derives_balanced:
  "derives_expr F ts n \<Longrightarrow> sum_list (map token_depth ts) = 0"
  "derives_term F ts n \<Longrightarrow> sum_list (map token_depth ts) = 0"
  "derives_factor F ts n \<Longrightarrow> sum_list (map token_depth ts) = 0"
  by (induction rule: derives_expr_derives_term_derives_factor.inducts) (auto simp: op_flat)

lemma parsed_flat:
  assumes "parseArith F s = Inr res"
  shows "net_depth s = 0 \<and> (\<forall>c\<in>set s. \<not> cmp_start c) \<and> s \<noteq> []"
proof -
  obtain n ids where "res = (n, ids)" by (cases res)
  then obtain ts where ts: "lexArith F s = Inr (ts @ [TkEOF])" "derives_expr F ts n"
    using parse_rejects_nothing_else[of F s n ids] assms by blast
  have "net_depth s = 0" using net_depth_tokens[OF ts(1)] derives_balanced(1)[OF ts(2)] by simp
  moreover have "s \<noteq> []" using ts derives_nonempty(1)[OF ts(2)] by (auto simp: lexArith.simps)
  ultimately show ?thesis using plain_chars[OF ts(1)] by blast
qed

text \<open>What trimming removes is neither a parenthesis nor part of an operator.\<close>

definition space_text :: "string \<Rightarrow> bool" where
  "space_text s \<longleftrightarrow> (\<forall>c\<in>set s. \<not> cmp_start c \<and> c \<noteq> CHR ''('' \<and> c \<noteq> CHR '')'')"

lemma space_text_flat: "space_text s \<Longrightarrow> net_depth s = 0"
  by (induction s) (auto simp: space_text_def)

lemma runes_space: "list_all space_text space_runes"
  by code_simp

lemma trim_runes_parts:
  "list_all space_text runes \<Longrightarrow> \<exists>pre. s = pre @ trim_runes runes s \<and> space_text pre"
proof (induction runes s rule: trim_runes.induct)
  case (1 runes s)
  show ?case
  proof (cases "find (\<lambda>r. take (length r) s = r) runes")
    case None
    then show ?thesis by (subst trim_runes.simps) (simp add: lead_rune_def space_text_def)
  next
    case (Some r)
    have r: "take (length r) s = r" "space_text r" using find_Some_in[OF Some] 1(2) by (auto simp: list_all_iff)
    show ?thesis
    proof (cases "r = []")
      case True
      then show ?thesis using Some by (subst trim_runes.simps) (simp add: lead_rune_def space_text_def)
    next
      case False
      then have l: "lead_rune runes s = length r" "lead_rune runes s \<noteq> 0" using Some by (simp_all add: lead_rune_def)
      obtain pre where pre: "drop (length r) s = pre @ trim_runes runes (drop (length r) s)" "space_text pre"
        using 1(1)[OF l(2) 1(2)] l(1) by auto
      have "s = r @ drop (length r) s" using r(1) by (metis append_take_drop_id)
      then have "s = (r @ pre) @ trim_runes runes s" using pre(1) l by (subst trim_runes.simps) simp
      moreover have "space_text (r @ pre)" using r(2) pre(2) by (auto simp: space_text_def)
      ultimately show ?thesis by blast
    qed
  qed
qed

lemma TrimSpace_parts: "\<exists>pre suf. s = pre @ TrimSpace s @ suf \<and> space_text pre \<and> space_text suf"
proof -
  let ?t = "trim_runes space_runes s"
  obtain pre where pre: "s = pre @ ?t" "space_text pre" using trim_runes_parts[OF runes_space, of s] by blast
  have "list_all space_text (map rev space_runes)" using runes_space by (simp add: list_all_iff space_text_def)
  then obtain suf where suf: "rev ?t = suf @ trim_runes (map rev space_runes) (rev ?t)" "space_text suf"
    using trim_runes_parts[of "map rev space_runes" "rev ?t"] by blast
  from suf(1) have "?t = TrimSpace s @ rev suf" unfolding TrimSpace_def by (metis rev_append rev_rev_ident)
  with pre(1) have "s = pre @ TrimSpace s @ rev suf" by argo
  moreover have "space_text (rev suf)" using suf(2) by (simp add: space_text_def)
  ultimately show ?thesis using pre(2) by blast
qed

lemma side_flat:
  assumes "parseArith F (TrimSpace x) = Inr res"
  shows "net_depth x = 0 \<and> (\<forall>c\<in>set x. \<not> cmp_start c)"
proof -
  obtain pre suf where x: "x = pre @ TrimSpace x @ suf" "space_text pre" "space_text suf" using TrimSpace_parts by blast
  have n: "net_depth (pre @ TrimSpace x @ suf) = 0"
    using parsed_flat[OF assms] space_text_flat x(2,3) by (simp add: net_depth_append)
  have "\<forall>c\<in>set (pre @ TrimSpace x @ suf). \<not> cmp_start c"
    using parsed_flat[OF assms] x(2,3) by (auto simp: space_text_def)
  with n show ?thesis using x(1) by metis
qed

lemma find_op_none: "\<forall>c\<in>set s. \<not> cmp_start c \<Longrightarrow> find_op d seen s = None"
  using find_op_through[of s d seen "[]"] by simp

lemma leading_op_cmp: "\<forall>c\<in>set y. \<not> cmp_start c \<Longrightarrow> leading_op (cmp_text b @ y) = Some b"
proof (cases y)
  case Nil
  then show ?thesis by (cases b) (simp_all add: leading_op_def orderedOps_def HasPrefix_def)
next
  case (Cons d ds)
  moreover assume "\<forall>c\<in>set y. \<not> cmp_start c"
  ultimately have "d \<noteq> CHR ''=''" by (auto simp: cmp_start_def)
  then show ?thesis by (cases b) (simp_all add: Cons leading_op_def orderedOps_def HasPrefix_def)
qed

lemma find_op_at:
  assumes "\<forall>c\<in>set y. \<not> cmp_start c"
  shows "find_op 0 seen (cmp_text b @ y) = Some (rev seen, b, y)"
proof -
  obtain c cs where c: "cmp_text b = c # cs" "c \<noteq> CHR ''(''" "c \<noteq> CHR '')''" by (cases b) auto
  have "leading_op (c # cs @ y) = Some b" using leading_op_cmp[OF assms, of b] c(1) by simp
  moreover have "drop (length (cmp_text b)) (cmp_text b @ y) = y" by simp
  ultimately show ?thesis using c by (simp add: c(1) del: drop_append)
qed

lemma splitOnOp_complete:
  assumes l: "parseArith F (TrimSpace x) = Inr lres" and r: "parseArith F (TrimSpace y) = Inr rres"
  shows "splitOnOp (x @ cmp_text b @ y) = Inr (TrimSpace x, b, TrimSpace y)"
proof -
  have "find_op 0 [] (x @ cmp_text b @ y) = Some (x, b, y)"
    using find_op_through[of x 0 "[]" "cmp_text b @ y"] find_op_at[of y "rev x" b] side_flat[OF l] side_flat[OF r] by simp
  moreover have "splitOnOp (TrimSpace y) = Inl ExpectedOperator"
    using find_op_none[of "TrimSpace y" 0 "[]"] parsed_flat[OF r] by (subst splitOnOp.simps) simp
  ultimately show ?thesis using parsed_flat[OF l] parsed_flat[OF r] by (subst splitOnOp.simps) simp
qed

lemma splitOnOp_sound:
  "splitOnOp src = Inr (l, b, r) \<Longrightarrow> \<exists>x y. src = x @ cmp_text b @ y \<and> l = TrimSpace x \<and> r = TrimSpace y"
  using find_op_parts[of 0 "[]" src] by (subst (asm) splitOnOp.simps)
    (fastforce simp: Let_def split: option.splits if_splits sum.splits)

lemma Validate_none: "Validate_expr F s None = None \<longleftrightarrow> (\<exists>res. parseArith F s = Inr res)"
  by (auto simp: Validate_expr_def split: sum.splits)

section \<open>The properties\<close>

text \<open>The sides, operator and fields of a rule are what the text and its split determine.\<close>

lemma Parse_rule_iff:
  "Parse_rule F src = Inr r \<longleftrightarrow>
     (\<exists>x y b lres rres. TrimSpace src = x @ cmp_text b @ y \<and>
        parseArith F (TrimSpace x) = Inr lres \<and> parseArith F (TrimSpace y) = Inr rres \<and>
        r = \<lparr>ru_src = TrimSpace src, ru_left = TrimSpace x, ru_right = TrimSpace y, ru_op = b,
             ru_fields = collectFields (TrimSpace x) (TrimSpace y)\<rparr>)" (is "_ \<longleftrightarrow> ?rhs")
proof
  assume p: "Parse_rule F src = Inr r"
  then obtain l b rt where s: "splitOnOp (TrimSpace src) = Inr (l, b, rt)"
    "Validate_expr F l None = None" "Validate_expr F rt None = None"
    and r: "r = \<lparr>ru_src = TrimSpace src, ru_left = l, ru_right = rt, ru_op = b, ru_fields = collectFields l rt\<rparr>"
    by (auto simp: Parse_rule_def Let_def elim!: rbindE split: if_splits option.splits)
  from splitOnOp_sound[OF s(1)] s(2,3) r show ?rhs unfolding Validate_none by blast
next
  assume ?rhs
  then obtain x y b lres rres where t: "TrimSpace src = x @ cmp_text b @ y"
    and ps: "parseArith F (TrimSpace x) = Inr lres" "parseArith F (TrimSpace y) = Inr rres"
    and r: "r = \<lparr>ru_src = TrimSpace src, ru_left = TrimSpace x, ru_right = TrimSpace y, ru_op = b,
             ru_fields = collectFields (TrimSpace x) (TrimSpace y)\<rparr>" by blast
  have "splitOnOp (TrimSpace src) = Inr (TrimSpace x, b, TrimSpace y)" using splitOnOp_complete[OF ps] t by simp
  moreover have "TrimSpace src \<noteq> []" using t cmp_text_pos[of b] by auto
  moreover have "Validate_expr F (TrimSpace x) None = None" "Validate_expr F (TrimSpace y) None = None"
    unfolding Validate_none using ps by blast+
  ultimately show "Parse_rule F src = Inr r" by (simp add: Parse_rule_def r)
qed

text \<open>A rule is accepted exactly when it is, up to surrounding space, an expression of the numeric grammar, a
  comparison operator and another such expression; the rule's sides and operator are these, so the reading of an
  accepted text is unique: no other operator or place of the text gives a split with two valid sides.\<close>

theorem rule_parse_decides:
  "(\<exists>r. Parse_rule F src = Inr r \<and> ru_left r = left \<and> ru_op r = bop \<and> ru_right r = right) \<longleftrightarrow>
   (\<exists>x y lres rres. TrimSpace src = x @ cmp_text bop @ y \<and> TrimSpace x = left \<and> TrimSpace y = right \<and>
      parseArith F left = Inr lres \<and> parseArith F right = Inr rres)"
proof
  assume "\<exists>r. Parse_rule F src = Inr r \<and> ru_left r = left \<and> ru_op r = bop \<and> ru_right r = right"
  then show "\<exists>x y lres rres. TrimSpace src = x @ cmp_text bop @ y \<and> TrimSpace x = left \<and> TrimSpace y = right \<and>
      parseArith F left = Inr lres \<and> parseArith F right = Inr rres"
    unfolding Parse_rule_iff by (metis Rule.select_convs(2-4))
next
  assume "\<exists>x y lres rres. TrimSpace src = x @ cmp_text bop @ y \<and> TrimSpace x = left \<and> TrimSpace y = right \<and>
      parseArith F left = Inr lres \<and> parseArith F right = Inr rres"
  then show "\<exists>r. Parse_rule F src = Inr r \<and> ru_left r = left \<and> ru_op r = bop \<and> ru_right r = right"
    unfolding Parse_rule_iff by (metis Rule.select_convs(2-4))
qed

text \<open>The fields a rule reports are sorted, without repetition, and are exactly the identifiers of its two sides and
  those of its literals that are written with a leading dot; the latter are not names of columns, so the identifiers are
  the reported fields that are names.\<close>

theorem rule_fields_exact:
  assumes "Parse_rule F src = Inr r"
  shows "\<exists>n ids m ids'. parseArith F (ru_left r) = Inr (n, ids) \<and> parseArith F (ru_right r) = Inr (m, ids') \<and>
     sorted (ru_fields r) \<and> distinct (ru_fields r) \<and>
     set (ru_fields r) = set ids \<union> set ids' \<union> {x \<in> set (literals n) \<union> set (literals m). hd x = CHR ''.''} \<and>
     {f \<in> set (ru_fields r). IdentRe f} = set ids \<union> set ids'"
proof -
  from assms obtain n ids m ids' where p: "parseArith F (ru_left r) = Inr (n, ids)" "parseArith F (ru_right r) = Inr (m, ids')"
    and f: "ru_fields r = collectFields (ru_left r) (ru_right r)"
    unfolding Parse_rule_iff by (metis Rule.select_convs(2,3,5) surj_pair)
  have s: "set (ru_fields r) = set ids \<union> set ids' \<union> {x \<in> set (literals n) \<union> set (literals m). hd x = CHR ''.''}"
    using splitIdents_exact[OF p(1)] splitIdents_exact[OF p(2)] by (auto simp: f collectFields_def)
  have "list_all IdentRe ids" "list_all IdentRe ids'"
    using idents_ok[OF parse_node_ok[OF p(1)]] idents_ok[OF parse_node_ok[OF p(2)]]
      parse_rejects_nothing_else[OF p(1)] parse_rejects_nothing_else[OF p(2)] by auto
  moreover have "hd x \<noteq> CHR ''.''" if "IdentRe x" for x using that by (cases x) (auto simp: IdentRe_def dest: alpha_not_digit)
  ultimately have "{f \<in> set (ru_fields r). IdentRe f} = set ids \<union> set ids'" unfolding s by (auto simp: list_all_iff)
  with p s f show ?thesis by (simp add: collectFields_def)
qed

text \<open>An accepted rule evaluates on every record, without error, to the comparison of the values of its two sides; the
  answer depends only on the columns it reports as fields.\<close>

theorem rule_evaluates:
  assumes "Parse_rule F src = Inr r"
  shows "\<exists>n ids m ids'. parseArith F (ru_left r) = Inr (n, ids) \<and> parseArith F (ru_right r) = Inr (m, ids') \<and>
     Eval_rule F r rcd = Inr (compare_floats F (ru_op r) (evalNode F (\<lambda>k. map_option (ToFloat F) (rcd k)) n)
                                                        (evalNode F (\<lambda>k. map_option (ToFloat F) (rcd k)) m)) \<and>
     ((\<forall>k\<in>set (ru_fields r). rcd' k = rcd k) \<longrightarrow> Eval_rule F r rcd' = Eval_rule F r rcd)"
proof -
  from assms obtain n ids m ids' where p: "parseArith F (ru_left r) = Inr (n, ids)" "parseArith F (ru_right r) = Inr (m, ids')"
    and f: "ru_fields r = collectFields (ru_left r) (ru_right r)"
    unfolding Parse_rule_iff by (metis Rule.select_convs(2,3,5) surj_pair)
  have i: "set (collectIdents n []) \<subseteq> set (ru_fields r)" "set (collectIdents m []) \<subseteq> set (ru_fields r)"
    using splitIdents_exact[OF p(1)] splitIdents_exact[OF p(2)] parse_rejects_nothing_else[OF p(1)] parse_rejects_nothing_else[OF p(2)]
    by (auto simp: f collectFields_def)
  have e: "Eval_rule F r q = Inr (compare_floats F (ru_op r) (evalNode F (\<lambda>k. map_option (ToFloat F) (q k)) n)
     (evalNode F (\<lambda>k. map_option (ToFloat F) (q k)) m))" for q by (simp add: Eval_rule_def Eval_def p Let_def)
  have "Eval_rule F r rcd' = Eval_rule F r rcd" if s: "\<forall>k\<in>set (ru_fields r). rcd' k = rcd k"
  proof -
    let ?e = "\<lambda>q k. map_option (ToFloat F) (q k)"
    have "evalNode F (?e rcd') t = evalNode F (?e rcd) t" if "set (collectIdents t []) \<subseteq> set (ru_fields r)" for t
      by (rule evalNode_cong) (use s that in auto)
    from this[OF i(1)] this[OF i(2)] show ?thesis unfolding e by simp
  qed
  with e p show ?thesis by blast
qed

text \<open>A sample rule with a literal written with a leading dot.\<close>

definition sample_rule :: Rule where
  "sample_rule = \<lparr>ru_src = ''qty<.5'', ru_left = ''qty'', ru_right = ''.5'', ru_op = OpLt, ru_fields = [''.5'', ''qty'']\<rparr>"

lemma sample_sides:
  "parseArith sample_floats ''qty'' = Inr (IdentNode ''qty'', [''qty''])"
  "parseArith sample_floats ''.5'' = Inr (NumNode 5 ''.5'', [])"
proof -
  have "lexArith sample_floats ''qty'' = Inr ([TkIdent ''qty''] @ [TkEOF])"
    by (simp add: lexArith.simps is_blank_def is_digit_def is_alpha_def is_word_def)
  from parse_accepts[OF this expr_term[OF term_factor[OF factor_ident]]]
  show "parseArith sample_floats ''qty'' = Inr (IdentNode ''qty'', [''qty''])" by simp
  have "lexArith sample_floats ''.5'' = Inr ([TkNumber ''.5''] @ [TkEOF])"
    by (simp add: lexArith.simps is_blank_def is_digit_def is_alpha_def is_word_def sample_floats_def)
  moreover have "fst (fl_ParseFloat sample_floats ''.5'') = 5"
    by (simp add: sample_floats_def is_digit_def digits_val_def digit_val_def)
  ultimately show "parseArith sample_floats ''.5'' = Inr (NumNode 5 ''.5'', [])"
    using parse_accepts[OF _ expr_term[OF term_factor[OF factor_number]], of sample_floats "''.5''" "''.5''"] by simp
qed

lemma sample_rule_parses: "Parse_rule sample_floats '' qty<.5'' = Inr sample_rule"
proof -
  have t: "TrimSpace '' qty<.5'' = ''qty'' @ cmp_text OpLt @ ''.5''" "TrimSpace ''qty'' = ''qty''" "TrimSpace ''.5'' = ''.5''"
    by code_simp+
  have "splitIdents ''qty'' = [''qty'']" "splitIdents ''.5'' = [''.5'']" by code_simp+
  moreover have "sort [''qty'', ''.5''] = [''.5'', ''qty'']" by (simp add: less_char_def)
  ultimately have f: "collectFields ''qty'' ''.5'' = [''.5'', ''qty'']" by (simp add: collectFields_def)
  show ?thesis unfolding Parse_rule_iff
    by (rule exI[of _ "''qty''"], rule exI[of _ "''.5''"], rule exI[of _ OpLt]) (simp add: t f sample_sides sample_rule_def)
qed

theorem rule_fields_exact_witness:
  "{f \<in> set (ru_fields sample_rule). IdentRe f} = {''qty''} \<and> ''.5'' \<in> set (ru_fields sample_rule)"
proof -
  have sides: "ru_left sample_rule = ''qty''" "ru_right sample_rule = ''.5''" by (simp_all add: sample_rule_def)
  obtain n ids m ids' where p: "parseArith sample_floats ''qty'' = Inr (n, ids)" "parseArith sample_floats ''.5'' = Inr (m, ids')"
    and f: "{f \<in> set (ru_fields sample_rule). IdentRe f} = set ids \<union> set ids'"
    using rule_fields_exact[OF sample_rule_parses] unfolding sides by blast
  have "ids = [''qty'']" "ids' = []" using p unfolding sample_sides by simp_all
  with f show ?thesis by (simp add: sample_rule_def)
qed

theorem rule_evaluates_witness:
  "Eval_rule sample_floats sample_rule [''qty'' \<mapsto> GoInt 3, ''x'' \<mapsto> GoInt 1] = Eval_rule sample_floats sample_rule [''qty'' \<mapsto> GoInt 3] \<and>
   Eval_rule sample_floats sample_rule [''qty'' \<mapsto> GoInt 3] = Inr True"
  using rule_evaluates[OF sample_rule_parses, of "[''qty'' \<mapsto> GoInt 3]" "[''qty'' \<mapsto> GoInt 3, ''x'' \<mapsto> GoInt 1]"]
  by (simp add: sample_rule_def sample_sides) (simp add: sample_floats_def ToFloat_def)

end
