(* ===== verification/Idem_Model.thy ===== *)
theory Idem_Model
  imports Guarded
begin

text \<open>
  Replay of non-idempotent HTTP requests (\<^verbatim>\<open>src/idempotency\<close>): the in-memory store, the durable store with its
  reservations (\<^verbatim>\<open>gorm_store.go\<close>), and the middleware flows (\<^verbatim>\<open>middleware.go\<close>).

  The durable table is the list of its rows, one per key (its primary key); each statement is atomic, and an
  operation of several statements takes an argument for what other sessions commit before each of them. \<open>ienv\<close> holds
  the clock and the random tokens, one of each per round, and SHA-256. Times are integer nanoseconds. Database
  errors (which the middleware answers with 503 before running the handler) are not modelled.
\<close>

section \<open>Stored responses\<close>

record Stored =
  st_StatusCode :: int
  st_Body :: string
  st_ContentType :: string
  st_ExpiresAt :: int

section \<open>The in-memory store\<close>

record InMemoryStore =
  ms_entries :: "(string \<times> Stored) list"
  ms_order :: "string list"
  ms_maxEntries :: int

text \<open>\<^verbatim>\<open>entries\<close> is a Go map: an association list in which a key occurs once.\<close>

definition map_put :: "'k \<Rightarrow> 'v \<Rightarrow> ('k \<times> 'v) list \<Rightarrow> ('k \<times> 'v) list" where
  "map_put k v m = (k, v) # filter (\<lambda>kv. fst kv \<noteq> k) m"

definition map_delete :: "'k \<Rightarrow> ('k \<times> 'v) list \<Rightarrow> ('k \<times> 'v) list" where
  "map_delete k m = filter (\<lambda>kv. fst kv \<noteq> k) m"

definition NewInMemoryStore :: "int \<Rightarrow> InMemoryStore" where
  "NewInMemoryStore maxEntries =
     \<lparr>ms_entries = [], ms_order = [], ms_maxEntries = (if maxEntries \<le> 0 then 10000 else maxEntries)\<rparr>"

definition removeFromOrder :: "string \<Rightarrow> InMemoryStore \<Rightarrow> InMemoryStore" where
  "removeFromOrder key s = s\<lparr>ms_order := remove1 key (ms_order s)\<rparr>"

definition mem_Get :: "int \<Rightarrow> string \<Rightarrow> InMemoryStore \<Rightarrow> InMemoryStore \<times> Stored option" where
  "mem_Get now key s =
     (case map_of (ms_entries s) key of
        None \<Rightarrow> (s, None)
      | Some v \<Rightarrow>
          if now > st_ExpiresAt v then (removeFromOrder key (s\<lparr>ms_entries := map_delete key (ms_entries s)\<rparr>), None)
          else (s, Some v))"

definition mem_Put :: "string \<Rightarrow> Stored \<Rightarrow> InMemoryStore \<Rightarrow> InMemoryStore" where
  "mem_Put key v s =
     (let s' = (if map_of (ms_entries s) key = None then
                  (let s = (if int (length (ms_order s)) \<ge> ms_maxEntries s then
                              s\<lparr>ms_entries := map_delete (hd (ms_order s)) (ms_entries s), ms_order := tl (ms_order s)\<rparr>
                            else s)
                   in s\<lparr>ms_order := ms_order s @ [key]\<rparr>)
                else s)
      in s'\<lparr>ms_entries := map_put key v (ms_entries s')\<rparr>)"

section \<open>The durable store\<close>

datatype row_status = RowPending | RowDone

record idem_row =
  ik_key :: string
  ik_status :: row_status
  ik_status_code :: int
  ik_content_type :: string
  ik_body :: string
  ik_lock_token :: string
  ik_expires_at :: int
  ik_created_at :: int
  ik_updated_at :: int

record ienv =
  ie_clock :: "nat \<Rightarrow> int"
  ie_bytes :: "nat \<Rightarrow> string"
  ie_sha256 :: "string \<Rightarrow> string"

definition DefaultLockTimeout :: int where
  "DefaultLockTimeout = 60 * 1000000000"

definition DefaultTTL :: int where
  "DefaultTTL = 24 * 3600 * 1000000000"

definition row_of :: "idem_row list \<Rightarrow> string \<Rightarrow> idem_row option" where
  "row_of db key = find (\<lambda>r. ik_key r = key) db"

definition stored :: "idem_row \<Rightarrow> Stored" where
  "stored r = \<lparr>st_StatusCode = ik_status_code r, st_Body = ik_body r, st_ContentType = ik_content_type r,
               st_ExpiresAt = ik_expires_at r\<rparr>"

definition gorm_Get :: "int \<Rightarrow> string \<Rightarrow> idem_row list \<Rightarrow> Stored option" where
  "gorm_Get now key db =
     (case find (\<lambda>r. ik_key r = key \<and> ik_status r = RowDone \<and> ik_expires_at r > now) db of
        None \<Rightarrow> None
      | Some r \<Rightarrow> Some (stored r))"

definition put_row :: "int \<Rightarrow> Stored \<Rightarrow> idem_row \<Rightarrow> idem_row" where
  "put_row now v r =
     r\<lparr>ik_status := RowDone, ik_status_code := st_StatusCode v, ik_content_type := st_ContentType v, ik_body := st_Body v,
       ik_lock_token := [], ik_expires_at := st_ExpiresAt v, ik_updated_at := now\<rparr>"

text \<open>\<^verbatim>\<open>INSERT ... ON CONFLICT (key_hash) DO UPDATE\<close>.\<close>

definition gorm_Put :: "int \<Rightarrow> string \<Rightarrow> Stored \<Rightarrow> idem_row list \<Rightarrow> idem_row list" where
  "gorm_Put now key v db =
     (case row_of db key of
        Some _ \<Rightarrow> update_where (\<lambda>r. ik_key r = key) (put_row now v) db
      | None \<Rightarrow> db @ [\<lparr>ik_key = key, ik_status = RowDone, ik_status_code = st_StatusCode v, ik_content_type = st_ContentType v,
                      ik_body = st_Body v, ik_lock_token = [], ik_expires_at = st_ExpiresAt v, ik_created_at = now, ik_updated_at = now\<rparr>])"

record Reservation =
  re_Acquired :: bool
  re_Token :: string
  re_Replay :: "Stored option"

definition InFlight :: "Reservation \<Rightarrow> bool" where
  "InFlight r \<longleftrightarrow> \<not> re_Acquired r \<and> re_Replay r = None"

definition idem_token :: "ienv \<Rightarrow> nat \<Rightarrow> string" where
  "idem_token e i = hex_encode (ie_bytes e i)"

definition pending_row :: "string \<Rightarrow> string \<Rightarrow> int \<Rightarrow> int \<Rightarrow> idem_row" where
  "pending_row key token now lease =
     \<lparr>ik_key = key, ik_status = RowPending, ik_status_code = 0, ik_content_type = [], ik_body = [], ik_lock_token = token,
      ik_expires_at = now + lease, ik_created_at = now, ik_updated_at = now\<rparr>"

text \<open>The claiming statement: a new row, or the expired one replaced; whether it claimed.\<close>

definition claim_key :: "string \<Rightarrow> string \<Rightarrow> int \<Rightarrow> int \<Rightarrow> idem_row list \<Rightarrow> idem_row list \<times> bool" where
  "claim_key key token now lease db =
     (case row_of db key of
        None \<Rightarrow> (db @ [pending_row key token now lease], True)
      | Some r \<Rightarrow>
          if ik_expires_at r \<le> now then (update_where (\<lambda>r. ik_key r = key) (\<lambda>_. pending_row key token now lease) db, True)
          else (db, False))"

text \<open>The loop \<^verbatim>\<open>for range 3\<close>: \<open>i\<close> numbers the rounds of the request, \<open>k\<close> are those left.\<close>

fun reserve_loop ::
  "nat \<Rightarrow> nat \<Rightarrow> ienv \<Rightarrow> (nat \<Rightarrow> idem_row list \<Rightarrow> idem_row list) \<Rightarrow> string \<Rightarrow> int \<Rightarrow> idem_row list \<Rightarrow> idem_row list \<times> Reservation" where
  "reserve_loop 0 i e others key lease db = (db, \<lparr>re_Acquired = False, re_Token = [], re_Replay = None\<rparr>)"
| "reserve_loop (Suc k) i e others key lease db =
     (let now = ie_clock e i; token = idem_token e i in
      case claim_key key token now lease (others (2 * i) db) of
        (db, True) \<Rightarrow> (db, \<lparr>re_Acquired = True, re_Token = token, re_Replay = None\<rparr>)
      | (db, False) \<Rightarrow>
          (let db = others (2 * i + 1) db in
           case row_of db key of
             None \<Rightarrow> reserve_loop k (Suc i) e others key lease db
           | Some r \<Rightarrow>
               if ik_status r = RowDone \<and> ik_expires_at r > now then
                 (db, \<lparr>re_Acquired = False, re_Token = [], re_Replay = Some (stored r)\<rparr>)
               else if ik_status r = RowPending \<and> ik_expires_at r > now then
                 (db, \<lparr>re_Acquired = False, re_Token = [], re_Replay = None\<rparr>)
               else reserve_loop k (Suc i) e others key lease db))"

definition Reserve ::
  "nat \<Rightarrow> ienv \<Rightarrow> (nat \<Rightarrow> idem_row list \<Rightarrow> idem_row list) \<Rightarrow> string \<Rightarrow> int \<Rightarrow> idem_row list \<Rightarrow> idem_row list \<times> Reservation" where
  "Reserve i e others key lease db = reserve_loop 3 i e others key (if lease \<le> 0 then DefaultLockTimeout else lease) db"

definition Release_key :: "string \<Rightarrow> string \<Rightarrow> idem_row list \<Rightarrow> idem_row list" where
  "Release_key key token db = filter (\<lambda>r. \<not> (ik_key r = key \<and> ik_status r = RowPending \<and> ik_lock_token r = token)) db"

definition Cleanup_keys :: "int \<Rightarrow> idem_row list \<Rightarrow> idem_row list \<times> int" where
  "Cleanup_keys now db =
     (let db' = filter (\<lambda>r. \<not> ik_expires_at r \<le> now) db in (db', int (length db) - int (length db')))"

section \<open>The middleware\<close>

record IdemConfig =
  ic_TTL :: int
  ic_CacheStatus :: "(int \<Rightarrow> bool) option"
  ic_LockTimeout :: int
  ic_InFlightWait :: int

definition defaultCacheStatus :: "int \<Rightarrow> bool" where
  "defaultCacheStatus status \<longleftrightarrow> 200 \<le> status \<and> status < 300"

definition cfg_ttl :: "IdemConfig \<Rightarrow> int" where
  "cfg_ttl c = (if ic_TTL c = 0 then DefaultTTL else ic_TTL c)"

definition cfg_cache :: "IdemConfig \<Rightarrow> int \<Rightarrow> bool" where
  "cfg_cache c = (case ic_CacheStatus c of None \<Rightarrow> defaultCacheStatus | Some f \<Rightarrow> f)"

definition cfg_lease :: "IdemConfig \<Rightarrow> int" where
  "cfg_lease c = (if ic_LockTimeout c \<le> 0 then DefaultLockTimeout else ic_LockTimeout c)"

text \<open>How the wrapped handler ends, and what the client gets.\<close>

datatype handled = Responded int string string | Failed string | HandlerPanic string

datatype idem_response = Answer int string string bool | Conflict | HandlerFailed string | Panicking string | Cancelled

definition compositeKey :: "ienv \<Rightarrow> string \<Rightarrow> string \<Rightarrow> string \<Rightarrow> string \<Rightarrow> string" where
  "compositeKey e ns mth path clientKey =
     hex_encode (ie_sha256 e (ns @ [CHR 0x00] @ mth @ [CHR 0x00] @ path @ [CHR 0x00] @ clientKey))"

definition replay :: "Stored \<Rightarrow> idem_response" where
  "replay v = Answer (st_StatusCode v) (st_Body v) (st_ContentType v) True"

text \<open>The entry \<^verbatim>\<open>store\<close> writes, if the status is cached.\<close>

definition store_entry :: "IdemConfig \<Rightarrow> int \<Rightarrow> handled \<Rightarrow> Stored option" where
  "store_entry c now h =
     (case h of
        Responded status body ctype \<Rightarrow>
          if cfg_cache c status then
            Some \<lparr>st_StatusCode = status, st_Body = body, st_ContentType = ctype, st_ExpiresAt = now + cfg_ttl c\<rparr>
          else None
      | _ \<Rightarrow> None)"

definition handled_response :: "handled \<Rightarrow> idem_response" where
  "handled_response h =
     (case h of
        Responded status body ctype \<Rightarrow> Answer status body ctype False
      | Failed err \<Rightarrow> HandlerFailed err
      | HandlerPanic v \<Rightarrow> Panicking v)"

text \<open>The waiting loop: one entry of \<open>polls\<close> per iteration before the deadline, \<open>False\<close> when the request's context is
  done instead. The rounds of the \<open>n\<close>-th \<^verbatim>\<open>Reserve\<close> call of a request are numbered from \<open>3 * n\<close>.\<close>

fun wait_loop ::
  "bool list \<Rightarrow> nat \<Rightarrow> ienv \<Rightarrow> (nat \<Rightarrow> idem_row list \<Rightarrow> idem_row list) \<Rightarrow> string \<Rightarrow> int \<Rightarrow> Reservation \<Rightarrow> idem_row list \<Rightarrow>
     idem_row list \<times> Reservation option" where
  "wait_loop [] n e others key lease res db = (db, Some res)"
| "wait_loop (live # polls) n e others key lease res db =
     (if \<not> InFlight res then (db, Some res)
      else if \<not> live then (db, None)
      else case Reserve (3 * n) e others key lease db of
             (db, res) \<Rightarrow> wait_loop polls (Suc n) e others key lease res db)"

text \<open>What the request does after it acquired the key: run the handler on the state \<open>others'\<close> makes of the database
  meanwhile, then store the response or release the key.\<close>

definition run_owner ::
  "IdemConfig \<Rightarrow> int \<Rightarrow> (idem_row list \<Rightarrow> idem_row list) \<Rightarrow> string \<Rightarrow> string \<Rightarrow> handled \<Rightarrow> idem_row list \<Rightarrow> idem_row list" where
  "run_owner c now others' key token h db =
     (case store_entry c now h of
        Some v \<Rightarrow> gorm_Put now key v (others' db)
      | None \<Rightarrow> Release_key key token (others' db))"

definition serveLocked ::
  "IdemConfig \<Rightarrow> ienv \<Rightarrow> (nat \<Rightarrow> idem_row list \<Rightarrow> idem_row list) \<Rightarrow> (idem_row list \<Rightarrow> idem_row list) \<Rightarrow> bool list \<Rightarrow> int \<Rightarrow>
     string \<Rightarrow> handled \<Rightarrow> idem_row list \<Rightarrow> idem_row list \<times> idem_response \<times> bool" where
  "serveLocked c e others others' polls tdone key h db =
     (case Reserve 0 e others key (cfg_lease c) db of
        (db, res) \<Rightarrow>
          (case (if InFlight res \<and> ic_InFlightWait c > 0 then wait_loop polls 1 e others key (cfg_lease c) res db
                 else (db, Some res)) of
             (db, None) \<Rightarrow> (db, Cancelled, False)
           | (db, Some res) \<Rightarrow>
               (case re_Replay res of
                  Some v \<Rightarrow> (db, replay v, False)
                | None \<Rightarrow>
                    if \<not> re_Acquired res then (db, Conflict, False)
                    else (run_owner c tdone others' key (re_Token res) h db, handled_response h, True))))"

text \<open>The flow for a store without reservations, here the in-memory one. The last component tells whether the handler
  ran.\<close>

definition serve_plain ::
  "IdemConfig \<Rightarrow> int \<Rightarrow> int \<Rightarrow> string \<Rightarrow> handled \<Rightarrow> InMemoryStore \<Rightarrow> InMemoryStore \<times> idem_response \<times> bool" where
  "serve_plain c now tdone key h s =
     (case mem_Get now key s of
        (s, Some hit) \<Rightarrow> (s, replay hit, False)
      | (s, None) \<Rightarrow>
          (case store_entry c tdone h of
             Some v \<Rightarrow> (mem_Put key v s, handled_response h, True)
           | None \<Rightarrow> (s, handled_response h, True)))"

text \<open>\<^verbatim>\<open>Middleware\<close>: without the header the request passes through.\<close>

definition Middleware ::
  "IdemConfig \<Rightarrow> ienv \<Rightarrow> (nat \<Rightarrow> idem_row list \<Rightarrow> idem_row list) \<Rightarrow> (idem_row list \<Rightarrow> idem_row list) \<Rightarrow> bool list \<Rightarrow> int \<Rightarrow>
     string \<Rightarrow> string \<Rightarrow> string \<Rightarrow> string \<Rightarrow> handled \<Rightarrow> idem_row list \<Rightarrow> idem_row list \<times> idem_response \<times> bool" where
  "Middleware c e others others' polls tdone ns mth path clientKey h db =
     (if clientKey = [] then (db, handled_response h, True)
      else serveLocked c e others others' polls tdone (compositeKey e ns mth path clientKey) h db)"

end
