(* ===== verification/Idem_Properties.thy ===== *)
theory Idem_Properties
  imports Idem_Model
begin

text \<open>
  What idempotency keys guarantee. With the durable store, requests on any number of replicas are a step relation: a
  request whose key is reserved runs alone until its lease ends, whatever overdue requests still write. The in-memory store keeps to its bound and forgets only the oldest entry.
\<close>

section \<open>Rows of the table\<close>

definition keys_distinct :: "idem_row list \<Rightarrow> bool" where
  "keys_distinct db \<longleftrightarrow> distinct (map ik_key db)"

lemma row_of_iff: "keys_distinct db \<Longrightarrow> row_of db k = Some r \<longleftrightarrow> r \<in> set db \<and> ik_key r = k"
proof (induction db)
  case (Cons a db)
  then show ?case by (auto simp: keys_distinct_def row_of_def)
qed (simp add: row_of_def)

lemma row_of_None: "row_of db k = None \<longleftrightarrow> k \<notin> ik_key ` set db"
  by (auto simp: row_of_def find_None_iff)

lemma row_of_key: "row_of db k = Some r \<Longrightarrow> ik_key r = k"
  by (auto simp: row_of_def dest!: find_Some_in)

lemma row_of_append: "row_of (db @ [r]) k = (case row_of db k of Some x \<Rightarrow> Some x | None \<Rightarrow> if ik_key r = k then Some r else None)"
  by (induction db) (auto simp: row_of_def)

lemma row_of_update:
  assumes "\<And>r. ik_key r = key \<Longrightarrow> ik_key (f r) = key"
  shows "row_of (update_where (\<lambda>r. ik_key r = key) f db) k = (if k = key then map_option f (row_of db k) else row_of db k)"
  by (induction db) (auto simp: row_of_def assms)

lemma keys_update:
  assumes "\<And>r. ik_key r = key \<Longrightarrow> ik_key (f r) = key"
  shows "map ik_key (update_where (\<lambda>r. ik_key r = key) f db) = map ik_key db"
  by (induction db) (auto simp: assms)

lemma row_of_filter:
  "keys_distinct db \<Longrightarrow> row_of (filter p db) k = (case row_of db k of Some r \<Rightarrow> if p r then Some r else None | None \<Rightarrow> None)"
proof (induction db)
  case (Cons a db)
  then have "keys_distinct db" "ik_key a \<notin> ik_key ` set db" by (auto simp: keys_distinct_def)
  moreover from this(2) have "ik_key a = k \<Longrightarrow> row_of (filter p db) k = None"
    by (auto simp: row_of_None)
  ultimately show ?case using Cons.IH by (auto simp: row_of_def)
qed (simp add: row_of_def)

lemma put_row_key [simp]: "ik_key (put_row now v r) = ik_key r"
  by (simp add: put_row_def)

lemma pending_row_simps [simp]:
  "ik_key (pending_row k t now l) = k" "ik_status (pending_row k t now l) = RowPending"
  "ik_lock_token (pending_row k t now l) = t" "ik_expires_at (pending_row k t now l) = now + l"
  by (simp_all add: pending_row_def)

section \<open>The effect of the statements on a key\<close>

lemma row_of_Put:
  "row_of (gorm_Put now key v db) k =
     (if k = key then Some (case row_of db key of Some r \<Rightarrow> put_row now v r | None \<Rightarrow>
         \<lparr>ik_key = key, ik_status = RowDone, ik_status_code = st_StatusCode v, ik_content_type = st_ContentType v,
          ik_body = st_Body v, ik_lock_token = [], ik_expires_at = st_ExpiresAt v, ik_created_at = now, ik_updated_at = now\<rparr>)
      else row_of db k)"
  by (auto simp: gorm_Put_def row_of_update row_of_append split: option.splits)

lemma Put_stored: "\<exists>r. row_of (gorm_Put now key v db) key = Some r \<and> ik_status r = RowDone \<and> stored r = v"
  by (auto simp: row_of_Put put_row_def stored_def split: option.splits)

lemma row_of_claim:
  "claim_key key token now lease db = (db', True) \<Longrightarrow>
   row_of db' k = (if k = key then Some (pending_row key token now lease) else row_of db k)"
  by (auto simp: claim_key_def row_of_update row_of_append split: option.splits if_splits)

lemma claim_keeps: "claim_key key token now lease db = (db', False) \<Longrightarrow> db' = db"
  by (auto simp: claim_key_def split: option.splits if_splits)

lemma claim_live: "row_of db key = Some r \<Longrightarrow> now < ik_expires_at r \<Longrightarrow> claim_key key token now lease db = (db, False)"
  by (simp add: claim_key_def)

lemma row_of_Release:
  "keys_distinct db \<Longrightarrow> row_of (Release_key key token db) k =
     (case row_of db k of Some r \<Rightarrow> if ik_key r = key \<and> ik_status r = RowPending \<and> ik_lock_token r = token then None else Some r | None \<Rightarrow> None)"
  by (auto simp: Release_key_def row_of_filter split: option.splits)

lemma row_of_Cleanup:
  "keys_distinct db \<Longrightarrow> row_of (fst (Cleanup_keys now db)) k =
     (case row_of db k of Some r \<Rightarrow> if ik_expires_at r \<le> now then None else Some r | None \<Rightarrow> None)"
  by (auto simp: Cleanup_keys_def Let_def row_of_filter split: option.splits)

lemma keys_distinct_ops:
  assumes "keys_distinct db"
  shows "keys_distinct (gorm_Put now key v db)" "keys_distinct (fst (claim_key key token now lease db))"
    "keys_distinct (Release_key key token db)" "keys_distinct (fst (Cleanup_keys now db))"
  using assms unfolding keys_distinct_def
  by (auto simp: gorm_Put_def claim_key_def Release_key_def Cleanup_keys_def Let_def keys_update row_of_None distinct_map_filter
      split: option.splits)

section \<open>Requests as steps\<close>

text \<open>A running request has its key, its token and the end of its lease.\<close>

record isys =
  i_db :: "idem_row list"
  i_running :: "(string \<times> string \<times> int) set"
  i_tokens :: "string set"
  i_clock :: int

definition i_init :: isys where
  "i_init = \<lparr>i_db = [], i_running = {}, i_tokens = {}, i_clock = 0\<rparr>"

text \<open>Each step is one statement: it reads the replica's clock (\<open>now\<close>) at some moment and takes effect at a time \<open>t\<close> not
  before that and not before the last step. A request that acquired its key may store its response, release the key, crash
  or hang at any time, also long after its lease: \<^verbatim>\<open>Put\<close> checks neither the token nor the lease. \<open>slack\<close> bounds the
  time between the clock read for the entry's expiry (\<open>t0\<close>) and the write.\<close>

inductive istep :: "IdemConfig \<Rightarrow> int \<Rightarrow> isys \<Rightarrow> isys \<Rightarrow> bool" for c slack where
  i_claim: "i_clock s \<le> t \<Longrightarrow> now \<le> t \<Longrightarrow> token \<notin> i_tokens s \<Longrightarrow>
     claim_key key token now (cfg_lease c) (i_db s) = (db', True) \<Longrightarrow>
     istep c slack s (s\<lparr>i_db := db', i_running := insert (key, token, now + cfg_lease c) (i_running s),
       i_tokens := insert token (i_tokens s), i_clock := t\<rparr>)"
| i_store: "i_clock s \<le> t \<Longrightarrow> t - slack \<le> t0 \<Longrightarrow> (key, token, until) \<in> i_running s \<Longrightarrow> store_entry c t0 h = Some v \<Longrightarrow>
     istep c slack s (s\<lparr>i_db := gorm_Put now key v (i_db s), i_running := i_running s - {(key, token, until)}, i_clock := t\<rparr>)"
| i_release: "i_clock s \<le> t \<Longrightarrow> (key, token, until) \<in> i_running s \<Longrightarrow>
     istep c slack s (s\<lparr>i_db := Release_key key token (i_db s), i_running := i_running s - {(key, token, until)}, i_clock := t\<rparr>)"
| i_cleanup: "i_clock s \<le> t \<Longrightarrow> now \<le> t \<Longrightarrow> istep c slack s (s\<lparr>i_db := fst (Cleanup_keys now (i_db s)), i_clock := t\<rparr>)"
| i_crash: "i_clock s \<le> t \<Longrightarrow> istep c slack s (s\<lparr>i_running := i_running s - R, i_clock := t\<rparr>)"

text \<open>The row of a running request whose lease lasts blocks every claim of its key until then: it is the request's own
  reservation, or a response stored over it that outlives the lease.\<close>

definition blocks_key :: "idem_row list \<Rightarrow> string \<times> string \<times> int \<Rightarrow> bool" where
  "blocks_key db q = (case q of (k, tok, u) \<Rightarrow>
     (case row_of db k of
        Some r \<Rightarrow> ik_status r = RowPending \<and> ik_lock_token r = tok \<and> ik_expires_at r = u \<or>
                  ik_status r = RowDone \<and> u \<le> ik_expires_at r
      | None \<Rightarrow> False))"

definition live_in :: "isys \<Rightarrow> string \<times> string \<times> int \<Rightarrow> bool" where
  "live_in s q \<longleftrightarrow> q \<in> i_running s \<and> i_clock s < snd (snd q)"

definition isys_ok :: "IdemConfig \<Rightarrow> isys \<Rightarrow> bool" where
  "isys_ok c s \<longleftrightarrow>
     keys_distinct (i_db s) \<and>
     (\<forall>q\<in>i_running s. fst (snd q) \<in> i_tokens s \<and> snd (snd q) \<le> i_clock s + cfg_lease c) \<and>
     (\<forall>q\<in>i_running s. \<forall>q'\<in>i_running s. fst (snd q) = fst (snd q') \<longrightarrow> q = q') \<and>
     (\<forall>q. live_in s q \<longrightarrow> blocks_key (i_db s) q) \<and>
     (\<forall>q q'. live_in s q \<and> live_in s q' \<and> fst q = fst q' \<longrightarrow> q = q')"

lemma blocks_key_iff: "blocks_key db q \<longleftrightarrow> (\<exists>r. row_of db (fst q) = Some r \<and>
    (ik_status r = RowPending \<and> ik_lock_token r = fst (snd q) \<and> ik_expires_at r = snd (snd q) \<or>
     ik_status r = RowDone \<and> snd (snd q) \<le> ik_expires_at r))"
  by (auto simp: blocks_key_def split: prod.splits option.splits)

lemma blocks_claim:
  assumes "blocks_key db q" and "now < snd (snd q)"
  shows "claim_key (fst q) token now lease db = (db, False)"
  using assms claim_live[of db "fst q"] by (auto simp: blocks_key_iff)

lemma isys_ok_blocks: "isys_ok c s \<Longrightarrow> live_in s q \<Longrightarrow> blocks_key (i_db s) q"
  unfolding isys_ok_def by blast

lemma isys_ok_alone: "isys_ok c s \<Longrightarrow> live_in s q \<Longrightarrow> live_in s q' \<Longrightarrow> fst q = fst q' \<Longrightarrow> q = q'"
  unfolding isys_ok_def by blast

lemma live_earlier: "R \<subseteq> i_running s \<Longrightarrow> i_clock s \<le> t \<Longrightarrow> live_in (s\<lparr>i_db := db', i_running := R, i_clock := t\<rparr>) q \<Longrightarrow> live_in s q"
  by (auto simp: live_in_def)

lemma isys_ok_shrink:
  assumes "isys_ok c s" and "R \<subseteq> i_running s" and "i_clock s \<le> t" and "keys_distinct db'"
    and "\<And>q. q \<in> R \<Longrightarrow> t < snd (snd q) \<Longrightarrow> live_in s q \<Longrightarrow> blocks_key (i_db s) q \<Longrightarrow> blocks_key db' q"
  shows "isys_ok c (s\<lparr>i_db := db', i_running := R, i_clock := t\<rparr>)"
proof -
  let ?s = "s\<lparr>i_db := db', i_running := R, i_clock := t\<rparr>"
  have live: "live_in s q" if "live_in ?s q" for q using live_earlier[OF assms(2,3) that] .
  have "blocks_key (i_db ?s) q" if "live_in ?s q" for q
    using assms(5)[OF _ _ live[OF that] isys_ok_blocks[OF assms(1) live[OF that]]] that by (simp add: live_in_def)
  moreover have "\<forall>q\<in>R. fst (snd q) \<in> i_tokens s \<and> snd (snd q) \<le> t + cfg_lease c"
    "\<forall>q\<in>R. \<forall>q'\<in>R. fst (snd q) = fst (snd q') \<longrightarrow> q = q'"
    using assms(1-3) unfolding isys_ok_def by (meson add_mono_thms_linordered_semiring(3) order_trans subsetD)+
  moreover have "q = q'" if "live_in ?s q" "live_in ?s q'" "fst q = fst q'" for q q'
    by (rule isys_ok_alone[OF assms(1) live[OF that(1)] live[OF that(2)] that(3)])
  ultimately show ?thesis using assms(4) unfolding isys_ok_def by simp
qed

lemma istep_ok: "istep c slack s s' \<Longrightarrow> cfg_lease c + slack \<le> cfg_ttl c \<Longrightarrow> isys_ok c s \<Longrightarrow> isys_ok c s'"
proof (induction rule: istep.induct)
  case (i_claim s t now token key db')
  have kd: "keys_distinct db'" using keys_distinct_ops(2)[of "i_db s" key token now "cfg_lease c"] i_claim by (simp add: isys_ok_def)
  have other: "fst q \<noteq> key" if "t < snd (snd q)" "blocks_key (i_db s) q" for q
    using blocks_claim[OF that(2), of now token "cfg_lease c"] that(1) i_claim(2,4) by auto
  let ?s = "s\<lparr>i_db := db', i_running := i_running s, i_clock := t\<rparr>"
  have "blocks_key db' q" if "t < snd (snd q)" "blocks_key (i_db s) q" for q
    using other[OF that] that(2) row_of_claim[OF i_claim(4)] by (simp add: blocks_key_iff)
  then have ok: "isys_ok c ?s" using isys_ok_shrink[OF i_claim(6) subset_refl i_claim(1) kd] by blast
  have new: "blocks_key db' (key, token, now + cfg_lease c)" using row_of_claim[OF i_claim(4)] by (simp add: blocks_key_iff)
  have fresh: "fst q \<noteq> key" if "live_in ?s q" for q
  proof -
    have "live_in s q" "t < snd (snd q)" using that i_claim(1) by (simp_all add: live_in_def)
    then show ?thesis using other isys_ok_blocks[OF i_claim(6)] by blast
  qed
  have l: "live_in (s\<lparr>i_db := db', i_running := insert (key, token, now + cfg_lease c) (i_running s),
      i_tokens := insert token (i_tokens s), i_clock := t\<rparr>) q \<Longrightarrow> q = (key, token, now + cfg_lease c) \<or> live_in ?s q" for q
    by (auto simp: live_in_def)
  show ?case
    unfolding isys_ok_def
  proof (intro conjI)
    show "\<forall>q. live_in (s\<lparr>i_db := db', i_running := insert (key, token, now + cfg_lease c) (i_running s),
        i_tokens := insert token (i_tokens s), i_clock := t\<rparr>) q \<longrightarrow>
      blocks_key (i_db (s\<lparr>i_db := db', i_running := insert (key, token, now + cfg_lease c) (i_running s),
        i_tokens := insert token (i_tokens s), i_clock := t\<rparr>)) q"
      using l new ok by (fastforce simp: isys_ok_def)
    show "\<forall>q q'. live_in (s\<lparr>i_db := db', i_running := insert (key, token, now + cfg_lease c) (i_running s),
        i_tokens := insert token (i_tokens s), i_clock := t\<rparr>) q \<and>
      live_in (s\<lparr>i_db := db', i_running := insert (key, token, now + cfg_lease c) (i_running s),
        i_tokens := insert token (i_tokens s), i_clock := t\<rparr>) q' \<and> fst q = fst q' \<longrightarrow> q = q'"
      using l fresh ok unfolding isys_ok_def by (metis fst_conv)
  qed (insert ok i_claim(2,3), auto simp: isys_ok_def)
next
  case (i_store s t t0 key token until h v now)
  have exp: "t + cfg_lease c \<le> st_ExpiresAt v"
    using i_store(2,4,5) by (auto simp: store_entry_def split: handled.splits if_splits)
  show ?case
  proof (rule isys_ok_shrink[OF i_store(6) Diff_subset i_store(1)])
    show "keys_distinct (gorm_Put now key v (i_db s))" using i_store(6) by (simp add: isys_ok_def keys_distinct_ops)
    fix q assume q: "live_in s q" "blocks_key (i_db s) q"
    then have "snd (snd q) \<le> t + cfg_lease c" using i_store(1,6) unfolding isys_ok_def live_in_def by force
    then have u: "snd (snd q) \<le> st_ExpiresAt v" using exp by simp
    obtain x where x: "row_of (gorm_Put now key v (i_db s)) key = Some x" "ik_status x = RowDone" "stored x = v"
      using Put_stored by blast
    show "blocks_key (gorm_Put now key v (i_db s)) q"
    proof (cases "fst q = key")
      case True
      have "ik_expires_at x = st_ExpiresAt v" using x(3) by (auto simp: stored_def)
      then show ?thesis using True x u by (simp add: blocks_key_iff)
    next
      case False
      then show ?thesis using q(2) by (simp add: blocks_key_iff row_of_Put)
    qed
  qed
next
  case (i_release s t key token until)
  have kd: "keys_distinct (i_db s)" using i_release by (simp add: isys_ok_def)
  show ?case
  proof (rule isys_ok_shrink[OF i_release(4) Diff_subset i_release(1)])
    show "keys_distinct (Release_key key token (i_db s))" using kd by (simp add: keys_distinct_ops)
    fix q assume q: "q \<in> i_running s - {(key, token, until)}" "blocks_key (i_db s) q"
    then have "fst (snd q) \<noteq> token" using i_release(2,4) unfolding isys_ok_def by (metis DiffE fst_conv insertI1 snd_conv)
    then show "blocks_key (Release_key key token (i_db s)) q" using q(2) kd by (auto simp: blocks_key_iff row_of_Release)
  qed
next
  case (i_cleanup s t now)
  have kd: "keys_distinct (i_db s)" using i_cleanup by (simp add: isys_ok_def)
  have "blocks_key (fst (Cleanup_keys now (i_db s))) q" if "t < snd (snd q)" "blocks_key (i_db s) q" for q
    using that kd i_cleanup(2) by (auto simp: blocks_key_iff row_of_Cleanup)
  then show ?case using isys_ok_shrink[OF i_cleanup(4) subset_refl i_cleanup(1) keys_distinct_ops(4)[OF kd]] by simp
next
  case (i_crash s t R)
  have "keys_distinct (i_db s)" using i_crash by (simp add: isys_ok_def)
  then show ?case using isys_ok_shrink[OF i_crash(3) Diff_subset i_crash(1), of "i_db s" R] by simp
qed

lemma i_init_ok: "isys_ok c i_init"
  by (simp add: isys_ok_def i_init_def keys_distinct_def live_in_def)

lemma reachable_ok: "(istep c slack)\<^sup>*\<^sup>* i_init s \<Longrightarrow> cfg_lease c + slack \<le> cfg_ttl c \<Longrightarrow> isys_ok c s"
  by (induction rule: rtranclp_induct) (auto intro: i_init_ok istep_ok)

section \<open>The in-memory store\<close>

definition mem_ok :: "InMemoryStore \<Rightarrow> bool" where
  "mem_ok s \<longleftrightarrow>
     0 < ms_maxEntries s \<and> distinct (ms_order s) \<and> distinct (map fst (ms_entries s)) \<and>
     set (ms_order s) = fst ` set (ms_entries s) \<and> int (length (ms_order s)) \<le> ms_maxEntries s"

lemma mem_new: "mem_ok (NewInMemoryStore n)"
  by (simp add: mem_ok_def NewInMemoryStore_def)

lemma map_of_delete: "map_of (map_delete k m) = (map_of m)(k := None)"
  by (rule ext) (induction m, auto simp: map_delete_def)

lemma map_of_put: "map_of (map_put k v m) = (map_of m)(k \<mapsto> v)"
proof -
  have "map_put k v m = (k, v) # map_delete k m" by (simp add: map_put_def map_delete_def)
  then show ?thesis by (simp add: map_of_delete)
qed

lemma map_keys: "fst ` set (map_delete k m) = fst ` set m - {k}" "fst ` set (map_put k v m) = insert k (fst ` set m)"
  by (auto simp: map_delete_def map_put_def)

lemma map_distinct:
  "distinct (map fst m) \<Longrightarrow> distinct (map fst (map_delete k m))" "distinct (map fst m) \<Longrightarrow> distinct (map fst (map_put k v m))"
  by (auto simp: map_delete_def map_put_def distinct_map_filter)

lemma mem_Get_ok: "mem_ok s \<Longrightarrow> mem_ok (fst (mem_Get now key s))"
  by (auto simp: mem_Get_def mem_ok_def removeFromOrder_def map_keys map_distinct length_remove1 split: option.splits)

lemma mem_Put_ok: "mem_ok s \<Longrightarrow> mem_ok (mem_Put key v s)"
proof -
  assume ok: "mem_ok s"
  then have hd: "ms_order s \<noteq> []" if "int (length (ms_order s)) \<ge> ms_maxEntries s"
    using that by (auto simp: mem_ok_def)
  show ?thesis
  proof (cases "map_of (ms_entries s) key")
    case (Some w)
    then have "key \<in> fst ` set (ms_entries s)" by (force dest: map_of_SomeD)
    with ok Some show ?thesis by (auto simp: mem_Put_def mem_ok_def map_keys map_distinct)
  next
    case None
    then have new: "key \<notin> set (ms_order s)" using ok by (auto simp: mem_ok_def map_of_eq_None_iff)
    show ?thesis
    proof (cases "int (length (ms_order s)) \<ge> ms_maxEntries s")
      case True
      then obtain x xs where "ms_order s = x # xs" using hd by (cases "ms_order s") auto
      with ok None new True show ?thesis by (auto simp: mem_Put_def Let_def mem_ok_def map_keys map_distinct)
    next
      case False
      with ok None new show ?thesis by (auto simp: mem_Put_def Let_def mem_ok_def map_keys map_distinct)
    qed
  qed
qed

lemma mem_Put_lookup:
  "map_of (ms_entries (mem_Put key v s)) k =
     (if k = key then Some v
      else if map_of (ms_entries s) key = None \<and> int (length (ms_order s)) \<ge> ms_maxEntries s \<and> k = hd (ms_order s) then None
      else map_of (ms_entries s) k)"
  by (auto simp: mem_Put_def Let_def map_of_put map_of_delete)

section \<open>Reservations without interference\<close>

lemma Reserve_alone:
  assumes "0 < lease"
  shows "Reserve i e (\<lambda>_ d. d) key lease db =
    (case row_of db key of
       Some r \<Rightarrow>
         if ik_expires_at r > ie_clock e i then
           (db, \<lparr>re_Acquired = False, re_Token = [], re_Replay = (if ik_status r = RowDone then Some (stored r) else None)\<rparr>)
         else (fst (claim_key key (idem_token e i) (ie_clock e i) lease db),
               \<lparr>re_Acquired = True, re_Token = idem_token e i, re_Replay = None\<rparr>)
     | None \<Rightarrow> (fst (claim_key key (idem_token e i) (ie_clock e i) lease db),
               \<lparr>re_Acquired = True, re_Token = idem_token e i, re_Replay = None\<rparr>))"
  using assms
  by (auto simp: Reserve_def numeral_3_eq_3 Let_def claim_key_def split: option.splits row_status.splits)
     (metis row_status.exhaust)+

section \<open>Properties\<close>

text \<open>C20. Concurrent duplicates do not run together. Requests on any number of replicas claim, store, release, crash and hang
  in any order and at any time, and a response may be written long after its request's lease; the time to live is at least
  the lease plus the delay between computing a response's expiry and writing it. Then in every reachable state two running
  requests with the same key whose leases last are the same request; and until its lease ends no other request gets the key:
  its claim changes nothing, and \<^verbatim>\<open>Reserve\<close> reports the key as in flight, or replays the response stored under it.\<close>

theorem duplicates_do_not_run_together:
  assumes "(istep c slack)\<^sup>*\<^sup>* i_init s" and "cfg_lease c + slack \<le> cfg_ttl c"
    and "(key, tok, u) \<in> i_running s" and "i_clock s < u"
  shows "(\<forall>tok' u'. (key, tok', u') \<in> i_running s \<and> i_clock s < u' \<longrightarrow> tok' = tok \<and> u' = u) \<and>
    (\<forall>t token lease. t < u \<longrightarrow> claim_key key token t lease (i_db s) = (i_db s, False)) \<and>
    (\<forall>e i lease. 0 < lease \<and> ie_clock e i < u \<longrightarrow>
       fst (Reserve i e (\<lambda>_ d. d) key lease (i_db s)) = i_db s \<and>
       (let res = snd (Reserve i e (\<lambda>_ d. d) key lease (i_db s)) in
        InFlight res \<or> \<not> re_Acquired res \<and> re_Replay res = map_option stored (row_of (i_db s) key)))"
proof -
  have ok: "isys_ok c s" using reachable_ok[OF assms(1,2)] .
  have q: "live_in s (key, tok, u)" using assms(3,4) by (simp add: live_in_def)
  then have own: "blocks_key (i_db s) (key, tok, u)" using ok unfolding isys_ok_def by blast
  then obtain r where r: "row_of (i_db s) key = Some r" "u \<le> ik_expires_at r" by (auto simp: blocks_key_iff)
  have "tok' = tok \<and> u' = u" if "(key, tok', u') \<in> i_running s" "i_clock s < u'" for tok' u'
  proof -
    have "live_in s (key, tok', u')" using that by (simp add: live_in_def)
    with q ok have "(key, tok', u') = (key, tok, u)" unfolding isys_ok_def by (metis fst_conv)
    then show ?thesis by simp
  qed
  moreover have "claim_key key token t lease (i_db s) = (i_db s, False)" if "t < u" for t token lease
    using blocks_claim[OF own, of t] that by simp
  moreover have "fst (Reserve i e (\<lambda>_ d. d) key lease (i_db s)) = i_db s \<and>
      (let res = snd (Reserve i e (\<lambda>_ d. d) key lease (i_db s)) in
       InFlight res \<or> \<not> re_Acquired res \<and> re_Replay res = map_option stored (row_of (i_db s) key))"
    if "0 < lease" "ie_clock e i < u" for e i lease
    using that r by (simp add: Reserve_alone InFlight_def)
  ultimately show ?thesis by blast
qed

definition sample_ienv :: "int \<Rightarrow> ienv" where
  "sample_ienv now = \<lparr>ie_clock = (\<lambda>_. now), ie_bytes = (\<lambda>_. ''r''), ie_sha256 = (\<lambda>s. s)\<rparr>"

definition sample_idem_config :: IdemConfig where
  "sample_idem_config = \<lparr>ic_TTL = 1000, ic_CacheStatus = None, ic_LockTimeout = 60, ic_InFlightWait = 0\<rparr>"

lemma sample_idem_times: "cfg_lease sample_idem_config = 60" "cfg_ttl sample_idem_config = 1000"
  by (simp_all add: sample_idem_config_def cfg_lease_def cfg_ttl_def)

definition sample_claimed :: isys where
  "sample_claimed = \<lparr>i_db = [pending_row ''k'' ''t'' 0 60], i_running = {(''k'', ''t'', 60)}, i_tokens = {''t''}, i_clock = 0\<rparr>"

lemma sample_claimed_reachable: "(istep sample_idem_config 1)\<^sup>*\<^sup>* i_init sample_claimed"
proof -
  have "claim_key ''k'' ''t'' 0 (cfg_lease sample_idem_config) (i_db i_init) = ([pending_row ''k'' ''t'' 0 60], True)"
    by (simp add: claim_key_def row_of_def i_init_def sample_idem_times)
  from i_claim[OF _ _ _ this, of 0] have "istep sample_idem_config 1 i_init sample_claimed" by (simp add: i_init_def sample_claimed_def sample_idem_times)
  then show ?thesis by blast
qed

theorem duplicates_do_not_run_together_witness:
  "fst (Reserve 0 (sample_ienv 30) (\<lambda>_ d. d) ''k'' 60 (i_db sample_claimed)) = i_db sample_claimed \<and>
   claim_key ''k'' ''x'' 30 60 (i_db sample_claimed) = (i_db sample_claimed, False)"
  using duplicates_do_not_run_together[OF sample_claimed_reachable, of "''k''" "''t''" 60]
  by (simp add: sample_claimed_def sample_ienv_def sample_idem_times)

text \<open>\<^verbatim>\<open>Put\<close> is not fenced: a request that outlived its lease writes its response over the live reservation of the request
  that took over, and the second one then writes over the first's stored response, so two retries of the same key get
  different answers.\<close>

definition sample_overtaken :: isys where
  "sample_overtaken = \<lparr>i_db = [pending_row ''k'' ''x'' 70 60], i_running = {(''k'', ''x'', 130), (''k'', ''t'', 60)},
     i_tokens = {''x'', ''t''}, i_clock = 70\<rparr>"

lemma sample_overtaken_reachable: "(istep sample_idem_config 1)\<^sup>*\<^sup>* i_init sample_overtaken"
proof -
  have "claim_key ''k'' ''x'' 70 (cfg_lease sample_idem_config) (i_db sample_claimed) = ([pending_row ''k'' ''x'' 70 60], True)"
    by (simp add: claim_key_def row_of_def sample_claimed_def sample_idem_times)
  from i_claim[OF _ _ _ this, of 70] have "istep sample_idem_config 1 sample_claimed sample_overtaken"
    by (simp add: sample_claimed_def sample_overtaken_def sample_idem_times)
  then show ?thesis using sample_claimed_reachable by simp
qed

lemma overdue_put_overwrites:
  "\<exists>s1 s2. (istep sample_idem_config 1)\<^sup>*\<^sup>* i_init s1 \<and> istep sample_idem_config 1 s1 s2 \<and>
     (''k'', ''x'', 130) \<in> i_running s1 \<and> i_clock s1 < 130 \<and>
     gorm_Get 85 ''k'' (i_db s1) = Some \<lparr>st_StatusCode = 201, st_Body = ''first'', st_ContentType = [], st_ExpiresAt = 1080\<rparr> \<and>
     gorm_Get 95 ''k'' (i_db s2) = Some \<lparr>st_StatusCode = 200, st_Body = ''second'', st_ContentType = [], st_ExpiresAt = 1090\<rparr>"
proof -
  let ?v = "\<lparr>st_StatusCode = 201, st_Body = ''first'', st_ContentType = [], st_ExpiresAt = 1080\<rparr>"
  let ?w = "\<lparr>st_StatusCode = 200, st_Body = ''second'', st_ContentType = [], st_ExpiresAt = 1090\<rparr>"
  define s1 where "s1 = sample_overtaken\<lparr>i_db := gorm_Put 80 ''k'' ?v (i_db sample_overtaken), i_running := {(''k'', ''x'', 130)}, i_clock := 80\<rparr>"
  define s2 where "s2 = s1\<lparr>i_db := gorm_Put 90 ''k'' ?w (i_db s1), i_running := {}, i_clock := 90\<rparr>"
  have e: "store_entry sample_idem_config 80 (Responded 201 ''first'' []) = Some ?v"
    "store_entry sample_idem_config 90 (Responded 200 ''second'' []) = Some ?w"
    by (simp_all add: store_entry_def cfg_cache_def sample_idem_config_def defaultCacheStatus_def cfg_ttl_def)
  have "istep sample_idem_config 1 sample_overtaken s1"
    using i_store[OF _ _ _ e(1), of sample_overtaken 80 1 "''k''" "''t''" 60 80] by (simp add: sample_overtaken_def s1_def insert_Diff_if)
  then have r: "(istep sample_idem_config 1)\<^sup>*\<^sup>* i_init s1" using sample_overtaken_reachable by simp
  have s: "istep sample_idem_config 1 s1 s2"
    using i_store[OF _ _ _ e(2), of s1 90 1 "''k''" "''x''" 130 90] by (simp add: s1_def s2_def)
  have "gorm_Get 85 ''k'' (i_db s1) = Some ?v" "gorm_Get 95 ''k'' (i_db s2) = Some ?w"
    by (simp_all add: s1_def s2_def sample_overtaken_def gorm_Put_def row_of_def update_where_def put_row_def gorm_Get_def stored_def)
  then show ?thesis using r s by (intro exI[of _ s1] exI[of _ s2]) (simp add: s1_def)
qed

definition sample_response :: Stored where
  "sample_response = \<lparr>st_StatusCode = 201, st_Body = ''ok'', st_ContentType = ''text'', st_ExpiresAt = 1000\<rparr>"

text \<open>A reservation, if acquired, is the pending row of its key.\<close>

definition holds_key :: "string \<Rightarrow> idem_row list \<Rightarrow> Reservation \<Rightarrow> bool" where
  "holds_key key db res \<longleftrightarrow> keys_distinct db \<and>
     (re_Acquired res \<longrightarrow>
        (\<exists>r. row_of db key = Some r \<and> ik_status r = RowPending \<and> ik_lock_token r = re_Token res))"

lemma Reserve_holds:
  assumes "keys_distinct db" and "0 < lease"
  shows "holds_key key (fst (Reserve i e (\<lambda>_ d. d) key lease db)) (snd (Reserve i e (\<lambda>_ d. d) key lease db))"
proof -
  have c: "claim_key key (idem_token e i) (ie_clock e i) lease db = (fst (claim_key key (idem_token e i) (ie_clock e i) lease db), True)"
    if "\<forall>r. row_of db key = Some r \<longrightarrow> ik_expires_at r \<le> ie_clock e i"
    using that by (auto simp: claim_key_def split: option.splits)
  show ?thesis
    using row_of_claim[OF c] keys_distinct_ops(2)[OF assms(1)] assms
    by (auto simp: Reserve_alone holds_key_def not_less split: option.splits)
qed

lemma wait_holds:
  assumes "holds_key key db res" and "0 < lease"
    and "wait_loop polls n e (\<lambda>_ d. d) key lease res db = (db', Some res')"
  shows "holds_key key db' res'"
  using assms(1,3)
proof (induction polls arbitrary: n res db)
  case (Cons live polls)
  show ?case
  proof (cases "InFlight res \<and> live")
    case True
    let ?R = "Reserve (3 * n) e (\<lambda>_ d. d) key lease db"
    have "holds_key key (fst ?R) (snd ?R)" using Reserve_holds[OF _ assms(2)] Cons.prems(1) by (simp add: holds_key_def)
    moreover have "wait_loop polls (Suc n) e (\<lambda>_ d. d) key lease (snd ?R) (fst ?R) = (db', Some res')"
      using Cons.prems(2) True by (simp split: prod.splits)
    ultimately show ?thesis using Cons.IH by blast
  next
    case False
    then show ?thesis using Cons.prems by (auto split: if_splits)
  qed
qed simp

lemma cfg_lease_pos: "0 < cfg_lease c"
  by (simp add: cfg_lease_def DefaultLockTimeout_def)

lemma serveLocked_owner:
  assumes "keys_distinct db" and "serveLocked c e (\<lambda>_ d. d) others' polls tdone key h db = (db', resp, True)"
  obtains db1 token r where "keys_distinct db1" "row_of db1 key = Some r" "ik_status r = RowPending" "ik_lock_token r = token"
    "db' = run_owner c tdone others' key token h db1" "resp = handled_response h"
proof -
  let ?R = "Reserve 0 e (\<lambda>_ d. d) key (cfg_lease c) db"
  define W where "W = (if InFlight (snd ?R) \<and> ic_InFlightWait c > 0
     then wait_loop polls 1 e (\<lambda>_ d. d) key (cfg_lease c) (snd ?R) (fst ?R) else (fst ?R, Some (snd ?R)))"
  have R: "holds_key key (fst ?R) (snd ?R)" by (rule Reserve_holds[OF assms(1) cfg_lease_pos])
  have eq: "serveLocked c e (\<lambda>_ d. d) others' polls tdone key h db =
     (case W of
        (db, None) \<Rightarrow> (db, Cancelled, False)
      | (db, Some res) \<Rightarrow>
          (case re_Replay res of
             Some v \<Rightarrow> (db, replay v, False)
           | None \<Rightarrow>
               if \<not> re_Acquired res then (db, Conflict, False)
               else (run_owner c tdone others' key (re_Token res) h db, handled_response h, True)))"
    unfolding serveLocked_def W_def by (simp add: case_prod_beta)
  obtain db1 res where W: "W = (db1, Some res)" "re_Replay res = None" "re_Acquired res"
    "db' = run_owner c tdone others' key (re_Token res) h db1" "resp = handled_response h"
    using assms(2) unfolding eq by (auto split: prod.splits option.splits if_splits)
  have "holds_key key db1 res"
    using R W(1) wait_holds[OF R cfg_lease_pos] unfolding W_def by (auto split: if_splits)
  then show thesis using W that unfolding holds_key_def by blast
qed

lemma serveLocked_replays:
  assumes "row_of db key = Some r" and "ik_status r = RowDone" and "ie_clock e 0 < ik_expires_at r"
  shows "serveLocked c e (\<lambda>_ d. d) others' polls tdone key h db = (db, replay (stored r), False)"
  using assms by (simp add: serveLocked_def Reserve_alone[OF cfg_lease_pos] InFlight_def)

text \<open>A client that retries gets the answer of its first request. When a request that got the key ends with a
  response whose status is cached, then every later request with the same key before the time to live is over is
  answered with the same status, body and content type, marked as a replay, without running its handler and without
  changing the store, whatever else was committed while the first handler ran. When the handler failed, panicked or
  gave another status, and nothing else was committed, the key is free again for the retry.\<close>

theorem retry_gets_first_answer:
  assumes "keys_distinct db" and "serveLocked c e (\<lambda>_ d. d) others' polls tdone key h db = (db', resp, True)"
  shows "case store_entry c tdone h of
     Some v \<Rightarrow>
       (\<exists>status body ctype. h = Responded status body ctype \<and> resp = Answer status body ctype False \<and>
          (\<forall>e2 others2 polls2 tdone2 h2. ie_clock e2 0 < tdone + cfg_ttl c \<longrightarrow>
             serveLocked c e2 (\<lambda>_ d. d) others2 polls2 tdone2 key h2 db' = (db', Answer status body ctype True, False)))
   | None \<Rightarrow> (\<forall>d. others' d = d) \<longrightarrow> row_of db' key = None"
proof -
  obtain db1 token r where o: "keys_distinct db1" "row_of db1 key = Some r" "ik_status r = RowPending" "ik_lock_token r = token"
    "db' = run_owner c tdone others' key token h db1" "resp = handled_response h"
    using serveLocked_owner[OF assms] by blast
  show ?thesis
  proof (cases "store_entry c tdone h")
    case None
    then show ?thesis using o row_of_key[OF o(2)] by (simp add: run_owner_def row_of_Release)
  next
    case (Some v)
    then obtain status body ctype where h: "h = Responded status body ctype"
      "v = \<lparr>st_StatusCode = status, st_Body = body, st_ContentType = ctype, st_ExpiresAt = tdone + cfg_ttl c\<rparr>"
      by (auto simp: store_entry_def split: handled.splits if_splits)
    obtain x where x: "row_of db' key = Some x" "ik_status x = RowDone" "stored x = v"
      using Put_stored[of tdone key v "others' db1"] o(5) Some by (auto simp: run_owner_def)
    have "ik_expires_at x = tdone + cfg_ttl c" "replay (stored x) = Answer status body ctype True"
      using x(3) h(2) by (auto simp: stored_def replay_def)
    then have "serveLocked c e2 (\<lambda>_ d. d) others2 polls2 tdone2 key h2 db' = (db', Answer status body ctype True, False)"
      if "ie_clock e2 0 < tdone + cfg_ttl c" for e2 others2 polls2 tdone2 h2
      using serveLocked_replays[OF x(1,2), of e2] that by simp
    then show ?thesis using Some h o(6) by (simp add: handled_response_def)
  qed
qed

theorem retry_gets_first_answer_witness:
  "\<exists>db'. serveLocked sample_idem_config (sample_ienv 0) (\<lambda>_ d. d) (\<lambda>d. d) [] 5 ''k'' (Responded 201 ''ok'' ''text'') [] =
      (db', Answer 201 ''ok'' ''text'' False, True) \<and>
    serveLocked sample_idem_config (sample_ienv 50) (\<lambda>_ d. d) (\<lambda>d. d) [] 55 ''k'' (Failed ''down'') db' =
      (db', Answer 201 ''ok'' ''text'' True, False)"
proof -
  obtain db' where f: "serveLocked sample_idem_config (sample_ienv 0) (\<lambda>_ d. d) (\<lambda>d. d) [] 5 ''k'' (Responded 201 ''ok'' ''text'') [] =
      (db', Answer 201 ''ok'' ''text'' False, True)"
    by (simp add: serveLocked_def Reserve_alone[OF cfg_lease_pos] row_of_def InFlight_def handled_response_def)
  have "store_entry sample_idem_config 5 (Responded 201 ''ok'' ''text'') \<noteq> None"
    by (simp add: store_entry_def cfg_cache_def sample_idem_config_def defaultCacheStatus_def)
  with retry_gets_first_answer[OF _ f] f show ?thesis
    by (auto simp: keys_distinct_def sample_ienv_def cfg_ttl_def sample_idem_config_def)
qed

text \<open>The in-memory store keeps to its bound: from a new store, however often it is read and written, it holds at
  most as many entries as its limit, one per key, with the insertion order listing exactly them; what was put is
  found until it expires, and a put forgets at most the oldest entry, and only when the store is full.\<close>

theorem memory_store_is_bounded:
  "let s = fold (\<lambda>op s. case op of Inl (now, k) \<Rightarrow> fst (mem_Get now k s) | Inr (k, v) \<Rightarrow> mem_Put k v s) ops (NewInMemoryStore n)
   in int (length (ms_entries s)) \<le> (if n \<le> 0 then 10000 else n) \<and> distinct (map fst (ms_entries s)) \<and>
      set (ms_order s) = fst ` set (ms_entries s) \<and>
      (\<forall>now. now \<le> st_ExpiresAt v \<longrightarrow> snd (mem_Get now key (mem_Put key v s)) = Some v) \<and>
      (\<forall>k. k \<noteq> key \<and> (map_of (ms_entries s) key \<noteq> None \<or> int (length (ms_entries s)) < (if n \<le> 0 then 10000 else n) \<or> k \<noteq> hd (ms_order s)) \<longrightarrow>
         map_of (ms_entries (mem_Put key v s)) k = map_of (ms_entries s) k)"
proof -
  define step where "step = (\<lambda>op s. case op of Inl (now, k) \<Rightarrow> fst (mem_Get now k s) | Inr (k, v) \<Rightarrow> mem_Put k v s)"
  define s where "s = fold step ops (NewInMemoryStore n)"
  have mx: "ms_maxEntries (fst (mem_Get now k t)) = ms_maxEntries t" "ms_maxEntries (mem_Put k w t) = ms_maxEntries t" for now k t w
    by (simp_all add: mem_Get_def mem_Put_def removeFromOrder_def Let_def split: option.splits)
  have "mem_ok (fold step ops t) \<and> ms_maxEntries (fold step ops t) = ms_maxEntries t" if "mem_ok t" for t
    using that by (induction ops arbitrary: t) (auto simp: step_def mem_Get_ok mem_Put_ok mx split: sum.splits prod.splits)
  then have ok: "mem_ok s" "ms_maxEntries s = (if n \<le> 0 then 10000 else n)"
    using mem_new[of n] by (auto simp: s_def NewInMemoryStore_def)
  then have len: "length (ms_entries s) = length (ms_order s)"
    unfolding mem_ok_def by (metis distinct_card length_map set_map)
  have "map_of (ms_entries (mem_Put key v s)) key = Some v" by (simp add: mem_Put_lookup)
  then have "snd (mem_Get now key (mem_Put key v s)) = Some v" if "now \<le> st_ExpiresAt v" for now
    using that by (simp add: mem_Get_def)
  moreover have "map_of (ms_entries (mem_Put key v s)) k = map_of (ms_entries s) k"
    if "k \<noteq> key" "map_of (ms_entries s) key \<noteq> None \<or> int (length (ms_entries s)) < ms_maxEntries s \<or> k \<noteq> hd (ms_order s)" for k
    using that len by (auto simp: mem_Put_lookup)
  ultimately show ?thesis using ok len unfolding s_def[symmetric] step_def[symmetric] Let_def mem_ok_def by auto
qed

theorem memory_store_is_bounded_witness:
  "snd (mem_Get 3 ''k'' (mem_Put ''k'' sample_response (NewInMemoryStore 1))) = Some sample_response"
  using memory_store_is_bounded[of "[]" 1 sample_response "''k''"] by (simp add: sample_response_def Let_def)

end
