(* ===== verification/Perm_Model.thy ===== *)
theory Perm_Model
  imports Prelude
begin

text \<open>
  The authorization service (\<^verbatim>\<open>src/permission\<close>): capabilities and roles, the two grant stores, the cache of resolved
  capabilities, the checks of the service and its HTTP gate, checks for token-based users, and the index from
  capabilities to models. \<open>L\<close> is \<^verbatim>\<open>strings.ToLower\<close> on texts outside ASCII.

  A grant table is the list of its rows. The rows embed \<^verbatim>\<open>modelbase.BaseUUIDModel\<close>, whose \<^verbatim>\<open>gorm.DeletedAt\<close> makes
  \<^verbatim>\<open>Delete\<close> set \<^verbatim>\<open>deleted_at\<close> and hides such rows from every query, while the unique index still contains them.
  A resolution of capabilities reads the store and fills the cache later: what other goroutines do to the cache in
  between, and the state of the store at each of its two reads, are arguments.
\<close>

section \<open>Capabilities and roles\<close>

type_synonym Capability = string
type_synonym Role = string
type_synonym uuid = string

definition nil_uuid :: uuid where
  "nil_uuid = ''00000000-0000-0000-0000-000000000000''"

definition Wildcard :: Capability where
  "Wildcard = ''*''"

definition Cap :: "(string \<Rightarrow> string) \<Rightarrow> string \<Rightarrow> string \<Rightarrow> Capability" where
  "Cap L resource action =
     (let r = ToLower L (TrimSpace resource); a = TrimSpace action in
      if r = [] then a else if a = [] then r else r @ ''.'' @ a)"

definition Cap_Resource :: "Capability \<Rightarrow> string" where
  "Cap_Resource c =
     (if c = Wildcard then []
      else case IndexByte c (CHR ''.'') of Some i \<Rightarrow> take i c | None \<Rightarrow> c)"

definition Cap_Action :: "Capability \<Rightarrow> string" where
  "Cap_Action c = (case IndexByte c (CHR ''.'') of Some i \<Rightarrow> drop (i + 1) c | None \<Rightarrow> [])"

definition Matches :: "Capability \<Rightarrow> Capability \<Rightarrow> bool" where
  "Matches c want \<longleftrightarrow> (if c = Wildcard then True else c = want)"

definition NormalizeRole :: "(string \<Rightarrow> string) \<Rightarrow> string \<Rightarrow> Role" where
  "NormalizeRole L r = ToLower L (TrimSpace r)"

definition DefaultSuperRoles :: "Role list" where
  "DefaultSuperRoles = [''owner'']"

section \<open>Stores\<close>

datatype perm_error = ErrPermissionDenied | ErrUnknownRole | ErrNoUser | StoreError string

text \<open>The interface \<^verbatim>\<open>PermissionStore\<close>: both results of each method.\<close>

record PermissionStore =
  GetRolePermissions :: "Role \<Rightarrow> Capability list \<times> perm_error option"
  GetUserPermissions :: "uuid \<Rightarrow> Capability list \<times> perm_error option"

record InMemoryStore_perm =
  roleCaps :: "Role \<Rightarrow> Capability list option"
  userCaps :: "uuid \<Rightarrow> Capability list option"

definition mem_SetRole :: "(string \<Rightarrow> string) \<Rightarrow> Role \<Rightarrow> Capability list \<Rightarrow> InMemoryStore_perm \<Rightarrow> InMemoryStore_perm" where
  "mem_SetRole L role caps s = s\<lparr>roleCaps := (roleCaps s)(NormalizeRole L role \<mapsto> caps)\<rparr>"

definition mem_SetUser :: "uuid \<Rightarrow> Capability list \<Rightarrow> InMemoryStore_perm \<Rightarrow> InMemoryStore_perm" where
  "mem_SetUser userID caps s = s\<lparr>userCaps := (userCaps s)(userID \<mapsto> caps)\<rparr>"

text \<open>The arguments are the entries of the two maps in the order they are visited.\<close>

definition NewInMemoryStore_perm ::
    "(string \<Rightarrow> string) \<Rightarrow> (Role \<times> Capability list) list \<Rightarrow> (uuid \<times> Capability list) list \<Rightarrow> InMemoryStore_perm" where
  "NewInMemoryStore_perm L roles users =
     fold (\<lambda>(u, caps) s. s\<lparr>userCaps := (userCaps s)(u \<mapsto> caps)\<rparr>) users
       (fold (\<lambda>(r, caps) s. s\<lparr>roleCaps := (roleCaps s)(NormalizeRole L r \<mapsto> caps)\<rparr>) roles
         \<lparr>roleCaps = Map.empty, userCaps = Map.empty\<rparr>)"

definition mem_GetRolePermissions :: "(string \<Rightarrow> string) \<Rightarrow> InMemoryStore_perm \<Rightarrow> Role \<Rightarrow> Capability list \<times> perm_error option" where
  "mem_GetRolePermissions L s role =
     (case roleCaps s (NormalizeRole L role) of
        None \<Rightarrow> ([], Some ErrUnknownRole)
      | Some caps \<Rightarrow> (caps, None))"

definition mem_GetUserPermissions :: "InMemoryStore_perm \<Rightarrow> uuid \<Rightarrow> Capability list \<times> perm_error option" where
  "mem_GetUserPermissions s userID = ((case userCaps s userID of None \<Rightarrow> [] | Some caps \<Rightarrow> caps), None)"

definition mem_store :: "(string \<Rightarrow> string) \<Rightarrow> InMemoryStore_perm \<Rightarrow> PermissionStore" where
  "mem_store L s = \<lparr>GetRolePermissions = mem_GetRolePermissions L s, GetUserPermissions = mem_GetUserPermissions s\<rparr>"

text \<open>Rows of the two grant tables, and the tables.\<close>

record RolePermission =
  rp_Role :: Role
  rp_Capability :: Capability
  rp_Deleted :: bool

record UserPermission =
  up_UserID :: uuid
  up_Capability :: Capability
  up_Deleted :: bool

record GormStore =
  role_grants :: "RolePermission list"
  user_grants :: "UserPermission list"

definition gorm_GetRolePermissions :: "(string \<Rightarrow> string) \<Rightarrow> GormStore \<Rightarrow> Role \<Rightarrow> Capability list \<times> perm_error option" where
  "gorm_GetRolePermissions L s role =
     (let rows = filter (\<lambda>r. \<not> rp_Deleted r \<and> rp_Role r = NormalizeRole L role) (role_grants s) in
      if rows = [] then ([], Some ErrUnknownRole) else (map rp_Capability rows, None))"

definition gorm_GetUserPermissions :: "GormStore \<Rightarrow> uuid \<Rightarrow> Capability list \<times> perm_error option" where
  "gorm_GetUserPermissions s userID =
     (let rows = filter (\<lambda>r. \<not> up_Deleted r \<and> up_UserID r = userID) (user_grants s) in (map up_Capability rows, None))"

definition gorm_store :: "(string \<Rightarrow> string) \<Rightarrow> GormStore \<Rightarrow> PermissionStore" where
  "gorm_store L s = \<lparr>GetRolePermissions = gorm_GetRolePermissions L s, GetUserPermissions = gorm_GetUserPermissions s\<rparr>"

text \<open>\<^verbatim>\<open>FirstOrCreate\<close>: the first visible row with the pair, or an insert, which the unique index refuses while any row,
  visible or not, has the pair.\<close>

definition unique_violation :: perm_error where
  "unique_violation = StoreError ''unique constraint''"

definition GrantRole :: "(string \<Rightarrow> string) \<Rightarrow> Role \<Rightarrow> Capability \<Rightarrow> GormStore \<Rightarrow> perm_error option \<times> GormStore" where
  "GrantRole L role c s =
     (let r = NormalizeRole L role in
      if \<exists>x\<in>set (role_grants s). \<not> rp_Deleted x \<and> rp_Role x = r \<and> rp_Capability x = c then (None, s)
      else if \<exists>x\<in>set (role_grants s). rp_Role x = r \<and> rp_Capability x = c then (Some unique_violation, s)
      else (None, s\<lparr>role_grants := role_grants s @ [\<lparr>rp_Role = r, rp_Capability = c, rp_Deleted = False\<rparr>]\<rparr>))"

definition GrantUser :: "uuid \<Rightarrow> Capability \<Rightarrow> GormStore \<Rightarrow> perm_error option \<times> GormStore" where
  "GrantUser userID c s =
     (if \<exists>x\<in>set (user_grants s). \<not> up_Deleted x \<and> up_UserID x = userID \<and> up_Capability x = c then (None, s)
      else if \<exists>x\<in>set (user_grants s). up_UserID x = userID \<and> up_Capability x = c then (Some unique_violation, s)
      else (None, s\<lparr>user_grants := user_grants s @ [\<lparr>up_UserID = userID, up_Capability = c, up_Deleted = False\<rparr>]\<rparr>))"

definition RevokeRole :: "(string \<Rightarrow> string) \<Rightarrow> Role \<Rightarrow> Capability \<Rightarrow> GormStore \<Rightarrow> GormStore" where
  "RevokeRole L role c s =
     s\<lparr>role_grants := map (\<lambda>x. if \<not> rp_Deleted x \<and> rp_Role x = NormalizeRole L role \<and> rp_Capability x = c
                              then x\<lparr>rp_Deleted := True\<rparr> else x) (role_grants s)\<rparr>"

definition RevokeUser :: "uuid \<Rightarrow> Capability \<Rightarrow> GormStore \<Rightarrow> GormStore" where
  "RevokeUser userID c s =
     s\<lparr>user_grants := map (\<lambda>x. if \<not> up_Deleted x \<and> up_UserID x = userID \<and> up_Capability x = c
                              then x\<lparr>up_Deleted := True\<rparr> else x) (user_grants s)\<rparr>"

section \<open>The cache\<close>

record cacheEntry =
  ce_caps :: "Capability list"
  ce_expiresAt :: int

record Service =
  sv_ttl :: int
  sv_entries :: "uuid \<Rightarrow> cacheEntry option"
  sv_superRoles :: "Role list"

definition cache_get :: "int \<Rightarrow> Service \<Rightarrow> uuid \<Rightarrow> Capability list option" where
  "cache_get now s userID =
     (if sv_ttl s \<le> 0 then None
      else case sv_entries s userID of
             None \<Rightarrow> None
           | Some ent \<Rightarrow> if now > ce_expiresAt ent then None else Some (ce_caps ent))"

definition cache_put :: "int \<Rightarrow> uuid \<Rightarrow> Capability list \<Rightarrow> Service \<Rightarrow> Service" where
  "cache_put now userID caps s =
     (if sv_ttl s \<le> 0 \<or> userID = nil_uuid then s
      else s\<lparr>sv_entries := (sv_entries s)(userID \<mapsto> \<lparr>ce_caps = caps, ce_expiresAt = now + sv_ttl s\<rparr>)\<rparr>)"

definition InvalidateUser :: "uuid \<Rightarrow> Service \<Rightarrow> Service" where
  "InvalidateUser userID s = s\<lparr>sv_entries := (sv_entries s)(userID := None)\<rparr>"

definition InvalidateAll :: "Service \<Rightarrow> Service" where
  "InvalidateAll s = s\<lparr>sv_entries := Map.empty\<rparr>"

section \<open>The service\<close>

definition DefaultCacheTTL :: int where
  "DefaultCacheTTL = 5 * 60 * 1000000000"

text \<open>\<open>None\<close> is the nil slice of super roles.\<close>

definition New_Service :: "(string \<Rightarrow> string) \<Rightarrow> int \<Rightarrow> Role list option \<Rightarrow> Service" where
  "New_Service L cacheTTL super =
     \<lparr>sv_ttl = (if cacheTTL = 0 then DefaultCacheTTL else cacheTTL), sv_entries = Map.empty,
      sv_superRoles = map (NormalizeRole L) (case super of None \<Rightarrow> DefaultSuperRoles | Some rs \<Rightarrow> rs)\<rparr>"

record AuthUser =
  au_ID :: uuid
  au_Role :: string

definition isSuperRole :: "(string \<Rightarrow> string) \<Rightarrow> Service \<Rightarrow> string \<Rightarrow> bool" where
  "isSuperRole L s role \<longleftrightarrow> (if role = [] then False else NormalizeRole L role \<in> set (sv_superRoles s))"

text \<open>What one resolution meets: the time of the cache lookup, the store at its two reads, what happens to the
  service before the cache is filled, and the time of that.\<close>

record resolution =
  rs_now :: int
  rs_role_store :: PermissionStore
  rs_user_store :: PermissionStore
  rs_between :: "Service \<Rightarrow> Service"
  rs_put :: int

text \<open>The loops that append what was not seen.\<close>

definition add_unseen :: "Capability list \<Rightarrow> Capability list \<Rightarrow> Capability list" where
  "add_unseen caps out = fold (\<lambda>c out. if c \<in> set out then out else out @ [c]) caps out"

text \<open>The two reads of the store.\<close>

definition read_grants :: "(string \<Rightarrow> string) \<Rightarrow> resolution \<Rightarrow> AuthUser \<Rightarrow> (perm_error, Capability list) result" where
  "read_grants L rs user =
     (let role = NormalizeRole L (au_Role user) in
      rbind (if role = [] then Inr []
             else case GetRolePermissions (rs_role_store rs) role of
                    (rcaps, err) \<Rightarrow>
                      (case err of
                         Some e \<Rightarrow> if e \<noteq> ErrUnknownRole then Inl e else Inr (add_unseen rcaps [])
                       | None \<Rightarrow> Inr (add_unseen rcaps []))) (\<lambda>out.
      if au_ID user = nil_uuid then Inr out
      else case GetUserPermissions (rs_user_store rs) (au_ID user) of
             (ucaps, err) \<Rightarrow>
               (case err of Some e \<Rightarrow> Inl e | None \<Rightarrow> Inr (add_unseen ucaps out))))"

definition GetUserCapabilities ::
    "(string \<Rightarrow> string) \<Rightarrow> resolution \<Rightarrow> AuthUser option \<Rightarrow> Service \<Rightarrow> (perm_error, Capability list) result \<times> Service" where
  "GetUserCapabilities L rs user s =
     (case user of
        None \<Rightarrow> (Inl ErrNoUser, s)
      | Some u \<Rightarrow>
          (case cache_get (rs_now rs) s (au_ID u) of
             Some cached \<Rightarrow> (Inr cached, s)
           | None \<Rightarrow>
               if isSuperRole L s (au_Role u) then
                 (Inr [Wildcard], cache_put (rs_put rs) (au_ID u) [Wildcard] (rs_between rs s))
               else case read_grants L rs u of
                      Inl e \<Rightarrow> (Inl e, rs_between rs s)
                    | Inr out \<Rightarrow> (Inr out, cache_put (rs_put rs) (au_ID u) out (rs_between rs s))))"

text \<open>The checks: \<open>None\<close> is the nil error.\<close>

definition Check ::
    "(string \<Rightarrow> string) \<Rightarrow> resolution \<Rightarrow> AuthUser option \<Rightarrow> Capability \<Rightarrow> Service \<Rightarrow> perm_error option \<times> Service" where
  "Check L rs user c s =
     (case user of
        None \<Rightarrow> (Some ErrNoUser, s)
      | Some u \<Rightarrow>
          if isSuperRole L s (au_Role u) then (None, s)
          else case GetUserCapabilities L rs user s of
                 (Inl e, s') \<Rightarrow> (Some e, s')
               | (Inr caps, s') \<Rightarrow>
                   (if \<exists>h\<in>set caps. Matches h c then None else Some ErrPermissionDenied, s'))"

definition CheckAny ::
    "(string \<Rightarrow> string) \<Rightarrow> resolution \<Rightarrow> AuthUser option \<Rightarrow> Capability list \<Rightarrow> Service \<Rightarrow> perm_error option \<times> Service" where
  "CheckAny L rs user caps s =
     (case user of
        None \<Rightarrow> (Some ErrNoUser, s)
      | Some u \<Rightarrow>
          if caps = [] then (None, s)
          else if isSuperRole L s (au_Role u) then (None, s)
          else case GetUserCapabilities L rs user s of
                 (Inl e, s') \<Rightarrow> (Some e, s')
               | (Inr ucaps, s') \<Rightarrow>
                   (if \<exists>want\<in>set caps. \<exists>held\<in>set ucaps. Matches held want then None else Some ErrPermissionDenied, s'))"

text \<open>The loop of \<^verbatim>\<open>CheckAll\<close> over the user's capabilities: whether it met the wildcard, and the set built so far.\<close>

fun collect_caps :: "Capability list \<Rightarrow> Capability list \<Rightarrow> bool \<times> Capability list" where
  "collect_caps [] seen = (False, seen)"
| "collect_caps (c # cs) seen = (if c = Wildcard then (True, seen) else collect_caps cs (c # seen))"

definition CheckAll ::
    "(string \<Rightarrow> string) \<Rightarrow> resolution \<Rightarrow> AuthUser option \<Rightarrow> Capability list \<Rightarrow> Service \<Rightarrow> perm_error option \<times> Service" where
  "CheckAll L rs user caps s =
     (case user of
        None \<Rightarrow> (Some ErrNoUser, s)
      | Some u \<Rightarrow>
          if caps = [] then (None, s)
          else if isSuperRole L s (au_Role u) then (None, s)
          else case GetUserCapabilities L rs user s of
                 (Inl e, s') \<Rightarrow> (Some e, s')
               | (Inr ucaps, s') \<Rightarrow>
                   (let (hasWildcard, seen) = collect_caps ucaps [] in
                    (if hasWildcard then None
                     else if \<forall>want\<in>set caps. want \<in> set seen then None else Some ErrPermissionDenied, s')))"

section \<open>The gate and token-based users\<close>

datatype CheckMode = ModeAll | ModeAny

text \<open>What the middleware does: call the next handler, or answer through one of the two responders.\<close>

datatype gate_answer = GateNext | OnUnauthenticated perm_error | OnDenied perm_error

definition gateWith ::
    "(string \<Rightarrow> string) \<Rightarrow> resolution \<Rightarrow> CheckMode \<Rightarrow> AuthUser option \<Rightarrow> Capability list \<Rightarrow> Service \<Rightarrow> gate_answer \<times> Service" where
  "gateWith L rs mode user caps s =
     (case user of
        None \<Rightarrow> (OnUnauthenticated ErrNoUser, s)
      | Some _ \<Rightarrow>
          (let (err, s') =
             (case caps of
                [] \<Rightarrow> (None, s)
              | [c] \<Rightarrow> Check L rs user c s
              | _ \<Rightarrow> if mode = ModeAny then CheckAny L rs user caps s else CheckAll L rs user caps s)
           in (case err of
                 Some e \<Rightarrow> if e = ErrNoUser then OnUnauthenticated e else OnDenied e
               | None \<Rightarrow> GateNext, s')))"

text \<open>An \<^verbatim>\<open>AuthUserProvider\<close>: the user it wraps when it is a \<^verbatim>\<open>modelbaseProvider\<close>, and its \<^verbatim>\<open>HasPermission\<close> when it has
  one.\<close>

record AuthUserProvider =
  pv_UserID :: uuid
  pv_Roles :: "string list"
  pv_wrapped :: "AuthUser option"
  pv_checker :: "(string \<Rightarrow> bool) option"

definition HasPermission :: "string list \<Rightarrow> string \<Rightarrow> bool" where
  "HasPermission capabilities key \<longleftrightarrow> (\<exists>c\<in>set capabilities. c = ''*'' \<or> c = key)"

definition JWTClaimsProvider :: "uuid \<Rightarrow> string list \<Rightarrow> string list \<Rightarrow> AuthUserProvider" where
  "JWTClaimsProvider ident roles capabilities =
     \<lparr>pv_UserID = ident, pv_Roles = roles, pv_wrapped = None, pv_checker = Some (HasPermission capabilities)\<rparr>"

definition WrapModelbaseUser :: "AuthUser \<Rightarrow> AuthUserProvider" where
  "WrapModelbaseUser u =
     \<lparr>pv_UserID = au_ID u, pv_Roles = (if au_Role u = [] then [] else [au_Role u]), pv_wrapped = Some u, pv_checker = None\<rparr>"

definition WrapAsModelbase :: "AuthUserProvider \<Rightarrow> AuthUser" where
  "WrapAsModelbase p =
     (case pv_wrapped p of
        Some u \<Rightarrow> u
      | None \<Rightarrow> \<lparr>au_ID = pv_UserID p, au_Role = (case pv_Roles p of [] \<Rightarrow> [] | r # _ \<Rightarrow> r)\<rparr>)"

definition CheckProvider ::
    "(string \<Rightarrow> string) \<Rightarrow> resolution \<Rightarrow> AuthUserProvider option \<Rightarrow> Capability \<Rightarrow> Service \<Rightarrow> perm_error option \<times> Service" where
  "CheckProvider L rs provider c s =
     (case provider of
        None \<Rightarrow> (Some ErrNoUser, s)
      | Some p \<Rightarrow>
          if (case pv_checker p of Some has \<Rightarrow> has c | None \<Rightarrow> False) then (None, s)
          else Check L rs (Some (WrapAsModelbase p)) c s)"

definition CheckProviderAny ::
    "(string \<Rightarrow> string) \<Rightarrow> resolution \<Rightarrow> AuthUserProvider option \<Rightarrow> Capability list \<Rightarrow> Service \<Rightarrow> perm_error option \<times> Service" where
  "CheckProviderAny L rs provider caps s =
     (case provider of
        None \<Rightarrow> (Some ErrNoUser, s)
      | Some p \<Rightarrow>
          if (case pv_checker p of Some has \<Rightarrow> \<exists>c\<in>set caps. has c | None \<Rightarrow> False) then (None, s)
          else CheckAny L rs (Some (WrapAsModelbase p)) caps s)"

definition CheckProviderAll ::
    "(string \<Rightarrow> string) \<Rightarrow> resolution \<Rightarrow> AuthUserProvider option \<Rightarrow> Capability list \<Rightarrow> Service \<Rightarrow> perm_error option \<times> Service" where
  "CheckProviderAll L rs provider caps s =
     (case provider of
        None \<Rightarrow> (Some ErrNoUser, s)
      | Some p \<Rightarrow>
          if (case pv_checker p of Some has \<Rightarrow> \<forall>c\<in>set caps. has c | None \<Rightarrow> False) then (None, s)
          else CheckAll L rs (Some (WrapAsModelbase p)) caps s)"

section \<open>Model grants\<close>

record modelGrant =
  mg_model :: string
  mg_actions :: "string list"

text \<open>\<^verbatim>\<open>byAddon\<close>, and the per-capability index of one addon: association lists, in the order a map is visited.\<close>

type_synonym addon_index = "(string \<times> modelGrant list) list"
type_synonym ModelGrants = "(string \<times> addon_index) list"

text \<open>The text after the last dot.\<close>

definition after_last_dot :: "string \<Rightarrow> string" where
  "after_last_dot s = rev (takeWhile (\<lambda>c. c \<noteq> CHR ''.'') (rev s))"

definition normModel :: "(string \<Rightarrow> string) \<Rightarrow> string \<Rightarrow> string" where
  "normModel L s = filter (\<lambda>c. c \<noteq> CHR ''_'') (ToLower L (after_last_dot (TrimSpace s)))"

definition normAction :: "(string \<Rightarrow> string) \<Rightarrow> string \<Rightarrow> string" where
  "normAction L a =
     (let s = ToLower L (TrimSpace a) in if take 7 s = ''action.'' then drop 7 s else s)"

definition normKey :: "(string \<Rightarrow> string) \<Rightarrow> string \<Rightarrow> string" where
  "normKey L k = ToLower L (TrimSpace k)"

record PermissionModel =
  pm_Model :: string
  pm_Actions :: "string list"

record PermissionDef =
  pd_Key :: string
  pd_Models :: "PermissionModel list"

text \<open>\<^verbatim>\<open>idx[capKey] = append(idx[capKey], mg)\<close>.\<close>

fun append_grant :: "string \<Rightarrow> modelGrant \<Rightarrow> addon_index \<Rightarrow> addon_index" where
  "append_grant k mg [] = [(k, [mg])]"
| "append_grant k mg ((k', mgs) # idx) = (if k' = k then (k', mgs @ [mg]) # idx else (k', mgs) # append_grant k mg idx)"

definition index_model :: "(string \<Rightarrow> string) \<Rightarrow> string \<Rightarrow> PermissionModel \<Rightarrow> addon_index \<Rightarrow> addon_index" where
  "index_model L capKey pm idx =
     (if normModel L (pm_Model pm) = [] \<or> pm_Actions pm = [] then idx
      else append_grant capKey \<lparr>mg_model = normModel L (pm_Model pm), mg_actions = map (normAction L) (pm_Actions pm)\<rparr> idx)"

definition index_perms :: "(string \<Rightarrow> string) \<Rightarrow> PermissionDef list \<Rightarrow> addon_index" where
  "index_perms L perms = fold (\<lambda>p. fold (index_model L (normKey L (pd_Key p))) (pd_Models p)) perms []"

definition Unregister_grants :: "string \<Rightarrow> ModelGrants \<Rightarrow> ModelGrants" where
  "Unregister_grants addonKey g = filter (\<lambda>(a, _). a \<noteq> addonKey) g"

definition Register_grants :: "(string \<Rightarrow> string) \<Rightarrow> string \<Rightarrow> PermissionDef list \<Rightarrow> ModelGrants \<Rightarrow> ModelGrants" where
  "Register_grants L addonKey perms g =
     (let idx = index_perms L perms in
      if idx = [] then Unregister_grants addonKey g
      else (addonKey, idx) # Unregister_grants addonKey g)"

text \<open>Whether one capability reaches one of the names for one of the actions, in some addon's index.\<close>

definition grant_reaches :: "(string \<Rightarrow> string) \<Rightarrow> ModelGrants \<Rightarrow> string list \<Rightarrow> string list \<Rightarrow> string \<Rightarrow> bool" where
  "grant_reaches L g names actions grant \<longleftrightarrow>
     (\<exists>(a, idx)\<in>set g. \<exists>mg\<in>set (case map_of idx (normKey L grant) of None \<Rightarrow> [] | Some mgs \<Rightarrow> mgs).
        mg_model mg \<in> set names \<and> (\<exists>a\<in>set actions. normAction L a \<in> set (mg_actions mg)))"

definition Allows :: "(string \<Rightarrow> string) \<Rightarrow> ModelGrants \<Rightarrow> string list \<Rightarrow> string list \<Rightarrow> string list \<Rightarrow> string option" where
  "Allows L g grants actions modelNames =
     (let names = filter (\<lambda>k. k \<noteq> []) (map (normModel L) modelNames) in
      find (grant_reaches L g names actions) grants)"

end
