(* ===== verification/Perm_Properties.thy ===== *)
theory Perm_Properties
  imports Perm_Model
begin

text \<open>
  What the authorization service guarantees: the checks decide membership in the granted capabilities, whichever of
  the two stores is behind them; a decision rests on grants that were read within the cache's time to live; and the
  model index allows exactly what the installed manifests declare. Two weaknesses are proved too: an invalidation that
  arrives during a resolution is overtaken by it, and a revoked grant can never be granted again.
\<close>

section \<open>Resolving grants\<close>

lemma add_unseen_snoc: "add_unseen (c # cs) out = add_unseen cs (if c \<in> set out then out else out @ [c])"
  by (simp add: add_unseen_def)

lemma add_unseen_set [simp]: "set (add_unseen cs out) = set cs \<union> set out"
  by (induction cs arbitrary: out) (auto simp: add_unseen_def)

lemma add_unseen_distinct: "distinct out \<Longrightarrow> distinct (add_unseen cs out)"
  by (induction cs arbitrary: out) (auto simp: add_unseen_def)

lemma collect_caps_wild: "fst (collect_caps cs seen) \<longleftrightarrow> Wildcard \<in> set cs"
  by (induction cs seen rule: collect_caps.induct) auto

lemma collect_caps_set: "Wildcard \<notin> set cs \<Longrightarrow> set (snd (collect_caps cs seen)) = set cs \<union> set seen"
  by (induction cs seen rule: collect_caps.induct) auto

lemma read_grants_cong:
  "rs_role_store rs = rs_role_store rs' \<Longrightarrow> rs_user_store rs = rs_user_store rs' \<Longrightarrow> read_grants L rs = read_grants L rs'"
  by (intro ext) (simp only: read_grants_def)

text \<open>A capability is held when it, or the wildcard, is in the set.\<close>

definition held_in :: "Capability set \<Rightarrow> Capability \<Rightarrow> bool" where
  "held_in E c \<longleftrightarrow> c \<in> E \<or> Wildcard \<in> E"

lemma matches_held: "(\<exists>h\<in>set caps. Matches h c) \<longleftrightarrow> held_in (set caps) c"
  by (auto simp: Matches_def held_in_def)

lemma collect_held:
  "(if fst (collect_caps ucaps []) then True else \<forall>want\<in>set caps. want \<in> set (snd (collect_caps ucaps []))) \<longleftrightarrow>
   (\<forall>c\<in>set caps. held_in (set ucaps) c) \<or> Wildcard \<in> set ucaps"
  by (auto simp: collect_caps_wild collect_caps_set held_in_def)

text \<open>What one call answers, given what the resolution returns.\<close>

definition allowed :: "bool \<Rightarrow> perm_error option" where
  "allowed b = (if b then None else Some ErrPermissionDenied)"

lemma allowed_simps [simp]: "allowed True = None" "allowed False = Some ErrPermissionDenied"
  by (simp_all add: allowed_def)

lemma checks_resolved:
  assumes "\<not> isSuperRole L s (au_Role u)" and "GetUserCapabilities L rs (Some u) s = (Inr out, s')"
  shows "Check L rs (Some u) c s = (allowed (held_in (set out) c), s')"
    and "caps \<noteq> [] \<Longrightarrow> CheckAny L rs (Some u) caps s = (allowed (\<exists>c\<in>set caps. held_in (set out) c), s')"
    and "caps \<noteq> [] \<Longrightarrow> CheckAll L rs (Some u) caps s = (allowed (\<forall>c\<in>set caps. held_in (set out) c), s')"
proof -
  show "Check L rs (Some u) c s = (allowed (held_in (set out) c), s')"
    using assms by (simp add: Check_def matches_held allowed_def)
  show "caps \<noteq> [] \<Longrightarrow> CheckAny L rs (Some u) caps s = (allowed (\<exists>c\<in>set caps. held_in (set out) c), s')"
    using assms by (simp add: CheckAny_def matches_held allowed_def)
  assume ne: "caps \<noteq> []"
  obtain w seen where cc: "collect_caps out [] = (w, seen)" by fastforce
  have "w \<or> (\<forall>want\<in>set caps. want \<in> set seen) \<longleftrightarrow> (\<forall>c\<in>set caps. held_in (set out) c)"
    using collect_caps_wild[of out "[]"] collect_caps_set[of out "[]"] cc ne by (auto simp: held_in_def)
  then show "CheckAll L rs (Some u) caps s = (allowed (\<forall>c\<in>set caps. held_in (set out) c), s')"
    using assms ne cc by (auto simp: CheckAll_def allowed_def)
qed

text \<open>The capabilities a user has through the role and directly, given those of roles and users.\<close>

definition effective :: "(Role \<Rightarrow> Capability set) \<Rightarrow> (uuid \<Rightarrow> Capability set) \<Rightarrow> (string \<Rightarrow> string) \<Rightarrow> AuthUser \<Rightarrow> Capability set" where
  "effective R U L u =
     (if NormalizeRole L (au_Role u) = [] then {} else R (NormalizeRole L (au_Role u))) \<union>
     (if au_ID u = nil_uuid then {} else U (au_ID u))"

text \<open>The contract of a grant store: its answers are the capability sets of roles and users, an unknown role is an empty
  set, and there is no other error.\<close>

locale grant_store =
  fixes store :: "'s \<Rightarrow> PermissionStore"
    and role_set :: "'s \<Rightarrow> Role \<Rightarrow> Capability set"
    and user_set :: "'s \<Rightarrow> uuid \<Rightarrow> Capability set"
  assumes role_answer: "GetRolePermissions (store s) r = (cs, err) \<Longrightarrow> set cs = role_set s r \<and> (err = None \<or> err = Some ErrUnknownRole)"
    and user_answer: "GetUserPermissions (store s) u = (cs, err) \<Longrightarrow> set cs = user_set s u \<and> err = None"
begin

lemma reads_effective:
  assumes "rs_role_store rs = store t" and "rs_user_store rs = store t'"
  shows "\<exists>out. read_grants L rs u = Inr out \<and> distinct out \<and> set out = effective (role_set t) (user_set t') L u"
proof -
  obtain rc re uc ue where q: "GetRolePermissions (store t) (NormalizeRole L (au_Role u)) = (rc, re)"
    "GetUserPermissions (store t') (au_ID u) = (uc, ue)" by fastforce
  show ?thesis
    using role_answer[OF q(1)] user_answer[OF q(2)] assms q
    by (auto simp: read_grants_def effective_def Let_def add_unseen_distinct)
qed

lemma resolves_effective:
  assumes "rs_role_store rs = store t" and "rs_user_store rs = store t'"
    and "cache_get (rs_now rs) s (au_ID u) = None" and "\<not> isSuperRole L s (au_Role u)"
  shows "\<exists>out s'. GetUserCapabilities L rs (Some u) s = (Inr out, s') \<and> distinct out \<and> set out = effective (role_set t) (user_set t') L u"
  using reads_effective[OF assms(1,2), of L u] assms(3,4) by (auto simp: GetUserCapabilities_def)

lemma checks_decide:
  assumes "rs_role_store rs = store t" and "rs_user_store rs = store t'" and "cache_get (rs_now rs) s (au_ID u) = None"
    and holds: "\<And>c. holds c \<longleftrightarrow> isSuperRole L s (au_Role u) \<or> held_in (effective (role_set t) (user_set t') L u) c"
  shows "fst (Check L rs (Some u) c s) = allowed (holds c)"
    and "fst (CheckAny L rs (Some u) caps s) = allowed (caps = [] \<or> (\<exists>c\<in>set caps. holds c))"
    and "fst (CheckAll L rs (Some u) caps s) = allowed (\<forall>c\<in>set caps. holds c)"
proof -
  consider (super) "isSuperRole L s (au_Role u)" | (res) out s' where "\<not> isSuperRole L s (au_Role u)"
    "GetUserCapabilities L rs (Some u) s = (Inr out, s')" "set out = effective (role_set t) (user_set t') L u"
    using resolves_effective[OF assms(1-3)] by blast
  then have "fst (Check L rs (Some u) c s) = allowed (holds c) \<and>
    fst (CheckAny L rs (Some u) caps s) = allowed (caps = [] \<or> (\<exists>c\<in>set caps. holds c)) \<and>
    fst (CheckAll L rs (Some u) caps s) = allowed (\<forall>c\<in>set caps. holds c)"
  proof cases
    case super
    then show ?thesis by (cases caps) (auto simp: Check_def CheckAny_def CheckAll_def holds allowed_def)
  next
    case res
    show ?thesis
    proof (cases "caps = []")
      case True
      then show ?thesis using checks_resolved(1)[OF res(1,2)] res(1,3) by (simp add: CheckAny_def CheckAll_def holds)
    next
      case False
      then show ?thesis using checks_resolved[OF res(1,2)] res(1,3) by (simp add: holds)
    qed
  qed
  then show "fst (Check L rs (Some u) c s) = allowed (holds c)"
    "fst (CheckAny L rs (Some u) caps s) = allowed (caps = [] \<or> (\<exists>c\<in>set caps. holds c))"
    "fst (CheckAll L rs (Some u) caps s) = allowed (\<forall>c\<in>set caps. holds c)" by blast+
qed

lemma gate_decides:
  assumes "rs_role_store rs = store t" and "rs_user_store rs = store t'" and "cache_get (rs_now rs) s (au_ID u) = None"
    and holds: "\<And>c. holds c \<longleftrightarrow> isSuperRole L s (au_Role u) \<or> held_in (effective (role_set t) (user_set t') L u) c"
  shows "fst (Check L rs (Some u) c s) = allowed (holds c) \<and>
    fst (CheckAny L rs (Some u) caps s) = allowed (caps = [] \<or> (\<exists>c\<in>set caps. holds c)) \<and>
    fst (CheckAll L rs (Some u) caps s) = allowed (\<forall>c\<in>set caps. holds c) \<and>
    fst (gateWith L rs mode (Some u) caps s) =
      (if (if mode = ModeAny \<and> caps \<noteq> [] then \<exists>c\<in>set caps. holds c else \<forall>c\<in>set caps. holds c)
       then GateNext else OnDenied ErrPermissionDenied)"
proof -
  note checks = checks_decide[OF assms]
  have "fst (gateWith L rs mode (Some u) caps s) =
      (if (if mode = ModeAny \<and> caps \<noteq> [] then \<exists>c\<in>set caps. holds c else \<forall>c\<in>set caps. holds c)
       then GateNext else OnDenied ErrPermissionDenied)"
  proof (cases caps)
    case Nil
    then show ?thesis by (simp add: gateWith_def)
  next
    case (Cons a rest)
    show ?thesis
    proof (cases rest)
      case Nil
      then show ?thesis using checks(1)[of a] Cons by (cases "Check L rs (Some u) a s") (simp add: gateWith_def allowed_def)
    next
      case (Cons b bs)
      then have c: "gateWith L rs mode (Some u) caps s = (let (err, s') = (if mode = ModeAny then CheckAny L rs (Some u) caps s
        else CheckAll L rs (Some u) caps s) in (case err of Some e \<Rightarrow> if e = ErrNoUser then OnUnauthenticated e else OnDenied e
          | None \<Rightarrow> GateNext, s'))" using \<open>caps = a # rest\<close> by (simp add: gateWith_def)
      have ne: "caps \<noteq> []" using \<open>caps = a # rest\<close> by simp
      show ?thesis
      proof (cases "mode = ModeAny")
        case True
        then show ?thesis unfolding c using checks(2)[of caps] ne by (cases "CheckAny L rs (Some u) caps s") (auto simp: allowed_def)
      next
        case False
        then show ?thesis unfolding c using checks(3)[of caps] ne by (cases "CheckAll L rs (Some u) caps s") (auto simp: allowed_def)
      qed
    qed
  qed
  with checks show ?thesis by blast
qed

end

text \<open>The two stores fulfil the contract.\<close>

definition mem_role_set :: "(string \<Rightarrow> string) \<Rightarrow> InMemoryStore_perm \<Rightarrow> Role \<Rightarrow> Capability set" where
  "mem_role_set L s r = (case roleCaps s (NormalizeRole L r) of None \<Rightarrow> {} | Some cs \<Rightarrow> set cs)"

definition mem_user_set :: "InMemoryStore_perm \<Rightarrow> uuid \<Rightarrow> Capability set" where
  "mem_user_set s u = (case userCaps s u of None \<Rightarrow> {} | Some cs \<Rightarrow> set cs)"

interpretation mem: grant_store "mem_store L" "mem_role_set L" mem_user_set for L
  by unfold_locales
    (auto simp: mem_store_def mem_GetRolePermissions_def mem_GetUserPermissions_def mem_role_set_def mem_user_set_def split: option.splits)

definition role_grant_set :: "(string \<Rightarrow> string) \<Rightarrow> GormStore \<Rightarrow> Role \<Rightarrow> Capability set" where
  "role_grant_set L s r = {rp_Capability x |x. x \<in> set (role_grants s) \<and> \<not> rp_Deleted x \<and> rp_Role x = NormalizeRole L r}"

definition user_grant_set :: "GormStore \<Rightarrow> uuid \<Rightarrow> Capability set" where
  "user_grant_set s u = {up_Capability x |x. x \<in> set (user_grants s) \<and> \<not> up_Deleted x \<and> up_UserID x = u}"

interpretation gorm: grant_store "gorm_store L" "role_grant_set L" user_grant_set for L
  by unfold_locales
    (auto simp: gorm_store_def gorm_GetRolePermissions_def gorm_GetUserPermissions_def role_grant_set_def user_grant_set_def
       Let_def filter_empty_conv split: if_splits)

section \<open>The checks decide\<close>

text \<open>C29. On a cache miss the checks and the gate decide exactly by what the grant tables contain: a capability is held by
  a super role, or when a visible grant of the user's role or of the user names it or the wildcard. \<^verbatim>\<open>Check\<close> asks for one,
  \<^verbatim>\<open>CheckAny\<close> for one of a list, \<^verbatim>\<open>CheckAll\<close> for all of it, the gate for all or any as configured; with nothing asked
  for, everybody passes, and the only refusal is \<^verbatim>\<open>ErrPermissionDenied\<close>.\<close>

theorem permission_checks_decide:
  assumes "rs_role_store rs = gorm_store L t" and "rs_user_store rs = gorm_store L t'"
    and "cache_get (rs_now rs) s (au_ID u) = None"
    and "\<And>c. holds c \<longleftrightarrow> isSuperRole L s (au_Role u) \<or> held_in (effective (role_grant_set L t) (user_grant_set t') L u) c"
  shows "fst (Check L rs (Some u) c s) = allowed (holds c) \<and>
    fst (CheckAny L rs (Some u) caps s) = allowed (caps = [] \<or> (\<exists>c\<in>set caps. holds c)) \<and>
    fst (CheckAll L rs (Some u) caps s) = allowed (\<forall>c\<in>set caps. holds c) \<and>
    fst (gateWith L rs mode (Some u) caps s) =
      (if (if mode = ModeAny \<and> caps \<noteq> [] then \<exists>c\<in>set caps. holds c else \<forall>c\<in>set caps. holds c)
       then GateNext else OnDenied ErrPermissionDenied)"
  by (rule gorm.gate_decides[OF assms])

section \<open>How old a grant can be\<close>

text \<open>Every service state that can come about at a time, when the store has the contents \<open>H t\<close> at time \<open>t\<close>. A
  resolution looks the cache up, reads the store twice and fills the cache, in this order, while the service goes
  through any other states, and takes at most \<open>D\<close>; invalidations happen at any time.\<close>

inductive served :: "(string \<Rightarrow> string) \<Rightarrow> (int \<Rightarrow> PermissionStore) \<Rightarrow> int \<Rightarrow> Service \<Rightarrow> int \<Rightarrow> Service \<Rightarrow> bool"
  for L :: "string \<Rightarrow> string" and H :: "int \<Rightarrow> PermissionStore" and D :: int and s0 :: Service where
  boot: "sv_entries s0 = Map.empty \<Longrightarrow> served L H D s0 t s0"
| wait: "served L H D s0 t s \<Longrightarrow> t \<le> t' \<Longrightarrow> served L H D s0 t' s"
| invalidate: "served L H D s0 t s \<Longrightarrow> served L H D s0 t (InvalidateUser userID s)"
| invalidate_all: "served L H D s0 t s \<Longrightarrow> served L H D s0 t (InvalidateAll s)"
| resolve: "served L H D s0 (rs_now rs) s \<Longrightarrow> rs_now rs \<le> t1 \<Longrightarrow> t1 \<le> t2 \<Longrightarrow> t2 \<le> rs_put rs \<Longrightarrow>
    rs_put rs \<le> rs_now rs + D \<Longrightarrow> rs_role_store rs = H t1 \<Longrightarrow> rs_user_store rs = H t2 \<Longrightarrow> served L H D s0 (rs_put rs) (rs_between rs s) \<Longrightarrow>
    served L H D s0 (rs_put rs) (snd (GetUserCapabilities L rs (Some u) s))"

text \<open>A list of capabilities is what a user with this id had, as a super role or in the store within \<open>D\<close> before \<open>t\<close>.\<close>

definition had_at :: "(string \<Rightarrow> string) \<Rightarrow> (int \<Rightarrow> PermissionStore) \<Rightarrow> int \<Rightarrow> Service \<Rightarrow> uuid \<Rightarrow> Capability list \<Rightarrow> int \<Rightarrow> bool" where
  "had_at L H D s0 userID caps t \<longleftrightarrow>
     (\<exists>u. au_ID u = userID \<and>
        (isSuperRole L s0 (au_Role u) \<and> caps = [Wildcard] \<or>
         (\<exists>rs t1 t2. t - D \<le> t1 \<and> t1 \<le> t2 \<and> t2 \<le> t \<and> rs_role_store rs = H t1 \<and> rs_user_store rs = H t2 \<and> read_grants L rs u = Inr caps)))"

definition cache_ok :: "(string \<Rightarrow> string) \<Rightarrow> (int \<Rightarrow> PermissionStore) \<Rightarrow> int \<Rightarrow> Service \<Rightarrow> int \<Rightarrow> Service \<Rightarrow> bool" where
  "cache_ok L H D s0 t s \<longleftrightarrow> sv_ttl s = sv_ttl s0 \<and> sv_superRoles s = sv_superRoles s0 \<and>
     (\<forall>userID ent. sv_entries s userID = Some ent \<longrightarrow>
        ce_expiresAt ent - sv_ttl s0 \<le> t \<and> had_at L H D s0 userID (ce_caps ent) (ce_expiresAt ent - sv_ttl s0))"

lemma isSuperRole_cong: "sv_superRoles s = sv_superRoles s0 \<Longrightarrow> isSuperRole L s r = isSuperRole L s0 r"
  by (simp add: isSuperRole_def)

lemma cache_ok_put:
  "cache_ok L H D s0 t s \<Longrightarrow> had_at L H D s0 userID caps t \<Longrightarrow> cache_ok L H D s0 t (cache_put t userID caps s)"
  by (auto simp: cache_ok_def cache_put_def)

lemma cache_ok_later: "cache_ok L H D s0 t s \<Longrightarrow> t \<le> t' \<Longrightarrow> cache_ok L H D s0 t' s"
  by (fastforce simp: cache_ok_def)

lemma served_cache_ok: "served L H D s0 t s \<Longrightarrow> cache_ok L H D s0 t s"
proof (induction rule: served.induct)
  case (resolve rs s t1 t2 u)
  let ?t = "rs_put rs"
  have s: "isSuperRole L s (au_Role u) = isSuperRole L s0 (au_Role u)"
    using resolve.IH(1) by (intro isSuperRole_cong) (simp add: cache_ok_def)
  have "rs_now rs \<le> ?t" using resolve.hyps by linarith
  then have later: "cache_ok L H D s0 ?t s" using cache_ok_later resolve.IH(1) by blast
  have super: "had_at L H D s0 (au_ID u) [Wildcard] ?t" if "isSuperRole L s (au_Role u)" using that s by (auto simp: had_at_def)
  have read: "had_at L H D s0 (au_ID u) out ?t" if "read_grants L rs u = Inr out" for out
    unfolding had_at_def using that resolve.hyps by (intro exI[of _ u] conjI refl disjI2 exI[of _ rs] exI[of _ t1] exI[of _ t2]) auto
  show ?case
    using later resolve.IH(2) cache_ok_put[OF resolve.IH(2) super] cache_ok_put[OF resolve.IH(2) read]
    by (auto simp: GetUserCapabilities_def split: option.splits sum.splits)
next
  case (wait t s t')
  then show ?case using cache_ok_later by blast
qed (auto simp: cache_ok_def InvalidateUser_def InvalidateAll_def)

text \<open>A decision never rests on grants older than the cache's time to live and the duration of one resolution. In
  every interleaving of resolutions, invalidations and changes of the store, when \<^verbatim>\<open>Check\<close> allows a capability to a
  user without a super role, then the store granted it in reads of this very call, or the list was put into the cache
  at most the time to live ago, and is what a user of this id had then: everything for a super role, or what the store
  granted at two instants of the resolution that put it there.\<close>

theorem grants_are_recent:
  assumes "served L H D s0 (rs_now rs) s" and "fst (Check L rs (Some u) c s) = None" and "\<not> isSuperRole L s (au_Role u)"
  shows "(\<exists>out. read_grants L rs u = Inr out \<and> held_in (set out) c) \<or>
    (\<exists>caps t. rs_now rs - sv_ttl s0 \<le> t \<and> t \<le> rs_now rs \<and> 0 < sv_ttl s0 \<and> had_at L H D s0 (au_ID u) caps t \<and> held_in (set caps) c)"
proof -
  from assms(2,3) obtain out s' where g: "GetUserCapabilities L rs (Some u) s = (Inr out, s')" "held_in (set out) c"
    by (auto simp: Check_def matches_held split: prod.splits sum.splits if_splits)
  show ?thesis
  proof (cases "cache_get (rs_now rs) s (au_ID u)")
    case None
    then show ?thesis using g assms(3) by (auto simp: GetUserCapabilities_def split: sum.splits)
  next
    case (Some cached)
    then have "out = cached" using g(1) by (simp add: GetUserCapabilities_def)
    moreover obtain ent where ent: "sv_entries s (au_ID u) = Some ent" "rs_now rs \<le> ce_expiresAt ent" "cached = ce_caps ent" "0 < sv_ttl s"
      using Some by (auto simp: cache_get_def split: if_splits option.splits)
    moreover have "cache_ok L H D s0 (rs_now rs) s" using served_cache_ok[OF assms(1)] .
    ultimately show ?thesis using g(2) unfolding cache_ok_def
      by (intro disjI2 exI[of _ out] exI[of _ "ce_expiresAt ent - sv_ttl s0"]) auto
  qed
qed

text \<open>An invalidation during a resolution is lost. When a user's capabilities are invalidated after a resolution has
  read the store and before it fills the cache, the list read before is cached afterwards: until it expires every check
  of a capability on it succeeds, whatever the store says by then. Without the overlap the next check reads the store.\<close>

theorem invalidation_can_be_overtaken:
  assumes "cache_get (rs_now rs) s (au_ID u) = None" and "\<not> isSuperRole L s (au_Role u)" and "read_grants L rs u = Inr out"
    and "held_in (set out) c" and "rs_between rs = InvalidateUser (au_ID u)" and "0 < sv_ttl s" and "au_ID u \<noteq> nil_uuid"
    and "rs_now rs' \<le> rs_put rs + sv_ttl s"
  shows "fst (Check L rs' (Some u) c (snd (GetUserCapabilities L rs (Some u) s))) = None \<and>
    fst (Check L rs' (Some u) c (InvalidateUser (au_ID u) (snd (GetUserCapabilities L rs (Some u) s)))) =
      (case read_grants L rs' u of Inl e \<Rightarrow> Some e | Inr out' \<Rightarrow> allowed (held_in (set out') c))"
proof -
  let ?s = "snd (GetUserCapabilities L rs (Some u) s)"
  have s: "?s = s\<lparr>sv_entries := (sv_entries s)(au_ID u \<mapsto> \<lparr>ce_caps = out, ce_expiresAt = rs_put rs + sv_ttl s\<rparr>)\<rparr>"
    using assms by (simp add: GetUserCapabilities_def cache_put_def InvalidateUser_def)
  have ns: "\<not> isSuperRole L ?s (au_Role u)" "\<not> isSuperRole L (InvalidateUser (au_ID u) ?s) (au_Role u)"
    using assms(2) by (auto simp: s isSuperRole_def InvalidateUser_def)
  have "cache_get (rs_now rs') ?s (au_ID u) = Some out" using assms(6,8) by (simp add: s cache_get_def)
  then have "GetUserCapabilities L rs' (Some u) ?s = (Inr out, ?s)" by (simp add: GetUserCapabilities_def)
  from checks_resolved(1)[OF ns(1) this] have 1: "fst (Check L rs' (Some u) c ?s) = None" using assms(4) by simp
  have "cache_get (rs_now rs') (InvalidateUser (au_ID u) ?s) (au_ID u) = None" by (simp add: cache_get_def InvalidateUser_def)
  then show ?thesis using 1 ns(2)
    by (auto simp: Check_def GetUserCapabilities_def matches_held allowed_def split: sum.splits)
qed

section \<open>Grants and revocations\<close>

datatype grant_op = GrantRoleOp Role Capability | GrantUserOp uuid Capability | RevokeRoleOp Role Capability | RevokeUserOp uuid Capability

fun do_grant :: "(string \<Rightarrow> string) \<Rightarrow> grant_op \<Rightarrow> GormStore \<Rightarrow> GormStore" where
  "do_grant L (GrantRoleOp r c) t = snd (GrantRole L r c t)"
| "do_grant L (GrantUserOp u c) t = snd (GrantUser u c t)"
| "do_grant L (RevokeRoleOp r c) t = RevokeRole L r c t"
| "do_grant L (RevokeUserOp u c) t = RevokeUser u c t"

definition role_spent :: "(string \<Rightarrow> string) \<Rightarrow> Role \<Rightarrow> Capability \<Rightarrow> GormStore \<Rightarrow> bool" where
  "role_spent L r c t \<longleftrightarrow> c \<notin> role_grant_set L t r \<and>
     (\<exists>x\<in>set (role_grants t). rp_Role x = NormalizeRole L r \<and> rp_Capability x = c)"

definition user_spent :: "uuid \<Rightarrow> Capability \<Rightarrow> GormStore \<Rightarrow> bool" where
  "user_spent u c t \<longleftrightarrow> c \<notin> user_grant_set t u \<and> (\<exists>x\<in>set (user_grants t). up_UserID x = u \<and> up_Capability x = c)"

lemma in_role_grant_set:
  "c \<in> role_grant_set L t r \<longleftrightarrow> (\<exists>x\<in>set (role_grants t). \<not> rp_Deleted x \<and> rp_Role x = NormalizeRole L r \<and> rp_Capability x = c)"
  by (auto simp: role_grant_set_def)

lemma in_user_grant_set:
  "c \<in> user_grant_set t u \<longleftrightarrow> (\<exists>x\<in>set (user_grants t). \<not> up_Deleted x \<and> up_UserID x = u \<and> up_Capability x = c)"
  by (auto simp: user_grant_set_def)

text \<open>A table in which the rows with \<open>P\<close> were marked deleted.\<close>

lemma soft_delete:
  fixes f :: "'a \<Rightarrow> 'a"
  shows "(\<And>x. dead (f x)) \<Longrightarrow>
    (\<exists>y\<in>set (map (\<lambda>x. if \<not> dead x \<and> P x then f x else x) xs). \<not> dead y \<and> Q y) \<longleftrightarrow> (\<exists>x\<in>set xs. \<not> dead x \<and> \<not> P x \<and> Q x)"
    and "(\<And>x. Q (f x) = Q x) \<Longrightarrow> (\<exists>y\<in>set (map (\<lambda>x. if \<not> dead x \<and> P x then f x else x) xs). Q y) \<longleftrightarrow> (\<exists>x\<in>set xs. Q x)"
  by auto

lemma revoked_rows:
  "role_grants (RevokeRole L r c t) =
     map (\<lambda>x. if \<not> rp_Deleted x \<and> (rp_Role x = NormalizeRole L r \<and> rp_Capability x = c) then x\<lparr>rp_Deleted := True\<rparr> else x) (role_grants t)"
  "user_grants (RevokeUser u c t) =
     map (\<lambda>x. if \<not> up_Deleted x \<and> (up_UserID x = u \<and> up_Capability x = c) then x\<lparr>up_Deleted := True\<rparr> else x) (user_grants t)"
  by (simp_all add: RevokeRole_def RevokeUser_def)

lemma revoked_visible:
  "c' \<in> role_grant_set L (RevokeRole L r c t) r' \<longleftrightarrow> c' \<in> role_grant_set L t r' \<and> \<not> (NormalizeRole L r' = NormalizeRole L r \<and> c' = c)"
  "c' \<in> user_grant_set (RevokeUser u c t) u' \<longleftrightarrow> c' \<in> user_grant_set t u' \<and> \<not> (u' = u \<and> c' = c)"
  unfolding in_role_grant_set in_user_grant_set revoked_rows by (subst soft_delete(1); auto)+

lemma revoked_kept:
  "(\<exists>x\<in>set (role_grants (RevokeRole L r c t)). rp_Role x = r' \<and> rp_Capability x = c') \<longleftrightarrow>
   (\<exists>x\<in>set (role_grants t). rp_Role x = r' \<and> rp_Capability x = c')"
  "(\<exists>x\<in>set (user_grants (RevokeUser u c t)). up_UserID x = u' \<and> up_Capability x = c') \<longleftrightarrow>
   (\<exists>x\<in>set (user_grants t). up_UserID x = u' \<and> up_Capability x = c')"
  unfolding revoked_rows by (subst soft_delete(2); simp)+

lemma granted_visible:
  "c' \<in> role_grant_set L (snd (GrantRole L r c t)) r' \<longleftrightarrow>
     c' \<in> role_grant_set L t r' \<or> fst (GrantRole L r c t) = None \<and> NormalizeRole L r' = NormalizeRole L r \<and> c' = c"
  "c' \<in> user_grant_set (snd (GrantUser u c t)) u' \<longleftrightarrow> c' \<in> user_grant_set t u' \<or> fst (GrantUser u c t) = None \<and> u' = u \<and> c' = c"
  unfolding in_role_grant_set in_user_grant_set by (auto simp: GrantRole_def GrantUser_def Let_def)

lemma other_table [simp]:
  "user_grants (RevokeRole L r c t) = user_grants t" "role_grants (RevokeUser u c t) = role_grants t"
  "user_grants (snd (GrantRole L r c t)) = user_grants t" "role_grants (snd (GrantUser u c t)) = role_grants t"
  by (simp_all add: RevokeRole_def RevokeUser_def GrantRole_def GrantUser_def Let_def)

lemma other_set [simp]:
  "user_grant_set (RevokeRole L r c t) = user_grant_set t" "role_grant_set L' (RevokeUser u c t) = role_grant_set L' t"
  "user_grant_set (snd (GrantRole L r c t)) = user_grant_set t" "role_grant_set L' (snd (GrantUser u c t)) = role_grant_set L' t"
  by (intro ext; simp add: role_grant_set_def user_grant_set_def)+

lemma spent_refused:
  "role_spent L r c t \<Longrightarrow> NormalizeRole L r' = NormalizeRole L r \<Longrightarrow> GrantRole L r' c t = (Some unique_violation, t)"
  "user_spent u c t \<Longrightarrow> GrantUser u c t = (Some unique_violation, t)"
  by (auto simp: role_spent_def user_spent_def in_role_grant_set in_user_grant_set GrantRole_def GrantUser_def Let_def)

lemma grant_keeps_rows:
  "x \<in> set (role_grants t) \<Longrightarrow> x \<in> set (role_grants (snd (GrantRole L r c t)))"
  "y \<in> set (user_grants t) \<Longrightarrow> y \<in> set (user_grants (snd (GrantUser u c t)))"
  by (simp_all add: GrantRole_def GrantUser_def Let_def)

lemma role_spent_stays: "role_spent L r c t \<Longrightarrow> role_spent L r c (do_grant L x t)"
proof (cases x)
  case (GrantRoleOp r' c')
  assume s: "role_spent L r c t"
  show ?thesis
  proof (cases "NormalizeRole L r' = NormalizeRole L r \<and> c' = c")
    case True
    then show ?thesis using spent_refused(1)[OF s, of r'] s GrantRoleOp by simp
  next
    case False
    then show ?thesis using s GrantRoleOp grant_keeps_rows(1) by (auto simp: role_spent_def granted_visible)
  qed
qed (auto simp: role_spent_def revoked_visible revoked_kept)

lemma user_spent_stays: "user_spent u c t \<Longrightarrow> user_spent u c (do_grant L x t)"
proof (cases x)
  case (GrantUserOp u' c')
  assume s: "user_spent u c t"
  show ?thesis
  proof (cases "u' = u \<and> c' = c")
    case True
    then show ?thesis using spent_refused(2)[OF s] s GrantUserOp by simp
  next
    case False
    then show ?thesis using s GrantUserOp grant_keeps_rows(2) by (auto simp: user_spent_def granted_visible)
  qed
qed (auto simp: user_spent_def revoked_visible revoked_kept)

lemma revoke_spends:
  "c \<in> role_grant_set L t r \<Longrightarrow> role_spent L r c (RevokeRole L r c t)"
  "c \<in> user_grant_set t u \<Longrightarrow> user_spent u c (RevokeUser u c t)"
  unfolding role_spent_def user_spent_def revoked_visible revoked_kept by (auto simp: in_role_grant_set in_user_grant_set)

lemma fold_spent:
  "role_spent L r c t \<Longrightarrow> role_spent L r c (fold (do_grant L) ops t)"
  "user_spent u c t \<Longrightarrow> user_spent u c (fold (do_grant L) ops t)"
  by (induction ops arbitrary: t) (auto intro: role_spent_stays user_spent_stays)

text \<open>C30. A revoked grant can never be granted again. Revocation only marks the row as deleted, and the unique index keeps
  the pair: after a capability of a role or user was revoked, whatever is granted and revoked later, every attempt
  to grant it again fails with a constraint violation, changes nothing, and the role or user never has it again.\<close>

theorem revoked_grant_stays_revoked:
  "(c \<in> role_grant_set L t r \<longrightarrow>
      (let t' = fold (do_grant L) ops (RevokeRole L r c t) in
       c \<notin> role_grant_set L t' r \<and> GrantRole L r c t' = (Some unique_violation, t'))) \<and>
   (c \<in> user_grant_set t u \<longrightarrow>
      (let t' = fold (do_grant L) ops (RevokeUser u c t) in
       c \<notin> user_grant_set t' u \<and> GrantUser u c t' = (Some unique_violation, t')))"
proof -
  have "c \<notin> role_grant_set L t' r \<and> GrantRole L r c t' = (Some unique_violation, t')" if "role_spent L r c t'" for t'
    using spent_refused(1)[OF that refl] that by (simp add: role_spent_def)
  moreover have "c \<notin> user_grant_set t' u \<and> GrantUser u c t' = (Some unique_violation, t')" if "user_spent u c t'" for t'
    using spent_refused(2)[OF that] that by (simp add: user_spent_def)
  ultimately show ?thesis using fold_spent(1)[OF revoke_spends(1)] fold_spent(2)[OF revoke_spends(2)] by (simp add: Let_def)
qed

section \<open>The model index\<close>

datatype addon_event = Installed string "PermissionDef list" | Uninstalled string

fun index_event :: "(string \<Rightarrow> string) \<Rightarrow> addon_event \<Rightarrow> ModelGrants \<Rightarrow> ModelGrants" where
  "index_event L (Installed a perms) g = Register_grants L a perms g"
| "index_event L (Uninstalled a) g = Unregister_grants a g"

text \<open>The specification: what is installed, and what a manifest declares.\<close>

fun install_event :: "addon_event \<Rightarrow> (string \<rightharpoonup> PermissionDef list) \<Rightarrow> (string \<rightharpoonup> PermissionDef list)" where
  "install_event (Installed a perms) m = m(a \<mapsto> perms)"
| "install_event (Uninstalled a) m = m(a := None)"

definition declares :: "(string \<Rightarrow> string) \<Rightarrow> PermissionDef list \<Rightarrow> string \<Rightarrow> string list \<Rightarrow> string list \<Rightarrow> bool" where
  "declares L perms grant actions modelNames \<longleftrightarrow>
     (\<exists>p\<in>set perms. \<exists>pm\<in>set (pd_Models p). normKey L (pd_Key p) = normKey L grant \<and>
        normModel L (pm_Model pm) \<noteq> [] \<and> normModel L (pm_Model pm) \<in> normModel L ` set modelNames \<and>
        (\<exists>a\<in>set actions. normAction L a \<in> normAction L ` set (pm_Actions pm)))"

definition entries :: "addon_index \<Rightarrow> string \<Rightarrow> modelGrant set" where
  "entries idx k = set (case map_of idx k of None \<Rightarrow> [] | Some mgs \<Rightarrow> mgs)"

lemma entries_Nil [simp]: "entries [] k = {}"
  by (simp add: entries_def)

lemma entries_Cons [simp]: "entries ((k', mgs) # idx) k = (if k = k' then set mgs else entries idx k)"
  by (simp add: entries_def)

lemma entries_append: "entries (append_grant k mg idx) k' = entries idx k' \<union> (if k' = k then {mg} else {})"
proof (induction k mg idx rule: append_grant.induct)
  case (2 k mg k'' mgs idx)
  then show ?case by (cases "k'' = k"; cases "k' = k''") simp_all
qed simp

definition model_entry :: "(string \<Rightarrow> string) \<Rightarrow> PermissionModel \<Rightarrow> modelGrant set" where
  "model_entry L pm =
     (if normModel L (pm_Model pm) = [] \<or> pm_Actions pm = [] then {}
      else {\<lparr>mg_model = normModel L (pm_Model pm), mg_actions = map (normAction L) (pm_Actions pm)\<rparr>})"

lemma entries_index_model:
  "entries (index_model L k pm idx) k' = entries idx k' \<union> (if k' = k then model_entry L pm else {})"
  by (auto simp: index_model_def model_entry_def entries_append)

lemma entries_models:
  "entries (fold (index_model L k) pms idx) k' = entries idx k' \<union> (if k' = k then \<Union> (model_entry L ` set pms) else {})"
  by (induction pms arbitrary: idx) (auto simp: entries_index_model)

lemma entries_perms:
  "entries (fold (\<lambda>p. fold (index_model L (normKey L (pd_Key p))) (pd_Models p)) perms idx) k =
   entries idx k \<union> (\<Union>p\<in>{p \<in> set perms. normKey L (pd_Key p) = k}. \<Union> (model_entry L ` set (pd_Models p)))"
  by (induction perms arbitrary: idx) (auto simp: entries_models)

lemma entries_index: "entries (index_perms L perms) k = (\<Union>p\<in>{p \<in> set perms. normKey L (pd_Key p) = k}. \<Union> (model_entry L ` set (pd_Models p)))"
  unfolding index_perms_def entries_perms by simp

text \<open>What one addon's index lets a capability reach.\<close>

definition index_reaches :: "(string \<Rightarrow> string) \<Rightarrow> addon_index \<Rightarrow> string list \<Rightarrow> string list \<Rightarrow> string \<Rightarrow> bool" where
  "index_reaches L idx names actions grant \<longleftrightarrow>
     (\<exists>mg\<in>entries idx (normKey L grant). mg_model mg \<in> set names \<and> (\<exists>a\<in>set actions. normAction L a \<in> set (mg_actions mg)))"

lemma grant_reaches_index: "grant_reaches L g names actions grant \<longleftrightarrow> (\<exists>(a, idx)\<in>set g. index_reaches L idx names actions grant)"
  by (simp add: grant_reaches_def index_reaches_def entries_def)

lemma index_reaches_declared:
  "index_reaches L (index_perms L perms) (filter (\<lambda>k. k \<noteq> []) (map (normModel L) modelNames)) actions grant \<longleftrightarrow>
   declares L perms grant actions modelNames"
  unfolding index_reaches_def entries_index declares_def by (force simp: model_entry_def split: if_splits)

text \<open>The index holds exactly the non-empty indices of what is installed.\<close>

definition index_of :: "(string \<Rightarrow> string) \<Rightarrow> ModelGrants \<Rightarrow> (string \<rightharpoonup> PermissionDef list) \<Rightarrow> bool" where
  "index_of L g m \<longleftrightarrow>
     (\<forall>a idx. (a, idx) \<in> set g \<longleftrightarrow> idx \<noteq> [] \<and> (\<exists>perms. m a = Some perms \<and> idx = index_perms L perms))"

lemma index_event_of: "index_of L g m \<Longrightarrow> index_of L (index_event L x g) (install_event x m)"
  by (cases x) (auto simp: index_of_def Register_grants_def Unregister_grants_def Let_def)

lemma index_run_of: "index_of L g m \<Longrightarrow> index_of L (fold (index_event L) es g) (fold install_event es m)"
  by (induction es arbitrary: g m) (auto intro: index_event_of)

text \<open>The model index refines what is installed. After any sequence of installations, upgrades and removals of addons,
  \<^verbatim>\<open>Allows\<close> answers with the first of the caller's capabilities that a manifest installed now declares for one of
  the models and one of the actions, and with nothing when there is none: no mapping survives a removal or an upgrade,
  and none leaks to another model or action. Names are compared in normal form, independent of the order in which
  the index is visited.\<close>

theorem model_grants_exact:
  "Allows L (fold (index_event L) es []) grants actions modelNames =
     find (\<lambda>grant. \<exists>addon perms. fold install_event es Map.empty addon = Some perms \<and> declares L perms grant actions modelNames) grants"
proof -
  let ?names = "filter (\<lambda>k. k \<noteq> []) (map (normModel L) modelNames)" and ?m = "fold install_event es Map.empty"
  have i: "index_of L (fold (index_event L) es []) ?m" by (rule index_run_of) (simp add: index_of_def)
  have "grant_reaches L (fold (index_event L) es []) ?names actions grant \<longleftrightarrow>
    (\<exists>addon perms. ?m addon = Some perms \<and> index_reaches L (index_perms L perms) ?names actions grant)" (is "?l \<longleftrightarrow> ?r") for grant
  proof
    assume ?l
    then obtain addon idx where "(addon, idx) \<in> set (fold (index_event L) es [])" "index_reaches L idx ?names actions grant"
      unfolding grant_reaches_index by blast
    moreover from this(1) i obtain perms where "?m addon = Some perms" "idx = index_perms L perms" unfolding index_of_def by blast
    ultimately show ?r by blast
  next
    assume ?r
    then obtain addon perms where m: "?m addon = Some perms" and rc: "index_reaches L (index_perms L perms) ?names actions grant" by blast
    have "index_perms L perms \<noteq> []" using rc by (auto simp: index_reaches_def)
    then have "(addon, index_perms L perms) \<in> set (fold (index_event L) es [])" using i m by (simp add: index_of_def)
    then show ?l unfolding grant_reaches_index using rc by (intro bexI[of _ "(addon, index_perms L perms)"]) simp_all
  qed
  then have "grant_reaches L (fold (index_event L) es []) ?names actions =
    (\<lambda>grant. \<exists>addon perms. ?m addon = Some perms \<and> declares L perms grant actions modelNames)"
    unfolding index_reaches_declared by (intro ext)
  then show ?thesis unfolding Allows_def Let_def by simp
qed

section \<open>Token-based users\<close>

text \<open>The claims of a token can only add to what the service grants: a list that does not contain the capability does
  not refuse it.\<close>

lemma CheckProvider_adds:
  "fst (CheckProvider L rs (Some p) c s) = None \<longleftrightarrow>
     (\<exists>has. pv_checker p = Some has \<and> has c) \<or> fst (Check L rs (Some (WrapAsModelbase p)) c s) = None"
  by (auto simp: CheckProvider_def split: option.splits)

lemma Wrap_round_trip: "WrapAsModelbase (WrapModelbaseUser u) = u"
  by (simp add: WrapAsModelbase_def WrapModelbaseUser_def)

section \<open>Samples\<close>

definition sample_grants :: GormStore where
  "sample_grants =
     \<lparr>role_grants = [\<lparr>rp_Role = ''admin'', rp_Capability = ''users.create'', rp_Deleted = False\<rparr>],
      user_grants = [\<lparr>up_UserID = ''u1'', up_Capability = ''reports.export'', up_Deleted = False\<rparr>]\<rparr>"

definition sample_user :: AuthUser where
  "sample_user = \<lparr>au_ID = ''u1'', au_Role = '' Admin''\<rparr>"

definition sample_service :: Service where
  "sample_service = New_Service id 10 None"

definition sample_resolution :: resolution where
  "sample_resolution = \<lparr>rs_now = 0, rs_role_store = gorm_store id sample_grants, rs_user_store = gorm_store id sample_grants,
     rs_between = id, rs_put = 2\<rparr>"

lemma sample_names: "NormalizeRole id '' Admin'' = ''admin''" "NormalizeRole id ''admin'' = ''admin''" "NormalizeRole id ''owner'' = ''owner''"
  "''u1'' \<noteq> nil_uuid" "Wildcard = ''*''"
  by code_simp+

lemma sample_not_super: "isSuperRole id sample_service (au_Role sample_user) = False"
  by (simp add: isSuperRole_def sample_service_def New_Service_def DefaultSuperRoles_def sample_user_def sample_names)

lemma sample_effective:
  "effective (role_grant_set id sample_grants) (user_grant_set sample_grants) id sample_user = {''users.create'', ''reports.export''}"
  by (auto simp: effective_def role_grant_set_def user_grant_set_def sample_grants_def sample_user_def sample_names)

theorem permission_checks_decide_witness:
  "fst (Check id sample_resolution (Some sample_user) ''users.create'' sample_service) = None \<and>
   fst (CheckAll id sample_resolution (Some sample_user) [''users.create'', ''users.delete''] sample_service) = Some ErrPermissionDenied \<and>
   fst (gateWith id sample_resolution ModeAny (Some sample_user) [''users.create'', ''users.delete''] sample_service) = GateNext"
proof -
  let ?holds = "\<lambda>c. isSuperRole id sample_service (au_Role sample_user) \<or>
    held_in (effective (role_grant_set id sample_grants) (user_grant_set sample_grants) id sample_user) c"
  have "cache_get (rs_now sample_resolution) sample_service (au_ID sample_user) = None"
    by (simp add: cache_get_def sample_service_def New_Service_def)
  from permission_checks_decide[where holds = ?holds and t = sample_grants and t' = sample_grants and c = "''users.create''" and
      caps = "[''users.create'', ''users.delete'']" and mode = ModeAny, OF _ _ this refl]
  show ?thesis by (simp add: sample_resolution_def) (simp add: sample_not_super sample_effective held_in_def sample_names)
qed

lemma sample_reads: "\<exists>out. read_grants id sample_resolution sample_user = Inr out \<and> set out = {''users.create'', ''reports.export''}"
  using gorm.reads_effective[of sample_resolution id sample_grants sample_grants id sample_user] sample_effective
  by (auto simp: sample_resolution_def)

lemma sample_miss: "cache_get t sample_service userID = None"
  by (simp add: cache_get_def sample_service_def New_Service_def)

text \<open>The service after the sample resolution, from whose cache a later check with an empty store is answered.\<close>

definition empty_resolution :: "int \<Rightarrow> resolution" where
  "empty_resolution t = \<lparr>rs_now = t, rs_role_store = gorm_store id \<lparr>role_grants = [], user_grants = []\<rparr>,
     rs_user_store = gorm_store id \<lparr>role_grants = [], user_grants = []\<rparr>, rs_between = id, rs_put = t\<rparr>"

lemma empty_reads: "read_grants id (empty_resolution t) sample_user = Inr []"
proof -
  let ?none = "\<lparr>role_grants = [], user_grants = []\<rparr> :: GormStore"
  have "effective (role_grant_set id ?none) (user_grant_set ?none) id sample_user = {}"
    by (simp add: effective_def role_grant_set_def user_grant_set_def)
  then show ?thesis using gorm.reads_effective[of "empty_resolution t" id ?none ?none id sample_user] by (simp add: empty_resolution_def)
qed

theorem invalidation_can_be_overtaken_witness:
  "fst (Check id (empty_resolution 5) (Some sample_user) ''users.create''
     (snd (GetUserCapabilities id (sample_resolution\<lparr>rs_between := InvalidateUser ''u1''\<rparr>) (Some sample_user) sample_service))) = None"
proof -
  let ?rs = "sample_resolution\<lparr>rs_between := InvalidateUser ''u1''\<rparr>"
  obtain out where out: "read_grants id sample_resolution sample_user = Inr out" "set out = {''users.create'', ''reports.export''}"
    using sample_reads by blast
  have "read_grants id ?rs sample_user = Inr out" using out(1) read_grants_cong[of ?rs sample_resolution id] by simp
  moreover have "held_in (set out) ''users.create''" by (simp add: out(2) held_in_def)
  ultimately show ?thesis
    using invalidation_can_be_overtaken[of ?rs sample_service sample_user id out "''users.create''" "empty_resolution 5"]
      sample_not_super sample_miss sample_names
    by (simp add: sample_user_def) (simp add: sample_service_def New_Service_def sample_resolution_def empty_resolution_def)
qed

theorem grants_are_recent_witness:
  "\<exists>caps t. -5 \<le> t \<and> t \<le> 5 \<and> had_at id (\<lambda>t. gorm_store id (if t \<le> 2 then sample_grants else \<lparr>role_grants = [], user_grants = []\<rparr>))
     2 sample_service ''u1'' caps t \<and> held_in (set caps) ''users.create''"
proof -
  let ?H = "\<lambda>t :: int. gorm_store id (if t \<le> 2 then sample_grants else \<lparr>role_grants = [], user_grants = []\<rparr>)"
  let ?s = "snd (GetUserCapabilities id sample_resolution (Some sample_user) sample_service)"
  obtain out where out: "read_grants id sample_resolution sample_user = Inr out" "set out = {''users.create'', ''reports.export''}"
    using sample_reads by blast
  have boot: "served id ?H 2 sample_service t sample_service" for t
    by (rule served.boot) (simp add: sample_service_def New_Service_def)
  have "served id ?H 2 sample_service (rs_put sample_resolution) ?s"
    by (rule served.resolve[where ?t1.0 = 0 and ?t2.0 = 0]) (auto simp: sample_resolution_def intro: boot)
  then have sv: "served id ?H 2 sample_service 5 ?s" by (rule served.wait) (simp add: sample_resolution_def)
  have s: "?s = sample_service\<lparr>sv_entries := [''u1'' \<mapsto> \<lparr>ce_caps = out, ce_expiresAt = 12\<rparr>]\<rparr>"
    using out(1) sample_not_super sample_miss sample_names(4)
    by (simp add: GetUserCapabilities_def cache_put_def)
       (simp add: sample_resolution_def sample_user_def sample_service_def New_Service_def)
  have ns: "\<not> isSuperRole id ?s (au_Role sample_user)"
    using sample_not_super isSuperRole_cong[of ?s sample_service id] by (simp add: s)
  have "cache_get 5 ?s ''u1'' = Some out" unfolding s by (simp add: cache_get_def sample_service_def New_Service_def)
  then have "GetUserCapabilities id (empty_resolution 5) (Some sample_user) ?s = (Inr out, ?s)"
    by (simp add: GetUserCapabilities_def empty_resolution_def sample_user_def)
  from checks_resolved(1)[OF ns this] have "fst (Check id (empty_resolution 5) (Some sample_user) ''users.create'' ?s) = None"
    by (simp add: out(2) held_in_def)
  moreover have "rs_now (empty_resolution 5) = 5" by (simp add: empty_resolution_def)
  ultimately show ?thesis using grants_are_recent[of id ?H 2 sample_service "empty_resolution 5" ?s sample_user "''users.create''"] sv ns empty_reads
    by (auto simp: held_in_def sample_service_def New_Service_def sample_user_def)
qed

theorem revoked_grant_stays_revoked_witness:
  "fst (GrantRole id ''admin'' ''users.create'' (RevokeRole id ''admin'' ''users.create'' sample_grants)) = Some unique_violation"
proof -
  have "''users.create'' \<in> role_grant_set id sample_grants ''admin''"
    by (simp add: in_role_grant_set sample_grants_def sample_names)
  then show ?thesis using revoked_grant_stays_revoked[of "''users.create''" id sample_grants "''admin''" "[]"] by (simp add: Let_def)
qed

end
