(* ===== verification/Incident_Model.thy ===== *)
theory Incident_Model
  imports Prelude
begin

text \<open>
  The incident log of the platform (\<^verbatim>\<open>src/incidents\<close>) and its payments face (\<^verbatim>\<open>src/payments/incidents\<close>): one open
  incident per organization, domain and fingerprint, grouping of repeated problems, acknowledgement and closing.

  The table is the list of its rows; the JSON columns hold the decoded values, the map \<^verbatim>\<open>meta\<close> as its entries. An
  \<^verbatim>\<open>upsert\<close> locks the row it finds; when it finds none, what other sessions commit before its insert is an argument,
  and the partial unique index decides. The calls of the bridges are returned as a list.
\<close>

section \<open>Rows and inputs\<close>

datatype inc_status = StatusOpen | StatusAcknowledged | StatusResolved | StatusAutoResolved

definition SeverityHigh :: string where "SeverityHigh = ''alta''"
definition SeverityMedium :: string where "SeverityMedium = ''media''"
definition SeverityLow :: string where "SeverityLow = ''baja''"

definition MaxEvidenceIDs :: nat where "MaxEvidenceIDs = 50"

record Incident =
  inc_ID :: string
  inc_OrganizationID :: string
  inc_Domain :: string
  inc_Source :: string
  inc_Kind :: string
  inc_Severity :: string
  inc_Status :: inc_status
  inc_Fingerprint :: string
  inc_FirstSeenAt :: int
  inc_LastSeenAt :: int
  inc_Occurrences :: int
  inc_ResourceType :: string
  inc_ResourceID :: string
  inc_Meta :: "(string \<times> string) list"
  inc_Title :: string
  inc_ActionHint :: string
  inc_Detail :: string
  inc_AckedBy :: string
  inc_AckedAt :: "int option"
  inc_ResolvedBy :: string
  inc_ResolvedAt :: "int option"
  inc_Resolution :: string
  inc_EvidenceIDs :: "string list"
  inc_CreatedAt :: int
  inc_UpdatedAt :: int

definition IsOpen :: "Incident \<Rightarrow> bool" where
  "IsOpen i \<longleftrightarrow> inc_Status i = StatusOpen \<or> inc_Status i = StatusAcknowledged"

record inc_Input =
  ii_Org :: string
  ii_Domain :: string
  ii_Source :: string
  ii_Kind :: string
  ii_Severity :: string
  ii_Fingerprint :: string
  ii_ResourceType :: string
  ii_ResourceID :: string
  ii_Meta :: "(string \<times> string) list"
  ii_Title :: string
  ii_ActionHint :: string
  ii_Detail :: string
  ii_EvidenceID :: string

datatype inc_error = OrgRequired | DomainRequired | KindRequired | ResolutionRequired | UniqueViolation | RecordNotFound

text \<open>What one call reads from outside: the clock, the new id, the recipients of an organization.\<close>

record inc_env =
  ie_now :: int
  ie_id :: string
  ie_Publish :: bool
  ie_Recipients :: "(string \<Rightarrow> string list) option"
  ie_RuleFlag :: bool
  ie_Channel :: string

definition nil_org :: string where
  "nil_org = ''00000000-0000-0000-0000-000000000000''"

section \<open>Operations\<close>

definition sevRank :: "string \<Rightarrow> int" where
  "sevRank sev = (if sev = SeverityHigh then 3 else if sev = SeverityMedium then 2 else 1)"

definition same_open :: "string \<Rightarrow> string \<Rightarrow> string \<Rightarrow> Incident \<Rightarrow> bool" where
  "same_open org domn fp i \<longleftrightarrow> inc_OrganizationID i = org \<and> inc_Domain i = domn \<and> inc_Fingerprint i = fp \<and> IsOpen i"

definition new_incident :: "inc_env \<Rightarrow> inc_Input \<Rightarrow> Incident" where
  "new_incident e i =
     \<lparr>inc_ID = ie_id e, inc_OrganizationID = ii_Org i, inc_Domain = ii_Domain i, inc_Source = ii_Source i, inc_Kind = ii_Kind i,
      inc_Severity = ii_Severity i, inc_Status = StatusOpen, inc_Fingerprint = ii_Fingerprint i,
      inc_FirstSeenAt = ie_now e, inc_LastSeenAt = ie_now e, inc_Occurrences = 1,
      inc_ResourceType = ii_ResourceType i, inc_ResourceID = ii_ResourceID i, inc_Meta = ii_Meta i,
      inc_Title = ii_Title i, inc_ActionHint = ii_ActionHint i, inc_Detail = ii_Detail i,
      inc_AckedBy = [], inc_AckedAt = None, inc_ResolvedBy = [], inc_ResolvedAt = None, inc_Resolution = [],
      inc_EvidenceIDs = (if ii_EvidenceID i \<noteq> [] then [ii_EvidenceID i] else []),
      inc_CreatedAt = ie_now e, inc_UpdatedAt = ie_now e\<rparr>"

text \<open>The most recent \<^verbatim>\<open>MaxEvidenceIDs\<close>, with the new one appended.\<close>

definition add_evidence :: "string \<Rightarrow> string list \<Rightarrow> string list" where
  "add_evidence ev ids =
     (if ev \<noteq> [] then (let ids' = ids @ [ev] in if length ids' > MaxEvidenceIDs then drop (length ids' - MaxEvidenceIDs) ids' else ids')
      else ids)"

definition or_old :: "string \<Rightarrow> string \<Rightarrow> string" where
  "or_old v old = (if v \<noteq> [] then v else old)"

definition again :: "inc_env \<Rightarrow> inc_Input \<Rightarrow> Incident \<Rightarrow> Incident" where
  "again e i cur =
     cur\<lparr>inc_Occurrences := inc_Occurrences cur + 1, inc_LastSeenAt := ie_now e, inc_UpdatedAt := ie_now e,
         inc_EvidenceIDs := add_evidence (ii_EvidenceID i) (inc_EvidenceIDs cur),
         inc_Severity := (if sevRank (ii_Severity i) > sevRank (inc_Severity cur) then ii_Severity i else inc_Severity cur),
         inc_ResourceType := or_old (ii_ResourceType i) (inc_ResourceType cur),
         inc_ResourceID := or_old (ii_ResourceID i) (inc_ResourceID cur),
         inc_Title := or_old (ii_Title i) (inc_Title cur),
         inc_ActionHint := or_old (ii_ActionHint i) (inc_ActionHint cur),
         inc_Detail := or_old (ii_Detail i) (inc_Detail cur),
         inc_Meta := (if ii_Meta i \<noteq> [] then ii_Meta i else inc_Meta cur)\<rparr>"

text \<open>The result is the incident, whether it was created and whether it escalated.\<close>

definition upsert :: "inc_env \<Rightarrow> (Incident list \<Rightarrow> Incident list) \<Rightarrow> inc_Input \<Rightarrow> Incident list \<Rightarrow>
    (inc_error, Incident \<times> bool \<times> bool) result \<times> Incident list" where
  "upsert e others i db =
     (case find (same_open (ii_Org i) (ii_Domain i) (ii_Fingerprint i)) db of
        None \<Rightarrow>
          (let row = new_incident e i; db' = others db in
           if (\<exists>x\<in>set db'. same_open (ii_Org i) (ii_Domain i) (ii_Fingerprint i) x) \<or> inc_ID row \<in> inc_ID ` set db'
           then (Inl UniqueViolation, db')
           else (Inr (row, True, False), db' @ [row]))
      | Some cur \<Rightarrow>
          (Inr (again e i cur, False, sevRank (ii_Severity i) > sevRank (inc_Severity cur)),
           update_where (\<lambda>x. inc_ID x = inc_ID cur) (again e i) db))"

datatype bridge_call = PublishEvent string string Incident | EnqueueNotification string string string string string Incident | FlagRule Incident

definition EventFor :: "string \<Rightarrow> string" where
  "EventFor domn = ''kernel.'' @ domn @ ''.incident_opened''"

definition bridge_message :: "Incident \<Rightarrow> string" where
  "bridge_message inc =
     (let msg = (if inc_Title inc = [] then inc_Kind inc else inc_Title inc)
      in if inc_ActionHint inc \<noteq> [] then msg @ '': '' @ inc_ActionHint inc else msg)"

definition bridge :: "inc_env \<Rightarrow> Incident \<Rightarrow> bridge_call list" where
  "bridge e inc =
     (if ie_Publish e then [PublishEvent (EventFor (inc_Domain inc)) (inc_OrganizationID inc) inc] else []) @
     (case ie_Recipients e of
        None \<Rightarrow> []
      | Some targets \<Rightarrow>
          map (\<lambda>t. EnqueueNotification (inc_Domain inc @ ''.incident.'' @ inc_Kind inc) (ie_Channel e) t (bridge_message inc)
                 (''incident:'' @ inc_ID inc @ '':'' @ inc_Severity inc @ '':'' @ t) inc) (targets (inc_OrganizationID inc))) @
     (if ie_RuleFlag e then [FlagRule inc] else [])"

definition with_defaults :: "inc_Input \<Rightarrow> inc_Input" where
  "with_defaults i =
     (let i' = (if ii_Severity i = [] then i\<lparr>ii_Severity := SeverityHigh\<rparr> else i)
      in if ii_Fingerprint i' = [] then i'\<lparr>ii_Fingerprint := ii_Kind i' @ '':'' @ ii_Source i'\<rparr> else i')"

text \<open>The attempts of \<^verbatim>\<open>Open\<close>: one per element of \<open>gaps\<close>, what others do during it.\<close>

fun open_attempts :: "inc_env \<Rightarrow> (Incident list \<Rightarrow> Incident list) list \<Rightarrow> inc_Input \<Rightarrow> Incident list \<Rightarrow>
    (inc_error, Incident \<times> bool \<times> bool) result \<times> Incident list" where
  "open_attempts e [] i db = (Inl UniqueViolation, db)"
| "open_attempts e (others # gaps) i db =
     (case upsert e others i db of
        (Inr r, db') \<Rightarrow> (Inr r, db')
      | (Inl err, db') \<Rightarrow> if err \<noteq> UniqueViolation then (Inl err, db') else open_attempts e gaps i db')"

definition Open_incident :: "inc_env \<Rightarrow> (nat \<Rightarrow> Incident list \<Rightarrow> Incident list) \<Rightarrow> inc_Input \<Rightarrow> Incident list \<Rightarrow>
    (inc_error, Incident \<times> bool \<times> bridge_call list) result \<times> Incident list" where
  "Open_incident e others i0 db =
     (if ii_Org i0 = nil_org then (Inl OrgRequired, db)
      else if TrimSpace (ii_Domain i0) = [] then (Inl DomainRequired, db)
      else if TrimSpace (ii_Kind i0) = [] then (Inl KindRequired, db)
      else case open_attempts e (map others [0, 1, 2]) (with_defaults i0) db of
             (Inl err, db') \<Rightarrow> (Inl err, db')
           | (Inr (inc, created, escalated), db') \<Rightarrow>
               (Inr (inc, created, if created \<or> escalated then bridge e inc else []), db'))"

definition Acknowledge :: "inc_env \<Rightarrow> string \<Rightarrow> string \<Rightarrow> string \<Rightarrow> Incident list \<Rightarrow> inc_error option \<times> Incident list" where
  "Acknowledge e org ident who db =
     (let p = (\<lambda>x. inc_OrganizationID x = org \<and> inc_ID x = ident \<and> inc_Status x = StatusOpen) in
      if \<exists>x\<in>set db. p x then
        (None, update_where p (\<lambda>x. x\<lparr>inc_Status := StatusAcknowledged, inc_AckedBy := who, inc_AckedAt := Some (ie_now e),
                                     inc_UpdatedAt := ie_now e\<rparr>) db)
      else (Some RecordNotFound, db))"

definition close_row :: "inc_env \<Rightarrow> inc_status \<Rightarrow> string \<Rightarrow> string \<Rightarrow> Incident \<Rightarrow> Incident" where
  "close_row e status who resolution x =
     x\<lparr>inc_Status := status, inc_ResolvedBy := who, inc_ResolvedAt := Some (ie_now e), inc_Resolution := resolution,
       inc_UpdatedAt := ie_now e\<rparr>"

definition closeQ :: "inc_env \<Rightarrow> (Incident \<Rightarrow> bool) \<Rightarrow> inc_status \<Rightarrow> string \<Rightarrow> string \<Rightarrow> Incident list \<Rightarrow> nat \<times> Incident list" where
  "closeQ e q status who resolution db =
     (length (filter (\<lambda>x. q x \<and> IsOpen x) db),
      update_where (\<lambda>x. q x \<and> IsOpen x) (close_row e status who resolution) db)"

definition Resolve_incident :: "inc_env \<Rightarrow> string \<Rightarrow> string \<Rightarrow> string \<Rightarrow> string \<Rightarrow> Incident list \<Rightarrow> inc_error option \<times> Incident list" where
  "Resolve_incident e org ident who resolution db =
     (if TrimSpace resolution = [] then (Some ResolutionRequired, db)
      else let (n, db') = closeQ e (\<lambda>x. inc_OrganizationID x = org \<and> inc_ID x = ident) StatusResolved who resolution db in
           (if n = 0 then Some RecordNotFound else None, db'))"

definition CloseByFingerprint :: "inc_env \<Rightarrow> string \<Rightarrow> string \<Rightarrow> string \<Rightarrow> string \<Rightarrow> Incident list \<Rightarrow> nat \<times> Incident list" where
  "CloseByFingerprint e org domn fp resolution db =
     closeQ e (\<lambda>x. inc_OrganizationID x = org \<and> inc_Domain x = domn \<and> inc_Fingerprint x = fp) StatusAutoResolved ''system'' resolution db"

definition Get_incident :: "string \<Rightarrow> string \<Rightarrow> Incident list \<Rightarrow> (inc_error, Incident) result" where
  "Get_incident org ident db =
     (case find (\<lambda>x. inc_OrganizationID x = org \<and> inc_ID x = ident) db of None \<Rightarrow> Inl RecordNotFound | Some x \<Rightarrow> Inr x)"

record inc_Filter =
  if_Org :: string
  if_Domain :: string
  if_Source :: string
  if_Kind :: string
  if_OpenOnly :: bool
  if_Status :: "inc_status option"
  if_Limit :: int
  if_Offset :: int

definition inc_filtered :: "inc_Filter \<Rightarrow> Incident list \<Rightarrow> Incident list" where
  "inc_filtered f db =
     filter (\<lambda>x. inc_OrganizationID x = if_Org f \<and>
       (if_Domain f \<noteq> [] \<longrightarrow> inc_Domain x = if_Domain f) \<and> (if_Source f \<noteq> [] \<longrightarrow> inc_Source x = if_Source f) \<and>
       (if_Kind f \<noteq> [] \<longrightarrow> inc_Kind x = if_Kind f) \<and> (case if_Status f of None \<Rightarrow> True | Some st \<Rightarrow> inc_Status x = st) \<and>
       (if_OpenOnly f \<longrightarrow> IsOpen x)) db"

text \<open>Highest severity first, then most recently seen; a negative offset is none.\<close>

definition List_incidents :: "inc_Filter \<Rightarrow> Incident list \<Rightarrow> Incident list \<times> nat" where
  "List_incidents f db =
     (let rows = inc_filtered f db;
          limit = (if if_Limit f \<le> 0 \<or> if_Limit f > 500 then 100 else if_Limit f)
      in (take (nat limit) (drop (nat (if_Offset f)) (sort_key (\<lambda>x. - sevRank (inc_Severity x)) (sort_key (\<lambda>x. - inc_LastSeenAt x) rows))),
          length rows))"

definition OpenCounts :: "string \<Rightarrow> string \<Rightarrow> Incident list \<Rightarrow> string \<Rightarrow> nat" where
  "OpenCounts org domn db sev =
     length (filter (\<lambda>x. inc_Severity x = sev)
       (inc_filtered \<lparr>if_Org = org, if_Domain = domn, if_Source = [], if_Kind = [], if_OpenOnly = True, if_Status = None,
                      if_Limit = 0, if_Offset = 0\<rparr> db))"

section \<open>The payments face\<close>

definition DomainPayments :: string where "DomainPayments = ''payments''"

definition KindSignatureInvalid :: string where "KindSignatureInvalid = ''payments.signature_invalid''"
definition KindNotificationUnresolve :: string where "KindNotificationUnresolve = ''payments.notification_unresolved''"
definition KindDeadLetter :: string where "KindDeadLetter = ''payments.dead_letter''"
definition KindPaymentWriteFailed :: string where "KindPaymentWriteFailed = ''payments.payment_write_failed''"

record pay_Input =
  pi_Org :: string
  pi_Provider :: string
  pi_Kind :: string
  pi_Severity :: string
  pi_Fingerprint :: string
  pi_PaymentRef :: string
  pi_OrderRef :: string
  pi_Amount :: string
  pi_Currency :: string
  pi_Title :: string
  pi_ActionHint :: string
  pi_Detail :: string
  pi_NotificationID :: "string option"

definition generic_input :: "pay_Input \<Rightarrow> inc_Input" where
  "generic_input i =
     \<lparr>ii_Org = pi_Org i, ii_Domain = DomainPayments, ii_Source = pi_Provider i, ii_Kind = pi_Kind i, ii_Severity = pi_Severity i,
      ii_Fingerprint = pi_Fingerprint i, ii_ResourceType = (if pi_PaymentRef i = [] then [] else ''payment''),
      ii_ResourceID = pi_PaymentRef i,
      ii_Meta = filter (\<lambda>(k, v). v \<noteq> [])
        [(''order_ref'', pi_OrderRef i), (''amount'', pi_Amount i), (''currency'', pi_Currency i)],
      ii_Title = pi_Title i, ii_ActionHint = pi_ActionHint i, ii_Detail = pi_Detail i,
      ii_EvidenceID = (case pi_NotificationID i of None \<Rightarrow> [] | Some n \<Rightarrow> n)\<rparr>"

definition pay_Open where
  "pay_Open e others i = Open_incident e others (generic_input i)"

definition pay_CloseByFingerprint where
  "pay_CloseByFingerprint e org fp resolution = CloseByFingerprint e org DomainPayments fp resolution"

definition pay_Get :: "string \<Rightarrow> string \<Rightarrow> Incident list \<Rightarrow> (inc_error, Incident) result" where
  "pay_Get org ident db =
     rbind (Get_incident org ident db) (\<lambda>x. if inc_Domain x \<noteq> DomainPayments then Inl RecordNotFound else Inr x)"

definition pay_Acknowledge where
  "pay_Acknowledge e org ident who = Acknowledge e org ident who"

definition pay_Resolve where
  "pay_Resolve e org ident who resolution = Resolve_incident e org ident who resolution"

definition pay_List :: "inc_Filter \<Rightarrow> Incident list \<Rightarrow> Incident list \<times> nat" where
  "pay_List f = List_incidents (f\<lparr>if_Domain := DomainPayments\<rparr>)"

definition pay_OpenCounts where
  "pay_OpenCounts org = OpenCounts org DomainPayments"

section \<open>One open incident per fingerprint\<close>

definition inc_key :: "Incident \<Rightarrow> string \<times> string \<times> string" where
  "inc_key x = (inc_OrganizationID x, inc_Domain x, inc_Fingerprint x)"

definition incidents_ok :: "Incident list \<Rightarrow> bool" where
  "incidents_ok db \<longleftrightarrow> distinct (map inc_ID db) \<and> distinct (map inc_key (filter IsOpen db)) \<and>
     (\<forall>x\<in>set db. length (inc_EvidenceIDs x) \<le> MaxEvidenceIDs \<and> 1 \<le> inc_Occurrences x)"

lemma again_simps [row_simps]:
  "inc_ID (again e i x) = inc_ID x" "inc_OrganizationID (again e i x) = inc_OrganizationID x" "inc_Domain (again e i x) = inc_Domain x"
  "inc_Fingerprint (again e i x) = inc_Fingerprint x" "inc_Status (again e i x) = inc_Status x" "inc_key (again e i x) = inc_key x"
  "IsOpen (again e i x) = IsOpen x" "inc_Kind (again e i x) = inc_Kind x"
  by (simp_all add: again_def inc_key_def IsOpen_def)

lemma close_row_simps [row_simps]:
  "inc_ID (close_row e st who why x) = inc_ID x" "inc_key (close_row e st who why x) = inc_key x"
  "inc_Status (close_row e st who why x) = st" "inc_EvidenceIDs (close_row e st who why x) = inc_EvidenceIDs x"
  "inc_Occurrences (close_row e st who why x) = inc_Occurrences x"
  by (simp_all add: close_row_def inc_key_def)

lemma same_open_key: "same_open org domn fp x \<longleftrightarrow> IsOpen x \<and> inc_key x = (org, domn, fp)"
  by (auto simp: same_open_def inc_key_def)

lemma add_evidence_length: "length ids \<le> MaxEvidenceIDs \<Longrightarrow> length (add_evidence ev ids) \<le> MaxEvidenceIDs"
  by (auto simp: add_evidence_def Let_def)

text \<open>An update that keeps ids and keys and opens nothing keeps the table consistent.\<close>

lemma filter_update_open:
  assumes "\<And>x. inc_key (f x) = inc_key x" and "\<And>x. p x \<Longrightarrow> IsOpen (f x) \<Longrightarrow> IsOpen x"
  shows "\<exists>ys. map inc_key (filter IsOpen (update_where p f db)) = ys \<and> (distinct (map inc_key (filter IsOpen db)) \<longrightarrow> distinct ys) \<and>
    set ys \<subseteq> inc_key ` set (filter IsOpen db)"
proof (induction db)
  case (Cons x db)
  have "set (map inc_key (filter IsOpen (update_where p f db))) \<subseteq> inc_key ` set (filter IsOpen db)"
    and d: "distinct (map inc_key (filter IsOpen db)) \<longrightarrow> distinct (map inc_key (filter IsOpen (update_where p f db)))"
    using Cons by blast+
  then show ?case using assms by (auto simp: image_iff)
qed simp

lemma update_where_related: "x \<in> set rows \<Longrightarrow> P x x \<Longrightarrow> P x (f x) \<Longrightarrow> \<exists>y\<in>set (update_where p f rows). P x y"
  by (auto simp: set_update_where)

lemma incidents_ok_update:
  assumes "incidents_ok db" and "\<And>x. inc_ID (f x) = inc_ID x" and "\<And>x. inc_key (f x) = inc_key x" and "\<And>x. p x \<Longrightarrow> IsOpen (f x) \<Longrightarrow> IsOpen x"
    and "\<And>x. length (inc_EvidenceIDs x) \<le> MaxEvidenceIDs \<Longrightarrow> length (inc_EvidenceIDs (f x)) \<le> MaxEvidenceIDs"
    and "\<And>x. 1 \<le> inc_Occurrences x \<Longrightarrow> 1 \<le> inc_Occurrences (f x)"
  shows "incidents_ok (update_where p f db)"
  using assms filter_update_open[of f p db] by (auto simp: incidents_ok_def map_update_where set_update_where)

lemma upsert_ok:
  assumes "incidents_ok db" and "incidents_ok (others db)"
  shows "incidents_ok (snd (upsert e others i db))"
proof (cases "find (same_open (ii_Org i) (ii_Domain i) (ii_Fingerprint i)) db")
  case (Some cur)
  then show ?thesis using assms
    by (auto simp: upsert_def row_simps intro!: incidents_ok_update) (auto simp: again_def add_evidence_length)
next
  case None
  then show ?thesis using assms(2)
    by (auto simp: upsert_def Let_def incidents_ok_def same_open_key) (auto simp: new_incident_def inc_key_def IsOpen_def MaxEvidenceIDs_def)
qed

lemma open_attempts_ok:
  "incidents_ok db \<Longrightarrow> \<forall>g\<in>set gaps. \<forall>d. incidents_ok d \<longrightarrow> incidents_ok (g d) \<Longrightarrow> incidents_ok (snd (open_attempts e gaps i db))"
proof (induction gaps arbitrary: db)
  case (Cons g gaps)
  have "incidents_ok (snd (upsert e g i db))" using upsert_ok Cons.prems by simp
  then show ?case using Cons by (auto split: prod.splits sum.splits)
qed simp

lemma Open_ok:
  assumes "incidents_ok db" and "\<And>n d. incidents_ok d \<Longrightarrow> incidents_ok (others n d)"
  shows "incidents_ok (snd (Open_incident e others i db))"
proof -
  have "snd (Open_incident e others i db) = db \<or> snd (Open_incident e others i db) = snd (open_attempts e (map others [0, 1, 2]) (with_defaults i) db)"
    by (simp add: Open_incident_def split: prod.split sum.split del: open_attempts.simps list.map)
  moreover have "incidents_ok (snd (open_attempts e (map others [0, 1, 2]) (with_defaults i) db))"
    by (rule open_attempts_ok[OF assms(1)]) (use assms(2) in auto)
  ultimately show ?thesis using assms(1) by metis
qed

lemma closeQ_ok: "incidents_ok db \<Longrightarrow> st = StatusResolved \<or> st = StatusAutoResolved \<Longrightarrow> incidents_ok (snd (closeQ e q st who why db))"
  by (auto simp: closeQ_def row_simps IsOpen_def intro!: incidents_ok_update)

lemma Acknowledge_ok: "incidents_ok db \<Longrightarrow> incidents_ok (snd (Acknowledge e org ident who db))"
  unfolding Acknowledge_def Let_def
  by (auto intro!: incidents_ok_update simp: inc_key_def IsOpen_def)

end
