(* ===== verification/Inbox_Redact.thy ===== *)
theory Inbox_Redact
  imports Go_Strings
begin

text \<open>
  What the journal of payment notifications keeps of a request (\<^verbatim>\<open>src/payments/inbox/redact.go\<close>): the allowed headers,
  signatures reduced to their shape, and the body with personal data and secrets masked. A header map or JSON object is
  the list of its entries in the order it is visited; JSON decoding and encoding are arguments. The UTF-8 ellipsis is written
  as its bytes.
\<close>

section \<open>Signatures and headers\<close>

definition is_hex :: "char \<Rightarrow> bool" where
  "is_hex c \<longleftrightarrow> is_digit c \<or> (97 \<le> (of_char c :: nat) \<and> (of_char c :: nat) \<le> 102) \<or> (65 \<le> (of_char c :: nat) \<and> (of_char c :: nat) \<le> 70)"

definition redactToken :: "string \<Rightarrow> string" where
  "redactToken s =
     (if length s < 32 then s
      else ''['' @ digits_of (length s) @ (if list_all is_hex s then ''h'' else ''c'') @ '':'' @ take 4 s @
           [CHR 0xE2, CHR 0x80, CHR 0xA6] @ '']'')"

definition redact_part :: "string \<Rightarrow> string" where
  "redact_part p0 =
     (let p = TrimSpace p0 in
      case Cut p (CHR ''='') of
        None \<Rightarrow> redactToken p
      | Some (k, v) \<Rightarrow> k @ ''='' @ redactToken v)"

definition RedactSignature :: "string \<Rightarrow> string" where
  "RedactSignature v = join_with '','' (map redact_part (split_at_char (CHR '','') v))"

definition StoredHeaders :: "string list" where
  "StoredHeaders = [''x-request-id'', ''x-signature'', ''stripe-signature'', ''user-agent'',
     ''content-type'', ''content-length'', ''cf-ray'', ''x-forwarded-for'']"

definition signatureHeaders :: "string list" where
  "signatureHeaders = [''x-signature'', ''stripe-signature'']"

definition redact_header :: "string \<Rightarrow> string list \<Rightarrow> string" where
  "redact_header lk vs =
     (let v = join_with '', '' vs;
          v' = (if lk \<in> set signatureHeaders then RedactSignature v else v)
      in if length v' > 512 then take 512 v' else v')"

definition RedactHeaders :: "(string \<Rightarrow> string) \<Rightarrow> (string \<times> string list) list \<Rightarrow> (string \<rightharpoonup> string)" where
  "RedactHeaders L h =
     fold (\<lambda>(k, vs) out.
       let lk = ToLower L (TrimSpace k) in
       if lk \<notin> set StoredHeaders \<or> vs = [] then out else out(lk \<mapsto> redact_header lk vs)) h Map.empty"

section \<open>Bodies\<close>

datatype json = JNull | JBool bool | JNum string | JStr string | JArr "json list" | JObj "(string \<times> json) list"

definition piiKeys :: "string list" where
  "piiKeys = [''email'', ''phone'', ''first_name'', ''last_name'', ''name'', ''identification'', ''address'', ''payer'',
     ''billing_details'', ''shipping'', ''customer_email'', ''customer_details'', ''access_token'', ''client_secret'',
     ''secret'', ''authorization'']"

definition cardKeep :: "string list" where
  "cardKeep = [''last_four_digits'', ''brand'', ''last4'']"

definition redacted :: string where
  "redacted = ''[redacted]''"

text \<open>\<^verbatim>\<open>longHexRe.ReplaceAllString\<close>: the leftmost runs of 64 hexadecimal digits, one after the other.\<close>

function replace_hex :: "string \<Rightarrow> string" where
  "replace_hex s =
     (if s = [] then []
      else if 64 \<le> length s \<and> list_all is_hex (take 64 s) then redacted @ replace_hex (drop 64 s)
      else hd s # replace_hex (tl s))"
  by pat_completeness auto
termination
  by (relation "measure length") auto

declare replace_hex.simps [simp del]

text \<open>\<^verbatim>\<open>secretLike.ReplaceAllString\<close>: one of the prefixes and at least one further character, as many as there are.\<close>

definition secret_prefixes :: "string list" where
  "secret_prefixes = [''APP_USR-'', ''TEST-'', ''sk_live_'', ''sk_test_'', ''whsec_'']"

definition token_char :: "char \<Rightarrow> bool" where
  "token_char c \<longleftrightarrow> is_digit c \<or> (97 \<le> (of_char c :: nat) \<and> (of_char c :: nat) \<le> 122) \<or>
     (65 \<le> (of_char c :: nat) \<and> (of_char c :: nat) \<le> 90) \<or> c = CHR ''_'' \<or> c = CHR ''-''"

definition secret_length :: "string \<Rightarrow> nat" where
  "secret_length s =
     (case find (\<lambda>p. take (length p) s = p) secret_prefixes of
        None \<Rightarrow> 0
      | Some p \<Rightarrow> (let run = takeWhile token_char (drop (length p) s) in if run = [] then 0 else length p + length run))"

function replace_secret :: "string \<Rightarrow> string" where
  "replace_secret s =
     (if s = [] then []
      else if secret_length s > 0 then redacted @ replace_secret (drop (secret_length s) s)
      else hd s # replace_secret (tl s))"
  by pat_completeness auto
termination
  by (relation "measure length") auto

declare replace_secret.simps [simp del]

text \<open>Whether a member is masked as a whole.\<close>

definition masked_key :: "(string \<Rightarrow> string) \<Rightarrow> bool \<Rightarrow> string \<Rightarrow> bool" where
  "masked_key L inCard key \<longleftrightarrow> key \<noteq> [] \<and> (if inCard then ToLower L key \<notin> set cardKeep else ToLower L key \<in> set piiKeys)"

fun redactValue :: "(string \<Rightarrow> string) \<Rightarrow> json \<Rightarrow> string \<Rightarrow> bool \<Rightarrow> json"
  and redactFields :: "(string \<Rightarrow> string) \<Rightarrow> (string \<times> json) list \<Rightarrow> bool \<Rightarrow> (string \<times> json) list"
  and redactItems :: "(string \<Rightarrow> string) \<Rightarrow> json list \<Rightarrow> bool \<Rightarrow> json list" where
  "redactValue L v key inCard =
     (if masked_key L inCard key then JStr redacted
      else case v of
             JObj kvs \<Rightarrow> JObj (redactFields L kvs (inCard \<or> ToLower L key = ''card''))
           | JArr xs \<Rightarrow> JArr (redactItems L xs inCard)
           | JStr s \<Rightarrow> JStr (replace_hex (replace_secret s))
           | _ \<Rightarrow> v)"
| "redactFields L [] inCard = []"
| "redactFields L ((k, x) # kvs) inCard = (k, redactValue L x k inCard) # redactFields L kvs inCard"
| "redactItems L [] inCard = []"
| "redactItems L (x # xs) inCard = redactValue L x [] inCard # redactItems L xs inCard"

declare redactValue.simps [simp del]

definition unparsed_marker :: "nat \<Rightarrow> string" where
  "unparsed_marker n = ''{'' @ [CHR 0x22] @ ''_unparsed'' @ [CHR 0x22] @ '':true,'' @ [CHR 0x22] @ ''length'' @ [CHR 0x22] @ '':'' @ digits_of n @ ''}''"

definition RedactBody :: "(string \<Rightarrow> string) \<Rightarrow> (string \<Rightarrow> json option) \<Rightarrow> (json \<Rightarrow> string) \<Rightarrow> string \<Rightarrow> string" where
  "RedactBody L decode encode body =
     (let trim = TrimSpace body in
      if trim = [] then ''{}''
      else case decode trim of
             None \<Rightarrow> unparsed_marker (length body)
           | Some v \<Rightarrow> encode (redactValue L v [] False))"

end
