(* ===== verification/Inbox_Model.thy ===== *)
theory Inbox_Model
  imports Incident_Model Inbox_Redact
begin

text \<open>
  The durable journal of inbound payment notifications (\<^verbatim>\<open>src/payments/inbox\<close>): its rows, attempts and incidents as one
  database, and every operation of the store. The clock, new ids, SHA-256, the JSON texts of a query and of headers, random
  waits and address parsing are arguments, collected in \<open>nenv\<close>. A transaction is atomic. \<^verbatim>\<open>Resolve\<close> reads the row, writes
  the incidents and updates the row in separate transactions: what other sessions commit in between is an argument. The
  accented letters of the source's texts are written as their UTF-8 bytes.
\<close>

section \<open>Rows and configuration\<close>

datatype estado = EstadoRecibida | EstadoProcesando | EstadoProcesada | EstadoDuplicada | EstadoIgnorada | EstadoReconciliadaAPI
  | EstadoRequiereRevision | EstadoReintentar | EstadoDeadLetter | EstadoResueltaManual

definition AuthPendiente :: string where "AuthPendiente = ''pendiente''"
definition AuthFirmaOK :: string where "AuthFirmaOK = ''firma_ok''"
definition AuthFirmaInvalida :: string where "AuthFirmaInvalida = ''firma_invalida''"
definition AuthSinFirma :: string where "AuthSinFirma = ''sin_firma''"
definition AuthSinSecreto :: string where "AuthSinSecreto = ''sin_secreto''"
definition AuthReasonMatchedPrevious :: string where "AuthReasonMatchedPrevious = ''matched_previous''"

definition OpenEstados :: "estado list" where
  "OpenEstados = [EstadoRecibida, EstadoProcesando, EstadoReintentar, EstadoRequiereRevision, EstadoDeadLetter]"

definition MaxBodyBytes :: nat where "MaxBodyBytes = 65536"

record Notification =
  n_ID :: string
  n_OrganizationID :: string
  n_Provider :: string
  n_Route :: string
  n_ReceivedAt :: int
  n_SourceIP :: string
  n_Method :: string
  n_Query :: string
  n_Headers :: string
  n_BodyRaw :: "string option"
  n_BodySHA256 :: string
  n_BodyTruncated :: bool
  n_BodyRedacted :: string
  n_ResourceKind :: string
  n_ResourceID :: string
  n_EventID :: string
  n_Auth :: string
  n_AuthReason :: string
  n_Estado :: estado
  n_Motivo :: string
  n_Intentos :: int
  n_ProximoIntentoAt :: "int option"
  n_ProcesadaAt :: "int option"
  n_PaymentID :: "string option"
  n_CheckoutRef :: string
  n_IncidentID :: "string option"
  n_ReplayOf :: "string option"
  n_DedupeKey :: string
  n_PurgedAt :: "int option"
  n_UpdatedAt :: int

record Attempt =
  at_NotificationID :: string
  at_N :: int
  at_OrganizationID :: string
  at_StartedAt :: int
  at_EndedAt :: "int option"
  at_Resultado :: estado
  at_Motivo :: string
  at_Actor :: string
  at_HTTPStatus :: int

record inbox_db =
  db_rows :: "Notification list"
  db_attempts :: "Attempt list"
  db_incidents :: "Incident list"

record inbox_Request =
  q_Org :: string
  q_Provider :: string
  q_Route :: string
  q_Method :: string
  q_Query :: "string \<rightharpoonup> string list"
  q_Headers :: "(string \<times> string list) list"
  q_Body :: string
  q_SourceIP :: string
  q_ReceivedAt :: "int option"

record WriteFailure =
  wf_Table :: string
  wf_Row :: string
  wf_Cause :: string

record Result =
  r_Auth :: string
  r_AuthReason :: string
  r_ResourceKind :: string
  r_ResourceID :: string
  r_EventID :: string
  r_Estado :: "estado option"
  r_Motivo :: string
  r_PaymentID :: "string option"
  r_CheckoutRef :: string
  r_HTTPStatus :: int
  r_Actor :: string
  r_RetryAfter :: int
  r_WriteFailures :: "WriteFailure list"
  r_Amount :: string
  r_Currency :: string

record inbox_Config =
  ic_Incidents :: bool
  ic_Backoff :: "int list"
  ic_Jitter :: rat
  ic_DedupeWindow :: int
  ic_RetainRaw :: int
  ic_RetainResult :: int

record nenv =
  ne_now :: int
  ne_id :: string
  ne_sha256_hex :: "string \<Rightarrow> string"
  ne_query_json :: "(string \<rightharpoonup> string list) \<Rightarrow> string"
  ne_headers_json :: "(string \<rightharpoonup> string) \<Rightarrow> string"
  ne_decode :: "string \<Rightarrow> json option"
  ne_encode :: "json \<Rightarrow> string"
  ne_lower :: "string \<Rightarrow> string"
  ne_SplitHostPort :: "string \<Rightarrow> string option"
  ne_ParseAddr :: "string \<Rightarrow> string option"
  ne_jitter :: "rat \<Rightarrow> int \<Rightarrow> int"
  ne_incident :: "nat \<Rightarrow> inc_env"
  ne_incident_gap :: "nat \<Rightarrow> nat \<Rightarrow> Incident list \<Rightarrow> Incident list"

datatype inbox_error = OrganizationRequired | ProviderRequired | NotFound | NeedsEstado | ReasonRequired | NotManual estado
  | RecordFailed | IncidentFailed inc_error

abbreviation second :: int where "second \<equiv> 1000000000"

definition DefaultBackoff :: "int list" where
  "DefaultBackoff = [10 * second, 30 * second, 120 * second, 600 * second, 1800 * second,
     7200 * second, 21600 * second, 43200 * second, 86400 * second]"

definition DefaultRetainRaw :: int where "DefaultRetainRaw = 90 * 24 * 3600 * second"
definition DefaultRetainResult :: int where "DefaultRetainResult = 24 * 30 * 24 * 3600 * second"
definition DefaultDedupeWindow :: int where "DefaultDedupeWindow = 3600 * second"
definition DefaultStaleAfter :: int where "DefaultStaleAfter = 30 * second"

definition NewStore :: "inbox_Config \<Rightarrow> inbox_Config" where
  "NewStore cfg =
     cfg\<lparr>ic_Backoff := (if ic_Backoff cfg = [] then DefaultBackoff else ic_Backoff cfg),
         ic_Jitter := (if ic_Jitter cfg = 0 then 1 / 5 else ic_Jitter cfg),
         ic_DedupeWindow := (if ic_DedupeWindow cfg \<le> 0 then DefaultDedupeWindow else ic_DedupeWindow cfg),
         ic_RetainRaw := (if ic_RetainRaw cfg \<le> 0 then DefaultRetainRaw else ic_RetainRaw cfg),
         ic_RetainResult := (if ic_RetainResult cfg \<le> 0 then DefaultRetainResult else ic_RetainResult cfg)\<rparr>"

section \<open>Recording\<close>

definition inbox_DedupeKey :: "nenv \<Rightarrow> string \<Rightarrow> string \<Rightarrow> (string \<rightharpoonup> string list) \<Rightarrow> string \<Rightarrow> string" where
  "inbox_DedupeKey e provider route query bodySHA =
     ne_sha256_hex e (provider @ ''|'' @ route @ ''|'' @ ne_query_json e query @ ''|'' @ bodySHA)"

definition validIP :: "nenv \<Rightarrow> string \<Rightarrow> string" where
  "validIP e s0 =
     (let s = TrimSpace s0;
          s' = (case ne_SplitHostPort e s of Some host \<Rightarrow> host | None \<Rightarrow> s)
      in case ne_ParseAddr e s' of Some a \<Rightarrow> a | None \<Rightarrow> [])"

text \<open>\<open>header\<close> is \<^verbatim>\<open>h.Get\<close>; \<open>local\<close> tells loopback and private addresses; \<open>None\<close> is the nil function.\<close>

definition SourceIP :: "nenv \<Rightarrow> (string \<Rightarrow> bool) \<Rightarrow> string \<Rightarrow> (string \<Rightarrow> string) \<Rightarrow> (string \<Rightarrow> bool) option \<Rightarrow> string" where
  "SourceIP e local remoteAddr header trusted0 =
     (let peer = validIP e remoteAddr;
          trusted = (case trusted0 of None \<Rightarrow> local | Some f \<Rightarrow> f)
      in if peer = [] then []
         else if (case ne_ParseAddr e peer of Some a \<Rightarrow> trusted a | None \<Rightarrow> False) then
           (case find (\<lambda>v. v \<noteq> []) (map (\<lambda>name. validIP e (header name)) [''CF-Connecting-IP'', ''X-Real-IP'']) of
              Some v \<Rightarrow> v
            | None \<Rightarrow> peer)
         else peer)"

definition handled_estado :: "estado \<Rightarrow> bool" where
  "handled_estado st \<longleftrightarrow> st \<in> {EstadoProcesada, EstadoReconciliadaAPI, EstadoIgnorada, EstadoDuplicada, EstadoResueltaManual}"

definition is_twin :: "inbox_Config \<Rightarrow> Notification \<Rightarrow> int \<Rightarrow> Notification \<Rightarrow> bool" where
  "is_twin cfg row now x \<longleftrightarrow>
     n_OrganizationID x = n_OrganizationID row \<and> n_DedupeKey x = n_DedupeKey row \<and> n_ReceivedAt x \<ge> now - ic_DedupeWindow cfg \<and>
     (handled_estado (n_Estado x) \<or>
      (n_Estado x = EstadoRecibida \<or> n_Estado x = EstadoProcesando) \<and> n_ReceivedAt x \<ge> now - DefaultStaleAfter)"

definition hasTwin :: "inbox_Config \<Rightarrow> Notification \<Rightarrow> int \<Rightarrow> Notification list \<Rightarrow> bool" where
  "hasTwin cfg row now rows \<longleftrightarrow> (\<exists>x\<in>set rows. is_twin cfg row now x)"

definition twin_motivo :: string where
  "twin_motivo = ''misma notificaci'' @ [CHR 0xC3, CHR 0xB3] @ ''n ya recibida''"

definition insert_row :: "nenv \<Rightarrow> inbox_Request \<Rightarrow> Notification" where
  "insert_row e req =
     (let received = (case q_ReceivedAt req of None \<Rightarrow> ne_now e | Some t \<Rightarrow> t);
          bodySHA = ne_sha256_hex e (q_Body req);
          raw = take MaxBodyBytes (q_Body req);
          method = ToUpper (TrimSpace (q_Method req))
      in \<lparr>n_ID = ne_id e, n_OrganizationID = q_Org req, n_Provider = q_Provider req, n_Route = q_Route req, n_ReceivedAt = received,
          n_SourceIP = validIP e (q_SourceIP req), n_Method = (if method = [] then ''POST'' else method),
          n_Query = ne_query_json e (q_Query req), n_Headers = ne_headers_json e (RedactHeaders (ne_lower e) (q_Headers req)),
          n_BodyRaw = Some raw, n_BodySHA256 = bodySHA, n_BodyTruncated = (length (q_Body req) > MaxBodyBytes),
          n_BodyRedacted = RedactBody (ne_lower e) (ne_decode e) (ne_encode e) raw,
          n_ResourceKind = [], n_ResourceID = [], n_EventID = [], n_Auth = AuthPendiente, n_AuthReason = [],
          n_Estado = EstadoRecibida, n_Motivo = [], n_Intentos = 0, n_ProximoIntentoAt = None, n_ProcesadaAt = None,
          n_PaymentID = None, n_CheckoutRef = [], n_IncidentID = None, n_ReplayOf = None,
          n_DedupeKey = inbox_DedupeKey e (q_Provider req) (q_Route req) (q_Query req) bodySHA,
          n_PurgedAt = None, n_UpdatedAt = received\<rparr>)"

definition find_note :: "string \<Rightarrow> string \<Rightarrow> inbox_db \<Rightarrow> Notification option" where
  "find_note org ident db = find (\<lambda>x. n_OrganizationID x = org \<and> n_ID x = ident) (db_rows db)"

text \<open>\<^verbatim>\<open>notificationColumns\<close>: every column but the raw body.\<close>

definition columns :: "Notification \<Rightarrow> Notification" where
  "columns x = x\<lparr>n_BodyRaw := None\<rparr>"

definition Get_note :: "string \<Rightarrow> string \<Rightarrow> inbox_db \<Rightarrow> (inbox_error, Notification) result" where
  "Get_note org ident db = (case find_note org ident db of None \<Rightarrow> Inl NotFound | Some x \<Rightarrow> Inr (columns x))"

text \<open>The insert fails when the id is taken.\<close>

definition Record :: "nenv \<Rightarrow> inbox_Config \<Rightarrow> inbox_Request \<Rightarrow> inbox_db \<Rightarrow> (inbox_error, Notification) result \<times> inbox_db" where
  "Record e cfg req db =
     (if q_Org req = nil_org then (Inl OrganizationRequired, db)
      else if TrimSpace (q_Provider req) = [] then (Inl ProviderRequired, db)
      else let row = insert_row e req;
               row' = (if hasTwin cfg row (n_ReceivedAt row) (db_rows db)
                       then row\<lparr>n_Estado := EstadoDuplicada, n_Motivo := twin_motivo, n_ProcesadaAt := Some (n_ReceivedAt row)\<rparr>
                       else row)
           in if ne_id e \<in> n_ID ` set (db_rows db) then (Inl RecordFailed, db)
              else let db' = db\<lparr>db_rows := db_rows db @ [row']\<rparr> in (Get_note (q_Org req) (ne_id e) db', db'))"

definition Raw :: "string \<Rightarrow> string \<Rightarrow> inbox_db \<Rightarrow> (inbox_error, string option \<times> bool) result" where
  "Raw org ident db =
     (case find_note org ident db of None \<Rightarrow> Inl NotFound | Some x \<Rightarrow> Inr (n_BodyRaw x, n_BodyTruncated x))"

definition Attempts :: "string \<Rightarrow> string \<Rightarrow> inbox_db \<Rightarrow> Attempt list" where
  "Attempts org ident db =
     sort_key at_N (filter (\<lambda>a. at_OrganizationID a = org \<and> at_NotificationID a = ident) (db_attempts db))"

section \<open>Claiming\<close>

definition upsertAttemptStart :: "string \<Rightarrow> string \<Rightarrow> int \<Rightarrow> int \<Rightarrow> string \<Rightarrow> Attempt list \<Rightarrow> Attempt list" where
  "upsertAttemptStart org ident n start actor ats =
     (if \<exists>a\<in>set ats. at_NotificationID a = ident \<and> at_N a = n then ats
      else ats @ [\<lparr>at_NotificationID = ident, at_N = n, at_OrganizationID = org, at_StartedAt = start, at_EndedAt = None,
                   at_Resultado = EstadoProcesando, at_Motivo = [], at_Actor = actor, at_HTTPStatus = 0\<rparr>])"

definition claimable_note :: "int \<Rightarrow> bool \<Rightarrow> Notification \<Rightarrow> bool" where
  "claimable_note now force cur =
     (case n_Estado cur of
        EstadoRecibida \<Rightarrow> True
      | EstadoReintentar \<Rightarrow> True
      | EstadoProcesando \<Rightarrow> n_UpdatedAt cur < now - DefaultStaleAfter
      | _ \<Rightarrow> force)"

text \<open>The result is the row, the attempt and whether it was claimed.\<close>

definition Claim :: "nenv \<Rightarrow> string \<Rightarrow> string \<Rightarrow> string \<Rightarrow> bool \<Rightarrow> inbox_db \<Rightarrow>
    (inbox_error, Notification \<times> int \<times> bool) result \<times> inbox_db" where
  "Claim e org ident actor force db =
     (case Get_note org ident db of
        Inl err \<Rightarrow> (Inl err, db)
      | Inr cur \<Rightarrow>
          if \<not> claimable_note (ne_now e) force cur then (Inr (cur, 0, False), db)
          else let attempt = n_Intentos cur + 1;
                   db' = db\<lparr>db_rows := update_where (\<lambda>x. n_ID x = ident)
                              (\<lambda>x. x\<lparr>n_Estado := EstadoProcesando, n_UpdatedAt := ne_now e, n_ProximoIntentoAt := None\<rparr>) (db_rows db),
                            db_attempts := upsertAttemptStart org ident attempt (ne_now e) (if actor = [] then ''system'' else actor)
                              (db_attempts db)\<rparr>
               in (rbind (Get_note org ident db') (\<lambda>x. Inr (x, attempt, True)), db'))"

section \<open>Incidents of an outcome\<close>

definition mergeIdentity :: "Notification \<Rightarrow> Result \<Rightarrow> estado \<Rightarrow> Notification" where
  "mergeIdentity cur r st =
     cur\<lparr>n_Auth := or_old (r_Auth r) (n_Auth cur), n_AuthReason := or_old (r_AuthReason r) (n_AuthReason cur),
         n_ResourceKind := or_old (r_ResourceKind r) (n_ResourceKind cur), n_ResourceID := or_old (r_ResourceID r) (n_ResourceID cur),
         n_CheckoutRef := or_old (r_CheckoutRef r) (n_CheckoutRef cur), n_Estado := st\<rparr>"

definition subject :: "Notification \<Rightarrow> string" where
  "subject n = (if n_ResourceID n \<noteq> [] then n_ResourceID n else n_ID n)"

definition guillemets :: "string \<Rightarrow> string" where
  "guillemets s = [CHR 0xC2, CHR 0xAB] @ s @ [CHR 0xC2, CHR 0xBB]"

text \<open>The incidents an outcome calls for, in order.\<close>

definition wanted :: "Notification \<Rightarrow> Notification \<Rightarrow> Result \<Rightarrow> string \<Rightarrow> pay_Input list" where
  "wanted cur m r motivo =
     (let P = n_Provider m; S = subject m;
          inc = (\<lambda>kind sev fp title hint detail.
            \<lparr>pi_Org = n_OrganizationID cur, pi_Provider = P, pi_Kind = kind, pi_Severity = sev, pi_Fingerprint = fp,
             pi_PaymentRef = n_ResourceID m, pi_OrderRef = n_CheckoutRef m, pi_Amount = r_Amount r, pi_Currency = r_Currency r,
             pi_Title = title, pi_ActionHint = hint, pi_Detail = detail, pi_NotificationID = Some (n_ID cur)\<rparr>)
      in (if n_Auth m = AuthFirmaInvalida then
            [inc KindSignatureInvalid SeverityHigh (KindSignatureInvalid @ '':'' @ P) (P @ '': la firma del webhook no coincide'')
               ''El proveedor firma con otra clave: actualiza el secreto del webhook del conector'' (n_AuthReason m)]
          else if n_Auth m = AuthFirmaOK \<and> n_AuthReason m = AuthReasonMatchedPrevious then
            [inc KindSignatureInvalid SeverityLow (''signature_previous_key:'' @ P) (P @ '': el proveedor sigue firmando con la clave anterior'')
               ''Actualiza el secreto del webhook; la clave anterior caduca en 72 h'' []]
          else []) @
         (case n_Estado m of
            EstadoRequiereRevision \<Rightarrow>
              [inc KindNotificationUnresolve SeverityHigh (KindNotificationUnresolve @ '':'' @ P @ '':'' @ S)
                 (P @ '': aviso de pago sin resolver'') (''Revisa el aviso y pulsa '' @ guillemets ''Reconciliar ahora'') motivo]
          | EstadoReintentar \<Rightarrow>
              (if n_Auth m = AuthFirmaInvalida then
                 [inc KindNotificationUnresolve SeverityHigh (KindNotificationUnresolve @ '':'' @ P @ '':'' @ S)
                    (P @ '': pago sin conciliar (firma inv'' @ [CHR 0xC3, CHR 0xA1] @ ''lida y el proveedor no respondi'' @ [CHR 0xC3, CHR 0xB3] @ '')'')
                    (''Se reintenta solo; si persiste, pulsa '' @ guillemets ''Reconciliar ahora'') motivo]
               else [])
          | EstadoDeadLetter \<Rightarrow>
              [inc KindDeadLetter (if n_ResourceKind m = ''payment'' \<or> n_ResourceKind m = [] then SeverityHigh else SeverityMedium)
                 (KindDeadLetter @ '':'' @ P @ '':'' @ S) (P @ '': aviso de pago agot'' @ [CHR 0xC3, CHR 0xB3] @ '' los reintentos'')
                 (''Pulsa '' @ guillemets ''Reprocesar'' @ '' o '' @ guillemets ''Reconciliar ahora'') motivo]
          | _ \<Rightarrow> []) @
         (if r_WriteFailures r \<noteq> [] then
            [inc KindPaymentWriteFailed SeverityHigh (KindPaymentWriteFailed @ '':'' @ P @ '':'' @ S) (P @ '': no se pudo escribir el pago'')
               ''Se reintenta solo; revisa la causa'' (join_with ''; '' (map (\<lambda>w. wf_Table w @ '': '' @ wf_Cause w) (r_WriteFailures r)))]
          else []))"

text \<open>Opening them one after the other: the id of the first, or the first error; \<open>k\<close> counts the calls.\<close>

fun open_all :: "nenv \<Rightarrow> nat \<Rightarrow> pay_Input list \<Rightarrow> Incident list \<Rightarrow> (inc_error, string option) result \<times> Incident list" where
  "open_all e k [] db = (Inr None, db)"
| "open_all e k (i # is) db =
     (case pay_Open (ne_incident e k) (ne_incident_gap e k) i db of
        (Inl err, db') \<Rightarrow> (Inl err, db')
      | (Inr (got, _, _), db') \<Rightarrow>
          (case open_all e (k + 1) is db' of
             (Inl err, db'') \<Rightarrow> (Inl err, db'')
           | (Inr _, db'') \<Rightarrow> (Inr (Some (inc_ID got)), db'')))"

definition close_all :: "nenv \<Rightarrow> string \<Rightarrow> string \<Rightarrow> string list \<Rightarrow> Incident list \<Rightarrow> Incident list" where
  "close_all e org why fps db = fold (\<lambda>fp db. snd (pay_CloseByFingerprint (ne_incident e 0) org fp why db)) fps db"

definition subject_fingerprints :: "Notification \<Rightarrow> string list" where
  "subject_fingerprints m = map (\<lambda>kind. kind @ '':'' @ n_Provider m @ '':'' @ subject m)
     [KindNotificationUnresolve, KindDeadLetter, KindPaymentWriteFailed]"

definition applyIncidents :: "nenv \<Rightarrow> inbox_Config \<Rightarrow> Notification \<Rightarrow> Notification \<Rightarrow> Result \<Rightarrow> string \<Rightarrow> Incident list \<Rightarrow>
    (inc_error, string option) result \<times> Incident list" where
  "applyIncidents e cfg cur m r motivo db =
     (if \<not> ic_Incidents cfg then (Inr None, db)
      else case open_all e 0 (wanted cur m r motivo) db of
             (Inl err, db1) \<Rightarrow> (Inl err, db1)
           | (Inr link, db1) \<Rightarrow>
               (let db2 = (if handled_estado (n_Estado m)
                           then close_all e (n_OrganizationID cur) ''aviso conciliado'' (subject_fingerprints m) db1 else db1);
                    db3 = (if n_Auth m = AuthFirmaOK \<and> n_AuthReason m \<noteq> AuthReasonMatchedPrevious
                           then close_all e (n_OrganizationID cur) (''la firma volvi'' @ [CHR 0xC3, CHR 0xB3] @ '' a coincidir'')
                             [KindSignatureInvalid @ '':'' @ n_Provider m, ''signature_previous_key:'' @ n_Provider m] db2
                           else db2)
                in (Inr link, db3)))"

section \<open>Resolving\<close>

definition truncate_bytes :: "string \<Rightarrow> nat \<Rightarrow> string" where
  "truncate_bytes s n = (if length s \<le> n then s else take n s)"

definition backoff :: "nenv \<Rightarrow> inbox_Config \<Rightarrow> nat \<Rightarrow> int" where
  "backoff e cfg attempt =
     (let d = ic_Backoff cfg ! (attempt - 1) in if ic_Jitter cfg > 0 then ne_jitter e (ic_Jitter cfg) d else d)"

text \<open>The estado, motivo and next try an attempt ends with.\<close>

definition scheduled :: "nenv \<Rightarrow> inbox_Config \<Rightarrow> int \<Rightarrow> estado \<Rightarrow> Result \<Rightarrow> estado \<times> string \<times> int option" where
  "scheduled e cfg attempt st r =
     (if st = EstadoReintentar then
        (if attempt > int (length (ic_Backoff cfg)) then (EstadoDeadLetter, TrimSpace (''reintentos agotados: '' @ r_Motivo r), None)
         else (EstadoReintentar, r_Motivo r,
               Some (ne_now e + (if r_RetryAfter r \<le> 0 then backoff e cfg (nat attempt) else r_RetryAfter r))))
      else (st, r_Motivo r, None))"

definition resolved_row :: "nenv \<Rightarrow> Result \<Rightarrow> int \<Rightarrow> estado \<Rightarrow> string \<Rightarrow> int option \<Rightarrow> string option \<Rightarrow> Notification \<Rightarrow> Notification" where
  "resolved_row e r attempt st motivo next_try link x =
     x\<lparr>n_Estado := st, n_Motivo := truncate_bytes motivo 500, n_Intentos := attempt, n_UpdatedAt := ne_now e, n_ProximoIntentoAt := next_try,
       n_Auth := or_old (r_Auth r) (n_Auth x), n_AuthReason := or_old (r_AuthReason r) (n_AuthReason x),
       n_ResourceKind := or_old (r_ResourceKind r) (n_ResourceKind x), n_ResourceID := or_old (r_ResourceID r) (n_ResourceID x),
       n_EventID := or_old (r_EventID r) (n_EventID x), n_CheckoutRef := or_old (r_CheckoutRef r) (n_CheckoutRef x),
       n_ProcesadaAt := (if st \<in> {EstadoReintentar, EstadoProcesando, EstadoRecibida} then n_ProcesadaAt x else Some (ne_now e)),
       n_PaymentID := (case r_PaymentID r of None \<Rightarrow> n_PaymentID x | Some p \<Rightarrow> Some p),
       n_IncidentID := (case link of None \<Rightarrow> n_IncidentID x | Some i \<Rightarrow> Some i)\<rparr>"

definition closed_attempt :: "nenv \<Rightarrow> Result \<Rightarrow> estado \<Rightarrow> string \<Rightarrow> Attempt \<Rightarrow> Attempt" where
  "closed_attempt e r st motivo a =
     a\<lparr>at_EndedAt := Some (ne_now e), at_Resultado := st, at_Motivo := truncate_bytes motivo 500, at_HTTPStatus := r_HTTPStatus r\<rparr>"

text \<open>\<open>gap\<close> acts between the read and the incidents, \<open>gap'\<close> between the incidents and the update. The returned list is
  what \<^verbatim>\<open>OnRetry\<close> is called with.\<close>

definition Resolve :: "nenv \<Rightarrow> inbox_Config \<Rightarrow> (inbox_db \<Rightarrow> inbox_db) \<Rightarrow> (inbox_db \<Rightarrow> inbox_db) \<Rightarrow> string \<Rightarrow> string \<Rightarrow> Result \<Rightarrow> inbox_db \<Rightarrow>
    (inbox_error, Notification \<times> Notification list) result \<times> inbox_db" where
  "Resolve e cfg gap gap' org ident r db =
     (case r_Estado r of
        None \<Rightarrow> (Inl NeedsEstado, db)
      | Some st0 \<Rightarrow>
          (case Get_note org ident db of
             Inl err \<Rightarrow> (Inl err, db)
           | Inr cur \<Rightarrow>
               (let attempt = n_Intentos cur + 1;
                    (st, motivo, next_try) = scheduled e cfg attempt st0 r;
                    actor = (if r_Actor r = [] then ''system'' else r_Actor r);
                    db0 = gap db
                in case applyIncidents e cfg cur (mergeIdentity cur r st) r motivo (db_incidents db0) of
                     (Inl err, incs) \<Rightarrow> (Inl (IncidentFailed err), db0\<lparr>db_incidents := incs\<rparr>)
                   | (Inr link, incs) \<Rightarrow>
                       (let db1 = gap' (db0\<lparr>db_incidents := incs\<rparr>);
                            db2 = db1\<lparr>db_rows := update_where (\<lambda>x. n_OrganizationID x = org \<and> n_ID x = ident)
                                        (resolved_row e r attempt st motivo next_try link) (db_rows db1),
                                      db_attempts := update_where (\<lambda>a. at_NotificationID a = ident \<and> at_N a = attempt)
                                        (closed_attempt e r st motivo)
                                        (upsertAttemptStart org ident attempt (n_ReceivedAt cur) actor (db_attempts db1))\<rparr>
                        in (rbind (Get_note org ident db2)
                              (\<lambda>out. Inr (out, if n_Estado out = EstadoReintentar then [out] else [])), db2)))))"

definition manual_result :: "string \<Rightarrow> string \<Rightarrow> Result" where
  "manual_result who reason =
     \<lparr>r_Auth = [], r_AuthReason = [], r_ResourceKind = [], r_ResourceID = [], r_EventID = [], r_Estado = Some EstadoResueltaManual,
      r_Motivo = reason, r_PaymentID = None, r_CheckoutRef = [], r_HTTPStatus = 0, r_Actor = who, r_RetryAfter = 0,
      r_WriteFailures = [], r_Amount = [], r_Currency = []\<rparr>"

text \<open>\<open>before\<close> acts between the check and the read of \<^verbatim>\<open>Resolve\<close>.\<close>

definition ResolveManual :: "nenv \<Rightarrow> inbox_Config \<Rightarrow> (inbox_db \<Rightarrow> inbox_db) \<Rightarrow> (inbox_db \<Rightarrow> inbox_db) \<Rightarrow> (inbox_db \<Rightarrow> inbox_db) \<Rightarrow>
    string \<Rightarrow> string \<Rightarrow> string \<Rightarrow> string \<Rightarrow> inbox_db \<Rightarrow> (inbox_error, Notification \<times> Notification list) result \<times> inbox_db" where
  "ResolveManual e cfg before gap gap' org ident who reason db =
     (if TrimSpace reason = [] then (Inl ReasonRequired, db)
      else case Get_note org ident db of
             Inl err \<Rightarrow> (Inl err, db)
           | Inr cur \<Rightarrow>
               if n_Estado cur \<noteq> EstadoRequiereRevision \<and> n_Estado cur \<noteq> EstadoDeadLetter then (Inl (NotManual (n_Estado cur)), db)
               else Resolve e cfg gap gap' org ident (manual_result who reason) (before db))"

section \<open>Queries and retention\<close>

definition due_note :: "int \<Rightarrow> Notification \<Rightarrow> bool" where
  "due_note now x \<longleftrightarrow>
     n_Estado x = EstadoReintentar \<and> (case n_ProximoIntentoAt x of None \<Rightarrow> False | Some t \<Rightarrow> t \<le> now) \<or>
     (n_Estado x = EstadoRecibida \<or> n_Estado x = EstadoProcesando) \<and> n_UpdatedAt x < now - DefaultStaleAfter"

definition Due :: "nenv \<Rightarrow> int \<Rightarrow> inbox_db \<Rightarrow> Notification list" where
  "Due e limit db =
     map columns (take (nat (if limit \<le> 0 then 50 else limit)) (sort_key n_ReceivedAt (filter (due_note (ne_now e)) (db_rows db))))"

record note_Filter =
  nf_Org :: string
  nf_Provider :: string
  nf_Estados :: "estado list"
  nf_Auth :: string
  nf_ResourceID :: string
  nf_From :: "int option"
  nf_To :: "int option"
  nf_Limit :: int
  nf_Offset :: int

definition note_filtered :: "note_Filter \<Rightarrow> inbox_db \<Rightarrow> Notification list" where
  "note_filtered f db =
     filter (\<lambda>x. n_OrganizationID x = nf_Org f \<and> (nf_Provider f \<noteq> [] \<longrightarrow> n_Provider x = nf_Provider f) \<and>
       (nf_Estados f \<noteq> [] \<longrightarrow> n_Estado x \<in> set (nf_Estados f)) \<and> (nf_Auth f \<noteq> [] \<longrightarrow> n_Auth x = nf_Auth f) \<and>
       (nf_ResourceID f \<noteq> [] \<longrightarrow> n_ResourceID x = nf_ResourceID f) \<and>
       (case nf_From f of None \<Rightarrow> True | Some t \<Rightarrow> n_ReceivedAt x \<ge> t) \<and>
       (case nf_To f of None \<Rightarrow> True | Some t \<Rightarrow> n_ReceivedAt x < t)) (db_rows db)"

text \<open>Newest first; the order of the ids of simultaneous rows is the argument \<open>rank\<close>.\<close>

definition List_notes :: "(string \<Rightarrow> int) \<Rightarrow> note_Filter \<Rightarrow> inbox_db \<Rightarrow> Notification list \<times> nat" where
  "List_notes rank f db =
     (let rows = note_filtered f db;
          limit = (if nf_Limit f \<le> 0 \<or> nf_Limit f > 500 then 100 else nf_Limit f)
      in (map columns (take (nat limit) (drop (nat (nf_Offset f))
            (sort_key (\<lambda>x. - n_ReceivedAt x) (sort_key (\<lambda>x. - rank (n_ID x)) rows)))), length rows))"

record Stats =
  st_ByEstado :: "estado \<Rightarrow> nat"
  st_InvalidSignature24h :: "string \<Rightarrow> nat"
  st_LastSigned :: "string \<Rightarrow> int option"

definition Stats_of :: "nenv \<Rightarrow> string \<Rightarrow> inbox_db \<Rightarrow> Stats" where
  "Stats_of e org db =
     (let rows = filter (\<lambda>x. n_OrganizationID x = org) (db_rows db) in
      \<lparr>st_ByEstado = (\<lambda>st. if st \<in> set OpenEstados then length (filter (\<lambda>x. n_Estado x = st) rows) else 0),
       st_InvalidSignature24h = (\<lambda>p. length (filter (\<lambda>x. n_Auth x = AuthFirmaInvalida \<and>
          n_ReceivedAt x \<ge> ne_now e - 24 * 3600 * second \<and> n_Provider x = p) rows)),
       st_LastSigned = (\<lambda>p. let ts = map n_ReceivedAt (filter (\<lambda>x. n_Auth x = AuthFirmaOK \<and> n_Provider x = p) rows)
          in if ts = [] then None else Some (fold max ts (hd ts)))\<rparr>)"

definition PurgeBatch :: nat where "PurgeBatch = 5000"

text \<open>\<open>pick\<close> chooses, as a \<^verbatim>\<open>LIMIT\<close> without an order does, which of the matching rows each of the three statements takes.\<close>

definition Purge :: "nenv \<Rightarrow> inbox_Config \<Rightarrow> (nat \<Rightarrow> Notification list \<Rightarrow> Notification list) \<Rightarrow> inbox_db \<Rightarrow> (nat \<times> nat) \<times> inbox_db" where
  "Purge e cfg pick db =
     (let rawCut = ne_now e - ic_RetainRaw cfg;
          resCut = ne_now e - ic_RetainResult cfg;
          closed = handled_estado;
          batch = (\<lambda>k p rows. n_ID ` set (take PurgeBatch (pick k (filter p rows))));
          ids = batch 0 (\<lambda>x. n_ReceivedAt x < rawCut \<and> n_PurgedAt x = None \<and> closed (n_Estado x)) (db_rows db);
          rows1 = update_where (\<lambda>x. n_ID x \<in> ids) (\<lambda>x. x\<lparr>n_BodyRaw := None, n_Headers := ''{}'', n_PurgedAt := Some (ne_now e)\<rparr>) (db_rows db);
          old = batch 2 (\<lambda>x. n_ReceivedAt x < resCut \<and> closed (n_Estado x)) rows1
      in ((length (filter (\<lambda>x. n_ID x \<in> ids) (db_rows db)), length (filter (\<lambda>x. n_ID x \<in> old) rows1)),
          db\<lparr>db_rows := filter (\<lambda>x. n_ID x \<notin> old) rows1,
             db_attempts := filter (\<lambda>a. at_NotificationID a \<notin> batch 1 (\<lambda>x. n_ReceivedAt x < resCut \<and> closed (n_Estado x)) rows1) (db_attempts db)\<rparr>))"

section \<open>Export\<close>

text \<open>The pages of an export of a table that does not change: 500 rows each, in the order of arrival, until a short one.\<close>

definition export_page :: nat where "export_page = 500"

function export_from :: "Notification list \<Rightarrow> nat \<Rightarrow> Notification list" where
  "export_from rows offset =
     (let page = take export_page (drop offset rows);
          out = map (\<lambda>x. (columns x)\<lparr>n_Headers := []\<rparr>) page
      in if length page < export_page then out else out @ export_from rows (offset + export_page))"
  by pat_completeness auto
termination
  by (relation "measure (\<lambda>(rows, offset). length rows - offset)") (auto simp: export_page_def)

declare export_from.simps [simp del]

definition Export :: "(string \<Rightarrow> int) \<Rightarrow> note_Filter \<Rightarrow> inbox_db \<Rightarrow> Notification list" where
  "Export rank f db = export_from (sort_key n_ReceivedAt (sort_key (\<lambda>x. rank (n_ID x)) (note_filtered f db))) 0"

fun estado_text :: "estado \<Rightarrow> string" where
  "estado_text EstadoRecibida = ''recibida''"
| "estado_text EstadoProcesando = ''procesando''"
| "estado_text EstadoProcesada = ''procesada''"
| "estado_text EstadoDuplicada = ''duplicada''"
| "estado_text EstadoIgnorada = ''ignorada''"
| "estado_text EstadoReconciliadaAPI = ''reconciliada_por_api''"
| "estado_text EstadoRequiereRevision = ''requiere_revision''"
| "estado_text EstadoReintentar = ''reintentar''"
| "estado_text EstadoDeadLetter = ''dead_letter''"
| "estado_text EstadoResueltaManual = ''resuelta_manual''"

definition csv_cell :: "string \<Rightarrow> string" where
  "csv_cell c =
     (case c of
        [] \<Rightarrow> c
      | x # _ \<Rightarrow> if x = CHR ''='' \<or> x = CHR ''+'' \<or> x = CHR ''-'' \<or> x = CHR ''@'' then [CHR 0x27] @ c else c)"

text \<open>\<open>stamp\<close> is \<^verbatim>\<open>time.Format\<close> with RFC 3339.\<close>

definition csvRow :: "(int \<Rightarrow> string) \<Rightarrow> Notification \<Rightarrow> string list" where
  "csvRow stamp n =
     map csv_cell [n_ID n, stamp (n_ReceivedAt n), n_Provider n, n_Route n, n_Method n, n_SourceIP n, n_Auth n, n_AuthReason n,
       estado_text (n_Estado n), n_Motivo n, Itoa (n_Intentos n), n_ResourceKind n, n_ResourceID n, n_EventID n,
       (case n_PaymentID n of None \<Rightarrow> [] | Some p \<Rightarrow> p), n_CheckoutRef n, (case n_IncidentID n of None \<Rightarrow> [] | Some i \<Rightarrow> i),
       n_BodySHA256 n, n_BodyRedacted n]"

end
