(* ===== verification/Inbox_Steps.thy ===== *)
theory Inbox_Steps
  imports Inbox_Model
begin

text \<open>
  The journal as a state machine: one step per transaction of the store, so that the calls of any number of sessions
  interleave. \<^verbatim>\<open>Resolve\<close> contributes its last transaction, with the attempt number and the outcome computed from a row it read
  earlier; its incident transactions change only the incident table. The last section shows that a whole call of \<^verbatim>\<open>Resolve\<close>
  is a run of such steps.
\<close>

section \<open>Steps and the invariant\<close>

definition resolve_update :: "nenv \<Rightarrow> inbox_Config \<Rightarrow> string \<Rightarrow> string \<Rightarrow> Result \<Rightarrow> int \<Rightarrow> estado \<Rightarrow> string option \<Rightarrow> int \<Rightarrow> string \<Rightarrow> inbox_db \<Rightarrow> inbox_db" where
  "resolve_update e cfg org ident r attempt st0 link start actor db =
     (let (st, motivo, next_try) = scheduled e cfg attempt st0 r in
      db\<lparr>db_rows := update_where (\<lambda>x. n_OrganizationID x = org \<and> n_ID x = ident)
           (resolved_row e r attempt st motivo next_try link) (db_rows db),
         db_attempts := update_where (\<lambda>a. at_NotificationID a = ident \<and> at_N a = attempt) (closed_attempt e r st motivo)
           (upsertAttemptStart org ident attempt start actor (db_attempts db))\<rparr>)"

inductive journal_step :: "inbox_Config \<Rightarrow> inbox_db \<Rightarrow> inbox_db \<Rightarrow> bool" for cfg where
  arrive: "journal_step cfg db (snd (Record e cfg req db))"
| claim: "journal_step cfg db (snd (Claim e org ident actor force db))"
| resolve: "1 \<le> attempt \<Longrightarrow> journal_step cfg db (resolve_update e cfg org ident r attempt st0 link start actor db)"
| incidents: "journal_step cfg db (db\<lparr>db_incidents := incs\<rparr>)"
| purge: "(\<And>k xs. set (pick k xs) \<subseteq> set xs) \<Longrightarrow> journal_step cfg db (snd (Purge e cfg pick db))"

inductive_cases journal_stepE: "journal_step cfg db db'"

abbreviation journal_run :: "inbox_Config \<Rightarrow> inbox_db \<Rightarrow> inbox_db \<Rightarrow> bool" where
  "journal_run cfg \<equiv> (journal_step cfg)\<^sup>*\<^sup>*"

definition empty_journal :: inbox_db where
  "empty_journal = \<lparr>db_rows = [], db_attempts = [], db_incidents = []\<rparr>"

definition note_ok :: "inbox_Config \<Rightarrow> Notification \<Rightarrow> bool" where
  "note_ok cfg x \<longleftrightarrow> 0 \<le> n_Intentos x \<and>
     (n_Estado x = EstadoReintentar \<longrightarrow>
        n_ProximoIntentoAt x \<noteq> None \<and> 1 \<le> n_Intentos x \<and> n_Intentos x \<le> int (length (ic_Backoff cfg)))"

definition journal_ok :: "inbox_Config \<Rightarrow> inbox_db \<Rightarrow> bool" where
  "journal_ok cfg db \<longleftrightarrow> distinct (map n_ID (db_rows db)) \<and> list_all (note_ok cfg) (db_rows db)"

text \<open>The columns written when the notification arrives.\<close>

definition arrival :: "Notification \<Rightarrow> (string \<times> string \<times> string \<times> string \<times> int) \<times> string \<times> string \<times> string \<times> string \<times> bool \<times> string \<times> string" where
  "arrival x = ((n_ID x, n_OrganizationID x, n_Provider x, n_Route x, n_ReceivedAt x), n_SourceIP x, n_Method x, n_Query x,
     n_BodySHA256 x, n_BodyTruncated x, n_BodyRedacted x, n_DedupeKey x)"

lemma columns_simps [row_simps]:
  "n_ID (columns x) = n_ID x" "n_OrganizationID (columns x) = n_OrganizationID x" "n_Intentos (columns x) = n_Intentos x"
  "n_Estado (columns x) = n_Estado x" "n_ReceivedAt (columns x) = n_ReceivedAt x" "n_Provider (columns x) = n_Provider x"
  "n_ProximoIntentoAt (columns x) = n_ProximoIntentoAt x" "n_UpdatedAt (columns x) = n_UpdatedAt x" "n_IncidentID (columns x) = n_IncidentID x"
  by (simp_all add: columns_def)

lemma resolved_row_simps [row_simps]:
  "n_ID (resolved_row e r k st mo nt l x) = n_ID x" "n_OrganizationID (resolved_row e r k st mo nt l x) = n_OrganizationID x"
  "arrival (resolved_row e r k st mo nt l x) = arrival x" "n_BodyRaw (resolved_row e r k st mo nt l x) = n_BodyRaw x"
  "n_Headers (resolved_row e r k st mo nt l x) = n_Headers x" "n_Intentos (resolved_row e r k st mo nt l x) = k"
  "n_Estado (resolved_row e r k st mo nt l x) = st" "n_ProximoIntentoAt (resolved_row e r k st mo nt l x) = nt"
  by (simp_all add: resolved_row_def arrival_def)

lemma scheduled_ok:
  assumes "scheduled e cfg k st0 r = (st, mo, nt)" and "1 \<le> k"
  shows "note_ok cfg (resolved_row e r k st mo nt l x)"
  using assms by (auto simp: scheduled_def note_ok_def row_simps split: if_splits)

lemma list_all_update_where: "list_all P xs \<Longrightarrow> (\<And>x. P x \<Longrightarrow> q x \<Longrightarrow> P (f x)) \<Longrightarrow> list_all P (update_where q f xs)"
  by (auto simp: list_all_iff set_update_where)

lemma Record_rows:
  "db_rows (snd (Record e cfg req db)) = db_rows db \<or>
   (\<exists>x. db_rows (snd (Record e cfg req db)) = db_rows db @ [x] \<and> n_ID x \<notin> n_ID ` set (db_rows db) \<and> n_Intentos x = 0 \<and>
        (n_Estado x = EstadoRecibida \<or> n_Estado x = EstadoDuplicada))"
  by (auto simp: Record_def Let_def insert_row_def)

lemma Claim_rows:
  "db_rows (snd (Claim e org ident actor force db)) = db_rows db \<or>
   db_rows (snd (Claim e org ident actor force db)) =
     update_where (\<lambda>x. n_ID x = ident) (\<lambda>x. x\<lparr>n_Estado := EstadoProcesando, n_UpdatedAt := ne_now e, n_ProximoIntentoAt := None\<rparr>) (db_rows db)"
  by (auto simp: Claim_def Let_def split: sum.split)

lemma resolve_update_rows:
  obtains st mo nt where "scheduled e cfg k st0 r = (st, mo, nt)"
    "db_rows (resolve_update e cfg org ident r k st0 l start actor db) =
       update_where (\<lambda>x. n_OrganizationID x = org \<and> n_ID x = ident) (resolved_row e r k st mo nt l) (db_rows db)"
  by (cases "scheduled e cfg k st0 r") (simp add: resolve_update_def)

text \<open>Each surviving row is the old one, or the old one with its raw columns blanked.\<close>

definition blanked :: "nenv \<Rightarrow> Notification \<Rightarrow> Notification" where
  "blanked e x = x\<lparr>n_BodyRaw := None, n_Headers := ''{}'', n_PurgedAt := Some (ne_now e)\<rparr>"

lemma blanked_simps [row_simps]:
  "n_BodyRaw (blanked e x) = None" "n_ID (blanked e x) = n_ID x" "arrival (blanked e x) = arrival x" "n_Estado (blanked e x) = n_Estado x"
  "n_ReceivedAt (blanked e x) = n_ReceivedAt x" "n_Intentos (blanked e x) = n_Intentos x" "n_ProximoIntentoAt (blanked e x) = n_ProximoIntentoAt x"
  by (simp_all add: blanked_def arrival_def)

lemma picked_subset:
  assumes "\<And>k xs. set (pick k xs) \<subseteq> set xs"
  shows "n_ID ` set (take n (pick k (filter p rows))) \<subseteq> n_ID ` {x \<in> set rows. p x}"
  using assms[of k "filter p rows"] by (fastforce dest!: in_set_takeD)

lemma Purge_rows:
  assumes pk: "\<And>k xs. set (pick k xs) \<subseteq> set xs"
  obtains ids old where
    "db_rows (snd (Purge e cfg pick db)) = filter (\<lambda>x. n_ID x \<notin> old) (update_where (\<lambda>x. n_ID x \<in> ids) (blanked e) (db_rows db))"
    "ids \<subseteq> n_ID ` {x \<in> set (db_rows db). n_ReceivedAt x < ne_now e - ic_RetainRaw cfg \<and> handled_estado (n_Estado x)}"
    "old \<subseteq> n_ID ` {x \<in> set (db_rows db). n_ReceivedAt x < ne_now e - ic_RetainResult cfg \<and> handled_estado (n_Estado x)}"
proof -
  let ?p = "\<lambda>x. n_ReceivedAt x < ne_now e - ic_RetainRaw cfg \<and> n_PurgedAt x = None \<and> handled_estado (n_Estado x)"
  let ?q = "\<lambda>x. n_ReceivedAt x < ne_now e - ic_RetainResult cfg \<and> handled_estado (n_Estado x)"
  let ?ids = "n_ID ` set (take PurgeBatch (pick 0 (filter ?p (db_rows db))))"
  let ?rows = "update_where (\<lambda>x. n_ID x \<in> ?ids) (blanked e) (db_rows db)"
  let ?old = "n_ID ` set (take PurgeBatch (pick 2 (filter ?q ?rows)))"
  have b: "blanked e = (\<lambda>x. x\<lparr>n_BodyRaw := None, n_Headers := ''{}'', n_PurgedAt := Some (ne_now e)\<rparr>)"
    by (simp add: blanked_def fun_eq_iff)
  have sub: "n_ID ` {x \<in> set (update_where P (blanked e) (db_rows db)). ?q x} \<subseteq> n_ID ` {x \<in> set (db_rows db). ?q x}" for P
    by (auto simp: set_update_where row_simps split: if_splits)
  have old: "?old \<subseteq> n_ID ` {x \<in> set (db_rows db). ?q x}"
    by (rule order_trans[OF picked_subset[OF pk] sub])
  have ids: "?ids \<subseteq> n_ID ` {x \<in> set (db_rows db). n_ReceivedAt x < ne_now e - ic_RetainRaw cfg \<and> handled_estado (n_Estado x)}"
   
    by (rule order_trans[OF picked_subset[OF pk]]) blast
  have rows: "db_rows (snd (Purge e cfg pick db)) = filter (\<lambda>x. n_ID x \<notin> ?old) ?rows"
    unfolding Purge_def Let_def b by simp
  show thesis by (rule that[OF rows ids old])
qed

lemma journal_step_ok: "journal_step cfg db db' \<Longrightarrow> journal_ok cfg db \<Longrightarrow> journal_ok cfg db'"
proof (induction rule: journal_step.induct)
  case (arrive db e req)
  then show ?case using Record_rows[of e cfg req db] by (auto simp: journal_ok_def note_ok_def)
next
  case (claim db e org ident actor force)
  then show ?case using Claim_rows[of e org ident actor force db]
    by (auto simp: journal_ok_def map_update_where intro!: list_all_update_where) (simp add: note_ok_def)
next
  case (resolve attempt db e org ident r st0 link start actor)
  then show ?case using resolve_update_rows[of e cfg attempt st0 r org ident link start actor db]
    by (metis (no_types, lifting) journal_ok_def list_all_update_where map_update_where resolved_row_simps(1) scheduled_ok)
next
  case (incidents db incs)
  then show ?case by (simp add: journal_ok_def)
next
  case (purge pick db e)
  obtain ids old where r: "db_rows (snd (Purge e cfg pick db)) =
      filter (\<lambda>x. n_ID x \<notin> old) (update_where (\<lambda>x. n_ID x \<in> ids) (blanked e) (db_rows db))"
    by (rule Purge_rows[where pick = pick and e = e and cfg = cfg and db = db, OF purge(1)])
  have "list_all (note_ok cfg) (update_where (\<lambda>x. n_ID x \<in> ids) (blanked e) (db_rows db))"
    using purge(2) by (auto simp: journal_ok_def note_ok_def row_simps intro!: list_all_update_where)
  moreover have "distinct (map n_ID (update_where (\<lambda>x. n_ID x \<in> ids) (blanked e) (db_rows db)))"
    using purge(2) by (simp add: journal_ok_def map_update_where row_simps)
  ultimately show ?case unfolding journal_ok_def r by (auto simp: list_all_iff distinct_map_filter)
qed

lemma journal_run_ok: "journal_run cfg db db' \<Longrightarrow> journal_ok cfg db \<Longrightarrow> journal_ok cfg db'"
  by (induction rule: rtranclp_induct) (auto intro: journal_step_ok)

lemma journal_ok_empty: "journal_ok cfg empty_journal"
  by (simp add: journal_ok_def empty_journal_def)

end
