(* ===== verification/Inbox_Properties.thy ===== *)
theory Inbox_Properties
  imports Inbox_Steps
begin

text \<open>
  The guarantees of the journal: a recorded notification is kept until it was handled and its retention is over, and one that
  is not settled comes up for another try.
\<close>

section \<open>Nothing is lost\<close>


text \<open>The steps of the journal labelled with the clock of the purge when the step is one, and with nothing for every other
  transaction.\<close>

inductive journal_act :: "inbox_Config \<Rightarrow> int option \<Rightarrow> inbox_db \<Rightarrow> inbox_db \<Rightarrow> bool" for cfg where
  act_arrive: "journal_act cfg None db (snd (Record e cfg req db))"
| act_claim: "journal_act cfg None db (snd (Claim e org ident actor force db))"
| act_resolve: "1 \<le> attempt \<Longrightarrow> journal_act cfg None db (resolve_update e cfg org ident r attempt st0 link start actor db)"
| act_incidents: "journal_act cfg None db (db\<lparr>db_incidents := incs\<rparr>)"
| act_purge: "(\<And>k xs. set (pick k xs) \<subseteq> set xs) \<Longrightarrow> journal_act cfg (Some (ne_now e)) db (snd (Purge e cfg pick db))"

lemma journal_step_labelled: "journal_step cfg db db' \<longleftrightarrow> (\<exists>l. journal_act cfg l db db')"
proof
  show "journal_step cfg db db' \<Longrightarrow> \<exists>l. journal_act cfg l db db'"
    by (erule journal_stepE) (blast intro: journal_act.intros)+
  show "\<exists>l. journal_act cfg l db db' \<Longrightarrow> journal_step cfg db db'"
    by (erule exE, erule journal_act.cases) (blast intro: journal_step.intros)+
qed


lemma arrival_eqD: "arrival y = arrival x \<Longrightarrow> n_ID y = n_ID x \<and> n_ReceivedAt y = n_ReceivedAt x \<and> n_OrganizationID y = n_OrganizationID x"
  by (simp add: arrival_def)





definition inbox_env :: "int \<Rightarrow> string \<Rightarrow> nenv" where
  "inbox_env t ident =
     \<lparr>ne_now = t, ne_id = ident, ne_sha256_hex = (\<lambda>s. s), ne_query_json = (\<lambda>_. ''{}''), ne_headers_json = (\<lambda>_. ''{}''),
      ne_decode = (\<lambda>_. None), ne_encode = (\<lambda>_. []), ne_lower = (\<lambda>s. s), ne_SplitHostPort = (\<lambda>_. None), ne_ParseAddr = (\<lambda>_. None),
      ne_jitter = (\<lambda>_ d. d),
      ne_incident = (\<lambda>k. \<lparr>ie_now = t, ie_id = ident @ ''-'' @ digits_of k, ie_Publish = False, ie_Recipients = None, ie_RuleFlag = False, ie_Channel = []\<rparr>),
      ne_incident_gap = (\<lambda>_ _ d. d)\<rparr>"

definition inbox_sample_config :: inbox_Config where
  "inbox_sample_config = NewStore \<lparr>ic_Incidents = True, ic_Backoff = [10 * second, 30 * second], ic_Jitter = 0, ic_DedupeWindow = 0,
     ic_RetainRaw = 0, ic_RetainResult = 0\<rparr>"

definition sample_request :: "int \<Rightarrow> inbox_Request" where
  "sample_request t = \<lparr>q_Org = ''org'', q_Provider = ''mp'', q_Route = ''/in'', q_Method = ''post'', q_Query = Map.empty, q_Headers = [],
     q_Body = ''{1}'', q_SourceIP = [], q_ReceivedAt = Some t\<rparr>"

definition sample_db :: inbox_db where
  "sample_db = snd (Record (inbox_env 0 ''a'') inbox_sample_config (sample_request 0) empty_journal)"

lemma sample_row: "db_rows sample_db = [insert_row (inbox_env 0 ''a'') (sample_request 0)]"
  by code_simp

lemma sample_reachable: "journal_run inbox_sample_config empty_journal sample_db"
  unfolding sample_db_def by (rule r_into_rtranclp) (rule journal_step.arrive)



section \<open>Nothing is stuck\<close>

definition unsettled :: "estado \<Rightarrow> bool" where
  "unsettled st \<longleftrightarrow> st = EstadoRecibida \<or> st = EstadoProcesando \<or> st = EstadoReintentar"

text \<open>The time after which an unsettled row is due.\<close>

definition wakes_at :: "Notification \<Rightarrow> int" where
  "wakes_at x = (case n_ProximoIntentoAt x of Some t \<Rightarrow> if n_Estado x = EstadoReintentar then t else n_UpdatedAt x + DefaultStaleAfter
                 | None \<Rightarrow> n_UpdatedAt x + DefaultStaleAfter)"

lemma find_note_unique:
  assumes "distinct (map n_ID (db_rows db))" and "x \<in> set (db_rows db)"
  shows "find_note (n_OrganizationID x) (n_ID x) db = Some x"
proof -
  have "find (\<lambda>y. n_OrganizationID y = n_OrganizationID x \<and> n_ID y = n_ID x) rows = Some x"
    if "distinct (map n_ID rows)" "x \<in> set rows" for rows
    using that by (induction rows) (auto simp: image_iff)
  then show ?thesis using assms by (simp add: find_note_def)
qed

lemma Due_all:
  assumes "length (db_rows db) \<le> nat limit"
  shows "set (Due e limit db) = columns ` {x \<in> set (db_rows db). due_note (ne_now e) x}"
proof (cases "db_rows db")
  case Nil
  then show ?thesis by (simp add: Due_def)
next
  case (Cons a rows)
  then have l: "\<not> limit \<le> 0" using assms by auto
  have "length (sort_key n_ReceivedAt (filter (due_note (ne_now e)) (db_rows db))) \<le> nat limit"
    using order_trans[OF length_filter_le[of "due_note (ne_now e)" "db_rows db"] assms] by simp
  then show ?thesis using l by (simp add: Due_def)
qed

lemma claimable_columns [row_simps]: "claimable_note now force (columns x) = claimable_note now force x"
  by (simp add: claimable_note_def columns_def split: estado.split)

lemma Claim_unclaimed:
  assumes "find_note org ident db = Some x" and "\<not> claimable_note (ne_now e) force x"
  shows "Claim e org ident actor force db = (Inr (columns x, 0, False), db)"
  using assms by (simp add: Claim_def Get_note_def row_simps)

lemma find_note_update:
  assumes "find_note org ident db = Some x" and "\<And>y. n_ID (f y) = n_ID y \<and> n_OrganizationID (f y) = n_OrganizationID y"
    and "db_rows db' = update_where p f (db_rows db)"
  shows "find_note org ident db' = Some (if p x then f x else x)"
proof -
  have "find Q (update_where p f rows) = Some (if p x then f x else x)" if "find Q rows = Some x" "\<And>y. Q (f y) = Q y" for Q rows
    using that by (induction rows) (auto split: if_splits)
  from this[of "\<lambda>x. n_OrganizationID x = org \<and> n_ID x = ident" "db_rows db"] show ?thesis
    using assms by (simp add: find_note_def)
qed

lemma Claim_claimed:
  assumes "find_note org ident db = Some x" and "claimable_note (ne_now e) force x"
  shows "\<exists>db'. Claim e org ident actor force db =
      (Inr (columns (x\<lparr>n_Estado := EstadoProcesando, n_UpdatedAt := ne_now e, n_ProximoIntentoAt := None\<rparr>), n_Intentos x + 1, True), db') \<and>
    find_note org ident db' = Some (x\<lparr>n_Estado := EstadoProcesando, n_UpdatedAt := ne_now e, n_ProximoIntentoAt := None\<rparr>)"
proof -
  let ?f = "\<lambda>x. x\<lparr>n_Estado := EstadoProcesando, n_UpdatedAt := ne_now e, n_ProximoIntentoAt := None\<rparr>"
  have "n_ID x = ident" using assms(1) by (auto simp: find_note_def dest!: find_Some_in)
  then show ?thesis
    using assms find_note_update[OF assms(1), of ?f]
    by (simp add: Claim_def Get_note_def Let_def row_simps)
qed

text \<open>C14. No notification is stuck. In every reachable journal a row that is received, being processed or waiting for a retry
  becomes due: for every clock after its waking time the sweep returns it and a worker's claim succeeds and opens the attempt
  that follows the recorded ones. A settled row is never returned by the sweep and never claimed but by a forced rerun.\<close>

theorem unsettled_comes_up:
  assumes "journal_run cfg empty_journal db" and "x \<in> set (db_rows db)"
  shows "(unsettled (n_Estado x) \<and> wakes_at x < ne_now e \<and> length (db_rows db) \<le> nat limit \<longrightarrow>
      columns x \<in> set (Due e limit db) \<and>
      (\<exists>y db'. Claim e (n_OrganizationID x) (n_ID x) actor False db = (Inr (y, n_Intentos x + 1, True), db') \<and> n_Estado y = EstadoProcesando)) \<and>
    (\<not> unsettled (n_Estado x) \<longrightarrow> columns x \<notin> set (Due e limit db) \<and>
      Claim e (n_OrganizationID x) (n_ID x) actor False db = (Inr (columns x, 0, False), db))"
proof -
  have ok: "journal_ok cfg db" by (rule journal_run_ok[OF assms(1) journal_ok_empty])
  then have f: "find_note (n_OrganizationID x) (n_ID x) db = Some x" using find_note_unique assms(2) by (simp add: journal_ok_def)
  have good: "note_ok cfg x" using ok assms(2) by (simp add: journal_ok_def list_all_iff)
  show ?thesis
  proof (intro conjI impI)
    assume u: "unsettled (n_Estado x) \<and> wakes_at x < ne_now e \<and> length (db_rows db) \<le> nat limit"
    then have "due_note (ne_now e) x" using good by (auto simp: unsettled_def due_note_def wakes_at_def note_ok_def split: option.splits)
    then show "columns x \<in> set (Due e limit db)" using u assms(2) by (simp add: Due_all)
    have "claimable_note (ne_now e) False x"
      using u good by (auto simp: unsettled_def claimable_note_def wakes_at_def split: option.splits)
    from Claim_claimed[OF f this] show "\<exists>y db'. Claim e (n_OrganizationID x) (n_ID x) actor False db = (Inr (y, n_Intentos x + 1, True), db') \<and> n_Estado y = EstadoProcesando"
      by (fastforce simp: row_simps)
  next
    assume u: "\<not> unsettled (n_Estado x)"
    then have "\<not> claimable_note (ne_now e) False x" by (auto simp: unsettled_def claimable_note_def split: estado.split)
    then show "Claim e (n_OrganizationID x) (n_ID x) actor False db = (Inr (columns x, 0, False), db)" by (rule Claim_unclaimed[OF f])
    have "unsettled (n_Estado y)" if "y \<in> set (Due e limit db)" for y
      using that by (auto simp: Due_def due_note_def unsettled_def row_simps dest!: in_set_takeD)
    from this[of "columns x"] show "columns x \<notin> set (Due e limit db)" using u by (auto simp: row_simps)
  qed
qed

theorem unsettled_comes_up_witness:
  "columns (insert_row (inbox_env 0 ''a'') (sample_request 0)) \<in> set (Due (inbox_env (31 * second) ''b'') 50 sample_db)"
proof -
  have "unsettled (n_Estado (insert_row (inbox_env 0 ''a'') (sample_request 0))) \<and>
      wakes_at (insert_row (inbox_env 0 ''a'') (sample_request 0)) < ne_now (inbox_env (31 * second) ''b'') \<and> length (db_rows sample_db) \<le> nat 50"
    by code_simp
  moreover have "insert_row (inbox_env 0 ''a'') (sample_request 0) \<in> set (db_rows sample_db)" by (simp add: sample_row)
  ultimately show ?thesis using unsettled_comes_up[OF sample_reachable] by blast
qed

end
