(* ===== verification/Inbox_Retry.thy ===== *)
theory Inbox_Retry
  imports Inbox_Properties
begin

text \<open>
  Retries of a notification: a call of \<^verbatim>\<open>Resolve\<close> as a run of the journal, the number of automatic attempts, and the
  swallowing of a provider's retry by an earlier duplicate.
\<close>

section \<open>A call of Resolve\<close>

lemma Resolve_full:
  assumes "r_Estado r = Some st0" and "Get_note org ident db = Inr cur"
    and "scheduled e cfg (n_Intentos cur + 1) st0 r = (st, motivo, nt)"
    and "applyIncidents e cfg cur (mergeIdentity cur r st) r motivo (db_incidents (gap db)) = (res, incs)"
  shows "Resolve e cfg gap gap' org ident r db = (case res of
      Inl err \<Rightarrow> (Inl (IncidentFailed err), (gap db)\<lparr>db_incidents := incs\<rparr>)
    | Inr link \<Rightarrow>
        let db' = resolve_update e cfg org ident r (n_Intentos cur + 1) st0 link (n_ReceivedAt cur)
              (if r_Actor r = [] then ''system'' else r_Actor r) (gap' ((gap db)\<lparr>db_incidents := incs\<rparr>))
        in (rbind (Get_note org ident db') (\<lambda>out. Inr (out, if n_Estado out = EstadoReintentar then [out] else [])), db'))"
  using assms by (cases res) (simp_all add: Resolve_def resolve_update_def Let_def)

lemma Resolve_eq:
  assumes "r_Estado r = Some st0" and "Get_note org ident db = Inr cur"
    and "scheduled e cfg (n_Intentos cur + 1) st0 r = (st, motivo, nt)"
    and "applyIncidents e cfg cur (mergeIdentity cur r st) r motivo (db_incidents (gap db)) = (Inr link, incs)"
  shows "snd (Resolve e cfg gap gap' org ident r db) =
      resolve_update e cfg org ident r (n_Intentos cur + 1) st0 link (n_ReceivedAt cur) (if r_Actor r = [] then ''system'' else r_Actor r)
        (gap' ((gap db)\<lparr>db_incidents := incs\<rparr>))"
  using Resolve_full[where gap = gap, OF assms] by (simp add: Let_def)

lemma Resolve_Inr:
  assumes "Resolve e cfg gap gap' org ident r db = (Inr out, db')"
  obtains st0 cur st motivo nt link incs where "r_Estado r = Some st0" "Get_note org ident db = Inr cur"
    "scheduled e cfg (n_Intentos cur + 1) st0 r = (st, motivo, nt)"
    "applyIncidents e cfg cur (mergeIdentity cur r st) r motivo (db_incidents (gap db)) = (Inr link, incs)"
    "db' = resolve_update e cfg org ident r (n_Intentos cur + 1) st0 link (n_ReceivedAt cur) (if r_Actor r = [] then ''system'' else r_Actor r)
        (gap' ((gap db)\<lparr>db_incidents := incs\<rparr>))"
proof -
  obtain st0 where st0: "r_Estado r = Some st0" using assms by (auto simp: Resolve_def split: option.splits)
  obtain cur where cur: "Get_note org ident db = Inr cur" using assms st0 by (auto simp: Resolve_def split: sum.splits)
  obtain st motivo nt where s: "scheduled e cfg (n_Intentos cur + 1) st0 r = (st, motivo, nt)" by (rule prod_cases3)
  obtain res incs where a: "applyIncidents e cfg cur (mergeIdentity cur r st) r motivo (db_incidents (gap db)) = (res, incs)" by fastforce
  then obtain link where "res = Inr link" using assms st0 cur s by (cases res) (auto simp: Resolve_def)
  then show thesis using that[OF st0 cur s] a Resolve_eq[where gap = gap and gap' = gap', OF st0 cur s] assms by (metis snd_conv)
qed

text \<open>A call runs as steps of the journal when what happens in its gaps does.\<close>

lemma Resolve_run:
  assumes "journal_ok cfg db" and "journal_run cfg db (gap db)" and "\<And>d. journal_run cfg d (gap' d)"
  shows "journal_run cfg db (snd (Resolve e cfg gap gap' org ident r db))"
proof (cases "r_Estado r = None \<or> (\<exists>err. Get_note org ident db = Inl err)")
  case True
  then show ?thesis by (auto simp: Resolve_def split: option.split)
next
  case False
  then obtain st0 cur where st0: "r_Estado r = Some st0" and cur: "Get_note org ident db = Inr cur"
    by (cases "Get_note org ident db") auto
  obtain st motivo nt where s: "scheduled e cfg (n_Intentos cur + 1) st0 r = (st, motivo, nt)" by (rule prod_cases3)
  obtain res incs where a: "applyIncidents e cfg cur (mergeIdentity cur r st) r motivo (db_incidents (gap db)) = (res, incs)" by fastforce
  have g: "journal_run cfg db ((gap db)\<lparr>db_incidents := incs\<rparr>)" using assms(2) by (rule rtranclp.rtrancl_into_rtrancl) (rule journal_step.incidents)
  show ?thesis
  proof (cases res)
    case (Inl err)
    then show ?thesis using g st0 cur s a by (simp add: Resolve_def)
  next
    case (Inr link)
    obtain x where "x \<in> set (db_rows db)" "cur = columns x"
      using cur by (auto simp: Get_note_def find_note_def split: option.splits dest!: find_Some_in)
    then have "1 \<le> n_Intentos cur + 1" using assms(1) by (auto simp: journal_ok_def list_all_iff note_ok_def row_simps)
    then show ?thesis using Resolve_eq[where gap = gap and gap' = gap', OF st0 cur s a[unfolded Inr]] rtranclp_trans[OF g assms(3)] journal_step.resolve
      by (metis rtranclp.rtrancl_into_rtrancl)
  qed
qed

section \<open>The number of attempts\<close>

text \<open>\<open>n\<close> attempts of the sweep in a row, each claimed without force and reported as failed. Others may work on the journal
  in the gaps, though not on this row.\<close>

inductive failed_attempts :: "inbox_Config \<Rightarrow> string \<Rightarrow> string \<Rightarrow> nat \<Rightarrow> inbox_db \<Rightarrow> inbox_db \<Rightarrow> bool" for cfg org ident where
  none: "failed_attempts cfg org ident 0 db db"
| more: "failed_attempts cfg org ident n db0 db \<Longrightarrow> Claim e org ident actor False db = (Inr (x, k, True), db1) \<Longrightarrow>
    Resolve e' cfg gap gap' org ident r db1 = (Inr out, db2) \<Longrightarrow> r_Estado r = Some EstadoReintentar \<Longrightarrow>
    (\<And>d. find_note org ident (gap d) = find_note org ident d) \<Longrightarrow> (\<And>d. find_note org ident (gap' d) = find_note org ident d) \<Longrightarrow>
    failed_attempts cfg org ident (Suc n) db0 db2"

definition outcome_of :: "inbox_Config \<Rightarrow> nat \<Rightarrow> Notification \<Rightarrow> bool" where
  "outcome_of cfg n x \<longleftrightarrow> n_Intentos x = int n \<and>
     n_Estado x = (if n \<le> length (ic_Backoff cfg) then EstadoReintentar else EstadoDeadLetter) \<and>
     (n_ProximoIntentoAt x \<noteq> None \<longleftrightarrow> n \<le> length (ic_Backoff cfg))"

lemma find_note_incidents [simp]: "find_note org ident (db\<lparr>db_incidents := incs\<rparr>) = find_note org ident db"
  by (simp add: find_note_def)

lemma resolve_update_find:
  assumes "find_note org ident db = Some x" and "scheduled e cfg k st0 r = (st, motivo, nt)"
  shows "find_note org ident (resolve_update e cfg org ident r k st0 link start actor db) = Some (resolved_row e r k st motivo nt link x)"
proof -
  have "n_OrganizationID x = org \<and> n_ID x = ident" using assms(1) by (auto simp: find_note_def dest: find_Some_in)
  then show ?thesis
    using find_note_update[OF assms(1), of "resolved_row e r k st motivo nt link" "resolve_update e cfg org ident r k st0 link start actor db"] assms(2)
    by (simp add: resolve_update_def row_simps)
qed

lemma Claim_True:
  assumes "Claim e org ident actor force db = (Inr (y, k, True), db')"
  obtains x where "find_note org ident db = Some x" "claimable_note (ne_now e) force x"
    "find_note org ident db' = Some (x\<lparr>n_Estado := EstadoProcesando, n_UpdatedAt := ne_now e, n_ProximoIntentoAt := None\<rparr>)"
proof -
  obtain x where x: "find_note org ident db = Some x"
    using assms by (cases "find_note org ident db") (auto simp: Claim_def Get_note_def)
  then have "claimable_note (ne_now e) force x" using assms Claim_unclaimed[OF x] by (metis Inr_inject Pair_inject)
  then show thesis using that[OF x] Claim_claimed[OF x] assms by (metis snd_conv)
qed

lemma failed_attempts_outcome:
  assumes "failed_attempts cfg org ident n db db'" and "find_note org ident db = Some x" and "n_Intentos x = 0"
  shows "\<exists>y. find_note org ident db' = Some y \<and> n_Intentos y = int n \<and> (0 < n \<longrightarrow> outcome_of cfg n y \<and> n \<le> Suc (length (ic_Backoff cfg)))"
  using assms
proof (induction rule: failed_attempts.induct)
  case (none d)
  then show ?case by auto
next
  case (more n db0 db1 e actor w k db2 e' gap gap' r out db3)
  obtain y where y: "find_note org ident db1 = Some y" "n_Intentos y = int n" "0 < n \<longrightarrow> outcome_of cfg n y \<and> n \<le> Suc (length (ic_Backoff cfg))"
    using more.IH[OF more.prems] by blast
  obtain z where z: "find_note org ident db2 = Some z" "n_Intentos z = int n" "claimable_note (ne_now e) False y"
    using Claim_True[OF more.hyps(2)] y(1,2) by (metis (no_types, lifting) Notification.select_convs(21) Notification.surjective Notification.update_convs(19,22,30) option.inject)
  have le: "Suc n \<le> Suc (length (ic_Backoff cfg))"
    using y(3) z(3) by (cases "n = 0") (auto simp: outcome_of_def claimable_note_def split: if_splits)
  obtain st0 cur st motivo nt link incs where r: "r_Estado r = Some st0" "Get_note org ident db2 = Inr cur"
    "scheduled e' cfg (n_Intentos cur + 1) st0 r = (st, motivo, nt)"
    "db3 = resolve_update e' cfg org ident r (n_Intentos cur + 1) st0 link (n_ReceivedAt cur) (if r_Actor r = [] then ''system'' else r_Actor r)
        (gap' ((gap db2)\<lparr>db_incidents := incs\<rparr>))"
    by (rule Resolve_Inr[OF more.hyps(3)])
  have cur: "n_Intentos cur + 1 = int (Suc n)" using r(2) z by (auto simp: Get_note_def row_simps)
  have "find_note org ident db3 = Some (resolved_row e' r (int (Suc n)) st motivo nt link z)"
    unfolding r(4) cur by (rule resolve_update_find) (use z(1) more.hyps(5,6) r(3) cur in simp_all)
  moreover have "outcome_of cfg (Suc n) (resolved_row e' r (int (Suc n)) st motivo nt link z)"
    using r(1,3) cur more.hyps(4) by (auto simp: outcome_of_def row_simps scheduled_def split: if_splits)
  ultimately show ?case using le by (auto simp: row_simps)
qed

text \<open>C17. Automatic retries end, and not before. A notification whose attempts all fail is scheduled again after each of the
  first \<open>length backoff\<close> attempts and dead-lettered by the next one, so the sweep makes at most one attempt more than there
  are waits: a scheduled notification can be claimed again, a dead-lettered one is refused to every worker.\<close>

theorem retries_end:
  assumes "failed_attempts cfg org ident n db db'" and "find_note org ident db = Some x" and "n_Intentos x = 0" and "0 < n"
  shows "n \<le> Suc (length (ic_Backoff cfg)) \<and> (\<exists>y. find_note org ident db' = Some y \<and> outcome_of cfg n y) \<and>
    (\<forall>e actor. \<exists>y. fst (Claim e org ident actor False db') =
       (if n \<le> length (ic_Backoff cfg) then Inr (y, int n + 1, True) else Inr (y, 0, False)))"
proof -
  obtain y where y: "find_note org ident db' = Some y" "outcome_of cfg n y" "n \<le> Suc (length (ic_Backoff cfg))"
    using failed_attempts_outcome[OF assms(1-3)] assms(4) by blast
  have "\<exists>z. fst (Claim e org ident actor False db') =
      (if n \<le> length (ic_Backoff cfg) then Inr (z, int n + 1, True) else Inr (z, 0, False))" for e actor
  proof (cases "n \<le> length (ic_Backoff cfg)")
    case True
    then have "claimable_note (ne_now e) False y" "n_Intentos y = int n" using y(2) by (auto simp: outcome_of_def claimable_note_def)
    then show ?thesis using Claim_claimed[OF y(1), of e False actor] True by (metis fst_conv)
  next
    case False
    then have "\<not> claimable_note (ne_now e) False y" using y(2) by (auto simp: outcome_of_def claimable_note_def)
    then show ?thesis using Claim_unclaimed[OF y(1), of e False actor] False by simp
  qed
  then show ?thesis using y by blast
qed

definition failing_result :: "estado \<Rightarrow> Result" where
  "failing_result st = (manual_result ''worker'' ''timeout'')\<lparr>r_Estado := Some st\<rparr>"

definition inbox_claimed :: inbox_db where
  "inbox_claimed = snd (Claim (inbox_env 5 ''b'') ''org'' ''a'' ''w'' False sample_db)"

definition sample_failed :: inbox_db where
  "sample_failed = snd (Resolve (inbox_env 6 ''c'') inbox_sample_config (\<lambda>d. d) (\<lambda>d. d) ''org'' ''a'' (failing_result EstadoReintentar) inbox_claimed)"

lemma sample_find: "find_note ''org'' ''a'' sample_db = Some (insert_row (inbox_env 0 ''a'') (sample_request 0))"
  by code_simp

lemma sample_failed_attempt: "failed_attempts inbox_sample_config ''org'' ''a'' 1 sample_db sample_failed"
proof -
  have "claimable_note (ne_now (inbox_env 5 ''b'')) False (insert_row (inbox_env 0 ''a'') (sample_request 0))" by code_simp
  from Claim_claimed[OF sample_find this, of "''w''"]
  obtain x k where "Claim (inbox_env 5 ''b'') ''org'' ''a'' ''w'' False sample_db = (Inr (x, k, True), inbox_claimed)"
    unfolding inbox_claimed_def by fastforce
  moreover have "\<not> isl (fst (Resolve (inbox_env 6 ''c'') inbox_sample_config (\<lambda>d. d) (\<lambda>d. d) ''org'' ''a'' (failing_result EstadoReintentar) inbox_claimed))"
    by code_simp
  then obtain out where "Resolve (inbox_env 6 ''c'') inbox_sample_config (\<lambda>d. d) (\<lambda>d. d) ''org'' ''a'' (failing_result EstadoReintentar) inbox_claimed =
      (Inr out, sample_failed)" unfolding sample_failed_def by (metis isl_def prod.collapse sum.collapse(2))
  moreover have "r_Estado (failing_result EstadoReintentar) = Some EstadoReintentar" by (simp add: failing_result_def)
  ultimately have "failed_attempts inbox_sample_config ''org'' ''a'' (Suc 0) sample_db sample_failed"
    using failed_attempts.more[OF failed_attempts.none, where gap = "\<lambda>d. d" and gap' = "\<lambda>d. d"] by blast
  then show ?thesis by simp
qed

theorem retries_end_witness:
  "\<exists>y. find_note ''org'' ''a'' sample_failed = Some y \<and> outcome_of inbox_sample_config 1 y"
proof -
  have "n_Intentos (insert_row (inbox_env 0 ''a'') (sample_request 0)) = 0" by code_simp
  then show ?thesis using retries_end[OF sample_failed_attempt sample_find] by simp
qed

section \<open>A swallowed retry\<close>

text \<open>The provider repeats a notification while the first is being processed; the first then fails and awaits review; the
  provider retries twenty minutes later.\<close>

definition swallowed_2 :: inbox_db where
  "swallowed_2 = snd (Record (inbox_env (10 * second) ''b'') inbox_sample_config (sample_request (10 * second)) sample_db)"

definition swallowed_3 :: "inbox_db \<Rightarrow> inbox_db" where
  "swallowed_3 db = snd (Resolve (inbox_env (20 * second) ''c'') inbox_sample_config (\<lambda>d. d) (\<lambda>d. d) ''org'' ''a''
     (failing_result EstadoRequiereRevision) db)"

definition swallowed_4 :: "inbox_db \<Rightarrow> inbox_db" where
  "swallowed_4 db = snd (Record (inbox_env (1200 * second) ''d'') inbox_sample_config (sample_request (1200 * second)) db)"

text \<open>A provider's retry of a failed delivery can be swallowed, although the check for twins means to let it through. A
  repetition that arrives while the original is in progress is recorded as a duplicate, and duplicates count as handled: after
  the original has failed, the next retry within the window is a duplicate of the duplicate and is not processed, and no row of
  the notification was ever processed. Without the early repetition the same retry is taken up.\<close>

theorem retry_after_failure_swallowed:
  "journal_run inbox_sample_config empty_journal (swallowed_4 (swallowed_3 swallowed_2)) \<and>
   map (\<lambda>x. (n_ID x, n_Estado x)) (db_rows (swallowed_4 (swallowed_3 swallowed_2))) =
     [(''a'', EstadoRequiereRevision), (''b'', EstadoDuplicada), (''d'', EstadoDuplicada)] \<and>
   journal_run inbox_sample_config empty_journal (swallowed_4 (swallowed_3 sample_db)) \<and>
   map (\<lambda>x. (n_ID x, n_Estado x)) (db_rows (swallowed_4 (swallowed_3 sample_db))) =
     [(''a'', EstadoRequiereRevision), (''d'', EstadoRecibida)]"
proof -
  have rec: "journal_run inbox_sample_config empty_journal (snd (Record e inbox_sample_config req d))" if "journal_run inbox_sample_config empty_journal d" for e req d
    using that journal_step.arrive by (rule rtranclp.rtrancl_into_rtrancl)
  have res: "journal_run inbox_sample_config empty_journal (swallowed_3 d)" if "journal_run inbox_sample_config empty_journal d" for d
    unfolding swallowed_3_def using that Resolve_run[OF journal_run_ok[OF that journal_ok_empty], of "\<lambda>d. d" "\<lambda>d. d"]
    by (metis rtranclp.rtrancl_refl rtranclp_trans)
  have "journal_run inbox_sample_config empty_journal swallowed_2" unfolding swallowed_2_def by (rule rec[OF sample_reachable])
  then have "journal_run inbox_sample_config empty_journal (swallowed_4 (swallowed_3 swallowed_2))" unfolding swallowed_4_def by (intro rec res)
  moreover have "journal_run inbox_sample_config empty_journal (swallowed_4 (swallowed_3 sample_db))"
    unfolding swallowed_4_def by (intro rec res sample_reachable)
  moreover have "map (\<lambda>x. (n_ID x, n_Estado x)) (db_rows (swallowed_4 (swallowed_3 swallowed_2))) =
     [(''a'', EstadoRequiereRevision), (''b'', EstadoDuplicada), (''d'', EstadoDuplicada)]" by code_simp
  moreover have "map (\<lambda>x. (n_ID x, n_Estado x)) (db_rows (swallowed_4 (swallowed_3 sample_db))) =
     [(''a'', EstadoRequiereRevision), (''d'', EstadoRecibida)]" by code_simp
  ultimately show ?thesis by blast
qed

end
