(* ===== verification/Inbox_Incidents.thy ===== *)
theory Inbox_Incidents
  imports Inbox_Retry
begin

text \<open>
  The journal as a client of the incident log. The locale \<open>incident_log\<close> states what the journal relies on: opening leaves an
  open incident under the fingerprint, and neither opening nor closing another fingerprint disturbs it. The payments face is
  its interpretation; from its lemmas follows that a notification that needs a person has an open incident.
\<close>

section \<open>The contract of an incident log\<close>

text \<open>\<open>calm\<close> tells that the sessions in between delete and close nothing.\<close>

locale incident_log =
  fixes opened :: "'k \<Rightarrow> 'db \<Rightarrow> bool"
    and known :: "'id \<Rightarrow> 'db \<Rightarrow> bool"
    and calm :: "'env \<Rightarrow> bool"
    and key :: "'i \<Rightarrow> 'k"
    and ident :: "'o \<Rightarrow> 'id"
    and opn :: "'env \<Rightarrow> 'i \<Rightarrow> 'db \<Rightarrow> ('err, 'o) result \<times> 'db"
    and cls :: "'k \<Rightarrow> 'db \<Rightarrow> 'db"
  assumes opn_opens: "calm e \<Longrightarrow> opn e i db = (Inr x, db') \<Longrightarrow> opened (key i) db' \<and> known (ident x) db'"
    and opn_keeps: "calm e \<Longrightarrow> opened k db \<Longrightarrow> opened k (snd (opn e i db))"
    and opn_knows: "calm e \<Longrightarrow> known n db \<Longrightarrow> known n (snd (opn e i db))"
    and cls_keeps: "opened k db \<Longrightarrow> k \<noteq> k' \<Longrightarrow> opened k (cls k' db)"
    and cls_knows: "known n db \<Longrightarrow> known n (cls k' db)"
begin

lemma opens_keep:
  "list_all (\<lambda>(e, i). calm e) calls \<Longrightarrow> opened k db \<Longrightarrow> opened k (fold (\<lambda>(e, i) db. snd (opn e i db)) calls db)"
  by (induction calls arbitrary: db) (auto simp: opn_keeps)

lemma opens_know:
  "list_all (\<lambda>(e, i). calm e) calls \<Longrightarrow> known n db \<Longrightarrow> known n (fold (\<lambda>(e, i) db. snd (opn e i db)) calls db)"
  by (induction calls arbitrary: db) (auto simp: opn_knows)

lemma closes_keep: "opened k db \<Longrightarrow> k \<notin> set ks \<Longrightarrow> opened k (fold cls ks db)"
  by (induction ks arbitrary: db) (auto simp: cls_keeps)

lemma closes_know: "known n db \<Longrightarrow> known n (fold cls ks db)"
  by (induction ks arbitrary: db) (auto simp: cls_knows)

text \<open>A successful opening lasts through the openings and the closings of other keys that follow.\<close>

lemma opened_at_end:
  assumes "calm e" and "opn e i db = (Inr x, db')" and "list_all (\<lambda>(e, i). calm e) calls" and "key i \<notin> set ks"
  shows "opened (key i) (fold cls ks (fold (\<lambda>(e, i) db. snd (opn e i db)) calls db'))"
  using opn_opens[OF assms(1,2)] closes_keep opens_keep assms(3,4) by blast

end

section \<open>The payments face\<close>

definition inc_opened :: "string \<times> string \<Rightarrow> Incident list \<Rightarrow> bool" where
  "inc_opened = (\<lambda>(org, fp) db. \<exists>x\<in>set db. IsOpen x \<and> inc_key x = (org, DomainPayments, fp))"

definition inc_known :: "string \<Rightarrow> Incident list \<Rightarrow> bool" where
  "inc_known n db \<longleftrightarrow> n \<in> inc_ID ` set db"

definition calm_gap :: "inc_env \<times> (nat \<Rightarrow> Incident list \<Rightarrow> Incident list) \<Rightarrow> bool" where
  "calm_gap = (\<lambda>(e, gap). \<forall>n d. set d \<subseteq> set (gap n d))"

definition pay_key :: "pay_Input \<Rightarrow> string \<times> string" where
  "pay_key i = (pi_Org i, if pi_Fingerprint i = [] then pi_Kind i @ '':'' @ pi_Provider i else pi_Fingerprint i)"

lemma upsert_Inr:
  assumes "upsert e others i db = (Inr (x, c, esc), db')"
  shows "inc_ID x \<in> inc_ID ` set db' \<and> (\<exists>y\<in>set db'. IsOpen y \<and> inc_key y = (ii_Org i, ii_Domain i, ii_Fingerprint i))"
proof (cases "find (same_open (ii_Org i) (ii_Domain i) (ii_Fingerprint i)) db")
  case None
  then show ?thesis using assms by (auto simp: upsert_def Let_def new_incident_def IsOpen_def inc_key_def split: if_splits)
next
  case (Some cur)
  then have "cur \<in> set db" "IsOpen cur" "inc_key cur = (ii_Org i, ii_Domain i, ii_Fingerprint i)"
    by (auto simp: same_open_key dest!: find_Some_in)
  moreover have "again e i cur \<in> set db'" "x = again e i cur" using Some assms \<open>cur \<in> set db\<close> by (auto simp: upsert_def set_update_where)
  ultimately show ?thesis
    by (intro conjI imageI bexI[of _ "again e i cur"]) (simp_all add: row_simps)
qed

text \<open>An upsert amid calm sessions keeps the open keys and the ids.\<close>

lemma upsert_keeps:
  assumes "\<And>d. set d \<subseteq> set (others d)"
  shows "x \<in> set db \<Longrightarrow> \<exists>y\<in>set (snd (upsert e others i db)). inc_ID y = inc_ID x \<and> inc_key y = inc_key x \<and> IsOpen y = IsOpen x"
proof (cases "find (same_open (ii_Org i) (ii_Domain i) (ii_Fingerprint i)) db")
  case None
  then show "x \<in> set db \<Longrightarrow> ?thesis" using assms[of db] by (auto simp: upsert_def Let_def)
next
  case (Some cur)
  assume "x \<in> set db"
  from update_where_related[OF this, of "\<lambda>x y. inc_ID y = inc_ID x \<and> inc_key y = inc_key x \<and> IsOpen y = IsOpen x" "again e i"]
  show ?thesis using Some by (simp add: upsert_def row_simps)
qed

lemma open_attempts_keeps:
  assumes "\<And>g d. g \<in> set gaps \<Longrightarrow> set d \<subseteq> set (g d)"
  shows "x \<in> set db \<Longrightarrow> \<exists>y\<in>set (snd (open_attempts e gaps i db)). inc_ID y = inc_ID x \<and> inc_key y = inc_key x \<and> IsOpen y = IsOpen x"
  using assms
proof (induction gaps arbitrary: db x)
  case (Cons g gaps)
  obtain r db' where u: "upsert e g i db = (r, db')" by fastforce
  obtain y where y: "y \<in> set db'" "inc_ID y = inc_ID x" "inc_key y = inc_key x" "IsOpen y = IsOpen x"
    using upsert_keeps[of g x db e i] Cons.prems u by force
  obtain z where "z \<in> set (snd (open_attempts e gaps i db'))" "inc_ID z = inc_ID y" "inc_key z = inc_key y" "IsOpen z = IsOpen y"
    using Cons.IH[OF y(1)] Cons.prems(2) by auto
  then show ?case using y u by (cases r) (auto intro: bexI)
qed auto

lemma open_attempts_Inr:
  "open_attempts e gaps i db = (Inr (x, c, esc), db') \<Longrightarrow>
   inc_ID x \<in> inc_ID ` set db' \<and> (\<exists>y\<in>set db'. IsOpen y \<and> inc_key y = (ii_Org i, ii_Domain i, ii_Fingerprint i))"
proof (induction gaps arbitrary: db)
  case (Cons g gaps)
  obtain r db1 where u: "upsert e g i db = (r, db1)" by fastforce
  show ?case
  proof (cases r)
    case (Inl err)
    then show ?thesis using Cons u by (auto split: if_splits)
  next
    case (Inr a)
    then show ?thesis using Cons.prems u upsert_Inr[of e g i db x c esc db1] by simp
  qed
qed simp

lemma Open_snd:
  "snd (Open_incident e others i db) = db \<or> snd (Open_incident e others i db) = snd (open_attempts e (map others [0, 1, 2]) (with_defaults i) db)"
  by (simp add: Open_incident_def split: prod.split sum.split del: open_attempts.simps list.map)

lemma Open_Inr:
  assumes "Open_incident e others i db = (Inr (x, c, calls), db')"
  obtains esc where "open_attempts e (map others [0, 1, 2]) (with_defaults i) db = (Inr (x, c, esc), db')"
  using assms by (auto simp: Open_incident_def simp del: open_attempts.simps list.map split: if_splits prod.splits sum.splits)

lemma Open_keeps:
  assumes "\<And>n d. set d \<subseteq> set (others n d)" and "x \<in> set db"
  shows "\<exists>y\<in>set (snd (Open_incident e others i db)). inc_ID y = inc_ID x \<and> inc_key y = inc_key x \<and> IsOpen y = IsOpen x"
proof -
  have "\<exists>y\<in>set (snd (open_attempts e (map others [0, 1, 2]) (with_defaults i) db)). inc_ID y = inc_ID x \<and> inc_key y = inc_key x \<and> IsOpen y = IsOpen x"
    by (rule open_attempts_keeps[OF _ assms(2)]) (use assms(1) in auto)
  then show ?thesis using Open_snd[of e others i db] assms(2) by metis
qed

lemma pay_key_generic:
  "(ii_Org (with_defaults (generic_input i)), ii_Domain (with_defaults (generic_input i)), ii_Fingerprint (with_defaults (generic_input i))) =
   (fst (pay_key i), DomainPayments, snd (pay_key i))"
  by (simp add: with_defaults_def generic_input_def pay_key_def Let_def)

lemma close_keeps:
  assumes "x \<in> set db" and "IsOpen x" and "inc_key x \<noteq> (org, DomainPayments, fp)"
  shows "x \<in> set (snd (pay_CloseByFingerprint e org fp why db))"
  using assms by (force simp: pay_CloseByFingerprint_def CloseByFingerprint_def closeQ_def set_update_where inc_key_def)

lemma close_ids: "map inc_ID (snd (pay_CloseByFingerprint e org fp why db)) = map inc_ID db"
  by (simp add: pay_CloseByFingerprint_def CloseByFingerprint_def closeQ_def map_update_where row_simps)

text \<open>The laws of the contract, for the payments face.\<close>

lemma pay_Open_opens:
  assumes "pay_Open e gap i db = (Inr (got, c, calls), db')"
  shows "inc_opened (pay_key i) db' \<and> inc_known (inc_ID got) db'"
proof -
  obtain esc where "open_attempts e (map gap [0, 1, 2]) (with_defaults (generic_input i)) db = (Inr (got, c, esc), db')"
    using assms unfolding pay_Open_def by (rule Open_Inr)
  from open_attempts_Inr[OF this] show ?thesis
    using pay_key_generic[of i] by (simp add: inc_opened_def inc_known_def split_beta)
qed

lemma pay_Open_keeps:
  assumes "calm_gap (e, gap)"
  shows "inc_opened k db \<Longrightarrow> inc_opened k (snd (pay_Open e gap i db))" and "inc_known n db \<Longrightarrow> inc_known n (snd (pay_Open e gap i db))"
proof -
  have kept: "\<exists>y\<in>set (snd (pay_Open e gap i db)). inc_ID y = inc_ID x \<and> inc_key y = inc_key x \<and> IsOpen y = IsOpen x" if "x \<in> set db" for x
    unfolding pay_Open_def using assms that by (intro Open_keeps) (auto simp: calm_gap_def)
  show "inc_opened k db \<Longrightarrow> inc_opened k (snd (pay_Open e gap i db))"
    using kept by (fastforce simp: inc_opened_def split_beta)
  show "inc_known n (snd (pay_Open e gap i db))" if k: "inc_known n db"
  proof -
    obtain x where "x \<in> set db" "n = inc_ID x" using k by (auto simp: inc_known_def)
    with kept[of x] obtain y where "y \<in> set (snd (pay_Open e gap i db))" "n = inc_ID y" by auto
    then show ?thesis by (simp add: inc_known_def)
  qed
qed

lemma close_other: "inc_opened k db \<Longrightarrow> k \<noteq> (org, fp) \<Longrightarrow> inc_opened k (snd (pay_CloseByFingerprint e org fp why db))"
  unfolding inc_opened_def split_beta by (metis Pair_inject close_keeps prod.collapse)

lemma close_known: "inc_known n db \<Longrightarrow> inc_known n (snd (pay_CloseByFingerprint e org fp why db))"
  unfolding inc_known_def list.set_map[symmetric] close_ids .

interpretation pay_log: incident_log inc_opened inc_known calm_gap pay_key "\<lambda>(got, _, _). inc_ID got" "\<lambda>(e, gap). pay_Open e gap"
  "\<lambda>(org, fp) db. snd (pay_CloseByFingerprint ce org fp why db)" for ce why
  by unfold_locales (auto simp: pay_Open_keeps close_known intro: close_other dest: pay_Open_opens split: prod.splits)

section \<open>The incidents of an outcome\<close>

abbreviation pay_opens :: "((inc_env \<times> (nat \<Rightarrow> Incident list \<Rightarrow> Incident list)) \<times> pay_Input) list \<Rightarrow> Incident list \<Rightarrow> Incident list" where
  "pay_opens calls db \<equiv> fold (\<lambda>(e, i) db. snd ((case e of (e, gap) \<Rightarrow> pay_Open e gap) i db)) calls db"

text \<open>The calls a list of inputs makes from the \<open>k\<close>-th on.\<close>

fun calls_from :: "nenv \<Rightarrow> nat \<Rightarrow> pay_Input list \<Rightarrow> ((inc_env \<times> (nat \<Rightarrow> Incident list \<Rightarrow> Incident list)) \<times> pay_Input) list" where
  "calls_from e k [] = []"
| "calls_from e k (i # is) = ((ne_incident e k, ne_incident_gap e k), i) # calls_from e (k + 1) is"

definition calm_env :: "nenv \<Rightarrow> bool" where
  "calm_env e \<longleftrightarrow> (\<forall>k. calm_gap (ne_incident e k, ne_incident_gap e k))"

lemma calls_calm: "calm_env e \<Longrightarrow> list_all (\<lambda>(e, i). calm_gap e) (calls_from e k is)"
  by (induction e k "is" rule: calls_from.induct) (auto simp: calm_env_def)

lemma open_all_opens:
  "open_all e k is db = (Inr link, db') \<Longrightarrow> calm_env e \<Longrightarrow>
     db' = pay_opens (calls_from e k is) db \<and> (\<forall>i\<in>set is. inc_opened (pay_key i) db') \<and> (is \<noteq> [] \<longrightarrow> (\<exists>n. link = Some n \<and> inc_known n db'))"
proof (induction "is" arbitrary: k db link)
  case (Cons i "is")
  obtain got c calls db1 where o: "pay_Open (ne_incident e k) (ne_incident_gap e k) i db = (Inr (got, c, calls), db1)"
    and link: "link = Some (inc_ID got)"
    using Cons.prems(1) by (auto split: prod.splits sum.splits)
  obtain link' where rest: "open_all e (k + 1) is db1 = (Inr link', db')"
    using Cons.prems(1) o by (auto split: prod.splits sum.splits)
  have db': "db' = pay_opens (calls_from e (k + 1) is) db1" "\<forall>i\<in>set is. inc_opened (pay_key i) db'"
    using Cons.IH[OF rest Cons.prems(2)] by auto
  have "inc_opened (pay_key i) db'"
    unfolding db'(1) by (rule pay_log.opens_keep[OF calls_calm[OF Cons.prems(2)]]) (use pay_Open_opens[OF o] in simp)
  moreover have "inc_known (inc_ID got) db'"
    unfolding db'(1) by (rule pay_log.opens_know[OF calls_calm[OF Cons.prems(2)]]) (use pay_Open_opens[OF o] in simp)
  ultimately show ?case using db' o link by simp
qed simp

lemma close_all_fold:
  "close_all e org why fps db = fold (\<lambda>(org, fp) db. snd (pay_CloseByFingerprint (ne_incident e 0) org fp why db)) (map (Pair org) fps) db"
  by (simp add: close_all_def fold_map comp_def)

lemma close_all_keeps: "inc_opened k db \<Longrightarrow> k \<notin> Pair org ` set fps \<Longrightarrow> inc_opened k (close_all e org why fps db)"
  unfolding close_all_fold by (rule pay_log.closes_keep) auto

lemma close_all_knows: "inc_known n db \<Longrightarrow> inc_known n (close_all e org why fps db)"
  unfolding close_all_fold by (rule pay_log.closes_know)

definition attention_kind :: "estado \<Rightarrow> string" where
  "attention_kind st = (if st = EstadoDeadLetter then KindDeadLetter else KindNotificationUnresolve)"

text \<open>An outcome that needs a person opens its incident, and closes at most incidents about the signature.\<close>

lemma applyIncidents_attention:
  assumes "applyIncidents e cfg cur m r motivo db = (Inr link, db')" and "ic_Incidents cfg" and "calm_env e"
    and st: "n_Estado m = EstadoRequiereRevision \<or> n_Estado m = EstadoDeadLetter"
  shows "inc_opened (n_OrganizationID cur, attention_kind (n_Estado m) @ '':'' @ n_Provider m @ '':'' @ subject m) db' \<and>
    (\<exists>n. link = Some n \<and> inc_known n db')"
proof -
  obtain db1 where o: "open_all e 0 (wanted cur m r motivo) db = (Inr link, db1)"
    and db': "db' = db1 \<or> (\<exists>why. db' = close_all e (n_OrganizationID cur) why
      [KindSignatureInvalid @ '':'' @ n_Provider m, ''signature_previous_key:'' @ n_Provider m] db1)"
    using assms(1,2) st by (auto simp: applyIncidents_def handled_estado_def Let_def split: prod.splits sum.splits if_splits)
  obtain i where i: "i \<in> set (wanted cur m r motivo)"
    "pay_key i = (n_OrganizationID cur, attention_kind (n_Estado m) @ '':'' @ n_Provider m @ '':'' @ subject m)"
    using st by (fastforce simp: wanted_def Let_def pay_key_def attention_kind_def KindDeadLetter_def KindNotificationUnresolve_def)
  then have "wanted cur m r motivo \<noteq> []" by auto
  then obtain n where n: "link = Some n" "inc_known n db1" and op: "inc_opened (pay_key i) db1"
    using open_all_opens[OF o assms(3)] i(1) by blast
  have "pay_key i \<notin> Pair (n_OrganizationID cur) ` set [KindSignatureInvalid @ '':'' @ n_Provider m, ''signature_previous_key:'' @ n_Provider m]"
    unfolding i(2) by (auto simp: attention_kind_def KindDeadLetter_def KindNotificationUnresolve_def KindSignatureInvalid_def)
  then show ?thesis using db' op n close_all_keeps close_all_knows unfolding i(2) by metis
qed

lemma subject_resolved:
  "subject (columns (resolved_row e r k st motivo nt link x)) = subject (mergeIdentity (columns x) r st)"
  by (simp add: subject_def columns_def resolved_row_def mergeIdentity_def)

lemma mergeIdentity_simps [row_simps]:
  "n_Estado (mergeIdentity cur r st) = st" "n_Provider (mergeIdentity cur r st) = n_Provider cur"
  by (simp_all add: mergeIdentity_def)

lemma resolve_update_incidents [simp]: "db_incidents (resolve_update e cfg org ident r k st0 link start actor db) = db_incidents db"
  by (simp add: resolve_update_def split: prod.split)

lemma Resolve_Inl:
  assumes "Resolve e cfg gap gap' org ident r db = (Inl err, db')" and "find_note org ident db = Some x"
    and "\<And>d. find_note org ident (gap d) = find_note org ident d" and "\<And>d. find_note org ident (gap' d) = find_note org ident d"
  shows "db_rows db' = db_rows db \<or> db_rows db' = db_rows (gap db)"
proof (cases "r_Estado r")
  case None
  then show ?thesis using assms(1) by (simp add: Resolve_def)
next
  case (Some st0)
  have g: "Get_note org ident db = Inr (columns x)" using assms(2) by (simp add: Get_note_def)
  obtain st motivo nt where s: "scheduled e cfg (n_Intentos (columns x) + 1) st0 r = (st, motivo, nt)" by (rule prod_cases3)
  obtain res incs where a: "applyIncidents e cfg (columns x) (mergeIdentity (columns x) r st) r motivo (db_incidents (gap db)) = (res, incs)"
    by fastforce
  have f: "find_note org ident (gap' ((gap db)\<lparr>db_incidents := incs\<rparr>)) = Some x" using assms(2-4) by simp
  show ?thesis using assms(1) Resolve_full[where gap = gap and gap' = gap', OF Some g s a] resolve_update_find[OF f s]
    by (cases res) (auto simp: Let_def Get_note_def)
qed

text \<open>C15. Whatever needs a person has an incident. When \<^verbatim>\<open>Resolve\<close> records that a notification requires review or is a dead
  letter, an open incident of the payments domain stands under the fingerprint of its kind, provider and subject, and the row
  names an incident of the table, provided that the other sessions leave this row alone and close no incident meanwhile. When
  \<^verbatim>\<open>Resolve\<close> fails, for instance because an incident could not be written, it has changed no row.\<close>

theorem attention_has_incident:
  assumes "ic_Incidents cfg" and "calm_env e" and "find_note org ident db = Some x"
    and "\<And>d. find_note org ident (gap d) = find_note org ident d" and "\<And>d. find_note org ident (gap' d) = find_note org ident d"
    and "\<And>d. db_incidents (gap' d) = db_incidents d"
  shows "case Resolve e cfg gap gap' org ident r db of
      (Inl err, db') \<Rightarrow> db_rows db' = db_rows db \<or> db_rows db' = db_rows (gap db)
    | (Inr (out, _), db') \<Rightarrow>
        n_Estado out = EstadoRequiereRevision \<or> n_Estado out = EstadoDeadLetter \<longrightarrow>
        (\<exists>i\<in>set (db_incidents db'). IsOpen i \<and>
           inc_key i = (org, DomainPayments, attention_kind (n_Estado out) @ '':'' @ n_Provider out @ '':'' @ subject out)) \<and>
        (\<exists>i\<in>set (db_incidents db'). n_IncidentID out = Some (inc_ID i))"
proof (cases "Resolve e cfg gap gap' org ident r db")
  case (Pair res db')
  show ?thesis
  proof (cases res)
    case (Inl err)
    then show ?thesis using Resolve_Inl[of e cfg gap gap' org ident r db err db' x] Pair assms by simp
  next
    case (Inr oc)
    obtain out calls where oc: "oc = (out, calls)" by fastforce
    obtain st0 cur st motivo nt link incs where r: "r_Estado r = Some st0" "Get_note org ident db = Inr cur"
      "scheduled e cfg (n_Intentos cur + 1) st0 r = (st, motivo, nt)"
      "applyIncidents e cfg cur (mergeIdentity cur r st) r motivo (db_incidents (gap db)) = (Inr link, incs)"
      "db' = resolve_update e cfg org ident r (n_Intentos cur + 1) st0 link (n_ReceivedAt cur) (if r_Actor r = [] then ''system'' else r_Actor r)
          (gap' ((gap db)\<lparr>db_incidents := incs\<rparr>))"
      by (rule Resolve_Inr[OF Pair[unfolded Inr]])
    have cur: "cur = columns x" "n_OrganizationID x = org" using r(2) assms(3) by (auto simp: Get_note_def find_note_def dest: find_Some_in)
    have "find_note org ident (gap' ((gap db)\<lparr>db_incidents := incs\<rparr>)) = Some x" using assms(3-5) by simp
    from resolve_update_find[OF this r(3)] have "find_note org ident db' = Some (resolved_row e r (n_Intentos cur + 1) st motivo nt link x)"
      using r(5) by simp
    moreover have "Get_note org ident db' = Inr out"
      using Pair Inr oc r(5) Resolve_full[where gap = gap and gap' = gap', OF r(1-4)] by (auto simp: Let_def rbind_Inr_iff)
    ultimately have out: "out = columns (resolved_row e r (n_Intentos cur + 1) st motivo nt link x)" by (simp add: Get_note_def)
    have incs: "db_incidents db' = incs" using r(5) assms(6) by simp
    show ?thesis
    proof (cases "st = EstadoRequiereRevision \<or> st = EstadoDeadLetter")
      case True
      then have "inc_opened (org, attention_kind st @ '':'' @ n_Provider x @ '':'' @ subject out) incs \<and> (\<exists>n. link = Some n \<and> inc_known n incs)"
        using applyIncidents_attention[OF r(4) assms(1,2)] cur by (simp add: row_simps out subject_resolved)
      then show ?thesis unfolding Pair Inr oc using incs True
        by (auto simp: out row_simps inc_opened_def inc_known_def resolved_row_def[of e r "n_Intentos cur + 1"] columns_def)
    next
      case False
      then show ?thesis unfolding Pair Inr oc by (simp add: out row_simps)
    qed
  qed
qed

theorem attention_has_incident_witness:
  "\<exists>i\<in>set (db_incidents (swallowed_3 sample_db)). IsOpen i \<and> inc_key i = (''org'', DomainPayments, KindNotificationUnresolve @ '':mp:a'')"
proof -
  let ?e = "inbox_env (20 * second) ''c''"
  let ?R = "Resolve ?e inbox_sample_config (\<lambda>d. d) (\<lambda>d. d) ''org'' ''a'' (failing_result EstadoRequiereRevision) sample_db"
  have "\<not> isl (fst ?R) \<and> n_Estado (fst (projr (fst ?R))) = EstadoRequiereRevision \<and> n_Provider (fst (projr (fst ?R))) = ''mp'' \<and>
      subject (fst (projr (fst ?R))) = ''a''" by code_simp
  then obtain out calls where R: "?R = (Inr (out, calls), swallowed_3 sample_db)" "n_Estado out = EstadoRequiereRevision" "n_Provider out = ''mp''" "subject out = ''a''"
    unfolding swallowed_3_def by (metis prod.collapse sum.collapse(2))
  have "calm_env ?e" by (simp add: calm_env_def calm_gap_def inbox_env_def)
  moreover have "ic_Incidents inbox_sample_config" by code_simp
  ultimately show ?thesis
    using attention_has_incident[where gap = "\<lambda>d. d" and gap' = "\<lambda>d. d", OF _ _ sample_find, of inbox_sample_config ?e "failing_result EstadoRequiereRevision"] R
    by (simp add: attention_kind_def)
qed

section \<open>One open incident per fingerprint\<close>

text \<open>The tables the operations can produce; another session acts within an \<^verbatim>\<open>upsert\<close> by leaving a table of the same kind.\<close>

inductive inc_reach :: "Incident list \<Rightarrow> bool" where
  empty: "inc_reach []"
| upsert: "inc_reach db \<Longrightarrow> inc_reach (others db) \<Longrightarrow> inc_reach (snd (upsert e others i db))"
| ack: "inc_reach db \<Longrightarrow> inc_reach (snd (Acknowledge e org ident who db))"
| resolve: "inc_reach db \<Longrightarrow> inc_reach (snd (Resolve_incident e org ident who why db))"
| close: "inc_reach db \<Longrightarrow> inc_reach (snd (CloseByFingerprint e org domn fp why db))"

lemma inc_reach_ok: "inc_reach db \<Longrightarrow> incidents_ok db"
proof (induction rule: inc_reach.induct)
  case (resolve db e org ident who why)
  then show ?case using closeQ_ok[of db StatusResolved e "\<lambda>x. inc_OrganizationID x = org \<and> inc_ID x = ident" who why]
    by (auto simp: Resolve_incident_def split: prod.split)
qed (simp_all add: incidents_ok_def[of "[]"] upsert_ok Acknowledge_ok closeQ_ok CloseByFingerprint_def)

lemma open_attempts_reach:
  "inc_reach db \<Longrightarrow> (\<And>g d. g \<in> set gaps \<Longrightarrow> inc_reach d \<Longrightarrow> inc_reach (g d)) \<Longrightarrow> inc_reach (snd (open_attempts e gaps i db))"
proof (induction gaps arbitrary: db)
  case (Cons g gaps)
  have "inc_reach (snd (upsert e g i db))" using inc_reach.upsert Cons.prems by simp
  then show ?case using Cons by (auto split: prod.splits sum.splits)
qed simp

lemma Open_reach:
  assumes "inc_reach db" and "\<And>n d. inc_reach d \<Longrightarrow> inc_reach (others n d)"
  shows "inc_reach (snd (Open_incident e others i db))"
proof -
  have "inc_reach (snd (open_attempts e (map others [0, 1, 2]) (with_defaults i) db))"
    by (rule open_attempts_reach[OF assms(1)]) (use assms(2) in auto)
  then show ?thesis using Open_snd[of e others i db] assms(1) by metis
qed

lemma with_defaults_scope [simp]: "ii_Org (with_defaults i) = ii_Org i" "ii_Domain (with_defaults i) = ii_Domain i"
  by (simp_all add: with_defaults_def Let_def)

lemma distinct_map_filter_eq: "distinct (map f (filter P xs)) \<Longrightarrow> x \<in> set xs \<Longrightarrow> y \<in> set xs \<Longrightarrow> P x \<Longrightarrow> P y \<Longrightarrow> f x = f y \<Longrightarrow> x = y"
  by (auto simp: distinct_map dest: inj_onD)

text \<open>C18. Repeated problems are grouped: whatever operations on the incident table run, interleaved in any way, two open incidents of
  an organization and domain never share a fingerprint, ids stay unique and no incident lists more than fifty notifications. An
  \<^verbatim>\<open>Open\<close> whose sessions keep to these operations leaves such a table; when it succeeds, exactly one open incident
  has the fingerprint it asked for.\<close>

theorem one_open_incident_per_fingerprint:
  assumes "inc_reach db" and "\<And>n d. inc_reach d \<Longrightarrow> inc_reach (others n d)"
  shows "(\<forall>x\<in>set db. \<forall>y\<in>set db. (IsOpen x \<and> IsOpen y \<and> inc_key x = inc_key y \<or> inc_ID x = inc_ID y) \<longrightarrow> x = y) \<and>
    (\<forall>x\<in>set db. length (inc_EvidenceIDs x) \<le> MaxEvidenceIDs) \<and> inc_reach (snd (Open_incident e others i db)) \<and>
    (\<forall>x c calls db'. Open_incident e others i db = (Inr (x, c, calls), db') \<longrightarrow>
       (\<exists>!y. y \<in> set db' \<and> IsOpen y \<and> inc_key y = (ii_Org i, ii_Domain i, ii_Fingerprint (with_defaults i))))"
proof -
  have uniq: "x = y" if "inc_reach d" "x \<in> set d" "y \<in> set d" "IsOpen x \<and> IsOpen y \<and> inc_key x = inc_key y \<or> inc_ID x = inc_ID y" for x y d
    using that(2-4) inc_reach_ok[OF that(1)] distinct_map_filter_eq[of inc_key IsOpen d x y] distinct_map_filter_eq[of inc_ID "\<lambda>_. True" d x y]
    by (auto simp: incidents_ok_def)
  have r: "inc_reach (snd (Open_incident e others i db))" using Open_reach assms by blast
  have "\<exists>!y. y \<in> set db' \<and> IsOpen y \<and> inc_key y = (ii_Org i, ii_Domain i, ii_Fingerprint (with_defaults i))"
    if o: "Open_incident e others i db = (Inr (x, c, calls), db')" for x c calls db'
  proof -
    obtain esc where "open_attempts e (map others [0, 1, 2]) (with_defaults i) db = (Inr (x, c, esc), db')" by (rule Open_Inr[OF o])
    from open_attempts_Inr[OF this]
    have "\<exists>y\<in>set db'. IsOpen y \<and> inc_key y = (ii_Org i, ii_Domain i, ii_Fingerprint (with_defaults i))" by simp
    then show ?thesis using uniq r o by (metis snd_conv)
  qed
  moreover have "\<forall>x\<in>set db. length (inc_EvidenceIDs x) \<le> MaxEvidenceIDs" using inc_reach_ok[OF assms(1)] by (simp add: incidents_ok_def)
  ultimately show ?thesis using uniq[OF assms(1)] r by blast
qed

definition sample_incident :: inc_Input where
  "sample_incident = \<lparr>ii_Org = ''org'', ii_Domain = ''payments'', ii_Source = ''mp'', ii_Kind = ''k'', ii_Severity = [], ii_Fingerprint = [],
     ii_ResourceType = [], ii_ResourceID = [], ii_Meta = [], ii_Title = [], ii_ActionHint = [], ii_Detail = [], ii_EvidenceID = ''n1''\<rparr>"

theorem one_open_incident_per_fingerprint_witness:
  "inc_reach (snd (Open_incident (ne_incident (inbox_env 1 ''x'') 0) (\<lambda>_ d. d) sample_incident []))"
  using one_open_incident_per_fingerprint[OF inc_reach.empty, of "\<lambda>_ d. d"] by blast

section \<open>An incident left open\<close>

text \<open>The notification of the sample fails before its resource is known; a forced rerun processes it and names the payment.\<close>

definition reviewed :: inbox_db where
  "reviewed = snd (Claim (inbox_env (30 * second) ''f'') ''org'' ''a'' ''ana'' True (swallowed_3 sample_db))"

definition settled_later :: inbox_db where
  "settled_later = snd (Resolve (inbox_env (40 * second) ''g'') inbox_sample_config (\<lambda>d. d) (\<lambda>d. d) ''org'' ''a''
     ((failing_result EstadoProcesada)\<lparr>r_ResourceKind := ''payment'', r_ResourceID := ''77''\<rparr>) reviewed)"

text \<open>The incident was opened under the notification's id; the closing looks for one under the payment's id.\<close>

lemma incident_left_open:
  "map n_Estado (db_rows settled_later) = [EstadoProcesada] \<and>
   map (\<lambda>i. (inc_Fingerprint i, inc_Status i)) (db_incidents settled_later) = [(''payments.notification_unresolved:mp:a'', StatusOpen)]"
  by code_simp

end
