(* ===== verification/Inbox_Redaction.thy ===== *)
theory Inbox_Redaction
  imports Inbox_Redact "HOL-Library.Sublist"
begin

text \<open>
  What redaction guarantees: the stored body shows no personal member, no 64-digit hash and no provider secret, and
  redacting again changes nothing; of a signature parameter only the length, the alphabet and four characters are kept.
  A signature that is sent bare and ends in base64 padding, however, is stored in clear.
\<close>

section \<open>Strings\<close>

fun no_hex_run :: "string \<Rightarrow> bool" where
  "no_hex_run [] \<longleftrightarrow> True"
| "no_hex_run (c # cs) \<longleftrightarrow> \<not> (64 \<le> length (c # cs) \<and> list_all is_hex (take 64 (c # cs))) \<and> no_hex_run cs"

fun no_secret :: "string \<Rightarrow> bool" where
  "no_secret [] \<longleftrightarrow> True"
| "no_secret (c # cs) \<longleftrightarrow> secret_length (c # cs) = 0 \<and> no_secret cs"

lemma bracket_chars [simp]:
  "\<not> is_hex (CHR ''['')" "\<not> token_char (CHR ''['')" "\<not> is_hex (CHR '']'')" "\<not> token_char (CHR '']'')"
  by (simp_all add: is_hex_def token_char_def is_digit_def)

lemma replace_hex_step:
  "s \<noteq> [] \<Longrightarrow> \<not> (64 \<le> length s \<and> list_all is_hex (take 64 s)) \<Longrightarrow> replace_hex s = hd s # replace_hex (tl s)"
  by (subst replace_hex.simps) auto

lemma replace_secret_step: "s \<noteq> [] \<Longrightarrow> secret_length s = 0 \<Longrightarrow> replace_secret s = hd s # replace_secret (tl s)"
  by (subst replace_secret.simps) auto

text \<open>A run at the head of the output is one at the head of the input, since a replacement starts with a bracket.\<close>

lemma redacted_Cons: "redacted = CHR ''['' # ''redacted]''"
  by (simp add: redacted_def)

lemma replace_hex_run: "\<not> C (CHR ''['') \<Longrightarrow> prefix (takeWhile C (replace_hex s)) (takeWhile C s)"
proof (induction s rule: replace_hex.induct)
  case (1 s)
  show ?case
  proof (cases s)
    case (Cons c cs)
    show ?thesis
    proof (cases "64 \<le> length s \<and> list_all is_hex (take 64 s)")
      case True
      then show ?thesis using 1(3) by (subst replace_hex.simps) (simp add: redacted_Cons Cons)
    next
      case False
      then have "prefix (takeWhile C (replace_hex cs)) (takeWhile C cs)" using 1(2)[OF _ False] 1(3) Cons by simp
      moreover have "replace_hex s = c # replace_hex cs" using replace_hex_step[OF _ False] Cons by simp
      ultimately show ?thesis using Cons by simp
    qed
  qed (simp add: replace_hex.simps)
qed

lemma replace_secret_run: "\<not> C (CHR ''['') \<Longrightarrow> prefix (takeWhile C (replace_secret s)) (takeWhile C s)"
proof (induction s rule: replace_secret.induct)
  case (1 s)
  show ?case
  proof (cases s)
    case (Cons c cs)
    show ?thesis
    proof (cases "secret_length s > 0")
      case True
      then show ?thesis using 1(3) by (subst replace_secret.simps) (simp add: redacted_Cons Cons)
    next
      case False
      then have "prefix (takeWhile C (replace_secret cs)) (takeWhile C cs)" using 1(2)[OF _ False] 1(3) Cons by simp
      moreover have "replace_secret s = c # replace_secret cs" using replace_secret_step[of s] False Cons by simp
      ultimately show ?thesis using Cons by simp
    qed
  qed (simp add: replace_secret.simps)
qed

lemma hex_run_takeWhile: "64 \<le> length s \<and> list_all is_hex (take 64 s) \<longleftrightarrow> 64 \<le> length (takeWhile is_hex s)"
proof
  assume l: "64 \<le> length s \<and> list_all is_hex (take 64 s)"
  then have "takeWhile is_hex s = take 64 s @ takeWhile is_hex (drop 64 s)"
    by (metis append_take_drop_id list_all_iff takeWhile_append2)
  then show "64 \<le> length (takeWhile is_hex s)" using l by simp
next
  assume r: "64 \<le> length (takeWhile is_hex s)"
  then have "take 64 s = take 64 (takeWhile is_hex s)" by (metis takeWhile_eq_take take_take min.absorb1)
  then show "64 \<le> length s \<and> list_all is_hex (take 64 s)"
    using r length_takeWhile_le[of is_hex s] by (auto simp: list_all_iff dest!: in_set_takeD dest: set_takeWhileD)
qed

lemma secret_prefix_chars: "p \<in> set secret_prefixes \<Longrightarrow> list_all token_char p"
proof -
  have "list_all (list_all token_char) secret_prefixes" by code_simp
  then show "p \<in> set secret_prefixes \<Longrightarrow> ?thesis" by (simp add: list_all_iff)
qed

lemma secret_starts: "p \<in> set secret_prefixes \<Longrightarrow> token_char x \<Longrightarrow> secret_length (p @ x # y) > 0"
  unfolding secret_prefixes_def by (auto simp: secret_length_def secret_prefixes_def)

text \<open>Whether a secret starts is decided by the run of token characters at the head.\<close>

lemma secret_takeWhile:
  assumes "prefix (takeWhile token_char t) (takeWhile token_char s)" and "secret_length t > 0"
  shows "secret_length s > 0"
proof -
  obtain p where p: "find (\<lambda>p. take (length p) t = p) secret_prefixes = Some p"
    "takeWhile token_char (drop (length p) t) \<noteq> []"
    using assms(2) by (auto simp: secret_length_def Let_def split: option.splits if_splits)
  have ps: "take (length p) t = p" "list_all token_char p" using find_Some_in[OF p(1)] secret_prefix_chars by auto
  have t: "t = p @ drop (length p) t" using ps(1) by (metis append_take_drop_id)
  then have tw: "takeWhile token_char t = p @ takeWhile token_char (drop (length p) t)"
    using ps(2) by (metis list_all_iff takeWhile_append2)
  then obtain r where r: "takeWhile token_char s = p @ r" "r \<noteq> []" using assms(1) p(2) by (auto elim!: prefixE)
  then have "s = p @ r @ dropWhile token_char s" by (metis append.assoc takeWhile_dropWhile_id)
  moreover obtain x r' where x: "r = x # r'" using r(2) by (cases r) auto
  moreover have "token_char x" using r(1) x set_takeWhileD[of x token_char s] by simp
  ultimately show ?thesis using find_Some_in[OF p(1)] secret_starts[of p x "r' @ dropWhile token_char s"] by simp
qed

lemma no_hex_run_redacted: "no_hex_run X \<Longrightarrow> no_hex_run (redacted @ X)"
  by (simp add: redacted_def hex_run_takeWhile is_hex_def is_digit_def)

lemma no_secret_redacted: "no_secret X \<Longrightarrow> no_secret (redacted @ X)"
  by (simp add: redacted_def secret_length_def secret_prefixes_def)

lemma replace_hex_clean: "no_hex_run (replace_hex s)"
proof (induction s rule: replace_hex.induct)
  case (1 s)
  show ?case
  proof (cases "s = [] \<or> (64 \<le> length s \<and> list_all is_hex (take 64 s))")
    case True
    then show ?thesis using 1(1) by (subst replace_hex.simps) (auto intro!: no_hex_run_redacted)
  next
    case False
    then have "replace_hex s = hd s # replace_hex (tl s)" using replace_hex_step by blast
    moreover have "\<not> 64 \<le> length (takeWhile is_hex (replace_hex s))"
      using False replace_hex_run[of is_hex s] prefix_length_le hex_run_takeWhile[of s] by fastforce
    ultimately show ?thesis using 1(2) False hex_run_takeWhile[of "replace_hex s"] by simp
  qed
qed

lemma replace_hex_no_secret: "no_secret s \<Longrightarrow> no_secret (replace_hex s)"
proof (induction s rule: replace_hex.induct)
  case (1 s)
  have drop: "no_secret (drop n t)" if "no_secret t" for n t
    using that by (induction t arbitrary: n) (auto simp: drop_Cons split: nat.split)
  show ?case
  proof (cases "s = [] \<or> (64 \<le> length s \<and> list_all is_hex (take 64 s))")
    case True
    then show ?thesis using 1(1) drop[OF 1(3)] by (subst replace_hex.simps) (auto intro!: no_secret_redacted)
  next
    case False
    then have st: "replace_hex s = hd s # replace_hex (tl s)" using replace_hex_step by blast
    moreover have "secret_length s = 0" using 1(3) False by (cases s) auto
    then have "secret_length (replace_hex s) = 0"
      using secret_takeWhile[OF replace_hex_run[of token_char s]] by fastforce
    moreover have "no_secret (replace_hex (tl s))" using 1(2)[OF _ _] 1(3) drop[OF 1(3), of 1] False by (simp add: drop_Suc)
    ultimately show ?thesis by simp
  qed
qed

lemma replace_secret_clean: "no_secret (replace_secret s)"
proof (induction s rule: replace_secret.induct)
  case (1 s)
  show ?case
  proof (cases "s = [] \<or> secret_length s > 0")
    case True
    then show ?thesis using 1(1) by (subst replace_secret.simps) (auto intro!: no_secret_redacted)
  next
    case False
    then have "replace_secret s = hd s # replace_secret (tl s)" using replace_secret_step by blast
    moreover have "secret_length (replace_secret s) = 0"
      using False secret_takeWhile[OF replace_secret_run[of token_char s]] by fastforce
    ultimately show ?thesis using 1(2) False by simp
  qed
qed

section \<open>Bodies\<close>

text \<open>The scalars of a JSON value, each with the members and array elements that lead to it.\<close>

datatype json_step = Member string | Elem

fun leaves :: "json \<Rightarrow> (json_step list \<times> json) list" where
  "leaves (JObj kvs) = concat (map (\<lambda>(k, v). map (\<lambda>(p, x). (Member k # p, x)) (leaves v)) kvs)"
| "leaves (JArr xs) = concat (map (\<lambda>v. map (\<lambda>(p, x). (Elem # p, x)) (leaves v)) xs)"
| "leaves v = [([], v)]"

definition clean :: "json \<Rightarrow> bool" where
  "clean x \<longleftrightarrow> (case x of JStr s \<Rightarrow> no_hex_run s \<and> no_secret s | _ \<Rightarrow> True)"

text \<open>What redaction leaves at a path, below a member named \<open>key\<close>.\<close>

fun masked_along :: "(string \<Rightarrow> string) \<Rightarrow> string \<Rightarrow> bool \<Rightarrow> json_step list \<Rightarrow> json \<Rightarrow> bool" where
  "masked_along L key c [] x \<longleftrightarrow> clean x"
| "masked_along L key c (Elem # p) x \<longleftrightarrow> masked_along L [] c p x"
| "masked_along L key c (Member k # p) x \<longleftrightarrow>
     (let c' = c \<or> ToLower L key = ''card'' in
      if masked_key L c' k then p = [] \<and> x = JStr redacted else masked_along L k c' p x)"

lemma clean_redacted: "clean (JStr redacted)"
  using no_hex_run_redacted[of "[]"] no_secret_redacted[of "[]"] by (simp add: clean_def)

lemma redactValue_masked: "masked_key L c key \<Longrightarrow> redactValue L v key c = JStr redacted"
  by (subst redactValue.simps) simp

lemma redact_leaves:
  "\<not> masked_key L c key \<Longrightarrow> (p, x) \<in> set (leaves (redactValue L v key c)) \<Longrightarrow> masked_along L key c p x"
  "(k, w) \<in> set (redactFields L kvs c') \<Longrightarrow> (p, x) \<in> set (leaves w) \<Longrightarrow>
     (if masked_key L c' k then p = [] \<and> x = JStr redacted else masked_along L k c' p x)"
  "w \<in> set (redactItems L xs c') \<Longrightarrow> (p, x) \<in> set (leaves w) \<Longrightarrow> masked_along L [] c' p x"
proof (induction L v key c and L kvs c' and L xs c' arbitrary: p x and p x k w and p x w rule: redactValue_redactFields_redactItems.induct)
  case (1 L v key c)
  show ?case
  proof (cases v)
    case (JStr s)
    then have "x = JStr (replace_hex (replace_secret s)) \<and> p = []" using 1(3,4) by (subst (asm) redactValue.simps) simp
    then show ?thesis by (simp add: clean_def replace_hex_clean replace_hex_no_secret replace_secret_clean)
  next
    case (JObj kvs)
    then have "redactValue L v key c = JObj (redactFields L kvs (c \<or> ToLower L key = ''card''))"
      using 1(3) by (subst redactValue.simps) simp
    then show ?thesis using 1(2)[OF 1(3) JObj] 1(4) by (fastforce simp: Let_def)
  next
    case (JArr xs)
    then have "redactValue L v key c = JArr (redactItems L xs c)" using 1(3) by (subst redactValue.simps) simp
    then show ?thesis using 1(1)[OF 1(3) JArr] 1(4) by fastforce
  qed (use 1(3,4) in \<open>subst (asm) redactValue.simps, simp add: clean_def\<close>)+
next
  case (3 L k0 y kvs c')
  then show ?case by (cases "masked_key L c' k0") (auto simp: redactValue_masked)
next
  case (5 L y xs c')
  then show ?case by (auto simp: masked_key_def)
qed simp_all

text \<open>The path conditions that follow, in either nesting of a personal member or a card.\<close>

lemma masked_along_pii:
  "masked_along L key c p x \<Longrightarrow> p = as @ Member k # bs \<Longrightarrow> ToLower L k \<in> set piiKeys \<Longrightarrow> bs = [] \<and> x = JStr redacted"
proof (induction as arbitrary: key c p)
  case Nil
  have "k \<noteq> []" using Nil(3) by (auto simp: ToLower_def is_ascii_def piiKeys_def)
  moreover have "ToLower L k \<notin> set cardKeep" using Nil(3) by (auto simp: piiKeys_def cardKeep_def)
  ultimately show ?case using Nil by (simp add: masked_key_def Let_def)
next
  case (Cons a as)
  then show ?case by (cases a) (auto simp: Let_def split: if_splits)
qed

lemma masked_along_card:
  "masked_along L key c p x \<Longrightarrow> p = as @ Member w # Member k # bs \<Longrightarrow> ToLower L w = ''card'' \<Longrightarrow> k \<noteq> [] \<Longrightarrow> ToLower L k \<notin> set cardKeep \<Longrightarrow>
   bs = [] \<and> x = JStr redacted"
proof (induction as arbitrary: key c p)
  case Nil
  then show ?case by (auto simp: masked_key_def Let_def split: if_splits)
next
  case (Cons a as)
  then show ?case by (cases a) (auto simp: Let_def split: if_splits)
qed

lemma masked_along_clean: "masked_along L key c p x \<Longrightarrow> clean x"
  by (induction L key c p x rule: masked_along.induct) (auto simp: Let_def clean_redacted split: if_splits)

text \<open>What may be shown of a scalar at a path.\<close>

definition shown_safely :: "(string \<Rightarrow> string) \<Rightarrow> json_step list \<Rightarrow> json \<Rightarrow> bool" where
  "shown_safely L p x \<longleftrightarrow> clean x \<and>
     (\<forall>as k bs. p = as @ Member k # bs \<and> ToLower L k \<in> set piiKeys \<longrightarrow> bs = [] \<and> x = JStr redacted) \<and>
     (\<forall>as c k bs. p = as @ Member c # Member k # bs \<and> ToLower L c = ''card'' \<and> k \<noteq> [] \<and> ToLower L k \<notin> set cardKeep \<longrightarrow>
        bs = [] \<and> x = JStr redacted)"

lemma masked_along_safe: "masked_along L key c p x \<Longrightarrow> shown_safely L p x"
  unfolding shown_safely_def using masked_along_pii masked_along_card masked_along_clean by metis

text \<open>C16. Redaction of a stored body: whatever JSON a provider sends, in the text shown to operators every string value is free
  of runs of 64 hexadecimal digits and of provider secrets, every member with a personal name, at any depth, shows only the
  mask, and so does every member with a non-empty name directly in a card object but the last four digits and the brand.
  A text that is not JSON shows only its length. The names of members and the numbers are not redacted
  (\<open>names_and_numbers_in_clear\<close>), nor is a member of a card with the empty name (\<open>empty_card_member_in_clear\<close>).\<close>

theorem redacted_body_is_masked:
  assumes "TrimSpace body \<noteq> []"
  shows "(decode (TrimSpace body) = None \<longrightarrow> RedactBody L decode encode body = unparsed_marker (length body)) \<and>
    (\<forall>v. decode (TrimSpace body) = Some v \<longrightarrow>
       RedactBody L decode encode body = encode (redactValue L v [] False) \<and>
       (\<forall>(p, x) \<in> set (leaves (redactValue L v [] False)). shown_safely L p x))"
proof -
  have "masked_along L [] False p x" if "(p, x) \<in> set (leaves (redactValue L v [] False))" for p x v
    using redact_leaves(1)[OF _ that] by (simp add: masked_key_def)
  then have "shown_safely L p x" if "(p, x) \<in> set (leaves (redactValue L v [] False))" for p x v
    using that masked_along_safe by blast
  then show ?thesis using assms by (auto simp: RedactBody_def)
qed

definition sample_json :: json where
  "sample_json = JObj [(''payer'', JObj [(''id'', JNum ''7'')]), (''card'', JObj [(''number'', JStr ''4111''), (''brand'', JStr ''visa'')]),
     (''note'', JStr (''key sk_live_abc'')), (''cards'', JArr [JObj [(''email'', JStr ''a@b'')]])]"

lemma sample_redacted:
  "redactValue (\<lambda>s. s) sample_json [] False =
     JObj [(''payer'', JStr redacted), (''card'', JObj [(''number'', JStr redacted), (''brand'', JStr ''visa'')]),
       (''note'', JStr (''key '' @ redacted)), (''cards'', JArr [JObj [(''email'', JStr redacted)]])]"
  by code_simp

theorem redacted_body_is_masked_witness:
  "list_all (\<lambda>(p, x). shown_safely (\<lambda>s. s) p x) (leaves (redactValue (\<lambda>s. s) sample_json [] False))"
proof -
  have "TrimSpace ''x'' \<noteq> []" by code_simp
  from redacted_body_is_masked[OF this, of "\<lambda>_. Some sample_json" "\<lambda>s. s" "\<lambda>_. []"] show ?thesis by (simp add: list_all_iff)
qed

lemma ascii_lower: "ToLower L ''card'' = ''card''" "ToLower L (replicate 64 CHR ''a'') = replicate 64 CHR ''a''" "ToLower L [] = []"
  by (simp_all add: ToLower_def is_ascii_def lower_char_def eval_nat_numeral)

text \<open>A hash is shown when it is the name of a member or written as a number.\<close>

lemma names_and_numbers_in_clear:
  "redactValue L (JObj [(replicate 64 CHR ''a'', JNum (replicate 64 CHR ''1''))]) [] False =
     JObj [(replicate 64 CHR ''a'', JNum (replicate 64 CHR ''1''))]"
proof -
  have "replicate 64 CHR ''a'' \<notin> set piiKeys" by code_simp
  then show ?thesis by (simp add: redactValue.simps masked_key_def ascii_lower)
qed

text \<open>The mask of a card asks for a name: under the empty one its number is shown.\<close>

lemma empty_card_member_in_clear:
  "redactValue L (JObj [(''card'', JObj [([], JStr ''4111111111111111'')])]) [] False =
     JObj [(''card'', JObj [([], JStr ''4111111111111111'')])]"
proof -
  have "replace_hex (replace_secret ''4111111111111111'') = ''4111111111111111''" "''card'' \<notin> set piiKeys" by code_simp+
  then show ?thesis by (simp add: redactValue.simps masked_key_def ascii_lower)
qed

section \<open>Signatures\<close>

text \<open>Texts of printable ASCII characters other than the two separators of a signature header.\<close>

definition graphic :: "char \<Rightarrow> bool" where
  "graphic c \<longleftrightarrow> 33 \<le> (of_char c :: nat) \<and> (of_char c :: nat) \<le> 126"

definition plain :: "string \<Rightarrow> bool" where
  "plain s \<longleftrightarrow> list_all graphic s \<and> CHR '','' \<notin> set s \<and> CHR ''='' \<notin> set s"

lemma lead_rune_graphic:
  assumes "list_all (\<lambda>r. r \<noteq> [] \<and> \<not> graphic (hd r)) runes" and "list_all graphic s"
  shows "lead_rune runes s = 0"
proof -
  have "take (length r) s \<noteq> r" if "r \<in> set runes" for r
  proof
    assume "take (length r) s = r"
    moreover have "r \<noteq> []" "\<not> graphic (hd r)" using assms(1) that by (auto simp: list_all_iff)
    ultimately show False using assms(2) by (cases s) (auto simp: take_Cons split: nat.splits)
  qed
  then have "find (\<lambda>r. take (length r) s = r) runes = None" by (simp add: find_None_iff)
  then show ?thesis by (simp add: lead_rune_def)
qed

lemma TrimSpace_graphic: "list_all graphic s \<Longrightarrow> TrimSpace s = s"
proof -
  assume g: "list_all graphic s"
  have "list_all (\<lambda>r. r \<noteq> [] \<and> \<not> graphic (hd r)) space_runes"
    and "list_all (\<lambda>r. r \<noteq> [] \<and> \<not> graphic (hd r)) (map rev space_runes)" by code_simp+
  then show ?thesis using g lead_rune_graphic by (simp add: TrimSpace_def trim_runes.simps[of _ s] trim_runes.simps[of _ "rev s"])
qed

text \<open>The three shapes of a header with one part.\<close>

lemma RedactSignature_bare: "plain h \<Longrightarrow> RedactSignature h = redactToken h"
  by (simp add: plain_def RedactSignature_def split_at_absent redact_part_def TrimSpace_graphic Cut_def IndexByte_None[THEN iffD2])

lemma RedactSignature_param: "plain k \<Longrightarrow> plain h \<Longrightarrow> RedactSignature (k @ ''='' @ h) = k @ ''='' @ redactToken h"
  by (simp add: plain_def RedactSignature_def split_at_absent redact_part_def TrimSpace_graphic Cut_def IndexByte_append graphic_def)

lemma redactToken_shape:
  assumes "32 \<le> length h" and "length h' = length h" and "take 4 h' = take 4 h" and "list_all is_hex h' = list_all is_hex h"
  shows "redactToken h' = redactToken h"
  unfolding redactToken_def assms(2,3,4) using assms(1) by simp

text \<open>Signatures in stored headers. Of a parameter \<open>key=hash\<close> the journal keeps the length, whether it is hexadecimal, and
  four characters, so two hashes that agree in those are stored alike; the same holds of a bare hash. But a bare signature in
  base64, which ends in a padding character, is stored in clear: the text before the padding passes for the key of a parameter.
  And the members of a card are shown in clear when the card stands in an array.\<close>

theorem signature_redaction:
  "(\<forall>k h h'. plain k \<and> plain h \<and> plain h' \<and> 32 \<le> length h \<and> length h' = length h \<and> take 4 h' = take 4 h \<and>
      list_all is_hex h' = list_all is_hex h \<longrightarrow>
      RedactSignature (k @ ''='' @ h') = RedactSignature (k @ ''='' @ h) \<and> RedactSignature h' = RedactSignature h) \<and>
   (\<forall>h. plain h \<longrightarrow> RedactSignature (h @ ''='') = h @ ''='') \<and>
   (\<forall>L. redactValue L (JObj [(''card'', JArr [JObj [(''number'', JStr ''4111111111111111'')]])]) [] False =
      JObj [(''card'', JArr [JObj [(''number'', JStr ''4111111111111111'')]])])"
proof (intro conjI allI impI)
  fix L
  have "ToLower L ''card'' = ''card''" "ToLower L ''number'' = ''number''" "ToLower L [] = []"
    by (simp_all add: ToLower_def is_ascii_def lower_char_def)
  moreover have "replace_hex (replace_secret ''4111111111111111'') = ''4111111111111111''" by code_simp
  ultimately show "redactValue L (JObj [(''card'', JArr [JObj [(''number'', JStr ''4111111111111111'')]])]) [] False =
      JObj [(''card'', JArr [JObj [(''number'', JStr ''4111111111111111'')]])]"
    by (simp add: redactValue.simps masked_key_def piiKeys_def)
next
  fix h assume "plain h"
  then show "RedactSignature (h @ ''='') = h @ ''=''"
    using RedactSignature_param[of h "[]"] by (simp add: plain_def redactToken_def)
qed (auto simp: RedactSignature_param[simplified] RedactSignature_bare intro: redactToken_shape)

theorem signature_redaction_witness:
  "RedactSignature ''K7gNU3sdo+OL0wNhqoVWhr3g6s1xYv72ol/pe/Unols='' = ''K7gNU3sdo+OL0wNhqoVWhr3g6s1xYv72ol/pe/Unols='' \<and>
   RedactSignature ''K7gNU3sdo+OL0wNhqoVWhr3g6s1xYv72ol/pe/Unols'' = ''[43c:K7gN'' @ [CHR 0xE2, CHR 0x80, CHR 0xA6] @ '']'' \<and>
   RedactSignature ''v1=abcd0000000000000000000000000000'' = RedactSignature ''v1=abcd1111111111111111111111111111''"
proof -
  have "plain ''K7gNU3sdo+OL0wNhqoVWhr3g6s1xYv72ol/pe/Unols''" by code_simp
  moreover have "plain ''v1''" "plain ''abcd0000000000000000000000000000''" "plain ''abcd1111111111111111111111111111''"
    "list_all is_hex ''abcd0000000000000000000000000000''" "list_all is_hex ''abcd1111111111111111111111111111''" by code_simp+
  moreover have "RedactSignature ''K7gNU3sdo+OL0wNhqoVWhr3g6s1xYv72ol/pe/Unols'' = ''[43c:K7gN'' @ [CHR 0xE2, CHR 0x80, CHR 0xA6] @ '']''"
    by code_simp
  ultimately show ?thesis using conjunct1[OF signature_redaction, rule_format, of "''v1''" "''abcd1111111111111111111111111111''" "''abcd0000000000000000000000000000''"]
    conjunct1[OF conjunct2[OF signature_redaction], rule_format, of "''K7gNU3sdo+OL0wNhqoVWhr3g6s1xYv72ol/pe/Unols''"] by simp
qed

end
