(* ===== verification/Inbox_Classify.thy ===== *)
theory Inbox_Classify
  imports Inbox_Model
begin

text \<open>
  What the host answers a payment provider and what the journal records (\<^verbatim>\<open>src/payments/inbox/classify.go\<close>): from the
  outcome of the dispatched handler to a result and a reply. Decoding of JSON into the structured result is an argument.
\<close>

record Reply =
  rp_Status :: int
  rp_Headers :: "string \<rightharpoonup> string"
  rp_Body :: string
  rp_Default :: bool

record Structured =
  sd_Auth :: string
  sd_AuthReason :: string
  sd_ResourceKind :: string
  sd_ResourceID :: string
  sd_EventID :: string
  sd_Outcome :: string
  sd_PaymentID :: string
  sd_OrderRef :: string
  sd_Amount :: string
  sd_Currency :: string
  sd_WriteFailures :: "WriteFailure list"

definition zero_structured :: Structured where
  "zero_structured = \<lparr>sd_Auth = [], sd_AuthReason = [], sd_ResourceKind = [], sd_ResourceID = [], sd_EventID = [], sd_Outcome = [],
     sd_PaymentID = [], sd_OrderRef = [], sd_Amount = [], sd_Currency = [], sd_WriteFailures = []\<rparr>"

text \<open>\<^verbatim>\<open>webhookin.Response\<close>, with what its \<^verbatim>\<open>BodyBytes\<close> returns.\<close>

record webhook_Response =
  wr_Envelope :: bool
  wr_Status :: int
  wr_Headers :: "string \<rightharpoonup> string"
  wr_Body :: string
  wr_BodyBytes :: string
  wr_Output :: string
  wr_Mapped :: bool
  wr_Cause :: string

datatype webhook_error = ErrSignatureMissing | ErrSecretNotConfigured | ErrSignatureInvalid | ErrRouteNotFound | OtherError string

text \<open>Arguments: the \<^verbatim>\<open>data\<close> member of an object, decoding into the structure, \<^verbatim>\<open>uuid.Parse\<close>, \<^verbatim>\<open>strings.ToLower\<close> outside
  ASCII, \<^verbatim>\<open>http.StatusText\<close>.\<close>

record cenv =
  ce_data :: "string \<Rightarrow> string option"
  ce_unmarshal :: "string \<Rightarrow> Structured"
  ce_uuid :: "string \<Rightarrow> string option"
  ce_lower :: "string \<Rightarrow> string"
  ce_StatusText :: "int \<Rightarrow> string"

definition starts_brace :: "string \<Rightarrow> bool" where
  "starts_brace s \<longleftrightarrow> (case s of [] \<Rightarrow> False | c # _ \<Rightarrow> c = CHR 0x7B)"

definition ParseStructured :: "cenv \<Rightarrow> string \<Rightarrow> Structured" where
  "ParseStructured e raw0 =
     (let raw = TrimSpace raw0 in
      if \<not> starts_brace raw then zero_structured
      else case ce_data e raw of
             Some d \<Rightarrow> if starts_brace d then ce_unmarshal e d else ce_unmarshal e raw
           | None \<Rightarrow> ce_unmarshal e raw)"

definition jsonReply :: "int \<Rightarrow> string \<Rightarrow> Reply" where
  "jsonReply status msg =
     \<lparr>rp_Status = status, rp_Headers = [''Content-Type'' \<mapsto> ''application/json''],
      rp_Body = ''{'' @ [CHR 0x22] @ ''error'' @ [CHR 0x22] @ '':'' @ [CHR 0x22] @ msg @ [CHR 0x22] @ '','' @ [CHR 0x22] @ ''success'' @
        [CHR 0x22] @ '':false}'', rp_Default = False\<rparr>"

definition StoreFailureReply :: Reply where
  "StoreFailureReply =
     (let r = jsonReply 503 ''temporarily unavailable'' in r\<lparr>rp_Headers := (rp_Headers r)(''Retry-After'' \<mapsto> ''30'')\<rparr>)"

definition empty_result :: Result where
  "empty_result =
     \<lparr>r_Auth = [], r_AuthReason = [], r_ResourceKind = [], r_ResourceID = [], r_EventID = [], r_Estado = None,
      r_Motivo = [], r_PaymentID = None, r_CheckoutRef = [], r_HTTPStatus = 0, r_Actor = [], r_RetryAfter = 0,
      r_WriteFailures = [], r_Amount = [], r_Currency = []\<rparr>"

definition a_acute :: string where "a_acute = [CHR 0xC3, CHR 0xA1]"
definition o_acute :: string where "o_acute = [CHR 0xC3, CHR 0xB3]"

definition bad_signature :: string where
  "bad_signature = ''firma inv'' @ a_acute @ ''lida''"

definition from_error :: "webhook_error \<Rightarrow> Result \<times> Reply" where
  "from_error err =
     (case err of
        ErrSignatureMissing \<Rightarrow>
          (empty_result\<lparr>r_Auth := AuthSinFirma, r_Estado := Some EstadoRequiereRevision, r_Motivo := ''falta la firma'', r_HTTPStatus := 401\<rparr>,
           jsonReply 401 ''unauthorized'')
      | ErrSecretNotConfigured \<Rightarrow>
          (empty_result\<lparr>r_Auth := AuthSinSecreto, r_Estado := Some EstadoRequiereRevision,
             r_Motivo := ''el conector no tiene secreto de webhook'', r_HTTPStatus := 401\<rparr>,
           jsonReply 401 ''unauthorized'')
      | ErrSignatureInvalid \<Rightarrow>
          (empty_result\<lparr>r_Auth := AuthFirmaInvalida, r_AuthReason := ''signature_mismatch'', r_Estado := Some EstadoRequiereRevision,
             r_Motivo := bad_signature, r_HTTPStatus := 401\<rparr>,
           jsonReply 401 ''unauthorized'')
      | ErrRouteNotFound \<Rightarrow>
          (empty_result\<lparr>r_Estado := Some EstadoIgnorada, r_Motivo := ''ruta desconocida'', r_HTTPStatus := 404\<rparr>, jsonReply 404 ''not found'')
      | OtherError msg \<Rightarrow>
          (empty_result\<lparr>r_Estado := Some EstadoReintentar, r_Motivo := truncate_bytes (''error: '' @ msg) 300, r_HTTPStatus := 503\<rparr>,
           jsonReply 503 ''temporarily unavailable''))"

definition structured_of :: "cenv \<Rightarrow> webhook_Response \<Rightarrow> Structured" where
  "structured_of e resp =
     (let st = ParseStructured e (if wr_Envelope resp then wr_Body resp else wr_Output resp) in
      if sd_ResourceID st = [] \<and> wr_Envelope resp \<and> wr_Mapped resp then ParseStructured e (wr_Output resp) else st)"

definition base_result :: "cenv \<Rightarrow> webhook_Response \<Rightarrow> Structured \<Rightarrow> int \<Rightarrow> Result" where
  "base_result e resp st status =
     (let res = empty_result\<lparr>r_Auth := sd_Auth st, r_AuthReason := sd_AuthReason st, r_ResourceKind := sd_ResourceKind st,
                  r_ResourceID := sd_ResourceID st, r_EventID := sd_EventID st, r_CheckoutRef := sd_OrderRef st,
                  r_WriteFailures := sd_WriteFailures st, r_Amount := sd_Amount st, r_Currency := sd_Currency st,
                  r_PaymentID := ce_uuid e (sd_PaymentID st)\<rparr>;
          low = ToLower (ce_lower e) (wr_Cause resp);
          res' = (if wr_Mapped resp \<and> r_Auth res = [] \<and> (Contains low ''unauthorized'' \<or> Contains low ''signature'')
                  then res\<lparr>r_Auth := AuthFirmaInvalida, r_AuthReason := ''handler_rejected''\<rparr> else res)
      in res'\<lparr>r_HTTPStatus := status\<rparr>)"

definition ok_reply :: Reply where
  "ok_reply = \<lparr>rp_Status = 200, rp_Headers = [''Content-Type'' \<mapsto> ''application/json''],
     rp_Body = ''{'' @ [CHR 0x22] @ ''success'' @ [CHR 0x22] @ '':true}'', rp_Default = False\<rparr>"

definition unreconciled :: string where
  "unreconciled = bad_signature @ '', sin conciliar''"

text \<open>The branch for the answers 2xx and 3xx.\<close>

definition from_success :: "Structured \<Rightarrow> Result \<Rightarrow> Reply \<Rightarrow> Result \<times> Reply" where
  "from_success st res reply =
     (let (estado, motivo) =
            (if sd_Outcome st = ''duplicate'' then (EstadoDuplicada, ''duplicado'')
             else if sd_Outcome st = ''ignored'' then (EstadoIgnorada, ''ignorado'')
             else if sd_Outcome st = ''reconciled'' then (EstadoReconciliadaAPI, ''conciliado por API'')
             else if sd_Outcome st = ''unresolved'' then (EstadoRequiereRevision, ''sin resolver'')
             else (EstadoProcesada, []))
      in if r_Auth res = AuthFirmaInvalida \<and> estado \<noteq> EstadoReconciliadaAPI \<and> estado \<noteq> EstadoIgnorada \<and> estado \<noteq> EstadoDuplicada then
           (res\<lparr>r_Estado := Some EstadoRequiereRevision, r_Motivo := unreconciled, r_HTTPStatus := 401\<rparr>, jsonReply 401 ''unauthorized'')
         else (res\<lparr>r_Estado := Some estado, r_Motivo := motivo\<rparr>, reply))"

definition from_status :: "cenv \<Rightarrow> webhook_Response \<Rightarrow> Structured \<Rightarrow> int \<Rightarrow> Result \<Rightarrow> Reply \<Rightarrow> Result \<times> Reply" where
  "from_status e resp st status res reply =
     (if r_WriteFailures res \<noteq> [] then
        (res\<lparr>r_Estado := Some EstadoReintentar, r_Motivo := ''no se pudo escribir el pago''\<rparr>, jsonReply 503 ''temporarily unavailable'')
      else if status \<ge> 500 \<or> status = 429 then
        (res\<lparr>r_Estado := Some EstadoReintentar,
             r_Motivo := (if wr_Cause resp \<noteq> [] then wr_Cause resp else ''el handler respondi'' @ o_acute @ '' '' @ ce_StatusText e status)\<rparr>, reply)
      else if status = 401 \<or> status = 403 then
        (let res' = (if r_Auth res = [] then res\<lparr>r_Auth := AuthFirmaInvalida, r_AuthReason := ''handler_rejected''\<rparr> else res) in
         if sd_Outcome st = ''reconciled'' then
           (res'\<lparr>r_Estado := Some EstadoReconciliadaAPI, r_Motivo := ''conciliado por API'', r_HTTPStatus := 200\<rparr>, ok_reply)
         else (res'\<lparr>r_Estado := Some EstadoRequiereRevision, r_Motivo := unreconciled\<rparr>, reply))
      else if status \<ge> 400 then
        (res\<lparr>r_Estado := Some EstadoRequiereRevision,
             r_Motivo := ''el handler rechaz'' @ o_acute @ '' el aviso ('' @ ce_StatusText e status @ '')''\<rparr>, reply)
      else from_success st res reply)"

definition FromDispatch :: "cenv \<Rightarrow> webhook_Response \<Rightarrow> webhook_error option \<Rightarrow> Result \<times> Reply" where
  "FromDispatch e resp err =
     (case err of
        Some er \<Rightarrow> from_error er
      | None \<Rightarrow>
          (let st = structured_of e resp;
               status = (if wr_Envelope resp then wr_Status resp else 200);
               reply = \<lparr>rp_Status = status, rp_Headers = wr_Headers resp, rp_Body = wr_BodyBytes resp, rp_Default = \<not> wr_Envelope resp\<rparr>;
               (res, reply') = from_status e resp st status (base_result e resp st status) reply
           in if r_Estado res = Some EstadoReintentar \<and> rp_Status reply' < 500 then
                (res\<lparr>r_HTTPStatus := 503\<rparr>, jsonReply 503 ''temporarily unavailable'')
              else (res, reply')))"

section \<open>The response policy\<close>

text \<open>What holds of a classified answer before the last adjustment.\<close>

definition status_policy :: "int \<Rightarrow> Result \<times> Reply \<Rightarrow> bool" where
  "status_policy status = (\<lambda>(res, reply).
     (r_Auth res = AuthFirmaInvalida \<and> rp_Status reply < 400 \<longrightarrow>
        r_Estado res \<in> {Some EstadoReconciliadaAPI, Some EstadoIgnorada, Some EstadoDuplicada, Some EstadoReintentar}) \<and>
     (r_WriteFailures res \<noteq> [] \<longrightarrow> r_Estado res = Some EstadoReintentar \<and> rp_Status reply = 503 \<and> r_HTTPStatus res = status) \<and>
     (r_Estado res = Some EstadoProcesada \<longrightarrow> rp_Status reply < 400 \<and> r_Auth res \<noteq> AuthFirmaInvalida) \<and>
     r_Estado res \<noteq> None \<and> (r_WriteFailures res = [] \<longrightarrow> r_HTTPStatus res = rp_Status reply))"

lemma from_success_policy:
  assumes "r_HTTPStatus res = status" and "rp_Status reply = status" and "r_WriteFailures res = []" and "status < 400"
  shows "status_policy status (from_success st res reply)"
  using assms by (simp add: from_success_def status_policy_def Let_def jsonReply_def)

lemma from_status_policy:
  assumes "r_HTTPStatus res = status" and "rp_Status reply = status"
  shows "status_policy status (from_status e resp st status res reply)"
proof (cases "r_WriteFailures res \<noteq> [] \<or> status \<ge> 400")
  case True
  then show ?thesis using assms
    by (auto simp: from_status_def status_policy_def Let_def jsonReply_def ok_reply_def)
next
  case False
  then show ?thesis using from_success_policy[of res status reply st] assms by (simp add: from_status_def)
qed

text \<open>An unreconciled payment is never acknowledged. Whatever the handler returned or failed with: a notification with
  an invalid signature is answered with success only when it was reconciled, ignored or a duplicate; one recorded for a
  retry, and one whose payment could not be written, is answered with a server error; one recorded as processed was
  answered by the handler below 400. The status recorded with the attempt is the one answered, except after a write
  failure, where the handler's own status is recorded although 503 is answered.\<close>

theorem response_policy:
  "let (res, reply) = FromDispatch e resp err in
     (r_Auth res = AuthFirmaInvalida \<and> rp_Status reply < 400 \<longrightarrow>
        r_Estado res \<in> {Some EstadoReconciliadaAPI, Some EstadoIgnorada, Some EstadoDuplicada}) \<and>
     (r_Estado res = Some EstadoReintentar \<longrightarrow> 500 \<le> rp_Status reply) \<and>
     (r_WriteFailures res \<noteq> [] \<longrightarrow> r_Estado res = Some EstadoReintentar \<and> rp_Status reply = 503) \<and>
     (r_Estado res = Some EstadoProcesada \<longrightarrow> rp_Status reply < 400 \<and> r_Auth res \<noteq> AuthFirmaInvalida) \<and>
     r_Estado res \<noteq> None \<and>
     r_HTTPStatus res = (if r_WriteFailures res = [] then rp_Status reply
                         else if wr_Envelope resp then wr_Status resp else 200)"
proof (cases err)
  case (Some er)
  then show ?thesis
    by (cases er) (simp_all add: FromDispatch_def from_error_def empty_result_def jsonReply_def AuthFirmaInvalida_def AuthSinFirma_def AuthSinSecreto_def)
next
  case None
  let ?st = "structured_of e resp" and ?status = "if wr_Envelope resp then wr_Status resp else 200"
  let ?reply = "\<lparr>rp_Status = ?status, rp_Headers = wr_Headers resp, rp_Body = wr_BodyBytes resp, rp_Default = \<not> wr_Envelope resp\<rparr>"
  obtain res reply where fs: "from_status e resp ?st ?status (base_result e resp ?st ?status) ?reply = (res, reply)" by fastforce
  have "r_HTTPStatus (base_result e resp ?st ?status) = ?status" "r_Estado (base_result e resp ?st ?status) = None"
    by (simp_all add: base_result_def empty_result_def Let_def)
  then have "status_policy ?status (res, reply)" using from_status_policy[of "base_result e resp ?st ?status" ?status ?reply e resp ?st] fs by simp
  then show ?thesis using fs None unfolding status_policy_def
    by (auto simp: FromDispatch_def Let_def jsonReply_def)
qed

definition sample_cenv :: cenv where
  "sample_cenv = \<lparr>ce_data = (\<lambda>_. None),
     ce_unmarshal = (\<lambda>_. zero_structured\<lparr>sd_WriteFailures := [\<lparr>wf_Table = ''pagos'', wf_Row = ''1'', wf_Cause = ''timeout''\<rparr>]\<rparr>),
     ce_uuid = (\<lambda>_. None), ce_lower = (\<lambda>s. s), ce_StatusText = (\<lambda>_. ''OK'')\<rparr>"

definition webhook_sample :: webhook_Response where
  "webhook_sample = \<lparr>wr_Envelope = True, wr_Status = 200, wr_Headers = Map.empty, wr_Body = [CHR 0x7B, CHR 0x7D], wr_BodyBytes = [],
     wr_Output = [], wr_Mapped = False, wr_Cause = []\<rparr>"

theorem response_policy_witness:
  "rp_Status (snd (FromDispatch sample_cenv webhook_sample None)) = 503 \<and> r_HTTPStatus (fst (FromDispatch sample_cenv webhook_sample None)) = 200"
proof -
  have "r_WriteFailures (fst (FromDispatch sample_cenv webhook_sample None)) \<noteq> []" by code_simp
  then show ?thesis using response_policy[of sample_cenv webhook_sample None]
    by (simp add: split_beta webhook_sample_def)
qed

end
