(* ===== verification/Cap_Model.thy ===== *)
theory Cap_Model
  imports Go_Strings
begin

text \<open>
  What an addon may do: the policy compiled from the capabilities of its manifest (\<^verbatim>\<open>src/security/context.go\<close>), the enforcer
  (\<^verbatim>\<open>enforcer.go\<close>) and the rule for outgoing connections (\<^verbatim>\<open>src/netguard/netguard.go\<close>). Parsing of URLs and addresses is the
  standard library's and an argument (\<open>netlib\<close>). An address is the list of its bytes, as in \<^verbatim>\<open>net.IP\<close>.
\<close>

section \<open>Patterns\<close>

text \<open>\<^verbatim>\<open>matchAny\<close>, one pattern and all of them.\<close>

definition match_one :: "string \<Rightarrow> string \<Rightarrow> bool" where
  "match_one p value \<longleftrightarrow>
     p = ''*'' \<or> p = value \<or>
     HasSuffix p ''.*'' \<and> (let prefix = TrimSuffix p ''.*'' in HasPrefix value (prefix @ ''.'') \<or> value = prefix) \<or>
     HasPrefix p ''*.'' \<and> (let suffix = TrimPrefix p ''*.'' in HasSuffix value (''.'' @ suffix) \<or> value = suffix)"

definition matchAny :: "string list \<Rightarrow> string \<Rightarrow> bool" where
  "matchAny patterns value \<longleftrightarrow> list_ex (\<lambda>p. match_one p value) patterns"

section \<open>Addresses\<close>

abbreviation bytes_ok :: "nat list \<Rightarrow> bool" where
  "bytes_ok ip \<equiv> list_all (\<lambda>b. b < 256) ip"

definition allZero :: "nat list \<Rightarrow> bool" where
  "allZero b \<longleftrightarrow> list_all (\<lambda>x. x = 0) b"

text \<open>The predicates of \<^verbatim>\<open>net.IP\<close> on the four bytes of an IPv4 address and the sixteen of an IPv6 address.\<close>

definition To4 :: "nat list \<Rightarrow> nat list option" where
  "To4 ip =
     (if length ip = 4 then Some ip
      else if length ip = 16 \<and> allZero (take 10 ip) \<and> ip ! 10 = 255 \<and> ip ! 11 = 255 then Some (drop 12 ip)
      else None)"

definition special_v4 :: "nat list \<Rightarrow> bool" where
  "special_v4 ip \<longleftrightarrow>
     ip ! 0 = 127 \<or>
     (ip ! 0 = 10 \<or> ip ! 0 = 172 \<and> and (ip ! 1) 0xF0 = 16 \<or> ip ! 0 = 192 \<and> ip ! 1 = 168) \<or>
     ip = [0, 0, 0, 0] \<or>
     ip ! 0 = 169 \<and> ip ! 1 = 254 \<or>
     ip ! 0 = 224 \<and> ip ! 1 = 0 \<and> ip ! 2 = 0 \<or>
     and (ip ! 0) 0xF0 = 0xE0"

definition special_v6 :: "nat list \<Rightarrow> bool" where
  "special_v6 ip \<longleftrightarrow>
     ip = replicate 15 0 @ [1] \<or>
     and (ip ! 0) 0xFE = 0xFC \<or>
     ip = replicate 16 0 \<or>
     ip ! 0 = 0xFE \<and> and (ip ! 1) 0xC0 = 0x80 \<or>
     ip ! 0 = 0xFF \<and> and (ip ! 1) 0x0F = 2 \<or>
     ip ! 0 = 0xFF \<and> and (ip ! 1) 0x0F = 1 \<or>
     ip ! 0 = 0xFF"

definition blockedV4 :: "nat list \<Rightarrow> bool" where
  "blockedV4 ip \<longleftrightarrow>
     special_v4 ip \<or> ip ! 0 = 0 \<or> ip ! 0 = 100 \<and> and (ip ! 1) 0xC0 = 64 \<or> ip ! 0 = 192 \<and> ip ! 1 = 0 \<and> ip ! 2 = 0 \<or>
     ip ! 0 = 198 \<and> and (ip ! 1) 0xFE = 18 \<or> ip ! 0 \<ge> 240"

definition IsBlockedIP :: "nat list option \<Rightarrow> bool" where
  "IsBlockedIP ip0 =
     (case ip0 of
        None \<Rightarrow> True
      | Some ip \<Rightarrow>
          (case To4 ip of
             Some v4 \<Rightarrow> blockedV4 v4
           | None \<Rightarrow>
               if length ip \<noteq> 16 then True
               else if special_v6 ip then True
               else if take 4 ip = [0x00, 0x64, 0xFF, 0x9B] \<and> allZero (take 8 (drop 4 ip)) then blockedV4 (drop 12 ip)
               else if take 2 ip = [0x20, 0x02] then blockedV4 (take 4 (drop 2 ip))
               else allZero (take 12 ip)))"

record URL =
  u_Scheme :: string
  u_Host :: string
  u_Hostname :: string

record netlib =
  nl_Parse :: "string \<Rightarrow> URL option"
  nl_ParseIP :: "string \<Rightarrow> nat list option"
  nl_SplitHostPort :: "string \<Rightarrow> string option"
  nl_Atoi :: "string \<Rightarrow> int option"
  nl_lower :: "string \<Rightarrow> string"

section \<open>Outgoing connections\<close>

datatype net_error = ErrBlockedEgress string | ErrHostNotAllowed string | ErrTooManyRedirects

definition dialControl :: "netlib \<Rightarrow> bool \<Rightarrow> string \<Rightarrow> net_error option" where
  "dialControl n allowPrivate address =
     (if allowPrivate then None
      else case nl_SplitHostPort n address of
             None \<Rightarrow> Some (ErrBlockedEgress address)
           | Some host0 \<Rightarrow>
               (let host = (case IndexByte host0 (CHR 0x25) of None \<Rightarrow> host0 | Some i \<Rightarrow> take i host0) in
                if IsBlockedIP (nl_ParseIP n host) then Some (ErrBlockedEgress host) else None))"

definition IsValidHostPattern :: "string \<Rightarrow> bool" where
  "IsValidHostPattern p =
     (if p = [] \<or> p = ''*'' then False
      else let host0 = (case LastIndexByte p (CHR '':'') of
                          None \<Rightarrow> p
                        | Some i \<Rightarrow> if CHR ''.'' \<notin> set (drop (i + 1) p) then take i p else p);
               host = TrimPrefix host0 ''*.''
           in if CHR ''*'' \<in> set host then False
              else let labels = split_at_char (CHR ''.'') host in length labels \<ge> 2 \<and> list_all (\<lambda>l. l \<noteq> []) labels)"

definition host_matches :: "string \<Rightarrow> string \<Rightarrow> bool" where
  "host_matches p host \<longleftrightarrow>
     IsValidHostPattern p \<and>
     (p = host \<or> HasPrefix p ''*.'' \<and> (let suffix = TrimPrefix p ''*.'' in HasSuffix host (''.'' @ suffix) \<or> host = suffix))"

definition HostAllowed :: "string list \<Rightarrow> string \<Rightarrow> bool" where
  "HostAllowed patterns host \<longleftrightarrow> list_ex (\<lambda>p. host_matches p host) patterns"

record net_Options =
  no_AllowHosts :: "string list"
  no_MaxRedirects :: int
  no_AllowPrivate :: bool

definition CheckRedirect :: "netlib \<Rightarrow> net_Options \<Rightarrow> string \<Rightarrow> nat \<Rightarrow> net_error option" where
  "CheckRedirect n opts host via =
     (let limit = (if no_MaxRedirects opts \<le> 0 then 3 else no_MaxRedirects opts) in
      if int via > limit then Some ErrTooManyRedirects
      else if no_AllowHosts opts \<noteq> [] \<and> \<not> HostAllowed (no_AllowHosts opts) (ToLower (nl_lower n) host) then Some (ErrHostNotAllowed host)
      else None)"

definition ForbiddenHostSuffixes :: "string list" where
  "ForbiddenHostSuffixes = [''local'', ''localhost'', ''internal'', ''arpa'', ''cluster.local'', ''svc'', ''lan'', ''home'', ''corp'',
     ''intranet'', ''private'']"

definition HasForbiddenSuffix :: "netlib \<Rightarrow> string \<Rightarrow> bool" where
  "HasForbiddenSuffix n name0 =
     (let name = ToLower (nl_lower n) (TrimSuffix name0 ''.'') in
      list_ex (\<lambda>suf. name = suf \<or> HasSuffix name (''.'' @ suf)) ForbiddenHostSuffixes)"

section \<open>The compiled policy\<close>

record manifest_Capability =
  mc_Kind :: string
  mc_Target :: string

record Capabilities =
  cp_addonKey :: string
  cp_dbRead :: "string list"
  cp_dbWrite :: "string list"
  cp_httpHost :: "string list"
  cp_connHost :: "(string \<times> string) list"
  cp_eventPub :: "string list"
  cp_eventSub :: "string list"
  cp_connRead :: "string list"
  cp_ctxScope :: "string list"
  cp_capQuery :: "string list"
  cp_edgeCmd :: "string list"
  cp_domManage :: "string list"

definition ParseConnectorHostRef :: "string \<Rightarrow> (string \<times> string) option" where
  "ParseConnectorHostRef target =
     (case CutPrefix (TrimSpace target) ''connector:'' of
        None \<Rightarrow> None
      | Some rest \<Rightarrow>
          (case Cut rest (CHR ''.'') of
             None \<Rightarrow> None
           | Some (conn, cred) \<Rightarrow>
               if conn = [] \<or> cred = [] \<or> list_ex (\<lambda>c. c \<in> set ''*/: '') rest then None else Some (conn, cred)))"

definition compile_one :: "manifest_Capability \<Rightarrow> Capabilities \<Rightarrow> Capabilities" where
  "compile_one cap c =
     (let k = mc_Kind cap; t = mc_Target cap in
      if k = ''db:read'' then c\<lparr>cp_dbRead := cp_dbRead c @ [t]\<rparr>
      else if k = ''db:write'' then c\<lparr>cp_dbWrite := cp_dbWrite c @ [t]\<rparr>
      else if k = ''http:fetch'' then
        (case ParseConnectorHostRef t of
           Some ref \<Rightarrow> c\<lparr>cp_connHost := cp_connHost c @ [ref]\<rparr>
         | None \<Rightarrow> c\<lparr>cp_httpHost := cp_httpHost c @ [t]\<rparr>)
      else if k = ''event:emit'' then c\<lparr>cp_eventPub := cp_eventPub c @ [t]\<rparr>
      else if k = ''event:subscribe'' then c\<lparr>cp_eventSub := cp_eventSub c @ [t]\<rparr>
      else if k = ''connector:read'' then c\<lparr>cp_connRead := cp_connRead c @ [t]\<rparr>
      else if k = ''capability:query'' then c\<lparr>cp_capQuery := cp_capQuery c @ [t]\<rparr>
      else if k = ''edge:command'' then c\<lparr>cp_edgeCmd := cp_edgeCmd c @ [t]\<rparr>
      else if k = ''domain:manage'' then c\<lparr>cp_domManage := cp_domManage c @ [t]\<rparr>
      else if k = ''ctx:user'' \<or> k = ''ctx:roles'' \<or> k = ''ctx:org_config'' then c\<lparr>cp_ctxScope := TrimPrefix k ''ctx:'' # cp_ctxScope c\<rparr>
      else c)"

definition empty_caps :: "string \<Rightarrow> Capabilities" where
  "empty_caps addonKey = \<lparr>cp_addonKey = addonKey, cp_dbRead = [], cp_dbWrite = [], cp_httpHost = [], cp_connHost = [], cp_eventPub = [],
     cp_eventSub = [], cp_connRead = [], cp_ctxScope = [], cp_capQuery = [], cp_edgeCmd = [], cp_domManage = []\<rparr>"

definition selfSchema :: "(string \<Rightarrow> string) \<Rightarrow> string \<Rightarrow> string" where
  "selfSchema L addonKey = ''addon_'' @ ToLower L addonKey @ ''.*''"

definition Compile :: "(string \<Rightarrow> string) \<Rightarrow> string \<Rightarrow> manifest_Capability list \<Rightarrow> Capabilities" where
  "Compile L addonKey caps =
     (let c = fold compile_one caps (empty_caps addonKey) in
      c\<lparr>cp_dbRead := cp_dbRead c @ [selfSchema L addonKey], cp_dbWrite := cp_dbWrite c @ [selfSchema L addonKey]\<rparr>)"

datatype cap_error = Lacks string string string | InvalidURL | OnlyHTTP | EgressBlocked string | NoResolver | NotRegistered string | UnknownKind string

definition CanReadModel :: "Capabilities \<Rightarrow> string \<Rightarrow> cap_error option" where
  "CanReadModel c model = (if matchAny (cp_dbRead c) model \<or> matchAny (cp_dbWrite c) model then None else Some (Lacks (cp_addonKey c) ''db:read'' model))"

definition CanWriteModel :: "Capabilities \<Rightarrow> string \<Rightarrow> cap_error option" where
  "CanWriteModel c model = (if matchAny (cp_dbWrite c) model then None else Some (Lacks (cp_addonKey c) ''db:write'' model))"

definition isBlockedEgressHost :: "netlib \<Rightarrow> string \<Rightarrow> bool" where
  "isBlockedEgressHost n h =
     (let bare = dropWhile (\<lambda>c. c \<in> set ''[]'') (rev (dropWhile (\<lambda>c. c \<in> set ''[]'') (rev h))) in
      if (case nl_ParseIP n bare of Some ip \<Rightarrow> IsBlockedIP (Some ip) | None \<Rightarrow> False) then True
      else if ToLower (nl_lower n) h \<in> set [[], ''localhost'', ''127.0.0.1'', ''::1'', ''0.0.0.0''] then True
      else if ToLower (nl_lower n) h \<in> set [''169.254.169.254'', ''metadata.google.internal'', ''metadata''] then True
      else if HasPrefix h ''10.'' \<or> HasPrefix h ''192.168.'' then True
      else if HasPrefix h ''172.'' then
        (case split_at_char (CHR ''.'') h of
           _ # second_part # _ \<Rightarrow> (case nl_Atoi n second_part of Some k \<Rightarrow> 16 \<le> k \<and> k \<le> 31 | None \<Rightarrow> False)
         | _ \<Rightarrow> False)
      else False)"

definition CanFetch :: "netlib \<Rightarrow> Capabilities \<Rightarrow> string \<Rightarrow> cap_error option" where
  "CanFetch n c rawURL =
     (case nl_Parse n rawURL of
        None \<Rightarrow> Some InvalidURL
      | Some u \<Rightarrow>
          if u_Scheme u \<noteq> ''https'' \<and> u_Scheme u \<noteq> ''http'' then Some OnlyHTTP
          else if isBlockedEgressHost n (u_Hostname u) then Some (EgressBlocked (u_Hostname u))
          else if HostAllowed (cp_httpHost c) (u_Host u) then None
          else Some (Lacks (cp_addonKey c) ''http:fetch'' (u_Host u)))"

definition HostFromCredential :: "netlib \<Rightarrow> string \<Rightarrow> string" where
  "HostFromCredential n v0 =
     (let v1 = TrimSpace v0 in
      if v1 = [] then []
      else let v = (if Contains v1 ''://'' then v1 else ''https://'' @ v1)
           in case nl_Parse n v of
                None \<Rightarrow> []
              | Some u \<Rightarrow> if u_Hostname u = [] \<or> CHR ''*'' \<in> set (u_Host u) then [] else ToLower (nl_lower n) (u_Host u))"

definition CanFetchHosts :: "netlib \<Rightarrow> Capabilities \<Rightarrow> string \<Rightarrow> string list \<Rightarrow> cap_error option" where
  "CanFetchHosts n c rawURL hosts =
     (case CanFetch n c rawURL of
        None \<Rightarrow> None
      | Some err \<Rightarrow>
          if hosts = [] then Some err
          else (case nl_Parse n rawURL of
                  None \<Rightarrow> Some err
                | Some u \<Rightarrow>
                    if u_Scheme u \<noteq> ''https'' \<and> u_Scheme u \<noteq> ''http'' \<or> isBlockedEgressHost n (u_Hostname u) then Some err
                    else if list_ex (\<lambda>h. h \<noteq> [] \<and> h = ToLower (nl_lower n) (u_Host u)) hosts then None
                    else Some err))"

definition CanEmit :: "Capabilities \<Rightarrow> string \<Rightarrow> cap_error option" where
  "CanEmit c event = (if matchAny (cp_eventPub c) event then None else Some (Lacks (cp_addonKey c) ''event:emit'' event))"

definition CanSubscribe :: "Capabilities \<Rightarrow> string \<Rightarrow> cap_error option" where
  "CanSubscribe c event = (if matchAny (cp_eventSub c) event then None else Some (Lacks (cp_addonKey c) ''event:subscribe'' event))"

definition CanReadConnector :: "Capabilities \<Rightarrow> string \<Rightarrow> cap_error option" where
  "CanReadConnector c k = (if matchAny (cp_connRead c) k then None else Some (Lacks (cp_addonKey c) ''connector:read'' k))"

text \<open>These four also accept a nil policy, which grants nothing.\<close>

definition addon_of :: "Capabilities option \<Rightarrow> string" where
  "addon_of c = (case c of None \<Rightarrow> [] | Some p \<Rightarrow> cp_addonKey p)"

definition CanManageDomain :: "Capabilities option \<Rightarrow> string \<Rightarrow> cap_error option" where
  "CanManageDomain c purpose =
     (if (case c of None \<Rightarrow> False | Some p \<Rightarrow> matchAny (cp_domManage p) purpose) then None else Some (Lacks (addon_of c) ''domain:manage'' purpose))"

definition CanResolveDNS :: "Capabilities option \<Rightarrow> cap_error option" where
  "CanResolveDNS c = (if (case c of None \<Rightarrow> False | Some p \<Rightarrow> cp_domManage p \<noteq> []) then None else Some (Lacks (addon_of c) ''domain:manage'' []))"

definition CanQueryCapability :: "Capabilities option \<Rightarrow> string \<Rightarrow> cap_error option" where
  "CanQueryCapability c k =
     (if (case c of None \<Rightarrow> False | Some p \<Rightarrow> matchAny (cp_capQuery p) k) then None else Some (Lacks (addon_of c) ''capability:query'' k))"

definition CanSendEdgeCommand :: "Capabilities option \<Rightarrow> string \<Rightarrow> string \<Rightarrow> cap_error option" where
  "CanSendEdgeCommand c deviceKey kind =
     (if (case c of None \<Rightarrow> False | Some p \<Rightarrow> TrimSpace deviceKey \<noteq> [] \<and> matchAny (cp_edgeCmd p) (deviceKey @ ''.'' @ kind)) then None
      else Some (Lacks (addon_of c) ''edge:command'' (deviceKey @ ''.'' @ kind)))"

definition CanReadContext :: "Capabilities option \<Rightarrow> string \<Rightarrow> cap_error option" where
  "CanReadContext c scope =
     (if (case c of None \<Rightarrow> False | Some p \<Rightarrow> scope \<in> set (cp_ctxScope p)) then None else Some (Lacks (addon_of c) (''ctx:'' @ scope) []))"

section \<open>The enforcer\<close>

datatype Mode = ModeShadow | ModeEnforce

definition ModeFromEnv :: "(string \<Rightarrow> string) \<Rightarrow> string \<Rightarrow> Mode" where
  "ModeFromEnv L env =
     (if ToLower L (TrimSpace env) \<in> set [''shadow'', ''0'', ''false'', ''no'', ''off''] then ModeShadow else ModeEnforce)"

record Enforcer =
  en_mode :: Mode
  en_Lookup :: "(string \<Rightarrow> Capabilities option) option"

definition violation :: "netlib \<Rightarrow> Enforcer \<Rightarrow> string \<Rightarrow> string \<Rightarrow> string \<Rightarrow> cap_error option" where
  "violation n e addonKey kind target =
     (case en_Lookup e of
        None \<Rightarrow> Some NoResolver
      | Some lookup \<Rightarrow>
          (case lookup addonKey of
             None \<Rightarrow> Some (NotRegistered addonKey)
           | Some caps \<Rightarrow>
               if kind = ''db:read'' then CanReadModel caps target
               else if kind = ''db:write'' then CanWriteModel caps target
               else if kind = ''http:fetch'' then CanFetch n caps target
               else if kind = ''event:emit'' then CanEmit caps target
               else if kind = ''event:subscribe'' then CanSubscribe caps target
               else Some (UnknownKind kind)))"

text \<open>The result, and the violation reported to the log and to \<^verbatim>\<open>OnViolation\<close>.\<close>

definition CheckCapability :: "netlib \<Rightarrow> Enforcer \<Rightarrow> string \<Rightarrow> string \<Rightarrow> string \<Rightarrow> cap_error option \<times> cap_error option" where
  "CheckCapability n e addonKey kind target =
     (case violation n e addonKey kind target of
        None \<Rightarrow> (None, None)
      | Some err \<Rightarrow> (if en_mode e = ModeEnforce then Some err else None, Some err))"

end
