(* ===== verification/Emit_Model.thy ===== *)
theory Emit_Model
  imports Cap_Model
begin

text \<open>
  Which events a guest may publish (\<^verbatim>\<open>src/security/emitpolicy.go\<close>), with the event contracts that reserve a namespace
  (\<^verbatim>\<open>src/capability/event.go\<close>) and the connectors a manifest may read (\<^verbatim>\<open>src/manifest/connector_access.go\<close>, \<^verbatim>\<open>src/security/addon_policy.go\<close>).
  The registry of contracts is the list of its entries; the payload's schema is an argument, as is the check of its patterns.
\<close>

section \<open>Connector access\<close>

record ConnectorAccess =
  ca_Granted :: "string list"
  ca_Refused :: "manifest_Capability list"

text \<open>The loop over the declarations; the granted targets are the keys of \<^verbatim>\<open>explicit\<close>.\<close>

definition access_one :: "manifest_Capability \<Rightarrow> ConnectorAccess \<Rightarrow> ConnectorAccess" where
  "access_one c a =
     (if mc_Kind c \<noteq> ''connector:read'' \<and> mc_Kind c \<noteq> ''secrets:read'' then a
      else if mc_Target c = ''*'' \<or> mc_Target c = [] then a\<lparr>ca_Refused := ca_Refused a @ [c]\<rparr>
      else if mc_Target c \<in> set (ca_Granted a) then a
      else a\<lparr>ca_Granted := ca_Granted a @ [mc_Target c]\<rparr>)"

definition ConnectorAccessFor :: "manifest_Capability list \<Rightarrow> ConnectorAccess" where
  "ConnectorAccessFor caps = fold access_one caps \<lparr>ca_Granted = [], ca_Refused = []\<rparr>"

definition CompileForAddon :: "(string \<Rightarrow> string) \<Rightarrow> string \<Rightarrow> manifest_Capability list \<Rightarrow> Capabilities \<times> ConnectorAccess" where
  "CompileForAddon L addonKey caps =
     (let access = ConnectorAccessFor caps;
          declared = filter (\<lambda>c. mc_Kind c \<noteq> ''connector:read'' \<and> mc_Kind c \<noteq> ''secrets:read'') caps
                     @ map (\<lambda>key. \<lparr>mc_Kind = ''connector:read'', mc_Target = key\<rparr>) (ca_Granted access)
      in (Compile L addonKey declared, access))"

section \<open>Event contracts\<close>

text \<open>A key has at least two labels, each a lower-case letter followed by lower-case letters, digits and underscores.\<close>

definition valid_label :: "string \<Rightarrow> bool" where
  "valid_label l =
     (case l of [] \<Rightarrow> False
      | c # cs \<Rightarrow> c \<in> set ''abcdefghijklmnopqrstuvwxyz'' \<and> list_all (\<lambda>x. x \<in> set ''abcdefghijklmnopqrstuvwxyz0123456789_'') cs)"

definition ValidKey :: "string \<Rightarrow> bool" where
  "ValidKey key = (let labels = split_at_char (CHR ''.'') key in length labels \<ge> 2 \<and> list_all valid_label labels)"

record 'p EventContract =
  ec_Name :: string
  ec_EmittedBy :: string
  ec_Payload :: "'p option"

datatype contract_error = InvalidEventName | InvalidDomain | OutsideDomain | NoPayload | BadPattern string | DuplicateEvent

definition RegisterEvent :: "('p \<Rightarrow> string option) \<Rightarrow> 'p EventContract \<Rightarrow> 'p EventContract list \<Rightarrow> contract_error option \<times> 'p EventContract list" where
  "RegisterEvent checkPatterns e contracts =
     (if \<not> ValidKey (ec_Name e) then (Some InvalidEventName, contracts)
      else if \<not> ValidKey (ec_EmittedBy e) then (Some InvalidDomain, contracts)
      else if \<not> HasPrefix (ec_Name e) (ec_EmittedBy e @ ''.'') then (Some OutsideDomain, contracts)
      else case ec_Payload e of
             None \<Rightarrow> (Some NoPayload, contracts)
           | Some pl \<Rightarrow>
               (case checkPatterns pl of
                  Some err \<Rightarrow> (Some (BadPattern err), contracts)
                | None \<Rightarrow>
                    if list_ex (\<lambda>c. ec_Name c = ec_Name e) contracts then (Some DuplicateEvent, contracts)
                    else (None, contracts @ [e])))"

definition LookupEvent :: "'p EventContract list \<Rightarrow> string \<Rightarrow> 'p EventContract option" where
  "LookupEvent contracts name = find (\<lambda>c. ec_Name c = name) contracts"

definition better_domain :: "string \<Rightarrow> 'p EventContract \<Rightarrow> string \<Rightarrow> string" where
  "better_domain event e best =
     (let d = ec_EmittedBy e in if (event = d \<or> HasPrefix event (d @ ''.'')) \<and> length d > length best then d else best)"

text \<open>The domain and whether there is one.\<close>

definition ReservedEventDomain :: "'p EventContract list \<Rightarrow> string \<Rightarrow> string \<times> bool" where
  "ReservedEventDomain contracts event = (let best = fold (better_domain event) contracts [] in (best, best \<noteq> []))"

definition ProvidesDomain :: "string list \<Rightarrow> string \<Rightarrow> bool" where
  "ProvidesDomain provides d \<longleftrightarrow> list_ex (\<lambda>k. k = d \<or> HasPrefix k (d @ ''.'')) provides"

text \<open>The name and domain of the contracts \<^verbatim>\<open>commerceEvents\<close> registers at start.\<close>

definition commerceEvents :: "(string \<times> string) list" where
  "commerceEvents =
     [(''commerce.shipping.tracking_updated'', ''commerce.shipping''), (''commerce.fulfillment.updated'', ''commerce.fulfillment''),
      (''commerce.shipments.updated'', ''commerce.shipments''), (''commerce.payments.confirmed'', ''commerce.payments'')]"

section \<open>Rules and modes\<close>

datatype EmitRule = EmitRuleKernel | EmitRuleContract | EmitRuleForeign | EmitRuleUnverified | EmitRuleDeclared

datatype EmitGroup = EmitGroupReserved | EmitGroupDeclared

definition Group :: "EmitRule \<Rightarrow> EmitGroup" where
  "Group r = (if r = EmitRuleDeclared then EmitGroupDeclared else EmitGroupReserved)"

datatype EmitMode = EmitModeWarn | EmitModeEnforce | EmitModeOff

definition ParseEmitMode :: "(string \<Rightarrow> string) \<Rightarrow> string \<Rightarrow> EmitMode \<times> bool" where
  "ParseEmitMode L s0 =
     (let s = ToLower L (TrimSpace s0) in
      if s \<in> set [''warn'', ''shadow'', ''log''] then (EmitModeWarn, True)
      else if s \<in> set [''enforce'', ''deny''] then (EmitModeEnforce, True)
      else if s \<in> set [''off'', ''disabled''] then (EmitModeOff, True)
      else (EmitModeWarn, False))"

definition EmitModeFromEnv :: "(string \<Rightarrow> string) \<Rightarrow> string \<Rightarrow> EmitMode" where
  "EmitModeFromEnv L raw = (if TrimSpace raw = [] then EmitModeWarn else fst (ParseEmitMode L raw))"

record EmitterGrant =
  eg_Owner :: string
  eg_Event :: string
  eg_Emitters :: "string list"

record EmitFacts =
  ef_Installed :: "string list"
  ef_Provides :: "string list"
  ef_Grants :: "EmitterGrant list"
  ef_Caps :: "Capabilities option"

datatype emit_reason = HostReserved | CannotVerify string string | OnlyProviders string | CannotResolve string | NotListed string | CapError cap_error

record EmitViolation =
  ev_Org :: string
  ev_Addon :: string
  ev_Event :: string
  ev_Rule :: EmitRule
  ev_Group :: EmitGroup
  ev_Mode :: EmitMode
  ev_Denied :: bool
  ev_Owner :: string
  ev_Reason :: emit_reason

record EmitPolicy =
  ep_Source :: "(string \<Rightarrow> string \<Rightarrow> string + EmitFacts) option"
  ep_ReservedDomain :: "(string \<Rightarrow> string \<times> bool) option"
  ep_EnforcedDomains :: "string list option"
  ep_reserved :: EmitMode
  ep_declared :: EmitMode

definition DefaultEnforcedDomains :: "string list" where
  "DefaultEnforcedDomains = [''commerce.payments'']"

definition enforcedDomain :: "EmitPolicy \<Rightarrow> string \<Rightarrow> bool" where
  "enforcedDomain p d \<longleftrightarrow>
     list_ex (\<lambda>x. x = d) (case ep_EnforcedDomains p of None \<Rightarrow> DefaultEnforcedDomains | Some ds \<Rightarrow> ds)"

definition NewEmitPolicy :: "(string \<Rightarrow> string) \<Rightarrow> (string \<Rightarrow> string) \<Rightarrow> (string \<Rightarrow> string \<Rightarrow> string + EmitFacts) option \<Rightarrow> EmitPolicy" where
  "NewEmitPolicy L getenv src =
     \<lparr>ep_Source = src, ep_ReservedDomain = None, ep_EnforcedDomains = None,
      ep_reserved = EmitModeFromEnv L (getenv ''METACORE_EVENT_EMIT_RESERVED''),
      ep_declared = EmitModeFromEnv L (getenv ''METACORE_EVENT_EMIT_DECLARED'')\<rparr>"

definition SetMode :: "EmitPolicy \<Rightarrow> EmitGroup \<Rightarrow> EmitMode \<Rightarrow> EmitPolicy" where
  "SetMode p g m = (if g = EmitGroupDeclared then p\<lparr>ep_declared := m\<rparr> else p\<lparr>ep_reserved := m\<rparr>)"

definition Mode_of :: "EmitPolicy \<Rightarrow> EmitGroup \<Rightarrow> EmitMode" where
  "Mode_of p g = (if g = EmitGroupDeclared then ep_declared p else ep_reserved p)"

section \<open>The check\<close>

definition namespaceOwner :: "string \<Rightarrow> string list \<Rightarrow> string" where
  "namespaceOwner event installed =
     fold (\<lambda>k best. if k = [] then best else if HasPrefix event (k @ ''.'') \<and> length k > length best then k else best) installed []"

definition granted :: "EmitterGrant list \<Rightarrow> string \<Rightarrow> string \<Rightarrow> string \<Rightarrow> bool" where
  "granted grants owner event emitter \<longleftrightarrow>
     list_ex (\<lambda>g. eg_Owner g = owner \<and> matchAny [eg_Event g] event \<and> emitter \<in> set (eg_Emitters g)) grants"

text \<open>A violation as \<^verbatim>\<open>add\<close> records it; its group, mode and denial are filled in when it is reported.\<close>

definition new_violation :: "string \<Rightarrow> string \<Rightarrow> string \<Rightarrow> EmitRule \<Rightarrow> string \<Rightarrow> emit_reason \<Rightarrow> EmitViolation" where
  "new_violation org emitter event rule owner reason =
     \<lparr>ev_Org = org, ev_Addon = emitter, ev_Event = event, ev_Rule = rule, ev_Group = EmitGroupReserved, ev_Mode = EmitModeWarn,
      ev_Denied = False, ev_Owner = owner, ev_Reason = reason\<rparr>"

definition kernelSpace :: "string \<Rightarrow> bool" where
  "kernelSpace event \<longleftrightarrow> event = ''kernel'' \<or> HasPrefix event ''kernel.''"

definition load_facts :: "EmitPolicy \<Rightarrow> string \<Rightarrow> string \<Rightarrow> string + EmitFacts" where
  "load_facts p org emitter = (case ep_Source p of Some src \<Rightarrow> src org emitter | None \<Rightarrow> Inl ''no facts source configured'')"

text \<open>Rules 2 and 3, then rule 4.\<close>

definition namespace_violations :: "'p EventContract list \<Rightarrow> EmitPolicy \<Rightarrow> string + EmitFacts \<Rightarrow> string \<Rightarrow> string \<Rightarrow> (EmitRule \<times> string \<times> emit_reason) list" where
  "namespace_violations contracts p facts emitter event =
     (let domainOf = (case ep_ReservedDomain p of Some f \<Rightarrow> f | None \<Rightarrow> ReservedEventDomain contracts);
          ownSpace = HasPrefix event (emitter @ ''.'')
      in case domainOf event of
           (d, True) \<Rightarrow>
             (case facts of
                Inl err \<Rightarrow> [(EmitRuleUnverified, d, CannotVerify d err)]
              | Inr f \<Rightarrow> if \<not> ProvidesDomain (ef_Provides f) d then [(EmitRuleContract, d, OnlyProviders d)] else [])
         | (d, False) \<Rightarrow>
             (case facts of
                Inl err \<Rightarrow> if \<not> ownSpace then [(EmitRuleUnverified, [], CannotResolve err)] else []
              | Inr f \<Rightarrow>
                  (let owner = namespaceOwner event (ef_Installed f) in
                   if owner \<noteq> [] \<and> owner \<noteq> emitter then
                     (if \<not> granted (ef_Grants f) owner event emitter then [(EmitRuleForeign, owner, NotListed owner)] else [])
                   else [])))"

definition declared_violations :: "string + EmitFacts \<Rightarrow> string \<Rightarrow> (EmitRule \<times> string \<times> emit_reason) list" where
  "declared_violations facts event =
     (case facts of
        Inl _ \<Rightarrow> []
      | Inr f \<Rightarrow>
          (case ef_Caps f of
             None \<Rightarrow> []
           | Some caps \<Rightarrow> (case CanEmit caps event of None \<Rightarrow> [] | Some err \<Rightarrow> [(EmitRuleDeclared, [], CapError err)])))"

definition found_violations :: "'p EventContract list \<Rightarrow> EmitPolicy \<Rightarrow> string \<Rightarrow> string \<Rightarrow> string \<Rightarrow> EmitViolation list" where
  "found_violations contracts p org emitter event =
     (let facts = load_facts p org emitter in
      map (\<lambda>(rule, owner, reason). new_violation org emitter event rule owner reason)
        ((if kernelSpace event then [(EmitRuleKernel, ''kernel'', HostReserved)] else namespace_violations contracts p facts emitter event)
         @ declared_violations facts event))"

text \<open>The mode that applies to a violation, and the violation as reported.\<close>

definition violation_mode :: "EmitPolicy \<Rightarrow> EmitViolation \<Rightarrow> EmitMode" where
  "violation_mode p v =
     (let mode = Mode_of p (Group (ev_Rule v)) in
      if mode = EmitModeOff then EmitModeOff
      else if (ev_Rule v = EmitRuleContract \<or> ev_Rule v = EmitRuleUnverified) \<and> enforcedDomain p (ev_Owner v) then EmitModeEnforce
      else mode)"

definition reported :: "EmitPolicy \<Rightarrow> EmitViolation \<Rightarrow> EmitViolation option" where
  "reported p v =
     (let mode = violation_mode p v in
      if mode = EmitModeOff then None
      else Some (v\<lparr>ev_Group := Group (ev_Rule v), ev_Mode := mode, ev_Denied := mode = EmitModeEnforce\<rparr>))"

text \<open>The reported violations and, as the error, the first one that denies.\<close>

definition Check_emit :: "'p EventContract list \<Rightarrow> EmitPolicy option \<Rightarrow> string \<Rightarrow> string \<Rightarrow> string \<Rightarrow> EmitViolation list \<times> EmitViolation option" where
  "Check_emit contracts p0 org emitter event =
     (case p0 of
        None \<Rightarrow> ([], None)
      | Some p \<Rightarrow>
          if ep_reserved p = EmitModeOff \<and> ep_declared p = EmitModeOff then ([], None)
          else let out = List.map_filter (reported p) (found_violations contracts p org emitter event)
               in (out, find ev_Denied out))"

end
