(* ===== verification/Cap_Properties.thy ===== *)
theory Cap_Properties
  imports Cap_Model
begin

text \<open>
  What the policy guarantees: it grants exactly what the manifest declares, outgoing requests stay on declared public hosts, and
  the blocked addresses are exactly the reserved networks, also when an IPv6 address embeds an IPv4 one.
\<close>

section \<open>Blocked addresses\<close>

definition addr_of :: "nat list \<Rightarrow> nat" where
  "addr_of ip = fold (\<lambda>b n. n * 256 + b) ip 0"

text \<open>An address and a network given by its prefix length.\<close>

definition in_network :: "nat list \<Rightarrow> nat list \<times> nat \<Rightarrow> bool" where
  "in_network ip = (\<lambda>(net, len). addr_of ip div 2 ^ (32 - len) = addr_of net div 2 ^ (32 - len))"

text \<open>The special-purpose networks the rule names.\<close>

definition reserved_networks :: "(nat list \<times> nat) list" where
  "reserved_networks =
     [([0, 0, 0, 0], 8), ([10, 0, 0, 0], 8), ([100, 64, 0, 0], 10), ([127, 0, 0, 0], 8), ([169, 254, 0, 0], 16), ([172, 16, 0, 0], 12),
      ([192, 0, 0, 0], 24), ([192, 168, 0, 0], 16), ([198, 18, 0, 0], 15), ([224, 0, 0, 0], 4), ([240, 0, 0, 0], 4)]"

lemma and_high: "and (b :: nat) (mask k * 2 ^ n) = (b div 2 ^ n) mod 2 ^ k * 2 ^ n"
proof -
  have "and b (push_bit n (mask k)) = push_bit n (take_bit k (drop_bit n b))"
    by (rule bit_eqI) (auto simp: bit_simps)
  then show ?thesis by (simp add: push_bit_eq_mult take_bit_eq_mod drop_bit_eq_div)
qed

lemma byte_masks:
  assumes "(b :: nat) < 256"
  shows "and b 0xC0 = 64 \<longleftrightarrow> b div 64 = 1" "and b 0xF0 = 16 \<longleftrightarrow> b div 16 = 1" "and b 0xFE = 18 \<longleftrightarrow> b div 2 = 9"
    "and b 0xF0 = 0xE0 \<longleftrightarrow> b div 16 = 14"
proof -
  have d: "b div 64 < 4" "b div 16 < 16" "b div 2 < 128" using assms by (simp_all add: div_less_iff_less_mult)
  have m: "mask 2 * 2 ^ 6 = (0xC0 :: nat)" "mask 4 * 2 ^ 4 = (0xF0 :: nat)" "mask 7 * 2 ^ 1 = (0xFE :: nat)"
    by (simp_all add: mask_eq_exp_minus_1)
  have "and b 0xC0 = b div 64 * 64" "and b 0xF0 = b div 16 * 16" "and b 0xFE = b div 2 * 2"
    using and_high[of b 2 6] and_high[of b 4 4] and_high[of b 7 1] d unfolding m by simp_all
  then show "and b 0xC0 = 64 \<longleftrightarrow> b div 64 = 1" "and b 0xF0 = 16 \<longleftrightarrow> b div 16 = 1" "and b 0xFE = 18 \<longleftrightarrow> b div 2 = 9"
    "and b 0xF0 = 0xE0 \<longleftrightarrow> b div 16 = 14" by simp_all
qed

lemma addr_div:
  assumes "a < 256" "b < 256" "c < 256" "d < 256"
  shows "addr_of [a, b, c, d] div 2 ^ 24 = a" "addr_of [a, b, c, d] div 2 ^ 22 = a * 4 + b div 64"
    "addr_of [a, b, c, d] div 2 ^ 16 = a * 256 + b" "addr_of [a, b, c, d] div 2 ^ 20 = a * 16 + b div 16"
    "addr_of [a, b, c, d] div 2 ^ 8 = (a * 256 + b) * 256 + c" "addr_of [a, b, c, d] div 2 ^ 17 = a * 128 + b div 2"
    "addr_of [a, b, c, d] div 2 ^ 28 = a div 16"
  using assms by (simp_all add: addr_of_def)

lemma network_numbers:
  "addr_of [0, 0, 0, 0] = 0" "addr_of [10, 0, 0, 0] = 167772160" "addr_of [100, 64, 0, 0] = 1681915904" "addr_of [127, 0, 0, 0] = 2130706432"
  "addr_of [169, 254, 0, 0] = 2851995648" "addr_of [172, 16, 0, 0] = 2886729728" "addr_of [192, 0, 0, 0] = 3221225472"
  "addr_of [192, 168, 0, 0] = 3232235520" "addr_of [198, 18, 0, 0] = 3323068416" "addr_of [224, 0, 0, 0] = 3758096384"
  "addr_of [240, 0, 0, 0] = 4026531840"
  by (simp_all add: addr_of_def)

lemma digit_eq: "(y :: nat) < k \<Longrightarrow> r < k \<Longrightarrow> x * k + y = m * k + r \<longleftrightarrow> x = m \<and> y = r"
  by (metis add.commute div_less div_mult_self1 mod_less mod_mult_self1 less_nat_zero_code add_0)

text \<open>Membership in each of the networks, by bytes.\<close>

lemma networks_by_bytes:
  assumes "a < 256" "b < 256" "c < 256" "d < 256"
  shows "in_network [a, b, c, d] ([0, 0, 0, 0], 8) \<longleftrightarrow> a = 0" "in_network [a, b, c, d] ([10, 0, 0, 0], 8) \<longleftrightarrow> a = 10"
    "in_network [a, b, c, d] ([100, 64, 0, 0], 10) \<longleftrightarrow> a = 100 \<and> b div 64 = 1" "in_network [a, b, c, d] ([127, 0, 0, 0], 8) \<longleftrightarrow> a = 127"
    "in_network [a, b, c, d] ([169, 254, 0, 0], 16) \<longleftrightarrow> a = 169 \<and> b = 254"
    "in_network [a, b, c, d] ([172, 16, 0, 0], 12) \<longleftrightarrow> a = 172 \<and> b div 16 = 1"
    "in_network [a, b, c, d] ([192, 0, 0, 0], 24) \<longleftrightarrow> a = 192 \<and> b = 0 \<and> c = 0"
    "in_network [a, b, c, d] ([192, 168, 0, 0], 16) \<longleftrightarrow> a = 192 \<and> b = 168"
    "in_network [a, b, c, d] ([198, 18, 0, 0], 15) \<longleftrightarrow> a = 198 \<and> b div 2 = 9"
    "in_network [a, b, c, d] ([224, 0, 0, 0], 4) \<longleftrightarrow> a div 16 = 14" "in_network [a, b, c, d] ([240, 0, 0, 0], 4) \<longleftrightarrow> 240 \<le> a"
proof -
  note n = in_network_def split_conv addr_div[OF assms, simplified]
  have d: "b div 64 < 4" "b div 16 < 16" "b div 2 < 128" using assms(2) by (simp_all add: div_less_iff_less_mult)
  show "in_network [a, b, c, d] ([0, 0, 0, 0], 8) \<longleftrightarrow> a = 0" by (simp add: n network_numbers)
  show "in_network [a, b, c, d] ([10, 0, 0, 0], 8) \<longleftrightarrow> a = 10" by (simp add: n network_numbers)
  show "in_network [a, b, c, d] ([127, 0, 0, 0], 8) \<longleftrightarrow> a = 127" by (simp add: n network_numbers)
  show "in_network [a, b, c, d] ([224, 0, 0, 0], 4) \<longleftrightarrow> a div 16 = 14" by (simp add: n network_numbers)
  have "a div 16 = 15 \<longleftrightarrow> 240 \<le> a" using assms(1) by presburger
  then show "in_network [a, b, c, d] ([240, 0, 0, 0], 4) \<longleftrightarrow> 240 \<le> a" by (simp add: n network_numbers)
  show "in_network [a, b, c, d] ([100, 64, 0, 0], 10) \<longleftrightarrow> a = 100 \<and> b div 64 = 1"
    using digit_eq[OF d(1), of 1 a 100] by (simp add: n network_numbers)
  show "in_network [a, b, c, d] ([169, 254, 0, 0], 16) \<longleftrightarrow> a = 169 \<and> b = 254"
    using digit_eq[OF assms(2), of 254 a 169] by (simp add: n network_numbers)
  show "in_network [a, b, c, d] ([172, 16, 0, 0], 12) \<longleftrightarrow> a = 172 \<and> b div 16 = 1"
    using digit_eq[OF d(2), of 1 a 172] by (simp add: n network_numbers)
  show "in_network [a, b, c, d] ([192, 168, 0, 0], 16) \<longleftrightarrow> a = 192 \<and> b = 168"
    using digit_eq[OF assms(2), of 168 a 192] by (simp add: n network_numbers)
  show "in_network [a, b, c, d] ([198, 18, 0, 0], 15) \<longleftrightarrow> a = 198 \<and> b div 2 = 9"
    using digit_eq[OF d(3), of 9 a 198] by (simp add: n network_numbers)
  have "(a * 256 + b) * 256 + c = 12582912 \<longleftrightarrow> a = 192 \<and> b = 0 \<and> c = 0"
    using digit_eq[OF assms(3), of 0 "a * 256 + b" 49152] digit_eq[OF assms(2), of 0 a 192] by simp
  then show "in_network [a, b, c, d] ([192, 0, 0, 0], 24) \<longleftrightarrow> a = 192 \<and> b = 0 \<and> c = 0" by (simp add: n network_numbers)
qed

lemma blockedV4_networks:
  assumes "a < 256" "b < 256" "c < 256" "d < 256"
  shows "blockedV4 [a, b, c, d] \<longleftrightarrow> list_ex (in_network [a, b, c, d]) reserved_networks"
proof -
  have "blockedV4 [a, b, c, d] \<longleftrightarrow> a = 0 \<or> a = 10 \<or> a = 100 \<and> b div 64 = 1 \<or> a = 127 \<or> a = 169 \<and> b = 254 \<or> a = 172 \<and> b div 16 = 1 \<or>
      a = 192 \<and> b = 0 \<and> c = 0 \<or> a = 192 \<and> b = 168 \<or> a = 198 \<and> b div 2 = 9 \<or> a div 16 = 14 \<or> 240 \<le> a"
    unfolding blockedV4_def special_v4_def by (auto simp: byte_masks assms)
  then show ?thesis by (simp add: reserved_networks_def networks_by_bytes[OF assms])
qed

lemma four_bytes:
  assumes "length ip = 4"
  obtains a b c d where "ip = [a, b, c, d]"
  using assms by (auto simp: length_Suc_conv eval_nat_numeral)

lemma zeros [simp]: "list_all (\<lambda>x. x = 0) (replicate n (0 :: nat))"
  by (simp add: list_all_iff)

lemma zeros_other: "replicate 2 (0 :: nat) \<noteq> [32, 2]" "replicate 4 (0 :: nat) \<noteq> [0, 100, 255, 155]"
  by code_simp+

lemma blocked_v4: "length ip = 4 \<Longrightarrow> IsBlockedIP (Some ip) = blockedV4 ip"
  by (simp add: IsBlockedIP_def To4_def)

lemma blocked_networks:
  assumes "length ip = 4" and "bytes_ok ip"
  shows "IsBlockedIP (Some ip) \<longleftrightarrow> list_ex (in_network ip) reserved_networks"
proof -
  obtain a b c d where "ip = [a, b, c, d]" using four_bytes[OF assms(1)] .
  then show ?thesis using assms blocked_v4[OF assms(1)] blockedV4_networks[of a b c d] by simp
qed

lemma blocked_mapped: "length v4 = 4 \<Longrightarrow> IsBlockedIP (Some (replicate 10 0 @ [255, 255] @ v4)) = blockedV4 v4"
  by (simp add: IsBlockedIP_def To4_def allZero_def nth_append)

lemma blocked_nat64:
  assumes "length v4 = 4"
  shows "IsBlockedIP (Some ([0x00, 0x64, 0xFF, 0x9B] @ replicate 8 0 @ v4)) = blockedV4 v4"
proof -
  let ?ip = "[0x00, 0x64, 0xFF, 0x9B] @ replicate 8 0 @ v4"
  have "?ip ! 0 = 0" "?ip ! 1 = 0x64" by simp_all
  moreover have "(replicate 15 0 @ [1 :: nat]) ! 1 = 0" "replicate 16 (0 :: nat) ! 1 = 0" by (simp_all add: nth_append)
  ultimately have "\<not> special_v6 ?ip" unfolding special_v6_def by (auto dest: arg_cong[where f = "\<lambda>l. l ! 1"])
  moreover have "\<not> allZero (take 10 ?ip)" by (simp add: allZero_def)
  ultimately show ?thesis using assms by (simp add: IsBlockedIP_def To4_def allZero_def)
qed

lemma blocked_6to4:
  assumes "length v4 = 4" and "length rest = 10"
  shows "IsBlockedIP (Some ([0x20, 0x02] @ v4 @ rest)) = blockedV4 v4"
proof -
  let ?ip = "[0x20, 0x02] @ v4 @ rest"
  have "?ip ! 0 = 0x20" by simp
  moreover have "(replicate 15 0 @ [1 :: nat]) ! 0 = 0" "replicate 16 (0 :: nat) ! 0 = 0" by (simp_all add: nth_append)
  ultimately have "\<not> special_v6 ?ip" unfolding special_v6_def by (auto dest: arg_cong[where f = "\<lambda>l. l ! 0"])
  moreover have "\<not> allZero (take 10 ?ip)" by (simp add: allZero_def)
  ultimately show ?thesis using assms by (simp add: IsBlockedIP_def To4_def)
qed

lemma blocked_compatible: "length v4 = 4 \<Longrightarrow> IsBlockedIP (Some (replicate 12 0 @ v4))"
  by (simp add: IsBlockedIP_def To4_def allZero_def nth_append zeros_other)

text \<open>The same for IPv6: the address as a number, and its networks (the first one holds the unspecified address, loopback and the
  obsolete compatible form of an IPv4 address).\<close>

definition in_network6 :: "nat list \<Rightarrow> nat list \<times> nat \<Rightarrow> bool" where
  "in_network6 ip = (\<lambda>(net, len). addr_of ip div 2 ^ (128 - len) = addr_of net div 2 ^ (128 - len))"

definition reserved_networks6 :: "(nat list \<times> nat) list" where
  "reserved_networks6 =
     [(replicate 16 0, 96), (0xFC # replicate 15 0, 7), (0xFE # 0x80 # replicate 14 0, 10), (0xFF # replicate 15 0, 8)]"

text \<open>The IPv4 address an IPv6 one stands for: mapped, NAT64 and 6to4.\<close>

definition embedded :: "nat list \<Rightarrow> nat list option" where
  "embedded ip =
     (if take 12 ip = replicate 10 0 @ [255, 255] \<or> take 12 ip = [0x00, 0x64, 0xFF, 0x9B] @ replicate 8 0 then Some (drop 12 ip)
      else if take 2 ip = [0x20, 0x02] then Some (take 4 (drop 2 ip))
      else None)"

definition public_address :: "nat list \<Rightarrow> bool" where
  "public_address ip \<longleftrightarrow>
     (if length ip = 4 then \<not> list_ex (in_network ip) reserved_networks
      else length ip = 16 \<and>
        (case embedded ip of
           Some v4 \<Rightarrow> \<not> list_ex (in_network v4) reserved_networks
         | None \<Rightarrow> \<not> list_ex (in_network6 ip) reserved_networks6))"

lemma addr_of_fold: "fold (\<lambda>b n. n * 256 + b) ip n = n * 256 ^ length ip + addr_of ip"
proof (induction ip arbitrary: n)
  case (Cons b ip)
  have "addr_of (b # ip) = b * 256 ^ length ip + addr_of ip" using Cons.IH[of b] by (simp add: addr_of_def)
  then show ?case using Cons.IH[of "n * 256 + b"] by (simp add: distrib_right)
qed (simp add: addr_of_def)

lemma addr_of_append: "addr_of (xs @ ys) = addr_of xs * 256 ^ length ys + addr_of ys"
proof -
  have "addr_of (xs @ ys) = fold (\<lambda>b n. n * 256 + b) ys (addr_of xs)" by (simp add: addr_of_def)
  then show ?thesis by (simp only: addr_of_fold)
qed

lemma addr_of_less: "bytes_ok ip \<Longrightarrow> addr_of ip < 256 ^ length ip"
proof (induction ip rule: rev_induct)
  case (snoc b ip)
  then have "addr_of ip + 1 \<le> 256 ^ length ip" "b < 256" by simp_all
  then have "(addr_of ip + 1) * 256 \<le> 256 ^ length ip * 256" "b < 256" by (simp_all only: mult_le_mono1)
  then show ?case by (simp add: addr_of_append) (simp add: addr_of_def)
qed (simp add: addr_of_def)

lemma addr_of_zero: "addr_of ip = 0 \<longleftrightarrow> allZero ip"
  by (induction ip rule: rev_induct) (simp_all add: addr_of_append allZero_def, simp_all add: addr_of_def)

text \<open>The leading bits of a number are those of its leading bytes.\<close>

lemma addr_of_leading:
  assumes "bytes_ok ys" and "8 * length ys \<le> m"
  shows "addr_of (xs @ ys) div 2 ^ m = addr_of xs div 2 ^ (m - 8 * length ys)"
proof -
  have "(256 :: nat) ^ length ys = 2 ^ (8 * length ys)" by (simp add: power_mult)
  then have "addr_of (xs @ ys) div 2 ^ (8 * length ys) = addr_of xs"
    using addr_of_less[OF assms(1)] by (simp add: addr_of_append)
  moreover have "(2 :: nat) ^ m = 2 ^ (8 * length ys) * 2 ^ (m - 8 * length ys)" using assms(2) by (simp flip: power_add)
  ultimately show ?thesis by (simp add: div_mult2_eq)
qed

lemma sixteen_bytes:
  assumes "length ip = 16"
  obtains a b rest where "ip = a # b # rest" "length rest = 14"
  using assms by (cases ip; cases "tl ip") auto

lemma and_fe: "(a :: nat) < 256 \<Longrightarrow> and a 0xFE = 0xFC \<longleftrightarrow> a div 2 = 126"
proof -
  assume a: "a < 256"
  have m: "mask 7 * 2 ^ 1 = (0xFE :: nat)" by (simp add: mask_eq_exp_minus_1)
  have "a div 2 < 128" using a by (simp add: div_less_iff_less_mult)
  then have "and a 0xFE = a div 2 * 2" using and_high[of a 7 1] unfolding m by simp
  then show ?thesis by simp
qed

lemma and_c0: "(b :: nat) < 256 \<Longrightarrow> and b 0xC0 = 0x80 \<longleftrightarrow> b div 64 = 2"
proof -
  assume b: "b < 256"
  have m: "mask 2 * 2 ^ 6 = (0xC0 :: nat)" by (simp add: mask_eq_exp_minus_1)
  have "b div 64 < 4" using b by (simp add: div_less_iff_less_mult)
  then have "and b 0xC0 = b div 64 * 64" using and_high[of b 2 6] unfolding m by simp
  then show ?thesis by simp
qed

lemma networks6_by_bytes:
  assumes "ip = a # b # rest" "length rest = 14" "bytes_ok ip"
  shows "in_network6 ip (replicate 16 0, 96) \<longleftrightarrow> allZero (take 12 ip)"
    "in_network6 ip (0xFC # replicate 15 0, 7) \<longleftrightarrow> a div 2 = 126"
    "in_network6 ip (0xFE # 0x80 # replicate 14 0, 10) \<longleftrightarrow> a = 0xFE \<and> b div 64 = 2"
    "in_network6 ip (0xFF # replicate 15 0, 8) \<longleftrightarrow> a = 0xFF"
proof -
  have l: "length ip = 16" and r: "bytes_ok rest" "a < 256" "b < 256" using assms by simp_all
  have z: "bytes_ok (replicate n 0)" for n by (simp add: list_all_iff)
  have one: "addr_of ip div 2 ^ (120 + k) = a div 2 ^ k" for k
    using addr_of_leading[of "b # rest" "120 + k" "[a]"] assms by (simp add: addr_of_def)
  have one': "addr_of (x # replicate 15 0) div 2 ^ (120 + k) = x div 2 ^ k" for x k
    using addr_of_leading[of "replicate 15 0" "120 + k" "[x]", OF z] by (simp add: addr_of_def)
  have two: "addr_of ip div 2 ^ 118 = (a * 256 + b) div 64"
    using addr_of_leading[of rest 118 "[a, b]"] assms by (simp add: addr_of_def)
  have two': "addr_of (0xFE # 0x80 # replicate 14 0) div 2 ^ 118 = 1018"
    using addr_of_leading[of "replicate 14 0" 118 "[0xFE, 0x80]", OF z] by (simp add: addr_of_def)
  have "addr_of ip div 2 ^ 32 = addr_of (take 12 ip)"
    using addr_of_leading[of "drop 12 ip" 32 "take 12 ip"] assms(3) l set_drop_subset[of 12 ip] by (auto simp: list_all_iff)
  moreover have "addr_of (replicate 16 0) = 0" by (simp add: addr_of_zero allZero_def)
  ultimately show "in_network6 ip (replicate 16 0, 96) \<longleftrightarrow> allZero (take 12 ip)"
    by (simp only: in_network6_def split_conv) (simp add: addr_of_zero)
  show "in_network6 ip (0xFC # replicate 15 0, 7) \<longleftrightarrow> a div 2 = 126" using one[of 1] one'[of "0xFC" 1] by (simp add: in_network6_def)
  show "in_network6 ip (0xFF # replicate 15 0, 8) \<longleftrightarrow> a = 0xFF" using one[of 0] one'[of "0xFF" 0] by (simp add: in_network6_def)
  have "(a * 256 + b) div 64 = a * 4 + b div 64" "b div 64 < 4" using r(3) by (simp_all add: div_less_iff_less_mult)
  then have "(a * 256 + b) div 64 = 1018 \<longleftrightarrow> a = 0xFE \<and> b div 64 = 2" using digit_eq[of "b div 64" 4 2 a 254] by simp
  then show "in_network6 ip (0xFE # 0x80 # replicate 14 0, 10) \<longleftrightarrow> a = 0xFE \<and> b div 64 = 2"
    using two two' by (simp add: in_network6_def)
qed

lemma allZero_replicate: "allZero xs \<longleftrightarrow> xs = replicate (length xs) 0"
  unfolding allZero_def list_all_iff by (metis in_set_replicate replicate_eqI)

lemma special_v6_networks:
  assumes "length ip = 16" "bytes_ok ip"
  shows "special_v6 ip \<or> allZero (take 12 ip) \<longleftrightarrow> list_ex (in_network6 ip) reserved_networks6"
proof -
  obtain a b rest where ip: "ip = a # b # rest" "length rest = 14" using sixteen_bytes[OF assms(1)] .
  then have "a < 256" "b < 256" using assms(2) by simp_all
  moreover have "allZero (take 12 ip)" if "ip = replicate 15 0 @ [1] \<or> ip = replicate 16 0" using that by (auto simp: allZero_def)
  ultimately show ?thesis
    unfolding special_v6_def reserved_networks6_def using ip networks6_by_bytes[OF ip assms(2)] by (auto simp: and_fe and_c0)
qed

lemma embedded_prefixes:
  assumes "length ip = 16"
  shows "take 12 ip = replicate 10 0 @ [255, 255] \<longleftrightarrow> allZero (take 10 ip) \<and> ip ! 10 = 255 \<and> ip ! 11 = 255"
    "take 12 ip = [0x00, 0x64, 0xFF, 0x9B] @ replicate 8 0 \<longleftrightarrow> take 4 ip = [0x00, 0x64, 0xFF, 0x9B] \<and> allZero (take 8 (drop 4 ip))"
proof -
  have "take 11 ip = take 10 ip @ [ip ! 10]" "take 12 ip = take 11 ip @ [ip ! 11]"
    using take_Suc_conv_app_nth[of 10 ip] take_Suc_conv_app_nth[of 11 ip] assms by simp_all
  then have "take 12 ip = take 10 ip @ [ip ! 10, ip ! 11]" by simp
  moreover have "take 10 ip @ [ip ! 10, ip ! 11] = replicate 10 0 @ [255, 255] \<longleftrightarrow>
      take 10 ip = replicate 10 0 \<and> [ip ! 10, ip ! 11] = [255, 255]"
    by (rule append_eq_append_conv) (simp add: assms)
  moreover have "allZero (take 10 ip) \<longleftrightarrow> take 10 ip = replicate 10 0"
    "allZero (take 8 (drop 4 ip)) \<longleftrightarrow> take 8 (drop 4 ip) = replicate 8 0"
    using allZero_replicate[of "take 10 ip"] allZero_replicate[of "take 8 (drop 4 ip)"] assms by simp_all
  moreover have "take 12 ip = take 4 ip @ take 8 (drop 4 ip)" using take_add[of 4 8 ip] by simp
  moreover have "take 4 ip @ take 8 (drop 4 ip) = [0x00, 0x64, 0xFF, 0x9B] @ replicate 8 0 \<longleftrightarrow>
      take 4 ip = [0x00, 0x64, 0xFF, 0x9B] \<and> take 8 (drop 4 ip) = replicate 8 0"
    by (rule append_eq_append_conv) (simp add: assms)
  ultimately show "take 12 ip = replicate 10 0 @ [255, 255] \<longleftrightarrow> allZero (take 10 ip) \<and> ip ! 10 = 255 \<and> ip ! 11 = 255"
    "take 12 ip = [0x00, 0x64, 0xFF, 0x9B] @ replicate 8 0 \<longleftrightarrow> take 4 ip = [0x00, 0x64, 0xFF, 0x9B] \<and> allZero (take 8 (drop 4 ip))"
    by (metis list.inject)+
qed

lemma embedded_not_special: "ip ! 0 = 0 \<and> ip ! 1 = 0x64 \<or> ip ! 0 = 0x20 \<Longrightarrow> \<not> special_v6 ip"
proof -
  have "(replicate 15 0 @ [1 :: nat]) ! 0 = 0" "(replicate 15 0 @ [1 :: nat]) ! 1 = 0" "replicate 16 (0 :: nat) ! 0 = 0" "replicate 16 (0 :: nat) ! 1 = 0"
    by (simp_all add: nth_append)
  then show "ip ! 0 = 0 \<and> ip ! 1 = 0x64 \<or> ip ! 0 = 0x20 \<Longrightarrow> \<not> special_v6 ip"
    unfolding special_v6_def by (auto dest: arg_cong[where f = "\<lambda>l. l ! 0"] arg_cong[where f = "\<lambda>l. l ! 1"])
qed

lemma blockedV4_public: "length v4 = 4 \<Longrightarrow> bytes_ok v4 \<Longrightarrow> blockedV4 v4 \<longleftrightarrow> list_ex (in_network v4) reserved_networks"
  using blocked_v4 blocked_networks by metis

lemma bytes_part: "bytes_ok ip \<Longrightarrow> set xs \<subseteq> set ip \<Longrightarrow> bytes_ok xs"
  by (auto simp: list_all_iff)

text \<open>The rule blocks exactly what is not a public address.\<close>

lemma blocked_iff_not_public:
  assumes "bytes_ok ip"
  shows "IsBlockedIP (Some ip) \<longleftrightarrow> \<not> public_address ip"
proof (cases "length ip = 16")
  case False
  then show ?thesis using blocked_networks[OF _ assms] by (cases "length ip = 4") (simp_all add: public_address_def IsBlockedIP_def To4_def)
next
  case True
  have low: "bytes_ok (drop 12 ip)" "bytes_ok (take 4 (drop 2 ip))"
    using bytes_part[OF assms] set_drop_subset[of _ ip] set_take_subset[of 4 "drop 2 ip"] by (meson order_trans)+
  have len: "length (drop 12 ip) = 4" "length (take 4 (drop 2 ip)) = 4" using True by simp_all
  note v4 = blockedV4_public[OF len(1) low(1)] blockedV4_public[OF len(2) low(2)] and pre = embedded_prefixes[OF True]
  show ?thesis
  proof (cases "allZero (take 10 ip) \<and> ip ! 10 = 255 \<and> ip ! 11 = 255")
    case True
    then show ?thesis using \<open>length ip = 16\<close> v4 pre by (simp add: IsBlockedIP_def To4_def public_address_def embedded_def)
  next
    case nomap: False
    have n64: "\<not> special_v6 ip" if "take 4 ip = [0x00, 0x64, 0xFF, 0x9B]"
    proof -
      have "take 4 ip ! 0 = 0" "take 4 ip ! 1 = 0x64" unfolding that by simp_all
      then show ?thesis by (intro embedded_not_special) simp
    qed
    have n6to4: "\<not> special_v6 ip \<and> take 4 ip \<noteq> [0x00, 0x64, 0xFF, 0x9B]" if "take 2 ip = [0x20, 0x02]"
    proof -
      have "take 2 ip ! 0 = 0x20" unfolding that by simp
      then have z: "ip ! 0 = 0x20" by simp
      have "take 4 ip ! 0 \<noteq> 0" using z by simp
      then show ?thesis using embedded_not_special[of ip] z by fastforce
    qed
    show ?thesis
      using nomap True v4 pre n64 n6to4 special_v6_networks[OF True assms]
      by (auto simp: IsBlockedIP_def To4_def public_address_def embedded_def)
  qed
qed

text \<open>The address parser of the library returns bytes.\<close>

definition parses_bytes :: "netlib \<Rightarrow> bool" where
  "parses_bytes n \<longleftrightarrow> (\<forall>s ip. nl_ParseIP n s = Some ip \<longrightarrow> bytes_ok ip)"

lemma blocked_parsed: "parses_bytes n \<Longrightarrow> nl_ParseIP n s = Some ip \<Longrightarrow> IsBlockedIP (Some ip) \<longleftrightarrow> \<not> public_address ip"
  using blocked_iff_not_public by (simp add: parses_bytes_def)

text \<open>The dialled host: the host part of the address, without the zone of an IPv6 address.\<close>

definition dialled_host :: "netlib \<Rightarrow> string \<Rightarrow> string option" where
  "dialled_host n address = map_option (takeWhile (\<lambda>c. c \<noteq> CHR 0x25)) (nl_SplitHostPort n address)"

lemma cut_zone: "(case IndexByte s c of None \<Rightarrow> s | Some i \<Rightarrow> take i s) = takeWhile (\<lambda>x. x \<noteq> c) s"
proof (cases "c \<in> set s")
  case True
  then obtain xs ys where s: "s = xs @ c # ys" "c \<notin> set xs" using split_list_first by metis
  then have "takeWhile (\<lambda>x. x \<noteq> c) s = xs" by (induction xs arbitrary: s) auto
  then show ?thesis using s by (simp add: IndexByte_append)
next
  case False
  then have all: "takeWhile (\<lambda>x. x \<noteq> c) s = s" unfolding takeWhile_eq_all_conv by blast
  show ?thesis unfolding IndexByte_None[THEN iffD2, OF False] by (simp only: option.case all)
qed

lemma dial_exact:
  assumes "parses_bytes n"
  shows "dialControl n False address = None \<longleftrightarrow>
    (\<exists>host ip. dialled_host n address = Some host \<and> nl_ParseIP n host = Some ip \<and> public_address ip)"
proof (cases "nl_SplitHostPort n address")
  case (Some h)
  have "IsBlockedIP None" by (simp add: IsBlockedIP_def)
  then show ?thesis using Some blocked_parsed[OF assms]
    by (cases "nl_ParseIP n (takeWhile (\<lambda>c. c \<noteq> CHR 0x25) h)") (auto simp: dialControl_def dialled_host_def cut_zone Let_def)
qed (simp add: dialControl_def dialled_host_def)

text \<open>C26. The guard of outgoing connections blocks exactly the special-purpose networks. An IPv4 address is refused if and only if it
  lies in one of eleven reserved networks; an IPv6 address that embeds one (mapped, NAT64, 6to4) gets the verdict of the embedded
  address; any other is refused if and only if it lies in one of four reserved networks (which hold the compatible addresses); a text
  that is no address is refused. The dialer connects to an address if and only if the host part of that address, without
  its zone, is a literal IP address outside all of these.\<close>

theorem egress_blocks_reserved_networks:
  assumes "length v4 = 4" and "bytes_ok v4" and "length rest = 10" and "bytes_ok ip" and "parses_bytes n"
  shows "(IsBlockedIP (Some v4) \<longleftrightarrow> list_ex (in_network v4) reserved_networks) \<and>
    IsBlockedIP (Some (replicate 10 0 @ [255, 255] @ v4)) = IsBlockedIP (Some v4) \<and>
    IsBlockedIP (Some ([0x00, 0x64, 0xFF, 0x9B] @ replicate 8 0 @ v4)) = IsBlockedIP (Some v4) \<and>
    IsBlockedIP (Some ([0x20, 0x02] @ v4 @ rest)) = IsBlockedIP (Some v4) \<and>
    IsBlockedIP (Some (replicate 12 0 @ v4)) \<and> IsBlockedIP None \<and>
    (length ip = 16 \<and> embedded ip = None \<longrightarrow> (IsBlockedIP (Some ip) \<longleftrightarrow> list_ex (in_network6 ip) reserved_networks6)) \<and>
    (dialControl n False address = None \<longleftrightarrow>
       (\<exists>host ip. dialled_host n address = Some host \<and> nl_ParseIP n host = Some ip \<and> public_address ip))"
proof -
  have "IsBlockedIP None" by (simp add: IsBlockedIP_def)
  moreover have "length ip = 16 \<and> embedded ip = None \<longrightarrow> (IsBlockedIP (Some ip) \<longleftrightarrow> list_ex (in_network6 ip) reserved_networks6)"
    using blocked_iff_not_public[OF assms(4)] by (simp add: public_address_def)
  ultimately show ?thesis
    using blocked_networks[OF assms(1,2)] blocked_v4[OF assms(1)] blocked_mapped[OF assms(1)] blocked_nat64[OF assms(1)]
      blocked_6to4[OF assms(1,3)] blocked_compatible[OF assms(1)] dial_exact[OF assms(5), of address]
    by (intro conjI) simp_all
qed

text \<open>A library that knows one address with a zone, link-local, and one public address.\<close>

definition address_lib :: netlib where
  "address_lib = \<lparr>nl_Parse = (\<lambda>s. if s = ''https://api.shop.mx/v1'' then Some \<lparr>u_Scheme = ''https'', u_Host = ''api.shop.mx'', u_Hostname = ''api.shop.mx''\<rparr>
        else if s = ''http://[fe80::1]/'' then Some \<lparr>u_Scheme = ''http'', u_Host = ''[fe80::1]'', u_Hostname = ''fe80::1''\<rparr> else None),
     nl_ParseIP = (\<lambda>s. if s = ''fe80::1'' then Some (0xFE # 0x80 # replicate 13 0 @ [1]) else if s = ''8.8.8.8'' then Some [8, 8, 8, 8] else None),
     nl_SplitHostPort = (\<lambda>s. if s = ''[fe80::1%eth0]:443'' then Some ''fe80::1%eth0'' else if s = ''8.8.8.8:443'' then Some ''8.8.8.8'' else None),
     nl_Atoi = (\<lambda>_. None), nl_lower = id\<rparr>"

lemma address_lib_bytes: "parses_bytes address_lib"
  by (simp add: parses_bytes_def address_lib_def list_all_iff)

theorem egress_blocks_reserved_networks_witness:
  "IsBlockedIP (Some [169, 254, 169, 254]) \<and> IsBlockedIP (Some ([0x20, 0x02] @ [169, 254, 169, 254] @ replicate 10 7)) \<and>
   \<not> IsBlockedIP (Some [8, 8, 8, 8]) \<and> dialControl address_lib False ''8.8.8.8:443'' = None \<and>
   dialControl address_lib False ''[fe80::1%eth0]:443'' \<noteq> None"
proof -
  have "list_ex (in_network [169, 254, 169, 254]) reserved_networks" "\<not> list_ex (in_network [8, 8, 8, 8]) reserved_networks" by code_simp+
  moreover have "dialled_host address_lib ''8.8.8.8:443'' = Some ''8.8.8.8''" "nl_ParseIP address_lib ''8.8.8.8'' = Some [8, 8, 8, 8]"
    "public_address [8, 8, 8, 8]" "dialled_host address_lib ''[fe80::1%eth0]:443'' = Some ''fe80::1''"
    "nl_ParseIP address_lib ''fe80::1'' = Some (0xFE # 0x80 # replicate 13 0 @ [1])"
    "\<not> public_address (0xFE # 0x80 # replicate 13 0 @ [1])" by code_simp+
  ultimately show ?thesis
    using egress_blocks_reserved_networks[OF _ _ _ _ address_lib_bytes, of "[169, 254, 169, 254]" "replicate 10 7" "[]" "''8.8.8.8:443''"]
      egress_blocks_reserved_networks[OF _ _ _ _ address_lib_bytes, of "[8, 8, 8, 8]" "replicate 10 7" "[]" "''[fe80::1%eth0]:443''"]
    by simp
qed

section \<open>What a compiled policy grants\<close>

text \<open>A pattern is \<^verbatim>\<open>*\<close>, a literal, a literal followed by \<^verbatim>\<open>.*\<close>, or one preceded by \<^verbatim>\<open>*.\<close>; the last two cover the literal itself and
  everything below it.\<close>

definition covers :: "string \<Rightarrow> string \<Rightarrow> bool" where
  "covers p v \<longleftrightarrow>
     p = ''*'' \<or> p = v \<or> (\<exists>pre. p = pre @ ''.*'' \<and> (v = pre \<or> (\<exists>r. v = pre @ ''.'' @ r))) \<or>
     (\<exists>suf. p = ''*.'' @ suf \<and> (v = suf \<or> (\<exists>l. v = l @ ''.'' @ suf)))"

lemma match_one_covers: "match_one p v \<longleftrightarrow> covers p v"
proof -
  have "(HasSuffix p ''.*'' \<and> (HasPrefix v (TrimSuffix p ''.*'' @ ''.'') \<or> v = TrimSuffix p ''.*'')) \<longleftrightarrow>
      (\<exists>pre. p = pre @ ''.*'' \<and> (v = pre \<or> (\<exists>r. v = pre @ ''.'' @ r)))"
    unfolding HasPrefix_iff HasSuffix_iff by (auto simp del: append_Cons)
  moreover have "(HasPrefix p ''*.'' \<and> (HasSuffix v (''.'' @ TrimPrefix p ''*.'') \<or> v = TrimPrefix p ''*.'')) \<longleftrightarrow>
      (\<exists>suf. p = ''*.'' @ suf \<and> (v = suf \<or> (\<exists>l. v = l @ ''.'' @ suf)))"
    unfolding HasPrefix_iff HasSuffix_iff by (auto simp del: append_Cons)
  ultimately show ?thesis unfolding match_one_def covers_def Let_def by blast
qed

text \<open>The targets declared for a kind, in order.\<close>

definition targets :: "string \<Rightarrow> manifest_Capability list \<Rightarrow> string list" where
  "targets k caps = map mc_Target (filter (\<lambda>c. mc_Kind c = k) caps)"

abbreviation declares_cap :: "manifest_Capability list \<Rightarrow> string \<Rightarrow> string \<Rightarrow> bool" where
  "declares_cap caps k v \<equiv> \<exists>c \<in> set caps. mc_Kind c = k \<and> covers (mc_Target c) v"

lemma fold_compile:
  "cp_addonKey (fold compile_one caps c) = cp_addonKey c"
  "cp_dbRead (fold compile_one caps c) = cp_dbRead c @ targets ''db:read'' caps"
  "cp_dbWrite (fold compile_one caps c) = cp_dbWrite c @ targets ''db:write'' caps"
  "cp_eventPub (fold compile_one caps c) = cp_eventPub c @ targets ''event:emit'' caps"
  "cp_eventSub (fold compile_one caps c) = cp_eventSub c @ targets ''event:subscribe'' caps"
  "cp_connRead (fold compile_one caps c) = cp_connRead c @ targets ''connector:read'' caps"
  "cp_capQuery (fold compile_one caps c) = cp_capQuery c @ targets ''capability:query'' caps"
  "cp_edgeCmd (fold compile_one caps c) = cp_edgeCmd c @ targets ''edge:command'' caps"
  "cp_domManage (fold compile_one caps c) = cp_domManage c @ targets ''domain:manage'' caps"
  "cp_httpHost (fold compile_one caps c) = cp_httpHost c @ filter (\<lambda>t. ParseConnectorHostRef t = None) (targets ''http:fetch'' caps)"
  by (induction caps arbitrary: c) (auto simp: targets_def compile_one_def Let_def split: option.splits)

lemma fold_compile_scope:
  "set (cp_ctxScope (fold compile_one caps c)) =
     set (cp_ctxScope c) \<union> {s. s \<in> {''user'', ''roles'', ''org_config''} \<and> (\<exists>cap \<in> set caps. mc_Kind cap = ''ctx:'' @ s)}"
  by (induction caps arbitrary: c) (auto simp: compile_one_def Let_def TrimPrefix_def HasPrefix_def split: option.splits)

lemma matchAny_targets: "matchAny (targets k caps) v \<longleftrightarrow> declares_cap caps k v"
  by (auto simp: matchAny_def targets_def list_ex_iff match_one_covers)

lemma matchAny_append: "matchAny (xs @ ys) v \<longleftrightarrow> matchAny xs v \<or> matchAny ys v"
  by (auto simp: matchAny_def)

lemma Compile_fields:
  "cp_dbRead (Compile L k caps) = targets ''db:read'' caps @ [selfSchema L k]"
  "cp_dbWrite (Compile L k caps) = targets ''db:write'' caps @ [selfSchema L k]"
  "cp_eventPub (Compile L k caps) = targets ''event:emit'' caps"
  "cp_eventSub (Compile L k caps) = targets ''event:subscribe'' caps"
  "cp_connRead (Compile L k caps) = targets ''connector:read'' caps"
  "cp_capQuery (Compile L k caps) = targets ''capability:query'' caps"
  "cp_edgeCmd (Compile L k caps) = targets ''edge:command'' caps"
  "cp_domManage (Compile L k caps) = targets ''domain:manage'' caps"
  "cp_httpHost (Compile L k caps) = filter (\<lambda>t. ParseConnectorHostRef t = None) (targets ''http:fetch'' caps)"
  "set (cp_ctxScope (Compile L k caps)) = {s. s \<in> {''user'', ''roles'', ''org_config''} \<and> (\<exists>cap \<in> set caps. mc_Kind cap = ''ctx:'' @ s)}"
  by (simp_all add: Compile_def Let_def fold_compile fold_compile_scope empty_caps_def)

definition own_schema :: "(string \<Rightarrow> string) \<Rightarrow> string \<Rightarrow> string \<Rightarrow> bool" where
  "own_schema L k v \<longleftrightarrow> covers (''addon_'' @ ToLower L k @ ''.*'') v"

lemma match_self: "matchAny [selfSchema L k] v \<longleftrightarrow> own_schema L k v"
  by (simp add: matchAny_def selfSchema_def own_schema_def match_one_covers)

lemmas grant_simps = Compile_fields matchAny_append matchAny_targets match_self

text \<open>C24. The policy compiled from a manifest grants exactly what the manifest declares, and nothing else. A declared target covers a
  name when it is the wildcard, the name itself, a prefix followed by a dot and a wildcard, or (as the code has it, and its
  comment and the documentation do not) a wildcard followed by a dot and a suffix. Emitting, subscribing, reading a connector,
  managing a domain, querying a capability and sending an edge command (of a named device) need a target of just that kind that
  covers the name; writing a model needs such a \<^verbatim>\<open>db:write\<close> target or the addon's own schema, reading one a \<^verbatim>\<open>db:read\<close>
  or \<^verbatim>\<open>db:write\<close> target or the own schema; a context slice needs its own kind, with no wildcard.\<close>

theorem compiled_policy_exact:
  "(CanReadModel (Compile L k caps) v = None \<longleftrightarrow> declares_cap caps ''db:read'' v \<or> declares_cap caps ''db:write'' v \<or> own_schema L k v) \<and>
   (CanWriteModel (Compile L k caps) v = None \<longleftrightarrow> declares_cap caps ''db:write'' v \<or> own_schema L k v) \<and>
   (CanEmit (Compile L k caps) v = None \<longleftrightarrow> declares_cap caps ''event:emit'' v) \<and>
   (CanSubscribe (Compile L k caps) v = None \<longleftrightarrow> declares_cap caps ''event:subscribe'' v) \<and>
   (CanReadConnector (Compile L k caps) v = None \<longleftrightarrow> declares_cap caps ''connector:read'' v) \<and>
   (CanManageDomain (Some (Compile L k caps)) v = None \<longleftrightarrow> declares_cap caps ''domain:manage'' v) \<and>
   (CanQueryCapability (Some (Compile L k caps)) v = None \<longleftrightarrow> declares_cap caps ''capability:query'' v) \<and>
   (CanSendEdgeCommand (Some (Compile L k caps)) d v = None \<longleftrightarrow> TrimSpace d \<noteq> [] \<and> declares_cap caps ''edge:command'' (d @ ''.'' @ v)) \<and>
   (CanReadContext (Some (Compile L k caps)) v = None \<longleftrightarrow>
      v \<in> {''user'', ''roles'', ''org_config''} \<and> (\<exists>cap \<in> set caps. mc_Kind cap = ''ctx:'' @ v))"
  unfolding CanReadModel_def CanWriteModel_def CanEmit_def CanSubscribe_def CanReadConnector_def CanManageDomain_def CanQueryCapability_def
    CanSendEdgeCommand_def CanReadContext_def option.case grant_simps mem_Collect_eq
  by (intro conjI) auto

text \<open>A target that starts with the wildcard grants every name with its suffix, also those of other addons.\<close>

lemma leading_wildcard_grants:
  "CanEmit (Compile L k [\<lparr>mc_Kind = ''event:emit'', mc_Target = ''*.paid''\<rparr>]) ''rival.order.paid'' = None"
proof -
  have "match_one ''*.paid'' ''rival.order.paid''" by code_simp
  then show ?thesis by (simp add: CanEmit_def Compile_fields targets_def matchAny_def)
qed

section \<open>Requests stay on declared hosts\<close>

lemma split_two: "length (split_at_char c s) \<ge> 2 \<Longrightarrow> c \<in> set s"
  by (cases "c \<in> set s") (auto simp: split_at_absent)

lemma host_part_prefix: "\<exists>i. (case k of None \<Rightarrow> p | Some i \<Rightarrow> if Q i then take i p else p) = take i p"
proof (cases k)
  case None
  then show ?thesis by (auto intro: exI[of _ "length p"])
next
  case (Some i)
  then show ?thesis by (cases "Q i") (auto intro: exI[of _ "length p"])
qed

lemma wildcard_domain:
  assumes "IsValidHostPattern (''*.'' @ suf)"
  shows "CHR ''.'' \<in> set suf"
proof -
  define h where "h = (case LastIndexByte (''*.'' @ suf) (CHR '':'') of None \<Rightarrow> ''*.'' @ suf
      | Some i \<Rightarrow> if CHR ''.'' \<notin> set (drop (i + 1) (''*.'' @ suf)) then take i (''*.'' @ suf) else ''*.'' @ suf)"
  have "CHR ''.'' \<in> set (TrimPrefix h ''*.'')"
    using assms split_two unfolding IsValidHostPattern_def h_def[symmetric] by (auto simp: Let_def split: if_splits)
  moreover obtain i where "h = take i (''*.'' @ suf)"
    unfolding h_def by (rule exE[OF host_part_prefix])
  moreover have "set (TrimPrefix (take i (''*.'' @ suf)) ''*.'') \<subseteq> set suf" if "CHR ''.'' \<in> set (TrimPrefix (take i (''*.'' @ suf)) ''*.'')"
  proof (cases i)
    case (Suc j)
    then show ?thesis using that by (cases j) (auto simp: TrimPrefix_def HasPrefix_def dest: in_set_takeD)
  qed (use that in \<open>simp add: TrimPrefix_def HasPrefix_def\<close>)
  ultimately show ?thesis by auto
qed

text \<open>The hosts a pattern stands for: itself, and with a leading wildcard its domain and everything below it.\<close>

definition host_below :: "string \<Rightarrow> string \<Rightarrow> bool" where
  "host_below t h \<longleftrightarrow> t = h \<or> (\<exists>suf. t = ''*.'' @ suf \<and> CHR ''.'' \<in> set suf \<and> (h = suf \<or> (\<exists>l. h = l @ ''.'' @ suf)))"

lemma host_matches_below: "host_matches p h \<longleftrightarrow> IsValidHostPattern p \<and> host_below p h"
proof -
  have "(HasPrefix p ''*.'' \<and> (HasSuffix h (''.'' @ TrimPrefix p ''*.'') \<or> h = TrimPrefix p ''*.'')) \<longleftrightarrow>
      (\<exists>suf. p = ''*.'' @ suf \<and> (h = suf \<or> (\<exists>l. h = l @ ''.'' @ suf)))"
    unfolding HasPrefix_iff HasSuffix_iff by (auto simp del: append_Cons)
  then show ?thesis unfolding host_matches_def host_below_def Let_def using wildcard_domain by blast
qed

lemma HostAllowed_targets:
  "HostAllowed (cp_httpHost (Compile L k caps)) h \<longleftrightarrow>
     (\<exists>c \<in> set caps. mc_Kind c = ''http:fetch'' \<and> ParseConnectorHostRef (mc_Target c) = None \<and> IsValidHostPattern (mc_Target c) \<and>
        host_below (mc_Target c) h)"
  by (auto simp: HostAllowed_def Compile_fields targets_def list_ex_iff host_matches_below)

text \<open>The hosts no addon should reach, told from the text: a literal address that is not public, however it is bracketed; the names
  of the machine itself and of the metadata services; and the spellings of the private networks that are no literal address.\<close>

definition unbracketed :: "string \<Rightarrow> string" where
  "unbracketed h = dropWhile (\<lambda>c. c = CHR ''['' \<or> c = CHR '']'') (rev (dropWhile (\<lambda>c. c = CHR ''['' \<or> c = CHR '']'') (rev h)))"

definition internal_host :: "netlib \<Rightarrow> string \<Rightarrow> bool" where
  "internal_host n h \<longleftrightarrow>
     (\<exists>ip. nl_ParseIP n (unbracketed h) = Some ip \<and> \<not> public_address ip) \<or>
     ToLower (nl_lower n) h \<in> {[], ''localhost'', ''metadata'', ''metadata.google.internal'', ''0.0.0.0'', ''127.0.0.1'', ''169.254.169.254'', ''::1''} \<or>
     (\<exists>r. h = ''10.'' @ r) \<or> (\<exists>r. h = ''192.168.'' @ r) \<or>
     (\<exists>r k. h = ''172.'' @ r \<and> nl_Atoi n (takeWhile (\<lambda>c. c \<noteq> CHR ''.'') r) = Some k \<and> k \<in> {16..31})"

lemma split_first: "split_at_char c s = takeWhile (\<lambda>x. x \<noteq> c) s # tl (split_at_char c s)"
  by (induction s) (auto split: list.splits)

lemma second_label:
  "(case split_at_char (CHR ''.'') (''172.'' @ r) of _ # p # _ \<Rightarrow> Q p | _ \<Rightarrow> False) \<longleftrightarrow> Q (takeWhile (\<lambda>c. c \<noteq> CHR ''.'') r)"
proof -
  have "split_at_char (CHR ''.'') (''172.'' @ r) = ''172'' # split_at_char (CHR ''.'') r" by simp
  moreover obtain ps where "split_at_char (CHR ''.'') r = takeWhile (\<lambda>c. c \<noteq> CHR ''.'') r # ps" using split_first by metis
  ultimately show ?thesis by (simp del: split_at_char.simps)
qed

lemma brackets: "(\<lambda>c. c \<in> set ''[]'') = (\<lambda>c. c = CHR ''['' \<or> c = CHR '']'')"
  by auto

lemma isBlockedEgressHost_internal:
  assumes "parses_bytes n"
  shows "isBlockedEgressHost n h \<longleftrightarrow> internal_host n h"
proof -
  have ip: "(case nl_ParseIP n (unbracketed h) of Some ip \<Rightarrow> IsBlockedIP (Some ip) | None \<Rightarrow> False) \<longleftrightarrow>
      (\<exists>ip. nl_ParseIP n (unbracketed h) = Some ip \<and> \<not> public_address ip)"
    using blocked_parsed[OF assms] by (auto split: option.splits)
  have range: "(HasPrefix h ''172.'' \<and> (case split_at_char (CHR ''.'') h of
        _ # p # _ \<Rightarrow> (case nl_Atoi n p of Some k \<Rightarrow> 16 \<le> k \<and> k \<le> 31 | None \<Rightarrow> False) | _ \<Rightarrow> False)) \<longleftrightarrow>
      (\<exists>r k. h = ''172.'' @ r \<and> nl_Atoi n (takeWhile (\<lambda>c. c \<noteq> CHR ''.'') r) = Some k \<and> k \<in> {16..31})"
  proof (cases "HasPrefix h ''172.''")
    case True
    then obtain r where "h = ''172.'' @ r" unfolding HasPrefix_iff by blast
    then show ?thesis using True second_label[of _ r] by (auto split: option.splits)
  qed (auto simp: HasPrefix_iff)
  show ?thesis
    unfolding isBlockedEgressHost_def internal_host_def Let_def brackets unbracketed_def[symmetric] ip range[symmetric]
    unfolding HasPrefix_iff by auto
qed

text \<open>C25. A request leaves an addon only towards what it declared: the check passes if and only if the address parses, is http or
  https, its host is not an internal one (a literal address in a reserved network, the machine itself, a metadata service or
  a private network spelled out), and the host is either one of the hosts resolved from the organization's connectors or a
  declared host pattern covers it; a wildcard pattern always names a domain of at least two labels.\<close>

theorem fetch_is_confined:
  assumes "parses_bytes n"
  shows "CanFetchHosts n (Compile L k caps) rawURL hosts = None \<longleftrightarrow>
     (\<exists>u. nl_Parse n rawURL = Some u \<and> u_Scheme u \<in> {''https'', ''http''} \<and> \<not> internal_host n (u_Hostname u) \<and>
        (ToLower (nl_lower n) (u_Host u) \<in> set hosts - {[]} \<or>
         (\<exists>c \<in> set caps. mc_Kind c = ''http:fetch'' \<and> ParseConnectorHostRef (mc_Target c) = None \<and> IsValidHostPattern (mc_Target c) \<and>
            host_below (mc_Target c) (u_Host u))))"
  unfolding CanFetchHosts_def CanFetch_def HostAllowed_targets isBlockedEgressHost_internal[OF assms]
  by (auto simp: list_ex_iff split: option.splits)

theorem fetch_is_confined_witness:
  "CanFetchHosts address_lib (Compile id ''shop'' [\<lparr>mc_Kind = ''http:fetch'', mc_Target = ''*.shop.mx''\<rparr>]) ''https://api.shop.mx/v1'' [] = None \<and>
   CanFetchHosts address_lib (Compile id ''shop'' []) ''https://api.shop.mx/v1'' [''api.shop.mx''] = None \<and>
   CanFetchHosts address_lib (Compile id ''shop'' []) ''http://[fe80::1]/'' [''[fe80::1]''] \<noteq> None"
proof -
  let ?u = "\<lparr>u_Scheme = ''https'', u_Host = ''api.shop.mx'', u_Hostname = ''api.shop.mx''\<rparr>"
  let ?v = "\<lparr>u_Scheme = ''http'', u_Host = ''[fe80::1]'', u_Hostname = ''fe80::1''\<rparr>"
  let ?c = "\<lparr>mc_Kind = ''http:fetch'', mc_Target = ''*.shop.mx''\<rparr> :: manifest_Capability"
  have p: "nl_Parse address_lib ''https://api.shop.mx/v1'' = Some ?u" "nl_Parse address_lib ''http://[fe80::1]/'' = Some ?v" by code_simp+
  have "\<not> isBlockedEgressHost address_lib ''api.shop.mx''" "isBlockedEgressHost address_lib ''fe80::1''" by code_simp+
  then have h: "\<not> internal_host address_lib ''api.shop.mx''" "internal_host address_lib ''fe80::1''"
    unfolding isBlockedEgressHost_internal[OF address_lib_bytes] by blast+
  have c: "ParseConnectorHostRef ''*.shop.mx'' = None" "IsValidHostPattern ''*.shop.mx''" "ToLower (nl_lower address_lib) ''api.shop.mx'' = ''api.shop.mx''"
    by code_simp+
  have b: "host_below ''*.shop.mx'' ''api.shop.mx''"
    unfolding host_below_def by (intro disjI2 exI[of _ "''shop.mx''"]) (auto intro!: exI[of _ "''api''"])
  show ?thesis unfolding fetch_is_confined[OF address_lib_bytes] by (simp add: p h c b)
qed

section \<open>The enforcer\<close>

text \<open>In enforce mode the enforcer fails closed: a pass means the addon is registered and its policy grants the request. Shadow mode
  never refuses, and both report the same violations.\<close>

lemma enforcer_fails_closed:
  assumes "en_mode e = ModeEnforce" and "fst (CheckCapability n e k kind t) = None"
  shows "\<exists>lookup caps. en_Lookup e = Some lookup \<and> lookup k = Some caps \<and>
    (kind = ''db:read'' \<and> CanReadModel caps t = None \<or> kind = ''db:write'' \<and> CanWriteModel caps t = None \<or>
     kind = ''http:fetch'' \<and> CanFetch n caps t = None \<or> kind = ''event:emit'' \<and> CanEmit caps t = None \<or>
     kind = ''event:subscribe'' \<and> CanSubscribe caps t = None)"
  using assms by (auto simp: CheckCapability_def violation_def split: option.splits if_splits)

lemma shadow_never_refuses: "en_mode e = ModeShadow \<Longrightarrow> fst (CheckCapability n e k kind t) = None"
  by (simp add: CheckCapability_def split: option.split)

lemma both_modes_report: "snd (CheckCapability n (e\<lparr>en_mode := m\<rparr>) k kind t) = violation n e k kind t"
  by (simp add: CheckCapability_def violation_def split: option.split)

end
