(* ===== verification/Emit_Properties.thy ===== *)
theory Emit_Properties
  imports Emit_Model Cap_Properties
begin

text \<open>
  What the event-emit policy guarantees: with both groups enforced it admits exactly the emissions its rules describe, and events of a
  money domain need a provider of that domain even in warn mode.
\<close>

section \<open>Namespaces\<close>

definition in_space :: "string \<Rightarrow> string \<Rightarrow> bool" where
  "in_space d event \<longleftrightarrow> event = d \<or> (\<exists>r. event = d @ ''.'' @ r)"

text \<open>The longest reserved domain an event lies in, and the installed addon that owns its prefix.\<close>

definition reserved_by :: "'p EventContract list \<Rightarrow> string \<Rightarrow> string \<Rightarrow> bool" where
  "reserved_by contracts event d \<longleftrightarrow>
     d \<in> ec_EmittedBy ` set contracts \<and> d \<noteq> [] \<and> in_space d event \<and>
     (\<forall>c \<in> set contracts. in_space (ec_EmittedBy c) event \<longrightarrow> length (ec_EmittedBy c) \<le> length d)"

definition owned_by :: "string list \<Rightarrow> string \<Rightarrow> string \<Rightarrow> bool" where
  "owned_by installed event k \<longleftrightarrow>
     k \<in> set installed \<and> k \<noteq> [] \<and> (\<exists>r. event = k @ ''.'' @ r) \<and>
     (\<forall>k' \<in> set installed. (\<exists>r. event = k' @ ''.'' @ r) \<longrightarrow> length k' \<le> length k)"

lemma fold_longest:
  assumes "b = fold (\<lambda>x best. if P (f x) \<and> length (f x) > length best then f x else best) xs b0"
  shows "(b = b0 \<or> b \<in> f ` set xs \<and> P b) \<and> length b0 \<le> length b \<and> (\<forall>x \<in> set xs. P (f x) \<longrightarrow> length (f x) \<le> length b)"
  using assms
proof (induction xs arbitrary: b0)
  case (Cons x xs)
  show ?case
  proof (cases "P (f x) \<and> length b0 < length (f x)")
    case True
    then show ?thesis using Cons.IH[of "f x"] Cons.prems by auto
  next
    case False
    then show ?thesis using Cons.IH[of b0] Cons.prems by auto
  qed
qed auto

lemma prefixes_equal: "event = k @ ''.'' @ r \<Longrightarrow> event = k' @ ''.'' @ r' \<Longrightarrow> length k = length k' \<Longrightarrow> k = k'"
  by (metis append_eq_append_conv)

lemma spaces_equal: "in_space k event \<Longrightarrow> in_space k' event \<Longrightarrow> length k = length k' \<Longrightarrow> k = k'"
  unfolding in_space_def by (metis append_eq_append_conv append_Nil2)

lemma space_prefix: "event = d \<or> HasPrefix event (d @ ''.'') \<longleftrightarrow> in_space d event"
  by (simp add: in_space_def HasPrefix_iff)

lemma ReservedEventDomain_longest:
  "ReservedEventDomain contracts event = (d, ok) \<Longrightarrow>
     (if ok then reserved_by contracts event d else \<forall>d'. \<not> reserved_by contracts event d')"
proof -
  assume e: "ReservedEventDomain contracts event = (d, ok)"
  have b: "d = fold (\<lambda>c best. if in_space (ec_EmittedBy c) event \<and> length (ec_EmittedBy c) > length best then ec_EmittedBy c else best) contracts []"
    and ok: "ok \<longleftrightarrow> d \<noteq> []"
    using e unfolding ReservedEventDomain_def better_domain_def Let_def space_prefix by auto
  show ?thesis using fold_longest[OF b] ok unfolding reserved_by_def by (auto split: if_splits)
qed

lemma reserved_unique: "reserved_by contracts event d \<Longrightarrow> reserved_by contracts event d' \<Longrightarrow> d = d'"
  unfolding reserved_by_def by (metis imageE le_antisym spaces_equal)

lemma namespaceOwner_longest:
  "if namespaceOwner event installed = [] then \<forall>k. \<not> owned_by installed event k else owned_by installed event (namespaceOwner event installed)"
proof -
  let ?b = "namespaceOwner event installed"
  have "?b = fold (\<lambda>k best. if (k \<noteq> [] \<and> (\<exists>r. event = k @ ''.'' @ r)) \<and> length k > length best then k else best) installed []"
    unfolding namespaceOwner_def HasPrefix_iff by (rule arg_cong[of _ _ "\<lambda>f. fold f installed []"]) (auto simp: fun_eq_iff)
  from fold_longest[where f = "\<lambda>k. k" and P = "\<lambda>k. k \<noteq> [] \<and> (\<exists>r. event = k @ ''.'' @ r)", OF this] show ?thesis unfolding owned_by_def by (auto split: if_splits)
qed

lemma owner_unique: "owned_by installed event k \<Longrightarrow> owned_by installed event k' \<Longrightarrow> k = k'"
  unfolding owned_by_def by (metis le_antisym prefixes_equal)

lemma owner_iff: "namespaceOwner event installed = k \<and> k \<noteq> [] \<longleftrightarrow> owned_by installed event k"
  using namespaceOwner_longest[of event installed] owner_unique by (metis owned_by_def)

section \<open>The rules\<close>

text \<open>The emissions the four rules admit.\<close>

definition owner_consents :: "EmitFacts \<Rightarrow> string \<Rightarrow> string \<Rightarrow> bool" where
  "owner_consents f emitter event \<longleftrightarrow>
     (\<forall>k. owned_by (ef_Installed f) event k \<longrightarrow>
        k = emitter \<or> (\<exists>g \<in> set (ef_Grants f). eg_Owner g = k \<and> covers (eg_Event g) event \<and> emitter \<in> set (eg_Emitters g)))"

definition emission_allowed :: "'p EventContract list \<Rightarrow> string + EmitFacts \<Rightarrow> string \<Rightarrow> string \<Rightarrow> bool" where
  "emission_allowed contracts facts emitter event \<longleftrightarrow>
     \<not> in_space ''kernel'' event \<and>
     (\<forall>d. reserved_by contracts event d \<longrightarrow> (\<exists>f. facts = Inr f \<and> (\<exists>k \<in> set (ef_Provides f). in_space d k))) \<and>
     ((\<forall>d. \<not> reserved_by contracts event d) \<longrightarrow>
        (case facts of Inl _ \<Rightarrow> \<exists>r. event = emitter @ ''.'' @ r | Inr f \<Rightarrow> owner_consents f emitter event)) \<and>
     (\<forall>f caps. facts = Inr f \<and> ef_Caps f = Some caps \<longrightarrow> (\<exists>t \<in> set (cp_eventPub caps). covers t event))"

lemma kernelSpace_iff: "kernelSpace event \<longleftrightarrow> in_space ''kernel'' event"
  by (simp add: kernelSpace_def in_space_def HasPrefix_iff)

lemma ProvidesDomain_iff: "ProvidesDomain provides d \<longleftrightarrow> (\<exists>k \<in> set provides. in_space d k)"
  by (simp add: ProvidesDomain_def list_ex_iff space_prefix)

lemma granted_iff:
  "granted gs owner event emitter \<longleftrightarrow> (\<exists>g \<in> set gs. eg_Owner g = owner \<and> covers (eg_Event g) event \<and> emitter \<in> set (eg_Emitters g))"
  by (simp add: granted_def list_ex_iff matchAny_def match_one_covers)

lemma declared_none:
  "declared_violations facts event = [] \<longleftrightarrow>
     (\<forall>f caps. facts = Inr f \<and> ef_Caps f = Some caps \<longrightarrow> (\<exists>t \<in> set (cp_eventPub caps). covers t event))"
  by (auto simp: declared_violations_def CanEmit_def matchAny_def list_ex_iff match_one_covers split: sum.splits option.splits)

lemma owner_none:
  "namespaceOwner event (ef_Installed f) = [] \<or> namespaceOwner event (ef_Installed f) = emitter \<or>
     granted (ef_Grants f) (namespaceOwner event (ef_Installed f)) event emitter \<longleftrightarrow> owner_consents f emitter event"
  unfolding owner_consents_def granted_iff using owner_iff[of event "ef_Installed f"] by metis

lemma namespace_none:
  assumes "ep_ReservedDomain p = None"
  shows "namespace_violations contracts p facts emitter event = [] \<longleftrightarrow>
    (\<forall>d. reserved_by contracts event d \<longrightarrow> (\<exists>f. facts = Inr f \<and> (\<exists>k \<in> set (ef_Provides f). in_space d k))) \<and>
    ((\<forall>d. \<not> reserved_by contracts event d) \<longrightarrow>
       (case facts of Inl _ \<Rightarrow> \<exists>r. event = emitter @ ''.'' @ r | Inr f \<Rightarrow> owner_consents f emitter event))"
proof -
  obtain d ok where e: "ReservedEventDomain contracts event = (d, ok)" by fastforce
  note r = ReservedEventDomain_longest[OF e]
  show ?thesis
  proof (cases ok)
    case True
    then have d: "reserved_by contracts event d" using r by simp
    then have "reserved_by contracts event d' \<longleftrightarrow> d' = d" for d' using reserved_unique[of contracts event d d'] by auto
    then show ?thesis using True e assms
      by (auto simp: namespace_violations_def ProvidesDomain_iff split: sum.splits)
  next
    case False
    then have "\<not> reserved_by contracts event d'" for d' using r by simp
    then show ?thesis using False e assms owner_none
      by (auto simp: namespace_violations_def HasPrefix_iff Let_def split: sum.splits)
  qed
qed

lemma found_none:
  assumes "ep_ReservedDomain p = None"
  shows "found_violations contracts p org emitter event = [] \<longleftrightarrow> emission_allowed contracts (load_facts p org emitter) emitter event"
  using namespace_none[OF assms, of contracts "load_facts p org emitter" emitter event] declared_none[of "load_facts p org emitter" event]
  by (auto simp: found_violations_def emission_allowed_def kernelSpace_iff Let_def)

lemma map_filter_enforced:
  assumes "\<forall>v \<in> set vs. violation_mode p v = EmitModeEnforce"
  shows "find ev_Denied (List.map_filter (reported p) vs) = None \<longleftrightarrow> vs = []"
proof (cases vs)
  case (Cons v vs')
  then have "violation_mode p v = EmitModeEnforce" using assms by simp
  then show ?thesis using Cons by (simp add: List.map_filter_simps reported_def Let_def)
qed (simp add: List.map_filter_simps)

text \<open>C27. With both groups enforced the policy admits exactly the emissions of its rules: no guest publishes in the kernel's namespace, an
  event of a reserved domain needs a capability of that domain, an event in another addon's namespace needs that owner's
  declaration, and the emitter must have declared the event; when the facts cannot be loaded only its own namespace is open.\<close>

theorem enforced_emission_exact:
  assumes "ep_reserved p = EmitModeEnforce" and "ep_declared p = EmitModeEnforce" and "ep_ReservedDomain p = None"
  shows "snd (Check_emit contracts (Some p) org emitter event) = None \<longleftrightarrow> emission_allowed contracts (load_facts p org emitter) emitter event"
proof -
  have "violation_mode p v = EmitModeEnforce" for v using assms by (simp add: violation_mode_def Mode_of_def)
  then show ?thesis
    using map_filter_enforced[of "found_violations contracts p org emitter event" p] found_none[OF assms(3), of contracts org emitter event] assms
    by (simp add: Check_emit_def Let_def)
qed

definition sample_contracts :: "unit EventContract list" where
  "sample_contracts = map (\<lambda>(n, d). \<lparr>ec_Name = n, ec_EmittedBy = d, ec_Payload = Some ()\<rparr>) commerceEvents"

definition sample_facts :: "string list \<Rightarrow> EmitFacts" where
  "sample_facts provides = \<lparr>ef_Installed = [''shop'', ''stripe''], ef_Provides = provides, ef_Grants = [], ef_Caps = None\<rparr>"

definition sample_policy :: "EmitMode \<Rightarrow> string list \<Rightarrow> EmitPolicy" where
  "sample_policy m provides = \<lparr>ep_Source = Some (\<lambda>org emitter. Inr (sample_facts provides)), ep_ReservedDomain = None,
     ep_EnforcedDomains = None, ep_reserved = m, ep_declared = m\<rparr>"

lemma sample_policy_fields [simp]:
  "ep_ReservedDomain (sample_policy m ps) = None" "ep_EnforcedDomains (sample_policy m ps) = None"
  "ep_reserved (sample_policy m ps) = m" "ep_declared (sample_policy m ps) = m"
  by (simp_all add: sample_policy_def)

theorem enforced_emission_exact_witness:
  "emission_allowed sample_contracts (load_facts (sample_policy EmitModeEnforce [''commerce.payments.confirm'']) ''o'' ''stripe'') ''stripe'' ''commerce.payments.confirmed'' \<and>
   \<not> emission_allowed sample_contracts (load_facts (sample_policy EmitModeEnforce []) ''o'' ''evil'') ''evil'' ''shop.paid''"
proof -
  have "snd (Check_emit sample_contracts (Some (sample_policy EmitModeEnforce [''commerce.payments.confirm''])) ''o'' ''stripe'' ''commerce.payments.confirmed'') = None"
    "snd (Check_emit sample_contracts (Some (sample_policy EmitModeEnforce [])) ''o'' ''evil'' ''shop.paid'') \<noteq> None" by code_simp+
  then show ?thesis
    using enforced_emission_exact[of "sample_policy EmitModeEnforce [''commerce.payments.confirm'']" sample_contracts "''o''" "''stripe''" "''commerce.payments.confirmed''"]
      enforced_emission_exact[of "sample_policy EmitModeEnforce []" sample_contracts "''o''" "''evil''" "''shop.paid''"]
    by simp
qed

section \<open>Money domains\<close>

lemma find_denied: "find ev_Denied (List.map_filter (reported p) vs) = None \<Longrightarrow> v \<in> set vs \<Longrightarrow> violation_mode p v \<noteq> EmitModeEnforce"
  by (induction vs) (auto simp: List.map_filter_simps reported_def Let_def split: if_splits)

text \<open>C28. An event of a money domain is published only by a provider of that domain, also while the policy only warns: unless the reserved
  group is switched off, a check that does not refuse an event reserved by \<^verbatim>\<open>commerce.payments\<close> has loaded the facts of the
  organization and found a capability of that domain among those the emitter provides.\<close>

theorem payment_events_need_provider:
  assumes "ep_reserved p \<noteq> EmitModeOff" and "ep_ReservedDomain p = None" and "ep_EnforcedDomains p = None"
    and "reserved_by contracts event ''commerce.payments''" and "snd (Check_emit contracts (Some p) org emitter event) = None"
  shows "\<exists>f. load_facts p org emitter = Inr f \<and> (\<exists>k \<in> set (ef_Provides f). in_space ''commerce.payments'' k)"
proof (rule ccontr)
  assume no: "\<not> ?thesis"
  let ?d = "''commerce.payments''" and ?facts = "load_facts p org emitter"
  obtain d ok where e: "ReservedEventDomain contracts event = (d, ok)" by fastforce
  then have "d = ?d" "ok" using ReservedEventDomain_longest[OF e] assms(4) reserved_unique[of contracts event d ?d] by (auto split: if_splits)
  then obtain rule reason where r: "(rule, ?d, reason) \<in> set (namespace_violations contracts p ?facts emitter event)"
    and k: "rule = EmitRuleContract \<or> rule = EmitRuleUnverified"
    using no e assms(2) by (cases ?facts) (auto simp: namespace_violations_def ProvidesDomain_iff)
  have "\<not> kernelSpace event" using assms(4) by (auto simp: kernelSpace_iff reserved_by_def in_space_def)
  then have "new_violation org emitter event rule ?d reason \<in> set (found_violations contracts p org emitter event)"
    using r by (force simp: found_violations_def Let_def)
  moreover have "violation_mode p (new_violation org emitter event rule ?d reason) = EmitModeEnforce"
    using k assms(1,3) by (auto simp: violation_mode_def new_violation_def Mode_of_def Group_def enforcedDomain_def DefaultEnforcedDomains_def)
  ultimately show False using assms(1,5) find_denied by (fastforce simp: Check_emit_def Let_def)
qed

theorem payment_events_need_provider_witness:
  "reserved_by sample_contracts ''commerce.payments.confirmed'' ''commerce.payments'' \<and>
   (\<exists>f. load_facts (sample_policy EmitModeWarn [''commerce.payments.confirm'']) ''o'' ''stripe'' = Inr f \<and>
      (\<exists>k \<in> set (ef_Provides f). in_space ''commerce.payments'' k))"
proof -
  have "ReservedEventDomain sample_contracts ''commerce.payments.confirmed'' = (''commerce.payments'', True)" by code_simp
  then have r: "reserved_by sample_contracts ''commerce.payments.confirmed'' ''commerce.payments''"
    using ReservedEventDomain_longest by fastforce
  have "snd (Check_emit sample_contracts (Some (sample_policy EmitModeWarn [''commerce.payments.confirm''])) ''o'' ''stripe'' ''commerce.payments.confirmed'') = None"
    by code_simp
  then show ?thesis
    using payment_events_need_provider[OF _ _ _ r, of "sample_policy EmitModeWarn [''commerce.payments.confirm'']" "''o''" "''stripe''"] r
    by simp
qed

text \<open>Without a source of facts the policy does not stop at the kernel's namespace: events outside the emitter's own namespace are
  reported as unverifiable, and those of a money domain are refused.\<close>

lemma no_source_still_judges:
  assumes "ep_Source p = None" and "ep_ReservedDomain p = None" and "ep_reserved p = EmitModeEnforce"
    and "\<not> in_space ''kernel'' event" and "\<nexists>r. event = emitter @ ''.'' @ r"
  shows "snd (Check_emit contracts (Some p) org emitter event) \<noteq> None"
proof -
  obtain d ok where e: "ReservedEventDomain contracts event = (d, ok)" by fastforce
  obtain owner reason where "found_violations contracts p org emitter event = [new_violation org emitter event EmitRuleUnverified owner reason]"
    using assms(1,2,4,5) e by (cases ok)
      (auto simp: found_violations_def load_facts_def namespace_violations_def declared_violations_def kernelSpace_iff HasPrefix_iff Let_def)
  moreover have "violation_mode p (new_violation org emitter event EmitRuleUnverified owner reason) = EmitModeEnforce"
    using assms(3) by (simp add: violation_mode_def Mode_of_def Group_def new_violation_def)
  ultimately show ?thesis using assms(3) by (simp add: Check_emit_def Let_def List.map_filter_simps reported_def)
qed

section \<open>Event contracts and connector access\<close>

definition contracts_ok :: "'p EventContract list \<Rightarrow> bool" where
  "contracts_ok cs \<longleftrightarrow> distinct (map ec_Name cs) \<and>
     (\<forall>c \<in> set cs. ValidKey (ec_Name c) \<and> ValidKey (ec_EmittedBy c) \<and> (\<exists>r. ec_Name c = ec_EmittedBy c @ ''.'' @ r))"

lemma RegisterEvent_ok: "contracts_ok cs \<Longrightarrow> contracts_ok (snd (RegisterEvent chk e cs))"
  by (auto simp: RegisterEvent_def contracts_ok_def HasPrefix_iff list_ex_iff split: option.splits)

lemma registered_is_reserved:
  assumes "contracts_ok cs" and "LookupEvent cs name = Some c"
  shows "\<exists>d. reserved_by cs name d \<and> length (ec_EmittedBy c) \<le> length d"
proof -
  have c: "c \<in> set cs" "ec_Name c = name" using assms(2) by (auto simp: LookupEvent_def find_Some_iff in_set_conv_nth)
  then have s: "in_space (ec_EmittedBy c) name" "ec_EmittedBy c \<noteq> []"
    using assms(1) by (auto simp: contracts_ok_def in_space_def ValidKey_def)
  obtain d ok where e: "ReservedEventDomain cs name = (d, ok)" by fastforce
  have b: "d = fold (\<lambda>c best. if in_space (ec_EmittedBy c) name \<and> length (ec_EmittedBy c) > length best then ec_EmittedBy c else best) cs []"
    and ok: "ok \<longleftrightarrow> d \<noteq> []"
    using e unfolding ReservedEventDomain_def better_domain_def Let_def space_prefix by auto
  have "length (ec_EmittedBy c) \<le> length d" using fold_longest[OF b] c(1) s(1) by blast
  then have "ok" using ok s(2) by auto
  then show ?thesis using ReservedEventDomain_longest[OF e] \<open>length (ec_EmittedBy c) \<le> length d\<close> by auto
qed

lemma access_granted:
  "set (ca_Granted (fold access_one caps a)) =
     set (ca_Granted a) \<union> {t. t \<notin> {''*'', []} \<and> (\<exists>c \<in> set caps. mc_Kind c \<in> {''connector:read'', ''secrets:read''} \<and> mc_Target c = t)}"
  by (induction caps arbitrary: a) (auto simp: access_one_def)

text \<open>An addon reads a connector's credentials only under a declaration that names it: the bare wildcard and the empty target are refused.\<close>

lemma connector_access_is_named:
  "CanReadConnector (fst (CompileForAddon L k caps)) v = None \<longleftrightarrow>
     (\<exists>c \<in> set caps. mc_Kind c \<in> {''connector:read'', ''secrets:read''} \<and> mc_Target c \<notin> {''*'', []} \<and> covers (mc_Target c) v)"
proof -
  have "targets ''connector:read'' (filter (\<lambda>c. mc_Kind c \<noteq> ''connector:read'' \<and> mc_Kind c \<noteq> ''secrets:read'') caps
      @ map (\<lambda>key. \<lparr>mc_Kind = ''connector:read'', mc_Target = key\<rparr>) g) = g" for g
    by (auto simp: targets_def filter_map comp_def filter_empty_conv)
  then have "cp_connRead (fst (CompileForAddon L k caps)) = ca_Granted (ConnectorAccessFor caps)"
    by (simp add: CompileForAddon_def Let_def Compile_fields)
  then have "CanReadConnector (fst (CompileForAddon L k caps)) v = None \<longleftrightarrow> (\<exists>t \<in> set (ca_Granted (ConnectorAccessFor caps)). covers t v)"
    by (simp add: CanReadConnector_def matchAny_def list_ex_iff match_one_covers)
  then show ?thesis
    using access_granted[of caps "\<lparr>ca_Granted = [], ca_Refused = []\<rparr>"] unfolding ConnectorAccessFor_def by auto
qed

end
