(* ===== verification/Sign_Model.thy ===== *)
theory Sign_Model
  imports Go_Strings Guarded
begin

text \<open>
  Signed webhooks and bundles: the HMAC signer and verifier (\<^verbatim>\<open>src/security/hmac.go\<close>), the cache of nonces (\<^verbatim>\<open>nonce.go\<close>), the
  verification of a bundle's signature (\<^verbatim>\<open>signature.go\<close>) and the dispatcher of outgoing webhooks (\<^verbatim>\<open>webhookdispatch.go\<close>). The
  cryptographic functions and the parser of URLs are arguments. Times are nanoseconds since the Unix epoch; arithmetic on a
  \<^verbatim>\<open>time.Duration\<close> saturates or wraps as in Go.
\<close>

record crypto =
  cy_sha256 :: "string \<Rightarrow> string"
  cy_hmac :: "string \<Rightarrow> string \<Rightarrow> string"
  cy_ed25519 :: "string \<Rightarrow> string \<Rightarrow> string \<Rightarrow> bool"

section \<open>Texts and times of the standard library\<close>

text \<open>\<^verbatim>\<open>hex.DecodeString\<close>; \<open>hex_encode\<close> is its inverse.\<close>

definition hex_val :: "char \<Rightarrow> nat option" where
  "hex_val c =
     (let n = of_char c :: nat in
      if 48 \<le> n \<and> n \<le> 57 then Some (n - 48)
      else if 97 \<le> n \<and> n \<le> 102 then Some (n - 87)
      else if 65 \<le> n \<and> n \<le> 70 then Some (n - 55) else None)"

fun DecodeString :: "string \<Rightarrow> string option" where
  "DecodeString [] = Some []"
| "DecodeString [_] = None"
| "DecodeString (a # b # s) =
     (case (hex_val a, hex_val b, DecodeString s) of
        (Some x, Some y, Some r) \<Rightarrow> Some (char_of (16 * x + y) # r)
      | _ \<Rightarrow> None)"

text \<open>\<^verbatim>\<open>strconv.ParseInt\<close> in base ten with 64 bits; both of its errors are \<open>None\<close>.\<close>

definition ParseInt :: "string \<Rightarrow> int option" where
  "ParseInt s =
     (let (neg, t) = (case s of CHR ''-'' # t \<Rightarrow> (True, t) | CHR ''+'' # t \<Rightarrow> (False, t) | _ \<Rightarrow> (False, s));
          n = (if neg then - int (digits_val t) else int (digits_val t))
      in if t = [] \<or> \<not> list_all is_digit t then None
         else if - (2 ^ 63) \<le> n \<and> n < 2 ^ 63 then Some n else None)"

text \<open>\<^verbatim>\<open>time.Unix(ts, 0)\<close> keeps seconds since year one in 64 bits; \<^verbatim>\<open>Sub\<close> saturates.\<close>

definition time_Unix :: "int \<Rightarrow> int" where
  "time_Unix ts = (wrap64 (ts + 62135596800) - 62135596800) * 1000000000"

definition time_Sub :: "int \<Rightarrow> int \<Rightarrow> int" where
  "time_Sub t u = max (- (2 ^ 63)) (min (2 ^ 63 - 1) (t - u))"

section \<open>The signer\<close>

record sig_headers =
  sh_Timestamp :: string
  sh_Signature :: string
  sh_Nonce :: "string option"

definition sign_payload :: "crypto \<Rightarrow> string \<Rightarrow> string \<Rightarrow> string \<Rightarrow> string \<Rightarrow> string \<Rightarrow> string" where
  "sign_payload cy ts method path body nonce =
     (let bodyHash = hex_encode (cy_sha256 cy body) in
      if nonce = [] then ts @ ''.'' @ method @ ''.'' @ path @ ''.'' @ bodyHash
      else ts @ ''.'' @ method @ ''.'' @ path @ ''.'' @ nonce @ ''.'' @ bodyHash)"

definition expected_signature :: "crypto \<Rightarrow> string \<Rightarrow> string \<Rightarrow> string" where
  "expected_signature cy secret payload = ''sha256='' @ hex_encode (cy_hmac cy secret payload)"

definition SignWithNonce :: "crypto \<Rightarrow> string \<Rightarrow> int \<Rightarrow> string \<Rightarrow> string \<Rightarrow> string \<Rightarrow> string \<Rightarrow> sig_headers" where
  "SignWithNonce cy secret now method path body nonce =
     (let ts = Itoa (now div 1000000000);
          payload = sign_payload cy ts method path body nonce
      in \<lparr>sh_Timestamp = ts, sh_Signature = expected_signature cy secret payload, sh_Nonce = (if nonce \<noteq> [] then Some nonce else None)\<rparr>)"

definition Sign :: "crypto \<Rightarrow> string \<Rightarrow> int \<Rightarrow> string \<Rightarrow> string \<Rightarrow> string \<Rightarrow> sig_headers" where
  "Sign cy secret now method path body = SignWithNonce cy secret now method path body []"

datatype verify_error = BadTimestamp | OutsideWindow | SignatureMismatch

text \<open>The distance of the timestamp from the clock, as the code computes it.\<close>

definition skew_of :: "int \<Rightarrow> int \<Rightarrow> int" where
  "skew_of now ts = (let skew = time_Sub now (time_Unix ts) in if skew < 0 then wrap64 (- skew) else skew)"

definition VerifyWithNonce :: "crypto \<Rightarrow> string \<Rightarrow> int \<Rightarrow> string \<Rightarrow> string \<Rightarrow> string \<Rightarrow> string \<Rightarrow> string \<Rightarrow> string \<Rightarrow> int \<Rightarrow> verify_error option" where
  "VerifyWithNonce cy secret now method path body timestamp nonce signature maxSkew =
     (case ParseInt timestamp of
        None \<Rightarrow> Some BadTimestamp
      | Some ts \<Rightarrow>
          if skew_of now ts > maxSkew then Some OutsideWindow
          else if expected_signature cy secret (sign_payload cy timestamp method path body nonce) \<noteq> signature then Some SignatureMismatch
          else None)"

definition Verify :: "crypto \<Rightarrow> string \<Rightarrow> int \<Rightarrow> string \<Rightarrow> string \<Rightarrow> string \<Rightarrow> string \<Rightarrow> string \<Rightarrow> int \<Rightarrow> verify_error option" where
  "Verify cy secret now method path body timestamp signature maxSkew =
     VerifyWithNonce cy secret now method path body timestamp [] signature maxSkew"

section \<open>The nonce cache\<close>

datatype nonce_error = errNonceReplay | errNonceRequired

type_synonym seen = "string \<rightharpoonup> int"

text \<open>\<^verbatim>\<open>LoadOrStore\<close> of the map: the value that was there, if any.\<close>

definition LoadOrStore :: "string \<Rightarrow> int \<Rightarrow> seen \<Rightarrow> int option \<times> seen" where
  "LoadOrStore k v m = (case m k of Some prev \<Rightarrow> (Some prev, m) | None \<Rightarrow> (None, m(k \<mapsto> v)))"

definition CheckAndRecord :: "int \<Rightarrow> string \<Rightarrow> int \<Rightarrow> seen \<Rightarrow> nonce_error option \<times> seen" where
  "CheckAndRecord ttl nonce now m =
     (if nonce = [] then (Some errNonceRequired, m)
      else case LoadOrStore nonce (now + ttl) m of
             (Some expiry, m') \<Rightarrow> if now < expiry then (Some errNonceReplay, m') else (None, m'(nonce \<mapsto> now + ttl))
           | (None, m') \<Rightarrow> (None, m'))"

text \<open>One visit of the sweeper.\<close>

definition sweep_entry :: "int \<Rightarrow> string \<Rightarrow> seen \<Rightarrow> seen" where
  "sweep_entry now k m = (case m k of Some expiry \<Rightarrow> if now > expiry then m(k := None) else m | None \<Rightarrow> m)"

section \<open>Bundle signatures\<close>

record Signature =
  sg_Algorithm :: string
  sg_Digest :: string
  sg_Value :: string
  sg_Checksums :: "(string \<times> string) list"

record Bundle =
  b_Signature :: "Signature option"
  b_Raw :: string
  b_EntryDigests :: "(string \<times> string) list"

datatype bundle_error = NilBundle | ErrUnsignedBundle | EmptyRaw | NoKeys | ErrUnsupportedAlgorithm string | NotHex | BadSize nat | DigestDrift string string
  | ErrSignatureMismatch | EmptyDigests | MissingEntry string | WrongEntry string string string | UndeclaredEntry string | KeyNotHex | KeySize nat

text \<open>\<^verbatim>\<open>strings.EqualFold\<close> against a hexadecimal text, on which folding only concerns ASCII letters.\<close>

definition EqualFold :: "string \<Rightarrow> string \<Rightarrow> bool" where
  "EqualFold s t \<longleftrightarrow> map lower_char s = map lower_char t"

definition shortDigest :: "string \<Rightarrow> string" where
  "shortDigest s0 = (let s = TrimSpace s0 in if length s < 12 then s else take 12 s)"

fun check_declared :: "(string \<times> string) list \<Rightarrow> (string \<times> string) list \<Rightarrow> bundle_error option" where
  "check_declared digests [] = None"
| "check_declared digests ((name, expected) # rest) =
     (if name = ''manifest.json'' then check_declared digests rest
      else case map_of digests name of
             None \<Rightarrow> Some (MissingEntry name)
           | Some actual \<Rightarrow> if \<not> EqualFold (TrimSpace expected) actual then Some (WrongEntry name (shortDigest expected) (shortDigest actual)) else check_declared digests rest)"

fun check_present :: "(string \<times> string) list \<Rightarrow> (string \<times> string) list \<Rightarrow> bundle_error option" where
  "check_present want [] = None"
| "check_present want ((name, _) # rest) =
     (if name = ''manifest.json'' then check_present want rest
      else if map_of want name = None then Some (UndeclaredEntry name) else check_present want rest)"

definition verifyEntryChecksums :: "Bundle \<Rightarrow> (string \<times> string) list \<Rightarrow> bundle_error option" where
  "verifyEntryChecksums b want =
     (if b_EntryDigests b = [] then Some EmptyDigests
      else case check_declared (b_EntryDigests b) want of
             Some err \<Rightarrow> Some err
           | None \<Rightarrow> check_present want (b_EntryDigests b))"

definition VerifyBundle :: "crypto \<Rightarrow> (string \<Rightarrow> string) \<Rightarrow> Bundle option \<Rightarrow> string list \<Rightarrow> bundle_error option" where
  "VerifyBundle cy L b0 trustedKeys =
     (case b0 of
        None \<Rightarrow> Some NilBundle
      | Some b \<Rightarrow>
          (case b_Signature b of
             None \<Rightarrow> Some ErrUnsignedBundle
           | Some sig \<Rightarrow>
               if TrimSpace (sg_Value sig) = [] then Some ErrUnsignedBundle
               else if b_Raw b = [] then Some EmptyRaw
               else if trustedKeys = [] then Some NoKeys
               else let alg0 = ToLower L (TrimSpace (sg_Algorithm sig)); alg = (if alg0 = [] then ''ed25519'' else alg0)
                    in if alg \<noteq> ''ed25519'' then Some (ErrUnsupportedAlgorithm (sg_Algorithm sig))
                       else case DecodeString (TrimSpace (sg_Value sig)) of
                              None \<Rightarrow> Some NotHex
                            | Some sigBytes \<Rightarrow>
                                if length sigBytes \<noteq> 64 then Some (BadSize (length sigBytes))
                                else let sum = cy_sha256 cy (b_Raw b); digestHex = hex_encode sum; want = TrimSpace (sg_Digest sig)
                                     in if want \<noteq> [] \<and> want \<noteq> digestHex then
                                          Some (DigestDrift (if length want < 12 then want else take 12 want) (if length digestHex < 12 then digestHex else take 12 digestHex))
                                        else if \<not> list_ex (\<lambda>pub. length pub = 32 \<and> cy_ed25519 cy pub sum sigBytes) trustedKeys then Some ErrSignatureMismatch
                                        else if sg_Checksums sig \<noteq> [] then verifyEntryChecksums b (sg_Checksums sig)
                                        else None))"

fun parse_keys :: "string list \<Rightarrow> bundle_error + string list" where
  "parse_keys [] = Inr []"
| "parse_keys (p0 # ps) =
     (let p = TrimSpace p0 in
      if p = [] then parse_keys ps
      else case DecodeString p of
             None \<Rightarrow> Inl KeyNotHex
           | Some raw \<Rightarrow>
               if length raw \<noteq> 32 then Inl (KeySize (length raw))
               else (case parse_keys ps of Inl err \<Rightarrow> Inl err | Inr ks \<Rightarrow> Inr (raw # ks)))"

definition ParseHexPublicKeys :: "string \<Rightarrow> bundle_error + string list" where
  "ParseHexPublicKeys csv = (if TrimSpace csv = [] then Inr [] else parse_keys (split_at_char (CHR '','') csv))"

section \<open>Outgoing webhooks\<close>

text \<open>\<^verbatim>\<open>http.Header.Set\<close>: the key in canonical form, which leaves a key with an invalid byte as it is.\<close>

definition token_chars :: string where
  "token_chars = ''abcdefghijklmnopqrstuvwxyzABCDEFGHIJKLMNOPQRSTUVWXYZ0123456789!#$%&*+-.^_|~'' @ [CHR 0x27, CHR 0x60]"

fun canonical :: "bool \<Rightarrow> string \<Rightarrow> string" where
  "canonical up [] = []"
| "canonical up (c # cs) =
     (if up \<and> 97 \<le> (of_char c :: nat) \<and> of_char c \<le> (122 :: nat) then upper_char c
      else if \<not> up \<and> 65 \<le> (of_char c :: nat) \<and> of_char c \<le> (90 :: nat) then lower_char c else c) # canonical (c = CHR ''-'') cs"

definition CanonicalHeaderKey :: "string \<Rightarrow> string" where
  "CanonicalHeaderKey k = (if list_all (\<lambda>c. c \<in> set token_chars) k then canonical True k else k)"

type_synonym header = "string \<rightharpoonup> string"

definition Header_Set :: "string \<Rightarrow> string \<Rightarrow> header \<Rightarrow> header" where
  "Header_Set k v h = h(CanonicalHeaderKey k \<mapsto> v)"

record request =
  rq_method :: string
  rq_url :: string
  rq_header :: header
  rq_body :: string

text \<open>The path and the raw query \<^verbatim>\<open>url.Parse\<close> finds, \<open>None\<close> on an error.\<close>

definition signedPath :: "(string \<Rightarrow> (string \<times> string) option) \<Rightarrow> string \<Rightarrow> string" where
  "signedPath parse rawURL =
     (case parse rawURL of
        None \<Rightarrow> rawURL
      | Some (path, query) \<Rightarrow> (let p = (if path = [] then ''/'' else path) in if query \<noteq> [] then p @ ''?'' @ query else p))"

definition WithHostContext :: "string \<Rightarrow> string \<Rightarrow> (string \<times> string) list \<Rightarrow> (string \<times> string) list" where
  "WithHostContext host tenant extras =
     filter (\<lambda>(k, _). k \<notin> fst ` set extras)
       ((if host \<noteq> [] then [(''X-Metacore-Host'', host)] else []) @ (if tenant \<noteq> [] then [(''X-Metacore-Tenant'', tenant)] else [])) @ extras"

definition add_signature :: "sig_headers \<Rightarrow> header \<Rightarrow> header" where
  "add_signature s h =
     (let h1 = Header_Set ''X-Metacore-Signature'' (sh_Signature s) (Header_Set ''X-Metacore-Timestamp'' (sh_Timestamp s) h)
      in case sh_Nonce s of None \<Rightarrow> h1 | Some n \<Rightarrow> Header_Set ''X-Metacore-Nonce'' n h1)"

datatype 'e dispatch_error = BuildRequest | SignerLookupFailed 'e | SendFailed 'e

text \<open>The request \<^verbatim>\<open>Dispatch\<close> builds and what sending it returns. \<open>lookup\<close> finds the installation's secret: \<open>Inr None\<close> sends it unsigned;
  \<open>valid\<close> says whether a request can be built for the method and URL, \<open>nonce\<close> is the fresh UUID.\<close>

definition Dispatch :: "crypto \<Rightarrow> (string \<Rightarrow> (string \<times> string) option) \<Rightarrow> (string \<Rightarrow> string \<Rightarrow> bool) \<Rightarrow> (string \<Rightarrow> 'e + string option) option \<Rightarrow>
    (request \<Rightarrow> 'e + 'r) \<Rightarrow> int \<Rightarrow> string \<Rightarrow> string \<Rightarrow> (string \<times> string) list \<Rightarrow> string \<Rightarrow> string \<Rightarrow> string \<Rightarrow> string \<Rightarrow> 'e dispatch_error + request \<times> 'r" where
  "Dispatch cy parse valid lookup send now nonce event hostctx installationID rawURL method0 body =
     (let method = (if method0 = [] then ''POST'' else method0) in
      if \<not> valid method rawURL then Inl BuildRequest
      else let h0 = Header_Set ''X-Metacore-Installation-ID'' installationID (Header_Set ''Content-Type'' ''application/json'' Map.empty);
               h1 = (if event \<noteq> [] then Header_Set ''X-Metacore-Event'' event h0 else h0);
               h2 = fold (\<lambda>(k, v) h. if v = [] then h else Header_Set k v h) hostctx h1;
               req = (\<lambda>h. \<lparr>rq_method = method, rq_url = rawURL, rq_header = h, rq_body = body\<rparr>);
               go = (\<lambda>h. case send (req h) of Inl e \<Rightarrow> Inl (SendFailed e) | Inr r \<Rightarrow> Inr (req h, r))
           in case lookup of
                None \<Rightarrow> go h2
              | Some lk \<Rightarrow>
                  (case lk installationID of
                     Inl e \<Rightarrow> Inl (SignerLookupFailed e)
                   | Inr None \<Rightarrow> go h2
                   | Inr (Some secret) \<Rightarrow> go (add_signature (SignWithNonce cy secret now method (signedPath parse rawURL) body nonce) h2)))"

definition DispatchAndRead :: "('e dispatch_error + request \<times> nat \<times> ('e + string)) \<Rightarrow> 'e dispatch_error + nat \<times> ('e + string)" where
  "DispatchAndRead d = (case d of Inl e \<Rightarrow> Inl e | Inr (_, status, body) \<Rightarrow> Inr (status, body))"

end
