(* ===== verification/Sign_Properties.thy ===== *)
theory Sign_Properties
  imports Sign_Model
begin

text \<open>
  What signatures guarantee: a signed request verifies inside the window and only there, the signed text determines the request, and
  a receiver that keeps nonces long enough accepts a request once; and where the code falls short of it.
\<close>

section \<open>Hexadecimal and decimal texts\<close>

lemma hex_val_digit: "n < 16 \<Longrightarrow> hex_val (hex_digit n) = Some n"
  by (auto simp: hex_val_def hex_digit_def digit_char_def Let_def)

lemma hex_round_trip [simp]: "DecodeString (hex_encode s) = Some s"
proof (induction s)
  case (Cons c s)
  have "(of_char c :: nat) div 16 < 16" by (rule less_mult_imp_div_less) (use nat_of_char_less_256 in simp)
  then show ?case using Cons by (simp add: hex_encode_def hex_val_digit)
qed (simp add: hex_encode_def)

lemma hex_encode_inj: "hex_encode s = hex_encode t \<Longrightarrow> s = t"
  by (metis hex_round_trip option.inject)

lemma hex_digit_dot: "n < 16 \<Longrightarrow> hex_digit n \<noteq> CHR ''.''"
  using hex_val_digit[of n] by (auto simp: hex_val_def Let_def)

lemma hex_encode_dotless: "CHR ''.'' \<notin> set (hex_encode s)"
proof
  assume "CHR ''.'' \<in> set (hex_encode s)"
  then obtain c where "CHR ''.'' = hex_digit (of_char c div 16) \<or> CHR ''.'' = hex_digit (of_char c mod 16)"
    by (auto simp: hex_encode_def)
  moreover have "(of_char c :: nat) div 16 < 16" by (rule less_mult_imp_div_less) (use nat_of_char_less_256 in simp)
  ultimately show False using hex_digit_dot[of "of_char c div 16"] hex_digit_dot[of "of_char c mod 16"] by auto
qed

lemma digit_not_sign: "is_digit c \<Longrightarrow> c \<noteq> CHR ''-'' \<and> c \<noteq> CHR ''+'' \<and> c \<noteq> CHR ''.''"
  by (auto simp: is_digit_def)

lemma digits_of_head: "\<exists>c cs. digits_of n = c # cs \<and> is_digit c"
  by (metis digits_of_digits digits_of_nonempty list.exhaust list.set_intros(1))

lemma ParseInt_Itoa:
  assumes "- (2 ^ 63) \<le> n" and "n < 2 ^ 63"
  shows "ParseInt (Itoa n) = Some n"
proof -
  have d: "list_all is_digit (digits_of k)" for k using digits_of_digits by (auto simp: list_all_iff)
  show ?thesis
  proof (cases "n < 0")
    case True
    then show ?thesis using assms d[of "nat (- n)"] by (simp add: ParseInt_def Itoa_def)
  next
    case False
    obtain c cs where c: "digits_of (nat n) = c # cs" "is_digit c" using digits_of_head by blast
    then have "(case digits_of (nat n) of CHR ''-'' # t \<Rightarrow> (True, t) | CHR ''+'' # t \<Rightarrow> (False, t) | _ \<Rightarrow> (False, digits_of (nat n))) = (False, digits_of (nat n))"
      using digit_not_sign[OF c(2)] by (auto split: list.splits char.splits bool.splits)
    then show ?thesis using False assms d[of "nat n"] by (simp add: ParseInt_def Itoa_def)
  qed
qed

lemma Itoa_dotless: "CHR ''.'' \<notin> set (Itoa n)"
  using digits_of_digits[of "CHR ''.''"] by (auto simp: Itoa_def is_digit_def)

section \<open>The window\<close>

text \<open>Between 1970 and 2262 the code's distance is the distance.\<close>

lemma skew_is_distance:
  assumes "0 \<le> now" "now < 2 ^ 63" "0 \<le> ts" "ts * 1000000000 < 2 ^ 63"
  shows "skew_of now ts = \<bar>now - ts * 1000000000\<bar>"
proof -
  have u: "time_Unix ts = ts * 1000000000" using assms by (simp add: time_Unix_def wrap64_def)
  have "\<bar>now - ts * 1000000000\<bar> < 2 ^ 63" using assms by linarith
  then show ?thesis by (simp add: skew_of_def time_Sub_def u Let_def wrap64_def)
qed

text \<open>For clocks between 1970 and 2262 the headers a signer attaches are accepted if and only if the verifier's clock is within the
  allowed skew of the signed second.\<close>

lemma round_trip:
  assumes "0 \<le> now" "now < 2 ^ 63" "0 \<le> now'" "now' < 2 ^ 63"
  shows "VerifyWithNonce cy secret now' method path body (sh_Timestamp (SignWithNonce cy secret now method path body nonce)) nonce
      (sh_Signature (SignWithNonce cy secret now method path body nonce)) maxSkew = None \<longleftrightarrow>
    \<bar>now' - now div 1000000000 * 1000000000\<bar> \<le> maxSkew"
proof -
  let ?ts = "now div 1000000000"
  have r: "0 \<le> ?ts" "?ts * 1000000000 < 2 ^ 63" "- (2 ^ 63) \<le> ?ts" "?ts < 2 ^ 63" using assms(1,2) by linarith+
  show ?thesis using skew_is_distance[OF assms(3,4) r(1,2)] ParseInt_Itoa[OF r(3,4)]
    by (auto simp: SignWithNonce_def VerifyWithNonce_def Let_def)
qed

definition sample_crypto :: crypto where
  "sample_crypto = \<lparr>cy_sha256 = (\<lambda>s. take 4 s), cy_hmac = (\<lambda>k s. k @ s), cy_ed25519 = (\<lambda>k m s. True)\<rparr>"

text \<open>A timestamp more than 292 years ahead of the clock passes the window: the difference saturates at the least duration, which negation
  leaves negative.\<close>

lemma far_future_passes_window:
  assumes "0 \<le> now" "now < 2 ^ 63" "20000000000 \<le> ts" "ts < 2 ^ 63 - 62135596800" "0 \<le> maxSkew"
  shows "skew_of now ts \<le> maxSkew"
proof -
  have "time_Unix ts = ts * 1000000000" using assms by (simp add: time_Unix_def wrap64_def)
  moreover have "now - ts * 1000000000 \<le> - (2 ^ 63)" using assms(2,3) by simp
  ultimately have "time_Sub now (time_Unix ts) = - (2 ^ 63)" by (simp add: time_Sub_def)
  then show ?thesis using assms(5) by (simp add: skew_of_def wrap64_def)
qed

section \<open>What a signature binds\<close>

lemma cut_unique:
  assumes "c \<notin> set xs" "c \<notin> set xs'" "xs @ c # ys = xs' @ c # ys'"
  shows "xs = xs' \<and> ys = ys'"
  using assms
proof (induction xs arbitrary: xs')
  case Nil
  then show ?case by (cases xs') auto
next
  case (Cons x xs)
  then show ?case by (cases xs') auto
qed

lemma cut_unique_last:
  assumes "c \<notin> set ys" "c \<notin> set ys'" "xs @ c # ys = xs' @ c # ys'"
  shows "xs = xs' \<and> ys = ys'"
proof -
  have "rev ys @ c # rev xs = rev ys' @ c # rev xs'" using arg_cong[OF assms(3), of rev] by simp
  then show ?thesis using cut_unique[of c "rev ys" "rev ys'" "rev xs" "rev xs'"] assms(1,2) by simp
qed

text \<open>The signed text determines the request: two requests with a nonce, whose timestamp, method and nonce contain no dot, have the same
  signed text only if timestamp, method, path, nonce and the digest of the body agree; so a signature is not good for another request.\<close>

theorem payload_binds_request:
  assumes "list_all (\<lambda>s. CHR ''.'' \<notin> set s) [ts, method, nonce, ts', method', nonce']" and "nonce \<noteq> []" and "nonce' \<noteq> []"
    and "sign_payload cy ts method path body nonce = sign_payload cy ts' method' path' body' nonce'"
  shows "ts = ts' \<and> method = method' \<and> path = path' \<and> nonce = nonce' \<and> cy_sha256 cy body = cy_sha256 cy body'"
proof -
  let ?h = "hex_encode (cy_sha256 cy body)" and ?h' = "hex_encode (cy_sha256 cy body')"
  have e: "ts @ CHR ''.'' # method @ CHR ''.'' # (path @ CHR ''.'' # nonce @ CHR ''.'' # ?h) =
      ts' @ CHR ''.'' # method' @ CHR ''.'' # (path' @ CHR ''.'' # nonce' @ CHR ''.'' # ?h')"
    using assms(2-4) by (simp add: sign_payload_def)
  then have 1: "ts = ts'" "method @ CHR ''.'' # (path @ CHR ''.'' # nonce @ CHR ''.'' # ?h) = method' @ CHR ''.'' # (path' @ CHR ''.'' # nonce' @ CHR ''.'' # ?h')"
    using cut_unique[OF _ _ e] assms(1) by auto
  then have 2: "method = method'" "path @ CHR ''.'' # nonce @ CHR ''.'' # ?h = path' @ CHR ''.'' # nonce' @ CHR ''.'' # ?h'"
    using cut_unique[OF _ _ 1(2)] assms(1) by auto
  then have "(path @ CHR ''.'' # nonce) @ CHR ''.'' # ?h = (path' @ CHR ''.'' # nonce') @ CHR ''.'' # ?h'" by simp
  from cut_unique_last[OF hex_encode_dotless hex_encode_dotless this]
  have 3: "path @ CHR ''.'' # nonce = path' @ CHR ''.'' # nonce'" "?h = ?h'" by simp_all
  then have "path = path'" "nonce = nonce'" using cut_unique_last[OF _ _ 3(1)] assms(1) by auto
  then show ?thesis using 1 2 hex_encode_inj[OF 3(2)] by simp
qed

theorem payload_binds_request_witness:
  "sign_payload sample_crypto ''17'' ''POST'' ''/a.b'' ''x'' ''n1'' \<noteq> sign_payload sample_crypto ''17'' ''POST'' ''/a'' ''x'' ''n1''"
  using payload_binds_request[of "''17''" "''POST''" "''n1''" "''17''" "''POST''" "''n1''" sample_crypto "''/a.b''" "''x''" "''/a''" "''x''"] by auto

text \<open>A nonce is not told apart from the path when the verifier expects none: a request signed with a nonce also verifies, without one, for
  the path extended by it.\<close>

lemma nonce_moves_into_path:
  "nonce \<noteq> [] \<Longrightarrow> sign_payload cy ts method path body nonce = sign_payload cy ts method (path @ ''.'' @ nonce) body []"
  by (simp add: sign_payload_def Let_def)

lemma nonce_can_be_stripped:
  assumes "nonce \<noteq> []"
  shows "Verify cy secret now' method (path @ ''.'' @ nonce) body ts signature maxSkew =
    VerifyWithNonce cy secret now' method path body ts nonce signature maxSkew"
  using nonce_moves_into_path[OF assms] by (simp add: Verify_def VerifyWithNonce_def)

end
