(* ===== verification/Sign_Nonce.thy ===== *)
theory Sign_Nonce
  imports Sign_Properties
begin

text \<open>
  Replay of signed requests. A receiver verifies the signature and then consults the cache of nonces; its requests come one after the
  other here, with visits of the sweeper in between. The second part interleaves the atomic steps of several requests and of the
  sweeper: \<^verbatim>\<open>CheckAndRecord\<close> is a read of the clock, a \<^verbatim>\<open>LoadOrStore\<close> and, for an expired entry, a later \<^verbatim>\<open>Store\<close>; a visit of the sweeper is the test and a later \<^verbatim>\<open>Delete\<close>.
\<close>

section \<open>One request after the other\<close>

record signed_request =
  sr_method :: string
  sr_path :: string
  sr_body :: string
  sr_timestamp :: string
  sr_nonce :: string
  sr_signature :: string

datatype receiver_op = Receive signed_request | SweepKey string

definition receive_request :: "crypto \<Rightarrow> string \<Rightarrow> int \<Rightarrow> int \<Rightarrow> int \<Rightarrow> signed_request \<Rightarrow> seen \<Rightarrow> bool \<times> seen" where
  "receive_request cy secret maxSkew ttl now r m =
     (if VerifyWithNonce cy secret now (sr_method r) (sr_path r) (sr_body r) (sr_timestamp r) (sr_nonce r) (sr_signature r) maxSkew \<noteq> None then (False, m)
      else case CheckAndRecord ttl (sr_nonce r) now m of (err, m') \<Rightarrow> (err = None, m'))"

fun receiver_step :: "crypto \<Rightarrow> string \<Rightarrow> int \<Rightarrow> int \<Rightarrow> int \<times> receiver_op \<Rightarrow> seen \<times> (int \<times> signed_request) list \<Rightarrow> seen \<times> (int \<times> signed_request) list" where
  "receiver_step cy secret maxSkew ttl (now, Receive r) (m, acc) =
     (case receive_request cy secret maxSkew ttl now r m of (ok, m') \<Rightarrow> (m', if ok then acc @ [(now, r)] else acc))"
| "receiver_step cy secret maxSkew ttl (now, SweepKey k) (m, acc) = (sweep_entry now k m, acc)"

abbreviation accepted_requests :: "crypto \<Rightarrow> string \<Rightarrow> int \<Rightarrow> int \<Rightarrow> (int \<times> receiver_op) list \<Rightarrow> (int \<times> signed_request) list" where
  "accepted_requests cy secret maxSkew ttl ops \<equiv> snd (fold (receiver_step cy secret maxSkew ttl) ops (Map.empty, []))"

text \<open>What holds at every moment: an accepted nonce is remembered until its time is over, and acceptances of a nonce are far apart.\<close>

definition remembers :: "int \<Rightarrow> int \<Rightarrow> seen \<Rightarrow> (int \<times> signed_request) list \<Rightarrow> bool" where
  "remembers ttl T m acc \<longleftrightarrow> (\<forall>(t, r) \<in> set acc. t + ttl \<le> T \<or> (\<exists>e. m (sr_nonce r) = Some e \<and> t + ttl \<le> e))"

definition far_apart :: "int \<Rightarrow> (int \<times> signed_request) list \<Rightarrow> bool" where
  "far_apart ttl acc \<longleftrightarrow> sorted_wrt (\<lambda>(t, r) (t', r'). sr_nonce r = sr_nonce r' \<longrightarrow> t + ttl \<le> t') acc"

lemma distinct_by_order:
  assumes "\<And>i j. i < j \<Longrightarrow> j < length xs \<Longrightarrow> f (xs ! i) \<noteq> f (xs ! j)"
  shows "distinct (map f xs)"
  unfolding distinct_conv_nth
proof (intro allI impI)
  fix i j
  assume "i < length (map f xs)" "j < length (map f xs)" "i \<noteq> j"
  then show "map f xs ! i \<noteq> map f xs ! j" using assms[of i j] assms[of j i] by (cases "i < j") simp_all
qed

lemma far_apart_nth:
  assumes "far_apart ttl xs" "i < j" "j < length xs" "xs ! i = (t, r)" "xs ! j = (t', r')" "sr_nonce r = sr_nonce r'"
  shows "t + ttl \<le> t'"
  using sorted_wrt_nth_less[OF assms(1)[unfolded far_apart_def] assms(2,3)] assms(4-6) by simp

lemma remembers_later: "remembers ttl T m acc \<Longrightarrow> T \<le> T' \<Longrightarrow> remembers ttl T' m acc"
  unfolding remembers_def by fastforce

lemma CheckAndRecord_accepts:
  assumes "CheckAndRecord ttl n now m = (None, m')"
  shows "m' = m(n \<mapsto> now + ttl) \<and> (\<forall>e. m n = Some e \<longrightarrow> e \<le> now)"
  using assms by (auto simp: CheckAndRecord_def LoadOrStore_def split: option.splits if_splits)

lemma CheckAndRecord_refuses: "CheckAndRecord ttl n now m = (Some err, m') \<Longrightarrow> m' = m"
  by (auto simp: CheckAndRecord_def LoadOrStore_def split: option.splits if_splits)

lemma accept_keeps:
  assumes "remembers ttl now m acc" "far_apart ttl acc" "\<forall>e. m (sr_nonce r) = Some e \<longrightarrow> e \<le> now"
  shows "remembers ttl now (m(sr_nonce r \<mapsto> now + ttl)) (acc @ [(now, r)]) \<and> far_apart ttl (acc @ [(now, r)])"
proof -
  have old: "t + ttl \<le> now" if "(t, x) \<in> set acc" "sr_nonce x = sr_nonce r" for t x
    using that assms(1,3) unfolding remembers_def by fastforce
  then have "remembers ttl now (m(sr_nonce r \<mapsto> now + ttl)) (acc @ [(now, r)])"
    using assms(1) unfolding remembers_def by fastforce
  moreover have "far_apart ttl (acc @ [(now, r)])"
    using assms(2) old unfolding far_apart_def by (auto simp: sorted_wrt_append)
  ultimately show ?thesis ..
qed

lemma receiver_step_keeps:
  assumes "remembers ttl T m acc" "far_apart ttl acc" "T \<le> now" "receiver_step cy secret maxSkew ttl (now, op) (m, acc) = (m', acc')"
  shows "remembers ttl now m' acc' \<and> far_apart ttl acc'"
proof (cases op)
  case (Receive r)
  obtain err m1 where c: "CheckAndRecord ttl (sr_nonce r) now m = (err, m1)" by fastforce
  show ?thesis
  proof (cases "m' = m \<and> acc' = acc")
    case True
    then show ?thesis using assms(2) remembers_later[OF assms(1,3)] by simp
  next
    case False
    then have "err = None" "m' = m1" "acc' = acc @ [(now, r)]"
      using assms(4) Receive c CheckAndRecord_refuses[of ttl "sr_nonce r" now m _ m1]
      by (auto simp: receive_request_def split: if_splits option.splits)
    then show ?thesis using accept_keeps[OF remembers_later[OF assms(1,3)] assms(2)] c CheckAndRecord_accepts[of ttl "sr_nonce r" now m m1] by simp
  qed
next
  case (SweepKey k)
  then have "m' = sweep_entry now k m" "acc' = acc" using assms(4) by simp_all
  then show ?thesis using assms(2) remembers_later[OF assms(1,3)]
    by (fastforce simp: remembers_def sweep_entry_def split: option.splits if_splits)
qed

lemma receiver_run_keeps:
  assumes "remembers ttl T m acc" "far_apart ttl acc" "sorted (map fst ops)" "\<forall>op \<in> set ops. T \<le> fst op"
  shows "far_apart ttl (snd (fold (receiver_step cy secret maxSkew ttl) ops (m, acc)))"
  using assms
proof (induction ops arbitrary: T m acc)
  case (Cons op ops)
  obtain now o1 where o: "op = (now, o1)" by fastforce
  obtain m' acc' where s: "receiver_step cy secret maxSkew ttl (now, o1) (m, acc) = (m', acc')" by fastforce
  have "T \<le> now" using Cons.prems(4) o by simp
  with receiver_step_keeps[OF Cons.prems(1,2) this s] have "remembers ttl now m' acc'" "far_apart ttl acc'" by simp_all
  then show ?case using Cons.IH[of now m' acc'] Cons.prems(3,4) o s by simp
qed simp

lemma accepted_far_apart:
  assumes "sorted (map fst ops)"
  shows "far_apart ttl (accepted_requests cy secret maxSkew ttl ops)"
proof (cases ops)
  case (Cons op ops')
  then show ?thesis using assms by (intro receiver_run_keeps[of _ "fst op"]) (auto simp: remembers_def far_apart_def)
qed (simp add: far_apart_def)

text \<open>Every accepted request passed the verification at its time.\<close>

lemma accepted_verified:
  assumes "(t, r) \<in> set (snd (fold (receiver_step cy secret maxSkew ttl) ops (m, acc)))" and "(t, r) \<notin> set acc"
  shows "(t, Receive r) \<in> set ops \<and>
    VerifyWithNonce cy secret t (sr_method r) (sr_path r) (sr_body r) (sr_timestamp r) (sr_nonce r) (sr_signature r) maxSkew = None"
  using assms
proof (induction ops arbitrary: m acc)
  case (Cons op ops)
  obtain now o1 where o: "op = (now, o1)" by fastforce
  obtain m' acc' where s: "receiver_step cy secret maxSkew ttl op (m, acc) = (m', acc')" by fastforce
  show ?case
  proof (cases "(t, r) \<in> set acc'")
    case True
    then show ?thesis using s Cons.prems(2) o by (cases o1) (auto simp: receive_request_def split: if_splits prod.splits)
  next
    case False
    then show ?thesis using Cons.IH[of m' acc'] Cons.prems(1) s by simp
  qed
qed simp

text \<open>The two moments at which a request with the same timestamp verifies are at most twice the window apart.\<close>

lemma verified_skew:
  assumes "VerifyWithNonce cy secret t mt pa bo ts n s maxSkew = None" and "0 \<le> t" "t < 2 ^ 63" "ParseInt ts = Some k" "0 \<le> k" "k * 1000000000 < 2 ^ 63"
  shows "\<bar>t - k * 1000000000\<bar> \<le> maxSkew"
  using assms skew_is_distance[of t k] by (auto simp: VerifyWithNonce_def split: if_splits)

text \<open>The requests that may arrive: the clock and the timestamp lie between 1970 and 2262.\<close>

definition sane_op :: "int \<times> receiver_op \<Rightarrow> bool" where
  "sane_op = (\<lambda>(t, op). 0 \<le> t \<and> t < 2 ^ 63 \<and>
     (case op of Receive r \<Rightarrow> (case ParseInt (sr_timestamp r) of Some k \<Rightarrow> 0 \<le> k \<and> k * 1000000000 < 2 ^ 63 | None \<Rightarrow> True) | SweepKey _ \<Rightarrow> True))"

text \<open>C21. A signed request is accepted at most once: a receiver that verifies signatures, keeps nonces longer than twice the
  allowed skew and handles its requests one after the other never accepts two requests with the same timestamp and nonce, whatever
  requests arrive, in whatever order, and whenever the sweeper runs, as long as its clock does not go back and the clock and the
  timestamps lie between 1970 and 2262 (outside these years the test of the window itself is wrong, \<open>far_future_passes_window\<close>).\<close>

theorem signed_request_accepted_once:
  assumes "2 * maxSkew < ttl" and "sorted (map fst ops)" and "list_all sane_op ops"
  shows "distinct (map (\<lambda>(t, r). (sr_timestamp r, sr_nonce r)) (accepted_requests cy secret maxSkew ttl ops))"
proof -
  let ?acc = "accepted_requests cy secret maxSkew ttl ops"
  have skew: "\<exists>k. ParseInt (sr_timestamp r) = Some k \<and> \<bar>t - k * 1000000000\<bar> \<le> maxSkew" if "(t, r) \<in> set ?acc" for t r
  proof -
    from accepted_verified[OF that] have op: "(t, Receive r) \<in> set ops"
      and v: "VerifyWithNonce cy secret t (sr_method r) (sr_path r) (sr_body r) (sr_timestamp r) (sr_nonce r) (sr_signature r) maxSkew = None" by simp_all
    then obtain k where k: "ParseInt (sr_timestamp r) = Some k" by (auto simp: VerifyWithNonce_def split: option.splits)
    have "sane_op (t, Receive r)" using op assms(3) by (auto simp: list_all_iff)
    then show ?thesis using verified_skew[OF v _ _ k] k by (simp add: sane_op_def)
  qed
  have apart: "far_apart ttl ?acc" by (rule accepted_far_apart[OF assms(2)])
  have "(\<lambda>(t, r). (sr_timestamp r, sr_nonce r)) (?acc ! i) \<noteq> (\<lambda>(t, r). (sr_timestamp r, sr_nonce r)) (?acc ! j)"
    if "i < j" "j < length ?acc" for i j
  proof
    obtain t r t' r' where e: "?acc ! i = (t, r)" "?acc ! j = (t', r')" by fastforce
    assume "(\<lambda>(t, r). (sr_timestamp r, sr_nonce r)) (?acc ! i) = (\<lambda>(t, r). (sr_timestamp r, sr_nonce r)) (?acc ! j)"
    then have same: "sr_timestamp r = sr_timestamp r'" "sr_nonce r = sr_nonce r'" using e by simp_all
    have "t + ttl \<le> t'" by (rule far_apart_nth[OF apart that e same(2)])
    moreover have "(t, r) \<in> set ?acc" "(t', r') \<in> set ?acc" using nth_mem[of i ?acc] nth_mem[of j ?acc] e that by simp_all
    then obtain k where "\<bar>t - k * 1000000000\<bar> \<le> maxSkew" "\<bar>t' - k * 1000000000\<bar> \<le> maxSkew"
      using skew[of t r] skew[of t' r'] same(1) by auto
    ultimately show False using assms(1) by linarith
  qed
  then show ?thesis by (rule distinct_by_order)
qed

text \<open>A request signed at second 1000 and sent twice, five seconds before and five seconds after it.\<close>

definition sample_signed :: signed_request where
  "sample_signed = (let h = SignWithNonce sample_crypto ''k'' 1000000000000 ''POST'' ''/h'' ''b'' ''n''
     in \<lparr>sr_method = ''POST'', sr_path = ''/h'', sr_body = ''b'', sr_timestamp = sh_Timestamp h, sr_nonce = ''n'', sr_signature = sh_Signature h\<rparr>)"

definition sample_ops :: "(int \<times> receiver_op) list" where
  "sample_ops = [(995000000000, Receive sample_signed), (1000000000000, SweepKey ''n''), (1005000000000, Receive sample_signed)]"

theorem signed_request_accepted_once_witness:
  "length (accepted_requests sample_crypto ''k'' 5000000000 10000000001 sample_ops) = 1 \<and>
   distinct (map (\<lambda>(t, r). (sr_timestamp r, sr_nonce r)) (accepted_requests sample_crypto ''k'' 5000000000 10000000001 sample_ops))"
proof -
  have "length (accepted_requests sample_crypto ''k'' 5000000000 10000000001 sample_ops) = 1" by code_simp
  moreover have "sorted (map fst sample_ops)" "list_all sane_op sample_ops" by code_simp+
  ultimately show ?thesis using signed_request_accepted_once[of 5000000000 10000000001 sample_ops] by simp
qed

text \<open>With a time to live of exactly twice the window the copy that arrives at its very end is accepted.\<close>

lemma twice_the_window_is_not_enough:
  "map fst (accepted_requests sample_crypto ''k'' 5000000000 10000000000 sample_ops) = [995000000000, 1005000000000]"
  by code_simp

section \<open>Interleaved requests\<close>

text \<open>A request reads the clock, then calls \<^verbatim>\<open>LoadOrStore\<close>, and when it finds an expired entry stores its own later;
  \<open>ns_reading\<close> and \<open>ns_storing\<close> hold the requests between these steps with the time they read, \<open>ns_deleting\<close> the keys the sweeper
  is about to delete. An acceptance is recorded with its nonce, the time read and the moment it happened.\<close>

record nonce_state =
  ns_now :: int
  ns_seen :: seen
  ns_reading :: "(string \<times> int) list"
  ns_storing :: "(string \<times> int) list"
  ns_deleting :: "string list"
  ns_accepted :: "(string \<times> int \<times> int) list"

inductive nonce_step :: "int \<Rightarrow> nonce_state \<Rightarrow> nonce_state \<Rightarrow> bool" for ttl where
  tick: "ns_now s \<le> t \<Longrightarrow> nonce_step ttl s (s\<lparr>ns_now := t\<rparr>)"
| arrive: "n \<noteq> [] \<Longrightarrow> nonce_step ttl s (s\<lparr>ns_reading := (n, ns_now s) # ns_reading s\<rparr>)"
| fresh: "(n, t) \<in> set (ns_reading s) \<Longrightarrow> LoadOrStore n (t + ttl) (ns_seen s) = (None, m) \<Longrightarrow>
    nonce_step ttl s (s\<lparr>ns_seen := m, ns_reading := remove1 (n, t) (ns_reading s), ns_accepted := ns_accepted s @ [(n, t, ns_now s)]\<rparr>)"
| refuse: "(n, t) \<in> set (ns_reading s) \<Longrightarrow> LoadOrStore n (t + ttl) (ns_seen s) = (Some e, m) \<Longrightarrow> t < e \<Longrightarrow>
    nonce_step ttl s (s\<lparr>ns_reading := remove1 (n, t) (ns_reading s)\<rparr>)"
| expired: "(n, t) \<in> set (ns_reading s) \<Longrightarrow> LoadOrStore n (t + ttl) (ns_seen s) = (Some e, m) \<Longrightarrow> \<not> t < e \<Longrightarrow>
    nonce_step ttl s (s\<lparr>ns_reading := remove1 (n, t) (ns_reading s), ns_storing := (n, t) # ns_storing s\<rparr>)"
| overwrite: "(n, t) \<in> set (ns_storing s) \<Longrightarrow>
    nonce_step ttl s (s\<lparr>ns_seen := (ns_seen s)(n \<mapsto> t + ttl), ns_storing := remove1 (n, t) (ns_storing s),
      ns_accepted := ns_accepted s @ [(n, t, ns_now s)]\<rparr>)"
| visit: "ns_seen s k = Some e \<Longrightarrow> tk \<le> ns_now s \<Longrightarrow> tk > e \<Longrightarrow> nonce_step ttl s (s\<lparr>ns_deleting := k # ns_deleting s\<rparr>)"
| delete: "k \<in> set (ns_deleting s) \<Longrightarrow> nonce_step ttl s (s\<lparr>ns_seen := (ns_seen s)(k := None), ns_deleting := remove1 k (ns_deleting s)\<rparr>)"

definition nonce_start :: "int \<Rightarrow> nonce_state" where
  "nonce_start t = \<lparr>ns_now = t, ns_seen = Map.empty, ns_reading = [], ns_storing = [], ns_deleting = [], ns_accepted = []\<rparr>"

inductive nonce_reachable :: "int \<Rightarrow> nonce_state \<Rightarrow> bool" for ttl where
  start: "nonce_reachable ttl (nonce_start t)"
| more: "nonce_reachable ttl s \<Longrightarrow> nonce_step ttl s s' \<Longrightarrow> nonce_reachable ttl s'"

inductive_cases nonce_stepE: "nonce_step ttl s s'"

definition acceptances :: "string \<Rightarrow> nonce_state \<Rightarrow> (string \<times> int \<times> int) list" where
  "acceptances n s = filter (\<lambda>x. fst x = n) (ns_accepted s)"

text \<open>Nothing but its entry, expiring at \<open>e\<close>, is in the process about the nonce; and what holds of the nonce in every state.\<close>

definition settled_nonce :: "string \<Rightarrow> int option \<Rightarrow> nonce_state \<Rightarrow> bool" where
  "settled_nonce n e s \<longleftrightarrow> ns_seen s n = e \<and> n \<notin> fst ` set (ns_storing s) \<and> n \<notin> set (ns_deleting s)"

definition guarded_nonce :: "int \<Rightarrow> string \<Rightarrow> nonce_state \<Rightarrow> bool" where
  "guarded_nonce ttl n s \<longleftrightarrow>
     (\<forall>x\<in>set (ns_reading s). snd x \<le> ns_now s) \<and>
     (case acceptances n s of
        [] \<Rightarrow> settled_nonce n None s
      | (_, r, _) # later \<Rightarrow> (\<forall>x\<in>set later. r + ttl \<le> snd (snd x)) \<and>
          (ns_now s < r + ttl \<longrightarrow> later = [] \<and> settled_nonce n (Some (r + ttl)) s))"

lemma other_step_settled:
  assumes "nonce_step ttl s s'" "settled_nonce n e s" "\<forall>x\<in>set (ns_reading s). snd x \<le> ns_now s"
    and "\<And>u. e = Some u \<Longrightarrow> ns_now s < u"
  shows "settled_nonce n e s' \<and> acceptances n s' = acceptances n s \<or>
    e = None \<and> (\<exists>r. r \<le> ns_now s \<and> settled_nonce n (Some (r + ttl)) s' \<and> acceptances n s' = acceptances n s @ [(n, r, ns_now s)])"
  using assms(1)
proof cases
  case (fresh k t m)
  then have "t \<le> ns_now s" using assms(3) by fastforce
  then show ?thesis using fresh assms(2)
    by (cases "k = n") (auto simp: settled_nonce_def acceptances_def LoadOrStore_def split: option.splits)
next
  case (expired k t u m)
  have "k \<noteq> n"
    using expired assms(2-4) by (fastforce simp: settled_nonce_def LoadOrStore_def split: option.splits)
  then show ?thesis using assms(2) expired(1) by (simp add: settled_nonce_def acceptances_def)
next
  case (overwrite k t)
  then have "k \<noteq> n" using assms(2) by (auto simp: settled_nonce_def image_iff)
  then show ?thesis using assms(2) overwrite(1) by (auto simp: settled_nonce_def acceptances_def image_iff dest: notin_set_remove1)
next
  case (visit k u tk)
  then have "k \<noteq> n" using assms(2) assms(4)[of u] by (auto simp: settled_nonce_def)
  then show ?thesis using assms(2) visit(1) by (simp add: settled_nonce_def acceptances_def)
next
  case (delete k)
  then show ?thesis using assms(2) by (auto simp: settled_nonce_def acceptances_def dest: notin_set_remove1)
qed (use assms(2) in \<open>auto simp: settled_nonce_def acceptances_def\<close>)

lemma acceptances_grow:
  assumes "nonce_step ttl s s'"
  shows "acceptances n s' = acceptances n s \<or> (\<exists>r. acceptances n s' = acceptances n s @ [(n, r, ns_now s)])"
  using assms by cases (auto simp: acceptances_def)

lemma step_clock: "nonce_step ttl s s' \<Longrightarrow> ns_now s \<le> ns_now s'"
  by (erule nonce_stepE) simp_all

lemma step_reading:
  "nonce_step ttl s s' \<Longrightarrow> \<forall>x\<in>set (ns_reading s). snd x \<le> ns_now s \<Longrightarrow> \<forall>x\<in>set (ns_reading s'). snd x \<le> ns_now s'"
  by (erule nonce_stepE) (auto dest!: in_set_remove1 notin_set_remove1 dest: set_remove1_subset[THEN subsetD] intro: order_trans)

lemma nonce_step_guarded:
  assumes step: "nonce_step ttl s s'" and g: "guarded_nonce ttl n s"
  shows "guarded_nonce ttl n s'"
proof -
  have rd: "\<forall>x\<in>set (ns_reading s). snd x \<le> ns_now s" using g by (simp add: guarded_nonce_def)
  note rd' = step_reading[OF step rd] and clock = step_clock[OF step]
  show ?thesis
  proof (cases "acceptances n s")
    case Nil
    then have "settled_nonce n None s" using g by (simp add: guarded_nonce_def)
    from other_step_settled[OF step this rd] show ?thesis using rd' Nil by (auto simp: guarded_nonce_def)
  next
    case (Cons a later)
    obtain k r m where a: "a = (k, r, m)" by (cases a) auto
    have later: "\<forall>x\<in>set later. r + ttl \<le> snd (snd x)" and first: "ns_now s < r + ttl \<Longrightarrow> later = [] \<and> settled_nonce n (Some (r + ttl)) s"
      using g Cons a by (auto simp: guarded_nonce_def)
    show ?thesis
    proof (cases "ns_now s < r + ttl")
      case True
      from other_step_settled[OF step _ rd, of n "Some (r + ttl)"] first[OF True] True
      have "settled_nonce n (Some (r + ttl)) s'" "acceptances n s' = acceptances n s" by auto
      then show ?thesis using rd' Cons a first[OF True] by (simp add: guarded_nonce_def)
    next
      case False
      then show ?thesis using acceptances_grow[OF step, of n] rd' clock Cons a later by (auto simp: guarded_nonce_def)
    qed
  qed
qed

lemma reachable_guarded: "nonce_reachable ttl s \<Longrightarrow> guarded_nonce ttl n s"
proof (induction rule: nonce_reachable.induct)
  case (start t)
  then show ?case by (simp add: guarded_nonce_def nonce_start_def acceptances_def settled_nonce_def)
next
  case (more s s')
  then show ?case using nonce_step_guarded by blast
qed

text \<open>C22. An accepted nonce is refused for its time to live, however requests and the sweeper interleave: concurrent requests read
  the clock, look the nonce up and overwrite an expired entry in separate steps, and the sweeper tests and deletes in separate steps,
  with the time of its tick. In every state they can reach, when the first acceptance of a nonce read the clock at \<open>r\<close>, no other
  request with the nonce was accepted at a moment before \<open>r + ttl\<close>. (A nonce that comes back after that time is not protected in the
  same way, \<open>expired_nonce_race\<close>.)\<close>

theorem nonce_refused_for_its_ttl:
  assumes "nonce_reachable ttl s" and "filter (\<lambda>x. fst x = n) (ns_accepted s) = (n, r, m) # later"
  shows "\<forall>(k, r', m') \<in> set later. r + ttl \<le> m'"
  using reachable_guarded[OF assms(1), of n] assms(2) by (auto simp: guarded_nonce_def acceptances_def)

lemma nonce_first_seen:
  "nonce_step ttl (s\<lparr>ns_reading := [(n, t)], ns_seen := Map.empty\<rparr>)
     (s\<lparr>ns_seen := [n \<mapsto> t + ttl], ns_reading := [], ns_accepted := ns_accepted s @ [(n, t, ns_now s)]\<rparr>)"
  using nonce_step.fresh[of n t "s\<lparr>ns_reading := [(n, t)], ns_seen := Map.empty\<rparr>" ttl "[n \<mapsto> t + ttl]"]
  by (simp add: LoadOrStore_def)

text \<open>A nonce accepted at time 0 and kept for 10, and two requests that come back with it at time 20: both find the expired entry before
  either overwrites it, and both are accepted.\<close>

definition sample_race :: nonce_state where
  "sample_race = \<lparr>ns_now = 20, ns_seen = [''n'' \<mapsto> 30], ns_reading = [], ns_storing = [], ns_deleting = [],
     ns_accepted = [(''n'', 0, 0), (''n'', 20, 20), (''n'', 20, 20)]\<rparr>"

lemma sample_race_reachable: "nonce_reachable 10 sample_race"
proof -
  let ?a = "(nonce_start 0)\<lparr>ns_seen := [''n'' \<mapsto> 10], ns_accepted := [(''n'', 0, 0)]\<rparr>"
  let ?q = "(''n'', 20)"
  have "nonce_step 10 (nonce_start 0) ((nonce_start 0)\<lparr>ns_reading := [(''n'', 0)]\<rparr>)"
    using nonce_step.arrive[where n = "''n''" and ttl = 10 and s = "nonce_start 0"] by (simp add: nonce_start_def)
  from nonce_reachable.more[OF nonce_reachable.start this]
  have "nonce_reachable 10 ((nonce_start 0)\<lparr>ns_reading := [(''n'', 0)]\<rparr>)" .
  moreover have "nonce_step 10 ((nonce_start 0)\<lparr>ns_reading := [(''n'', 0)]\<rparr>) ?a"
    using nonce_first_seen[where ttl = 10 and s = "nonce_start 0" and n = "''n''" and t = 0] by (simp add: nonce_start_def)
  ultimately have "nonce_reachable 10 ?a" by (rule nonce_reachable.more)
  moreover have "nonce_step 10 ?a (?a\<lparr>ns_now := 20\<rparr>)" by (rule nonce_step.tick) (simp add: nonce_start_def)
  ultimately have "nonce_reachable 10 (?a\<lparr>ns_now := 20\<rparr>)" by (rule nonce_reachable.more)
  moreover have "nonce_step 10 (?a\<lparr>ns_now := 20\<rparr>) (?a\<lparr>ns_now := 20, ns_reading := [?q]\<rparr>)"
    using nonce_step.arrive[where n = "''n''" and ttl = 10 and s = "?a\<lparr>ns_now := 20\<rparr>"] by (simp add: nonce_start_def)
  ultimately have "nonce_reachable 10 (?a\<lparr>ns_now := 20, ns_reading := [?q]\<rparr>)" by (rule nonce_reachable.more)
  moreover have "nonce_step 10 (?a\<lparr>ns_now := 20, ns_reading := [?q]\<rparr>) (?a\<lparr>ns_now := 20, ns_reading := [?q, ?q]\<rparr>)"
    using nonce_step.arrive[where n = "''n''" and ttl = 10 and s = "?a\<lparr>ns_now := 20, ns_reading := [?q]\<rparr>"] by (simp add: nonce_start_def)
  ultimately have "nonce_reachable 10 (?a\<lparr>ns_now := 20, ns_reading := [?q, ?q]\<rparr>)" by (rule nonce_reachable.more)
  moreover have "nonce_step 10 (?a\<lparr>ns_now := 20, ns_reading := [?q, ?q]\<rparr>) (?a\<lparr>ns_now := 20, ns_reading := [?q], ns_storing := [?q]\<rparr>)"
    using nonce_step.expired[of "''n''" 20 "?a\<lparr>ns_now := 20, ns_reading := [?q, ?q]\<rparr>" 10 10 "[''n'' \<mapsto> 10]"]
    by (simp add: nonce_start_def LoadOrStore_def)
  ultimately have "nonce_reachable 10 (?a\<lparr>ns_now := 20, ns_reading := [?q], ns_storing := [?q]\<rparr>)" by (rule nonce_reachable.more)
  moreover have "nonce_step 10 (?a\<lparr>ns_now := 20, ns_reading := [?q], ns_storing := [?q]\<rparr>) (?a\<lparr>ns_now := 20, ns_storing := [?q, ?q]\<rparr>)"
    using nonce_step.expired[of "''n''" 20 "?a\<lparr>ns_now := 20, ns_reading := [?q], ns_storing := [?q]\<rparr>" 10 10 "[''n'' \<mapsto> 10]"]
    by (simp add: nonce_start_def LoadOrStore_def)
  ultimately have "nonce_reachable 10 (?a\<lparr>ns_now := 20, ns_storing := [?q, ?q]\<rparr>)" by (rule nonce_reachable.more)
  moreover have "nonce_step 10 (?a\<lparr>ns_now := 20, ns_storing := [?q, ?q]\<rparr>)
      (?a\<lparr>ns_now := 20, ns_seen := [''n'' \<mapsto> 30], ns_storing := [?q], ns_accepted := [(''n'', 0, 0), (''n'', 20, 20)]\<rparr>)"
    using nonce_step.overwrite[of "''n''" 20 "?a\<lparr>ns_now := 20, ns_storing := [?q, ?q]\<rparr>" 10] by (simp add: nonce_start_def)
  ultimately have "nonce_reachable 10 (?a\<lparr>ns_now := 20, ns_seen := [''n'' \<mapsto> 30], ns_storing := [?q],
      ns_accepted := [(''n'', 0, 0), (''n'', 20, 20)]\<rparr>)" by (rule nonce_reachable.more)
  moreover have "nonce_step 10 (?a\<lparr>ns_now := 20, ns_seen := [''n'' \<mapsto> 30], ns_storing := [?q],
      ns_accepted := [(''n'', 0, 0), (''n'', 20, 20)]\<rparr>) sample_race"
    using nonce_step.overwrite[of "''n''" 20 "?a\<lparr>ns_now := 20, ns_seen := [''n'' \<mapsto> 30], ns_storing := [?q],
      ns_accepted := [(''n'', 0, 0), (''n'', 20, 20)]\<rparr>" 10]
    by (simp add: nonce_start_def sample_race_def)
  ultimately show ?thesis by (rule nonce_reachable.more)
qed

theorem nonce_refused_for_its_ttl_witness:
  "filter (\<lambda>x. fst x = ''n'') (ns_accepted sample_race) = (''n'', 0, 0) # [(''n'', 20, 20), (''n'', 20, 20)] \<and> (0::int) + 10 \<le> 20"
proof -
  have f: "filter (\<lambda>x. fst x = ''n'') (ns_accepted sample_race) = (''n'', 0, 0) # [(''n'', 20, 20), (''n'', 20, 20)]"
    by (simp add: sample_race_def)
  show ?thesis using nonce_refused_for_its_ttl[OF sample_race_reachable f] f by simp
qed

lemma expired_nonce_race:
  "\<exists>s. nonce_reachable 10 s \<and> filter (\<lambda>x. snd (snd x) = 20) (ns_accepted s) = [(''n'', 20, 20), (''n'', 20, 20)]"
  using sample_race_reachable by (intro exI[of _ sample_race]) (simp add: sample_race_def)

end
