(* ===== verification/Sign_Bundle.thy ===== *)
theory Sign_Bundle
  imports Sign_Properties
begin

text \<open>
  The verification of bundles accepts exactly the bundles signed by a trusted key whose declared entries agree, and a dispatched webhook
  carries headers its receiver accepts, whatever the host adds to them.
\<close>

section \<open>Bundles\<close>

text \<open>The declared digests and the entries agree on every name but the manifest's own.\<close>

definition entries_match :: "(string \<times> string) list \<Rightarrow> (string \<times> string) list \<Rightarrow> bool" where
  "entries_match digests want \<longleftrightarrow>
     digests \<noteq> [] \<and>
     (\<forall>name. name \<noteq> ''manifest.json'' \<longrightarrow>
        (case (map_of want name, map_of digests name) of
           (None, None) \<Rightarrow> True
         | (Some expected, Some actual) \<Rightarrow> EqualFold (TrimSpace expected) actual
         | _ \<Rightarrow> False))"

lemma check_declared_None:
  "check_declared digests want = None \<longleftrightarrow>
     (\<forall>(name, expected) \<in> set want. name = ''manifest.json'' \<or> (\<exists>actual. map_of digests name = Some actual \<and> EqualFold (TrimSpace expected) actual))"
  by (induction digests want rule: check_declared.induct) (auto split: option.splits)

lemma check_present_None:
  "check_present want digests = None \<longleftrightarrow> (\<forall>(name, actual) \<in> set digests. name = ''manifest.json'' \<or> map_of want name \<noteq> None)"
  by (induction want digests rule: check_present.induct) auto

lemma verifyEntryChecksums_None:
  assumes "distinct (map fst want)"
  shows "verifyEntryChecksums b want = None \<longleftrightarrow> entries_match (b_EntryDigests b) want"
proof -
  let ?d = "b_EntryDigests b"
  have w: "(name, e) \<in> set want \<longleftrightarrow> map_of want name = Some e" for name e using assms by (simp add: map_of_eq_Some_iff)
  have d: "(\<exists>a. (name, a) \<in> set ?d) \<longleftrightarrow> map_of ?d name \<noteq> None" for name by (force simp: map_of_eq_None_iff)
  have "verifyEntryChecksums b want = None \<longleftrightarrow> ?d \<noteq> [] \<and> check_declared ?d want = None \<and> check_present want ?d = None"
    by (auto simp: verifyEntryChecksums_def split: option.splits)
  also have "check_declared ?d want = None \<longleftrightarrow>
      (\<forall>name e. map_of want name = Some e \<longrightarrow> name = ''manifest.json'' \<or> (\<exists>a. map_of ?d name = Some a \<and> EqualFold (TrimSpace e) a))"
    unfolding check_declared_None w[symmetric] by auto
  also have "check_present want ?d = None \<longleftrightarrow> (\<forall>name. map_of ?d name \<noteq> None \<longrightarrow> name = ''manifest.json'' \<or> map_of want name \<noteq> None)"
    unfolding check_present_None d[symmetric] by auto
  finally have v: "verifyEntryChecksums b want = None \<longleftrightarrow> ?d \<noteq> [] \<and> (\<forall>name. name \<noteq> ''manifest.json'' \<longrightarrow>
      (\<forall>e. map_of want name = Some e \<longrightarrow> (\<exists>a. map_of ?d name = Some a \<and> EqualFold (TrimSpace e) a)) \<and>
      (map_of ?d name \<noteq> None \<longrightarrow> map_of want name \<noteq> None))" by blast
  have c: "(\<forall>e. wv = Some e \<longrightarrow> (\<exists>a. dv = Some a \<and> EqualFold (TrimSpace e) a)) \<and> (dv \<noteq> None \<longrightarrow> wv \<noteq> None) \<longleftrightarrow>
      (case (wv, dv) of (None, None) \<Rightarrow> True | (Some expected, Some actual) \<Rightarrow> EqualFold (TrimSpace expected) actual | _ \<Rightarrow> False)" for wv dv
    by (cases wv; cases dv) simp_all
  show ?thesis unfolding v c entries_match_def ..
qed

text \<open>C23. A bundle is accepted if and only if it is authentic: its signature is a 64-byte Ed25519 signature, by one of the trusted keys, of the
  SHA-256 of the bytes that were read, a declared digest is that digest, and the declared checksums, if any, are those of exactly the
  entries present.\<close>

theorem bundle_accepted_iff_authentic:
  assumes "\<forall>sig. b_Signature b = Some sig \<longrightarrow> distinct (map fst (sg_Checksums sig))"
  shows "VerifyBundle cy L (Some b) keys = None \<longleftrightarrow>
    (\<exists>sig sigBytes. b_Signature b = Some sig \<and> DecodeString (TrimSpace (sg_Value sig)) = Some sigBytes \<and> length sigBytes = 64 \<and> b_Raw b \<noteq> [] \<and>
       ToLower L (TrimSpace (sg_Algorithm sig)) \<in> {[], ''ed25519''} \<and> TrimSpace (sg_Digest sig) \<in> {[], hex_encode (cy_sha256 cy (b_Raw b))} \<and>
       (\<exists>pub \<in> set keys. length pub = 32 \<and> cy_ed25519 cy pub (cy_sha256 cy (b_Raw b)) sigBytes) \<and>
       (sg_Checksums sig = [] \<or> entries_match (b_EntryDigests b) (sg_Checksums sig)))"
proof (cases "b_Signature b")
  case (Some sig)
  then have e: "verifyEntryChecksums b (sg_Checksums sig) = None \<longleftrightarrow> entries_match (b_EntryDigests b) (sg_Checksums sig)"
    using assms verifyEntryChecksums_None by blast
  have v: "length sb = 64 \<Longrightarrow> DecodeString (TrimSpace (sg_Value sig)) = Some sb \<Longrightarrow> TrimSpace (sg_Value sig) \<noteq> []" for sb by auto
  show ?thesis unfolding VerifyBundle_def Some option.case using e v
    by (auto simp: Let_def list_ex_iff Some split: option.splits if_splits)
qed (simp add: VerifyBundle_def)

definition sample_bundle :: Bundle where
  "sample_bundle = \<lparr>b_Signature = Some \<lparr>sg_Algorithm = ''Ed25519'', sg_Digest = [], sg_Value = replicate 128 (CHR ''0''),
     sg_Checksums = [(''a.wasm'', ''00'')]\<rparr>, b_Raw = ''raw'', b_EntryDigests = [(''a.wasm'', ''00''), (''manifest.json'', ''11'')]\<rparr>"

theorem bundle_accepted_iff_authentic_witness:
  "\<exists>sig sigBytes. b_Signature sample_bundle = Some sig \<and> DecodeString (TrimSpace (sg_Value sig)) = Some sigBytes \<and> length sigBytes = 64 \<and>
     entries_match (b_EntryDigests sample_bundle) (sg_Checksums sig)"
proof -
  have "VerifyBundle sample_crypto id (Some sample_bundle) [replicate 32 (CHR ''k'')] = None" by code_simp
  moreover have "\<forall>sig. b_Signature sample_bundle = Some sig \<longrightarrow> distinct (map fst (sg_Checksums sig))" by (simp add: sample_bundle_def)
  moreover have "\<forall>sig. b_Signature sample_bundle = Some sig \<longrightarrow> sg_Checksums sig \<noteq> []" by (simp add: sample_bundle_def)
  ultimately show ?thesis using bundle_accepted_iff_authentic[of sample_bundle sample_crypto id "[replicate 32 (CHR ''k'')]"] by blast
qed

lemma parse_keys_sizes: "parse_keys ps = Inr ks \<Longrightarrow> list_all (\<lambda>k. length k = 32) ks"
  by (induction ps arbitrary: ks) (auto simp: Let_def split: if_splits option.splits sum.splits)

text \<open>Configured keys all have the size the verification requires, so none of them is skipped.\<close>

lemma ParseHexPublicKeys_sizes: "ParseHexPublicKeys csv = Inr ks \<Longrightarrow> list_all (\<lambda>k. length k = 32) ks"
  by (auto simp: ParseHexPublicKeys_def parse_keys_sizes split: if_splits)

section \<open>Webhooks\<close>

lemma canonical_names:
  "CanonicalHeaderKey ''X-Metacore-Timestamp'' = ''X-Metacore-Timestamp''" "CanonicalHeaderKey ''X-Metacore-Signature'' = ''X-Metacore-Signature''"
  "CanonicalHeaderKey ''X-Metacore-Nonce'' = ''X-Metacore-Nonce''"
  by code_simp+

lemma add_signature_headers:
  "add_signature s h ''X-Metacore-Timestamp'' = Some (sh_Timestamp s)" "add_signature s h ''X-Metacore-Signature'' = Some (sh_Signature s)"
  "sh_Nonce s = Some n \<Longrightarrow> add_signature s h ''X-Metacore-Nonce'' = Some n"
  by (simp_all add: add_signature_def Header_Set_def canonical_names Let_def split: option.split)

text \<open>A dispatched webhook verifies at its receiver: when the installation has a secret, the request that is sent carries, whatever
  headers the host adds, a timestamp, the nonce and a signature which the receiver accepts exactly while its clock is within the
  allowed skew.\<close>

theorem dispatched_webhook_verifies:
  assumes "Dispatch cy parse valid (Some lk) send now nonce event hostctx inst url method body = Inr (req, resp)" and "lk inst = Inr (Some secret)"
    and "nonce \<noteq> []" and "0 \<le> now" "now < 2 ^ 63" "0 \<le> now'" "now' < 2 ^ 63"
  shows "\<exists>ts sig. rq_header req ''X-Metacore-Timestamp'' = Some ts \<and> rq_header req ''X-Metacore-Signature'' = Some sig \<and>
    rq_header req ''X-Metacore-Nonce'' = Some nonce \<and> rq_body req = body \<and>
    (VerifyWithNonce cy secret now' (rq_method req) (signedPath parse (rq_url req)) (rq_body req) ts nonce sig maxSkew = None \<longleftrightarrow>
       \<bar>now' - now div 1000000000 * 1000000000\<bar> \<le> maxSkew)"
proof -
  let ?m = "if method = [] then ''POST'' else method"
  let ?s = "SignWithNonce cy secret now ?m (signedPath parse url) body nonce"
  obtain h where h: "req = \<lparr>rq_method = ?m, rq_url = url, rq_header = add_signature ?s h, rq_body = body\<rparr>"
    using assms(1,2) by (auto simp: Dispatch_def Let_def split: if_splits sum.splits)
  have n: "sh_Nonce ?s = Some nonce" using assms(3) by (simp add: SignWithNonce_def Let_def)
  have v: "VerifyWithNonce cy secret now' ?m (signedPath parse url) body (sh_Timestamp ?s) nonce (sh_Signature ?s) maxSkew = None \<longleftrightarrow>
      \<bar>now' - now div 1000000000 * 1000000000\<bar> \<le> maxSkew" by (rule round_trip[OF assms(4-7)])
  have "rq_header req ''X-Metacore-Timestamp'' = Some (sh_Timestamp ?s)" "rq_header req ''X-Metacore-Signature'' = Some (sh_Signature ?s)"
    "rq_header req ''X-Metacore-Nonce'' = Some nonce" "rq_body req = body" "rq_method req = ?m" "rq_url req = url"
    using h add_signature_headers(1,2)[of ?s h] add_signature_headers(3)[OF n, of h] by simp_all
  then show ?thesis using v by (intro exI[of _ "sh_Timestamp ?s"] exI[of _ "sh_Signature ?s"]) (simp only: simp_thms)
qed

theorem dispatched_webhook_verifies_witness:
  "\<exists>req ts sig. Dispatch sample_crypto (\<lambda>u. Some (''/h'', [])) (\<lambda>m u. True) (Some (\<lambda>i. Inr (Some ''k''))) (\<lambda>r. Inr ()) 1700000000000000000 ''n'' ''e''
     [(''x-metacore-signature'', ''forged'')] ''i'' ''https://a.b/h'' [] ''b'' = (Inr (req, ()) :: unit dispatch_error + request \<times> unit) \<and>
   VerifyWithNonce sample_crypto ''k'' 1700000000000000000 (rq_method req) (signedPath (\<lambda>u. Some (''/h'', [])) (rq_url req)) (rq_body req) ts ''n'' sig 0 = None"
proof -
  let ?d = "Dispatch sample_crypto (\<lambda>u. Some (''/h'', [])) (\<lambda>m u. True) (Some (\<lambda>i. Inr (Some ''k''))) (\<lambda>r. Inr ()) 1700000000000000000 ''n'' ''e''
     [(''x-metacore-signature'', ''forged'')] ''i'' ''https://a.b/h'' [] ''b'' :: unit dispatch_error + request \<times> unit"
  obtain req where r: "?d = Inr (req, ())" by (simp add: Dispatch_def Let_def)
  from dispatched_webhook_verifies[OF r, of "''k''" 1700000000000000000 0] show ?thesis using r by auto
qed

end
