(* ===== verification/Bus_Model.thy ===== *)
theory Bus_Model
  imports Cap_Model
begin

text \<open>
  The event bus (\<^verbatim>\<open>src/events/events.go\<close>, \<^verbatim>\<open>meta.go\<close>): subscriptions under patterns, publication and the dry-run count. A handler is a
  function of the publisher, the organization, the event, the payload and the state of the world \<open>'w\<close>, which it may change. The
  map of subscriptions is a list of patterns with their subscriptions; the source iterates it in no particular order.
\<close>

datatype bus_error = EmptyPattern | EmptyEventName | Denied cap_error | DurableError "(string \<times> string \<times> string) list" bool

type_synonym ('p, 'w) routing_handler = "string \<Rightarrow> string \<Rightarrow> string \<Rightarrow> 'p \<Rightarrow> 'w \<Rightarrow> (int \<times> string option) \<times> 'w"

record ('p, 'w) bus_subscription =
  bs_AddonKey :: string
  bs_Pattern :: string
  bs_fn :: "('p, 'w) routing_handler"
  bs_est :: "(string \<Rightarrow> string \<Rightarrow> 'w \<Rightarrow> int option) option"
  bs_tap :: bool
  bs_isRouter :: bool
  bs_durable :: bool

record ('p, 'w) Bus =
  bus_enforcer :: "Enforcer option"
  bus_subs :: "(string \<times> ('p, 'w) bus_subscription list) list"

definition NewBus :: "Enforcer option \<Rightarrow> ('p, 'w) Bus" where
  "NewBus e = \<lparr>bus_enforcer = e, bus_subs = []\<rparr>"

definition eventMatches :: "string \<Rightarrow> string \<Rightarrow> bool" where
  "eventMatches pattern event =
     (if pattern = event \<or> pattern = ''*'' then True
      else if HasSuffix pattern ''.*'' then
        (let prefix = TrimSuffix pattern ''.*'' in if event = prefix then True else HasPrefix event (prefix @ ''.''))
      else False)"

definition bus_check :: "netlib \<Rightarrow> ('p, 'w) Bus \<Rightarrow> string \<Rightarrow> string \<Rightarrow> string \<Rightarrow> cap_error option" where
  "bus_check n b addonKey kind target =
     (case bus_enforcer b of
        None \<Rightarrow> None
      | Some e \<Rightarrow> if addonKey = ''kernel'' then None else fst (CheckCapability n e addonKey kind target))"

record subKind =
  sk_tap :: bool
  sk_router :: bool
  sk_durable :: bool

fun add_under :: "string \<Rightarrow> 'a \<Rightarrow> (string \<times> 'a list) list \<Rightarrow> (string \<times> 'a list) list" where
  "add_under k v [] = [(k, [v])]"
| "add_under k v ((k', vs) # m) = (if k' = k then (k', vs @ [v]) # m else (k', vs) # add_under k v m)"

definition subscribeRouting :: "netlib \<Rightarrow> string \<Rightarrow> string \<Rightarrow> ('p, 'w) routing_handler \<Rightarrow> (string \<Rightarrow> string \<Rightarrow> 'w \<Rightarrow> int option) option \<Rightarrow> subKind \<Rightarrow>
    ('p, 'w) Bus \<Rightarrow> bus_error option \<times> ('p, 'w) Bus" where
  "subscribeRouting n addonKey pattern h est kind b =
     (if pattern = [] then (Some EmptyPattern, b)
      else case bus_check n b addonKey ''event:subscribe'' pattern of
             Some err \<Rightarrow> (Some (Denied err), b)
           | None \<Rightarrow>
               (None, b\<lparr>bus_subs := add_under pattern
                  \<lparr>bs_AddonKey = addonKey, bs_Pattern = pattern, bs_fn = h, bs_est = est, bs_tap = sk_tap kind, bs_isRouter = sk_router kind,
                   bs_durable = sk_durable kind\<rparr> (bus_subs b)\<rparr>))"

text \<open>A plain handler counts as one; the variants that know the event's name, routers, taps and durable routers.\<close>

definition Subscribe :: "netlib \<Rightarrow> string \<Rightarrow> string \<Rightarrow> (string \<Rightarrow> string \<Rightarrow> 'p \<Rightarrow> 'w \<Rightarrow> string option \<times> 'w) \<Rightarrow> ('p, 'w) Bus \<Rightarrow> bus_error option \<times> ('p, 'w) Bus" where
  "Subscribe n addonKey pattern h =
     subscribeRouting n addonKey pattern (\<lambda>em org ev p w. case h em org p w of (err, w') \<Rightarrow> ((1, err), w')) None
       \<lparr>sk_tap = False, sk_router = False, sk_durable = False\<rparr>"

definition SubscribeEvent :: "netlib \<Rightarrow> string \<Rightarrow> string \<Rightarrow> (string \<Rightarrow> string \<Rightarrow> string \<Rightarrow> 'p \<Rightarrow> 'w \<Rightarrow> string option \<times> 'w) \<Rightarrow> ('p, 'w) Bus \<Rightarrow> bus_error option \<times> ('p, 'w) Bus" where
  "SubscribeEvent n addonKey pattern h =
     subscribeRouting n addonKey pattern (\<lambda>em org ev p w. case h em org ev p w of (err, w') \<Rightarrow> ((1, err), w')) None
       \<lparr>sk_tap = False, sk_router = False, sk_durable = False\<rparr>"

definition SubscribeRoutingEstimated :: "netlib \<Rightarrow> string \<Rightarrow> string \<Rightarrow> ('p, 'w) routing_handler \<Rightarrow> (string \<Rightarrow> string \<Rightarrow> 'w \<Rightarrow> int option) option \<Rightarrow>
    ('p, 'w) Bus \<Rightarrow> bus_error option \<times> ('p, 'w) Bus" where
  "SubscribeRoutingEstimated n addonKey pattern h est =
     subscribeRouting n addonKey pattern h est \<lparr>sk_tap = False, sk_router = True, sk_durable = False\<rparr>"

definition SubscribeTap :: "netlib \<Rightarrow> string \<Rightarrow> string \<Rightarrow> (string \<Rightarrow> string \<Rightarrow> 'p \<Rightarrow> 'w \<Rightarrow> string option \<times> 'w) \<Rightarrow> ('p, 'w) Bus \<Rightarrow> bus_error option \<times> ('p, 'w) Bus" where
  "SubscribeTap n addonKey pattern h =
     subscribeRouting n addonKey pattern (\<lambda>em org ev p w. case h em org p w of (err, w') \<Rightarrow> ((1, err), w')) None
       \<lparr>sk_tap = True, sk_router = False, sk_durable = False\<rparr>"

definition SubscribeDurableRouting :: "netlib \<Rightarrow> string \<Rightarrow> string \<Rightarrow> ('p, 'w) routing_handler \<Rightarrow> (string \<Rightarrow> string \<Rightarrow> 'w \<Rightarrow> int option) option \<Rightarrow>
    ('p, 'w) Bus \<Rightarrow> bus_error option \<times> ('p, 'w) Bus" where
  "SubscribeDurableRouting n addonKey pattern h est =
     subscribeRouting n addonKey pattern h est \<lparr>sk_tap = False, sk_router = True, sk_durable = True\<rparr>"

section \<open>Publication\<close>

definition matched :: "bool \<Rightarrow> ('p, 'w) Bus \<Rightarrow> string \<Rightarrow> ('p, 'w) bus_subscription list" where
  "matched durableOnly b event =
     concat (map (\<lambda>(pattern, subs). if eventMatches pattern event then filter (\<lambda>s. durableOnly \<longrightarrow> bs_durable s) subs else []) (bus_subs b))"

text \<open>The loop over the matched subscriptions: the count, the errors of durable routers, the state of the world.\<close>

fun fan_out :: "string \<Rightarrow> string \<Rightarrow> string \<Rightarrow> 'p \<Rightarrow> ('p, 'w) bus_subscription list \<Rightarrow> 'w \<Rightarrow> int \<times> (string \<times> string \<times> string) list \<times> 'w" where
  "fan_out em org event p [] w = (0, [], w)"
| "fan_out em org event p (s # ss) w =
     (case bs_fn s em org event p w of
        ((k, err), w1) \<Rightarrow>
          (case fan_out em org event p ss w1 of
             (delivered, errs, w2) \<Rightarrow>
               ((if k > 0 then k else 0) + delivered,
                (case err of Some e \<Rightarrow> if bs_durable s then [(bs_AddonKey s, bs_Pattern s, e)] else [] | None \<Rightarrow> []) @ errs, w2)))"

definition bus_publish :: "netlib \<Rightarrow> ('p, 'w) Bus \<Rightarrow> string \<Rightarrow> string \<Rightarrow> string \<Rightarrow> 'p \<Rightarrow> bool \<Rightarrow> 'w \<Rightarrow> int \<times> bus_error option \<times> 'w" where
  "bus_publish n b addonKey event org p durableOnly w =
     (if event = [] then (0, Some EmptyEventName, w)
      else case bus_check n b addonKey ''event:emit'' event of
             Some err \<Rightarrow> (0, Some (Denied err), w)
           | None \<Rightarrow>
               (case fan_out addonKey org event p (matched durableOnly b event) w of
                  (delivered, errs, w') \<Rightarrow> (delivered, if errs = [] then None else Some (DurableError errs (\<not> durableOnly)), w')))"

definition PublishWithCount :: "netlib \<Rightarrow> ('p, 'w) Bus \<Rightarrow> string \<Rightarrow> string \<Rightarrow> string \<Rightarrow> 'p \<Rightarrow> 'w \<Rightarrow> int \<times> bus_error option \<times> 'w" where
  "PublishWithCount n b addonKey event org p = bus_publish n b addonKey event org p False"

definition Publish :: "netlib \<Rightarrow> ('p, 'w) Bus \<Rightarrow> string \<Rightarrow> string \<Rightarrow> string \<Rightarrow> 'p \<Rightarrow> 'w \<Rightarrow> bus_error option \<times> 'w" where
  "Publish n b addonKey event org p w = snd (PublishWithCount n b addonKey event org p w)"

definition PublishDurableOnly :: "netlib \<Rightarrow> ('p, 'w) Bus \<Rightarrow> string \<Rightarrow> string \<Rightarrow> string \<Rightarrow> 'p \<Rightarrow> 'w \<Rightarrow> bus_error option \<times> 'w" where
  "PublishDurableOnly n b addonKey event org p w = snd (bus_publish n b addonKey event org p True w)"

definition Unsubscribe :: "string \<Rightarrow> ('p, 'w) Bus \<Rightarrow> ('p, 'w) Bus" where
  "Unsubscribe addonKey b =
     b\<lparr>bus_subs := filter (\<lambda>(_, ss). ss \<noteq> []) (map (\<lambda>(pat, ss). (pat, filter (\<lambda>s. bs_AddonKey s \<noteq> addonKey) ss)) (bus_subs b))\<rparr>"

definition CheckEmit :: "netlib \<Rightarrow> ('p, 'w) Bus \<Rightarrow> string \<Rightarrow> string \<Rightarrow> cap_error option" where
  "CheckEmit n b addonKey event = bus_check n b addonKey ''event:emit'' event"

fun estimate_from :: "string \<Rightarrow> string \<Rightarrow> ('p, 'w) bus_subscription list \<Rightarrow> 'w \<Rightarrow> int \<Rightarrow> int" where
  "estimate_from org event [] w n = n"
| "estimate_from org event (s # ss) w n =
     (if bs_tap s then estimate_from org event ss w n
      else case bs_est s of
             Some est \<Rightarrow> (case est org event w of None \<Rightarrow> -1 | Some c \<Rightarrow> estimate_from org event ss w (n + c))
           | None \<Rightarrow> if bs_isRouter s then -1 else estimate_from org event ss w (n + 1))"

definition EstimateSubscribers :: "('p, 'w) Bus \<Rightarrow> string \<Rightarrow> string \<Rightarrow> 'w \<Rightarrow> int" where
  "EstimateSubscribers b org event w = estimate_from org event (matched False b event) w 0"

end
