(* ===== verification/Dispatch_Model.thy ===== *)
theory Dispatch_Model
  imports Bus_Model Guarded "HOL-Library.Product_Lexorder"
begin

text \<open>
  The durable delivery of events to subscribed addons (\<^verbatim>\<open>src/dispatch\<close>): routing of a publication, the ledger of deliveries with its
  claims, leases and fenced results, the outcome of an attempt, replays. The clock, fresh uuids and tokens, SHA-256, JSON decoding,
  random numbers, the invokers and the host's registry are arguments. A JSON object is the list of its members, any other
  payload its text; a ledger row keeps the decoded payload, \<open>None\<close> standing for the empty text of rows without one.
\<close>

section \<open>Subscriptions, payloads, rows\<close>

record Subscription =
  sb_AddonKey :: string
  sb_Installation :: string
  sb_Event :: string
  sb_HandlerType :: string
  sb_Function :: string
  sb_Settings :: "(string \<times> string) list"

record Envelope =
  env_Schema :: string
  env_ID :: string
  env_Name :: string
  env_Version :: int
  env_Source :: string
  env_OrgID :: string
  env_OccurredAt :: string
  env_Aggregate :: "(string \<times> string) option"
  env_Sequence :: int
  env_CorrelationID :: string
  env_CausationID :: string
  env_ActorID :: string
  env_BranchID :: string
  env_Generation :: int

datatype jval = JText string | JString string | JEnvelope Envelope

datatype dpayload = Obj "(string \<times> jval) list" | NotObj string

datatype delivery_status = DPending | DDelivered | DDead | DCancelled

record Delivery =
  d_ID :: string
  d_DeliveryID :: string
  d_OrganizationID :: string
  d_Event :: string
  d_AddonKey :: string
  d_HandlerType :: string
  d_Export :: string
  d_Status :: delivery_status
  d_Attempts :: int
  d_LastError :: string
  d_CreatedAt :: int
  d_UpdatedAt :: int
  d_DeliveredAt :: "int option"
  d_Emitter :: string
  d_Payload :: "dpayload option"
  d_SubEvent :: string
  d_EventID :: string
  d_ActorID :: string
  d_BranchID :: string
  d_CorrelationID :: string
  d_Generation :: int
  d_RootDeliveryID :: string
  d_NextAttemptAt :: "int option"
  d_LeaseUntil :: "int option"
  d_LeaseToken :: string
  d_NotReadySince :: "int option"

record dOptions =
  do_maxAttempts :: int
  do_retryBackoff :: int
  do_retryBackoffMax :: int
  do_notReadyWait :: int
  do_lease :: int

text \<open>The clock, the fresh row id, the token of a claim, SHA-256 and \<^verbatim>\<open>rand.Int63n\<close>.\<close>

record denv =
  de_now :: int
  de_uuid :: string
  de_token :: string
  de_sha256 :: "string \<Rightarrow> string"
  de_rand :: "int \<Rightarrow> int"

definition ms :: int where "ms = 1000000"

definition defaultOptions :: dOptions where
  "defaultOptions = \<lparr>do_maxAttempts = 3, do_retryBackoff = 500 * ms, do_retryBackoffMax = 30000 * ms, do_notReadyWait = 300000 * ms, do_lease = 120000 * ms\<rparr>"

definition WithMaxAttempts :: "int \<Rightarrow> dOptions \<Rightarrow> dOptions" where
  "WithMaxAttempts n opts = opts\<lparr>do_maxAttempts := if n < 1 then 1 else n\<rparr>"

definition WithRetryBackoff :: "int \<Rightarrow> int \<Rightarrow> dOptions \<Rightarrow> dOptions" where
  "WithRetryBackoff base max_wait opts =
     (let opts1 = opts\<lparr>do_retryBackoff := if base < 0 then 0 else base\<rparr>
      in if max_wait > 0 then opts1\<lparr>do_retryBackoffMax := max_wait\<rparr> else opts1)"

definition WithNotReadyWait :: "int \<Rightarrow> dOptions \<Rightarrow> dOptions" where
  "WithNotReadyWait d opts = opts\<lparr>do_notReadyWait := if d < 0 then 0 else d\<rparr>"

definition WithLease :: "int \<Rightarrow> dOptions \<Rightarrow> dOptions" where
  "WithLease d opts = (if d > 0 then opts\<lparr>do_lease := d\<rparr> else opts)"

section \<open>Keys, texts, waits\<close>

text \<open>The bytes hashed into the key of a delivery; every field is followed by a zero byte.\<close>

definition delivery_text :: "string \<Rightarrow> string \<Rightarrow> Subscription \<Rightarrow> string" where
  "delivery_text eventName occurrenceID sub =
     concat (map (\<lambda>f. f @ [CHR 0x00]) [eventName, occurrenceID, sb_AddonKey sub, sb_Event sub, sb_HandlerType sub, sb_Function sub])"

definition deliveryID :: "(string \<Rightarrow> string) \<Rightarrow> string \<Rightarrow> string \<Rightarrow> Subscription \<Rightarrow> string" where
  "deliveryID sha eventName occurrenceID sub = hex_encode (sha (delivery_text eventName occurrenceID sub))"

definition replayDeliveryID :: "(string \<Rightarrow> string) \<Rightarrow> string \<Rightarrow> int \<Rightarrow> string" where
  "replayDeliveryID sha rootID gen = hex_encode (sha (rootID @ [CHR 0x00] @ ''generation:'' @ Itoa gen))"

definition truncErr :: "string \<Rightarrow> string" where
  "truncErr s = (if length s > 2000 then take 2000 s else s)"

definition shift_left :: "int \<Rightarrow> int \<Rightarrow> int" where
  "shift_left base k = (if k \<ge> 64 then 0 else wrap64 (base * 2 ^ nat k))"

definition backoffFor :: "dOptions \<Rightarrow> (int \<Rightarrow> int) \<Rightarrow> int \<Rightarrow> int" where
  "backoffFor opts rnd attempt =
     (let base = do_retryBackoff opts in
      if base \<le> 0 then 0
      else let wait0 = shift_left base (attempt - 2);
               wait = (if wait0 \<le> 0 \<or> wait0 > do_retryBackoffMax opts then do_retryBackoffMax opts else wait0);
               jitter = rnd (wait div 5 * 2 + 1) - wait div 5
           in if wait + jitter > 0 then wait + jitter else wait)"

definition maxRetryAfter :: int where "maxRetryAfter = 3600000 * ms"

definition msToDuration :: "int option \<Rightarrow> int" where
  "msToDuration m0 =
     (case m0 of
        None \<Rightarrow> 0
      | Some m \<Rightarrow> if m \<le> 0 then 0 else let d = wrap64 (m * ms) in if d > maxRetryAfter \<or> d < 0 then maxRetryAfter else d)"

section \<open>Stamping payloads\<close>

fun set_member :: "string \<Rightarrow> jval \<Rightarrow> (string \<times> jval) list \<Rightarrow> (string \<times> jval) list" where
  "set_member k v [] = [(k, v)]"
| "set_member k v ((k', v') # m) = (if k' = k then (k, v) # m else (k', v') # set_member k v m)"

definition stampString :: "string \<Rightarrow> string \<Rightarrow> dpayload \<Rightarrow> dpayload" where
  "stampString key value p = (case p of Obj obj \<Rightarrow> Obj (set_member key (JString value) obj) | NotObj raw \<Rightarrow> NotObj raw)"

definition stampActorID :: "string \<Rightarrow> dpayload \<Rightarrow> dpayload" where
  "stampActorID actor = stampString ''actor_id'' actor"

definition stampEventName :: "string \<Rightarrow> dpayload \<Rightarrow> dpayload" where
  "stampEventName name p =
     (if name = [] then p
      else case p of
             NotObj raw \<Rightarrow> NotObj raw
           | Obj obj \<Rightarrow> if map_of obj ''event'' \<noteq> None then p else Obj (set_member ''event'' (JString name) obj))"

definition stampEnvelope :: "Envelope \<Rightarrow> dpayload \<Rightarrow> dpayload" where
  "stampEnvelope env p = (case p of Obj obj \<Rightarrow> Obj (set_member ''envelope'' (JEnvelope env) obj) | NotObj raw \<Rightarrow> NotObj raw)"

text \<open>A stored object carries the envelope the dispatcher stamped.\<close>

definition withGeneration :: "dpayload \<Rightarrow> int \<Rightarrow> dpayload" where
  "withGeneration p gen =
     (if gen \<le> 0 then p
      else case p of
             NotObj raw \<Rightarrow> NotObj raw
           | Obj obj \<Rightarrow>
               (case map_of obj ''envelope'' of
                  Some (JEnvelope env) \<Rightarrow> Obj (set_member ''envelope'' (JEnvelope (env\<lparr>env_Generation := gen\<rparr>)) obj)
                | _ \<Rightarrow> p))"

section \<open>The ledger\<close>

type_synonym ddb = "Delivery list"

text \<open>\<^verbatim>\<open>INSERT .. ON CONFLICT (delivery_id) DO NOTHING\<close>.\<close>

definition insert_delivery :: "Delivery \<Rightarrow> ddb \<Rightarrow> bool \<times> ddb" where
  "insert_delivery r db = (if list_ex (\<lambda>x. d_DeliveryID x = d_DeliveryID r) db then (False, db) else (True, db @ [r]))"

definition due_delivery :: "int \<Rightarrow> int \<Rightarrow> Delivery \<Rightarrow> bool" where
  "due_delivery maxAttempts now r \<longleftrightarrow>
     d_Status r = DPending \<and> d_Payload r \<noteq> None \<and> (case d_NextAttemptAt r of Some t \<Rightarrow> t \<le> now | None \<Rightarrow> False) \<and>
     (case d_LeaseUntil r of None \<Rightarrow> True | Some t \<Rightarrow> t < now) \<and> d_Attempts r < maxAttempts"

text \<open>The claim's candidates: rows locked by another session are skipped.\<close>

definition claim_candidates :: "dOptions \<Rightarrow> int \<Rightarrow> (string \<Rightarrow> bool) \<Rightarrow> nat \<Rightarrow> ddb \<Rightarrow> ddb" where
  "claim_candidates opts now locked n db =
     take n (sort_key (\<lambda>r. (the (d_NextAttemptAt r), d_CreatedAt r)) (filter (\<lambda>r. due_delivery (do_maxAttempts opts) now r \<and> \<not> locked (d_DeliveryID r)) db))"

definition claimed :: "dOptions \<Rightarrow> denv \<Rightarrow> Delivery \<Rightarrow> Delivery" where
  "claimed opts e r = r\<lparr>d_Attempts := d_Attempts r + 1, d_LeaseUntil := Some (de_now e + do_lease opts), d_LeaseToken := de_token e, d_UpdatedAt := de_now e\<rparr>"

definition claim_deliveries :: "dOptions \<Rightarrow> denv \<Rightarrow> (string \<Rightarrow> bool) \<Rightarrow> nat \<Rightarrow> ddb \<Rightarrow> ddb \<times> ddb" where
  "claim_deliveries opts e locked n db =
     (let ids = map d_ID (claim_candidates opts (de_now e) locked n db) in
      (update_where (\<lambda>r. d_ID r \<in> set ids) (claimed opts e) db,
       map (claimed opts e) (filter (\<lambda>r. d_ID r \<in> set ids) db)))"

definition fenced :: "Delivery \<Rightarrow> Delivery \<Rightarrow> bool" where
  "fenced r x \<longleftrightarrow> d_DeliveryID x = d_DeliveryID r \<and> d_LeaseToken x = d_LeaseToken r \<and> d_Status x = DPending"

text \<open>An update of the row under the fence, and whether it affected a row.\<close>

definition fenced_update :: "Delivery \<Rightarrow> (Delivery \<Rightarrow> Delivery) \<Rightarrow> ddb \<Rightarrow> bool \<times> ddb" where
  "fenced_update r f db = (list_ex (fenced r) db, update_where (fenced r) f db)"

definition heartbeat_row :: "dOptions \<Rightarrow> int \<Rightarrow> Delivery \<Rightarrow> Delivery" where
  "heartbeat_row opts now x = x\<lparr>d_LeaseUntil := Some (now + do_lease opts), d_UpdatedAt := now\<rparr>"

definition delivered_row :: "int \<Rightarrow> int \<Rightarrow> Delivery \<Rightarrow> Delivery" where
  "delivered_row now attempts x =
     x\<lparr>d_Status := DDelivered, d_Attempts := attempts, d_DeliveredAt := Some now, d_LastError := [], d_LeaseUntil := None, d_LeaseToken := [],
       d_NotReadySince := None\<rparr>"

definition dead_row :: "string \<Rightarrow> Delivery \<Rightarrow> Delivery" where
  "dead_row msg x = x\<lparr>d_Status := DDead, d_LastError := truncErr msg, d_LeaseUntil := None, d_LeaseToken := [], d_NotReadySince := None\<rparr>"

definition cancelled_row :: "string \<Rightarrow> Delivery \<Rightarrow> Delivery" where
  "cancelled_row msg x = x\<lparr>d_Status := DCancelled, d_LastError := truncErr msg, d_LeaseUntil := None, d_LeaseToken := [], d_NotReadySince := None\<rparr>"

definition rescheduled_row :: "int \<Rightarrow> Delivery \<Rightarrow> int \<Rightarrow> string \<Rightarrow> bool \<Rightarrow> int option \<Rightarrow> Delivery \<Rightarrow> Delivery" where
  "rescheduled_row now r delay msg refund since x =
     x\<lparr>d_Attempts := (if refund \<and> d_Attempts r > 0 then d_Attempts r - 1 else d_Attempts r), d_LastError := truncErr msg,
       d_NextAttemptAt := Some (now + delay), d_LeaseUntil := None, d_LeaseToken := [], d_NotReadySince := since\<rparr>"

definition released_row :: "int \<Rightarrow> Delivery \<Rightarrow> Delivery \<Rightarrow> Delivery" where
  "released_row now r x =
     x\<lparr>d_Attempts := (if d_Attempts r > 0 then d_Attempts r - 1 else d_Attempts r), d_NextAttemptAt := Some now, d_LeaseUntil := None, d_LeaseToken := []\<rparr>"

definition exhausted :: "int \<Rightarrow> int \<Rightarrow> Delivery \<Rightarrow> bool" where
  "exhausted maxAttempts now r \<longleftrightarrow>
     d_Status r = DPending \<and> d_Payload r \<noteq> None \<and> (case d_LeaseUntil r of Some t \<Rightarrow> t < now | None \<Rightarrow> False) \<and> d_Attempts r \<ge> maxAttempts"

definition reap_message :: "Delivery \<Rightarrow> string" where
  "reap_message r = ''exhausted retries: lease expired during attempt '' @ Itoa (d_Attempts r) @ '' (the process handling it died or hung)''"

definition reaped_row :: "Delivery \<Rightarrow> Delivery \<Rightarrow> Delivery" where
  "reaped_row r x = x\<lparr>d_Status := DDead, d_LastError := truncErr (reap_message r), d_LeaseUntil := None, d_LeaseToken := []\<rparr>"

text \<open>The rows a reaper finds, and the fenced write it then makes for each.\<close>

definition exhausted_rows :: "dOptions \<Rightarrow> int \<Rightarrow> ddb \<Rightarrow> ddb" where
  "exhausted_rows opts now db = take 50 (filter (exhausted (do_maxAttempts opts) now) db)"

definition reap_one :: "Delivery \<Rightarrow> ddb \<Rightarrow> bool \<times> ddb" where
  "reap_one r = fenced_update r (reaped_row r)"

definition ForgetDeliveries :: "string \<Rightarrow> string \<Rightarrow> ddb \<Rightarrow> ddb" where
  "ForgetDeliveries addonKey eventName db =
     (if addonKey = [] \<or> eventName = [] then db else filter (\<lambda>r. \<not> (d_AddonKey r = addonKey \<and> d_Event r = eventName)) db)"

end
