(* ===== verification/Dispatch_Run.thy ===== *)
theory Dispatch_Run
  imports Dispatch_Model
begin

text \<open>
  What the dispatcher does with the ledger: routing a publication to its subscribers (\<^verbatim>\<open>handle\<close>, \<^verbatim>\<open>enqueue\<close>), one attempt of a claimed
  delivery (\<^verbatim>\<open>runClaimed\<close>, \<^verbatim>\<open>invoke\<close>), the reaper and \<^verbatim>\<open>Replay\<close>. An attempt reads and calls first and then makes at most one fenced write;
  the two parts are separate definitions, so that other sessions can act in between.
\<close>

section \<open>Routing a publication\<close>

record canonicalEvent =
  ce_ID :: string
  ce_OccurrenceID :: string
  ce_Model :: string
  ce_ActorID :: string
  ce_BranchID :: string
  ce_CorrelationID :: string

record Meta =
  me_ID :: string
  me_Version :: int
  me_OccurredAt :: string
  me_AggregateType :: string
  me_AggregateID :: string
  me_Sequence :: int
  me_CausationID :: string

text \<open>What the context of a publication carries.\<close>

record pub_ctx =
  cx_actor :: string
  cx_branch :: string
  cx_correlation :: string
  cx_causation :: string
  cx_emitter :: string
  cx_meta :: Meta

text \<open>What publishing takes from outside: the ledger's environment per subscription, decoding and printing of payloads, \<^verbatim>\<open>uuid.Parse\<close>
  (true for a valid uuid that is not nil), a fresh uuid, the printed time, the host's model registry.\<close>

record pub_env =
  pe_ledger :: "nat \<Rightarrow> denv"
  pe_decode :: "dpayload \<Rightarrow> canonicalEvent"
  pe_bytes :: "dpayload \<Rightarrow> string"
  pe_uuid_ok :: "string \<Rightarrow> bool"
  pe_fresh :: string
  pe_rfc3339 :: string
  pe_resolver :: "(string \<Rightarrow> string) option"

definition canonicalizeEventName :: "string \<Rightarrow> string \<Rightarrow> string" where
  "canonicalizeEventName eventName resolved =
     (case split_at_char (CHR ''.'') eventName of
        [a, m, act] \<Rightarrow> join_with ''.'' [a, resolved, act]
      | _ \<Rightarrow> eventName)"

definition checkModelKey :: "(string \<Rightarrow> string) option \<Rightarrow> string \<Rightarrow> canonicalEvent \<Rightarrow> string" where
  "checkModelKey resolver eventName ce =
     (case resolver of
        None \<Rightarrow> eventName
      | Some f \<Rightarrow>
          if ce_Model ce = [] then eventName
          else if length (split_at_char (CHR ''.'') eventName) \<noteq> 3 then eventName
          else let resolved = f (ce_Model ce) in
               if resolved = [] \<or> resolved = ce_Model ce then eventName else canonicalizeEventName eventName resolved)"

definition buildEnvelope :: "pub_env \<Rightarrow> pub_ctx \<Rightarrow> string \<Rightarrow> string \<Rightarrow> string \<Rightarrow> string \<Rightarrow> canonicalEvent \<Rightarrow> Envelope" where
  "buildEnvelope e cx org eventName occurrenceID emitter ce =
     (let meta = cx_meta cx in
      \<lparr>env_Schema = ''metacore.event/1'', env_ID = occurrenceID, env_Name = eventName,
       env_Version = (if me_Version meta \<le> 0 then 1 else me_Version meta),
       env_Source = (if emitter = [] then ''kernel'' else emitter), env_OrgID = org,
       env_OccurredAt = (if me_OccurredAt meta = [] then pe_rfc3339 e else me_OccurredAt meta),
       env_Aggregate =
         (if me_AggregateType meta \<noteq> [] \<and> me_AggregateID meta \<noteq> [] then Some (me_AggregateType meta, me_AggregateID meta)
          else if ce_ID ce \<noteq> [] \<and> ce_Model ce \<noteq> [] then Some (ce_Model ce, ce_ID ce) else None),
       env_Sequence = me_Sequence meta, env_CorrelationID = ce_CorrelationID ce,
       env_CausationID = (if me_CausationID meta = [] then cx_causation cx else me_CausationID meta),
       env_ActorID = ce_ActorID ce, env_BranchID = ce_BranchID ce, env_Generation = 0\<rparr>)"

text \<open>The row \<^verbatim>\<open>enqueue\<close> inserts, already leased for the first attempt.\<close>

definition new_delivery :: "dOptions \<Rightarrow> denv \<Rightarrow> string \<Rightarrow> string \<Rightarrow> string \<Rightarrow> string \<Rightarrow> canonicalEvent \<Rightarrow> dpayload \<Rightarrow> Subscription \<Rightarrow> Delivery" where
  "new_delivery opts e org eventName occurrenceID emitter ce p sub =
     (let i = deliveryID (de_sha256 e) eventName occurrenceID sub in
      \<lparr>d_ID = de_uuid e, d_DeliveryID = i, d_OrganizationID = org, d_Event = eventName, d_AddonKey = sb_AddonKey sub,
       d_HandlerType = sb_HandlerType sub, d_Export = sb_Function sub, d_Status = DPending, d_Attempts = 1, d_LastError = [],
       d_CreatedAt = de_now e, d_UpdatedAt = de_now e, d_DeliveredAt = None, d_Emitter = emitter, d_Payload = Some p, d_SubEvent = sb_Event sub,
       d_EventID = occurrenceID, d_ActorID = ce_ActorID ce, d_BranchID = ce_BranchID ce, d_CorrelationID = ce_CorrelationID ce, d_Generation = 0,
       d_RootDeliveryID = i, d_NextAttemptAt = Some (de_now e), d_LeaseUntil = Some (de_now e + do_lease opts), d_LeaseToken = de_token e,
       d_NotReadySince = None\<rparr>)"

definition enqueue_delivery :: "dOptions \<Rightarrow> denv \<Rightarrow> string \<Rightarrow> string \<Rightarrow> string \<Rightarrow> string \<Rightarrow> canonicalEvent \<Rightarrow> dpayload \<Rightarrow> Subscription \<Rightarrow> ddb \<Rightarrow> bool \<times> ddb" where
  "enqueue_delivery opts e org eventName occurrenceID emitter ce p sub db =
     insert_delivery (new_delivery opts e org eventName occurrenceID emitter ce p sub) db"

fun enqueue_all :: "dOptions \<Rightarrow> (nat \<Rightarrow> denv) \<Rightarrow> string \<Rightarrow> string \<Rightarrow> string \<Rightarrow> string \<Rightarrow> canonicalEvent \<Rightarrow> dpayload \<Rightarrow> nat \<Rightarrow> Subscription list \<Rightarrow> ddb \<Rightarrow> nat \<times> ddb" where
  "enqueue_all opts e org eventName occurrenceID emitter ce p i [] db = (0, db)"
| "enqueue_all opts e org eventName occurrenceID emitter ce p i (sub # subs) db =
     (if \<not> eventMatches (sb_Event sub) eventName then enqueue_all opts e org eventName occurrenceID emitter ce p (Suc i) subs db
      else case enqueue_delivery opts (e i) org eventName occurrenceID emitter ce p sub db of
             (ok, db1) \<Rightarrow>
               (case enqueue_all opts e org eventName occurrenceID emitter ce p (Suc i) subs db1 of
                  (k, db2) \<Rightarrow> ((if ok then Suc k else k), db2)))"

text \<open>The steps of \<^verbatim>\<open>handle\<close> before the subscriptions are read: the actor, the branch, the identity of the publication.\<close>

definition with_actor :: "pub_ctx \<Rightarrow> canonicalEvent \<Rightarrow> dpayload \<Rightarrow> canonicalEvent \<times> dpayload" where
  "with_actor cx ce p =
     (if cx_actor cx \<noteq> [] \<and> (\<not> (ce_ID ce \<noteq> [] \<and> ce_Model ce \<noteq> []) \<or> ce_ActorID ce = [])
      then (ce\<lparr>ce_ActorID := cx_actor cx\<rparr>, stampActorID (cx_actor cx) p) else (ce, p))"

definition with_branch :: "(string \<Rightarrow> bool) \<Rightarrow> pub_ctx \<Rightarrow> canonicalEvent \<Rightarrow> dpayload \<Rightarrow> canonicalEvent \<times> dpayload" where
  "with_branch uuid_ok cx ce p =
     (if uuid_ok (ce_BranchID ce) then (ce, p)
      else if cx_branch cx \<noteq> [] then (ce\<lparr>ce_BranchID := cx_branch cx\<rparr>, stampString ''branch_id'' (cx_branch cx) p)
      else (ce\<lparr>ce_BranchID := []\<rparr>, p))"

definition occurrence_of :: "pub_env \<Rightarrow> pub_ctx \<Rightarrow> canonicalEvent \<Rightarrow> dpayload \<Rightarrow> string" where
  "occurrence_of e cx ce p =
     (if ce_OccurrenceID ce \<noteq> [] then ce_OccurrenceID ce
      else if me_ID (cx_meta cx) \<noteq> [] then me_ID (cx_meta cx)
      else if ce_ID ce \<noteq> [] then ce_ID ce @ '':'' @ hex_encode (de_sha256 (pe_ledger e 0) (pe_bytes e p))
      else pe_fresh e)"

definition MaxEventNameLen :: nat where "MaxEventNameLen = 512"

text \<open>The routed name, the occurrence, the emitter, the event's identity and the payload every subscriber receives.\<close>

definition prepare :: "pub_env \<Rightarrow> pub_ctx \<Rightarrow> string \<Rightarrow> string \<Rightarrow> dpayload \<Rightarrow> string \<times> string \<times> canonicalEvent \<times> dpayload" where
  "prepare e cx org eventName0 raw =
     (let p0 = stampEventName eventName0 raw;
          (ce1, p1) = with_actor cx (pe_decode e p0) p0;
          (ce2, p2) = with_branch (pe_uuid_ok e) cx ce1 p1;
          eventName = checkModelKey (pe_resolver e) eventName0 ce2;
          occurrenceID = occurrence_of e cx ce2 p2;
          emitter = cx_emitter cx;
          p3 = (if emitter \<noteq> [] then stampString ''emitter'' emitter p2 else p2);
          ce3 = (if ce_CorrelationID ce2 = [] then ce2\<lparr>ce_CorrelationID := cx_correlation cx\<rparr> else ce2)
      in (eventName, occurrenceID, ce3, stampEnvelope (buildEnvelope e cx org eventName occurrenceID emitter ce3) p3))"

text \<open>\<^verbatim>\<open>handle\<close>: the number of deliveries enqueued, the provider's error, the ledger. \<open>raw\<close> is \<open>None\<close> when the payload has no JSON form; every
  insertion succeeds or finds the delivery already recorded.\<close>

definition handle_event :: "dOptions \<Rightarrow> pub_env \<Rightarrow> pub_ctx \<Rightarrow> (string \<Rightarrow> string + Subscription list) \<Rightarrow> string \<Rightarrow> string \<Rightarrow> dpayload option \<Rightarrow> ddb \<Rightarrow> nat \<times> string option \<times> ddb" where
  "handle_event opts e cx provider org eventName raw db =
     (if length eventName > MaxEventNameLen then (0, None, db)
      else if eventName = [] then (0, None, db)
      else case raw of
             None \<Rightarrow> (0, None, db)
           | Some p \<Rightarrow>
               (case prepare e cx org eventName p of
                  (name, occurrenceID, ce, p') \<Rightarrow>
                    (case provider org of
                       Inl err \<Rightarrow> (0, Some err, db)
                     | Inr subs \<Rightarrow>
                         (case enqueue_all opts (pe_ledger e) org name occurrenceID (cx_emitter cx) ce p' 0 subs db of
                            (k, db') \<Rightarrow> (k, None, db')))))"

definition estimate_deliveries :: "(string \<Rightarrow> string + Subscription list) \<Rightarrow> string \<Rightarrow> string \<Rightarrow> nat option" where
  "estimate_deliveries provider org eventName =
     (case provider org of Inl _ \<Rightarrow> None | Inr subs \<Rightarrow> Some (length (filter (\<lambda>s. eventMatches (sb_Event s) eventName) subs)))"

section \<open>One attempt\<close>

text \<open>An error of an invocation: of the invoker, with whether it says the subscriber is not ready, or a guest's answer with its verdict on
  retrying.\<close>

datatype attempt_error = InvokerError string bool | GuestFailure string "bool option" int

definition attempt_text :: "attempt_error \<Rightarrow> string" where
  "attempt_text err = (case err of InvokerError m _ \<Rightarrow> m | GuestFailure m _ _ \<Rightarrow> m)"

definition isNotReady :: "attempt_error \<Rightarrow> bool" where
  "isNotReady err = (case err of InvokerError _ nr \<Rightarrow> nr | GuestFailure _ _ _ \<Rightarrow> False)"

text \<open>A guest's answer: success, the error's code, message and message key, and the two places of the retry verdict.\<close>

record guest_answer =
  ga_Success :: "bool option"
  ga_Error :: "(string \<times> string \<times> string) option"

record guest_retry =
  gr_Retryable :: "bool option"
  gr_RetryAfterMs :: "int option"
  gr_Error :: "(bool option \<times> int option) option"

record invokers =
  iv_wasm :: "(string \<Rightarrow> Subscription \<Rightarrow> dpayload \<Rightarrow> (string \<times> bool) + string) option"
  iv_native :: "(string \<Rightarrow> Subscription \<Rightarrow> dpayload \<Rightarrow> (string \<times> bool) + string) option"
  iv_compiled :: "(string \<Rightarrow> (string \<Rightarrow> dpayload \<Rightarrow> (string \<times> bool) option) option) option"
  iv_answer :: "string \<Rightarrow> guest_answer option"
  iv_retry :: "string \<Rightarrow> guest_retry option"
  iv_host_envelope :: "string \<Rightarrow> (string \<times> string \<times> nat) option"
  iv_lower :: "string \<Rightarrow> string"

fun IndexStr :: "string \<Rightarrow> string \<Rightarrow> nat option" where
  "IndexStr [] sub = (if sub = [] then Some 0 else None)"
| "IndexStr (c # cs) sub = (if take (length sub) (c # cs) = sub then Some 0 else map_option Suc (IndexStr cs sub))"

text \<open>\<open>iv_host_envelope\<close> decodes the JSON value at the start of a text and says how much of it was read.\<close>

definition unwrapHostEnvelope :: "invokers \<Rightarrow> string \<Rightarrow> string" where
  "unwrapHostEnvelope iv msg =
     (case IndexStr msg ([CHR 0x7B, CHR 0x22] @ ''error'' @ [CHR 0x22]) of
        None \<Rightarrow> msg
      | Some i \<Rightarrow>
          (case iv_host_envelope iv (drop i msg) of
             None \<Rightarrow> msg
           | Some (code, m, k) \<Rightarrow>
               if code = [] \<and> m = [] then msg
               else let rest = TrimSpace (drop (i + k) msg); out = take i msg @ ''host '' @ code @ '': '' @ m
                    in if rest \<noteq> [] then out @ '' '' @ rest else out))"

definition guestEnvelopeError :: "invokers \<Rightarrow> string \<Rightarrow> string" where
  "guestEnvelopeError iv raw =
     (if raw = [] then []
      else case iv_answer iv raw of
             None \<Rightarrow> []
           | Some a \<Rightarrow>
               if ga_Success a \<noteq> Some False then []
               else (case ga_Error a of
                       None \<Rightarrow> ''success=false''
                     | Some (code, message, key) \<Rightarrow>
                         (let msg = unwrapHostEnvelope iv message;
                              out = (if code \<noteq> [] \<and> msg \<noteq> [] then code @ '': '' @ msg else if msg \<noteq> [] then msg
                                     else if code = [] then ''success=false'' else code)
                          in if key \<noteq> [] then out @ '' ['' @ key @ '']'' else out)))"

definition newGuestFailure :: "invokers \<Rightarrow> string \<Rightarrow> string \<Rightarrow> attempt_error" where
  "newGuestFailure iv msg raw =
     (case iv_retry iv raw of
        None \<Rightarrow> GuestFailure msg None 0
      | Some g \<Rightarrow>
          (let retryable = gr_Retryable g; after = msToDuration (gr_RetryAfterMs g)
           in case gr_Error g of
                None \<Rightarrow> GuestFailure msg retryable after
              | Some (r2, a2) \<Rightarrow>
                  GuestFailure msg (if retryable = None then r2 else retryable) (if after = 0 then msToDuration a2 else after)))"

definition guest_call :: "invokers \<Rightarrow> string \<Rightarrow> (string \<times> bool) + string \<Rightarrow> attempt_error option" where
  "guest_call iv prefix res =
     (case res of
        Inl (m, nr) \<Rightarrow> Some (InvokerError m nr)
      | Inr out \<Rightarrow> (let msg = guestEnvelopeError iv out in if msg \<noteq> [] then Some (newGuestFailure iv (prefix @ msg) out) else None))"

definition invoke_handler :: "invokers \<Rightarrow> string \<Rightarrow> dpayload \<Rightarrow> Subscription \<Rightarrow> attempt_error option" where
  "invoke_handler iv org p sub =
     (let ht = ToLower (iv_lower iv) (sb_HandlerType sub) in
      if ht = ''wasm'' then
        (case iv_wasm iv of
           None \<Rightarrow> Some (InvokerError ''wasm subscription but no WasmInvoker wired'' False)
         | Some f \<Rightarrow> guest_call iv ''guest: '' (f org sub p))
      else if ht = ''native'' then
        (case iv_native iv of
           None \<Rightarrow> Some (InvokerError ''native subscription but no NativeInvoker wired'' False)
         | Some f \<Rightarrow> guest_call iv ''native: '' (f org sub p))
      else if ht = ''compiled'' then
        (case iv_compiled iv of
           None \<Rightarrow> Some (InvokerError ''dispatch: compiled subscription but no CompiledRegistry wired'' False)
         | Some lookup \<Rightarrow>
             (case lookup (sb_Function sub) of
                None \<Rightarrow> Some (InvokerError (''compiled handler '' @ sb_Function sub @ '' not registered'') False)
              | Some h \<Rightarrow> map_option (\<lambda>(m, nr). InvokerError m nr) (h org p)))
      else Some (InvokerError (''unsupported handler type '' @ sb_HandlerType sub) False))"

text \<open>Handler types are ASCII names, on which \<^verbatim>\<open>strings.EqualFold\<close> compares letters without case.\<close>

definition resolveSub :: "(string \<Rightarrow> string + Subscription list) \<Rightarrow> Delivery \<Rightarrow> string + Subscription option" where
  "resolveSub provider r =
     (case provider (d_OrganizationID r) of
        Inl err \<Rightarrow> Inl err
      | Inr subs \<Rightarrow>
          Inr (find (\<lambda>s. sb_AddonKey s = d_AddonKey r \<and> sb_Event s = d_SubEvent r \<and>
                 map lower_char (sb_HandlerType s) = map lower_char (d_HandlerType r) \<and> sb_Function s = d_Export r) subs))"

text \<open>What an attempt decides to write. The result of an invocation is an argument of the decision, as are the loss of the lease and the
  shutdown of the process.\<close>

datatype ledger_action = ActDelivered | ActDead string | ActDenied string | ActCancelled string | ActReschedule int string bool "int option" | ActRelease | ActNothing

definition not_ready_message :: "string \<Rightarrow> string \<Rightarrow> string" where
  "not_ready_message m wait_text =
     m @ '': subscriber module never became ready within '' @ wait_text @
     '' (bundle without backend.wasm, compile/instantiate failure or addon disabled; see the host boot log)''"

definition one_second :: int where "one_second = 1000 * ms"

definition not_ready_pause :: "dOptions \<Rightarrow> int \<Rightarrow> Delivery \<Rightarrow> int" where
  "not_ready_pause opts now r =
     (case d_NotReadySince r of
        None \<Rightarrow> do_retryBackoff opts
      | Some since \<Rightarrow> (let pause = (now - since) div 2 in if pause < one_second then one_second else if pause > 10 * one_second then 10 * one_second else pause))"

definition after_failure :: "dOptions \<Rightarrow> denv \<Rightarrow> string \<Rightarrow> Delivery \<Rightarrow> attempt_error \<Rightarrow> ledger_action" where
  "after_failure opts e wait_text r err =
     (let now = de_now e; since = (case d_NotReadySince r of None \<Rightarrow> now | Some t \<Rightarrow> t) in
      if isNotReady err \<and> do_notReadyWait opts > 0 \<and> now < since + do_notReadyWait opts then
        ActReschedule (not_ready_pause opts now r) (attempt_text err) True (Some since)
      else let (retryable, retryAfter) = (case err of GuestFailure _ (Some b) a \<Rightarrow> (b, a) | GuestFailure _ None a \<Rightarrow> (True, a) | _ \<Rightarrow> (True, 0));
               attempt = d_Attempts r
           in if retryable \<and> attempt < do_maxAttempts opts then
                ActReschedule (if retryAfter > 0 then retryAfter else backoffFor opts (de_rand e) (attempt + 1)) (attempt_text err) False None
              else ActDead (if isNotReady err then not_ready_message (attempt_text err) wait_text
                            else if \<not> retryable then ''not retryable: '' @ attempt_text err else attempt_text err))"

definition decide :: "dOptions \<Rightarrow> denv \<Rightarrow> string \<Rightarrow> Delivery \<Rightarrow> string + Subscription option \<Rightarrow> (string \<Rightarrow> string \<Rightarrow> string option) \<Rightarrow>
    (Subscription \<Rightarrow> attempt_error option) \<Rightarrow> bool \<Rightarrow> bool \<Rightarrow> ledger_action" where
  "decide opts e wait_text r resolved canDeliver result leaseLost stopping =
     (case resolved of
        Inl err \<Rightarrow>
          (let delay = backoffFor opts (de_rand e) (max (d_Attempts r + 1) 2)
           in ActReschedule (if delay < one_second then one_second else delay) (''provider: '' @ err) True (d_NotReadySince r))
      | Inr None \<Rightarrow> ActCancelled ''subscription no longer installed or enabled''
      | Inr (Some sub) \<Rightarrow>
          (case canDeliver (sb_AddonKey sub) (d_Event r) of
             Some err \<Rightarrow> ActDenied (''capability denied: '' @ err)
           | None \<Rightarrow>
               (case result sub of
                  None \<Rightarrow> ActDelivered
                | Some err \<Rightarrow>
                    if leaseLost then ActNothing
                    else if stopping then ActRelease
                    else after_failure opts e wait_text r err)))"

text \<open>The write; a delivery that became dead is reported, and a failed one also as a dead letter.\<close>

datatype effect = Notified string delivery_status int string | DeadLetter string string string

definition action_row :: "int \<Rightarrow> Delivery \<Rightarrow> ledger_action \<Rightarrow> (Delivery \<Rightarrow> Delivery) option" where
  "action_row now r act =
     (case act of
        ActDelivered \<Rightarrow> Some (delivered_row now (d_Attempts r))
      | ActDead msg \<Rightarrow> Some (dead_row msg)
      | ActDenied msg \<Rightarrow> Some (dead_row msg)
      | ActCancelled msg \<Rightarrow> Some (cancelled_row msg)
      | ActReschedule delay msg refund since \<Rightarrow> Some (rescheduled_row now r delay msg refund since)
      | ActRelease \<Rightarrow> Some (released_row now r)
      | ActNothing \<Rightarrow> None)"

definition DeadLetterEvent :: string where "DeadLetterEvent = ''kernel.dispatch.delivery_dead''"

definition dead_letter :: "Delivery \<Rightarrow> string \<Rightarrow> effect list" where
  "dead_letter r msg = (if d_Event r = DeadLetterEvent then [] else [DeadLetter (d_OrganizationID r) (d_DeliveryID r) msg])"

definition action_effects :: "Delivery \<Rightarrow> ledger_action \<Rightarrow> effect list" where
  "action_effects r act =
     (case act of
        ActDelivered \<Rightarrow> [Notified (d_DeliveryID r) DDelivered (d_Attempts r) []]
      | ActDead msg \<Rightarrow> Notified (d_DeliveryID r) DDead (d_Attempts r) msg # dead_letter r msg
      | ActDenied msg \<Rightarrow> [Notified (d_DeliveryID r) DDead 0 msg]
      | ActCancelled msg \<Rightarrow> [Notified (d_DeliveryID r) DCancelled (d_Attempts r) msg]
      | _ \<Rightarrow> [])"

definition perform :: "int \<Rightarrow> Delivery \<Rightarrow> ledger_action \<Rightarrow> ddb \<Rightarrow> effect list \<times> ddb" where
  "perform now r act db =
     (case action_row now r act of
        None \<Rightarrow> ([], db)
      | Some f \<Rightarrow> (case fenced_update r f db of (ok, db') \<Rightarrow> (if ok then action_effects r act else [], db')))"

text \<open>A whole attempt when nobody else acts in between.\<close>

definition runClaimed :: "dOptions \<Rightarrow> denv \<Rightarrow> string \<Rightarrow> (string \<Rightarrow> string + Subscription list) \<Rightarrow> (string \<Rightarrow> string \<Rightarrow> string option) \<Rightarrow> invokers \<Rightarrow>
    Delivery \<Rightarrow> Subscription option \<Rightarrow> bool \<Rightarrow> ddb \<Rightarrow> effect list \<times> ddb" where
  "runClaimed opts e wait_text provider canDeliver iv r sub stopping db =
     (let resolved = (case sub of Some s \<Rightarrow> Inr (Some s) | None \<Rightarrow> resolveSub provider r);
          p = (case d_Payload r of None \<Rightarrow> NotObj [] | Some p \<Rightarrow> p);
          result = (\<lambda>s. invoke_handler iv (d_OrganizationID r) (withGeneration p (d_Generation r)) s)
      in perform (de_now e) r (decide opts e wait_text r resolved canDeliver result False stopping) db)"

section \<open>The reaper and replays\<close>

fun reap_each :: "Delivery list \<Rightarrow> ddb \<Rightarrow> effect list \<times> ddb" where
  "reap_each [] db = ([], db)"
| "reap_each (r # rs) db =
     (case reap_one r db of
        (ok, db1) \<Rightarrow>
          (case reap_each rs db1 of
             (effs, db2) \<Rightarrow> ((if ok then Notified (d_DeliveryID r) DDead (d_Attempts r) (reap_message r) # dead_letter r (reap_message r) else []) @ effs, db2)))"

definition reapExhausted :: "dOptions \<Rightarrow> int \<Rightarrow> ddb \<Rightarrow> effect list \<times> ddb" where
  "reapExhausted opts now db = reap_each (exhausted_rows opts now db) db"

record ReplayFilter =
  rf_OrgID :: "string option"
  rf_AddonKey :: string
  rf_Event :: string
  rf_From :: "int option"
  rf_To :: "int option"
  rf_Statuses :: "delivery_status list"
  rf_Limit :: int

text \<open>\<^verbatim>\<open>LIKE\<close>: a percent sign stands for any text, an underscore for any character.\<close>

fun sql_like :: "string \<Rightarrow> string \<Rightarrow> bool" where
  "sql_like [] s \<longleftrightarrow> s = []"
| "sql_like (p # ps) s \<longleftrightarrow>
     (if p = CHR ''%'' then list_ex (\<lambda>k. sql_like ps (drop k s)) [0..<Suc (length s)]
      else case s of [] \<Rightarrow> False | c # cs \<Rightarrow> (p = CHR ''_'' \<or> p = c) \<and> sql_like ps cs)"

definition replay_selects :: "ReplayFilter \<Rightarrow> Delivery \<Rightarrow> bool" where
  "replay_selects f r \<longleftrightarrow>
     d_Status r \<in> set (if rf_Statuses f = [] then [DDelivered, DDead] else rf_Statuses f) \<and>
     (case rf_OrgID f of None \<Rightarrow> True | Some org \<Rightarrow> d_OrganizationID r = org) \<and>
     (rf_AddonKey f = [] \<or> d_AddonKey r = rf_AddonKey f) \<and>
     (rf_Event f = [] \<or>
      (if HasSuffix (rf_Event f) ''.*'' then sql_like (TrimSuffix (rf_Event f) ''*'' @ ''%'') (d_Event r) else d_Event r = rf_Event f)) \<and>
     (case rf_From f of None \<Rightarrow> True | Some t \<Rightarrow> t \<le> d_CreatedAt r) \<and> (case rf_To f of None \<Rightarrow> True | Some t \<Rightarrow> d_CreatedAt r < t)"

definition replay_rows :: "ReplayFilter \<Rightarrow> ddb \<Rightarrow> ddb" where
  "replay_rows f db = take (nat (if rf_Limit f \<le> 0 then 1000 else rf_Limit f)) (sort_key d_CreatedAt (filter (replay_selects f) db))"

definition next_generation :: "denv \<Rightarrow> Delivery \<Rightarrow> dpayload \<Rightarrow> Delivery" where
  "next_generation e r p =
     (let rootID = (if d_RootDeliveryID r = [] then d_DeliveryID r else d_RootDeliveryID r); gen = d_Generation r + 1
      in \<lparr>d_ID = de_uuid e, d_DeliveryID = replayDeliveryID (de_sha256 e) rootID gen, d_OrganizationID = d_OrganizationID r, d_Event = d_Event r,
          d_AddonKey = d_AddonKey r, d_HandlerType = d_HandlerType r, d_Export = d_Export r, d_Status = DPending, d_Attempts = 0, d_LastError = [],
          d_CreatedAt = de_now e, d_UpdatedAt = de_now e, d_DeliveredAt = None, d_Emitter = d_Emitter r, d_Payload = Some p, d_SubEvent = d_SubEvent r,
          d_EventID = d_EventID r, d_ActorID = d_ActorID r, d_BranchID = d_BranchID r, d_CorrelationID = d_CorrelationID r, d_Generation = gen,
          d_RootDeliveryID = rootID, d_NextAttemptAt = Some (de_now e), d_LeaseUntil = None, d_LeaseToken = [], d_NotReadySince = None\<rparr>)"

record ReplayResult =
  rr_Requeued :: nat
  rr_Existing :: nat
  rr_NoPayload :: nat

fun replay_each :: "(nat \<Rightarrow> denv) \<Rightarrow> nat \<Rightarrow> Delivery list \<Rightarrow> ReplayResult \<Rightarrow> ddb \<Rightarrow> ReplayResult \<times> ddb" where
  "replay_each e i [] res db = (res, db)"
| "replay_each e i (r # rs) res db =
     (case d_Payload r of
        None \<Rightarrow> replay_each e (Suc i) rs (res\<lparr>rr_NoPayload := rr_NoPayload res + 1\<rparr>) db
      | Some p \<Rightarrow>
          (case insert_delivery (next_generation (e i) r p) db of
             (True, db') \<Rightarrow> replay_each e (Suc i) rs (res\<lparr>rr_Requeued := rr_Requeued res + 1\<rparr>) db'
           | (False, db') \<Rightarrow> replay_each e (Suc i) rs (res\<lparr>rr_Existing := rr_Existing res + 1\<rparr>) db'))"

definition Replay :: "(nat \<Rightarrow> denv) \<Rightarrow> ReplayFilter \<Rightarrow> ddb \<Rightarrow> ReplayResult \<times> ddb" where
  "Replay e f db = replay_each e 0 (replay_rows f db) \<lparr>rr_Requeued = 0, rr_Existing = 0, rr_NoPayload = 0\<rparr> db"

end
