(* ===== verification/Dispatch_Steps.thy ===== *)
theory Dispatch_Steps
  imports Dispatch_Run
begin

text \<open>
  The ledger as a state machine: the table, the attempts in flight on any number of replicas, the rows reapers have read and not yet
  written, and the lease tokens drawn so far. Every statement is a step, so a history is any interleaving of publications, replays,
  claims, heartbeats, results, reaps and purges; a replica that dies is an attempt that ends without a statement. The
  replicas share one configuration. Every reachable state satisfies \<open>ledger_ok\<close>.
\<close>

named_theorems delivery_ops \<open>definitions of the assignments to a delivery\<close>

declare claimed_def [delivery_ops] heartbeat_row_def [delivery_ops] delivered_row_def [delivery_ops] dead_row_def [delivery_ops]
  cancelled_row_def [delivery_ops] rescheduled_row_def [delivery_ops] released_row_def [delivery_ops] reaped_row_def [delivery_ops]

section \<open>Statements and steps\<close>

text \<open>What one attempt of a delivery runs with: the clock, tokens and random numbers of its replica, the subscription handed over by the
  fast path, if any, the provider of subscriptions, the host's verdict on capabilities and its invokers, whether the heartbeat found the
  lease lost and whether the process is shutting down. From these and its copy of the row it resolves its subscription, invokes the
  handler and decides.\<close>

record attempt_input =
  ai_env :: denv
  ai_wait :: string
  ai_sub :: "Subscription option"
  ai_provider :: "string \<Rightarrow> string + Subscription list"
  ai_verdict :: "string \<Rightarrow> string \<Rightarrow> string option"
  ai_invokers :: invokers
  ai_leaseLost :: bool
  ai_stopping :: bool

definition ai_resolved :: "attempt_input \<Rightarrow> Delivery \<Rightarrow> string + Subscription option" where
  "ai_resolved a r = (case ai_sub a of Some s \<Rightarrow> Inr (Some s) | None \<Rightarrow> resolveSub (ai_provider a) r)"

definition ai_result :: "attempt_input \<Rightarrow> Delivery \<Rightarrow> Subscription \<Rightarrow> attempt_error option" where
  "ai_result a r = invoke_handler (ai_invokers a) (d_OrganizationID r)
     (withGeneration (case d_Payload r of None \<Rightarrow> NotObj [] | Some p \<Rightarrow> p) (d_Generation r))"

definition ai_action :: "dOptions \<Rightarrow> attempt_input \<Rightarrow> Delivery \<Rightarrow> ledger_action" where
  "ai_action opts a r = decide opts (ai_env a) (ai_wait a) r (ai_resolved a r) (ai_verdict a) (ai_result a r) (ai_leaseLost a) (ai_stopping a)"

text \<open>It is the attempt \<open>runClaimed\<close> makes.\<close>

lemma runClaimed_action:
  "\<not> ai_leaseLost a \<Longrightarrow>
   runClaimed opts (ai_env a) (ai_wait a) (ai_provider a) (ai_verdict a) (ai_invokers a) r (ai_sub a) (ai_stopping a) db =
     perform (de_now (ai_env a)) r (ai_action opts a r) db"
  by (simp add: runClaimed_def ai_action_def ai_resolved_def ai_result_def Let_def)

datatype ledger_op =
    LInsert Delivery
  | LClaim denv "string \<Rightarrow> bool" nat
  | LBeat int Delivery
  | LAct attempt_input Delivery
  | LReap Delivery
  | LForget string string

text \<open>The table's primary key refuses a row whose id it already has.\<close>

fun ledger_run :: "dOptions \<Rightarrow> ledger_op \<Rightarrow> ddb \<Rightarrow> ddb" where
  "ledger_run opts (LInsert r) db = (if d_ID r \<in> d_ID ` set db then db else snd (insert_delivery r db))"
| "ledger_run opts (LClaim e locked n) db = fst (claim_deliveries opts e locked n db)"
| "ledger_run opts (LBeat now r) db = snd (fenced_update r (heartbeat_row opts now) db)"
| "ledger_run opts (LAct a r) db = snd (perform (de_now (ai_env a)) r (ai_action opts a r) db)"
| "ledger_run opts (LReap r) db = snd (reap_one r db)"
| "ledger_run opts (LForget k ev) db = ForgetDeliveries k ev db"

record dsys =
  ds_db :: ddb
  ds_runs :: "Delivery set"
  ds_reapers :: "Delivery set"
  ds_tokens :: "string set"

definition ds_init :: dsys where
  "ds_init = \<lparr>ds_db = [], ds_runs = {}, ds_reapers = {}, ds_tokens = {}\<rparr>"

text \<open>A token and a row's id are fresh: \<^verbatim>\<open>newClaimToken\<close> draws a random one, \<^verbatim>\<open>uuid.New\<close> too.\<close>

definition fresh_token :: "denv \<Rightarrow> dsys \<Rightarrow> bool" where
  "fresh_token e s \<longleftrightarrow> de_token e \<noteq> [] \<and> de_token e \<notin> ds_tokens s"

definition fresh_id :: "denv \<Rightarrow> dsys \<Rightarrow> bool" where
  "fresh_id e s \<longleftrightarrow> de_uuid e \<notin> d_ID ` set (ds_db s)"

inductive dstep :: "dOptions \<Rightarrow> dsys \<Rightarrow> ledger_op option \<Rightarrow> dsys \<Rightarrow> bool" for opts where
  d_enqueue: "\<lbrakk>fresh_token e s; fresh_id e s; r = new_delivery opts e org name occ em ce p sub\<rbrakk> \<Longrightarrow>
     dstep opts s (Some (LInsert r))
       (s\<lparr>ds_db := ledger_run opts (LInsert r) (ds_db s), ds_runs := if fst (insert_delivery r (ds_db s)) then insert r (ds_runs s) else ds_runs s,
          ds_tokens := insert (de_token e) (ds_tokens s)\<rparr>)"
| d_replay: "\<lbrakk>fresh_id e s; r = next_generation e r0 p\<rbrakk> \<Longrightarrow>
     dstep opts s (Some (LInsert r)) (s\<lparr>ds_db := ledger_run opts (LInsert r) (ds_db s)\<rparr>)"
| d_claim: "\<lbrakk>fresh_token e s; op = LClaim e locked n\<rbrakk> \<Longrightarrow>
     dstep opts s (Some op)
       (s\<lparr>ds_db := ledger_run opts op (ds_db s), ds_runs := ds_runs s \<union> set (snd (claim_deliveries opts e locked n (ds_db s))),
          ds_tokens := insert (de_token e) (ds_tokens s)\<rparr>)"
| d_beat: "\<lbrakk>r \<in> ds_runs s; op = LBeat now r\<rbrakk> \<Longrightarrow> dstep opts s (Some op) (s\<lparr>ds_db := ledger_run opts op (ds_db s)\<rparr>)"
| d_act: "\<lbrakk>r \<in> ds_runs s; op = LAct a r\<rbrakk> \<Longrightarrow>
     dstep opts s (Some op) (s\<lparr>ds_db := ledger_run opts op (ds_db s), ds_runs := ds_runs s - {r}\<rparr>)"
| d_find: "dstep opts s None (s\<lparr>ds_reapers := ds_reapers s \<union> set (exhausted_rows opts now (ds_db s))\<rparr>)"
| d_reap: "\<lbrakk>r \<in> ds_reapers s; op = LReap r\<rbrakk> \<Longrightarrow>
     dstep opts s (Some op) (s\<lparr>ds_db := ledger_run opts op (ds_db s), ds_reapers := ds_reapers s - {r}\<rparr>)"
| d_forget: "op = LForget k ev \<Longrightarrow> dstep opts s (Some op) (s\<lparr>ds_db := ledger_run opts op (ds_db s)\<rparr>)"
| d_crash: "dstep opts s None (s\<lparr>ds_runs := ds_runs s - R, ds_reapers := ds_reapers s - R\<rparr>)"

inductive ledger_history :: "dOptions \<Rightarrow> dsys \<Rightarrow> bool" for opts where
  h_init: "ledger_history opts ds_init"
| h_step: "ledger_history opts s \<Longrightarrow> dstep opts s l s' \<Longrightarrow> ledger_history opts s'"

section \<open>The invariant\<close>

text \<open>Only a pending delivery is leased, its token and its expiry go together, and without a lease it is due and has attempts left.\<close>

definition delivery_ok :: "dOptions \<Rightarrow> Delivery \<Rightarrow> bool" where
  "delivery_ok opts r \<longleftrightarrow>
     0 \<le> d_Attempts r \<and> d_Attempts r \<le> do_maxAttempts opts \<and> d_Payload r \<noteq> None \<and> d_NextAttemptAt r \<noteq> None \<and>
     (d_LeaseUntil r = None \<longleftrightarrow> d_LeaseToken r = []) \<and> (d_Status r \<noteq> DPending \<longrightarrow> d_LeaseToken r = []) \<and>
     (d_Status r = DPending \<and> d_LeaseToken r = [] \<longrightarrow> d_Attempts r < do_maxAttempts opts)"

definition deliveries_ok :: "dOptions \<Rightarrow> ddb \<Rightarrow> bool" where
  "deliveries_ok opts db \<longleftrightarrow> distinct (map d_ID db) \<and> distinct (map d_DeliveryID db) \<and> (\<forall>r\<in>set db. delivery_ok opts r)"

text \<open>A copy of a row that a replica holds: while the row still carries its token, the row has made as many attempts.\<close>

definition copy_ok :: "ddb \<Rightarrow> string set \<Rightarrow> Delivery \<Rightarrow> bool" where
  "copy_ok db tokens r \<longleftrightarrow>
     d_LeaseToken r \<noteq> [] \<and> d_LeaseToken r \<in> tokens \<and> 1 \<le> d_Attempts r \<and> (\<forall>x\<in>set db. fenced r x \<longrightarrow> d_Attempts x = d_Attempts r)"

definition ledger_ok :: "dOptions \<Rightarrow> dsys \<Rightarrow> bool" where
  "ledger_ok opts s \<longleftrightarrow>
     deliveries_ok opts (ds_db s) \<and> (\<forall>r\<in>set (ds_db s). d_LeaseToken r \<noteq> [] \<longrightarrow> d_LeaseToken r \<in> ds_tokens s \<and> 1 \<le> d_Attempts r) \<and>
     (\<forall>r\<in>ds_runs s \<union> ds_reapers s. copy_ok (ds_db s) (ds_tokens s) r) \<and>
     (\<forall>r\<in>ds_reapers s. \<exists>now. exhausted (do_maxAttempts opts) now r)"

section \<open>What statements keep\<close>

lemma deliveries_ok_update:
  assumes "deliveries_ok opts db" and "\<And>r. d_ID (f r) = d_ID r \<and> d_DeliveryID (f r) = d_DeliveryID r"
    and "\<And>r. r \<in> set db \<Longrightarrow> p r \<Longrightarrow> delivery_ok opts (f r)"
  shows "deliveries_ok opts (update_where p f db)"
  using assms by (auto simp: deliveries_ok_def set_update_where map_update_where)

lemma deliveries_ok_insert:
  "deliveries_ok opts db \<Longrightarrow> delivery_ok opts r \<Longrightarrow> d_ID r \<notin> d_ID ` set db \<Longrightarrow> deliveries_ok opts (snd (insert_delivery r db))"
  by (auto simp: deliveries_ok_def insert_delivery_def list_ex_iff)

lemma deliveries_ok_filter: "deliveries_ok opts db \<Longrightarrow> deliveries_ok opts (filter P db)"
  by (auto simp: deliveries_ok_def distinct_map_filter)

lemma fenced_update_db: "snd (fenced_update r f db) = update_where (fenced r) f db"
  by (simp add: fenced_update_def)

lemma perform_db: "snd (perform now r act db) = (case action_row now r act of None \<Rightarrow> db | Some f \<Rightarrow> update_where (fenced r) f db)"
  by (simp add: perform_def fenced_update_def split: option.splits)

lemma claim_db: "fst (claim_deliveries opts e locked n db) =
    update_where (\<lambda>r. d_ID r \<in> d_ID ` set (claim_candidates opts (de_now e) locked n db)) (claimed opts e) db"
  by (simp add: claim_deliveries_def Let_def)

lemma set_claimed: "set (snd (claim_deliveries opts e locked n db)) =
    claimed opts e ` {r \<in> set db. d_ID r \<in> d_ID ` set (claim_candidates opts (de_now e) locked n db)}"
  by (auto simp: claim_deliveries_def Let_def)

lemmas statement_db = fenced_update_db perform_db claim_db reap_one_def

lemma delivery_by_id:
  "deliveries_ok opts db \<Longrightarrow> r \<in> set db \<Longrightarrow> r' \<in> set db \<Longrightarrow> d_ID r = d_ID r' \<or> d_DeliveryID r = d_DeliveryID r' \<Longrightarrow> r = r'"
  by (auto simp: deliveries_ok_def distinct_map inj_on_def)

lemma delivery_fenced: "deliveries_ok opts db \<Longrightarrow> r \<in> set db \<Longrightarrow> x \<in> set db \<Longrightarrow> fenced r x \<Longrightarrow> x = r"
  by (rule delivery_by_id) (auto simp: fenced_def)

lemma claimed_was_due:
  assumes "deliveries_ok opts db" and "r \<in> set db" and "d_ID r \<in> d_ID ` set (claim_candidates opts now locked n db)"
  shows "due_delivery (do_maxAttempts opts) now r \<and> \<not> locked (d_DeliveryID r)"
proof -
  obtain r0 where "r0 \<in> set (claim_candidates opts now locked n db)" "d_ID r0 = d_ID r" using assms(3) by force
  then have "r0 \<in> set db" "due_delivery (do_maxAttempts opts) now r0 \<and> \<not> locked (d_DeliveryID r0)"
    by (auto simp: claim_candidates_def dest!: in_set_takeD)
  with \<open>d_ID r0 = d_ID r\<close> assms show ?thesis using delivery_by_id[of opts db r0 r] by simp
qed

text \<open>What a decision writes: it keeps the row's identity and releases the lease, and a pending row has attempts left.\<close>

lemma after_failure_outcome:
  "(\<exists>delay refund since. after_failure opts e wt r err = ActReschedule delay (attempt_text err) refund since \<and>
      (refund \<or> d_Attempts r < do_maxAttempts opts)) \<or>
   (\<exists>msg. after_failure opts e wt r err = ActDead msg \<and> ((\<exists>m a. err = GuestFailure m (Some False) a) \<or> do_maxAttempts opts \<le> d_Attempts r))"
  by (cases err) (auto simp: after_failure_def Let_def split: option.splits bool.splits)

lemma after_failure_reschedule:
  "after_failure opts e wt r err = ActReschedule delay msg refund since \<Longrightarrow> refund \<or> d_Attempts r < do_maxAttempts opts"
  using after_failure_outcome[of opts e wt r err] by auto

lemma decide_reschedule:
  "decide opts e wt r resolved canDeliver result leaseLost stopping = ActReschedule delay msg refund since \<Longrightarrow>
   refund \<or> d_Attempts r < do_maxAttempts opts"
  by (auto simp: decide_def Let_def dest: after_failure_reschedule split: sum.splits option.splits if_splits)

lemma action_row_keys:
  "action_row now r act = Some f \<Longrightarrow> d_ID (f x) = d_ID x \<and> d_DeliveryID (f x) = d_DeliveryID x \<and> d_LeaseToken (f x) = [] \<and>
     d_LeaseUntil (f x) = None \<and> d_Payload (f x) = d_Payload x"
  by (auto simp: action_row_def delivery_ops split: ledger_action.splits)

lemma delivery_ok_action:
  assumes "delivery_ok opts x" and "1 \<le> d_Attempts r" and "d_Attempts x = d_Attempts r"
    and "action_row now r (decide opts e wt r resolved canDeliver result leaseLost stopping) = Some f"
  shows "delivery_ok opts (f x)"
proof -
  let ?act = "decide opts e wt r resolved canDeliver result leaseLost stopping"
  show ?thesis
  proof (cases ?act)
    case (ActReschedule delay msg refund since)
    with decide_reschedule[OF ActReschedule] assms show ?thesis
      by (auto simp: action_row_def delivery_ops delivery_ok_def split: if_splits)
  qed (use assms in \<open>auto simp: action_row_def delivery_ops delivery_ok_def\<close>)
qed

text \<open>What a statement other than a claim or an insertion does to leases: it keeps them or clears them.\<close>

definition tokens_kept :: "ddb \<Rightarrow> ddb \<Rightarrow> bool" where
  "tokens_kept db db' \<longleftrightarrow>
     (\<forall>x'\<in>set db'. d_LeaseToken x' \<noteq> [] \<longrightarrow>
        (\<exists>x\<in>set db. d_DeliveryID x' = d_DeliveryID x \<and> d_LeaseToken x' = d_LeaseToken x \<and> d_Status x' = d_Status x \<and> d_Attempts x' = d_Attempts x))"

lemma tokens_kept_refl: "tokens_kept db db"
  by (auto simp: tokens_kept_def)

lemma tokens_kept_update:
  assumes "\<And>x. d_LeaseToken (f x) = [] \<or>
     d_DeliveryID (f x) = d_DeliveryID x \<and> d_LeaseToken (f x) = d_LeaseToken x \<and> d_Status (f x) = d_Status x \<and> d_Attempts (f x) = d_Attempts x"
  shows "tokens_kept db (update_where p f db)"
  unfolding tokens_kept_def set_update_where
proof (intro ballI impI)
  fix x' assume "x' \<in> (\<lambda>r. if p r then f r else r) ` set db" and t: "d_LeaseToken x' \<noteq> []"
  then obtain x where "x \<in> set db" "x' = (if p x then f x else x)" by blast
  then show "\<exists>x\<in>set db. d_DeliveryID x' = d_DeliveryID x \<and> d_LeaseToken x' = d_LeaseToken x \<and> d_Status x' = d_Status x \<and> d_Attempts x' = d_Attempts x"
    using assms[of x] t by (intro bexI[of _ x]) (auto split: if_splits)
qed

lemma tokens_kept_ops:
  "tokens_kept db (ledger_run opts (LBeat now r) db)"
  "tokens_kept db (ledger_run opts (LAct a r) db)"
  "tokens_kept db (ledger_run opts (LReap r) db)"
  "tokens_kept db (ledger_run opts (LForget k ev) db)"
proof -
  show "tokens_kept db (ledger_run opts (LBeat now r) db)"
    by (simp add: fenced_update_db tokens_kept_update delivery_ops)
  show "tokens_kept db (ledger_run opts (LAct a r) db)"
    by (auto simp: perform_db tokens_kept_refl action_row_keys intro!: tokens_kept_update split: option.splits)
  show "tokens_kept db (ledger_run opts (LReap r) db)"
    by (simp add: reap_one_def fenced_update_db tokens_kept_update delivery_ops)
  show "tokens_kept db (ledger_run opts (LForget k ev) db)"
    by (auto simp: ForgetDeliveries_def tokens_kept_def)
qed

lemma copy_ok_kept: "copy_ok db T r \<Longrightarrow> tokens_kept db db' \<Longrightarrow> T \<subseteq> T' \<Longrightarrow> copy_ok db' T' r"
  unfolding copy_ok_def tokens_kept_def fenced_def by (metis subsetD)

lemma ledger_ok_kept:
  assumes "ledger_ok opts s" and "deliveries_ok opts db" and "tokens_kept (ds_db s) db"
    and "R \<subseteq> ds_runs s" and "P \<subseteq> ds_reapers s"
  shows "ledger_ok opts (s\<lparr>ds_db := db, ds_runs := R, ds_reapers := P\<rparr>)"
  unfolding ledger_ok_def
proof (clarsimp simp: assms(2), intro conjI ballI impI)
  fix r assume r: "r \<in> set db" "d_LeaseToken r \<noteq> []"
  then obtain x where "x \<in> set (ds_db s)" "d_LeaseToken r = d_LeaseToken x" "d_Attempts r = d_Attempts x"
    using assms(3) unfolding tokens_kept_def by blast
  with assms(1) r show "d_LeaseToken r \<in> ds_tokens s" "1 \<le> d_Attempts r" unfolding ledger_ok_def by simp_all
next
  fix r assume "r \<in> R \<union> P"
  with assms(1,4,5) have "copy_ok (ds_db s) (ds_tokens s) r" unfolding ledger_ok_def by blast
  then show "copy_ok db (ds_tokens s) r" using assms(3) copy_ok_kept by blast
next
  fix r assume "r \<in> P"
  with assms(1,5) show "\<exists>now. exhausted (do_maxAttempts opts) now r" unfolding ledger_ok_def by blast
qed

lemma ledger_ok_stmt:
  "ledger_ok opts s \<Longrightarrow> deliveries_ok opts db \<Longrightarrow> tokens_kept (ds_db s) db \<Longrightarrow> ledger_ok opts (s\<lparr>ds_db := db\<rparr>)"
  using ledger_ok_kept[of opts s db "ds_runs s" "ds_reapers s"] by simp

text \<open>A statement that leases rows under a fresh token: no older copy passes the fence of such a row.\<close>

lemma ledger_ok_leasing:
  assumes "ledger_ok opts s" and "deliveries_ok opts db" and "fresh_token e s"
    and new: "\<And>x. x \<in> set db \<Longrightarrow> x \<in> set (ds_db s) \<or> d_LeaseToken x = de_token e \<and> 1 \<le> d_Attempts x \<and> x \<in> N"
    and old: "\<And>r. r \<in> N \<Longrightarrow> r \<in> set db \<and> d_LeaseToken r = de_token e \<and> 1 \<le> d_Attempts r"
  shows "ledger_ok opts (s\<lparr>ds_db := db, ds_runs := ds_runs s \<union> N, ds_tokens := insert (de_token e) (ds_tokens s)\<rparr>)"
proof -
  have t: "d_LeaseToken x \<in> ds_tokens s \<and> 1 \<le> d_Attempts x" if "x \<in> set (ds_db s)" "d_LeaseToken x \<noteq> []" for x
    using assms(1) that unfolding ledger_ok_def by blast
  have e: "de_token e \<notin> ds_tokens s" "de_token e \<noteq> []" using assms(3) by (simp_all add: fresh_token_def)
  have "copy_ok db (insert (de_token e) (ds_tokens s)) r" if "r \<in> ds_runs s \<union> ds_reapers s" for r
  proof -
    have c: "copy_ok (ds_db s) (ds_tokens s) r" using assms(1) that unfolding ledger_ok_def by blast
    then have "d_LeaseToken r \<noteq> de_token e" using e by (auto simp: copy_ok_def)
    then show ?thesis using c new by (fastforce simp: copy_ok_def fenced_def)
  qed
  moreover have "copy_ok db (insert (de_token e) (ds_tokens s)) r" if "r \<in> N" for r
    using old[OF that] e delivery_fenced[OF assms(2)] by (auto simp: copy_ok_def)
  moreover have "d_LeaseToken x \<in> insert (de_token e) (ds_tokens s) \<and> 1 \<le> d_Attempts x" if "x \<in> set db" "d_LeaseToken x \<noteq> []" for x
    using new[OF that(1)] t[of x] that(2) by auto
  moreover have "\<exists>now. exhausted (do_maxAttempts opts) now r" if "r \<in> ds_reapers s" for r
    using assms(1) that unfolding ledger_ok_def by blast
  ultimately show ?thesis using assms(2) unfolding ledger_ok_def by auto
qed

section \<open>Every step keeps the invariant\<close>

definition options_ok :: "dOptions \<Rightarrow> bool" where
  "options_ok opts \<longleftrightarrow> 1 \<le> do_maxAttempts opts"

lemma options_reachable_ok: "options_ok defaultOptions" "options_ok opts \<Longrightarrow> options_ok (WithRetryBackoff a b opts)"
  "options_ok (WithMaxAttempts n opts)" "options_ok opts \<Longrightarrow> options_ok (WithNotReadyWait d opts)" "options_ok opts \<Longrightarrow> options_ok (WithLease d opts)"
  by (simp_all add: options_ok_def defaultOptions_def WithMaxAttempts_def WithRetryBackoff_def WithNotReadyWait_def WithLease_def Let_def)

lemma delivery_ok_new: "options_ok opts \<Longrightarrow> de_token e \<noteq> [] \<Longrightarrow> delivery_ok opts (new_delivery opts e org name occ em ce p sub)"
  by (simp add: delivery_ok_def new_delivery_def Let_def options_ok_def)

lemma delivery_ok_next: "options_ok opts \<Longrightarrow> delivery_ok opts (next_generation e r p)"
  by (simp add: delivery_ok_def next_generation_def Let_def options_ok_def)

lemma delivery_ok_claimed: "delivery_ok opts r \<Longrightarrow> due_delivery (do_maxAttempts opts) now r \<Longrightarrow> de_token e \<noteq> [] \<Longrightarrow> delivery_ok opts (claimed opts e r)"
  by (auto simp: delivery_ok_def due_delivery_def delivery_ops)

lemma claimed_keys [simp]: "d_ID (claimed opts e r) = d_ID r" "d_DeliveryID (claimed opts e r) = d_DeliveryID r"
  "d_LeaseToken (claimed opts e r) = de_token e" "d_Attempts (claimed opts e r) = d_Attempts r + 1"
  by (simp_all add: claimed_def)

lemma deliveries_ok_claim:
  assumes "deliveries_ok opts db" and "de_token e \<noteq> []"
  shows "deliveries_ok opts (ledger_run opts (LClaim e locked n) db)"
  unfolding ledger_run.simps claim_db
proof (rule deliveries_ok_update[OF assms(1)])
  fix r assume r: "r \<in> set db" "d_ID r \<in> d_ID ` set (claim_candidates opts (de_now e) locked n db)"
  then show "delivery_ok opts (claimed opts e r)"
    using assms claimed_was_due[OF assms(1) r] by (intro delivery_ok_claimed) (auto simp: deliveries_ok_def)
qed simp

lemma deliveries_ok_beat: "deliveries_ok opts db \<Longrightarrow> d_LeaseToken r \<noteq> [] \<Longrightarrow> deliveries_ok opts (ledger_run opts (LBeat now r) db)"
  unfolding ledger_run.simps fenced_update_db
  by (rule deliveries_ok_update) (auto simp: deliveries_ok_def delivery_ok_def fenced_def delivery_ops)

lemma deliveries_ok_reap: "deliveries_ok opts db \<Longrightarrow> deliveries_ok opts (ledger_run opts (LReap r) db)"
  unfolding ledger_run.simps reap_one_def fenced_update_db
  by (rule deliveries_ok_update) (auto simp: deliveries_ok_def delivery_ok_def delivery_ops)

lemma deliveries_ok_forget: "deliveries_ok opts db \<Longrightarrow> deliveries_ok opts (ledger_run opts (LForget k ev) db)"
  by (simp add: ForgetDeliveries_def deliveries_ok_filter)

lemma deliveries_ok_act:
  assumes "deliveries_ok opts db" and "copy_ok db T r"
  shows "deliveries_ok opts (ledger_run opts (LAct a r) db)"
proof (cases "action_row (de_now (ai_env a)) r (ai_action opts a r)")
  case (Some f)
  have "delivery_ok opts (f x)" if "x \<in> set db" "fenced r x" for x
    using assms that by (intro delivery_ok_action[OF _ _ _ Some[unfolded ai_action_def]]) (auto simp: deliveries_ok_def copy_ok_def)
  with Some assms(1) show ?thesis by (auto simp: perform_db action_row_keys[OF Some] intro!: deliveries_ok_update)
qed (simp add: perform_db assms(1))

lemma exhausted_copy_ok:
  assumes "ledger_ok opts s" and "options_ok opts" and "r \<in> set (exhausted_rows opts now (ds_db s))"
  shows "copy_ok (ds_db s) (ds_tokens s) r \<and> exhausted (do_maxAttempts opts) now r"
proof -
  have r: "r \<in> set (ds_db s)" "exhausted (do_maxAttempts opts) now r" using assms(3) by (auto simp: exhausted_rows_def dest!: in_set_takeD)
  have ok: "deliveries_ok opts (ds_db s)" using assms(1) by (simp add: ledger_ok_def)
  then have "d_LeaseToken r \<noteq> []" using r by (auto simp: deliveries_ok_def delivery_ok_def exhausted_def split: option.splits)
  then show ?thesis using r assms(1) delivery_fenced[OF ok r(1)] by (auto simp: copy_ok_def ledger_ok_def)
qed

lemma ledger_ok_insert_leased:
  assumes "ledger_ok opts s" "options_ok opts" "fresh_token e s" "fresh_id e s" "r = new_delivery opts e org name occ em ce p sub"
  shows "ledger_ok opts (s\<lparr>ds_db := ledger_run opts (LInsert r) (ds_db s),
      ds_runs := if fst (insert_delivery r (ds_db s)) then insert r (ds_runs s) else ds_runs s, ds_tokens := insert (de_token e) (ds_tokens s)\<rparr>)"
proof -
  have r: "d_ID r = de_uuid e" "d_LeaseToken r = de_token e" "d_Attempts r = 1" using assms(5) by (simp_all add: new_delivery_def Let_def)
  let ?N = "if fst (insert_delivery r (ds_db s)) then {r} else {}"
  have "delivery_ok opts r" using assms delivery_ok_new by (simp add: fresh_token_def)
  then have "deliveries_ok opts (ledger_run opts (LInsert r) (ds_db s))"
    using assms(1,4) r by (simp add: deliveries_ok_insert ledger_ok_def fresh_id_def)
  then have "ledger_ok opts (s\<lparr>ds_db := ledger_run opts (LInsert r) (ds_db s), ds_runs := ds_runs s \<union> ?N, ds_tokens := insert (de_token e) (ds_tokens s)\<rparr>)"
    by (rule ledger_ok_leasing[OF assms(1) _ assms(3)]) (use r assms(4) in \<open>auto simp: insert_delivery_def fresh_id_def split: if_splits\<close>)
  then show ?thesis by (auto split: if_splits)
qed

lemma ledger_ok_claim:
  assumes "ledger_ok opts s" "fresh_token e s"
  shows "ledger_ok opts (s\<lparr>ds_db := ledger_run opts (LClaim e locked n) (ds_db s),
      ds_runs := ds_runs s \<union> set (snd (claim_deliveries opts e locked n (ds_db s))), ds_tokens := insert (de_token e) (ds_tokens s)\<rparr>)"
proof (rule ledger_ok_leasing[OF assms(1) _ assms(2)])
  have ok: "deliveries_ok opts (ds_db s)" using assms(1) by (simp add: ledger_ok_def)
  then show "deliveries_ok opts (ledger_run opts (LClaim e locked n) (ds_db s))"
    using assms(2) by (intro deliveries_ok_claim) (auto simp: fresh_token_def)
  have pos: "0 \<le> d_Attempts x" if "x \<in> set (ds_db s)" for x using ok that by (auto simp: deliveries_ok_def delivery_ok_def)
  show "x \<in> set (ds_db s) \<or> d_LeaseToken x = de_token e \<and> 1 \<le> d_Attempts x \<and> x \<in> set (snd (claim_deliveries opts e locked n (ds_db s)))"
    if "x \<in> set (ledger_run opts (LClaim e locked n) (ds_db s))" for x
    using that pos by (auto simp: claim_db set_claimed set_update_where split: if_splits)
  show "r \<in> set (ledger_run opts (LClaim e locked n) (ds_db s)) \<and> d_LeaseToken r = de_token e \<and> 1 \<le> d_Attempts r"
    if "r \<in> set (snd (claim_deliveries opts e locked n (ds_db s)))" for r
    using that pos by (auto simp: claim_db set_claimed set_update_where)
qed

lemma dstep_keeps_ok: "dstep opts s l s' \<Longrightarrow> options_ok opts \<Longrightarrow> ledger_ok opts s \<Longrightarrow> ledger_ok opts s'"
proof (induction rule: dstep.induct)
  case (d_enqueue e s r org name occ em ce p sub)
  then show ?case by (intro ledger_ok_insert_leased)
next
  case (d_replay e s r r0 p)
  have r: "d_ID r = de_uuid e" "d_LeaseToken r = []" "delivery_ok opts r"
    using d_replay delivery_ok_next by (simp_all add: next_generation_def Let_def)
  have "deliveries_ok opts (ledger_run opts (LInsert r) (ds_db s))"
    using d_replay r by (simp add: deliveries_ok_insert ledger_ok_def fresh_id_def)
  moreover have "tokens_kept (ds_db s) (ledger_run opts (LInsert r) (ds_db s))"
    using r by (auto simp: tokens_kept_def insert_delivery_def)
  ultimately show ?case using d_replay by (intro ledger_ok_stmt)
next
  case (d_claim e s op locked n)
  then show ?case using ledger_ok_claim by simp
next
  case (d_beat r s op now)
  then have "d_LeaseToken r \<noteq> []" by (auto simp: ledger_ok_def copy_ok_def)
  with d_beat show ?case
    by (intro ledger_ok_stmt) (simp_all add: deliveries_ok_beat tokens_kept_ops ledger_ok_def del: ledger_run.simps)
next
  case (d_act r s op a)
  then have "copy_ok (ds_db s) (ds_tokens s) r" "deliveries_ok opts (ds_db s)" by (simp_all add: ledger_ok_def)
  then have "deliveries_ok opts (ledger_run opts op (ds_db s))" unfolding d_act(2) by (intro deliveries_ok_act)
  with d_act show ?case
    using ledger_ok_kept[of opts s "ledger_run opts op (ds_db s)" "ds_runs s - {r}" "ds_reapers s"]
    by (simp add: tokens_kept_ops del: ledger_run.simps)
next
  case (d_find s now)
  then show ?case using exhausted_copy_ok[of opts s] by (auto simp: ledger_ok_def)
next
  case (d_reap r s op)
  then show ?case
    using ledger_ok_kept[of opts s "ledger_run opts op (ds_db s)" "ds_runs s" "ds_reapers s - {r}"]
    by (simp add: deliveries_ok_reap tokens_kept_ops ledger_ok_def[of opts s] del: ledger_run.simps)
next
  case (d_forget op k ev s)
  then show ?case
    by (intro ledger_ok_stmt) (simp_all add: deliveries_ok_forget tokens_kept_ops ledger_ok_def del: ledger_run.simps)
next
  case (d_crash s R)
  then show ?case
    using ledger_ok_kept[of opts s "ds_db s" "ds_runs s - R" "ds_reapers s - R"] by (simp add: tokens_kept_refl ledger_ok_def[of opts s])
qed

lemma ds_init_ok: "ledger_ok opts ds_init"
  by (simp add: ledger_ok_def ds_init_def deliveries_ok_def)

lemma ledger_history_ok: "ledger_history opts s \<Longrightarrow> options_ok opts \<Longrightarrow> ledger_ok opts s"
  by (induction rule: ledger_history.induct) (simp_all add: ds_init_ok dstep_keeps_ok)

end
