(* ===== verification/Dispatch_Properties.thy ===== *)
theory Dispatch_Properties
  imports Dispatch_Steps
begin

text \<open>
  What the ledger guarantees: a leased delivery belongs to the attempt that holds its token, a delivery ends only for a reason, none is
  ever stuck, every subscriber of a publication gets exactly one delivery, and what a subscriber reads about the origin of an event is
  the host's.
\<close>

section \<open>One delivery under one statement\<close>

definition unique_keys :: "ddb \<Rightarrow> bool" where
  "unique_keys db \<longleftrightarrow> distinct (map d_ID db) \<and> distinct (map d_DeliveryID db)"

definition delivery_at :: "ddb \<Rightarrow> string \<Rightarrow> Delivery option" where
  "delivery_at db i = find (\<lambda>r. d_DeliveryID r = i) db"

lemma delivery_at_in: "delivery_at db i = Some r \<Longrightarrow> r \<in> set db \<and> d_DeliveryID r = i"
  by (auto simp: delivery_at_def dest: find_Some_in)

lemma unique_keys_ok: "deliveries_ok opts db \<Longrightarrow> unique_keys db"
  by (simp add: deliveries_ok_def unique_keys_def)

lemma delivery_at_of: "unique_keys db \<Longrightarrow> r \<in> set db \<Longrightarrow> delivery_at db (d_DeliveryID r) = Some r"
  by (induction db) (auto simp: delivery_at_def unique_keys_def)

lemma unique_keys_update:
  "unique_keys db \<Longrightarrow> (\<And>r. d_ID (f r) = d_ID r \<and> d_DeliveryID (f r) = d_DeliveryID r) \<Longrightarrow> unique_keys (update_where p f db)"
  by (simp add: unique_keys_def map_update_where)

lemma unique_keys_run: "unique_keys db \<Longrightarrow> unique_keys (ledger_run opts op db)"
proof (induction op)
  case (LInsert r)
  then show ?case by (auto simp: unique_keys_def insert_delivery_def list_ex_iff)
next
  case (LAct a r)
  then show ?case by (auto simp: perform_db action_row_keys intro!: unique_keys_update split: option.splits)
qed (auto simp: claim_db fenced_update_db reap_one_def ForgetDeliveries_def delivery_ops unique_keys_def distinct_map_filter map_update_where)

lemma delivery_at_update:
  "(\<And>x. d_DeliveryID (f x) = d_DeliveryID x) \<Longrightarrow> delivery_at (update_where p f db) i = map_option (\<lambda>r. if p r then f r else r) (delivery_at db i)"
  by (induction db) (auto simp: delivery_at_def)

lemma delivery_at_append: "delivery_at db i = Some r \<Longrightarrow> delivery_at (db @ xs) i = Some r"
  by (induction db) (auto simp: delivery_at_def split: if_splits)

lemma delivery_at_filter: "delivery_at db i = Some r \<Longrightarrow> P r \<Longrightarrow> delivery_at (filter P db) i = Some r"
  by (induction db) (auto simp: delivery_at_def split: if_splits)

text \<open>The effect of each statement on one delivery.\<close>

lemma after_insert: "delivery_at db i = Some r \<Longrightarrow> delivery_at (ledger_run opts (LInsert x) db) i = Some r"
  by (simp add: insert_delivery_def delivery_at_append)

lemma after_claim: "delivery_at db i = Some r \<Longrightarrow> delivery_at (ledger_run opts (LClaim e locked n) db) i =
    Some (if d_ID r \<in> d_ID ` set (claim_candidates opts (de_now e) locked n db) then claimed opts e r else r)"
  by (simp add: claim_db delivery_at_update)

lemma after_beat: "delivery_at db i = Some r \<Longrightarrow> delivery_at (ledger_run opts (LBeat now c) db) i =
    Some (if fenced c r then heartbeat_row opts now r else r)"
  by (simp add: fenced_update_db delivery_at_update heartbeat_row_def)

lemma after_act: "delivery_at db i = Some r \<Longrightarrow> delivery_at (ledger_run opts (LAct a c) db) i =
    Some (case action_row (de_now (ai_env a)) c (ai_action opts a c) of Some f \<Rightarrow> if fenced c r then f r else r | None \<Rightarrow> r)"
  by (auto simp: perform_db delivery_at_update action_row_keys split: option.splits)

lemma after_reap: "delivery_at db i = Some r \<Longrightarrow> delivery_at (ledger_run opts (LReap c) db) i =
    Some (if fenced c r then reaped_row c r else r)"
  by (simp add: reap_one_def fenced_update_db delivery_at_update reaped_row_def)

lemma after_forget: "delivery_at db i = Some r \<Longrightarrow> \<not> (d_AddonKey r = k \<and> d_Event r = ev) \<Longrightarrow>
    delivery_at (ledger_run opts (LForget k ev) db) i = Some r"
  by (simp add: ForgetDeliveries_def delivery_at_filter)

lemmas after_statement = after_insert after_claim after_beat after_act after_reap after_forget

section \<open>Leases\<close>

text \<open>Which statements can touch a delivery under a lease: those of an attempt or a reaper that carries its token, a claim whose clock is
  past the lease, and the purge of its event.\<close>

fun delivery_may_touch :: "ledger_op \<Rightarrow> Delivery option \<Rightarrow> bool" where
  "delivery_may_touch op None \<longleftrightarrow> True"
| "delivery_may_touch op (Some r) \<longleftrightarrow>
     d_Status r \<noteq> DPending \<or> d_LeaseUntil r = None \<or>
     (case op of
        LInsert _ \<Rightarrow> False
      | LClaim e _ _ \<Rightarrow> the (d_LeaseUntil r) < de_now e
      | LBeat _ c \<Rightarrow> fenced c r
      | LAct _ c \<Rightarrow> fenced c r
      | LReap c \<Rightarrow> fenced c r
      | LForget k ev \<Rightarrow> d_AddonKey r = k \<and> d_Event r = ev)"

lemma candidate_due:
  assumes "unique_keys db" and "r \<in> set db" and "d_ID r \<in> d_ID ` set (claim_candidates opts now locked n db)"
  shows "due_delivery (do_maxAttempts opts) now r"
proof -
  obtain x where x: "x \<in> set (claim_candidates opts now locked n db)" "d_ID x = d_ID r" using assms(3) by force
  then have "x \<in> set db" "due_delivery (do_maxAttempts opts) now x" by (auto simp: claim_candidates_def dest!: in_set_takeD)
  with x assms show ?thesis by (auto simp: unique_keys_def distinct_map inj_on_def)
qed

interpretation delivery_lease: guarded_view "ledger_run opts" delivery_may_touch "\<lambda>db. delivery_at db i" unique_keys for opts i
proof
  fix db op
  assume u: "unique_keys db" and "\<not> delivery_may_touch op (delivery_at db i)"
  then obtain r where r: "delivery_at db i = Some r" "d_Status r = DPending" "d_LeaseUntil r \<noteq> None" "\<not> delivery_may_touch op (Some r)"
    by (cases "delivery_at db i") auto
  show "delivery_at (ledger_run opts op db) i = delivery_at db i"
  proof (cases op)
    case (LClaim e locked n)
    then have "\<not> due_delivery (do_maxAttempts opts) (de_now e) r" using r by (auto simp: due_delivery_def)
    then have "d_ID r \<notin> d_ID ` set (claim_candidates opts (de_now e) locked n db)"
      using candidate_due[OF u] delivery_at_in[OF r(1)] by blast
    then show ?thesis using LClaim r(1) by (simp add: after_claim del: ledger_run.simps)
  qed (use r in \<open>auto simp: after_statement simp del: ledger_run.simps split: option.splits\<close>)
qed (rule unique_keys_run)

theorem leased_delivery_is_exclusive:
  assumes "unique_keys db" and "delivery_at db i = Some r" and "d_Status r = DPending" and "d_LeaseUntil r = Some until"
    and "delivery_at (fold (ledger_run opts) ops db) i \<noteq> Some r"
  shows "\<exists>k<length ops. delivery_at (fold (ledger_run opts) (take k ops) db) i = Some r \<and>
     (case ops ! k of
        LInsert _ \<Rightarrow> False
      | LClaim e _ _ \<Rightarrow> until < de_now e
      | LBeat _ c \<Rightarrow> fenced c r
      | LAct _ c \<Rightarrow> fenced c r
      | LReap c \<Rightarrow> fenced c r
      | LForget k ev \<Rightarrow> d_AddonKey r = k \<and> d_Event r = ev)"
proof -
  obtain k where "k < length ops" "delivery_may_touch (ops ! k) (Some r)" "delivery_at (fold (ledger_run opts) (take k ops) db) i = Some r"
    using delivery_lease.view_change_has_cause[OF assms(1), of opts ops i] assms(2,5) by auto
  then show ?thesis using assms(3,4) by (intro exI[of _ k]) (auto split: ledger_op.splits)
qed

section \<open>How a delivery ends\<close>

inductive_cases d_actE: "dstep opts s (Some (LAct a c)) s'"
inductive_cases d_reapE: "dstep opts s (Some (LReap c)) s'"
inductive_cases d_stepE: "dstep opts s l s'"

lemma dstep_db: "dstep opts s l s' \<Longrightarrow> ds_db s' = (case l of None \<Rightarrow> ds_db s | Some op \<Rightarrow> ledger_run opts op (ds_db s))"
  by (erule d_stepE) simp_all

lemma decide_delivered:
  "decide opts e wt r resolved canDeliver result leaseLost stopping = ActDelivered \<Longrightarrow>
   \<exists>sub. resolved = Inr (Some sub) \<and> canDeliver (sb_AddonKey sub) (d_Event r) = None \<and> result sub = None"
proof -
  have n: "after_failure opts e wt r err \<noteq> ActDelivered" for err using after_failure_outcome[of opts e wt r err] by auto
  assume "decide opts e wt r resolved canDeliver result leaseLost stopping = ActDelivered"
  then show ?thesis by (auto simp: decide_def Let_def n split: sum.splits option.splits if_splits)
qed

lemma decide_denied:
  "decide opts e wt r resolved canDeliver result leaseLost stopping = ActDenied msg \<Longrightarrow>
   \<exists>sub err. resolved = Inr (Some sub) \<and> canDeliver (sb_AddonKey sub) (d_Event r) = Some err"
proof -
  have n: "after_failure opts e wt r err \<noteq> ActDenied msg" for err using after_failure_outcome[of opts e wt r err] by auto
  assume "decide opts e wt r resolved canDeliver result leaseLost stopping = ActDenied msg"
  then show ?thesis by (auto simp: decide_def Let_def n split: sum.splits option.splits if_splits)
qed

lemma decide_cancelled:
  "decide opts e wt r resolved canDeliver result leaseLost stopping = ActCancelled msg \<Longrightarrow> resolved = Inr None"
proof -
  have n: "after_failure opts e wt r err \<noteq> ActCancelled msg" for err using after_failure_outcome[of opts e wt r err] by auto
  assume "decide opts e wt r resolved canDeliver result leaseLost stopping = ActCancelled msg"
  then show ?thesis by (auto simp: decide_def Let_def n split: sum.splits option.splits if_splits)
qed

lemma decide_dead:
  "decide opts e wt r resolved canDeliver result leaseLost stopping = ActDead msg \<Longrightarrow>
   \<exists>sub err. resolved = Inr (Some sub) \<and> result sub = Some err \<and> \<not> leaseLost \<and> \<not> stopping \<and>
     ((\<exists>m a. err = GuestFailure m (Some False) a) \<or> do_maxAttempts opts \<le> d_Attempts r)"
proof -
  have n: "after_failure opts e wt r err = ActDead msg \<Longrightarrow> (\<exists>m a. err = GuestFailure m (Some False) a) \<or> do_maxAttempts opts \<le> d_Attempts r" for err
    using after_failure_outcome[of opts e wt r err] by auto
  assume "decide opts e wt r resolved canDeliver result leaseLost stopping = ActDead msg"
  then show ?thesis by (auto simp: decide_def Let_def dest: n split: sum.splits option.splits if_splits)
qed

lemmas decide_reasons = decide_delivered decide_denied decide_cancelled decide_dead

lemma action_status:
  "action_row now c act = Some f \<Longrightarrow> d_Status x = DPending \<Longrightarrow>
   d_Status (f x) = (case act of ActDelivered \<Rightarrow> DDelivered | ActDead _ \<Rightarrow> DDead | ActDenied _ \<Rightarrow> DDead | ActCancelled _ \<Rightarrow> DCancelled | _ \<Rightarrow> DPending)"
  by (auto simp: action_row_def delivery_ops split: ledger_action.splits)

text \<open>The step is the write of an attempt with the lease of the row; what it ran with is in the label.\<close>

definition attempt_of :: "dsys \<Rightarrow> ledger_op option \<Rightarrow> Delivery \<Rightarrow> attempt_input \<Rightarrow> Delivery \<Rightarrow> bool" where
  "attempt_of s l r a c \<longleftrightarrow> l = Some (LAct a c) \<and> c \<in> ds_runs s \<and> fenced c r"

text \<open>Why a delivery may have the status it has after a step.\<close>

definition ends_rightly :: "dOptions \<Rightarrow> dsys \<Rightarrow> ledger_op option \<Rightarrow> Delivery \<Rightarrow> delivery_status \<Rightarrow> bool" where
  "ends_rightly opts s l r st \<longleftrightarrow>
     (case st of
        DPending \<Rightarrow> True
      | DDelivered \<Rightarrow>
          (\<exists>a c sub. attempt_of s l r a c \<and> ai_resolved a c = Inr (Some sub) \<and> ai_verdict a (sb_AddonKey sub) (d_Event c) = None \<and>
             ai_result a c sub = None)
      | DDead \<Rightarrow>
          (\<exists>a c sub. attempt_of s l r a c \<and> ai_resolved a c = Inr (Some sub) \<and>
             (ai_verdict a (sb_AddonKey sub) (d_Event c) \<noteq> None \<or>
              (\<exists>err. ai_result a c sub = Some err \<and> \<not> ai_leaseLost a \<and> \<not> ai_stopping a \<and>
                 ((\<exists>m after. err = GuestFailure m (Some False) after) \<or> d_Attempts r = do_maxAttempts opts)))) \<or>
          (\<exists>c\<in>ds_reapers s. l = Some (LReap c) \<and> fenced c r \<and> d_Attempts r = do_maxAttempts opts)
      | DCancelled \<Rightarrow> (\<exists>a c. attempt_of s l r a c \<and> ai_resolved a c = Inr None))"

lemma act_ends_rightly:
  assumes "ledger_ok opts s" "r \<in> set (ds_db s)" "d_Status r = DPending" "dstep opts s (Some (LAct a c)) s'"
    "action_row (de_now (ai_env a)) c (ai_action opts a c) = Some f" "fenced c r"
  shows "ends_rightly opts s (Some (LAct a c)) r (d_Status (f r))"
proof -
  from assms(4) have c: "c \<in> ds_runs s" by (elim d_actE) auto
  then have at: "attempt_of s (Some (LAct a c)) r a c" using assms(6) by (simp add: attempt_of_def)
  have "d_Attempts r = d_Attempts c" "d_Attempts r \<le> do_maxAttempts opts"
    using assms(1,2,6) c by (auto simp: ledger_ok_def copy_ok_def deliveries_ok_def delivery_ok_def)
  moreover note st = action_status[OF assms(5,3)]
    and reasons = decide_reasons[of opts "ai_env a" "ai_wait a" c "ai_resolved a c" "ai_verdict a" "ai_result a c" "ai_leaseLost a" "ai_stopping a",
      folded ai_action_def]
  ultimately show ?thesis
  proof (cases "ai_action opts a c")
    case ActDelivered
    with reasons(1) at st show ?thesis by (fastforce simp: ends_rightly_def)
  next
    case (ActDead msg)
    with reasons(4) obtain sub err where "ai_resolved a c = Inr (Some sub)" "ai_result a c sub = Some err" "\<not> ai_leaseLost a" "\<not> ai_stopping a"
      "(\<exists>m after. err = GuestFailure m (Some False) after) \<or> do_maxAttempts opts \<le> d_Attempts c" by metis
    with ActDead at st \<open>d_Attempts r = d_Attempts c\<close> \<open>d_Attempts r \<le> do_maxAttempts opts\<close> show ?thesis
      by (fastforce simp: ends_rightly_def)
  next
    case (ActDenied msg)
    with reasons(2) obtain sub err where "ai_resolved a c = Inr (Some sub)" "ai_verdict a (sb_AddonKey sub) (d_Event c) = Some err" by metis
    with ActDenied at st show ?thesis by (fastforce simp: ends_rightly_def)
  next
    case (ActCancelled msg)
    with reasons(3) have "ai_resolved a c = Inr None" by metis
    with ActCancelled at st show ?thesis by (auto simp: ends_rightly_def)
  qed (simp_all add: ends_rightly_def)
qed

lemma reap_ends_rightly:
  assumes "ledger_ok opts s" "r \<in> set (ds_db s)" "dstep opts s (Some (LReap c)) s'" "fenced c r"
  shows "ends_rightly opts s (Some (LReap c)) r (d_Status (reaped_row c r))"
proof -
  from assms(3) have c: "c \<in> ds_reapers s" by (elim d_reapE) auto
  then obtain now where "exhausted (do_maxAttempts opts) now c" using assms(1) by (auto simp: ledger_ok_def)
  moreover have "d_Attempts r = d_Attempts c" "d_Attempts r \<le> do_maxAttempts opts"
    using assms(1,2,4) c by (auto simp: ledger_ok_def copy_ok_def deliveries_ok_def delivery_ok_def)
  ultimately show ?thesis using c assms(4) by (auto simp: ends_rightly_def exhausted_def reaped_row_def)
qed

text \<open>C32. No step of any history loses a pending delivery, except the purge of its addon's event. A step is labelled with all an attempt
  runs with. The delivery becomes delivered only by the write of an attempt that holds its lease token, resolved a subscription, was allowed the
  event by its host and invoked the handler with success; dead only by such an attempt that was refused the event, or that kept its lease
  in a running process and got the answer that it must not be retried or failed for the last time, or by a reaper when no attempt is
  left; and cancelled only by an attempt that found its subscription gone.\<close>

theorem delivery_ends_for_a_reason:
  assumes "ledger_history opts s" and "options_ok opts" and "r \<in> set (ds_db s)" and "d_Status r = DPending" and "dstep opts s l s'"
  shows "l = Some (LForget (d_AddonKey r) (d_Event r)) \<or>
         (\<exists>r'\<in>set (ds_db s'). d_DeliveryID r' = d_DeliveryID r \<and> ends_rightly opts s l r (d_Status r'))"
proof -
  have ok: "ledger_ok opts s" using assms(1,2) by (rule ledger_history_ok)
  then have "delivery_at (ds_db s) (d_DeliveryID r) = Some r"
    using assms(3) unique_keys_ok by (auto simp: ledger_ok_def intro!: delivery_at_of)
  note at = after_statement[OF this]
  have pend: "ends_rightly opts s l r DPending" for l by (simp add: ends_rightly_def)
  have "l = Some (LForget (d_AddonKey r) (d_Event r)) \<or>
     (\<exists>r'. delivery_at (ds_db s') (d_DeliveryID r) = Some r' \<and> ends_rightly opts s l r (d_Status r'))"
  proof (cases l)
    case None
    then show ?thesis using dstep_db[OF assms(5)] \<open>delivery_at (ds_db s) (d_DeliveryID r) = Some r\<close> pend assms(4) by simp
  next
    case (Some op)
    with dstep_db[OF assms(5)] have db: "ds_db s' = ledger_run opts op (ds_db s)" by simp
    show ?thesis
    proof (cases op)
      case (LAct a c)
      then show ?thesis using db at(4) Some act_ends_rightly[OF ok assms(3,4), of a c s'] assms(4,5) pend
        by (cases "action_row (de_now (ai_env a)) c (ai_action opts a c)") (simp_all del: ledger_run.simps)
    next
      case (LReap c)
      then show ?thesis using db at(5) Some reap_ends_rightly[OF ok assms(3), of c s'] assms(4,5) pend by (simp del: ledger_run.simps)
    next
      case (LForget k ev)
      then show ?thesis using db at(6) Some assms(4) pend by (auto simp del: ledger_run.simps)
    qed (use db at Some assms(4) pend in \<open>simp_all add: claimed_def heartbeat_row_def del: ledger_run.simps\<close>)
  qed
  then show ?thesis using delivery_at_in by blast
qed

section \<open>A sample history\<close>

definition sample_denv :: "int \<Rightarrow> string \<Rightarrow> denv" where
  "sample_denv now token = \<lparr>de_now = now, de_uuid = ''u1'', de_token = token, de_sha256 = (\<lambda>s. s), de_rand = (\<lambda>_. 0)\<rparr>"

definition sample_sub :: Subscription where
  "sample_sub =
     \<lparr>sb_AddonKey = ''stock'', sb_Installation = ''i1'', sb_Event = ''pos.*'', sb_HandlerType = ''wasm'', sb_Function = ''on_sale'', sb_Settings = []\<rparr>"

definition sample_ce :: canonicalEvent where
  "sample_ce = \<lparr>ce_ID = [], ce_OccurrenceID = ''o1'', ce_Model = [], ce_ActorID = [], ce_BranchID = [], ce_CorrelationID = []\<rparr>"

definition sample_delivery :: Delivery where
  "sample_delivery = new_delivery defaultOptions (sample_denv 0 ''t1'') ''org'' ''pos.sale'' ''o1'' ''pos'' sample_ce (NotObj ''1'') sample_sub"

definition sample_ledger :: dsys where
  "sample_ledger = \<lparr>ds_db = [sample_delivery], ds_runs = {sample_delivery}, ds_reapers = {}, ds_tokens = {''t1''}\<rparr>"

definition sample_invokers :: invokers where
  "sample_invokers = \<lparr>iv_wasm = Some (\<lambda>_ _ _. Inr []), iv_native = None, iv_compiled = None, iv_answer = (\<lambda>_. None), iv_retry = (\<lambda>_. None),
     iv_host_envelope = (\<lambda>_. None), iv_lower = id\<rparr>"

definition sample_input :: attempt_input where
  "sample_input = \<lparr>ai_env = sample_denv 7 [], ai_wait = ''5m'', ai_sub = Some sample_sub, ai_provider = (\<lambda>_. Inr []), ai_verdict = (\<lambda>_ _. None),
     ai_invokers = sample_invokers, ai_leaseLost = False, ai_stopping = False\<rparr>"

definition sample_act :: ledger_op where
  "sample_act = LAct sample_input sample_delivery"

lemma sample_delivery_fields:
  "d_Status sample_delivery = DPending" "d_ID sample_delivery = ''u1''" "d_Attempts sample_delivery = 1"
  "d_NextAttemptAt sample_delivery = Some 0" "d_LeaseUntil sample_delivery = Some 120000000000" "d_LeaseToken sample_delivery = ''t1''"
  "d_Payload sample_delivery = Some (NotObj ''1'')"
  by (simp_all add: sample_delivery_def new_delivery_def Let_def sample_denv_def defaultOptions_def ms_def)

lemma sample_history: "ledger_history defaultOptions sample_ledger"
proof -
  have "dstep defaultOptions ds_init (Some (LInsert sample_delivery)) sample_ledger"
    using d_enqueue[of "sample_denv 0 ''t1''" ds_init sample_delivery defaultOptions "''org''" "''pos.sale''" "''o1''" "''pos''" sample_ce "NotObj ''1''" sample_sub]
    by (simp add: sample_delivery_def sample_ledger_def ds_init_def fresh_token_def fresh_id_def sample_denv_def insert_delivery_def)
  then show ?thesis by (rule h_step[OF h_init])
qed

lemma sample_action: "ai_action defaultOptions sample_input sample_delivery = ActDelivered"
  by (simp add: ai_action_def decide_def ai_resolved_def ai_result_def sample_input_def sample_invokers_def invoke_handler_def sample_sub_def
      ToLower_def is_ascii_def lower_char_def guest_call_def guestEnvelopeError_def)

theorem delivery_ends_for_a_reason_witness:
  "\<exists>r'\<in>set (ledger_run defaultOptions sample_act [sample_delivery]).
     d_DeliveryID r' = d_DeliveryID sample_delivery \<and> d_Status r' = DDelivered \<and>
     ends_rightly defaultOptions sample_ledger (Some sample_act) sample_delivery DDelivered"
proof -
  let ?s = "sample_ledger\<lparr>ds_db := ledger_run defaultOptions sample_act [sample_delivery], ds_runs := ds_runs sample_ledger - {sample_delivery}\<rparr>"
  have "dstep defaultOptions sample_ledger (Some sample_act) ?s"
    using d_act[of sample_delivery sample_ledger sample_act sample_input] by (simp add: sample_ledger_def sample_act_def)
  from delivery_ends_for_a_reason[OF sample_history options_reachable_ok(1) _ sample_delivery_fields(1) this]
  obtain r' where r': "r' \<in> set (ledger_run defaultOptions sample_act [sample_delivery])" "d_DeliveryID r' = d_DeliveryID sample_delivery"
      "ends_rightly defaultOptions sample_ledger (Some sample_act) sample_delivery (d_Status r')"
    by (auto simp: sample_ledger_def sample_act_def)
  have "d_Status r' = DDelivered"
    using r'(1) by (simp add: sample_act_def sample_action perform_def action_row_def fenced_update_def fenced_def delivered_row_def sample_delivery_fields)
  with r' show ?thesis by auto
qed

section \<open>No delivery is stuck\<close>

definition deliveries_ahead :: "dOptions \<Rightarrow> int \<Rightarrow> (string \<Rightarrow> bool) \<Rightarrow> Delivery \<Rightarrow> ddb \<Rightarrow> ddb" where
  "deliveries_ahead opts now locked r db =
     filter (\<lambda>x. due_delivery (do_maxAttempts opts) now x \<and> \<not> locked (d_DeliveryID x) \<and>
                 (the (d_NextAttemptAt x), d_CreatedAt x) \<le> (the (d_NextAttemptAt r), d_CreatedAt r)) db"

lemma candidate_in_order:
  assumes "r \<in> set db" and "due_delivery (do_maxAttempts opts) now r" and "\<not> locked (d_DeliveryID r)"
    and "length (deliveries_ahead opts now locked r db) \<le> n"
  shows "r \<in> set (claim_candidates opts now locked n db)"
  unfolding claim_candidates_def
  by (rule in_take_sort_key) (use assms in \<open>auto simp: deliveries_ahead_def conj_assoc cong: conj_cong\<close>)

lemma reap_each_at:
  "delivery_at db i = Some r \<Longrightarrow>
   \<exists>r'. delivery_at (snd (reap_each rs db)) i = Some r' \<and>
     (if \<exists>c\<in>set rs. fenced c r then d_Status r' = DDead \<and> d_LastError r' \<noteq> [] else r' = r)"
proof (induction rs arbitrary: db r)
  case (Cons c rs)
  let ?db = "ledger_run defaultOptions (LReap c) db" and ?r = "if fenced c r then reaped_row c r else r"
  have db: "snd (reap_each (c # rs) db) = snd (reap_each rs ?db)" by (simp split: prod.splits)
  from Cons.IH[of ?db ?r] after_reap[OF Cons.prems, of defaultOptions c]
  obtain r' where r': "delivery_at (snd (reap_each rs ?db)) i = Some r'"
    "if \<exists>c\<in>set rs. fenced c ?r then d_Status r' = DDead \<and> d_LastError r' \<noteq> [] else r' = ?r" by auto
  have "d_LastError (reaped_row c r) \<noteq> []" "d_Status (reaped_row c r) = DDead"
    by (simp_all add: reaped_row_def reap_message_def truncErr_def)
  moreover have "\<not> fenced x (reaped_row c r)" for x by (simp add: fenced_def reaped_row_def)
  ultimately show ?case using r' db by (cases "fenced c r") auto
qed simp

text \<open>C33. No delivery is ever stuck. In every reachable state, a pending delivery whose next attempt is due, whose lease, if any, has expired,
  that no other transaction holds locked and that has attempts left is handed out by a poll, with one attempt more, its payload and a fresh
  lease, provided the poll asks for at least as many deliveries as are due at or before it; and one with no attempts left is made dead with a
  reason by the reaper, unless more than fifty such deliveries wait.\<close>

theorem no_delivery_is_stuck:
  assumes "ledger_history opts s" and "options_ok opts" and "r \<in> set (ds_db s)" and "d_Status r = DPending"
    and "the (d_NextAttemptAt r) \<le> de_now e" and "d_LeaseUntil r = None \<or> the (d_LeaseUntil r) < de_now e"
    and "\<not> locked (d_DeliveryID r)" and "length (deliveries_ahead opts (de_now e) locked r (ds_db s)) \<le> n"
    and "length (filter (exhausted (do_maxAttempts opts) (de_now e)) (ds_db s)) \<le> 50"
  shows "if d_Attempts r < do_maxAttempts opts then
           \<exists>c\<in>set (snd (claim_deliveries opts e locked n (ds_db s))).
             d_DeliveryID c = d_DeliveryID r \<and> d_Attempts c = d_Attempts r + 1 \<and> d_Payload c = d_Payload r \<and> d_Payload r \<noteq> None \<and>
             d_LeaseUntil c = Some (de_now e + do_lease opts) \<and> d_LeaseToken c = de_token e
         else \<exists>r'\<in>set (snd (reapExhausted opts (de_now e) (ds_db s))).
             d_DeliveryID r' = d_DeliveryID r \<and> d_Status r' = DDead \<and> d_LastError r' \<noteq> []"
proof -
  have lok: "ledger_ok opts s" using assms(1,2) by (rule ledger_history_ok)
  then have ok: "delivery_ok opts r" "unique_keys (ds_db s)" using assms(3) unique_keys_ok by (auto simp: ledger_ok_def deliveries_ok_def unique_keys_def)
  show ?thesis
  proof (cases "d_Attempts r < do_maxAttempts opts")
    case True
    have "due_delivery (do_maxAttempts opts) (de_now e) r"
      using ok(1) True assms(4-6) by (auto simp: due_delivery_def delivery_ok_def)
    then have "r \<in> set (claim_candidates opts (de_now e) locked n (ds_db s))" using assms(3,7,8) candidate_in_order by blast
    then have "claimed opts e r \<in> set (snd (claim_deliveries opts e locked n (ds_db s)))" using assms(3) by (simp add: set_claimed)
    moreover have "d_Payload (claimed opts e r) = d_Payload r" "d_LeaseUntil (claimed opts e r) = Some (de_now e + do_lease opts)" "d_Payload r \<noteq> None"
      using ok(1) by (simp_all add: claimed_def delivery_ok_def)
    ultimately show ?thesis using True by (auto intro!: bexI[of _ "claimed opts e r"])
  next
    case False
    have "exhausted (do_maxAttempts opts) (de_now e) r" using ok(1) False assms(4,6) by (auto simp: exhausted_def delivery_ok_def)
    then have "r \<in> set (exhausted_rows opts (de_now e) (ds_db s))" using assms(3,9) by (simp add: exhausted_rows_def)
    moreover have "fenced r r" using assms(4) by (simp add: fenced_def)
    ultimately have "\<exists>c\<in>set (exhausted_rows opts (de_now e) (ds_db s)). fenced c r" by blast
    with reap_each_at[OF delivery_at_of[OF ok(2) assms(3)], of "exhausted_rows opts (de_now e) (ds_db s)"]
    obtain r' where "delivery_at (snd (reapExhausted opts (de_now e) (ds_db s))) (d_DeliveryID r) = Some r'" "d_Status r' = DDead" "d_LastError r' \<noteq> []"
      by (auto simp: reapExhausted_def)
    with False show ?thesis using delivery_at_in by force
  qed
qed

theorem no_delivery_is_stuck_witness:
  "\<exists>c\<in>set (snd (claim_deliveries defaultOptions (sample_denv 120000000001 ''t2'') (\<lambda>_. False) 32 [sample_delivery])).
     d_DeliveryID c = d_DeliveryID sample_delivery \<and> d_Attempts c = 2 \<and> d_LeaseToken c = ''t2''"
  using no_delivery_is_stuck[OF sample_history options_reachable_ok(1), of sample_delivery "sample_denv 120000000001 ''t2''" "\<lambda>_. False" 32]
  by (simp add: sample_ledger_def sample_delivery_fields deliveries_ahead_def due_delivery_def exhausted_def sample_denv_def defaultOptions_def)
     blast

end
