(* ===== verification/Dispatch_Routing.thy ===== *)
theory Dispatch_Routing
  imports Dispatch_Properties
begin

text \<open>
  Publications and replays: which deliveries a publication adds and that repeating it adds none, what the delivered payload says about its
  origin, that a replay repeated at once requeues nothing; the bounds of the waits, and the corner cases of the ledger's keys and leases.
\<close>

section \<open>Publications\<close>

lemma new_delivery_fields [simp]:
  "d_DeliveryID (new_delivery opts e org name occ em ce p sub) = deliveryID (de_sha256 e) name occ sub"
  "d_OrganizationID (new_delivery opts e org name occ em ce p sub) = org" "d_Event (new_delivery opts e org name occ em ce p sub) = name"
  "d_Emitter (new_delivery opts e org name occ em ce p sub) = em" "d_Payload (new_delivery opts e org name occ em ce p sub) = Some p"
  "d_Status (new_delivery opts e org name occ em ce p sub) = DPending" "d_AddonKey (new_delivery opts e org name occ em ce p sub) = sb_AddonKey sub"
  "d_SubEvent (new_delivery opts e org name occ em ce p sub) = sb_Event sub" "d_HandlerType (new_delivery opts e org name occ em ce p sub) = sb_HandlerType sub" "d_Export (new_delivery opts e org name occ em ce p sub) = sb_Function sub"
  by (simp_all add: new_delivery_def Let_def)

text \<open>The keys of the deliveries a publication asks for.\<close>

definition wanted_keys :: "(string \<Rightarrow> string) \<Rightarrow> string \<Rightarrow> string \<Rightarrow> Subscription list \<Rightarrow> string set" where
  "wanted_keys sha name occ subs = deliveryID sha name occ ` {sub \<in> set subs. eventMatches (sb_Event sub) name}"

text \<open>A new delivery of a publication, made for the subscription whose key it has.\<close>

definition for_subscriber :: "(string \<Rightarrow> string) \<Rightarrow> string \<Rightarrow> string \<Rightarrow> string \<Rightarrow> string \<Rightarrow> dpayload \<Rightarrow> Subscription list \<Rightarrow> Delivery \<Rightarrow> bool" where
  "for_subscriber sha org name occ em p subs r \<longleftrightarrow>
     d_OrganizationID r = org \<and> d_Event r = name \<and> d_Emitter r = em \<and> d_Payload r = Some p \<and> d_Status r = DPending \<and>
     (\<exists>sub\<in>set subs. eventMatches (sb_Event sub) name \<and> d_DeliveryID r = deliveryID sha name occ sub \<and> d_AddonKey r = sb_AddonKey sub \<and>
        d_SubEvent r = sb_Event sub \<and> d_HandlerType r = sb_HandlerType sub \<and> d_Export r = sb_Function sub)"

lemma insert_delivery_cases:
  "insert_delivery r db = (ok, db') \<Longrightarrow>
   (if ok then d_DeliveryID r \<notin> d_DeliveryID ` set db \<and> db' = db @ [r] else d_DeliveryID r \<in> d_DeliveryID ` set db \<and> db' = db)"
  by (cases "d_DeliveryID r \<in> d_DeliveryID ` set db") (auto simp: insert_delivery_def list_ex_iff image_iff split: if_splits)

lemma enqueue_all_news:
  assumes "\<forall>j. de_sha256 (e j) = sha" and "enqueue_all opts e org name occ em ce p i subs db = (k, db')"
  shows "\<exists>news. db' = db @ news \<and> length news = k \<and> distinct (map d_DeliveryID news) \<and>
     d_DeliveryID ` set news = wanted_keys sha name occ subs - d_DeliveryID ` set db \<and> (\<forall>r\<in>set news. for_subscriber sha org name occ em p subs r)"
  using assms(2)
proof (induction subs arbitrary: i db k)
  case (Cons sub subs)
  show ?case
  proof (cases "eventMatches (sb_Event sub) name")
    case False
    with Cons.prems have "enqueue_all opts e org name occ em ce p (Suc i) subs db = (k, db')" by simp
    from Cons.IH[OF this] False show ?thesis by (auto simp: wanted_keys_def for_subscriber_def)
  next
    case True
    let ?r = "new_delivery opts (e i) org name occ em ce p sub"
    obtain ok db1 where one: "insert_delivery ?r db = (ok, db1)" by (cases "insert_delivery ?r db")
    obtain k1 where rest: "enqueue_all opts e org name occ em ce p (Suc i) subs db1 = (k1, db')" "k = (if ok then Suc k1 else k1)"
      using Cons.prems True one by (auto simp: enqueue_delivery_def split: prod.splits)
    from Cons.IH[OF rest(1)] obtain news where n: "db' = db1 @ news" "length news = k1" "distinct (map d_DeliveryID news)"
      "d_DeliveryID ` set news = wanted_keys sha name occ subs - d_DeliveryID ` set db1" "\<forall>r\<in>set news. for_subscriber sha org name occ em p subs r" by blast
    have w: "wanted_keys sha name occ (sub # subs) = insert (d_DeliveryID ?r) (wanted_keys sha name occ subs)"
      using True assms(1) by (auto simp: wanted_keys_def)
    have f: "for_subscriber sha org name occ em p (sub # subs) ?r" using True assms(1) by (auto simp: for_subscriber_def)
    have m: "\<forall>r\<in>set news. for_subscriber sha org name occ em p (sub # subs) r" using n(5) by (auto simp: for_subscriber_def)
    show ?thesis
    proof (cases ok)
      case True
      then have db1: "db1 = db @ [?r]" "d_DeliveryID ?r \<notin> d_DeliveryID ` set db" using insert_delivery_cases[OF one] by simp_all
      have "d_DeliveryID ?r \<notin> d_DeliveryID ` set news" using n(4) db1 by simp
      with n rest(2) True db1 w f m show ?thesis by (intro exI[of _ "?r # news"]) (auto simp del: new_delivery_fields(1))
    next
      case False
      then have "db1 = db" "d_DeliveryID ?r \<in> d_DeliveryID ` set db" using insert_delivery_cases[OF one] by simp_all
      with n rest(2) False w m show ?thesis by (intro exI[of _ news]) (auto simp del: new_delivery_fields(1))
    qed
  qed
qed (simp add: wanted_keys_def)

lemma enqueue_all_absorbed:
  assumes "\<forall>j. de_sha256 (e j) = sha" and "wanted_keys sha name occ subs \<subseteq> d_DeliveryID ` set db"
  shows "enqueue_all opts e org name occ em ce p i subs db = (0, db)"
proof -
  obtain k db' where eq: "enqueue_all opts e org name occ em ce p i subs db = (k, db')" by (cases "enqueue_all opts e org name occ em ce p i subs db")
  from enqueue_all_news[OF assms(1) eq] obtain news where "db' = db @ news" "length news = k"
    "d_DeliveryID ` set news = wanted_keys sha name occ subs - d_DeliveryID ` set db" by metis
  moreover have "wanted_keys sha name occ subs - d_DeliveryID ` set db = {}" using assms(2) by blast
  ultimately show ?thesis using eq by simp
qed

lemma handle_event_routes:
  assumes "provider org = Inr subs" "eventName \<noteq> []" "length eventName \<le> MaxEventNameLen" "prepare e cx org eventName raw = (name, occ, ce, p)"
  shows "handle_event opts e cx provider org eventName (Some raw) db =
    (case enqueue_all opts (pe_ledger e) org name occ (cx_emitter cx) ce p 0 subs db of (k, db') \<Rightarrow> (k, None, db'))"
  using assms by (simp add: handle_event_def)

text \<open>A publication reaches every subscriber once. With the host's subscriptions at hand, handling an event adds to the ledger exactly one
  pending delivery for each delivery key of a matching subscription that the ledger does not have, each with the organization, event name,
  emitter and payload of the publication and the handler of a matching subscription, and reports their number; handling an event
  again under the same name and occurrence adds nothing and reports zero.\<close>

lemma handled_event_is_recorded:
  assumes "provider org = Inr subs" and "eventName \<noteq> []" and "length eventName \<le> MaxEventNameLen"
    and "prepare e cx org eventName raw = (name, occ, ce, p)" and "\<forall>j. de_sha256 (pe_ledger e j) = sha"
    and "handle_event opts e cx provider org eventName (Some raw) db = (k, err, db')"
  shows "err = None \<and>
    (\<exists>news. db' = db @ news \<and> length news = k \<and> distinct (map d_DeliveryID news) \<and>
       d_DeliveryID ` set news = deliveryID sha name occ ` {sub \<in> set subs. eventMatches (sb_Event sub) name} - d_DeliveryID ` set db \<and>
       (\<forall>r\<in>set news. for_subscriber sha org name occ (cx_emitter cx) p subs r)) \<and>
    (\<forall>e' cx' raw' ce' p'. prepare e' cx' org eventName raw' = (name, occ, ce', p') \<longrightarrow> (\<forall>j. de_sha256 (pe_ledger e' j) = sha) \<longrightarrow>
       handle_event opts e' cx' provider org eventName (Some raw') db' = (0, None, db'))"
proof -
  have eq: "err = None" "enqueue_all opts (pe_ledger e) org name occ (cx_emitter cx) ce p 0 subs db = (k, db')"
    using assms(6) handle_event_routes[of provider org subs eventName e cx raw name occ ce p opts db] assms(1-4) by (auto split: prod.splits)
  from enqueue_all_news[OF assms(5) eq(2)] obtain news where n: "db' = db @ news" "length news = k" "distinct (map d_DeliveryID news)"
    "d_DeliveryID ` set news = wanted_keys sha name occ subs - d_DeliveryID ` set db" "\<forall>r\<in>set news. for_subscriber sha org name occ (cx_emitter cx) p subs r" by blast
  have "wanted_keys sha name occ subs \<subseteq> d_DeliveryID ` set db'" using n(1,4) by (auto simp: image_Un)
  note absorbed = enqueue_all_absorbed[OF _ this]
  have "handle_event opts e' cx' provider org eventName (Some raw') db' = (0, None, db')"
    if "prepare e' cx' org eventName raw' = (name, occ, ce', p')" "\<forall>j. de_sha256 (pe_ledger e' j) = sha" for e' cx' raw' ce' p'
    using handle_event_routes[of provider org subs eventName e' cx' raw' name occ ce' p' opts db'] absorbed[OF that(2)]
      assms(1-3) that(1) by simp
  with eq(1) n show ?thesis unfolding wanted_keys_def by blast
qed

definition sample_meta :: Meta where
  "sample_meta = \<lparr>me_ID = [], me_Version = 0, me_OccurredAt = [], me_AggregateType = [], me_AggregateID = [], me_Sequence = 0, me_CausationID = []\<rparr>"

definition sample_cx :: pub_ctx where
  "sample_cx = \<lparr>cx_actor = ''ana'', cx_branch = [], cx_correlation = [], cx_causation = [], cx_emitter = ''pos'', cx_meta = sample_meta\<rparr>"

definition sample_pe :: pub_env where
  "sample_pe =
     \<lparr>pe_ledger = (\<lambda>_. sample_denv 0 ''t1''), pe_decode = (\<lambda>_. sample_ce), pe_bytes = (\<lambda>_. []), pe_uuid_ok = (\<lambda>_. False), pe_fresh = ''f'',
      pe_rfc3339 = ''now'', pe_resolver = None\<rparr>"

lemma sample_prepare: "\<exists>ce p. prepare sample_pe sample_cx ''org'' ''pos.sale'' raw = (''pos.sale'', ''o1'', ce, p)"
  by (simp add: prepare_def Let_def sample_pe_def sample_cx_def sample_ce_def sample_meta_def with_actor_def with_branch_def checkModelKey_def occurrence_of_def)

section \<open>Origin\<close>

lemma map_of_set_member: "map_of (set_member k v m) = (map_of m)(k \<mapsto> v)"
  by (induction k v m rule: set_member.induct) auto

definition members :: "dpayload \<Rightarrow> (string \<Rightarrow> jval option)" where
  "members p = (case p of Obj m \<Rightarrow> map_of m | NotObj _ \<Rightarrow> Map.empty)"

definition is_object :: "dpayload \<Rightarrow> bool" where
  "is_object p = (case p of Obj _ \<Rightarrow> True | NotObj _ \<Rightarrow> False)"

lemma stamp_members [simp]:
  "is_object p \<Longrightarrow> members (stampString k v p) = (members p)(k \<mapsto> JString v)"
  "is_object p \<Longrightarrow> members (stampEnvelope env p) = (members p)(''envelope'' \<mapsto> JEnvelope env)"
  "is_object (stampString k v p) = is_object p" "is_object (stampEnvelope env p) = is_object p" "is_object (stampEventName n p) = is_object p"
  by (auto simp: members_def is_object_def stampString_def stampEnvelope_def stampEventName_def map_of_set_member split: dpayload.splits)

definition same_event :: "canonicalEvent \<Rightarrow> canonicalEvent \<Rightarrow> bool" where
  "same_event ce ce' \<longleftrightarrow> ce_ID ce' = ce_ID ce \<and> ce_Model ce' = ce_Model ce \<and> ce_OccurrenceID ce' = ce_OccurrenceID ce \<and>
     ce_CorrelationID ce' = ce_CorrelationID ce"

lemma with_actor_frame:
  "with_actor cx ce p = (ce', p') \<Longrightarrow> is_object p \<Longrightarrow> is_object p' \<and> same_event ce ce' \<and> ce_BranchID ce' = ce_BranchID ce \<and>
     (cx_actor cx \<noteq> [] \<and> (ce_ID ce = [] \<or> ce_Model ce = [] \<or> ce_ActorID ce = []) \<longrightarrow>
        ce_ActorID ce' = cx_actor cx \<and> members p' ''actor_id'' = Some (JString (cx_actor cx)))"
  by (auto simp: with_actor_def stampActorID_def same_event_def split: if_splits)

lemma with_branch_frame:
  "with_branch ok cx ce p = (ce', p') \<Longrightarrow> is_object p \<Longrightarrow>
   is_object p' \<and> same_event ce ce' \<and> ce_ActorID ce' = ce_ActorID ce \<and> members p' ''actor_id'' = members p ''actor_id'' \<and>
   (\<not> ok (ce_BranchID ce) \<longrightarrow> ce_BranchID ce' = cx_branch cx \<and>
      (cx_branch cx \<noteq> [] \<longrightarrow> members p' ''branch_id'' = Some (JString (cx_branch cx))))"
  by (auto simp: with_branch_def same_event_def split: if_splits)

text \<open>C34. What a delivered object says about its origin. Whatever the emitter wrote into its payload, the member \<^verbatim>\<open>emitter\<close> is the
  emitter the bus saw, and the member \<^verbatim>\<open>envelope\<close> is the host's: its source is that emitter, and its organization, routed name,
  version, time, sequence number and cause are those of the bus and of the publisher's context, as is the aggregate when the context
  names one. The acting user, the branch, the correlation and the publication id are the context's only when the decoded payload leaves
  room: the user, if the context has one, unless the payload decodes to an event with an id, a model and an actor of its own; the branch unless
  the payload has a valid one; the correlation and the id unless the payload has its own.\<close>

theorem delivered_origin_is_the_hosts:
  assumes "prepare e cx org eventName (Obj m) = (name, occ, ce, p)" and "cx_emitter cx \<noteq> []"
    and "dec = pe_decode e (stampEventName eventName (Obj m))" and "meta = cx_meta cx"
  shows "members p ''emitter'' = Some (JString (cx_emitter cx)) \<and>
    (\<exists>env. members p ''envelope'' = Some (JEnvelope env) \<and> env_Schema env = ''metacore.event/1'' \<and> env_Source env = cx_emitter cx \<and>
       env_OrgID env = org \<and> env_Name env = name \<and> env_ID env = occ \<and> env_Generation env = 0 \<and>
       env_Version env = (if me_Version meta \<le> 0 then 1 else me_Version meta) \<and>
       env_OccurredAt env = (if me_OccurredAt meta = [] then pe_rfc3339 e else me_OccurredAt meta) \<and> env_Sequence env = me_Sequence meta \<and>
       env_CausationID env = (if me_CausationID meta = [] then cx_causation cx else me_CausationID meta) \<and>
       (me_AggregateType meta \<noteq> [] \<and> me_AggregateID meta \<noteq> [] \<longrightarrow> env_Aggregate env = Some (me_AggregateType meta, me_AggregateID meta)) \<and>
       (cx_actor cx \<noteq> [] \<and> (ce_ID dec = [] \<or> ce_Model dec = [] \<or> ce_ActorID dec = []) \<longrightarrow>
          members p ''actor_id'' = Some (JString (cx_actor cx)) \<and> env_ActorID env = cx_actor cx) \<and>
       (\<not> pe_uuid_ok e (ce_BranchID dec) \<longrightarrow> env_BranchID env = cx_branch cx \<and>
          (cx_branch cx \<noteq> [] \<longrightarrow> members p ''branch_id'' = Some (JString (cx_branch cx)))) \<and>
       (ce_CorrelationID dec = [] \<longrightarrow> env_CorrelationID env = cx_correlation cx) \<and>
       (ce_OccurrenceID dec = [] \<and> me_ID meta \<noteq> [] \<longrightarrow> env_ID env = me_ID meta))"
proof -
  let ?p0 = "stampEventName eventName (Obj m)"
  have o0: "is_object ?p0" using stamp_members(5)[of eventName "Obj m"] by (simp add: is_object_def[of "Obj m"])
  obtain ce1 p1 where a: "with_actor cx (pe_decode e ?p0) ?p0 = (ce1, p1)" by (cases "with_actor cx (pe_decode e ?p0) ?p0")
  obtain ce2 p2 where b: "with_branch (pe_uuid_ok e) cx ce1 p1 = (ce2, p2)" by (cases "with_branch (pe_uuid_ok e) cx ce1 p1")
  note A = with_actor_frame[OF a o0, folded assms(3)] and B = with_branch_frame[OF b]
  have n: "ce = (if ce_CorrelationID ce2 = [] then ce2\<lparr>ce_CorrelationID := cx_correlation cx\<rparr> else ce2)" "occ = occurrence_of e cx ce2 p2"
    "p = stampEnvelope (buildEnvelope e cx org name occ (cx_emitter cx) ce) (stampString ''emitter'' (cx_emitter cx) p2)"
    using assms(1,2) a b by (auto simp: prepare_def Let_def)
  have "is_object p2" using A B by simp
  then have mem: "members p = (members p2)(''emitter'' \<mapsto> JString (cx_emitter cx), ''envelope'' \<mapsto> JEnvelope (buildEnvelope e cx org name occ (cx_emitter cx) ce))"
    using n(3) by simp
  have s: "ce_ActorID ce = ce_ActorID ce2" "ce_BranchID ce = ce_BranchID ce2"
    "ce_CorrelationID ce2 = [] \<Longrightarrow> ce_CorrelationID ce = cx_correlation cx" by (simp_all add: n(1))
  have o: "ce_OccurrenceID dec = [] \<and> me_ID meta \<noteq> [] \<longrightarrow> occ = me_ID meta"
    using A B assms(4) by (simp add: n(2) occurrence_of_def same_event_def)
  show ?thesis using A B s o assms(2,4) by (simp add: mem buildEnvelope_def Let_def same_event_def)
qed

theorem delivered_origin_is_the_hosts_witness:
  "let p = snd (snd (snd (prepare sample_pe sample_cx ''org'' ''pos.sale'' (Obj [(''emitter'', JString ''bank''), (''actor_id'', JString ''eve'')]))))
   in members p ''emitter'' = Some (JString ''pos'') \<and> members p ''actor_id'' = Some (JString ''ana'')"
proof -
  let ?raw = "Obj [(''emitter'', JString ''bank''), (''actor_id'', JString ''eve'')]"
  obtain ce p where pr: "prepare sample_pe sample_cx ''org'' ''pos.sale'' ?raw = (''pos.sale'', ''o1'', ce, p)" using sample_prepare by blast
  have e: "cx_emitter sample_cx = ''pos''" "cx_actor sample_cx = ''ana''" by (simp_all add: sample_cx_def)
  have d: "ce_ID (pe_decode sample_pe q) = []" for q by (simp add: sample_pe_def sample_ce_def)
  from delivered_origin_is_the_hosts[OF pr _ refl refl] show ?thesis by (auto simp: e pr d Let_def)
qed

text \<open>A decoded event with an id, a model and an actor counts as built by the host: then its own actor stays.\<close>

lemma emitter_chosen_actor_stays:
  "ce_ID ce \<noteq> [] \<Longrightarrow> ce_Model ce \<noteq> [] \<Longrightarrow> ce_ActorID ce \<noteq> [] \<Longrightarrow> with_actor cx ce p = (ce, p)"
  by (simp add: with_actor_def)

section \<open>Replays\<close>

text \<open>The key of the next generation of a delivery.\<close>

definition generation_key :: "(string \<Rightarrow> string) \<Rightarrow> Delivery \<Rightarrow> string" where
  "generation_key sha r = replayDeliveryID sha (if d_RootDeliveryID r = [] then d_DeliveryID r else d_RootDeliveryID r) (d_Generation r + 1)"

definition with_payload :: "ddb \<Rightarrow> ddb" where
  "with_payload rs = filter (\<lambda>r. d_Payload r \<noteq> None) rs"

lemma with_payload_simps [simp]: "with_payload [] = []" "d_Payload r = None \<Longrightarrow> with_payload (r # rs) = with_payload rs"
  "d_Payload r = Some p \<Longrightarrow> with_payload (r # rs) = r # with_payload rs"
  by (simp_all add: with_payload_def)

lemma next_generation_fields:
  "d_DeliveryID (next_generation e r p) = generation_key (de_sha256 e) r" "d_Status (next_generation e r p) = DPending"
  by (simp_all add: next_generation_def Let_def generation_key_def)

lemma replay_each_news:
  assumes "\<forall>j. de_sha256 (e j) = sha" and "replay_each e i rs res db = (res', db')"
  shows "\<exists>news. db' = db @ news \<and> rr_Requeued res' = rr_Requeued res + length news \<and>
     rr_Requeued res' + rr_Existing res' = rr_Requeued res + rr_Existing res + length (with_payload rs) \<and>
     rr_NoPayload res' = rr_NoPayload res + length (filter (\<lambda>r. d_Payload r = None) rs) \<and>
     (\<forall>x\<in>set news. \<exists>j. \<exists>r\<in>set rs. \<exists>p. d_Payload r = Some p \<and> x = next_generation (e j) r p) \<and>
     generation_key sha ` set (with_payload rs) \<subseteq> d_DeliveryID ` set db'"
  using assms(2)
proof (induction rs arbitrary: i res db)
  case (Cons r rs)
  show ?case
  proof (cases "d_Payload r")
    case None
    with Cons.prems have "replay_each e (Suc i) rs (res\<lparr>rr_NoPayload := rr_NoPayload res + 1\<rparr>) db = (res', db')" by simp
    from Cons.IH[OF this] None show ?thesis by auto
  next
    case (Some p)
    let ?x = "next_generation (e i) r p"
    have key: "d_DeliveryID ?x = generation_key sha r" using assms(1) by (simp add: next_generation_fields)
    obtain ok db1 where one: "insert_delivery ?x db = (ok, db1)" by (cases "insert_delivery ?x db")
    let ?res = "if ok then res\<lparr>rr_Requeued := rr_Requeued res + 1\<rparr> else res\<lparr>rr_Existing := rr_Existing res + 1\<rparr>"
    have "replay_each e (Suc i) rs ?res db1 = (res', db')" using Cons.prems Some one by (cases ok) simp_all
    from Cons.IH[OF this] obtain news where n: "db' = db1 @ news" "rr_Requeued res' = rr_Requeued ?res + length news"
      "rr_Requeued res' + rr_Existing res' = rr_Requeued ?res + rr_Existing ?res + length (with_payload rs)"
      "rr_NoPayload res' = rr_NoPayload ?res + length (filter (\<lambda>r. d_Payload r = None) rs)"
      "\<forall>x\<in>set news. \<exists>j. \<exists>r\<in>set rs. \<exists>p. d_Payload r = Some p \<and> x = next_generation (e j) r p"
      "generation_key sha ` set (with_payload rs) \<subseteq> d_DeliveryID ` set db'" by blast
    have db1: "db1 = (if ok then db @ [?x] else db)" "generation_key sha r \<in> d_DeliveryID ` set db1"
      using insert_delivery_cases[OF one] key by (auto split: if_splits)
    have "set db1 \<subseteq> set db'" using n(1) by simp
    then have "generation_key sha ` set (with_payload (r # rs)) \<subseteq> d_DeliveryID ` set db'" using db1(2) n(6) Some by auto
    moreover have "\<exists>j. \<exists>r'\<in>set (r # rs). \<exists>p. d_Payload r' = Some p \<and> x = next_generation (e j) r' p" if "x \<in> insert ?x (set news)" for x
      using that n(5) Some by (metis insertE list.set_intros)
    ultimately show ?thesis
      using n(1-4) db1(1) Some by (intro exI[of _ "if ok then ?x # news else news"] conjI ballI) (simp_all split: if_splits)
  qed
qed simp

lemma replay_each_absorbed:
  assumes "\<forall>j. de_sha256 (e j) = sha" and "generation_key sha ` set (with_payload rs) \<subseteq> d_DeliveryID ` set db"
  shows "replay_each e i rs res db =
    (res\<lparr>rr_Existing := rr_Existing res + length (with_payload rs), rr_NoPayload := rr_NoPayload res + length (filter (\<lambda>r. d_Payload r = None) rs)\<rparr>, db)"
  using assms(2)
proof (induction rs arbitrary: i res)
  case (Cons r rs)
  show ?case
  proof (cases "d_Payload r")
    case None
    with Cons show ?thesis by simp
  next
    case (Some p)
    have "d_DeliveryID (next_generation (e i) r p) \<in> d_DeliveryID ` set db" using Cons.prems Some assms(1) by (auto simp: next_generation_fields)
    then have "insert_delivery (next_generation (e i) r p) db = (False, db)" by (auto simp: insert_delivery_def list_ex_iff)
    with Cons Some show ?thesis by simp
  qed
qed simp

text \<open>C35. Replays. A replay that does not select pending deliveries keeps every row of the ledger and appends one pending delivery of the next
  generation, with its payload, for each selected delivery it counts as requeued; asked again at once, it selects the same deliveries,
  requeues none of them and leaves the ledger as it is, so that a repeated request does not deliver twice.\<close>

theorem repeated_replay_requeues_nothing:
  assumes "Replay e f db = (res, db')" and "DPending \<notin> set (rf_Statuses f)" and "\<forall>j. de_sha256 (e j) = sha" and "\<forall>j. de_sha256 (e' j) = sha"
  shows "(\<exists>news. db' = db @ news \<and> length news = rr_Requeued res \<and>
       (\<forall>x\<in>set news. \<exists>j. \<exists>r\<in>set (replay_rows f db). \<exists>p. d_Payload r = Some p \<and> x = next_generation (e j) r p)) \<and>
    Replay e' f db' = (\<lparr>rr_Requeued = 0, rr_Existing = rr_Requeued res + rr_Existing res, rr_NoPayload = rr_NoPayload res\<rparr>, db')"
proof -
  have run: "replay_each e 0 (replay_rows f db) \<lparr>rr_Requeued = 0, rr_Existing = 0, rr_NoPayload = 0\<rparr> db = (res, db')" using assms(1) by (simp add: Replay_def)
  from replay_each_news[OF assms(3) this] obtain news where n: "db' = db @ news" "rr_Requeued res = length news"
    "rr_Requeued res + rr_Existing res = length (with_payload (replay_rows f db))"
    "rr_NoPayload res = length (filter (\<lambda>r. d_Payload r = None) (replay_rows f db))"
    "\<forall>x\<in>set news. \<exists>j. \<exists>r\<in>set (replay_rows f db). \<exists>p. d_Payload r = Some p \<and> x = next_generation (e j) r p"
    "generation_key sha ` set (with_payload (replay_rows f db)) \<subseteq> d_DeliveryID ` set db'"
    unfolding ReplayResult.select_convs add_0 by blast
  have "\<not> replay_selects f x" if "x \<in> set news" for x
  proof -
    have "d_Status x = DPending" using n(5) that by (auto simp: next_generation_fields)
    then show ?thesis using assms(2) by (auto simp: replay_selects_def)
  qed
  then have "filter (replay_selects f) db' = filter (replay_selects f) db" using n(1) by (simp add: filter_empty_conv)
  then have same: "replay_rows f db' = replay_rows f db" by (simp add: replay_rows_def)
  from replay_each_absorbed[OF assms(4) n(6)] have "Replay e' f db' = (\<lparr>rr_Requeued = 0, rr_Existing = rr_Requeued res + rr_Existing res, rr_NoPayload = rr_NoPayload res\<rparr>, db')"
    unfolding Replay_def same by (simp add: n(3,4))
  with n show ?thesis by auto
qed

definition sample_filter :: ReplayFilter where
  "sample_filter = \<lparr>rf_OrgID = None, rf_AddonKey = ''stock'', rf_Event = [], rf_From = None, rf_To = None, rf_Statuses = [], rf_Limit = 0\<rparr>"

theorem repeated_replay_requeues_nothing_witness:
  "let db = snd (Replay (\<lambda>_. sample_denv 9 []) sample_filter [delivered_row 5 1 sample_delivery])
   in length db = 2 \<and> snd (Replay (\<lambda>_. sample_denv 10 []) sample_filter db) = db"
proof -
  let ?r = "delivered_row 5 1 sample_delivery"
  obtain res db where h: "Replay (\<lambda>_. sample_denv 9 []) sample_filter [?r] = (res, db)" by (cases "Replay (\<lambda>_. sample_denv 9 []) sample_filter [?r]")
  have f: "d_Status ?r = DDelivered" "d_AddonKey ?r = ''stock''" "d_Payload ?r = Some (NotObj ''1'')" "d_Generation ?r = 0"
    "d_RootDeliveryID ?r = d_DeliveryID ?r"
    by (simp_all add: delivered_row_def sample_delivery_def new_delivery_def Let_def sample_sub_def)
  then have "replay_rows sample_filter [?r] = [?r]" by (simp add: replay_rows_def replay_selects_def sample_filter_def)
  moreover have "length (d_DeliveryID ?r) < length (generation_key (\<lambda>s. s) ?r)"
    using f(5) by (simp add: generation_key_def replayDeliveryID_def length_hex_encode)
  then have "d_DeliveryID ?r \<noteq> generation_key (\<lambda>s. s) ?r" by auto
  ultimately have "rr_Requeued res = 1" using h f by (auto simp: Replay_def insert_delivery_def next_generation_fields sample_denv_def)
  with repeated_replay_requeues_nothing[OF h, of "\<lambda>s. s" "\<lambda>_. sample_denv 10 []"] h show ?thesis
    by (auto simp: sample_filter_def sample_denv_def)
qed

section \<open>Waits\<close>

lemma backoffFor_bounds:
  assumes "0 < do_retryBackoff opts" and "0 < do_retryBackoffMax opts" and "\<And>n. 0 < n \<Longrightarrow> 0 \<le> rnd n \<and> rnd n < n"
  shows "0 < backoffFor opts rnd attempt \<and> backoffFor opts rnd attempt \<le> do_retryBackoffMax opts + do_retryBackoffMax opts div 5"
proof -
  define w where "w = (let w0 = shift_left (do_retryBackoff opts) (attempt - 2) in if w0 \<le> 0 \<or> w0 > do_retryBackoffMax opts then do_retryBackoffMax opts else w0)"
  have w: "0 < w" "w \<le> do_retryBackoffMax opts" using assms(2) by (auto simp: w_def Let_def)
  have j: "0 \<le> rnd (w div 5 * 2 + 1)" "rnd (w div 5 * 2 + 1) \<le> w div 5 * 2"
    using assms(3)[of "w div 5 * 2 + 1"] w(1) by (auto simp: add_pos_nonneg)
  have "w div 5 \<le> do_retryBackoffMax opts div 5" "0 \<le> w div 5" using w by (auto intro: zdiv_mono1)
  moreover have "backoffFor opts rnd attempt = (if w + (rnd (w div 5 * 2 + 1) - w div 5) > 0 then w + (rnd (w div 5 * 2 + 1) - w div 5) else w)"
    using assms(1) by (simp add: backoffFor_def w_def Let_def)
  ultimately show ?thesis using w j by auto
qed

lemma msToDuration_bounds: "0 \<le> msToDuration m \<and> msToDuration m \<le> maxRetryAfter"
  by (auto simp: msToDuration_def Let_def maxRetryAfter_def ms_def split: option.splits)

lemma msToDuration_exact: "0 < m \<Longrightarrow> m \<le> 9223372036854 \<Longrightarrow> msToDuration (Some m) = min (m * ms) maxRetryAfter"
  by (simp add: msToDuration_def Let_def ms_def maxRetryAfter_def wrap64_id)

text \<open>Beyond that the product wraps around before it is capped: a wait of 584 years becomes half a millisecond.\<close>

lemma msToDuration_wraps: "msToDuration (Some 18446744073710) = 448384"
  by (simp add: msToDuration_def Let_def ms_def maxRetryAfter_def wrap64_def)

section \<open>Corner cases\<close>

text \<open>The key of a delivery does not contain the organization: a delivery of another organization under the same occurrence is taken for a
  repetition.\<close>

lemma other_organization_is_absorbed:
  assumes "enqueue_delivery opts e org1 name occ em1 ce1 p1 sub1 db = (ok, db')" and "de_sha256 e' = de_sha256 e"
    and "sb_AddonKey sub2 = sb_AddonKey sub1" "sb_Event sub2 = sb_Event sub1" "sb_HandlerType sub2 = sb_HandlerType sub1" "sb_Function sub2 = sb_Function sub1"
  shows "enqueue_delivery opts' e' org2 name occ em2 ce2 p2 sub2 db' = (False, db')"
proof -
  have "deliveryID (de_sha256 e') name occ sub2 = deliveryID (de_sha256 e) name occ sub1" using assms(2-) by (simp add: deliveryID_def delivery_text_def)
  moreover have "deliveryID (de_sha256 e) name occ sub1 \<in> d_DeliveryID ` set db'"
    using insert_delivery_cases[OF assms(1)[unfolded enqueue_delivery_def]] by (auto split: if_splits)
  ultimately show ?thesis by (auto simp: enqueue_delivery_def insert_delivery_def list_ex_iff)
qed

text \<open>Two different publications can have one key: a zero byte inside a field is not told from the end of one.\<close>

lemma delivery_text_ambiguous:
  "delivery_text (a @ [CHR 0x00] @ b) c (sub\<lparr>sb_AddonKey := k\<rparr>) = delivery_text a b (sub\<lparr>sb_AddonKey := c, sb_Event := k @ [CHR 0x00] @ sb_Event sub\<rparr>)"
  by (simp add: delivery_text_def)

text \<open>A handler type nobody serves is retried like any other failure.\<close>

lemma unsupported_handler_is_retried:
  assumes "ToLower (iv_lower iv) (sb_HandlerType sub) \<notin> {''wasm'', ''native'', ''compiled''}" and "d_Attempts r < do_maxAttempts opts"
  shows "\<exists>err delay msg. invoke_handler iv org p sub = Some err \<and> after_failure opts e wt r err = ActReschedule delay msg False None"
  using assms by (simp add: invoke_handler_def Let_def after_failure_def isNotReady_def)

text \<open>A reaper's write does not look at the lease again: a row found expired and renewed since is still made dead.\<close>

lemma renewed_lease_can_be_reaped:
  "d_Status r = DPending \<Longrightarrow> reap_one r [heartbeat_row opts now r] = (True, [reaped_row r (heartbeat_row opts now r)])"
  by (simp add: reap_one_def fenced_update_def fenced_def heartbeat_row_def)

text \<open>After the attempts are configured lower, a pending delivery without a lease that has made as many is neither claimed nor reaped.\<close>

lemma lowered_attempts_strand_a_delivery:
  "d_LeaseUntil r = None \<Longrightarrow> do_maxAttempts opts \<le> d_Attempts r \<Longrightarrow>
   \<not> due_delivery (do_maxAttempts opts) now r \<and> \<not> exhausted (do_maxAttempts opts) now r"
  by (simp add: due_delivery_def exhausted_def)

text \<open>An underscore of the event pattern of a replay stands for any character.\<close>

lemma replay_pattern_overreaches: "sql_like (TrimSuffix ''pos_x.*'' ''*'' @ ''%'') ''posix.sold''"
  by code_simp

end
