(* ===== verification/Bus_Properties.thy ===== *)
theory Bus_Properties
  imports Bus_Model Cap_Properties
begin

text \<open>
  The bus with the policy it enforces: every event an addon receives is covered by a subscription its manifest declares, as long as the
  declared targets have the documented form; publications report losses of durable routers and nothing else.
\<close>

section \<open>Patterns\<close>

text \<open>The events a bus pattern stands for.\<close>

lemma eventMatches_iff:
  "eventMatches p e \<longleftrightarrow> p = ''*'' \<or> p = e \<or> (\<exists>pre. p = pre @ ''.*'' \<and> (e = pre \<or> (\<exists>r. e = pre @ ''.'' @ r)))"
  unfolding eventMatches_def HasSuffix_iff HasPrefix_iff Let_def by (auto simp del: append_Cons)

text \<open>The documented form of an \<^verbatim>\<open>event:subscribe\<close> target (\<^verbatim>\<open>docs/permissions.md\<close>): an event name, or a prefix followed by a dot
  and a wildcard.\<close>

definition documented_target :: "string \<Rightarrow> bool" where
  "documented_target t \<longleftrightarrow> CHR ''*'' \<notin> set t \<or> (\<exists>pre. t = pre @ ''.*'' \<and> CHR ''*'' \<notin> set pre)"

lemma star_free_pattern: "CHR ''*'' \<notin> set p \<Longrightarrow> eventMatches p e \<longleftrightarrow> p = e"
  by (auto simp: eventMatches_iff)

lemma dotted_split: "pre @ ''.'' @ r = q @ ''.*'' \<Longrightarrow> q = pre \<or> (\<exists>r'. q = pre @ ''.'' @ r')"
proof (cases r rule: rev_cases)
  case (snoc r1 c)
  assume "pre @ ''.'' @ r = q @ ''.*''"
  then have "(pre @ ''.'' @ r1) @ [c] = (q @ ''.'') @ ''*''" using snoc by simp
  then have "pre @ ''.'' @ r1 = q @ ''.''" by (metis append1_eq_conv)
  then show ?thesis by (cases r1 rule: rev_cases) auto
qed auto

lemma target_bounds_pattern:
  assumes "documented_target t" "covers t p" "eventMatches p e"
  shows "covers t e"
proof -
  consider "CHR ''*'' \<notin> set t" | pre where "t = pre @ ''.*''" "CHR ''*'' \<notin> set pre"
    using assms(1) unfolding documented_target_def by blast
  then show ?thesis
  proof cases
    case 1
    then have "p = t" using assms(2) by (auto simp: covers_def)
    then show ?thesis using assms(3) star_free_pattern[OF 1] by (simp add: covers_def)
  next
    case (2 pre)
    then have "p = t \<or> p = pre \<or> (\<exists>r. p = pre @ ''.'' @ r)" using assms(2) by (cases pre) (auto simp: covers_def)
    then show ?thesis
    proof (elim disjE exE)
      assume "p = pre"
      then show ?thesis using star_free_pattern[OF 2(2)] assms(3) 2(1) by (auto simp: covers_def)
    next
      fix r assume p: "p = pre @ ''.'' @ r"
      have "e = p \<or> (\<exists>q. p = q @ ''.*'' \<and> (e = q \<or> (\<exists>r. e = q @ ''.'' @ r)))"
        using assms(3) p by (auto simp: eventMatches_iff append_eq_Cons_conv)
      then have "e = pre \<or> (\<exists>r. e = pre @ ''.'' @ r)" using p dotted_split[of pre r] by fastforce
      then show ?thesis using 2(1) by (auto simp: covers_def)
    qed (use 2(1) assms(3) in \<open>auto simp: eventMatches_iff covers_def\<close>)
  qed
qed

section \<open>Who receives what\<close>

definition all_subs :: "('p, 'w) Bus \<Rightarrow> ('p, 'w) bus_subscription set" where
  "all_subs b = (\<Union>(pat, ss) \<in> set (bus_subs b). set ss)"

text \<open>The subscriptions a bus can have: those accepted one after the other, with removals in between.\<close>

inductive bus_reach :: "netlib \<Rightarrow> Enforcer option \<Rightarrow> ('p, 'w) Bus \<Rightarrow> bool" for n e where
  start: "bus_reach n e (NewBus e)"
| subscribe: "bus_reach n e b \<Longrightarrow> bus_reach n e (snd (subscribeRouting n k pat h est kind b))"
| unsubscribe: "bus_reach n e b \<Longrightarrow> bus_reach n e (Unsubscribe k b)"

definition filed :: "('p, 'w) Bus \<Rightarrow> bool" where
  "filed b \<longleftrightarrow> (\<forall>(pat, ss) \<in> set (bus_subs b). \<forall>s \<in> set ss. bs_Pattern s = pat)"

lemma set_add_under:
  "(k', vs') \<in> set (add_under k v m) \<Longrightarrow> (k', vs') \<in> set m \<or> k' = k \<and> (\<exists>vs. vs' = vs @ [v] \<and> ((k, vs) \<in> set m \<or> vs = []))"
  by (induction k v m rule: add_under.induct) (auto split: if_splits)

lemma subscribe_filed: "filed b \<Longrightarrow> filed (snd (subscribeRouting n k pat h est kind b))"
  by (auto simp: filed_def subscribeRouting_def dest!: set_add_under split: option.splits if_splits) fastforce

lemma Unsubscribe_filed: "filed b \<Longrightarrow> filed (Unsubscribe k b)"
  by (auto simp: filed_def Unsubscribe_def)

lemma reach_filed: "bus_reach n e b \<Longrightarrow> filed b \<and> bus_enforcer b = e"
proof (induction rule: bus_reach.induct)
  case start
  show ?case by (simp add: filed_def NewBus_def)
next
  case (subscribe b k pat h est kind)
  then show ?case using subscribe_filed by (fastforce simp: subscribeRouting_def split: option.split)
next
  case (unsubscribe b k)
  then show ?case using Unsubscribe_filed[of b k] by (auto simp: Unsubscribe_def[of k b])
qed

lemma all_subs_subscribe:
  "s \<in> all_subs (snd (subscribeRouting n k pat h est kind b)) \<Longrightarrow>
     s \<in> all_subs b \<or> bs_AddonKey s = k \<and> bs_Pattern s = pat \<and> bus_check n b k ''event:subscribe'' pat = None"
  by (auto simp: all_subs_def subscribeRouting_def dest!: set_add_under split: option.splits if_splits)

lemma Unsubscribe_exact: "all_subs (Unsubscribe k b) = {s \<in> all_subs b. bs_AddonKey s \<noteq> k}"
proof -
  have "all_subs (Unsubscribe k b) = (\<Union>(pat, ss) \<in> set (bus_subs b). {s \<in> set ss. bs_AddonKey s \<noteq> k})"
    by (auto simp: all_subs_def Unsubscribe_def split_def filter_empty_conv)
  then show ?thesis by (auto simp: all_subs_def split_def)
qed

text \<open>Every subscription was allowed when it was made.\<close>

lemma reach_allowed: "bus_reach n e b \<Longrightarrow> s \<in> all_subs b \<Longrightarrow> bus_check n b (bs_AddonKey s) ''event:subscribe'' (bs_Pattern s) = None"
proof (induction rule: bus_reach.induct)
  case start
  then show ?case by (simp add: all_subs_def NewBus_def)
next
  case (subscribe b k pat h est kind)
  have "bus_enforcer (snd (subscribeRouting n k pat h est kind b)) = bus_enforcer b" by (simp add: subscribeRouting_def split: option.split)
  then have c: "bus_check n (snd (subscribeRouting n k pat h est kind b)) = bus_check n b" by (simp add: bus_check_def fun_eq_iff)
  show ?case using all_subs_subscribe[OF subscribe.prems] subscribe.IH unfolding c by auto
next
  case (unsubscribe b k)
  have c: "bus_check n (Unsubscribe k b) = bus_check n b" by (simp add: bus_check_def Unsubscribe_def fun_eq_iff)
  show ?case using unsubscribe unfolding c Unsubscribe_exact by simp
qed

lemma matched_subs: "filed b \<Longrightarrow> s \<in> set (matched d b event) \<Longrightarrow> s \<in> all_subs b \<and> eventMatches (bs_Pattern s) event"
  by (auto simp: matched_def all_subs_def filed_def split: if_splits)

text \<open>What the enforcer accepts as a subscription target, a declared one covers.\<close>

lemma subscribe_needs_declaration:
  assumes "en_mode e = ModeEnforce" and "en_Lookup e = Some (\<lambda>k. map_option (Compile L k) (manifest_of k))"
    and "fst (CheckCapability n e k ''event:subscribe'' t) = None"
  shows "\<exists>caps c. manifest_of k = Some caps \<and> c \<in> set caps \<and> mc_Kind c = ''event:subscribe'' \<and> covers (mc_Target c) t"
proof -
  have "violation n e k ''event:subscribe'' t = None" using assms(1,3) by (simp add: CheckCapability_def split: option.splits)
  then obtain caps where "manifest_of k = Some caps" "CanSubscribe (Compile L k caps) t = None"
    using assms(2) by (auto simp: violation_def split: option.splits)
  then show ?thesis by (auto simp: CanSubscribe_def Compile_fields matchAny_targets split: if_splits)
qed

text \<open>C36. With the enforcer on, an addon receives only events its manifest declares: whatever subscriptions are made and removed while
  the manifests stay the same, a subscription of an addon that a publication reaches belongs to a registered addon with a declared
  \<^verbatim>\<open>event:subscribe\<close> target that covers the pattern it subscribed; and a target of the documented form, a name or a prefix followed by a
  dot and a wildcard, then covers the event itself. (For other targets the last part fails, \<open>double_wildcard_subscribes_to_all\<close>.)\<close>

theorem addon_receives_only_declared_events:
  assumes "bus_reach n (Some e) b" and "en_mode e = ModeEnforce" and "en_Lookup e = Some (\<lambda>k. map_option (Compile L k) (manifest_of k))"
    and "s \<in> set (matched durableOnly b event)" and "bs_AddonKey s \<noteq> ''kernel''"
  shows "\<exists>caps c. manifest_of (bs_AddonKey s) = Some caps \<and> c \<in> set caps \<and> mc_Kind c = ''event:subscribe'' \<and>
    covers (mc_Target c) (bs_Pattern s) \<and> (documented_target (mc_Target c) \<longrightarrow> covers (mc_Target c) event)"
proof -
  have b: "filed b" "bus_enforcer b = Some e" using reach_filed[OF assms(1)] by simp_all
  have s: "s \<in> all_subs b" "eventMatches (bs_Pattern s) event" using matched_subs[OF b(1) assms(4)] by simp_all
  then have "fst (CheckCapability n e (bs_AddonKey s) ''event:subscribe'' (bs_Pattern s)) = None"
    using reach_allowed[OF assms(1) s(1)] b(2) assms(5) by (simp add: bus_check_def)
  then obtain caps c where m: "manifest_of (bs_AddonKey s) = Some caps"
    and c: "c \<in> set caps" "mc_Kind c = ''event:subscribe''" "covers (mc_Target c) (bs_Pattern s)"
    using subscribe_needs_declaration[OF assms(2,3)] by blast
  then show ?thesis using target_bounds_pattern[OF _ c(3) s(2)] by blast
qed

definition sample_manifest :: "string \<Rightarrow> manifest_Capability list option" where
  "sample_manifest k = (if k = ''shop'' then Some [\<lparr>mc_Kind = ''event:subscribe'', mc_Target = ''stock.*''\<rparr>] else None)"

definition sample_enforcer :: Enforcer where
  "sample_enforcer = \<lparr>en_mode = ModeEnforce, en_Lookup = Some (\<lambda>k. map_option (Compile id k) (sample_manifest k))\<rparr>"

definition sample_netlib :: netlib where
  "sample_netlib = \<lparr>nl_Parse = (\<lambda>_. None), nl_ParseIP = (\<lambda>_. None), nl_SplitHostPort = (\<lambda>_. None), nl_Atoi = (\<lambda>_. None), nl_lower = id\<rparr>"

definition sample_bus :: "(unit, unit) Bus" where
  "sample_bus = snd (Subscribe sample_netlib ''shop'' ''stock.picked.*'' (\<lambda>em org p w. (None, w)) (NewBus (Some sample_enforcer)))"

theorem addon_receives_only_declared_events_witness:
  "map bs_AddonKey (matched False sample_bus ''stock.picked.a'') = [''shop''] \<and>
   (\<exists>caps. sample_manifest ''shop'' = Some caps \<and> declares_cap caps ''event:subscribe'' ''stock.picked.a'')"
proof -
  have r: "bus_reach sample_netlib (Some sample_enforcer) sample_bus"
    unfolding sample_bus_def Subscribe_def by (rule bus_reach.subscribe[OF bus_reach.start])
  have m: "map bs_AddonKey (matched False sample_bus ''stock.picked.a'') = [''shop'']" by code_simp
  then obtain s where s: "s \<in> set (matched False sample_bus ''stock.picked.a'')" "bs_AddonKey s = ''shop''" by auto
  have d: "documented_target ''stock.*''" unfolding documented_target_def by (intro disjI2 exI[of _ "''stock''"]) simp
  show ?thesis
    using addon_receives_only_declared_events[OF r _ _ s(1), of id sample_manifest] s(2) m d
    by (auto simp: sample_enforcer_def) (auto simp: sample_manifest_def split: if_splits)
qed

text \<open>A target with two wildcards is outside that form, and the check then accepts subscriptions to everything: the declaration \<^verbatim>\<open>*.*\<close>
  admits the pattern \<^verbatim>\<open>*\<close>, although it covers no ordinary event.\<close>

lemma double_wildcard_subscribes_to_all:
  "CanSubscribe (Compile L k [\<lparr>mc_Kind = ''event:subscribe'', mc_Target = ''*.*''\<rparr>]) ''*'' = None \<and> eventMatches ''*'' ''stock.picked'' \<and>
   CanSubscribe (Compile L k [\<lparr>mc_Kind = ''event:subscribe'', mc_Target = ''*.*''\<rparr>]) ''stock.picked'' \<noteq> None"
proof -
  have "covers ''*.*'' ''*''" by (auto simp: covers_def)
  moreover have "\<not> covers ''*.*'' ''stock.picked''" by (simp flip: match_one_covers) code_simp
  ultimately show ?thesis by (simp add: CanSubscribe_def Compile_fields matchAny_targets eventMatches_def)
qed

section \<open>Publication\<close>

lemma publish_denied:
  "bus_check n b k ''event:emit'' event = Some err \<Longrightarrow> event \<noteq> [] \<Longrightarrow> bus_publish n b k event org p d w = (0, Some (Denied err), w)"
  by (simp add: bus_publish_def)

text \<open>Errors of plain handlers are swallowed: a publication fails only for a durable router.\<close>

lemma fan_out_errs: "fan_out em org event p ss w = (k, errs, w') \<Longrightarrow> x \<in> set errs \<Longrightarrow> \<exists>s \<in> set ss. bs_durable s \<and> x = (bs_AddonKey s, bs_Pattern s, snd (snd x))"
  by (induction ss arbitrary: w k errs) (auto split: prod.splits option.splits if_splits)

lemma fan_out_count: "fan_out em org event p ss w = (k, errs, w') \<Longrightarrow> 0 \<le> k"
  by (induction ss arbitrary: w k errs) (auto split: prod.splits)

text \<open>The retry of a durable publisher reaches only durable routers.\<close>

lemma durable_retry: "s \<in> set (matched True b event) \<Longrightarrow> bs_durable s"
  by (auto simp: matched_def split: if_splits)

end
