(* ===== verification/Dispatch_Wire.thy ===== *)
theory Dispatch_Wire
  imports Dispatch_Routing Bus_Properties
begin




definition NewEnforcerChecker :: "netlib \<Rightarrow> (cap_error \<Rightarrow> string) \<Rightarrow> Enforcer option \<Rightarrow> string \<Rightarrow> string \<Rightarrow> string option" where
  "NewEnforcerChecker n msg enf addonKey event =
     (case enf of None \<Rightarrow> None | Some e \<Rightarrow> map_option msg (fst (CheckCapability n e addonKey ''event:subscribe'' event)))"




text \<open>With the host's enforcer as checker, an attempt delivers only to an addon whose manifest declares a subscription that covers the event.\<close>

lemma delivered_needs_declaration:
  assumes "en_mode enf = ModeEnforce" and "en_Lookup enf = Some (\<lambda>k. map_option (Compile L k) (manifest_of k))"
    and "decide opts e wt r resolved (NewEnforcerChecker n msg (Some enf)) result leaseLost stopping = ActDelivered"
  shows "\<exists>sub caps. resolved = Inr (Some sub) \<and> manifest_of (sb_AddonKey sub) = Some caps \<and> declares_cap caps ''event:subscribe'' (d_Event r)"
proof -
  obtain sub where sub: "resolved = Inr (Some sub)" "NewEnforcerChecker n msg (Some enf) (sb_AddonKey sub) (d_Event r) = None"
    using decide_delivered[OF assms(3)] by blast
  then have "fst (CheckCapability n enf (sb_AddonKey sub) ''event:subscribe'' (d_Event r)) = None" by (simp add: NewEnforcerChecker_def)
  from subscribe_needs_declaration[OF assms(1,2) this] sub(1) show ?thesis by blast
qed



end
