(* ===== verification/Spec2Isabelle.thy ===== *)
theory Spec2Isabelle
  imports Ledger_Properties Ledger_Recheck Ledger_Findings Money_Allocate Outbox_Properties Outbox_Bounds Outbox_Admin
    Rules_Properties Idem_Properties Perm_Properties Inbox_Incidents Inbox_Redaction Inbox_Classify
    Emit_Properties Sign_Nonce Sign_Bundle Dispatch_Wire
begin

text \<open>
  \<^bold>\<open>A verification of the core of metacore-kernel.\<close>

  The kernel is a Go library for multi-tenant business applications: a payments ledger between documents, customers
  and payment providers (\<^verbatim>\<open>src/payments\<close>, \<^verbatim>\<open>src/payments/ledger\<close>), exact money arithmetic (\<^verbatim>\<open>src/money\<close>), a
  durable job queue (\<^verbatim>\<open>src/outbox\<close>), replay protection of requests (\<^verbatim>\<open>src/idempotency\<close>), the journal of
  payment notifications and the incident log (\<^verbatim>\<open>src/payments/inbox\<close>, \<^verbatim>\<open>src/incidents\<close>), permissions
  (\<^verbatim>\<open>src/permission\<close>), the policy of what addons may do, whom they may reach and what they may publish, with signed requests and bundles
  (\<^verbatim>\<open>src/security\<close>, \<^verbatim>\<open>src/netguard\<close>), the event bus and the durable delivery of events to addons (\<^verbatim>\<open>src/events\<close>, \<^verbatim>\<open>src/dispatch\<close>),
  the formulas of computed columns and the rules over records (\<^verbatim>\<open>src/manifest/computeexpr\<close>,
  \<^verbatim>\<open>rulesexpr\<close>), and around them addon manifests, a WebAssembly runtime, dynamic records, agents and HTTP
  plumbing. This development models all but those last ones, from the sources, and proves what makes them
  correct: money is neither created nor lost, provider reports move payments only along their lifecycle, nobody pays or
  refunds twice, reservations and leases are exclusive, no queued job, no event delivery and no payment notification is lost, retried requests are answered
  once, what needs a person has an open incident, permissions follow the recorded grants, an addon does only what its manifest
  declares, a signed request is accepted once, and formulas mean the same to the
  evaluator and the database.

  \<^bold>\<open>Theories and sources.\<close>

  \<^item> \<open>Prelude\<close>: the result type, Go's byte strings (\<^verbatim>\<open>strings\<close>), decimal digits, \<^verbatim>\<open>UPDATE .. WHERE\<close> on a table
    kept as a list of rows; \<open>Go_Strings\<close>: more of \<^verbatim>\<open>strings\<close> and \<^verbatim>\<open>strconv\<close>. \<open>Guarded\<close>: the locales \<open>guarded_view\<close> and \<open>guarded_resource\<close>, the contract of a resource
    that only its owner changes; charge holds, reconciler leases and job leases interpret it.

  \<^item> \<open>Pay_Amount\<close> (\<^verbatim>\<open>payments/money.go\<close>), \<open>Pay_Status\<close> (\<^verbatim>\<open>status.go\<close>), \<open>Pay_Model\<close> (\<^verbatim>\<open>model.go\<close>),
    \<open>Pay_Refund\<close> (\<^verbatim>\<open>refund.go\<close>), \<open>Pay_Settle\<close> (\<^verbatim>\<open>settle.go\<close>), \<open>Pay_Hold\<close> (\<^verbatim>\<open>hold.go\<close>), \<open>Pay_Observe\<close>
    (\<^verbatim>\<open>event.go\<close>, \<^verbatim>\<open>observe.go\<close>): the pure rules of payments. Amounts are exact decimals (rationals with the
    syntax of the wire format); statuses are datatypes with the source's transition tables. Shown: parsing and
    printing are inverse, \<^verbatim>\<open>Reachable\<close> decides the forward moves, a valid record has a net amount between zero and
    its amount, refunds never exceed the captured amount, settlements conserve money, holds exclude other callers,
    and an observed outcome is applied only when everything agrees.

  \<^item> \<open>Ledger_State\<close> and \<open>Ledger_Store\<close> (\<^verbatim>\<open>ledger/rows.go\<close>, \<^verbatim>\<open>schema.go\<close>, \<^verbatim>\<open>ledger.go\<close>): tables, constraints,
    environment and providers; \<open>Ledger_Holds\<close>, \<open>Ledger_Observe\<close> (\<^verbatim>\<open>observe.go\<close>), \<open>Ledger_Charge\<close>
    (\<^verbatim>\<open>charge.go\<close>), \<open>Ledger_Refund\<close> (\<^verbatim>\<open>refund.go\<close>), \<open>Ledger_Reconcile\<close> (\<^verbatim>\<open>reconcile.go\<close>): the handlers;
    \<open>Ledger_Steps\<close>: every transaction as a step of a transition system and every handler, whatever the providers
    answer, as a sequence of steps; \<open>Ledger_Invariants\<close>, \<open>Ledger_Properties\<close>, \<open>Ledger_Recheck\<close>: invariants of
    the reachable states and the guarantees of single operations; \<open>Ledger_Samples\<close>: concrete states for the
    witnesses; \<open>Ledger_Findings\<close>: two inputs after which a stored payment violates its own validation.

  \<^item> \<open>Money_Decimal\<close> (\<^verbatim>\<open>money/rounding.go\<close>, \<^verbatim>\<open>decimal.go\<close>), \<open>Money_Core\<close> (\<^verbatim>\<open>money.go\<close>, \<^verbatim>\<open>iso.go\<close>,
    \<^verbatim>\<open>rate.go\<close>), \<open>Money_Allocate\<close> (\<^verbatim>\<open>Money.Allocate\<close>): amounts are 64-bit words. Shown: the rounding modes compute
    the rounding they name, sums refine integer arithmetic or report overflow, conversion rounds once, encodings
    are inverse, allocation adds up exactly.

  \<^item> \<open>Outbox_Model\<close> (\<^verbatim>\<open>outbox/job.go\<close>, \<^verbatim>\<open>service.go\<close>, \<^verbatim>\<open>worker.go\<close>, \<^verbatim>\<open>schema.go\<close>): jobs, the table and its
    statements; \<open>Outbox_Steps\<close>: any interleaving of producers, workers, admins and maintenance as a step relation
    with its invariant; \<open>Outbox_Lemmas\<close>, \<open>Outbox_Properties\<close>: leases are exclusive, jobs end for a reason, none is
    stuck, attempts are bounded, \<^verbatim>\<open>Enqueue\<close> and \<^verbatim>\<open>Retry\<close> respect dedupe keys; \<open>Outbox_Bounds\<close>: backoff without
    wrap-around and error texts in valid UTF-8; \<open>Outbox_Admin\<close> (\<^verbatim>\<open>handler.go\<close>): tenant isolation of the admin
    handlers.

  \<^item> \<open>Idem_Model\<close> (\<^verbatim>\<open>idempotency/store.go\<close>, \<^verbatim>\<open>gorm_store.go\<close>, \<^verbatim>\<open>locker.go\<close>, \<^verbatim>\<open>middleware.go\<close>): the two
    stores of idempotency keys and the middleware flows; \<open>Idem_Properties\<close>: requests of any number of replicas as a
    step relation, in which duplicates never run together although overdue writes are not fenced (and can replace a stored
    response), the answer to a retry, and the bound of the in-memory store.

  \<^item> \<open>Compute_Model\<close> (\<^verbatim>\<open>manifest/computeexpr/expr.go\<close>): lexer, parser, evaluator, SQL renderer and validator of the
    formulas of manifests; \<open>Compute_Parse\<close>: the parser against the grammar, its termination; \<open>Compute_Properties\<close>:
    rendering cannot inject and keeps the meaning, the uses of an expression agree.

  \<^item> \<open>Rules_Model\<close> (\<^verbatim>\<open>manifest/rulesexpr/rulesexpr.go\<close>): comparisons between two such formulas; \<open>Rules_Properties\<close>:
    which texts are rules and that their reading is unique, that every rule evaluates and depends only on its reported
    fields, and which fields those are.

  \<^item> \<open>Perm_Model\<close> (\<^verbatim>\<open>permission/*.go\<close>, the providers of \<^verbatim>\<open>auth/adapters\<close>): capabilities, roles, the two grant
    stores, the cache, the checks and the gate, and the index from models to capabilities that manifests declare;
    \<open>Perm_Properties\<close>: the locale \<open>grant_store\<close>, interpreted by both stores, that checks decide by the visible grants, how
    old a cached grant can be, that the index is exact, and two defects: a revoked grant cannot be granted again, and an
    invalidation can be overtaken by a resolution in progress.

  \<^item> \<open>Incident_Model\<close> (\<^verbatim>\<open>incidents/incidents.go\<close>, \<^verbatim>\<open>payments/incidents/incidents.go\<close>): the incident log and its
    payments face; \<open>Inbox_Redact\<close> (\<^verbatim>\<open>payments/inbox/redact.go\<close>), \<open>Inbox_Model\<close> (\<^verbatim>\<open>model.go\<close>, \<^verbatim>\<open>store.go\<close>,
    \<^verbatim>\<open>incidents.go\<close>, \<^verbatim>\<open>maintenance.go\<close>), \<open>Inbox_Classify\<close> (\<^verbatim>\<open>classify.go\<close>): redaction, the journal and the
    answers to the provider; \<open>Inbox_Steps\<close>: the transactions of the journal as a step relation with its invariant;
    \<open>Inbox_Properties\<close>: what each labelled transaction keeps of a notification, and that none is stuck; \<open>Inbox_Retry\<close>: a call of \<^verbatim>\<open>Resolve\<close> as a run, the number of
    attempts, and a run in which a provider's retry is swallowed; \<open>Inbox_Incidents\<close>: the locale \<open>incident_log\<close>, the
    contract the journal relies on, its interpretation by the payments face, and that outcomes that need a person have
    an open incident; \<open>Inbox_Redaction\<close>: what the stored body and signatures can show.

  \<^item> \<open>Cap_Model\<close> (\<^verbatim>\<open>security/context.go\<close>, \<^verbatim>\<open>enforcer.go\<close>, \<^verbatim>\<open>netguard/netguard.go\<close>): the policy compiled from a manifest, the
    enforcer and the guard of outgoing connections; \<open>Cap_Properties\<close>: a policy grants exactly what is declared, requests stay on
    declared public hosts, the blocked addresses are exactly the reserved IPv4 and IPv6 networks. \<open>Emit_Model\<close> (\<^verbatim>\<open>security/emitpolicy.go\<close>,
    \<^verbatim>\<open>addon_policy.go\<close>, \<^verbatim>\<open>capability/event.go\<close>, \<^verbatim>\<open>manifest/connector_access.go\<close>): which events a guest may publish;
    \<open>Emit_Properties\<close>: the check decides its four rules, and payment events need a provider in every mode.

  \<^item> \<open>Sign_Model\<close> (\<^verbatim>\<open>security/hmac.go\<close>, \<^verbatim>\<open>nonce.go\<close>, \<^verbatim>\<open>signature.go\<close>, \<^verbatim>\<open>webhookdispatch.go\<close>): signatures of requests and
    bundles and the cache of nonces; \<open>Sign_Properties\<close>: the window and what a signature binds, with two gaps in it;
    \<open>Sign_Nonce\<close>: replays, one after the other and, for the cache of nonces, in every interleaving of its atomic steps; \<open>Sign_Bundle\<close>: bundles and dispatched webhooks.

  \<^item> \<open>Bus_Model\<close> (\<^verbatim>\<open>events/events.go\<close>, \<^verbatim>\<open>meta.go\<close>): the event bus; \<open>Bus_Properties\<close>: addons receive only events they declare.
    \<open>Dispatch_Model\<close> (\<^verbatim>\<open>dispatch/delivery.go\<close>, \<^verbatim>\<open>options.go\<close>, \<^verbatim>\<open>envelope.go\<close>, the statements of \<^verbatim>\<open>ledger.go\<close>) and \<open>Dispatch_Run\<close>
    (\<^verbatim>\<open>dispatcher.go\<close>, \<^verbatim>\<open>enqueue.go\<close>, \<^verbatim>\<open>model_key_guard.go\<close>, \<^verbatim>\<open>runClaimed\<close>, \<^verbatim>\<open>Replay\<close>): the ledger of deliveries, the routing of a
    publication, attempts and replays; \<open>Dispatch_Steps\<close>: the statements of all replicas as a step relation, labelled with what an attempt runs with, and its invariant;
    \<open>Dispatch_Properties\<close>: leases, endings and progress of deliveries; \<open>Dispatch_Routing\<close>: origin of payloads, replays, bounds of
    the waits and corner cases; \<open>Dispatch_Wire\<close>: the dispatcher on the bus, from a publication to the ledger.

  \<^bold>\<open>How the code is modelled.\<close>

  \<^item> A Go function returning a value and an error is a HOL function into \<open>error + value\<close>; a panic is an error of its own.
    A struct is a record, an enumeration a datatype; a closed-over variable is an argument. Integers that can overflow
    are \<open>64 word\<close>; times and durations that are only compared and added are integers.

  \<^item> A database table is the list of its rows; unique indexes are predicates every write checks. A transaction, and a
    single statement outside one, is atomic: a function from the database to an error, with nothing changed, or to the
    new database. Concurrency is the interleaving of these: the step relations of the ledger, the queue, the dispatcher and the journal allow any
    order of the steps of any number of callers, and the multi-statement operations of the queue, the journal and the incident
    log take as an argument what other sessions commit in between. Models with a \<^verbatim>\<open>DeletedAt\<close> column keep their deleted
    rows, which only reads skip. Where SQL leaves the order of equal rows open, at a limit, the model takes them in the order
    of the table: the candidates of a poll and the selection of a replay.

  \<^item> What the code takes from outside is an argument, collected in the records \<open>env\<close>, \<open>oenv\<close>, \<open>ienv\<close>, \<open>nenv\<close>,
    \<open>inc_env\<close>, \<open>cenv\<close>, \<open>floats\<close>, \<open>netlib\<close>, \<open>crypto\<close>, \<open>denv\<close>, \<open>pub_env\<close> and \<open>invokers\<close>: the clock (one instant
    per call or round), fresh uuids and tokens, SHA-256, uuid, address and RFC 3339 parsing, JSON decoding, lower case outside ASCII, random numbers, 64-bit floating
    point, the providers' answers. Nothing is assumed of them except where a theorem says so; the step relations of the queue, the dispatcher and the requests draw each
    token at most once (64 random bits), and the clocks of the
    requests' replicas are synchronised.

  \<^item> Loops are structural recursion or functions with a termination measure: \<^verbatim>\<open>Reachable\<close> by the statuses not yet
    seen, trimming and UTF-8 filtering by the length, the provider listing by its own limit of 50 pages,
    \<^verbatim>\<open>Enqueue\<close> and \<^verbatim>\<open>Reserve\<close> by their three rounds. Only the expression parser has fuel: four units per token and
    four more, which is proved to be enough and not to matter.

  \<^bold>\<open>Not modelled.\<close>

  \<^item> I/O errors of the database, logging, metrics and the goroutines, tickers and channels that call the modelled
    operations (\<^verbatim>\<open>Run\<close>, \<^verbatim>\<open>RunOnce\<close>, \<^verbatim>\<open>Start\<close>, \<^verbatim>\<open>Shutdown\<close>, the poll loops): the step relations allow every sequence
    of calls those could make. DDL text and migrations. Money columns keep the text written (the SQLite schema);
    the padding of Postgres' \<^verbatim>\<open>NUMERIC\<close> disappears when a value is read. \<^verbatim>\<open>strings.ToUpper\<close> is exact where its
    result can be ASCII, which is where currency codes are looked up.

  \<^item> The JSON dispatch of the ledger's host contracts and the other subsystems of the repository
    (manifests, runtime, agents, dynamic records, transport, sessions and tokens), which are data declarations, generated SQL,
    cryptography or bindings to foreign systems; the flow engine of the runtime, schedules, licence gates and the ledger's
    host contracts are the next candidates.
\<close>

end
